(* ===== verification/Prelude.thy ===== *)
theory Prelude
  imports Main
begin

text \<open>
  Shared ground of the development: the error values of the API, the result monad that
  models \<open>throw\<close> and early return, the fragment of JavaScript's strings and numbers that
  the code uses (decimal printing and reading, zero padding, comparison by code unit,
  stable sorting), and the lemmas every component leans on.
  A JavaScript string is a \<^typ>\<open>string\<close>, read as Latin-1: one \<^typ>\<open>char\<close> is one
  UTF-16 code unit below 256. An integer \<open>number\<close> is an \<^typ>\<open>int\<close>: every
  integer the modelled code computes stays far below \<open>2 ^ 53\<close>, where doubles are exact.
\<close>

named_theorems res_simps \<open>unfolding of the result monad\<close>
named_theorems inv_intros \<open>preservation of invariants by operations\<close>
named_theorems js_simps \<open>facts on JavaScript strings and numbers\<close>

section \<open>Errors and results\<close>

text \<open>
  The NestJS exceptions and the plain JavaScript errors that the services throw. A coded
  exception carries its \<open>code\<close>; the human-readable message is not modelled.
\<close>

datatype http_error =
    Range_Error
  | Plain_Error
  | Bad_Request string
  | Forbidden string
  | Not_Found string
  | Conflict string
  | Unprocessable string
  | Service_Unavailable string

type_synonym 'a result = "http_error + 'a"

definition res_bind :: "'e + 'a \<Rightarrow> ('a \<Rightarrow> 'e + 'b) \<Rightarrow> 'e + 'b" where
  "res_bind m f = (case m of Inl e \<Rightarrow> Inl e | Inr x \<Rightarrow> f x)"

text \<open>
  Kernel evaluation unfolds the bind to its \<open>case\<close>, so that a continuation is only
  evaluated once its argument is a value.
\<close>

declare res_bind_def [code_unfold]

text \<open>\<open>guard_ok c e\<close> is the statement \<open>if (!c) throw e\<close>.\<close>

definition guard_ok :: "bool \<Rightarrow> 'e \<Rightarrow> 'e + unit" where
  "guard_ok c e = (if c then Inr () else Inl e)"

lemma res_bind_Inl [simp, res_simps]: "res_bind (Inl e) f = Inl e"
  by (simp add: res_bind_def)

lemma res_bind_Inr [simp, res_simps]: "res_bind (Inr x) f = f x"
  by (simp add: res_bind_def)

lemma res_bind_eq_Inr [res_simps]:
  "res_bind m f = Inr y \<longleftrightarrow> (\<exists>x. m = Inr x \<and> f x = Inr y)"
  by (cases m) simp_all

lemma res_bind_eq_Inl [res_simps]:
  "res_bind m f = Inl e \<longleftrightarrow> m = Inl e \<or> (\<exists>x. m = Inr x \<and> f x = Inl e)"
  by (cases m) auto

lemma guard_ok_eq_Inr [simp, res_simps]: "guard_ok c e = Inr u \<longleftrightarrow> c"
  by (simp add: guard_ok_def)

lemma guard_ok_eq_Inl [simp, res_simps]: "guard_ok c e = Inl e' \<longleftrightarrow> \<not> c \<and> e' = e"
  by (auto simp: guard_ok_def)

lemma guard_ok_True [simp]: "guard_ok True e = Inr ()"
  by (simp add: guard_ok_def)

lemma guard_ok_False [simp]: "guard_ok False e = Inl e"
  by (simp add: guard_ok_def)

text \<open>
  A loop whose body may throw, threading a state: the first error stops it, as an
  exception leaves a \<open>for\<close> loop.
\<close>

fun res_fold :: "('a \<Rightarrow> 's \<Rightarrow> 'e + 's) \<Rightarrow> 'a list \<Rightarrow> 's \<Rightarrow> 'e + 's" where
  "res_fold f [] s = Inr s"
| "res_fold f (x # xs) s = res_bind (f x s) (res_fold f xs)"

lemma res_fold_append:
  "res_fold f (xs @ ys) s = res_bind (res_fold f xs s) (res_fold f ys)"
proof (induction xs arbitrary: s)
  case (Cons x xs)
  then show ?case by (cases "f x s") simp_all
qed simp

lemma res_fold_invariant:
  assumes "res_fold f xs s = Inr t" and "P s"
    and "\<And>x s t. x \<in> set xs \<Longrightarrow> P s \<Longrightarrow> f x s = Inr t \<Longrightarrow> P t"
  shows "P t"
  using assms
proof (induction xs arbitrary: s)
  case Nil
  then show ?case by simp
next
  case (Cons x xs)
  from Cons.prems(1) obtain s' where s': "f x s = Inr s'" "res_fold f xs s' = Inr t"
    by (auto simp: res_simps)
  have "P s'" using Cons.prems(3) [OF _ Cons.prems(2) s'(1)] by simp
  with Cons.IH s'(2) Cons.prems(3) show ?case by (meson list.set_intros(2))
qed

text \<open>A loop whose body cannot throw on the states it meets does not throw; \<open>P n\<close> may count turns.\<close>

lemma res_fold_total:
  assumes "P n s" and "\<And>x n s. x \<in> set xs \<Longrightarrow> P n s \<Longrightarrow> \<exists>t. f x s = Inr t \<and> P (Suc n) t"
  shows "\<exists>t. res_fold f xs s = Inr t \<and> P (n + length xs) t"
  using assms
proof (induction xs arbitrary: n s)
  case (Cons x xs)
  obtain t where t: "f x s = Inr t" "P (Suc n) t" using Cons.prems(2) [of x n s] Cons.prems(1) by auto
  have "\<exists>u. res_fold f xs t = Inr u \<and> P (Suc n + length xs) u"
    using Cons.prems(2) by (intro Cons.IH [OF t(2)]) simp
  then show ?case using t(1) by simp
qed simp

text \<open>\<open>xs.map(f)\<close> where \<open>f\<close> may throw.\<close>

fun res_map :: "('a \<Rightarrow> 'e + 'b) \<Rightarrow> 'a list \<Rightarrow> 'e + 'b list" where
  "res_map f [] = Inr []"
| "res_map f (x # xs) = res_bind (f x) (\<lambda>y. res_bind (res_map f xs) (\<lambda>ys. Inr (y # ys)))"

lemma res_map_Inr: "(\<And>x. x \<in> set xs \<Longrightarrow> f x = Inr (g x)) \<Longrightarrow> res_map f xs = Inr (map g xs)"
  by (induction xs) simp_all

section \<open>JavaScript strings and numbers\<close>

definition char_code :: "char \<Rightarrow> int" where
  "char_code c = of_char c"

definition is_digit :: "char \<Rightarrow> bool" where
  "is_digit c \<longleftrightarrow> 48 \<le> char_code c \<and> char_code c \<le> 57"

definition is_upper :: "char \<Rightarrow> bool" where
  "is_upper c \<longleftrightarrow> 65 \<le> char_code c \<and> char_code c \<le> 90"

definition is_lower :: "char \<Rightarrow> bool" where
  "is_lower c \<longleftrightarrow> 97 \<le> char_code c \<and> char_code c \<le> 122"

definition digit_val :: "char \<Rightarrow> int" where
  "digit_val c = char_code c - 48"

definition digit_char :: "int \<Rightarrow> char" where
  "digit_char n = char_of (48 + n)"

text \<open>\<open>Number(s)\<close> on a string of decimal digits (the empty string reads as 0).\<close>

definition parse_digits :: "string \<Rightarrow> int" where
  "parse_digits s = foldl (\<lambda>n c. n * 10 + digit_val c) 0 s"

text \<open>\<open>String(n)\<close> on a non-negative integer.\<close>

function show_pos :: "int \<Rightarrow> string" where
  "show_pos n = (if n < 10 then [digit_char n] else show_pos (n div 10) @ [digit_char (n mod 10)])"
  by auto

termination by (relation "measure nat") auto

declare show_pos.simps [simp del]

definition show_int :: "int \<Rightarrow> string" where
  "show_int n = (if n < 0 then CHR ''-'' # show_pos (- n) else show_pos n)"

text \<open>\<open>s.padStart(k, '0')\<close>.\<close>

definition pad_start :: "nat \<Rightarrow> string \<Rightarrow> string" where
  "pad_start k s = replicate (k - length s) CHR ''0'' @ s"

text \<open>The operator \<open><=\<close> on strings: lexicographic, by code unit.\<close>

fun js_le :: "string \<Rightarrow> string \<Rightarrow> bool" where
  "js_le [] _ \<longleftrightarrow> True"
| "js_le (_ # _) [] \<longleftrightarrow> False"
| "js_le (a # as) (b # bs) \<longleftrightarrow>
     char_code a < char_code b \<or> (char_code a = char_code b \<and> js_le as bs)"

abbreviation js_lt :: "string \<Rightarrow> string \<Rightarrow> bool" where
  "js_lt s t \<equiv> \<not> js_le t s"

lemma char_code_inject [simp]: "char_code a = char_code b \<longleftrightarrow> a = b"
  by (simp add: char_code_def)

lemma char_code_digit_char [simp]: "0 \<le> n \<Longrightarrow> n < 10 \<Longrightarrow> char_code (digit_char n) = 48 + n"
  by (simp add: char_code_def digit_char_def)

lemma is_digit_digit_char [simp]: "0 \<le> n \<Longrightarrow> n < 10 \<Longrightarrow> is_digit (digit_char n)"
  by (simp add: is_digit_def)

lemma digit_val_digit_char [simp]: "0 \<le> n \<Longrightarrow> n < 10 \<Longrightarrow> digit_val (digit_char n) = n"
  by (simp add: digit_val_def)

lemma digit_val_bounds: "is_digit c \<Longrightarrow> 0 \<le> digit_val c \<and> digit_val c \<le> 9"
  by (auto simp: is_digit_def digit_val_def)

lemma digit_zero [simp]: "is_digit CHR ''0''" "digit_val CHR ''0'' = 0"
  by (simp_all add: is_digit_def digit_val_def char_code_def)

lemma not_digit_punct [simp]:
  "\<not> is_digit CHR ''-''" "\<not> is_digit CHR ''.''" "\<not> is_digit CHR '':''"
  by (simp_all add: is_digit_def char_code_def)

lemma parse_digits_Nil [simp]: "parse_digits [] = 0"
  by (simp add: parse_digits_def)

lemma parse_digits_snoc [simp]: "parse_digits (s @ [c]) = parse_digits s * 10 + digit_val c"
  by (simp add: parse_digits_def)

lemma parse_digits_foldl:
  "foldl (\<lambda>n c. n * 10 + digit_val c) a s = a * 10 ^ length s + parse_digits s"
proof (induction s rule: rev_induct)
  case (snoc c s)
  then show ?case by (simp add: algebra_simps)
qed simp

lemma parse_digits_append:
  "parse_digits (s @ t) = parse_digits s * 10 ^ length t + parse_digits t"
  by (simp add: parse_digits_def) (metis parse_digits_def parse_digits_foldl)

lemma parse_digits_Cons:
  "parse_digits (c # s) = digit_val c * 10 ^ length s + parse_digits s"
  using parse_digits_append [of "[c]" s] by (simp add: parse_digits_def)

lemma parse_digits_nonneg: "list_all is_digit s \<Longrightarrow> 0 \<le> parse_digits s"
  by (induction s rule: rev_induct) (auto dest: digit_val_bounds)

lemma parse_digits_less: "list_all is_digit s \<Longrightarrow> parse_digits s < 10 ^ length s"
proof (induction s rule: rev_induct)
  case (snoc c s)
  then have "parse_digits s + 1 \<le> 10 ^ length s" and "digit_val c \<le> 9"
    by (auto dest: digit_val_bounds)
  then show ?case by simp
qed simp

lemma show_pos_digits [simp]: "0 \<le> n \<Longrightarrow> list_all is_digit (show_pos n)"
proof (induction n rule: show_pos.induct)
  case (1 n)
  then show ?case by (simp add: show_pos.simps [of n])
qed

lemma show_pos_nonempty [simp]: "show_pos n \<noteq> []"
  by (simp add: show_pos.simps [of n])

lemma parse_show_pos [simp]: "0 \<le> n \<Longrightarrow> parse_digits (show_pos n) = n"
proof (induction n rule: show_pos.induct)
  case (1 n)
  then show ?case by (simp add: show_pos.simps [of n] parse_digits_Cons)
qed

lemma length_show_pos: "0 \<le> n \<Longrightarrow> n < 10 ^ k \<Longrightarrow> 0 < k \<Longrightarrow> length (show_pos n) \<le> k"
proof (induction k arbitrary: n)
  case (Suc k)
  show ?case
  proof (cases "n < 10")
    case True
    then show ?thesis by (simp add: show_pos.simps [of n])
  next
    case False
    then have "0 < k" using Suc.prems by (intro gr0I) simp
    moreover have "n div 10 < 10 ^ k"
      using Suc.prems mult_div_mod_eq [of 10 n] pos_mod_sign [of 10 n] by simp
    ultimately have "length (show_pos (n div 10)) \<le> k" using Suc.prems by (intro Suc.IH) simp_all
    with False show ?thesis by (simp add: show_pos.simps [of n])
  qed
qed simp

lemma length_pad_start: "length s \<le> k \<Longrightarrow> length (pad_start k s) = k"
  by (simp add: pad_start_def)

lemma pad_start_digits [simp]: "list_all is_digit (pad_start k s) \<longleftrightarrow> list_all is_digit s"
  by (auto simp: pad_start_def list_all_iff)

lemma parse_zeros [simp]: "parse_digits (replicate n CHR ''0'') = 0"
  by (induction n) (simp_all add: parse_digits_Cons)

lemma parse_pad_start [simp]: "parse_digits (pad_start k s) = parse_digits s"
  by (simp add: pad_start_def parse_digits_append)

text \<open>
  A zero-padded number: \<open>String(n).padStart(k, '0')\<close>. It round-trips, and when the
  number fits its width it has exactly that width.
\<close>

definition pad_num :: "nat \<Rightarrow> int \<Rightarrow> string" where
  "pad_num k n = pad_start k (show_int n)"

lemma pad_num_digits [simp]: "0 \<le> n \<Longrightarrow> list_all is_digit (pad_num k n)"
  by (simp add: pad_num_def show_int_def)

lemma parse_pad_num [simp]: "0 \<le> n \<Longrightarrow> parse_digits (pad_num k n) = n"
  by (simp add: pad_num_def show_int_def)

lemma length_pad_num: "0 \<le> n \<Longrightarrow> n < 10 ^ k \<Longrightarrow> 0 < k \<Longrightarrow> length (pad_num k n) = k"
  by (simp add: pad_num_def show_int_def length_pad_start length_show_pos)

subsection \<open>String order\<close>

lemma js_le_refl [simp]: "js_le s s"
  by (induction s) simp_all

lemma js_le_total: "js_le s t \<or> js_le t s"
  by (induction s t rule: js_le.induct) auto

lemma js_le_trans: "js_le s t \<Longrightarrow> js_le t u \<Longrightarrow> js_le s u"
proof (induction s t arbitrary: u rule: js_le.induct)
  case (3 a as b bs)
  then show ?case by (cases u) auto
qed (auto elim: js_le.elims)

lemma js_le_antisym: "js_le s t \<Longrightarrow> js_le t s \<Longrightarrow> s = t"
  by (induction s t rule: js_le.induct) (auto elim: js_le.elims)

lemma js_le_append_eq [simp]: "js_le (s @ t) (s @ u) \<longleftrightarrow> js_le t u"
  by (induction s) simp_all

text \<open>On digit strings of one length, the string order is the numeric order.\<close>

lemma js_le_digits:
  assumes "length s = length t" and "list_all is_digit s" and "list_all is_digit t"
  shows "js_le s t \<longleftrightarrow> parse_digits s \<le> parse_digits t"
  using assms
proof (induction s t rule: list_induct2)
  case (Cons a as b bs)
  let ?p = "10 ^ length bs :: int"
  have bounds: "0 \<le> parse_digits as" "parse_digits as < ?p"
      "0 \<le> parse_digits bs" "parse_digits bs < ?p"
    using Cons parse_digits_nonneg parse_digits_less [of as] parse_digits_less [of bs] by auto
  have code: "char_code a < char_code b \<longleftrightarrow> digit_val a < digit_val b"
    by (simp add: digit_val_def)
  have eq: "a = b \<longleftrightarrow> digit_val a = digit_val b"
    by (simp add: digit_val_def)
  consider "digit_val a < digit_val b" | "digit_val a = digit_val b" | "digit_val b < digit_val a"
    by linarith
  then show ?case
  proof cases
    case 1
    then have "digit_val a * ?p + ?p \<le> digit_val b * ?p"
      using mult_right_mono [of "digit_val a + 1" "digit_val b" ?p] by (simp add: algebra_simps)
    with bounds 1 code Cons.hyps show ?thesis by (simp add: parse_digits_Cons)
  next
    case 2
    with eq Cons show ?thesis by (simp add: parse_digits_Cons)
  next
    case 3
    then have "digit_val b * ?p + ?p \<le> digit_val a * ?p"
      using mult_right_mono [of "digit_val b + 1" "digit_val a" ?p] by (simp add: algebra_simps)
    with bounds 3 code eq Cons.hyps show ?thesis by (auto simp: parse_digits_Cons)
  qed
qed simp

lemma js_le_append:
  "length s = length s' \<Longrightarrow>
    js_le (s @ t) (s' @ t') \<longleftrightarrow> (js_le s s' \<and> s \<noteq> s') \<or> (s = s' \<and> js_le t t')"
proof (induction s s' rule: list_induct2)
  case (Cons x xs y ys)
  then show ?case using js_le_antisym by auto
qed simp

text \<open>Kernel evaluation reads the code of a character off its bits.\<close>

lemma char_code_bits [code]:
  "char_code (Char a b c d e f g h) = (if a then 1 else 0) + (if b then 2 else 0) + (if c then 4 else 0)
     + (if d then 8 else 0) + (if e then 16 else 0) + (if f then 32 else 0) + (if g then 64 else 0)
     + (if h then 128 else 0)"
  by (simp add: char_code_def of_char_def)

lemma js_le_code [code]:
  "js_le [] t \<longleftrightarrow> True"
  "js_le (a # as) [] \<longleftrightarrow> False"
  "js_le (a # as) (b # bs) \<longleftrightarrow> (if a = b then js_le as bs else char_code a < char_code b)"
  by auto

section \<open>Stable sorting by a comparator\<close>

text \<open>
  \<open>xs.sort(cmp)\<close> is stable since ECMAScript 2019; \<open>le x y\<close> is \<open>cmp(x, y) <= 0\<close>.
\<close>

fun js_insort :: "('a \<Rightarrow> 'a \<Rightarrow> bool) \<Rightarrow> 'a \<Rightarrow> 'a list \<Rightarrow> 'a list" where
  "js_insort le x [] = [x]"
| "js_insort le x (y # ys) = (if le x y then x # y # ys else y # js_insort le x ys)"

definition js_sort :: "('a \<Rightarrow> 'a \<Rightarrow> bool) \<Rightarrow> 'a list \<Rightarrow> 'a list" where
  "js_sort le xs = foldr (js_insort le) xs []"

lemma js_sort_simps [simp]:
  "js_sort le [] = []"
  "js_sort le (x # xs) = js_insort le x (js_sort le xs)"
  by (simp_all add: js_sort_def)

lemma set_js_insort [simp]: "set (js_insort le x ys) = insert x (set ys)"
  by (induction ys) auto

lemma set_js_sort [simp]: "set (js_sort le xs) = set xs"
  by (induction xs) simp_all

lemma length_js_insort [simp]: "length (js_insort le x ys) = Suc (length ys)"
  by (induction ys) simp_all

lemma length_js_sort [simp]: "length (js_sort le xs) = length xs"
  by (induction xs) simp_all

lemma sum_list_js_insort [simp]:
  "sum_list (map f (js_insort le x ys)) = (f x + sum_list (map f ys) :: int)"
  by (induction ys) auto

lemma sum_list_js_sort [simp]: "sum_list (map f (js_sort le xs)) = (sum_list (map f xs) :: int)"
  by (induction xs) simp_all

lemma distinct_js_insort [simp]:
  "distinct (map f (js_insort le x ys)) \<longleftrightarrow> f x \<notin> f ` set ys \<and> distinct (map f ys)"
  by (induction ys) auto

lemma distinct_js_sort [simp]: "distinct (map f (js_sort le xs)) \<longleftrightarrow> distinct (map f xs)"
  by (induction xs) simp_all

text \<open>The contract of a comparator, and what sorting by it gives.\<close>

locale js_comparator =
  fixes le :: "'a \<Rightarrow> 'a \<Rightarrow> bool"
  assumes le_total: "le x y \<or> le y x"
    and le_trans: "le x y \<Longrightarrow> le y z \<Longrightarrow> le x z"
begin

lemma sorted_js_insort: "sorted_wrt le ys \<Longrightarrow> sorted_wrt le (js_insort le x ys)"
proof (induction ys)
  case (Cons y ys)
  then show ?case using le_total [of x y] by (auto intro: le_trans)
qed simp

lemma sorted_js_sort: "sorted_wrt le (js_sort le xs)"
  by (induction xs) (simp_all add: sorted_js_insort)

lemma js_insort_min: "(\<And>y. y \<in> set ys \<Longrightarrow> le x y) \<Longrightarrow> js_insort le x ys = x # ys"
  by (cases ys) simp_all

lemma js_sort_id: "sorted_wrt le xs \<Longrightarrow> js_sort le xs = xs"
  by (induction xs) (simp_all add: js_insort_min)

lemma js_sort_idem: "js_sort le (js_sort le xs) = js_sort le xs"
  by (rule js_sort_id) (rule sorted_js_sort)

lemma filter_js_insort:
  "sorted_wrt le ys \<Longrightarrow> filter P (js_insort le x ys) = (if P x then js_insort le x (filter P ys) else filter P ys)"
proof (induction ys)
  case (Cons y ys)
  have "js_insort le x (filter P ys) = x # filter P ys" if "le x y"
    by (rule js_insort_min) (use that Cons.prems in \<open>auto intro: le_trans\<close>)
  with Cons show ?case by auto
qed simp

lemma filter_js_sort: "filter P (js_sort le xs) = js_sort le (filter P xs)"
  by (induction xs) (simp_all add: filter_js_insort sorted_js_sort)

end

interpretation string_order: js_comparator js_le
  by unfold_locales (fact js_le_total, fact js_le_trans)

text \<open>\<open>s.trim()\<close>; white space below 256 is five control characters, the space and the no-break space.\<close>

definition is_space :: "char \<Rightarrow> bool" where
  "is_space c \<longleftrightarrow> char_code c \<in> set [9, 10, 11, 12, 13, 32, 160]"

definition js_trim :: "string \<Rightarrow> string" where
  "js_trim s = rev (dropWhile is_space (rev (dropWhile is_space s)))"

section \<open>LIKE\<close>

text \<open>\<open>s LIKE pattern\<close> of PostgreSQL, with its default escape.\<close>

function sql_like :: "string \<Rightarrow> string \<Rightarrow> bool" where
  "sql_like [] s \<longleftrightarrow> s = []"
| "sql_like (p # ps) s \<longleftrightarrow>
     (if p = CHR ''%'' then sql_like ps s \<or> (case s of [] \<Rightarrow> False | c # t \<Rightarrow> sql_like (p # ps) t)
      else if p = CHR 0x5C
      then (case ps of [] \<Rightarrow> False | q # qs \<Rightarrow>
              (case s of [] \<Rightarrow> False | c # t \<Rightarrow> c = q \<and> sql_like qs t))
      else (case s of [] \<Rightarrow> False | c # t \<Rightarrow> (p = CHR ''_'' \<or> c = p) \<and> sql_like ps t))"
  by pat_completeness auto

termination sql_like
  by (relation "measure (\<lambda>(p, s). length p + length s)") auto

lemma sql_like_percent: "sql_like ''%'' s"
  by (induction s) simp_all

lemma sql_like_plain:
  "list_all (\<lambda>c. c \<noteq> CHR ''%'' \<and> c \<noteq> CHR ''_'' \<and> c \<noteq> CHR 0x5C) p \<Longrightarrow>
    sql_like (p @ ''%'') s \<longleftrightarrow> (\<exists>t. s = p @ t)"
proof (induction p arbitrary: s)
  case Nil
  then show ?case using sql_like_percent by simp
next
  case (Cons c p)
  then show ?case by (cases s) auto
qed

section \<open>Lists\<close>

lemma sum_list_filter_le:
  "(\<And>x. x \<in> set xs \<Longrightarrow> 0 \<le> f x) \<Longrightarrow>
    sum_list (map f (filter P xs)) \<le> (sum_list (map f xs) :: int)"
  by (induction xs) fastforce+

lemma find_Some_iff_hd: "find P xs = Some x \<Longrightarrow> x \<in> set xs \<and> P x"
  by (induction xs) (auto split: if_splits)

lemma find_None_all: "find P xs = None \<longleftrightarrow> (\<forall>x \<in> set xs. \<not> P x)"
  by (induction xs) auto

lemma find_append: "find P (xs @ ys) = (case find P xs of None \<Rightarrow> find P ys | Some x \<Rightarrow> Some x)"
  by (induction xs) auto

section \<open>Machines\<close>

text \<open>
  A machine with an invariant, and a machine that refines an abstract one: every step of the
  first is a run, possibly empty, of the second.
\<close>

locale step_invariant =
  fixes init :: 's and step :: "'s \<Rightarrow> 's \<Rightarrow> bool" and inv :: "'s \<Rightarrow> bool"
  assumes inv_init: "inv init" and inv_step: "inv s \<Longrightarrow> step s t \<Longrightarrow> inv t"
begin

lemma inv_steps: "step\<^sup>*\<^sup>* s t \<Longrightarrow> inv s \<Longrightarrow> inv t"
  by (induction rule: rtranclp_induct) (auto intro: inv_step)

lemma inv_reachable: "step\<^sup>*\<^sup>* init s \<Longrightarrow> inv s"
  using inv_steps inv_init by blast

end

locale step_refinement = step_invariant init step inv
  for init :: 's and step :: "'s \<Rightarrow> 's \<Rightarrow> bool" and inv :: "'s \<Rightarrow> bool" +
  fixes abstract_step :: "'a \<Rightarrow> 'a \<Rightarrow> bool" and abs_state :: "'s \<Rightarrow> 'a"
  assumes simulation: "inv s \<Longrightarrow> step s t \<Longrightarrow> abstract_step\<^sup>*\<^sup>* (abs_state s) (abs_state t)"
begin

lemma refines: "step\<^sup>*\<^sup>* init s \<Longrightarrow> abstract_step\<^sup>*\<^sup>* (abs_state init) (abs_state s)"
proof (induction rule: rtranclp_induct)
  case (step s t)
  then show ?case using simulation [OF inv_reachable] by (meson rtranclp_trans)
qed simp

end

end
