(* ===== verification/CivilDate.thy ===== *)
theory CivilDate
  imports Prelude
begin

text \<open>
  Civil dates (\<open>packages/shared/src/calendar\<close>): the \<open>YYYY-MM-DD\<close> text that every
  billing and privacy deadline is written in, its parser and printer, the length of a
  month, and day arithmetic. The code has this layer twice: \<open>billing-calendar.ts\<close>
  adds days through the JavaScript \<open>Date\<close>, \<open>colombia-business-calendar.ts\<close> walks
  the calendar one day at a time. Both are modelled here, over one abstract view: the
  number \<open>day_num\<close> of days since 1970-01-01, under which the text order, the walk
  and the \<open>Date\<close> object agree.
\<close>

section \<open>Data\<close>

record civil_date =
  cd_year :: int
  cd_month :: int
  cd_day :: int

definition isLeapYear :: "int \<Rightarrow> bool" where
  "isLeapYear year \<longleftrightarrow> year mod 4 = 0 \<and> (year mod 100 \<noteq> 0 \<or> year mod 400 = 0)"

text \<open>The month length of \<open>colombia-business-calendar.ts\<close>.\<close>

definition daysInMonth :: "int \<Rightarrow> int \<Rightarrow> int" where
  "daysInMonth year month =
     (if month = 2 then if isLeapYear year then 29 else 28
      else if month \<in> set [4, 6, 9, 11] then 30 else 31)"

text \<open>The month length of \<open>billing-calendar.ts\<close>, exported for the rest of Billing.\<close>

definition billing_daysInMonth :: "int \<Rightarrow> int \<Rightarrow> int" where
  "billing_daysInMonth year month =
     (if month = 2
      then if year mod 4 = 0 \<and> (year mod 100 \<noteq> 0 \<or> year mod 400 = 0) then 29 else 28
      else if month \<in> set [4, 6, 9, 11] then 30 else 31)"

lemma billing_daysInMonth_eq [simp]: "billing_daysInMonth = daysInMonth"
  by (intro ext) (simp add: billing_daysInMonth_def daysInMonth_def isLeapYear_def)

definition valid_date :: "civil_date \<Rightarrow> bool" where
  "valid_date c \<longleftrightarrow> 1 \<le> cd_month c \<and> cd_month c \<le> 12 \<and>
     1 \<le> cd_day c \<and> cd_day c \<le> daysInMonth (cd_year c) (cd_month c)"

text \<open>The dates the text format can hold: four digits of year, from year 1.\<close>

definition text_date :: "civil_date \<Rightarrow> bool" where
  "text_date c \<longleftrightarrow> valid_date c \<and> 1 \<le> cd_year c \<and> cd_year c \<le> 9999"

section \<open>Text\<close>

text \<open>The regular expression \<open>/^(\d{4})-(\d{2})-(\d{2})$/\<close> and its three groups.\<close>

definition match_civil :: "string \<Rightarrow> (int \<times> int \<times> int) option" where
  "match_civil s =
     (if length s = 10 \<and> s ! 4 = CHR ''-'' \<and> s ! 7 = CHR ''-''
         \<and> list_all is_digit (take 4 s) \<and> list_all is_digit (take 2 (drop 5 s))
         \<and> list_all is_digit (drop 8 s)
      then Some (parse_digits (take 4 s), parse_digits (take 2 (drop 5 s)), parse_digits (drop 8 s))
      else None)"

definition parseCivilDate :: "string \<Rightarrow> civil_date result" where
  "parseCivilDate value =
     (case match_civil value of
        None \<Rightarrow> Inl Range_Error
      | Some (year, month, day) \<Rightarrow>
          if year < 1 \<or> month < 1 \<or> month > 12 \<or> day < 1 \<or> day > daysInMonth year month
          then Inl Range_Error
          else Inr \<lparr>cd_year = year, cd_month = month, cd_day = day\<rparr>)"

text \<open>The parser of \<open>billing-calendar.ts\<close>, on its own month length.\<close>

definition billing_parseCivilDate :: "string \<Rightarrow> civil_date result" where
  "billing_parseCivilDate value =
     (case match_civil value of
        None \<Rightarrow> Inl Range_Error
      | Some (year, month, day) \<Rightarrow>
          (let maxDay = billing_daysInMonth year month
           in if year < 1 \<or> month < 1 \<or> month > 12 \<or> day < 1 \<or> day > maxDay
              then Inl Range_Error
              else Inr \<lparr>cd_year = year, cd_month = month, cd_day = day\<rparr>))"

lemma billing_parseCivilDate_eq [simp]: "billing_parseCivilDate = parseCivilDate"
  by (intro ext) (simp add: billing_parseCivilDate_def parseCivilDate_def split: option.split)

definition formatCivilDate :: "int \<Rightarrow> int \<Rightarrow> int \<Rightarrow> string" where
  "formatCivilDate year month day =
     pad_num 4 year @ CHR ''-'' # pad_num 2 month @ CHR ''-'' # pad_num 2 day"

abbreviation fmt :: "civil_date \<Rightarrow> string" where
  "fmt c \<equiv> formatCivilDate (cd_year c) (cd_month c) (cd_day c)"

section \<open>Day numbers and the JavaScript Date\<close>

text \<open>Leap days before the first of January of a year, and the day number of that date.\<close>

definition leap_days :: "int \<Rightarrow> int" where
  "leap_days y = (y - 1) div 4 - (y - 1) div 100 + (y - 1) div 400"

definition day_from_year :: "int \<Rightarrow> int" where
  "day_from_year y = 365 * (y - 1) + leap_days y - 719162"

definition days_before :: "int \<Rightarrow> int \<Rightarrow> int" where
  "days_before y m =
     [0, 31, 59, 90, 120, 151, 181, 212, 243, 273, 304, 334] ! nat (m - 1)
     + (if m > 2 \<and> isLeapYear y then 1 else 0)"

definition day_num :: "civil_date \<Rightarrow> int" where
  "day_num c = day_from_year (cd_year c) + days_before (cd_year c) (cd_month c) + cd_day c - 1"

text \<open>The year, month and day of a day number, as \<open>getUTCFullYear\<close> and its kin read them.\<close>

definition year_of_day :: "int \<Rightarrow> int" where
  "year_of_day n =
     (let y = (n + 719162) * 400 div 146097 + 1 in if day_from_year (y + 1) \<le> n then y + 1 else y)"

fun month_walk :: "nat \<Rightarrow> int \<Rightarrow> int \<Rightarrow> int \<Rightarrow> int \<times> int" where
  "month_walk 0 y m k = (m, k + 1)"
| "month_walk (Suc f) y m k =
     (if k < daysInMonth y m then (m, k + 1) else month_walk f y (m + 1) (k - daysInMonth y m))"

definition civil_of_day :: "int \<Rightarrow> civil_date" where
  "civil_of_day n =
     (let y = year_of_day n; (m, d) = month_walk 11 y 1 (n - day_from_year y)
      in \<lparr>cd_year = y, cd_month = m, cd_day = d\<rparr>)"

text \<open>
  \<open>Date.UTC(year, month0, date)\<close> in days: ECMAScript reads a year from 0 to 99 as
  1900 + year, carries months into years, and lets the date run over its month.
\<close>

definition date_UTC :: "int \<Rightarrow> int \<Rightarrow> int \<Rightarrow> int" where
  "date_UTC year month0 date =
     (let yr = (if 0 \<le> year \<and> year \<le> 99 then 1900 + year else year);
          ym = yr + month0 div 12; mn = month0 mod 12
      in day_from_year ym + days_before ym (mn + 1) + date - 1)"

definition addDays :: "string \<Rightarrow> int \<Rightarrow> string result" where
  "addDays civilDate days =
     res_bind (billing_parseCivilDate civilDate) (\<lambda>c.
       let utc = civil_of_day (date_UTC (cd_year c) (cd_month c - 1) (cd_day c + days))
       in Inr (formatCivilDate (cd_year utc) (cd_month utc) (cd_day utc)))"

definition diffInDays :: "string \<Rightarrow> string \<Rightarrow> int result" where
  "diffInDays startDate endDate =
     res_bind (billing_parseCivilDate startDate) (\<lambda>d1.
     res_bind (billing_parseCivilDate endDate) (\<lambda>d2.
       Inr (date_UTC (cd_year d2) (cd_month d2 - 1) (cd_day d2)
            - date_UTC (cd_year d1) (cd_month d1 - 1) (cd_day d1))))"

section \<open>The calendar walk of colombia-business-calendar\<close>

definition MONTH_OFFSETS :: "int list" where
  "MONTH_OFFSETS = [0, 3, 2, 5, 0, 3, 5, 1, 4, 6, 2, 4]"

definition dayOfWeek :: "civil_date \<Rightarrow> int result" where
  "dayOfWeek c =
     (let adjustedYear = cd_year c - (if cd_month c < 3 then 1 else 0)
      in if cd_month c < 1 \<or> cd_month c > 12 then Inl Range_Error
         else Inr ((adjustedYear + adjustedYear div 4 - adjustedYear div 100 + adjustedYear div 400
                    + MONTH_OFFSETS ! nat (cd_month c - 1) + cd_day c) mod 7))"

text \<open>One turn of the loop of \<open>addCivilDays\<close>, with \<open>step\<close> 1 or -1.\<close>

definition civil_step :: "int \<Rightarrow> civil_date \<Rightarrow> civil_date" where
  "civil_step step c =
     (let year = cd_year c; month = cd_month c; day = cd_day c + step
      in if day > daysInMonth year month
         then if month + 1 > 12 then \<lparr>cd_year = year + 1, cd_month = 1, cd_day = 1\<rparr>
              else \<lparr>cd_year = year, cd_month = month + 1, cd_day = 1\<rparr>
         else if day < 1
         then if month - 1 < 1
              then \<lparr>cd_year = year - 1, cd_month = 12, cd_day = daysInMonth (year - 1) 12\<rparr>
              else \<lparr>cd_year = year, cd_month = month - 1, cd_day = daysInMonth year (month - 1)\<rparr>
         else \<lparr>cd_year = year, cd_month = month, cd_day = day\<rparr>)"

fun civil_walk :: "nat \<Rightarrow> int \<Rightarrow> civil_date \<Rightarrow> civil_date" where
  "civil_walk 0 step c = c"
| "civil_walk (Suc remaining) step c = civil_walk remaining step (civil_step step c)"

definition addCivilDays :: "civil_date \<Rightarrow> int \<Rightarrow> civil_date result" where
  "addCivilDays date days =
     (let r = civil_walk (nat \<bar>days\<bar>) (if days < 0 then -1 else 1) date
      in if cd_year r < 1 \<or> cd_year r > 9999 then Inl Range_Error else Inr r)"

section \<open>Month and year lengths\<close>

lemma daysInMonth_bounds: "28 \<le> daysInMonth y m \<and> daysInMonth y m \<le> 31"
  by (simp add: daysInMonth_def)

lemma daysInMonth_pos [simp]: "0 < daysInMonth y m" "1 \<le> daysInMonth y m"
  using daysInMonth_bounds [of y m] by linarith+

lemma daysInMonth_12 [simp]: "daysInMonth y 12 = 31" "daysInMonth y 1 = 31"
  by (simp_all add: daysInMonth_def)

lemma month_cases:
  assumes "1 \<le> (m::int)" and "m \<le> 12"
  obtains "m = 1" | "m = 2" | "m = 3" | "m = 4" | "m = 5" | "m = 6" | "m = 7" | "m = 8"
    | "m = 9" | "m = 10" | "m = 11" | "m = 12"
proof -
  from assms have "m = 1 \<or> m = 2 \<or> m = 3 \<or> m = 4 \<or> m = 5 \<or> m = 6 \<or> m = 7 \<or> m = 8
      \<or> m = 9 \<or> m = 10 \<or> m = 11 \<or> m = 12" by presburger
  then show thesis using that by blast
qed

lemma days_before_1 [simp]: "days_before y 1 = 0"
  by (simp add: days_before_def)

lemma days_before_Suc:
  assumes "1 \<le> m" and "m \<le> 11"
  shows "days_before y (m + 1) = days_before y m + daysInMonth y m"
proof -
  from assms have "m \<le> 12" by simp
  with assms show ?thesis
    by (elim month_cases) (simp_all add: days_before_def daysInMonth_def)
qed

lemma days_before_12: "days_before y 12 = 334 + (if isLeapYear y then 1 else 0)"
  by (simp add: days_before_def)

lemma div_step: "0 < (n::int) \<Longrightarrow> y div n = (y - 1) div n + (if y mod n = 0 then 1 else 0)"
proof -
  assume n: "0 < n"
  define q r where "q = (y - 1) div n" and "r = (y - 1) mod n"
  have y: "y = n * q + (r + 1)" and r: "0 \<le> r" "r < n"
    using n by (simp_all add: q_def r_def)
  show ?thesis
  proof (cases "r + 1 < n")
    case True
    then have "y div n = q" "y mod n = r + 1"
      using y r by (auto intro: int_div_pos_eq int_mod_pos_eq)
    with r show ?thesis by (simp add: q_def)
  next
    case False
    with r y have "y = n * (q + 1) + 0" by (simp add: algebra_simps)
    with n have "y div n = q + 1" "y mod n = 0" by simp_all
    then show ?thesis by (simp add: q_def)
  qed
qed

lemma div_bounds: "0 < (n::int) \<Longrightarrow> n * (u div n) \<le> u" "0 < n \<Longrightarrow> u < n * (u div n) + n"
  using pos_mod_sign [of n u] pos_mod_bound [of n u] mult_div_mod_eq [of n u] by linarith+

lemma leap_mods:
  assumes "(y::int) mod 400 = 0" shows "y mod 100 = 0"
  using assms dvd_trans [of 100 400 y] by (simp add: mod_eq_0_iff_dvd)

lemma leap_mods4:
  assumes "(y::int) mod 100 = 0" shows "y mod 4 = 0"
  using assms dvd_trans [of 4 100 y] by (simp add: mod_eq_0_iff_dvd)

text \<open>A leap year is one in which the leap-day count of the calendar goes up.\<close>

lemma leap_days_Suc: "leap_days (y + 1) = leap_days y + (if isLeapYear y then 1 else 0)"
proof -
  have s: "y div 4 = (y - 1) div 4 + (if y mod 4 = 0 then 1 else 0)"
    "y div 100 = (y - 1) div 100 + (if y mod 100 = 0 then 1 else 0)"
    "y div 400 = (y - 1) div 400 + (if y mod 400 = 0 then 1 else 0)"
    by (rule div_step, simp)+
  consider "y mod 4 = 0" "y mod 100 = 0" "y mod 400 = 0"
    | "y mod 4 = 0" "y mod 100 = 0" "y mod 400 \<noteq> 0"
    | "y mod 4 = 0" "y mod 100 \<noteq> 0" "y mod 400 \<noteq> 0"
    | "y mod 4 \<noteq> 0" "y mod 100 \<noteq> 0" "y mod 400 \<noteq> 0"
    using leap_mods [of y] leap_mods4 [of y] by metis
  then show ?thesis
    unfolding leap_days_def add_diff_cancel_right' s isLeapYear_def by cases simp_all
qed

lemma leap_days_bounds:
  "97 * (y - 1) - 700 < 400 * leap_days y" "400 * leap_days y \<le> 97 * (y - 1) + 396"
proof -
  define u a b c where "u = y - 1" and "a = u div 4" and "b = u div 100" and "c = u div 400"
  have "4 * a \<le> u" "u < 4 * a + 4" "100 * b \<le> u" "u < 100 * b + 100" "400 * c \<le> u"
      "u < 400 * c + 400"
    unfolding a_def b_def c_def by (rule div_bounds, simp)+
  moreover have "leap_days y = a - b + c"
    by (simp add: leap_days_def a_def b_def c_def u_def)
  ultimately show "97 * (y - 1) - 700 < 400 * leap_days y"
    "400 * leap_days y \<le> 97 * (y - 1) + 396"
    unfolding u_def [symmetric] by linarith+
qed

lemma day_from_year_Suc:
  "day_from_year (y + 1) = day_from_year y + (if isLeapYear y then 366 else 365)"
  by (simp add: day_from_year_def leap_days_Suc)

lemma year_length_days: "days_before y 12 + 31 = day_from_year (y + 1) - day_from_year y"
  by (simp add: days_before_12 day_from_year_Suc)

lemma day_from_year_mono: "y \<le> y' \<Longrightarrow> day_from_year y + 365 * (y' - y) \<le> day_from_year y'"
proof (induction "nat (y' - y)" arbitrary: y')
  case 0
  then show ?case by simp
next
  case (Suc n)
  then have "n = nat (y' - 1 - y)" and "y \<le> y' - 1" by linarith+
  then have "day_from_year y + 365 * (y' - 1 - y) \<le> day_from_year (y' - 1)" by (rule Suc.hyps(1))
  then show ?case using day_from_year_Suc [of "y' - 1"] by (simp split: if_splits)
qed

lemma day_from_year_less: "y < y' \<Longrightarrow> day_from_year (y + 1) \<le> day_from_year y'"
  using day_from_year_mono [of "y + 1" y'] by simp

section \<open>Reading a day number back\<close>

lemma year_of_day_bounds:
  "day_from_year (year_of_day n) \<le> n" "n < day_from_year (year_of_day n + 1)"
proof -
  define N where "N = n + 719162"
  define u where "u = N * 400 div 146097"
  have u: "146097 * u \<le> N * 400" "N * 400 < 146097 * u + 146097"
    unfolding u_def using div_bounds [of 146097 "N * 400"] by simp_all
  have low: "day_from_year (u + 1) \<le> n"
    using u leap_days_bounds [of "u + 1"] by (simp add: day_from_year_def N_def)
  have high: "n < day_from_year (u + 3)"
    using u leap_days_bounds [of "u + 3"] by (simp add: day_from_year_def N_def)
  have y: "year_of_day n = (if day_from_year (u + 2) \<le> n then u + 2 else u + 1)"
    by (simp add: year_of_day_def u_def N_def Let_def add.commute)
  show "day_from_year (year_of_day n) \<le> n" using y low by simp
  show "n < day_from_year (year_of_day n + 1)" using y high by (simp add: add.commute)
qed

lemma year_of_day_unique:
  assumes "day_from_year y \<le> n" and "n < day_from_year (y + 1)"
  shows "year_of_day n = y"
  using assms year_of_day_bounds [of n] day_from_year_less [of y "year_of_day n"]
    day_from_year_less [of "year_of_day n" y] by linarith

lemma month_walk_sound:
  assumes "month_walk f y m k = (j, d)" and "int f = 12 - m" and "1 \<le> m" and "0 \<le> k"
    and "days_before y m + k < days_before y 12 + 31"
  shows "m \<le> j \<and> j \<le> 12 \<and> 1 \<le> d \<and> d \<le> daysInMonth y j
    \<and> days_before y j + d - 1 = days_before y m + k"
  using assms
proof (induction f y m k rule: month_walk.induct)
  case (1 y m k)
  then show ?case by simp
next
  case (2 f y m k)
  show ?case
  proof (cases "k < daysInMonth y m")
    case True
    with 2 show ?thesis by auto
  next
    case False
    have "m \<le> 11" using 2 by simp
    then have s: "days_before y (m + 1) = days_before y m + daysInMonth y m"
      using 2 by (intro days_before_Suc) simp_all
    have "m + 1 \<le> j \<and> j \<le> 12 \<and> 1 \<le> d \<and> d \<le> daysInMonth y j
        \<and> days_before y j + d - 1 = days_before y (m + 1) + (k - daysInMonth y m)"
      using False 2 s by (intro "2.IH") auto
    with s show ?thesis by simp
  qed
qed

lemma days_before_mono:
  assumes "1 \<le> m" and "m < m'" and "m' \<le> 12"
  shows "days_before y m + daysInMonth y m \<le> days_before y m'"
  using assms
proof (induction "nat (m' - m)" arbitrary: m')
  case 0
  then show ?case by simp
next
  case (Suc n)
  show ?case
  proof (cases "m' = m + 1")
    case True
    with Suc.prems show ?thesis by (simp add: days_before_Suc)
  next
    case False
    with Suc have "days_before y m + daysInMonth y m \<le> days_before y (m' - 1)"
      by (intro Suc.hyps(1)) auto
    moreover have "days_before y m' = days_before y (m' - 1) + daysInMonth y (m' - 1)"
      using days_before_Suc [of "m' - 1" y] Suc.prems by simp
    ultimately show ?thesis using daysInMonth_pos(1) [of y "m' - 1"] by linarith
  qed
qed

lemma day_in_year:
  assumes "valid_date c"
  shows "day_from_year (cd_year c) \<le> day_num c" "day_num c < day_from_year (cd_year c + 1)"
proof -
  let ?y = "cd_year c" and ?m = "cd_month c"
  have v: "1 \<le> ?m" "?m \<le> 12" "1 \<le> cd_day c" "cd_day c \<le> daysInMonth ?y ?m"
    using assms by (simp_all add: valid_date_def)
  have "0 \<le> days_before ?y ?m"
    using v days_before_mono [of 1 ?m ?y] daysInMonth_pos(1) [of ?y 1] by (cases "?m = 1") auto
  then show "day_from_year ?y \<le> day_num c" using v by (simp add: day_num_def)
  have "days_before ?y ?m + daysInMonth ?y ?m \<le> days_before ?y 12 + 31"
    using v days_before_mono [of ?m 12 ?y] by (cases "?m = 12") auto
  then show "day_num c < day_from_year (?y + 1)"
    using v year_length_days [of ?y] by (simp add: day_num_def)
qed

definition date_less :: "civil_date \<Rightarrow> civil_date \<Rightarrow> bool" where
  "date_less a b \<longleftrightarrow> cd_year a < cd_year b \<or> (cd_year a = cd_year b \<and>
     (cd_month a < cd_month b \<or> (cd_month a = cd_month b \<and> cd_day a < cd_day b)))"

lemma day_num_less:
  assumes "valid_date a" and "valid_date b" and "date_less a b"
  shows "day_num a < day_num b"
proof -
  consider "cd_year a < cd_year b"
    | "cd_year a = cd_year b" "cd_month a < cd_month b"
    | "cd_year a = cd_year b" "cd_month a = cd_month b" "cd_day a < cd_day b"
    using assms(3) by (auto simp: date_less_def)
  then show ?thesis
  proof cases
    case 1
    then show ?thesis
      using day_in_year [OF assms(1)] day_in_year [OF assms(2)] day_from_year_less by fastforce
  next
    case 2
    then show ?thesis
      using assms days_before_mono [of "cd_month a" "cd_month b" "cd_year a"]
      by (simp add: day_num_def valid_date_def)
  next
    case 3
    then show ?thesis by (simp add: day_num_def)
  qed
qed

lemma date_less_total: "date_less a b \<or> date_less b a \<or> a = b"
  by (cases a, cases b) (auto simp: date_less_def)

lemma day_num_inject:
  "valid_date a \<Longrightarrow> valid_date b \<Longrightarrow> day_num a = day_num b \<longleftrightarrow> a = b"
  using date_less_total [of a b] day_num_less by (metis order_less_irrefl)

lemma day_num_less_iff:
  "valid_date a \<Longrightarrow> valid_date b \<Longrightarrow> day_num a < day_num b \<longleftrightarrow> date_less a b"
  using date_less_total [of a b] day_num_less by (metis order_less_asym' order_less_irrefl)

lemma civil_of_day_valid: "valid_date (civil_of_day n)"
  and day_num_civil_of_day [simp]: "day_num (civil_of_day n) = n"
proof -
  let ?y = "year_of_day n"
  obtain j d where w: "month_walk 11 ?y 1 (n - day_from_year ?y) = (j, d)"
    by (cases "month_walk 11 ?y 1 (n - day_from_year ?y)")
  have "1 \<le> j \<and> j \<le> 12 \<and> 1 \<le> d \<and> d \<le> daysInMonth ?y j
      \<and> days_before ?y j + d - 1 = days_before ?y 1 + (n - day_from_year ?y)"
    using year_of_day_bounds [of n] year_length_days [of ?y]
    by (intro month_walk_sound [OF w]) simp_all
  then show "valid_date (civil_of_day n)" "day_num (civil_of_day n) = n"
    by (simp_all add: civil_of_day_def Let_def w valid_date_def day_num_def)
qed

lemma civil_of_day_num [simp]: "valid_date c \<Longrightarrow> civil_of_day (day_num c) = c"
  by (rule iffD1 [OF day_num_inject]) (simp_all add: civil_of_day_valid)

section \<open>The text format\<close>

lemma pad_num_parse:
  assumes "length s = k" and "0 < k" and "list_all is_digit s"
  shows "pad_num k (parse_digits s) = s"
proof -
  let ?n = "parse_digits s"
  have n: "0 \<le> ?n" "?n < 10 ^ k"
    using assms parse_digits_nonneg parse_digits_less [of s] by simp_all
  then have len: "length (pad_num k ?n) = length s"
    using assms by (simp add: length_pad_num)
  then have "js_le (pad_num k ?n) s" "js_le s (pad_num k ?n)"
    using assms n by (simp_all add: js_le_digits)
  then show ?thesis by (rule js_le_antisym)
qed

lemma text_date_widths:
  assumes "text_date c"
  shows "length (pad_num 4 (cd_year c)) = 4" "length (pad_num 2 (cd_month c)) = 2"
    "length (pad_num 2 (cd_day c)) = 2" "0 \<le> cd_year c" "0 \<le> cd_month c" "0 \<le> cd_day c"
  using assms daysInMonth_bounds [of "cd_year c" "cd_month c"]
  by (simp_all add: text_date_def valid_date_def length_pad_num)

lemma match_civil_fmt:
  assumes "text_date c"
  shows "match_civil (fmt c) = Some (cd_year c, cd_month c, cd_day c)"
proof -
  note w = text_date_widths [OF assms]
  have s: "fmt c ! 4 = CHR ''-''" "fmt c ! 7 = CHR ''-''" "take 4 (fmt c) = pad_num 4 (cd_year c)"
    "take 2 (drop 5 (fmt c)) = pad_num 2 (cd_month c)" "drop 8 (fmt c) = pad_num 2 (cd_day c)"
    using w by (simp_all add: formatCivilDate_def nth_append)
  show ?thesis
    unfolding match_civil_def s using w by (simp add: formatCivilDate_def)
qed

lemma parse_fmt [simp]: "text_date c \<Longrightarrow> parseCivilDate (fmt c) = Inr c"
  by (simp add: parseCivilDate_def match_civil_fmt) (auto simp: text_date_def valid_date_def)

lemma split_text: "length s = 10 \<Longrightarrow>
    s = take 4 s @ (s ! 4) # take 2 (drop 5 s) @ (s ! 7) # drop 8 s"
  by (simp add: list_eq_iff_nth_eq nth_append nth_Cons' less_Suc_eq numeral_eq_Suc)

lemma parse_sound:
  assumes "parseCivilDate s = Inr c"
  shows "text_date c" "fmt c = s"
proof -
  let ?y = "take 4 s" and ?m = "take 2 (drop 5 s)" and ?d = "drop 8 s"
  have g: "length s = 10" "s ! 4 = CHR ''-''" "s ! 7 = CHR ''-''"
      "list_all is_digit ?y" "list_all is_digit ?m" "list_all is_digit ?d"
    and c: "c = \<lparr>cd_year = parse_digits ?y, cd_month = parse_digits ?m, cd_day = parse_digits ?d\<rparr>"
    and r: "1 \<le> cd_year c" "1 \<le> cd_month c" "cd_month c \<le> 12" "1 \<le> cd_day c"
      "cd_day c \<le> daysInMonth (cd_year c) (cd_month c)"
    using assms by (auto simp: parseCivilDate_def match_civil_def split: if_splits)
  have "parse_digits ?y < 10 ^ 4"
    using g parse_digits_less [of ?y] by simp
  with c r show "text_date c" by (simp add: text_date_def valid_date_def)
  have "fmt c = ?y @ CHR ''-'' # ?m @ CHR ''-'' # ?d"
    using g c by (simp add: formatCivilDate_def pad_num_parse)
  also have "\<dots> = s" using split_text [OF g(1)] g by simp
  finally show "fmt c = s" .
qed

text \<open>Comparing the texts of two dates compares the dates.\<close>

lemma js_le_pad_num:
  "0 \<le> a \<Longrightarrow> a < 10 ^ k \<Longrightarrow> 0 \<le> b \<Longrightarrow> b < 10 ^ k \<Longrightarrow> 0 < k \<Longrightarrow>
    js_le (pad_num k a) (pad_num k b) \<longleftrightarrow> a \<le> b"
  by (simp add: js_le_digits length_pad_num)

lemma pad_num_inject:
  "0 \<le> a \<Longrightarrow> 0 \<le> b \<Longrightarrow> pad_num k a = pad_num k b \<longleftrightarrow> a = b"
  by (metis parse_pad_num)

lemma fmt_le:
  assumes "text_date a" and "text_date b"
  shows "js_le (fmt a) (fmt b) \<longleftrightarrow> day_num a \<le> day_num b"
proof -
  have b: "0 \<le> cd_year x \<and> cd_year x < 10 ^ 4 \<and> 0 \<le> cd_month x \<and> cd_month x < 10 ^ 2
      \<and> 0 \<le> cd_day x \<and> cd_day x < 10 ^ 2" if "text_date x" for x
    using that daysInMonth_bounds [of "cd_year x" "cd_month x"]
    by (simp add: text_date_def valid_date_def)
  note ab = b [OF assms(1)] b [OF assms(2)]
  have le: "js_le (pad_num 4 (cd_year a)) (pad_num 4 (cd_year b)) \<longleftrightarrow> cd_year a \<le> cd_year b"
    "js_le (pad_num 2 (cd_month a)) (pad_num 2 (cd_month b)) \<longleftrightarrow> cd_month a \<le> cd_month b"
    "js_le (pad_num 2 (cd_day a)) (pad_num 2 (cd_day b)) \<longleftrightarrow> cd_day a \<le> cd_day b"
    using ab by (simp_all add: js_le_pad_num)
  have eq: "pad_num 4 (cd_year a) = pad_num 4 (cd_year b) \<longleftrightarrow> cd_year a = cd_year b"
    "pad_num 2 (cd_month a) = pad_num 2 (cd_month b) \<longleftrightarrow> cd_month a = cd_month b"
    using ab by (simp_all add: pad_num_inject)
  have len: "length (pad_num 4 (cd_year a)) = length (pad_num 4 (cd_year b))"
    "length (pad_num 2 (cd_month a)) = length (pad_num 2 (cd_month b))"
    using text_date_widths [OF assms(1)] text_date_widths [OF assms(2)] by simp_all
  have "js_le (fmt a) (fmt b) \<longleftrightarrow> \<not> date_less b a"
    unfolding formatCivilDate_def js_le_append [OF len(1)] le eq js_le.simps
      js_le_append [OF len(2)] date_less_def
    by simp presburger
  also have "\<dots> \<longleftrightarrow> day_num a \<le> day_num b"
    using assms day_num_less_iff [of b a] by (auto simp: text_date_def)
  finally show ?thesis .
qed

lemma text_date_of_day:
  "text_date (civil_of_day n) \<longleftrightarrow> 1 \<le> cd_year (civil_of_day n) \<and> cd_year (civil_of_day n) \<le> 9999"
  by (simp add: text_date_def civil_of_day_valid)

section \<open>Day arithmetic\<close>

definition day_text :: "int \<Rightarrow> string" where
  "day_text n = fmt (civil_of_day n)"

lemma cd_year_civil_of_day: "cd_year (civil_of_day n) = year_of_day n"
  by (simp add: civil_of_day_def Let_def split: prod.split)

lemma year_of_day_ge: "y \<le> year_of_day n \<longleftrightarrow> day_from_year y \<le> n"
proof
  assume "y \<le> year_of_day n"
  then show "day_from_year y \<le> n"
    using year_of_day_bounds(1) [of n] day_from_year_mono [of y "year_of_day n"] by simp
next
  assume n: "day_from_year y \<le> n"
  show "y \<le> year_of_day n"
  proof (rule ccontr)
    assume "\<not> y \<le> year_of_day n"
    then show False
      using n year_of_day_bounds(2) [of n] day_from_year_mono [of "year_of_day n + 1" y] by simp
  qed
qed

lemma day_from_year_ends:
  "day_from_year 1 = -719162" "day_from_year 100 = -683003" "day_from_year 10000 = 2932897"
  by (simp_all add: day_from_year_def leap_days_def)

lemma text_date_civil:
  "text_date (civil_of_day n) \<longleftrightarrow> day_from_year 1 \<le> n \<and> n < day_from_year 10000"
proof -
  have "year_of_day n \<le> 9999 \<longleftrightarrow> n < day_from_year 10000"
    using year_of_day_ge [of 10000 n] by linarith
  then show ?thesis
    by (simp add: text_date_def civil_of_day_valid year_of_day_ge cd_year_civil_of_day)
qed

lemma day_text_num: "valid_date c \<Longrightarrow> day_text (day_num c) = fmt c"
  by (simp add: day_text_def)

lemma parse_day_text:
  "day_from_year 1 \<le> n \<Longrightarrow> n < day_from_year 10000 \<Longrightarrow>
    parseCivilDate (day_text n) = Inr (civil_of_day n)"
  by (simp add: day_text_def text_date_civil)

lemma day_text_le:
  assumes "day_from_year 1 \<le> n" "n < day_from_year 10000"
    and "day_from_year 1 \<le> m" "m < day_from_year 10000"
  shows "js_le (day_text n) (day_text m) \<longleftrightarrow> n \<le> m"
  using assms by (simp add: day_text_def fmt_le text_date_civil)

lemma date_UTC_eq:
  assumes "valid_date c" and "100 \<le> cd_year c"
  shows "date_UTC (cd_year c) (cd_month c - 1) d = day_num c - cd_day c + d"
proof -
  have "(cd_month c - 1) div 12 = 0" "(cd_month c - 1) mod 12 = cd_month c - 1"
    using assms(1) by (auto simp: valid_date_def intro: div_pos_pos_trivial mod_pos_pos_trivial)
  with assms(2) show ?thesis by (simp add: date_UTC_def day_num_def Let_def)
qed

lemma addDays_fmt:
  assumes "text_date c" and "100 \<le> cd_year c"
  shows "addDays (fmt c) k = Inr (day_text (day_num c + k))"
  using assms by (simp add: addDays_def date_UTC_eq text_date_def Let_def day_text_def)

lemma diffInDays_fmt:
  assumes "text_date a" and "100 \<le> cd_year a" and "text_date b" and "100 \<le> cd_year b"
  shows "diffInDays (fmt a) (fmt b) = Inr (day_num b - day_num a)"
  using assms by (simp add: diffInDays_def date_UTC_eq text_date_def)

lemma addDays_day_text:
  assumes "day_from_year 100 \<le> n" and "n < day_from_year 10000"
  shows "addDays (day_text n) k = Inr (day_text (n + k))"
  using assms addDays_fmt [of "civil_of_day n" k]
  by (simp add: day_text_def text_date_civil year_of_day_ge day_from_year_ends
      cd_year_civil_of_day)

lemma diffInDays_day_text:
  assumes "day_from_year 100 \<le> n" and "n < day_from_year 10000"
    and "day_from_year 100 \<le> m" and "m < day_from_year 10000"
  shows "diffInDays (day_text n) (day_text m) = Inr (m - n)"
  using assms diffInDays_fmt [of "civil_of_day n" "civil_of_day m"]
  by (simp add: day_text_def text_date_civil year_of_day_ge day_from_year_ends
      cd_year_civil_of_day)

lemma civil_step_forward:
  assumes "valid_date c"
  shows "valid_date (civil_step 1 c) \<and> day_num (civil_step 1 c) = day_num c + 1"
proof -
  let ?y = "cd_year c" and ?m = "cd_month c" and ?d = "cd_day c"
  have v: "1 \<le> ?m" "?m \<le> 12" "1 \<le> ?d" "?d \<le> daysInMonth ?y ?m"
    using assms by (simp_all add: valid_date_def)
  consider "?d < daysInMonth ?y ?m" | "?d = daysInMonth ?y ?m" "?m < 12"
    | "?d = daysInMonth ?y ?m" "?m = 12"
    using v by linarith
  then show ?thesis
  proof cases
    case 1
    with v show ?thesis by (simp add: civil_step_def Let_def valid_date_def day_num_def)
  next
    case 2
    with v show ?thesis
      by (simp add: civil_step_def Let_def valid_date_def day_num_def days_before_Suc)
  next
    case 3
    with v show ?thesis using year_length_days [of ?y]
      by (simp add: civil_step_def Let_def valid_date_def day_num_def)
  qed
qed

lemma civil_step_back:
  assumes "valid_date c"
  shows "valid_date (civil_step (-1) c) \<and> day_num (civil_step (-1) c) = day_num c - 1"
proof -
  let ?y = "cd_year c" and ?m = "cd_month c" and ?d = "cd_day c"
  have v: "1 \<le> ?m" "?m \<le> 12" "1 \<le> ?d" "?d \<le> daysInMonth ?y ?m"
    using assms by (simp_all add: valid_date_def)
  consider "1 < ?d" | "?d = 1" "1 < ?m" | "?d = 1" "?m = 1"
    using v by linarith
  then show ?thesis
  proof cases
    case 1
    with v show ?thesis by (simp add: civil_step_def Let_def valid_date_def day_num_def)
  next
    case 2
    with v have "\<not> daysInMonth ?y ?m < 0" using daysInMonth_pos(1) [of ?y ?m] by linarith
    with 2 v show ?thesis using days_before_Suc [of "?m - 1" ?y]
      by (simp add: civil_step_def Let_def valid_date_def day_num_def)
  next
    case 3
    then show ?thesis using year_length_days [of "?y - 1"]
      by (simp add: civil_step_def Let_def valid_date_def day_num_def)
  qed
qed

lemma civil_walk_forward:
  "valid_date c \<Longrightarrow>
    valid_date (civil_walk n 1 c) \<and> day_num (civil_walk n 1 c) = day_num c + int n"
  by (induction n arbitrary: c) (simp_all add: civil_step_forward)

lemma civil_walk_back:
  "valid_date c \<Longrightarrow>
    valid_date (civil_walk n (-1) c) \<and> day_num (civil_walk n (-1) c) = day_num c - int n"
  by (induction n arbitrary: c) (simp_all add: civil_step_back)

lemma civil_walk_day:
  assumes "valid_date c"
  shows "valid_date (civil_walk (nat \<bar>k\<bar>) (if k < 0 then -1 else 1) c)
    \<and> day_num (civil_walk (nat \<bar>k\<bar>) (if k < 0 then -1 else 1) c) = day_num c + k"
proof (cases "k < 0")
  case True
  with civil_walk_back [OF assms, of "nat \<bar>k\<bar>"] show ?thesis by simp
next
  case False
  with civil_walk_forward [OF assms, of "nat \<bar>k\<bar>"] show ?thesis by simp
qed

lemma civil_walk_eq:
  assumes "valid_date c"
  shows "civil_walk (nat \<bar>k\<bar>) (if k < 0 then -1 else 1) c = civil_of_day (day_num c + k)"
  using civil_walk_day [OF assms, of k] civil_of_day_num by metis

lemma addCivilDays_eq:
  "valid_date c \<Longrightarrow> addCivilDays c k =
    (if cd_year (civil_of_day (day_num c + k)) < 1 \<or> cd_year (civil_of_day (day_num c + k)) > 9999
     then Inl Range_Error else Inr (civil_of_day (day_num c + k)))"
  by (simp add: addCivilDays_def civil_walk_eq Let_def)

lemma addCivilDays_Inr:
  assumes "valid_date c" and "addCivilDays c k = Inr d"
  shows "text_date d" "day_num d = day_num c + k"
  using assms by (auto simp: addCivilDays_eq text_date_of_day split: if_splits)

lemma dayOfWeek_eq:
  assumes "valid_date c"
  shows "dayOfWeek c = Inr ((day_num c + 4) mod 7)"
proof -
  let ?y = "cd_year c" and ?m = "cd_month c" and ?d = "cd_day c"
  let ?a = "?y - (if ?m < 3 then 1 else 0)"
  let ?o = "MONTH_OFFSETS ! nat (?m - 1)"
  let ?s = "?a + ?a div 4 - ?a div 100 + ?a div 400 + ?o + ?d"
  define Q where "Q = ?a div 4 - ?a div 100 + ?a div 400"
  have v: "1 \<le> ?m" "?m \<le> 12" using assms by (simp_all add: valid_date_def)
  have Q: "Q = leap_days ?y + (if ?m < 3 then 0 else if isLeapYear ?y then 1 else 0)"
  proof (cases "?m < 3")
    case True
    then show ?thesis by (simp add: leap_days_def Q_def)
  next
    case False
    have "?y div 4 - ?y div 100 + ?y div 400 = leap_days (?y + 1)" by (simp add: leap_days_def)
    with False show ?thesis by (simp add: leap_days_Suc Q_def)
  qed
  define K where "K = 52 * ?y + [-102789, -102785, -102781, -102777, -102772, -102768, -102764,
    -102759, -102755, -102751, -102746, -102742] ! nat (?m - 1)"
  have "day_num c + 4 = ?a + Q + ?o + ?d + 7 * K"
    unfolding Q using v
    by (cases rule: month_cases)
      (simp_all add: K_def day_num_def day_from_year_def days_before_def MONTH_OFFSETS_def)
  moreover have "?a + Q + ?o + ?d = ?s" unfolding Q_def by algebra
  ultimately have "day_num c + 4 = ?s + 7 * K" by (simp only:)
  then have "(day_num c + 4) mod 7 = ?s mod 7" by (simp only: mod_mult_self2)
  moreover have "\<not> (?m < 1 \<or> 12 < ?m)" using v by simp
  ultimately show ?thesis unfolding dayOfWeek_def Let_def by (simp only: if_False)
qed

section \<open>Properties\<close>

text \<open>
  The parser of civil dates accepts exactly the texts the printer gives for a calendar
  date of years 1 to 9999, and reads back the date that was printed: parse and print are
  inverse to each other, and nothing else parses.
\<close>

lemma civil_text_roundtrip:
  "parseCivilDate s = Inr c \<longleftrightarrow> text_date c \<and> s = formatCivilDate (cd_year c) (cd_month c) (cd_day c)"
  using parse_sound [of s c] by auto

text \<open>
  Comparing two civil-date texts with the string operator of JavaScript, as every
  deadline check of the code does, compares the dates: the sign of \<open>diffInDays\<close>, and
  \<open>diffInDays\<close> never fails on them.
\<close>

lemma civil_text_order:
  assumes "parseCivilDate s = Inr a" and "parseCivilDate t = Inr b"
    and "100 \<le> cd_year a" and "100 \<le> cd_year b"
  shows "\<exists>k. diffInDays s t = Inr k \<and> (js_le s t \<longleftrightarrow> 0 \<le> k) \<and> (s = t \<longleftrightarrow> k = 0)"
proof -
  note p = parse_sound [OF assms(1)] parse_sound [OF assms(2)]
  have v: "valid_date a" "valid_date b" using p by (simp_all add: text_date_def)
  have "diffInDays s t = Inr (day_num b - day_num a)"
    using diffInDays_fmt [OF p(1) assms(3) p(3) assms(4)] p by simp
  moreover have "js_le s t \<longleftrightarrow> day_num a \<le> day_num b" using fmt_le [OF p(1,3)] p by simp
  moreover have "s = t \<longleftrightarrow> day_num a = day_num b"
    using day_num_inject [OF v] assms p by auto
  ultimately show ?thesis by auto
qed

text \<open>
  The two date layers agree: adding days through the JavaScript \<open>Date\<close>
  (\<open>billing-calendar\<close>) and walking the calendar day by day
  (\<open>colombia-business-calendar\<close>) give the same date whenever the walk stays in the
  years 1 to 9999, for every date from year 100 on.
\<close>

lemma date_layers_agree:
  assumes "parseCivilDate s = Inr c" and "100 \<le> cd_year c" and "addCivilDays c k = Inr d"
  shows "addDays s k = Inr (formatCivilDate (cd_year d) (cd_month d) (cd_day d))"
proof -
  note p = parse_sound [OF assms(1)]
  have v: "valid_date c" using p by (simp add: text_date_def)
  note d = addCivilDays_Inr [OF v assms(3)]
  have "addDays s k = Inr (day_text (day_num d))"
    using addDays_fmt [OF p(1) assms(2)] p(2) d(2) by simp
  then show ?thesis using d(1) by (simp add: day_text_num text_date_def)
qed

text \<open>
  In the first century the two layers part: \<open>Date.UTC\<close> reads a year from 0 to 99 as
  1900 + year, so adding zero days to a date of year 99, which the parser accepts, moves
  it by nineteen centuries, while the walk leaves it in place.
\<close>

lemma addDays_first_century:
  "parseCivilDate ''0099-11-01'' = Inr \<lparr>cd_year = 99, cd_month = 11, cd_day = 1\<rparr> \<and>
   addDays ''0099-11-01'' 0 = Inr ''1999-11-01'' \<and>
   addCivilDays \<lparr>cd_year = 99, cd_month = 11, cd_day = 1\<rparr> 0
     = Inr \<lparr>cd_year = 99, cd_month = 11, cd_day = 1\<rparr>"
  by code_simp

text \<open>
  The congruence of \<open>dayOfWeek\<close> gives the weekday (Sunday is 0) that the Gregorian
  calendar of the JavaScript \<open>Date\<close> gives: day 0 of the epoch was a Thursday, and the
  weekdays cycle by seven.
\<close>

lemma dayOfWeek_gregorian:
  assumes "text_date c" and "100 \<le> cd_year c"
  shows "dayOfWeek c = Inr ((date_UTC (cd_year c) (cd_month c - 1) (cd_day c) + 4) mod 7)"
  using assms by (simp add: dayOfWeek_eq date_UTC_eq text_date_def)

end
