(* ===== verification/ColombiaCalendar.thy ===== *)
theory ColombiaCalendar
  imports CivilDate
begin

text \<open>
  Colombian business days: \<open>packages/shared/src/calendar/colombia-business-calendar.ts\<close>.
  The holidays of a year (fixed, moved to Monday, and counted from Easter), the test for a
  business day, the business-day counter behind every legal deadline, and calendar months.
  The loop of \<open>addColombiaBusinessDays\<close> has no bound in the code: it is a partial
  function here (\<^const>\<open>None\<close> is not returning), and its totality is proved.
\<close>

section \<open>Holidays\<close>

definition FIXED_HOLIDAYS :: "(int \<times> int) list" where
  "FIXED_HOLIDAYS = [(1, 1), (5, 1), (7, 20), (8, 7), (12, 8), (12, 25)]"

definition EMILIANI_HOLIDAYS :: "(int \<times> int) list" where
  "EMILIANI_HOLIDAYS = [(1, 6), (3, 19), (6, 29), (7, 9), (8, 15), (10, 12), (11, 1), (11, 11)]"

definition followingMonday :: "civil_date \<Rightarrow> civil_date result" where
  "followingMonday date =
     res_bind (dayOfWeek date) (\<lambda>weekday. addCivilDays date ((8 - weekday) mod 7))"

definition easterSunday :: "int \<Rightarrow> civil_date" where
  "easterSunday year =
     (let a = year mod 19;
          b = year div 100;
          c = year mod 100;
          d = b div 4;
          e = b mod 4;
          f = (b + 8) div 25;
          g = (b - f + 1) div 3;
          h = (19 * a + b - d - g + 15) mod 30;
          i = c div 4;
          k = c mod 4;
          l = (32 + 2 * e + 2 * i - h - k) mod 7;
          m = (a + 11 * h + 22 * l) div 451;
          month = (h + l - 7 * m + 114) div 31;
          day = (h + l - 7 * m + 114) mod 31 + 1
      in \<lparr>cd_year = year, cd_month = month, cd_day = day\<rparr>)"

text \<open>\<open>Set.prototype.add\<close>: insertion order, no duplicates.\<close>

definition set_add :: "string list \<Rightarrow> string \<Rightarrow> string list" where
  "set_add h s = (if s \<in> set h then h else h @ [s])"

definition add_fixed :: "int \<Rightarrow> int \<times> int \<Rightarrow> string list \<Rightarrow> string list result" where
  "add_fixed year md h = Inr (set_add h (formatCivilDate year (fst md) (snd md)))"

definition add_emiliani :: "int \<Rightarrow> int \<times> int \<Rightarrow> string list \<Rightarrow> string list result" where
  "add_emiliani year md h =
     res_bind (followingMonday \<lparr>cd_year = year, cd_month = fst md, cd_day = snd md\<rparr>)
       (\<lambda>c. Inr (set_add h (fmt c)))"

definition add_movable :: "civil_date \<times> bool \<Rightarrow> string list \<Rightarrow> string list result" where
  "add_movable dt h =
     res_bind (if snd dt then followingMonday (fst dt) else Inr (fst dt))
       (\<lambda>c. Inr (set_add h (fmt c)))"

definition movableHolidays :: "civil_date \<Rightarrow> (civil_date \<times> bool) list result" where
  "movableHolidays easter =
     res_bind (addCivilDays easter (-7)) (\<lambda>ramos.
     res_bind (addCivilDays easter (-3)) (\<lambda>jueves.
     res_bind (addCivilDays easter (-2)) (\<lambda>viernes.
     res_bind (addCivilDays easter 39) (\<lambda>ascension.
     res_bind (addCivilDays easter 60) (\<lambda>corpus.
     res_bind (addCivilDays easter 68) (\<lambda>corazon.
       Inr [(ramos, False), (jueves, False), (viernes, False), (easter, False),
            (ascension, True), (corpus, True), (corazon, True)]))))))"

definition colombiaHolidays :: "int \<Rightarrow> string list result" where
  "colombiaHolidays year =
     (if year < 1 \<or> year > 9999 then Inl Range_Error
      else
        res_bind (res_fold (add_fixed year) FIXED_HOLIDAYS []) (\<lambda>h1.
        res_bind (res_fold (add_emiliani year) EMILIANI_HOLIDAYS h1) (\<lambda>h2.
        res_bind (movableHolidays (easterSunday year)) (\<lambda>movable.
        res_bind (res_fold add_movable movable h2) (\<lambda>holidays.
          Inr (js_sort js_le holidays))))))"

section \<open>Business days\<close>

definition isColombiaBusinessDay :: "string \<Rightarrow> bool result" where
  "isColombiaBusinessDay date =
     res_bind (parseCivilDate date) (\<lambda>civilDate.
     res_bind (dayOfWeek civilDate) (\<lambda>weekday.
       if weekday = 0 \<or> weekday = 6 then Inr False
       else res_bind (colombiaHolidays (cd_year civilDate)) (\<lambda>holidays.
              Inr (date \<notin> set holidays))))"

partial_function (option) business_loop ::
  "civil_date \<Rightarrow> int \<Rightarrow> civil_date result option" where
  "business_loop current remaining =
     (if remaining > 0
      then (case addCivilDays current 1 of
              Inl e \<Rightarrow> Some (Inl e)
            | Inr c \<Rightarrow>
                (case isColombiaBusinessDay (fmt c) of
                   Inl e \<Rightarrow> Some (Inl e)
                 | Inr b \<Rightarrow> business_loop c (if b then remaining - 1 else remaining)))
      else Some (Inr current))"

declare business_loop.simps [code]

definition addColombiaBusinessDays :: "string \<Rightarrow> int \<Rightarrow> string result option" where
  "addColombiaBusinessDays fromDate days =
     (case parseCivilDate fromDate of
        Inl e \<Rightarrow> Some (Inl e)
      | Inr start \<Rightarrow>
          if days < 0 then Some (Inl Range_Error)
          else map_option (\<lambda>r. res_bind r (\<lambda>current. Inr (fmt current))) (business_loop start days))"

definition addCalendarMonths :: "string \<Rightarrow> int \<Rightarrow> string result" where
  "addCalendarMonths fromDate months =
     res_bind (parseCivilDate fromDate) (\<lambda>start.
       let absoluteMonth = cd_year start * 12 + cd_month start - 1 + months;
           year = absoluteMonth div 12;
           month = absoluteMonth mod 12 + 1
       in if year < 1 \<or> year > 9999 then Inl Range_Error
          else Inr (formatCivilDate year month (min (cd_day start) (daysInMonth year month))))"

section \<open>Easter\<close>

lemma easterSunday_parts:
  obtains q where "0 \<le> q" "q \<le> 34"
    "easterSunday y = \<lparr>cd_year = y, cd_month = (q + 114) div 31, cd_day = (q + 114) mod 31 + 1\<rparr>"
    "\<exists>z. q + 5 * (y div 100 mod 4) + 5 * (y mod 100 div 4) + y mod 100 mod 4 + 3 = 7 * (z::int)"
proof -
  define a b c where "a = y mod 19" and "b = y div 100" and "c = y mod 100"
  define d e f where "d = b div 4" and "e = b mod 4" and "f = (b + 8) div 25"
  define g where "g = (b - f + 1) div 3"
  define h where "h = (19 * a + b - d - g + 15) mod 30"
  define i k where "i = c div 4" and "k = c mod 4"
  define w where "w = 32 + 2 * e + 2 * i - h - k"
  define l where "l = w mod 7"
  define m where "m = (a + 11 * h + 22 * l) div 451"
  define q where "q = h + l - 7 * m"
  have b: "0 \<le> a" "a \<le> 18" "0 \<le> h" "h \<le> 29" "0 \<le> l" "l \<le> 6"
    using pos_mod_sign [of 19 y] pos_mod_bound [of 19 y]
      pos_mod_sign [of 30 "19 * a + b - d - g + 15"] pos_mod_bound [of 30 "19 * a + b - d - g + 15"]
      pos_mod_sign [of 7 w] pos_mod_bound [of 7 w]
    unfolding a_def h_def l_def by linarith+
  have m: "451 * m \<le> a + 11 * h + 22 * l" "a + 11 * h + 22 * l < 451 * m + 451"
    unfolding m_def using div_bounds(1) [of 451 "a + 11 * h + 22 * l"]
      div_bounds(2) [of 451 "a + 11 * h + 22 * l"] by simp_all
  have m01: "m = 0 \<or> m = 1" using b m by linarith
  have "0 \<le> q \<and> q \<le> 34"
  proof (cases "m = 0")
    case True
    have "h + l \<noteq> 35"
    proof
      assume "h + l = 35"
      then have "h = 29" "l = 6" using b by linarith+
      with m True b show False by simp
    qed
    with True b show ?thesis by (simp add: q_def)
  next
    case False
    with m01 have "m = 1" by simp
    with m b show ?thesis by (simp add: q_def)
  qed
  moreover have "easterSunday y = \<lparr>cd_year = y, cd_month = (q + 114) div 31, cd_day = (q + 114) mod 31 + 1\<rparr>"
    unfolding easterSunday_def Let_def q_def m_def l_def w_def k_def i_def h_def g_def f_def e_def d_def
      c_def b_def a_def by (rule refl)
  moreover have "\<exists>z. q + 5 * (y div 100 mod 4) + 5 * (y mod 100 div 4) + y mod 100 mod 4 + 3 = 7 * z"
  proof -
    obtain v where v: "w = 7 * v + l" by (metis l_def mult_div_mod_eq)
    have "q + 5 * e + 5 * i + k + 3 = 7 * (5 + e + i - v - m)"
      using v by (simp add: q_def w_def)
    then show ?thesis
      unfolding b_def [symmetric] c_def [symmetric] e_def [symmetric] i_def [symmetric]
        k_def [symmetric] by blast
  qed
  ultimately show thesis using that by blast
qed


definition march22 :: "int \<Rightarrow> civil_date" where
  "march22 y = \<lparr>cd_year = y, cd_month = 3, cd_day = 22\<rparr>"

lemma easter_offset:
  assumes "0 \<le> q" and "q \<le> 34"
    and "c = \<lparr>cd_year = y, cd_month = (q + 114) div 31, cd_day = (q + 114) mod 31 + 1\<rparr>"
  shows "valid_date c" "day_num c = day_num (march22 y) + q"
proof -
  have "(q + 114) div 31 = (if q \<le> 9 then 3 else 4)" "(q + 114) mod 31 = (if q \<le> 9 then q + 21 else q - 10)"
    using assms(1,2) int_div_pos_eq [of "q + 114" 31 3 "q + 21"] int_mod_pos_eq [of "q + 114" 31 3 "q + 21"]
      int_div_pos_eq [of "q + 114" 31 4 "q - 10"] int_mod_pos_eq [of "q + 114" 31 4 "q - 10"] by simp_all
  then show "valid_date c" "day_num c = day_num (march22 y) + q"
    using assms days_before_Suc [of 3 y]
    by (simp_all add: valid_date_def day_num_def march22_def daysInMonth_def)
qed

lemma valid_march22 [simp]: "valid_date (march22 y)"
  by (simp add: march22_def valid_date_def daysInMonth_def)

text \<open>The weekday of 22 March, split over the century, the quarter century and the year.\<close>

lemma march22_weekday:
  "\<exists>z. day_num (march22 y) + 4 = 5 * (y div 100 mod 4) + 5 * (y mod 100 div 4) + y mod 100 mod 4 + 3 + 7 * z"
proof -
  define b c where "b = y div 100" and "c = y mod 100"
  define d e i k where "d = b div 4" and "e = b mod 4" and "i = c div 4" and "k = c mod 4"
  have y: "y = 100 * b + c" "b = 4 * d + e" "c = 4 * i + k"
    by (simp_all add: b_def c_def d_def e_def i_def k_def)
  have r: "0 \<le> c" "c < 100" "0 \<le> e" "e < 4" "0 \<le> k" "k < 4" by (simp_all add: c_def e_def k_def)
  have y4: "y div 4 = 25 * b + i"
    using r y by (intro int_div_pos_eq [of y 4 "25 * b + i" k]) simp_all
  have y400: "y div 400 = d"
    using r y by (intro int_div_pos_eq [of y 400 d "100 * e + c"]) simp_all
  have "leap_days (y + 1) = 25 * b + i - b + d"
    using y4 y400 by (simp add: leap_days_def b_def)
  then have ly: "leap_days y + (if isLeapYear y then 1 else 0) = 25 * b + i - b + d"
    by (simp add: leap_days_Suc)
  have "day_num (march22 y) + 4
      = 365 * (y - 1) + (leap_days y + (if isLeapYear y then 1 else 0)) - 719162 + 59 + 22 - 1 + 4"
    by (simp add: day_num_def march22_def day_from_year_def days_before_def)
  also have "\<dots> = 5 * e + 5 * i + k + 3 + 7 * (20871 * d + 5217 * e + 208 * i + 52 * k - 102778)"
    unfolding ly using y by simp
  finally show ?thesis
    unfolding b_def [symmetric] c_def [symmetric] e_def [symmetric] i_def [symmetric] k_def [symmetric]
    by blast
qed

text \<open>Easter falls on a Sunday between 22 March and 25 April of its year.\<close>

lemma easterSunday_sound:
  "valid_date (easterSunday y)" "cd_year (easterSunday y) = y"
  "day_num (march22 y) \<le> day_num (easterSunday y)" "day_num (easterSunday y) \<le> day_num (march22 y) + 34"
  "(day_num (easterSunday y) + 4) mod 7 = 0"
proof -
  obtain q z where q: "0 \<le> q" "q \<le> 34"
    "easterSunday y = \<lparr>cd_year = y, cd_month = (q + 114) div 31, cd_day = (q + 114) mod 31 + 1\<rparr>"
    "q + 5 * (y div 100 mod 4) + 5 * (y mod 100 div 4) + y mod 100 mod 4 + 3 = 7 * z"
    by (metis easterSunday_parts)
  note e = easter_offset [OF q(1-3)]
  show "valid_date (easterSunday y)" "cd_year (easterSunday y) = y"
    "day_num (march22 y) \<le> day_num (easterSunday y)" "day_num (easterSunday y) \<le> day_num (march22 y) + 34"
    using e q(1,2) q(3) by simp_all
  obtain w where w: "day_num (march22 y) + 4
      = 5 * (y div 100 mod 4) + 5 * (y mod 100 div 4) + y mod 100 mod 4 + 3 + 7 * w"
    using march22_weekday by blast
  have "day_num (easterSunday y) + 4 = 7 * (z + w)" using e(2) w q(4) by simp
  then show "(day_num (easterSunday y) + 4) mod 7 = 0" by simp
qed

section \<open>The holidays of a year\<close>

lemma followingMonday_sound:
  assumes "valid_date c" and "1 \<le> cd_year c" and "cd_year c \<le> 9999" and "cd_month c < 12"
  obtains d where "followingMonday c = Inr d" "text_date d" "cd_year d = cd_year c"
    "day_num c \<le> day_num d" "day_num d \<le> day_num c + 6" "(day_num d + 4) mod 7 = 1"
proof -
  define n where "n = day_num c"
  define k where "k = (8 - (n + 4) mod 7) mod 7"
  have k: "0 \<le> k" "k \<le> 6" using pos_mod_sign [of 7] pos_mod_bound [of 7] unfolding k_def by (smt (verit))+
  have f: "followingMonday c = addCivilDays c k"
    using assms(1) by (simp add: followingMonday_def dayOfWeek_eq k_def n_def)
  have "days_before (cd_year c) (cd_month c) + daysInMonth (cd_year c) (cd_month c) \<le> days_before (cd_year c) 12"
    using assms by (intro days_before_mono) (simp_all add: valid_date_def)
  then have yr: "day_from_year (cd_year c) \<le> n" "n + 6 < day_from_year (cd_year c + 1)"
    using day_in_year(1) [OF assms(1)] year_length_days [of "cd_year c"] assms(1)
    by (simp_all add: n_def day_num_def valid_date_def)
  have y: "year_of_day (n + k) = cd_year c"
    using yr k by (intro year_of_day_unique) linarith+
  then have "addCivilDays c k = Inr (civil_of_day (n + k))"
    using assms by (simp add: addCivilDays_eq n_def [symmetric] cd_year_civil_of_day)
  moreover have "(n + k + 4) mod 7 = 1"
  proof -
    have "(n + 4 + (8 - (n + 4) mod 7) mod 7) mod 7 = (n + 4 + (8 - (n + 4))) mod 7"
      by (simp add: mod_simps)
    then show ?thesis by (simp add: k_def algebra_simps)
  qed
  ultimately show thesis
    using that [of "civil_of_day (n + k)"] f k y assms civil_of_day_valid [of "n + k"]
    by (simp add: text_date_def cd_year_civil_of_day n_def)
qed


definition year_texts :: "int \<Rightarrow> nat \<Rightarrow> string list \<Rightarrow> bool" where
  "year_texts y n h \<longleftrightarrow> length h \<le> n \<and> distinct h \<and>
     (\<forall>s \<in> set h. \<exists>d. text_date d \<and> cd_year d = y \<and> s = fmt d)"

lemma year_texts_add:
  "year_texts y n h \<Longrightarrow> text_date d \<Longrightarrow> cd_year d = y \<Longrightarrow> year_texts y (Suc n) (set_add h (fmt d))"
  by (auto simp: year_texts_def set_add_def)

lemma march22_day: "day_num (march22 y) = day_from_year y + 59 + 21 + (if isLeapYear y then 1 else 0)"
  by (simp add: day_num_def march22_def days_before_def)

lemma easter_walk:
  assumes "1 \<le> y" and "y \<le> 9999" and "-7 \<le> k" and "k \<le> 68"
  obtains c where "addCivilDays (easterSunday y) k = Inr c" "text_date c" "cd_year c = y" "cd_month c < 12"
    "day_num c = day_num (easterSunday y) + k"
proof -
  note e = easterSunday_sound [of y]
  define n c where "n = day_num (easterSunday y) + k" and "c = civil_of_day n"
  have n: "day_from_year y \<le> n" "n < day_from_year y + 300"
    using e(3,4) assms(3,4) unfolding march22_day n_def by (auto split: if_splits)
  then have y: "cd_year c = y"
    using day_from_year_Suc [of y] unfolding c_def cd_year_civil_of_day
    by (intro year_of_day_unique) (auto split: if_splits)
  have v: "valid_date c" unfolding c_def by (rule civil_of_day_valid)
  have "cd_month c < 12"
  proof (rule ccontr)
    assume "\<not> cd_month c < 12"
    then have m: "cd_month c = 12" using v by (simp add: valid_date_def)
    have "day_num c = day_from_year y + days_before y 12 + cd_day c - 1"
      unfolding day_num_def y m ..
    then have "day_from_year y + 334 \<le> day_num c"
      using v by (simp add: days_before_12 valid_date_def)
    moreover have "day_num c = n" by (simp add: c_def)
    ultimately show False using n(2) by simp
  qed
  moreover have "addCivilDays (easterSunday y) k = Inr c"
    using addCivilDays_eq [OF e(1), of k] y assms by (simp add: n_def [symmetric] c_def [symmetric])
  ultimately show thesis using that v y assms by (simp add: text_date_def c_def n_def)
qed

lemma colombiaHolidays_total:
  assumes "1 \<le> y" and "y \<le> 9999"
  shows "\<exists>hs. colombiaHolidays y = Inr hs \<and> year_texts y 21 hs \<and> sorted_wrt js_le hs"
proof -
  have h0: "year_texts y 0 []" by (simp add: year_texts_def)
  have s1: "\<exists>t. add_fixed y md h = Inr t \<and> year_texts y (Suc n) t"
    if "md \<in> set FIXED_HOLIDAYS" "year_texts y n h" for md n h
  proof -
    let ?d = "\<lparr>cd_year = y, cd_month = fst md, cd_day = snd md\<rparr>"
    have "text_date ?d"
      using that(1) assms by (auto simp: FIXED_HOLIDAYS_def text_date_def valid_date_def daysInMonth_def)
    then show ?thesis using year_texts_add [OF that(2), of ?d] by (simp add: add_fixed_def)
  qed
  have "length FIXED_HOLIDAYS = 6" by (simp add: FIXED_HOLIDAYS_def)
  then obtain h1 where h1: "res_fold (add_fixed y) FIXED_HOLIDAYS [] = Inr h1" "year_texts y 6 h1"
    using res_fold_total [of "year_texts y" 0 "[]" FIXED_HOLIDAYS "add_fixed y"] h0 s1 by auto
  have s2: "\<exists>t. add_emiliani y md h = Inr t \<and> year_texts y (Suc n) t"
    if "md \<in> set EMILIANI_HOLIDAYS" "year_texts y n h" for md n h
  proof -
    let ?d = "\<lparr>cd_year = y, cd_month = fst md, cd_day = snd md\<rparr>"
    have "valid_date ?d" "cd_month ?d < 12"
      using that(1) by (auto simp: EMILIANI_HOLIDAYS_def valid_date_def daysInMonth_def)
    then obtain d where "followingMonday ?d = Inr d" "text_date d" "cd_year d = y"
      using followingMonday_sound [of ?d] assms by auto
    then show ?thesis using year_texts_add [OF that(2)] by (simp add: add_emiliani_def)
  qed
  have "length EMILIANI_HOLIDAYS = 8" by (simp add: EMILIANI_HOLIDAYS_def)
  then obtain h2 where h2: "res_fold (add_emiliani y) EMILIANI_HOLIDAYS h1 = Inr h2" "year_texts y 14 h2"
    using res_fold_total [of "year_texts y" 6 h1 EMILIANI_HOLIDAYS "add_emiliani y"] h1(2) s2 by auto
  note ew = easter_walk [OF assms]
  obtain c1 where c1: "addCivilDays (easterSunday y) (-7) = Inr c1" "text_date c1" "cd_year c1 = y"
    using ew [of "-7"] by auto
  obtain c2 where c2: "addCivilDays (easterSunday y) (-3) = Inr c2" "text_date c2" "cd_year c2 = y"
    using ew [of "-3"] by auto
  obtain c3 where c3: "addCivilDays (easterSunday y) (-2) = Inr c3" "text_date c3" "cd_year c3 = y"
    using ew [of "-2"] by auto
  obtain c4 where c4: "addCivilDays (easterSunday y) 39 = Inr c4" "text_date c4" "cd_year c4 = y" "cd_month c4 < 12"
    using ew [of 39] by auto
  obtain c5 where c5: "addCivilDays (easterSunday y) 60 = Inr c5" "text_date c5" "cd_year c5 = y" "cd_month c5 < 12"
    using ew [of 60] by auto
  obtain c6 where c6: "addCivilDays (easterSunday y) 68 = Inr c6" "text_date c6" "cd_year c6 = y" "cd_month c6 < 12"
    using ew [of 68] by auto
  let ?mv = "[(c1, False), (c2, False), (c3, False), (easterSunday y, False), (c4, True), (c5, True), (c6, True)]"
  have mv: "movableHolidays (easterSunday y) = Inr ?mv"
    by (simp add: movableHolidays_def c1 c2 c3 c4 c5 c6)
  have e: "text_date (easterSunday y)" "cd_year (easterSunday y) = y"
    using easterSunday_sound [of y] assms by (simp_all add: text_date_def)
  have s3: "\<exists>t. add_movable dt h = Inr t \<and> year_texts y (Suc n) t"
    if dt: "dt \<in> set ?mv" and h: "year_texts y n h" for dt n h
  proof -
    have d: "text_date (fst dt)" "cd_year (fst dt) = y" "snd dt \<longrightarrow> cd_month (fst dt) < 12"
      using dt c1 c2 c3 c4 c5 c6 e by auto
    show ?thesis
    proof (cases "snd dt")
      case True
      with d followingMonday_sound [of "fst dt"] assms obtain c where
        "followingMonday (fst dt) = Inr c" "text_date c" "cd_year c = y" by (auto simp: text_date_def)
      then show ?thesis using year_texts_add [OF h] True by (simp add: add_movable_def)
    next
      case False
      then show ?thesis using year_texts_add [OF h d(1,2)] by (simp add: add_movable_def)
    qed
  qed
  have "14 + length ?mv = 21" by simp
  then obtain h3 where h3: "res_fold add_movable ?mv h2 = Inr h3" "year_texts y 21 h3"
    using res_fold_total [of "year_texts y" 14 h2 ?mv add_movable] h2(2) s3 by metis
  have "colombiaHolidays y = Inr (js_sort js_le h3)"
    unfolding colombiaHolidays_def h1(1) h2(1) mv res_bind_Inr h3(1) using assms by simp
  moreover have "year_texts y 21 (js_sort js_le h3)"
    using h3(2) distinct_js_sort [of "\<lambda>s. s" js_le h3] by (simp add: year_texts_def)
  ultimately show ?thesis using string_order.sorted_js_sort by blast
qed


section \<open>Counting business days\<close>

text \<open>
  The abstract contract of a business-day counter over day numbers: what the sum of a
  date and \<open>k\<close> business days is, and the consequences its clients rely on.
\<close>

definition days_counted :: "(int \<Rightarrow> bool) \<Rightarrow> int \<Rightarrow> int \<Rightarrow> int" where
  "days_counted bd n m = int (length (filter bd [n + 1..m]))"

definition counts_to :: "(int \<Rightarrow> bool) \<Rightarrow> int \<Rightarrow> int \<Rightarrow> int \<Rightarrow> bool" where
  "counts_to bd n k m \<longleftrightarrow> n \<le> m \<and> days_counted bd n m = k \<and> (if k = 0 then m = n else bd m)"

lemma days_counted_split: "n \<le> m \<Longrightarrow> m \<le> p \<Longrightarrow> days_counted bd n p = days_counted bd n m + days_counted bd m p"
  using upto_split2 [of "n + 1" m p] by (cases "n = m") (simp_all add: days_counted_def)

lemma days_counted_nonneg: "0 \<le> days_counted bd n m"
  by (simp add: days_counted_def)

lemma days_counted_last: "n < m \<Longrightarrow> bd m \<Longrightarrow> days_counted bd n m = days_counted bd n (m - 1) + 1"
  using upto_rec2 [of "n + 1" m] by (simp add: days_counted_def)

lemma counts_to_trans:
  assumes "counts_to bd n a m" and "counts_to bd m b p"
  shows "counts_to bd n (a + b) p"
  using assms days_counted_split [of n m p bd] days_counted_nonneg [of bd n m] days_counted_nonneg [of bd m p]
  by (auto simp: counts_to_def split: if_splits)

lemma counts_to_less:
  assumes "counts_to bd n a m" and "counts_to bd n' b p" and "n \<le> n'" and "a < b"
  shows "m < p"
proof (rule ccontr)
  assume c: "\<not> m < p"
  have n: "n' \<le> p" using assms(2) by (simp add: counts_to_def)
  have "days_counted bd n m = days_counted bd n n' + days_counted bd n' p + days_counted bd p m"
    using days_counted_split [of n n' m bd] days_counted_split [of n' p m bd] assms(3) n c by simp
  then show False
    using assms days_counted_nonneg [of bd n n'] days_counted_nonneg [of bd p m]
    by (simp add: counts_to_def)
qed

lemma counts_to_mono:
  assumes "counts_to bd n a m" and "counts_to bd n' a p" and "n \<le> n'"
  shows "m \<le> p"
proof (rule ccontr)
  assume c: "\<not> m \<le> p"
  have n: "n' \<le> p" using assms(2) by (simp add: counts_to_def)
  then have a: "a \<noteq> 0" using assms c by (auto simp: counts_to_def split: if_splits)
  then have m: "bd m" "n < m" using assms c n by (auto simp: counts_to_def)
  have "days_counted bd n m = days_counted bd n n' + days_counted bd n' p + days_counted bd p (m - 1) + 1"
    using days_counted_last [OF m(2), of bd] m(1) days_counted_split [of n n' "m - 1" bd]
      days_counted_split [of n' p "m - 1" bd] assms(3) n c by simp
  then show False
    using assms(1,2) days_counted_nonneg [of bd n n'] days_counted_nonneg [of bd p "m - 1"]
    by (simp add: counts_to_def)
qed

locale business_days =
  fixes bd :: "int \<Rightarrow> bool" and add :: "int \<Rightarrow> int \<Rightarrow> int option"
  assumes add_counts: "add n k = Some m \<Longrightarrow> counts_to bd n k m"
begin

lemma add_after: "add n k = Some m \<Longrightarrow> n \<le> m"
  using add_counts by (simp add: counts_to_def)

lemma add_zero: "add n 0 = Some m \<Longrightarrow> m = n"
  using add_counts [of n 0 m] by (simp add: counts_to_def)

lemma add_business: "0 < k \<Longrightarrow> add n k = Some m \<Longrightarrow> bd m"
  using add_counts [of n k m] by (simp add: counts_to_def)

lemma add_unique: "counts_to bd n k m \<Longrightarrow> add n k = Some p \<Longrightarrow> p = m"
  using add_counts counts_to_mono by (metis order_antisym order_refl)

lemma add_add: "add n a = Some m \<Longrightarrow> add m b = Some p \<Longrightarrow> add n (a + b) = Some q \<Longrightarrow> q = p"
  using counts_to_trans [OF add_counts add_counts] add_unique by blast

lemma add_mono: "add n k = Some m \<Longrightarrow> add n' k = Some p \<Longrightarrow> n \<le> n' \<Longrightarrow> m \<le> p"
  using counts_to_mono [OF add_counts add_counts] by blast

lemma add_less: "add n a = Some m \<Longrightarrow> add n' b = Some p \<Longrightarrow> n \<le> n' \<Longrightarrow> a < b \<Longrightarrow> m < p"
  using counts_to_less [OF add_counts add_counts] by blast

end

section \<open>A business day within seventy\<close>

definition business_day :: "int \<Rightarrow> bool" where
  "business_day n \<longleftrightarrow> isColombiaBusinessDay (day_text n) = Inr True"

definition holiday_texts :: "int \<Rightarrow> string set" where
  "holiday_texts y = (case colombiaHolidays y of Inl _ \<Rightarrow> {} | Inr hs \<Rightarrow> set hs)"

lemma holiday_texts_card: "finite (holiday_texts y)" "card (holiday_texts y) \<le> 21"
proof -
  have "finite (holiday_texts y) \<and> card (holiday_texts y) \<le> 21"
  proof (cases "1 \<le> y \<and> y \<le> 9999")
    case True
    then obtain hs where hs: "colombiaHolidays y = Inr hs" "year_texts y 21 hs"
      using colombiaHolidays_total by blast
    then show ?thesis using card_length [of hs] by (simp add: holiday_texts_def year_texts_def)
  next
    case False
    then show ?thesis by (auto simp: holiday_texts_def colombiaHolidays_def)
  qed
  then show "finite (holiday_texts y)" "card (holiday_texts y) \<le> 21" by simp_all
qed

lemma isColombiaBusinessDay_eq:
  assumes "day_from_year 1 \<le> n" and "n < day_from_year 10000"
  shows "isColombiaBusinessDay (day_text n)
    = Inr ((n + 4) mod 7 \<noteq> 0 \<and> (n + 4) mod 7 \<noteq> 6 \<and> day_text n \<notin> holiday_texts (year_of_day n))"
proof -
  have y: "1 \<le> year_of_day n" "year_of_day n \<le> 9999"
    using assms year_of_day_ge [of 1 n] year_of_day_ge [of 10000 n] by simp_all
  obtain hs where hs: "colombiaHolidays (year_of_day n) = Inr hs"
    using colombiaHolidays_total [OF y] by blast
  show ?thesis
    using assms hs
    by (simp add: isColombiaBusinessDay_def parse_day_text dayOfWeek_eq civil_of_day_valid
        cd_year_civil_of_day holiday_texts_def)
qed

lemma weekdays_70:
  "card {k \<in> {1..70}. (r + k) mod 7 \<noteq> (0::int) \<and> (r + k) mod 7 \<noteq> 6} = 50" if r: "0 \<le> r" "r < 7"
proof -
  let ?p = "\<lambda>r k. (r + k) mod 7 \<noteq> (0::int) \<and> (r + k) mod 7 \<noteq> 6"
  have "{k \<in> {1..70}. ?p r k} = set (filter (?p r) [1..70])" by auto
  moreover have "r \<in> set [0..6]" using r by simp
  moreover have "\<forall>r \<in> set [0..6]. length (filter (?p r) [1..70]) = 50" by code_simp
  ultimately show ?thesis by (simp add: distinct_card del: set_filter)
qed

lemma business_day_soon:
  assumes "day_from_year 1 \<le> n" and "n + 70 < day_from_year 10000"
  shows "\<exists>k. 1 \<le> k \<and> k \<le> 70 \<and> business_day (n + k)"
proof (rule ccontr)
  assume none: "\<nexists>k. 1 \<le> k \<and> k \<le> 70 \<and> business_day (n + k)"
  let ?Y = "year_of_day n"
  define r where "r = (n + 4) mod 7"
  let ?W = "{k \<in> {1..70}. (r + k) mod 7 \<noteq> 0 \<and> (r + k) mod 7 \<noteq> 6}"
  let ?H = "holiday_texts ?Y \<union> holiday_texts (?Y + 1)"
  have "card ?W = 50" unfolding r_def by (rule weekdays_70) simp_all
  have sub: "(\<lambda>k. day_text (n + k)) ` ?W \<subseteq> ?H"
  proof (rule image_subsetI)
    fix k assume k: "k \<in> ?W"
    then have kr: "1 \<le> k" "k \<le> 70" by simp_all
    have nk: "day_from_year 1 \<le> n + k" "n + k < day_from_year 10000" using assms kr by simp_all
    have "year_of_day (n + k) = ?Y \<or> year_of_day (n + k) = ?Y + 1"
    proof -
      have "?Y \<le> year_of_day (n + k)" using year_of_day_ge [of ?Y "n + k"] year_of_day_bounds(1) [of n] kr by simp
      moreover have "\<not> ?Y + 2 \<le> year_of_day (n + k)"
        using year_of_day_ge [of "?Y + 2" "n + k"] year_of_day_bounds(2) [of n] kr
          day_from_year_mono [of "?Y + 1" "?Y + 2"] by simp
      ultimately show ?thesis by linarith
    qed
    moreover have "(n + k + 4) mod 7 = (r + k) mod 7" by (simp add: r_def mod_simps algebra_simps)
    moreover have "\<not> business_day (n + k)" using none kr by blast
    ultimately show "day_text (n + k) \<in> ?H"
      using isColombiaBusinessDay_eq [OF nk] k unfolding business_day_def by simp metis
  qed
  have inj: "inj_on (\<lambda>k. day_text (n + k)) ?W"
  proof (rule inj_onI)
    fix k j assume "k \<in> ?W" "j \<in> ?W" "day_text (n + k) = day_text (n + j)"
    then show "k = j"
      using assms day_text_le [of "n + k" "n + j"] day_text_le [of "n + j" "n + k"] by simp
  qed
  have "card ?W \<le> card ?H"
    by (rule card_inj_on_le [OF inj sub]) (simp add: holiday_texts_card(1))
  also have "card ?H \<le> 42"
    using holiday_texts_card(2) [of ?Y] holiday_texts_card(2) [of "?Y + 1"]
      card_Un_le [of "holiday_texts ?Y" "holiday_texts (?Y + 1)"] by linarith
  finally show False using \<open>card ?W = 50\<close> by simp
qed


section \<open>The loop of addColombiaBusinessDays\<close>

lemma days_counted_step: "n < m \<Longrightarrow> days_counted bd n m = (if bd (n + 1) then 1 else 0) + days_counted bd (n + 1) m"
  using upto_rec1 [of "n + 1" m] by (simp add: days_counted_def)

lemma counts_to_step:
  assumes "0 < k" and "counts_to bd (n + 1) (if bd (n + 1) then k - 1 else k) m"
  shows "counts_to bd n k m"
  using assms days_counted_step [of n m bd] by (auto simp: counts_to_def split: if_splits)

text \<open>Whatever the loop returns is the right date.\<close>

lemma business_loop_sound:
  assumes "business_loop c k = Some r"
  shows "0 \<le> k \<longrightarrow> text_date c \<longrightarrow> (\<forall>d. r = Inr d \<longrightarrow>
    text_date d \<and> counts_to business_day (day_num c) k (day_num d))"
proof (rule business_loop.raw_induct [OF _ assms])
  fix loop c k r
  assume IH: "\<And>c k r. loop c k = Some r \<Longrightarrow> 0 \<le> k \<longrightarrow> text_date c \<longrightarrow> (\<forall>d. r = Inr d \<longrightarrow>
      text_date d \<and> counts_to business_day (day_num c) k (day_num d))"
    and body: "(if 0 < k
      then case addCivilDays c 1 of Inl e \<Rightarrow> Some (Inl e)
           | Inr c' \<Rightarrow>
               (case isColombiaBusinessDay (fmt c') of Inl e \<Rightarrow> Some (Inl e)
               | Inr b \<Rightarrow> loop c' (if b then k - 1 else k))
      else Some (Inr c)) = Some r"
  show "0 \<le> k \<longrightarrow> text_date c \<longrightarrow> (\<forall>d. r = Inr d \<longrightarrow>
      text_date d \<and> counts_to business_day (day_num c) k (day_num d))"
  proof (intro impI allI)
    fix d
    assume k: "0 \<le> k" and c: "text_date c" and r: "r = Inr d"
    have v: "valid_date c" using c by (simp add: text_date_def)
    show "text_date d \<and> counts_to business_day (day_num c) k (day_num d)"
    proof (cases "k = 0")
      case True
      with body r c show ?thesis by (simp add: counts_to_def days_counted_def)
    next
      case False
      with k have k: "0 < k" by simp
      with body r obtain c' b where
        c': "addCivilDays c 1 = Inr c'" and b: "isColombiaBusinessDay (fmt c') = Inr b"
        and l: "loop c' (if b then k - 1 else k) = Some (Inr d)"
        by (auto split: sum.splits)
      note w = addCivilDays_Inr [OF v c']
      have "b = business_day (day_num c + 1)"
        using b w by (auto simp: business_day_def day_text_num text_date_def simp flip: w(2))
      with IH [OF l] w k show ?thesis
        by (cases b) (auto intro: counts_to_step)
    qed
  qed
qed

lemma business_loop_step:
  assumes "day_from_year 1 \<le> n" and "n + 1 < day_from_year 10000" and "0 < k"
  shows "business_loop (civil_of_day n) k
    = business_loop (civil_of_day (n + 1)) (if business_day (n + 1) then k - 1 else k)"
proof -
  have t: "text_date (civil_of_day (n + 1))" using assms by (simp add: text_date_civil)
  then have "addCivilDays (civil_of_day n) 1 = Inr (civil_of_day (n + 1))"
    by (simp add: addCivilDays_eq civil_of_day_valid text_date_def)
  moreover have "isColombiaBusinessDay (fmt (civil_of_day (n + 1))) = Inr (business_day (n + 1))"
    using assms isColombiaBusinessDay_eq [of "n + 1"]
    by (simp add: business_day_def day_text_def [symmetric])
  ultimately show ?thesis
    using assms(3) by (subst business_loop.simps) simp
qed

lemma business_loop_skip:
  assumes "business_day (n + int j)" and "1 \<le> j" and "day_from_year 1 \<le> n"
    and "n + int j < day_from_year 10000" and "0 < k"
    and "\<And>m. n < m \<Longrightarrow> m \<le> n + int j \<Longrightarrow> \<exists>d. business_loop (civil_of_day m) (k - 1) = Some (Inr d)"
  shows "\<exists>d. business_loop (civil_of_day n) k = Some (Inr d)"
  using assms
proof (induction j arbitrary: n)
  case (Suc j)
  have s: "business_loop (civil_of_day n) k
      = business_loop (civil_of_day (n + 1)) (if business_day (n + 1) then k - 1 else k)"
    using Suc.prems by (intro business_loop_step) simp_all
  show ?case
  proof (cases "business_day (n + 1)")
    case True
    with s Suc.prems(6) [of "n + 1"] show ?thesis by simp
  next
    case False
    have e: "n + 1 + int j = n + int (Suc j)" by simp
    have "1 \<le> j" using False Suc.prems(1) by (cases j) simp_all
    then have "\<exists>d. business_loop (civil_of_day (n + 1)) k = Some (Inr d)"
      using Suc.prems by (intro Suc.IH) (simp_all add: e)
    with s False show ?thesis by simp
  qed
qed simp

lemma business_loop_returns:
  assumes "day_from_year 1 \<le> n" and "n + 70 * int k < day_from_year 10000"
  shows "\<exists>d. business_loop (civil_of_day n) (int k) = Some (Inr d)"
  using assms
proof (induction k arbitrary: n)
  case 0
  then show ?case by (subst business_loop.simps) simp
next
  case (Suc k)
  obtain j where j: "1 \<le> j" "j \<le> 70" "business_day (n + j)"
    using business_day_soon [of n] Suc.prems by auto
  show ?case
  proof (rule business_loop_skip [of n "nat j"])
    fix m
    assume "n < m" "m \<le> n + int (nat j)"
    then show "\<exists>d. business_loop (civil_of_day m) (int (Suc k) - 1) = Some (Inr d)"
      using Suc.IH [of m] Suc.prems j by simp
  qed (use j Suc.prems in simp_all)
qed

text \<open>
  The loop ends on every input: each turn moves one day on, and the walk throws when it
  leaves the calendar.
\<close>

lemma business_loop_total:
  assumes "text_date c"
  shows "\<exists>r. business_loop c k = Some r"
  using assms
proof (induction "nat (day_from_year 10000 - day_num c)" arbitrary: c k rule: less_induct)
  case less
  have v: "valid_date c" using less.prems by (simp add: text_date_def)
  then have n: "day_num c < day_from_year 10000"
    using less.prems text_date_civil [of "day_num c"] by simp
  show ?case
  proof (cases "addCivilDays c 1")
    case (Inl e)
    then show ?thesis by (subst business_loop.simps) simp
  next
    case (Inr c')
    note w = addCivilDays_Inr [OF v Inr]
    have l: "\<exists>r. business_loop c' j = Some r" for j
      using w n by (intro less.hyps) simp_all
    show ?thesis
      using l Inr by (subst business_loop.simps) (simp split: sum.split)
  qed
qed

lemma addColombiaBusinessDays_total: "\<exists>r. addColombiaBusinessDays s k = Some r"
  using business_loop_total parse_sound(1)
  by (fastforce simp: addColombiaBusinessDays_def split: sum.split)

text \<open>The counter over day numbers, and the contract it meets.\<close>

definition add_business :: "int \<Rightarrow> int \<Rightarrow> int option" where
  "add_business n k =
     (if day_from_year 1 \<le> n \<and> n < day_from_year 10000 then
        (case addColombiaBusinessDays (day_text n) k of
           Some (Inr s) \<Rightarrow> (case parseCivilDate s of Inr d \<Rightarrow> Some (day_num d) | Inl _ \<Rightarrow> None)
         | _ \<Rightarrow> None)
      else None)"

lemma addColombiaBusinessDays_sound:
  assumes "parseCivilDate s = Inr c" and "addColombiaBusinessDays s k = Some (Inr r)"
  shows "\<exists>d. parseCivilDate r = Inr d \<and> counts_to business_day (day_num c) k (day_num d)"
proof -
  obtain d where d: "business_loop c k = Some (Inr d)" "r = fmt d" "0 \<le> k"
    using assms by (auto simp: addColombiaBusinessDays_def res_simps split: if_splits)
  then show ?thesis
    using business_loop_sound [OF d(1)] parse_sound(1) [OF assms(1)] by auto
qed

lemma add_business_counts: "add_business n k = Some m \<Longrightarrow> counts_to business_day n k m"
  using addColombiaBusinessDays_sound [of "day_text n" "civil_of_day n" k]
  by (auto simp: add_business_def parse_day_text split: if_splits option.splits sum.splits)

interpretation colombia: business_days business_day add_business
  by unfold_locales (rule add_business_counts)


lemma addColombiaBusinessDays_returns:
  assumes "parseCivilDate s = Inr c" and "0 \<le> k" and "day_num c + 70 * k < day_from_year 10000"
  obtains r d where "addColombiaBusinessDays s k = Some (Inr r)" "parseCivilDate r = Inr d"
    "counts_to business_day (day_num c) k (day_num d)"
proof -
  note p = parse_sound [OF assms(1)]
  have v: "valid_date c" using p by (simp add: text_date_def)
  have "day_from_year 1 \<le> day_num c"
    using p(1) text_date_civil [of "day_num c"] v by simp
  then obtain x where "business_loop c k = Some (Inr x)"
    using business_loop_returns [of "day_num c" "nat k"] assms(2,3) v by auto
  then have a: "addColombiaBusinessDays s k = Some (Inr (fmt x))"
    using assms by (simp add: addColombiaBusinessDays_def)
  show thesis using addColombiaBusinessDays_sound [OF assms(1) a] a that by blast
qed

text \<open>A deadline of \<open>k\<close> business days is at most \<open>70 * k\<close> days away.\<close>

lemma days_counted_70:
  assumes "day_from_year 1 \<le> n" and "n + 70 < day_from_year 10000"
  shows "1 \<le> days_counted business_day n (n + 70)"
proof -
  obtain j where j: "1 \<le> j" "j \<le> 70" "business_day (n + j)" using business_day_soon [OF assms] by blast
  have "days_counted business_day n (n + 70)
      = days_counted business_day n (n + j - 1) + 1 + days_counted business_day (n + j) (n + 70)"
    using days_counted_last [of n "n + j" business_day] days_counted_split [of n "n + j" "n + 70" business_day] j
    by simp
  then show ?thesis
    using days_counted_nonneg [of business_day n "n + j - 1"]
      days_counted_nonneg [of business_day "n + j" "n + 70"] by linarith
qed

lemma days_counted_rate:
  assumes "day_from_year 1 \<le> n" and "n + 70 * int k < day_from_year 10000"
  shows "int k \<le> days_counted business_day n (n + 70 * int k)"
  using assms
proof (induction k)
  case (Suc k)
  have e: "n + 70 * int (Suc k) = n + 70 * int k + 70" by simp
  have "int k \<le> days_counted business_day n (n + 70 * int k)" using Suc by simp
  moreover have "1 \<le> days_counted business_day (n + 70 * int k) (n + 70 * int k + 70)"
    using Suc.prems by (intro days_counted_70) simp_all
  moreover have "days_counted business_day n (n + 70 * int k + 70)
      = days_counted business_day n (n + 70 * int k)
        + days_counted business_day (n + 70 * int k) (n + 70 * int k + 70)"
    by (rule days_counted_split) simp_all
  ultimately show ?case unfolding e by simp
qed (simp add: days_counted_nonneg)

lemma counts_to_bound:
  assumes "counts_to business_day n k m" and "0 \<le> k" and "day_from_year 1 \<le> n"
    and "n + 70 * k < day_from_year 10000"
  shows "m \<le> n + 70 * k"
proof (rule ccontr)
  assume c: "\<not> m \<le> n + 70 * k"
  then have m: "business_day m" "n < m" using assms by (auto simp: counts_to_def split: if_splits)
  have "days_counted business_day n m = days_counted business_day n (m - 1) + 1"
    using days_counted_last [OF m(2), of business_day] m(1) by simp
  moreover have "days_counted business_day n (m - 1) = days_counted business_day n (n + 70 * k)
      + days_counted business_day (n + 70 * k) (m - 1)"
    using c assms(2) by (intro days_counted_split) simp_all
  moreover have "k \<le> days_counted business_day n (n + 70 * k)"
    using days_counted_rate [of n "nat k"] assms by simp
  ultimately show False
    using assms(1) days_counted_nonneg [of business_day "n + 70 * k" "m - 1"] by (simp add: counts_to_def)
qed

section \<open>Properties\<close>

text \<open>
  The computus of the code is right about Easter: for every year it gives a date
  that exists, a Sunday by the code's own weekday function, from 22 March to 25 April.
\<close>

lemma easterSunday_is_sunday:
  "dayOfWeek (easterSunday y) = Inr 0 \<and> cd_year (easterSunday y) = y \<and> valid_date (easterSunday y) \<and>
   (cd_month (easterSunday y) = 3 \<and> 22 \<le> cd_day (easterSunday y) \<or>
    cd_month (easterSunday y) = 4 \<and> cd_day (easterSunday y) \<le> 25)"
proof -
  note e = easterSunday_sound [of y]
  obtain q where q: "0 \<le> q" "q \<le> 34"
    "easterSunday y = \<lparr>cd_year = y, cd_month = (q + 114) div 31, cd_day = (q + 114) mod 31 + 1\<rparr>"
    by (metis easterSunday_parts)
  have "(q + 114) div 31 = (if q \<le> 9 then 3 else 4)" "(q + 114) mod 31 = (if q \<le> 9 then q + 21 else q - 10)"
    using q(1,2) int_div_pos_eq [of "q + 114" 31 3 "q + 21"] int_mod_pos_eq [of "q + 114" 31 3 "q + 21"]
      int_div_pos_eq [of "q + 114" 31 4 "q - 10"] int_mod_pos_eq [of "q + 114" 31 4 "q - 10"] by simp_all
  with q have "cd_month (easterSunday y) = 3 \<and> 22 \<le> cd_day (easterSunday y) \<or>
      cd_month (easterSunday y) = 4 \<and> cd_day (easterSunday y) \<le> 25"
    by (simp split: if_splits)
  then show ?thesis using e by (simp add: dayOfWeek_eq)
qed

text \<open>
  The list of holidays of a year from 1 to 9999 always exists (no date of it leaves
  the calendar), is sorted, has no repetition, has at most 21 entries, and every entry is
  a date text of that very year.
\<close>

lemma colombiaHolidays_wellformed:
  assumes "1 \<le> y" and "y \<le> 9999"
  shows "\<exists>hs. colombiaHolidays y = Inr hs \<and> sorted_wrt js_le hs \<and> distinct hs \<and> length hs \<le> 21 \<and>
    (\<forall>s \<in> set hs. \<exists>d. parseCivilDate s = Inr d \<and> cd_year d = y)"
proof -
  obtain hs where hs: "colombiaHolidays y = Inr hs" "year_texts y 21 hs" "sorted_wrt js_le hs"
    using colombiaHolidays_total [OF assms] by blast
  have "\<exists>d. parseCivilDate s = Inr d \<and> cd_year d = y" if "s \<in> set hs" for s
    using hs(2) that unfolding year_texts_def by (metis parse_fmt)
  then show ?thesis using hs by (auto simp: year_texts_def)
qed

text \<open>
  C38. Counting business days is exact and always ends: for a start date and a number of
  days that leave room before year 10000 the loop returns a date not before the start,
  which is a business day (the start itself for zero days), and the dates after the start
  up to it contain exactly the requested number of business days.
\<close>

theorem addColombiaBusinessDays_counts:
  assumes "parseCivilDate s = Inr c" and "0 \<le> k" and "day_num c + 70 * k < day_from_year 10000"
  shows "\<exists>r d. addColombiaBusinessDays s k = Some (Inr r) \<and> parseCivilDate r = Inr d \<and> js_le s r \<and>
    (if k = 0 then r = s else isColombiaBusinessDay r = Inr True) \<and>
    int (length (filter (\<lambda>n. isColombiaBusinessDay (day_text n) = Inr True)
      [day_num c + 1..day_num d])) = k"
proof -
  from addColombiaBusinessDays_returns [OF assms] obtain r d where
    r: "addColombiaBusinessDays s k = Some (Inr r)" "parseCivilDate r = Inr d"
    and n: "counts_to business_day (day_num c) k (day_num d)" by metis
  note p = parse_sound [OF assms(1)] parse_sound [OF r(2)]
  have v: "valid_date c" "valid_date d" using p by (simp_all add: text_date_def)
  have "js_le s r" using fmt_le [OF p(1,3)] p n by (simp add: counts_to_def)
  moreover have "if k = 0 then r = s else isColombiaBusinessDay r = Inr True"
    using n p v day_num_inject [OF v] day_text_num [OF v(2)]
    by (auto simp: counts_to_def business_day_def)
  moreover have "int (length (filter (\<lambda>n. isColombiaBusinessDay (day_text n) = Inr True)
      [day_num c + 1..day_num d])) = k"
    using n by (simp add: counts_to_def days_counted_def business_day_def [abs_def])
  ultimately show ?thesis using r by blast
qed

theorem addColombiaBusinessDays_counts_witness:
  "\<exists>r d. addColombiaBusinessDays ''2026-04-01'' 2 = Some (Inr r) \<and> parseCivilDate r = Inr d \<and>
    js_le ''2026-04-01'' r \<and> (if (2::int) = 0 then r = ''2026-04-01'' else isColombiaBusinessDay r = Inr True) \<and>
    int (length (filter (\<lambda>n. isColombiaBusinessDay (day_text n) = Inr True)
      [day_num \<lparr>cd_year = 2026, cd_month = 4, cd_day = 1\<rparr> + 1..day_num d])) = 2"
  by (rule addColombiaBusinessDays_counts) code_simp+

end
