(* ===== verification/PrivacyErasure.thy ===== *)
theory PrivacyErasure
  imports Prelude "HOL-Library.AList" "HOL-Library.Multiset"
begin

text \<open>
  The erasure of a titular's personal data: \<open>CrmPersonalDataErasureAdapter\<close> of
  \<open>apps/api/src/modules/crm/privacy-adapters/crm-personal-data-erasure.adapter.ts\<close>, which
  finds the scope and the blockers of an erasure (\<open>resolve\<close>), reports them (\<open>plan\<close>) and
  carries it out (\<open>anonymize\<close>), with the reads it makes of CRM, users and suppliers and the
  canonical document numbers (\<open>normalize-document-number.ts\<close>). The ten participants, which
  rewrite the tables of their own modules in SQL, are a parameter: what each answers in the
  transaction, with the errors of the driver. The tables have every column of the last
  migration, so the checks of \<open>readTenantColumns\<close> hold; logging is not modelled.
\<close>

section \<open>Data\<close>

datatype ErasureBlocker = IDENTITY_NOT_VERIFIED | INVALID_STATUS | CONSERVATION_DUTY
  | UNRECONCILED_TITULAR | ACTIVE_USER_ACCOUNT | SUPPLIER_PROFILE_LINKED | TOO_MANY_CANDIDATES

datatype ErasureCategory = IDENTIFICACION | CONTACTO | UBICACION | FISCAL | COMERCIAL
  | EVIDENCIA_CONSENTIMIENTO | CUENTA_USUARIO | EVIDENCIA_DOCUMENTAL | OPERACION_CAMPO

definition CATEGORIES :: "ErasureCategory list" where
  "CATEGORIES = [IDENTIFICACION, CONTACTO, UBICACION, FISCAL, COMERCIAL,
     EVIDENCIA_CONSENTIMIENTO, CUENTA_USUARIO, EVIDENCIA_DOCUMENTAL, OPERACION_CAMPO]"

fun category_text :: "ErasureCategory \<Rightarrow> string" where
  "category_text IDENTIFICACION = ''IDENTIFICACION''"
| "category_text CONTACTO = ''CONTACTO''"
| "category_text UBICACION = ''UBICACION''"
| "category_text FISCAL = ''FISCAL''"
| "category_text COMERCIAL = ''COMERCIAL''"
| "category_text EVIDENCIA_CONSENTIMIENTO = ''EVIDENCIA_CONSENTIMIENTO''"
| "category_text CUENTA_USUARIO = ''CUENTA_USUARIO''"
| "category_text EVIDENCIA_DOCUMENTAL = ''EVIDENCIA_DOCUMENTAL''"
| "category_text OPERACION_CAMPO = ''OPERACION_CAMPO''"

record erasure_target =
  et_request :: string
  et_party :: "string option"
  et_hmac :: "string option"

record erasure_scope =
  es_party :: "string option"
  es_subscribers :: "string list"
  es_expedientes :: "string list"
  es_users :: "string list"
  es_request :: string
  es_hmac :: "string option"
  es_schema :: "string option"
  es_related :: "(string \<times> string list) list"

record table_result =
  tr_table :: string
  tr_category :: ErasureCategory
  tr_selected :: nat
  tr_changed :: nat
  tr_residual :: nat

text \<open>
  A step of a participant fails with a \<open>QueryFailedError\<close>, which carries a SQLSTATE, or
  with any other error.
\<close>

datatype port_failure = Query_Failed string | Other_Failure http_error

record participant =
  pt_name :: string
  pt_resolve :: "(erasure_scope \<Rightarrow> port_failure + erasure_scope) option"
  pt_plan :: "erasure_scope \<Rightarrow> port_failure + table_result list"
  pt_apply :: "erasure_scope \<Rightarrow> port_failure + table_result list"

text \<open>The rows that \<open>resolve\<close> reads, and the participants, in one reading of the database.\<close>

record subscriber_link =
  sl_id :: string
  sl_party :: "string option"
  sl_user :: "string option"
  sl_hmac :: "string option"

record user_link =
  ul_id :: string
  ul_party :: "string option"
  ul_deleted_at :: "string option"

record erasure_world =
  ew_schema :: "string option"
  ew_subscribers :: "subscriber_link list"
  ew_expedientes :: "(string \<times> string option) list"
  ew_users :: "user_link list"
  ew_suppliers :: "string list"
  ew_participants :: "participant list"
  ew_billing :: "participant option"

section \<open>Canonical documents\<close>

datatype DocumentTypeParty = Doc_CC | Doc_CE | Doc_NIT | Doc_PASAPORTE | Doc_TI | Doc_RUT | Doc_OTHER

text \<open>
  \<open>toUpperCase().replace(/[^A-Z0-9]/gu, '')\<close>, one character at a time: the only character
  below 256 outside ASCII whose upper case has ASCII letters is the sharp s.
\<close>

definition upper_alnum :: "char \<Rightarrow> string" where
  "upper_alnum c =
     (if is_lower c then [char_of (nat (char_code c - 32))]
      else if is_upper c \<or> is_digit c then [c]
      else if char_code c = 223 then ''SS'' else [])"

definition normalizeDocumentNumber :: "DocumentTypeParty \<Rightarrow> string \<Rightarrow> string" where
  "normalizeDocumentNumber type raw =
     (if type \<in> set [Doc_CC, Doc_CE, Doc_NIT, Doc_RUT, Doc_TI] then filter is_digit raw
      else concat (map upper_alnum raw))"

section \<open>The reads of CRM, users and suppliers\<close>

text \<open>Identifiers are UUIDs: ordering their text is ordering by code unit.\<close>

definition findExpedienteIdsByDocumentHmac :: "erasure_world \<Rightarrow> string \<Rightarrow> string list" where
  "findExpedienteIdsByDocumentHmac w hmac =
     js_sort js_le (map fst (filter (\<lambda>e. snd e = Some hmac) (ew_expedientes w)))"

definition findSubscriberIds :: "erasure_world \<Rightarrow> string option \<Rightarrow> string list" where
  "findSubscriberIds w partyId =
     (case partyId of None \<Rightarrow> []
      | Some p \<Rightarrow> js_sort js_le (map sl_id (filter (\<lambda>s. sl_party s = Some p) (ew_subscribers w))))"

definition add_id :: "string list \<Rightarrow> string \<Rightarrow> string list" where
  "add_id ids i = (if i \<in> set ids then ids else ids @ [i])"

definition findUserIds :: "erasure_world \<Rightarrow> erasure_scope \<Rightarrow> string list" where
  "findUserIds w scope =
     (let linked = List.map_filter (\<lambda>s. if sl_id s \<in> set (es_subscribers scope) then sl_user s else None)
                     (ew_subscribers w);
          ids = foldl add_id [] (if length (es_subscribers scope) > 0 then linked else []);
          ids2 = (case es_party scope of None \<Rightarrow> ids
                  | Some p \<Rightarrow> foldl add_id ids (map ul_id (filter (\<lambda>u. ul_party u = Some p) (ew_users w))))
      in js_sort js_le ids2)"

definition activeAccountCount :: "erasure_world \<Rightarrow> string list \<Rightarrow> nat result" where
  "activeAccountCount w userIds =
     (if length userIds = 0 then Inr 0
      else let rows = filter (\<lambda>u. ul_id u \<in> set userIds) (ew_users w)
           in if length rows \<noteq> card (set userIds) then Inl Plain_Error
              else Inr (length (filter (\<lambda>u. ul_deleted_at u = None) rows)))"

definition hasSupplierProfile :: "erasure_world \<Rightarrow> string \<Rightarrow> bool" where
  "hasSupplierProfile w partyId \<longleftrightarrow> partyId \<in> set (ew_suppliers w)"

section \<open>Steps of the participants\<close>

definition PARTICIPANT_SCHEMA_SQLSTATES :: "string list" where
  "PARTICIPANT_SCHEMA_SQLSTATES = [''42P01'', ''42703'', ''22P02'', ''42883'', ''42804'']"

definition participant_unavailable :: http_error where
  "participant_unavailable = Service_Unavailable ''PRIVACY_ERASURE_PARTICIPANT_UNAVAILABLE''"

definition runParticipant :: "port_failure + 'a \<Rightarrow> 'a result" where
  "runParticipant step = (case step of
       Inr x \<Rightarrow> Inr x
     | Inl (Query_Failed code) \<Rightarrow>
         Inl (if code \<in> set PARTICIPANT_SCHEMA_SQLSTATES then participant_unavailable else Plain_Error)
     | Inl (Other_Failure e) \<Rightarrow> Inl e)"

definition participants :: "erasure_world \<Rightarrow> participant list" where
  "participants w = ew_participants w @ (case ew_billing w of Some b \<Rightarrow> [b] | None \<Rightarrow> [])"

definition assertBillingParticipantRegistered :: "erasure_world \<Rightarrow> unit result" where
  "assertBillingParticipantRegistered w = guard_ok (ew_billing w \<noteq> None) participant_unavailable"

definition resolveParticipants :: "erasure_world \<Rightarrow> erasure_scope \<Rightarrow> erasure_scope result" where
  "resolveParticipants w =
     res_fold (\<lambda>p scope. case pt_resolve p of None \<Rightarrow> Inr scope | Some f \<Rightarrow> runParticipant (f scope))
       (participants w)"

definition run_participants ::
  "(participant \<Rightarrow> port_failure + table_result list) \<Rightarrow> participant list \<Rightarrow> table_result list result" where
  "run_participants step ps =
     res_fold (\<lambda>p results. res_bind (runParticipant (step p)) (\<lambda>r. Inr (results @ r))) ps []"

section \<open>Resolving the scope\<close>

record resolved_scope =
  rsv_scope :: erasure_scope
  rsv_candidates :: "string list"
  rsv_blockers :: "ErasureBlocker list"
  rsv_results :: "table_result list"

text \<open>\<open>if (x)\<close> on a nullable string: neither null nor empty.\<close>

definition truthy :: "string option \<Rightarrow> bool" where
  "truthy s \<longleftrightarrow> s \<noteq> None \<and> s \<noteq> Some []"

definition candidate_ids :: "erasure_world \<Rightarrow> erasure_target \<Rightarrow> string list" where
  "candidate_ids w target =
     (if truthy (et_hmac target) then findExpedienteIdsByDocumentHmac w (the (et_hmac target)) else [])"

definition preliminary_scope :: "erasure_world \<Rightarrow> erasure_target \<Rightarrow> erasure_scope" where
  "preliminary_scope w target =
     \<lparr>es_party = et_party target, es_subscribers = findSubscriberIds w (et_party target),
      es_expedientes = candidate_ids w target, es_users = [], es_request = et_request target,
      es_hmac = et_hmac target, es_schema = None, es_related = []\<rparr>"

definition target_scope :: "erasure_world \<Rightarrow> erasure_target \<Rightarrow> erasure_scope" where
  "target_scope w target =
     (let preliminary = preliminary_scope w target
      in preliminary\<lparr>es_users := findUserIds w preliminary,
           es_schema := (if truthy (ew_schema w) then ew_schema w else None)\<rparr>)"

definition unreconciled :: "erasure_world \<Rightarrow> erasure_target \<Rightarrow> bool" where
  "unreconciled w target \<longleftrightarrow> et_party target = None \<and> truthy (et_hmac target) \<and>
     length (filter (\<lambda>s. sl_hmac s = et_hmac target) (ew_subscribers w)) > 0"

definition supplier_linked :: "erasure_world \<Rightarrow> erasure_target \<Rightarrow> bool" where
  "supplier_linked w target \<longleftrightarrow>
     (case et_party target of None \<Rightarrow> False | Some p \<Rightarrow> hasSupplierProfile w p)"

definition resolve_erasure :: "erasure_world \<Rightarrow> erasure_target \<Rightarrow> resolved_scope result" where
  "resolve_erasure w target =
     (let scope = target_scope w target
      in res_bind (activeAccountCount w (es_users scope)) (\<lambda>active.
           let blockers = (if unreconciled w target then [UNRECONCILED_TITULAR] else [])
                 @ (if active > 0 then [ACTIVE_USER_ACCOUNT] else [])
                 @ (if supplier_linked w target then [SUPPLIER_PROFILE_LINKED] else [])
           in res_bind (resolveParticipants w scope) (\<lambda>scope'.
              res_bind (run_participants (\<lambda>p. pt_plan p scope') (participants w)) (\<lambda>results.
                Inr \<lparr>rsv_scope = scope', rsv_candidates = candidate_ids w target,
                     rsv_blockers = blockers, rsv_results = results\<rparr>))))"

section \<open>The plan and the anonymization\<close>

record erasure_plan =
  pl_candidates :: "string list"
  pl_blockers :: "ErasureBlocker list"
  pl_counts :: "(ErasureCategory \<times> nat) list"

definition plan_counts :: "table_result list \<Rightarrow> (ErasureCategory \<times> nat) list" where
  "plan_counts results =
     map (\<lambda>c. (c, sum_list (map tr_selected (filter (\<lambda>r. tr_category r = c) results)))) CATEGORIES"

definition erasure_plan_of :: "erasure_world \<Rightarrow> erasure_target \<Rightarrow> erasure_plan result" where
  "erasure_plan_of w target =
     res_bind (assertBillingParticipantRegistered w) (\<lambda>_.
     res_bind (resolve_erasure w target) (\<lambda>resolved.
       Inr \<lparr>pl_candidates = rsv_candidates resolved,
            pl_blockers = filter (\<lambda>b. b \<in> set [UNRECONCILED_TITULAR, ACTIVE_USER_ACCOUNT,
              SUPPLIER_PROFILE_LINKED]) (rsv_blockers resolved),
            pl_counts = plan_counts (rsv_results resolved)\<rparr>))"

definition sameSet :: "string list \<Rightarrow> string list \<Rightarrow> bool" where
  "sameSet left right \<longleftrightarrow> length left = length right \<and>
     list_all2 (=) (js_sort js_le left) (js_sort js_le right)"

record erasure_result =
  ar_categories :: "ErasureCategory list"
  ar_changed_rows :: nat

definition add_category :: "ErasureCategory list \<Rightarrow> table_result \<Rightarrow> ErasureCategory list" where
  "add_category cs r =
     (if tr_changed r > 0 \<and> tr_category r \<notin> set cs then cs @ [tr_category r] else cs)"

definition max_by_table :: "(string \<times> nat) list \<Rightarrow> table_result \<Rightarrow> (string \<times> nat) list" where
  "max_by_table changed r =
     AList.update (tr_table r)
       (max (case map_of changed (tr_table r) of Some n \<Rightarrow> n | None \<Rightarrow> 0) (tr_changed r)) changed"

definition erasure_summary :: "table_result list \<Rightarrow> erasure_result" where
  "erasure_summary applied =
     \<lparr>ar_categories = foldl add_category [] applied,
      ar_changed_rows = sum_list (map snd (foldl max_by_table [] applied))\<rparr>"

definition anonymize :: "erasure_world \<Rightarrow> erasure_target \<Rightarrow> string list \<Rightarrow> erasure_result result" where
  "anonymize w target expedienteIds =
     res_bind (assertBillingParticipantRegistered w) (\<lambda>_.
     res_bind (resolve_erasure w target) (\<lambda>resolved.
       if \<not> sameSet expedienteIds (rsv_candidates resolved)
       then Inl (Conflict ''PRIVACY_ERASURE_CANDIDATES_CHANGED'')
       else if ACTIVE_USER_ACCOUNT \<in> set (rsv_blockers resolved)
       then Inl (Conflict ''PRIVACY_ERASURE_ACTIVE_ACCOUNT'')
       else if UNRECONCILED_TITULAR \<in> set (rsv_blockers resolved)
       then Inl (Conflict ''PRIVACY_ERASURE_UNRECONCILED_TITULAR'')
       else if SUPPLIER_PROFILE_LINKED \<in> set (rsv_blockers resolved)
       then Inl (Conflict ''PRIVACY_ERASURE_SUPPLIER_PROFILE'')
       else res_bind (run_participants (\<lambda>p. pt_apply p (rsv_scope resolved)) (participants w)) (\<lambda>applied.
         if sum_list (map tr_residual applied) > 0
         then Inl (Conflict ''PRIVACY_ERASURE_VERIFICATION_FAILED'')
         else Inr (erasure_summary applied))))"

section \<open>What the adapter guarantees\<close>

text \<open>Nobody the erasure must not touch: the three blockers, on the rows.\<close>

definition linked_user :: "erasure_world \<Rightarrow> erasure_target \<Rightarrow> user_link \<Rightarrow> bool" where
  "linked_user w target u \<longleftrightarrow> u \<in> set (ew_users w) \<and>
     (\<exists>p. et_party target = Some p \<and> (ul_party u = Some p \<or>
        (\<exists>s \<in> set (ew_subscribers w). sl_user s = Some (ul_id u) \<and>
           (\<exists>s' \<in> set (ew_subscribers w). sl_id s' = sl_id s \<and> sl_party s' = Some p))))"

definition erasable :: "erasure_world \<Rightarrow> erasure_target \<Rightarrow> bool" where
  "erasable w target \<longleftrightarrow>
     (et_party target = None \<longrightarrow> truthy (et_hmac target) \<longrightarrow>
        (\<forall>s \<in> set (ew_subscribers w). sl_hmac s \<noteq> et_hmac target)) \<and>
     (\<forall>u. linked_user w target u \<longrightarrow> ul_deleted_at u \<noteq> None) \<and>
     (\<forall>p. et_party target = Some p \<longrightarrow> p \<notin> set (ew_suppliers w))"

lemma set_add_id [simp]: "set (add_id ids i) = insert i (set ids)"
  by (auto simp: add_id_def)

lemma set_foldl_add_id [simp]: "set (foldl add_id ids xs) = set ids \<union> set xs"
  by (induction xs arbitrary: ids) auto

lemma mset_js_insort [simp]: "mset (js_insort le x ys) = add_mset x (mset ys)"
  by (induction ys) simp_all

lemma mset_js_sort [simp]: "mset (js_sort le xs) = mset xs"
  by (induction xs) simp_all

lemma sorted_js_unique:
  assumes "sorted_wrt js_le xs" and "sorted_wrt js_le ys" and "mset xs = mset ys"
  shows "xs = ys"
  using assms
proof (induction xs arbitrary: ys)
  case (Cons x xs)
  then obtain y ys' where ys: "ys = y # ys'" by (cases ys) simp_all
  have "x \<in> set ys" "y \<in> set (x # xs)"
    using Cons.prems(3) ys by (metis list.set_intros(1) mset_eq_setD)+
  then have "x = y" using Cons.prems(1,2) ys js_le_antisym by auto
  then show ?case using Cons.IH [of ys'] Cons.prems ys by simp
qed simp

lemma js_sort_mset:
  assumes "mset xs = mset ys"
  shows "js_sort js_le xs = js_sort js_le ys"
  by (rule sorted_js_unique) (simp_all add: string_order.sorted_js_sort assms)

lemma sameSet_mset: "sameSet left right \<longleftrightarrow> mset left = mset right"
proof
  assume "sameSet left right"
  then have "js_sort js_le left = js_sort js_le right" by (simp add: sameSet_def list.rel_eq)
  then show "mset left = mset right" by (metis mset_js_sort)
next
  assume m: "mset left = mset right"
  then have "length left = length right" by (metis size_mset)
  with js_sort_mset [OF m] show "sameSet left right" by (simp add: sameSet_def list.rel_eq)
qed

lemma truthy_Some: "truthy s \<longleftrightarrow> (\<exists>t. s = Some t \<and> t \<noteq> [])"
  by (cases s) (auto simp: truthy_def)

lemma set_findSubscriberIds:
  "i \<in> set (findSubscriberIds w (Some p)) \<longleftrightarrow> (\<exists>s \<in> set (ew_subscribers w). sl_id s = i \<and> sl_party s = Some p)"
  by (auto simp: findSubscriberIds_def)

lemma linked_user_found:
  assumes "linked_user w target u"
  shows "u \<in> set (ew_users w) \<and> ul_id u \<in> set (es_users (target_scope w target))"
proof -
  from assms obtain p where p: "et_party target = Some p" and u: "u \<in> set (ew_users w)"
    and l: "ul_party u = Some p \<or> (\<exists>s \<in> set (ew_subscribers w). sl_user s = Some (ul_id u) \<and>
        (\<exists>s' \<in> set (ew_subscribers w). sl_id s' = sl_id s \<and> sl_party s' = Some p))"
    unfolding linked_user_def by blast
  from l have "ul_id u \<in> set (findUserIds w (preliminary_scope w target))"
  proof
    assume "ul_party u = Some p"
    then show ?thesis using p u by (auto simp: findUserIds_def Let_def preliminary_scope_def)
  next
    assume "\<exists>s \<in> set (ew_subscribers w). sl_user s = Some (ul_id u) \<and>
        (\<exists>s' \<in> set (ew_subscribers w). sl_id s' = sl_id s \<and> sl_party s' = Some p)"
    then obtain s where s: "s \<in> set (ew_subscribers w)" "sl_user s = Some (ul_id u)"
      "sl_id s \<in> set (findSubscriberIds w (Some p))" unfolding set_findSubscriberIds by blast
    let ?subs = "findSubscriberIds w (Some p)"
    have "ul_id u \<in> set (List.map_filter (\<lambda>s. if sl_id s \<in> set ?subs then sl_user s else None) (ew_subscribers w))"
      unfolding List.map_filter_def using s by (force simp: image_iff)
    moreover have "?subs \<noteq> []" using s(3) by auto
    ultimately show ?thesis using p by (simp add: findUserIds_def Let_def preliminary_scope_def)
  qed
  with u show ?thesis by (simp add: target_scope_def Let_def)
qed

text \<open>What \<open>resolve\<close> reports: the candidates of the document, and the blockers exactly.\<close>

lemma resolve_erasure_Inr:
  assumes "resolve_erasure w target = Inr resolved"
  obtains active where "activeAccountCount w (es_users (target_scope w target)) = Inr active"
    "rsv_candidates resolved = candidate_ids w target"
    "rsv_blockers resolved = (if unreconciled w target then [UNRECONCILED_TITULAR] else [])
                 @ (if active > 0 then [ACTIVE_USER_ACCOUNT] else [])
                 @ (if supplier_linked w target then [SUPPLIER_PROFILE_LINKED] else [])"
    "resolveParticipants w (target_scope w target) = Inr (rsv_scope resolved)"
  using assms by (auto simp: resolve_erasure_def Let_def res_bind_eq_Inr)

lemma no_active_account:
  assumes "activeAccountCount w (es_users (target_scope w target)) = Inr 0" and "linked_user w target u"
  shows "ul_deleted_at u \<noteq> None"
proof
  assume d: "ul_deleted_at u = None"
  note u = linked_user_found [OF assms(2)]
  then have "es_users (target_scope w target) \<noteq> []" by auto
  with assms(1) have "filter (\<lambda>u. ul_deleted_at u = None)
      (filter (\<lambda>u. ul_id u \<in> set (es_users (target_scope w target))) (ew_users w)) = []"
    by (auto simp: activeAccountCount_def Let_def split: if_splits)
  then show False using u d by (auto simp: filter_empty_conv)
qed

lemma resolve_erasure_erasable:
  assumes "resolve_erasure w target = Inr resolved"
    and "set (rsv_blockers resolved) \<inter> {UNRECONCILED_TITULAR, ACTIVE_USER_ACCOUNT, SUPPLIER_PROFILE_LINKED} = {}"
  shows "erasable w target"
proof -
  from assms(1) obtain active where a: "activeAccountCount w (es_users (target_scope w target)) = Inr active"
    and b: "rsv_blockers resolved = (if unreconciled w target then [UNRECONCILED_TITULAR] else [])
                 @ (if active > 0 then [ACTIVE_USER_ACCOUNT] else [])
                 @ (if supplier_linked w target then [SUPPLIER_PROFILE_LINKED] else [])"
    by (rule resolve_erasure_Inr)
  from assms(2) b have n: "\<not> unreconciled w target" "active = 0" "\<not> supplier_linked w target"
    by (auto split: if_splits)
  show ?thesis
    unfolding erasable_def
  proof (intro conjI allI impI ballI)
    show "sl_hmac s \<noteq> et_hmac target" if "et_party target = None" "truthy (et_hmac target)"
      "s \<in> set (ew_subscribers w)" for s
      using n(1) that by (auto simp: unreconciled_def filter_empty_conv)
    show "ul_deleted_at u \<noteq> None" if "linked_user w target u" for u
      using no_active_account [OF _ that] a n(2) by simp
    show "p \<notin> set (ew_suppliers w)" if "et_party target = Some p" for p
      using n(3) that by (simp add: supplier_linked_def hasSupplierProfile_def)
  qed
qed

text \<open>
  An anonymization that goes through: the billing participant is there, the confirmed files
  are the candidates of the document, nothing blocks, every participant applied its part and
  none left a residual.
\<close>

lemma anonymize_Inr:
  assumes "anonymize w target ids = Inr result"
  obtains scope applied where "ew_billing w \<noteq> None" "mset ids = mset (candidate_ids w target)"
    "erasable w target"
    "resolveParticipants w (target_scope w target) = Inr scope"
    "run_participants (\<lambda>p. pt_apply p scope) (participants w) = Inr applied"
    "\<forall>r \<in> set applied. tr_residual r = 0" "result = erasure_summary applied"
proof -
  from assms obtain resolved applied where
    b: "ew_billing w \<noteq> None" and r: "resolve_erasure w target = Inr resolved"
    and s: "sameSet ids (rsv_candidates resolved)"
    and n: "set (rsv_blockers resolved) \<inter> {UNRECONCILED_TITULAR, ACTIVE_USER_ACCOUNT, SUPPLIER_PROFILE_LINKED} = {}"
    and a: "run_participants (\<lambda>p. pt_apply p (rsv_scope resolved)) (participants w) = Inr applied"
    and z: "sum_list (map tr_residual applied) = 0" "result = erasure_summary applied"
    by (auto simp: anonymize_def assertBillingParticipantRegistered_def res_bind_eq_Inr split: if_splits)
  from r obtain active where c: "rsv_candidates resolved = candidate_ids w target"
    "resolveParticipants w (target_scope w target) = Inr (rsv_scope resolved)" by (rule resolve_erasure_Inr)
  have "\<forall>r \<in> set applied. tr_residual r = 0" using z(1) by auto
  with that [OF b _ resolve_erasure_erasable [OF r n] c(2) a _ z(2)] s c(1) show thesis
    by (simp add: sameSet_mset)
qed

lemma set_category: "set (foldl add_category cs rs) = set cs \<union> tr_category ` {r \<in> set rs. tr_changed r > 0}"
  by (induction rs arbitrary: cs) (auto simp: add_category_def)

lemma set_erasure_categories:
  "set (ar_categories (erasure_summary applied)) = tr_category ` {r \<in> set applied. tr_changed r > 0}"
  by (simp add: erasure_summary_def set_category)

text \<open>A plan with no blocker on rows that have not moved: the anonymization only depends on the participants.\<close>

lemma erasure_plan_no_blocker:
  assumes "erasure_plan_of w target = Inr plan" and "pl_blockers plan = []"
  obtains scope where "resolveParticipants w (target_scope w target) = Inr scope"
    "anonymize w target (pl_candidates plan) =
       res_bind (run_participants (\<lambda>p. pt_apply p scope) (participants w)) (\<lambda>applied.
         if sum_list (map tr_residual applied) > 0
         then Inl (Conflict ''PRIVACY_ERASURE_VERIFICATION_FAILED'') else Inr (erasure_summary applied))"
proof -
  from assms obtain resolved where b: "ew_billing w \<noteq> None" and r: "resolve_erasure w target = Inr resolved"
    and p: "pl_candidates plan = rsv_candidates resolved"
    and n: "filter (\<lambda>b. b \<in> set [UNRECONCILED_TITULAR, ACTIVE_USER_ACCOUNT, SUPPLIER_PROFILE_LINKED])
              (rsv_blockers resolved) = []"
    by (auto simp: erasure_plan_of_def assertBillingParticipantRegistered_def res_bind_eq_Inr)
  from r have c: "rsv_candidates resolved = candidate_ids w target"
    "resolveParticipants w (target_scope w target) = Inr (rsv_scope resolved)"
    by (auto elim: resolve_erasure_Inr)
  have nb: "UNRECONCILED_TITULAR \<notin> set (rsv_blockers resolved)" "ACTIVE_USER_ACCOUNT \<notin> set (rsv_blockers resolved)"
    "SUPPLIER_PROFILE_LINKED \<notin> set (rsv_blockers resolved)" using n by (auto simp: filter_empty_conv)
  show thesis
    by (rule that [OF c(2)])
      (use p c(1) b r nb in \<open>simp_all add: anonymize_def assertBillingParticipantRegistered_def sameSet_mset\<close>)
qed

end
