(* ===== verification/PrivacyRequests.thy ===== *)
theory PrivacyRequests
  imports ColombiaCalendar PrivacyErasure
begin

text \<open>
  Data-subject requests (habeas data): the deadlines and the transition table of
  \<open>apps/api/src/modules/privacy/requests/requests-domain.ts\<close>, the service
  \<open>requests.service.ts\<close> that files, verifies, moves and closes requests, and the input
  schemas of \<open>packages/shared/src/schemas/privacy/requests.ts\<close>. The tables
  \<open>data_subject_requests\<close>, \<open>data_subject_request_events\<close>,
  \<open>data_subject_request_tasks\<close>, \<open>party_privacy_marks\<close> and
  \<open>data_authorizations\<close> of one tenant are lists in insertion order. The eraser of personal
  data is the adapter of \<open>PrivacyErasure\<close>; the ports to CRM and Billing are parameters, and
  so is the keyed hash of a document. Encryption of the requester's identity, the audit log,
  the projections of \<open>get\<close> and media lookups are not modelled.
\<close>

section \<open>Data\<close>

datatype RequestKind = CONSULTA | RECLAMO | SUPLANTACION

datatype RequestRight = CONOCER | ACTUALIZAR | RECTIFICAR | SUPRIMIR | REVOCAR
  | PRUEBA_AUTORIZACION | INCUMPLIMIENTO

datatype RequestStatus = RADICADA | INCOMPLETA | DESISTIDA | EN_TRAMITE | PRORROGADA | RESUELTA
  | NO_PROCEDENTE | TRASLADADA

datatype RequesterKind = TITULAR | CAUSAHABIENTE | REPRESENTANTE | APODERADO

datatype IdentityMethod = DOCUMENTO_PRESENCIAL | COPIA_DOCUMENTO | PODER_O_REPRESENTACION
  | DECLARACION_CAUSAHABIENTE

datatype ResponseChannel = EMAIL | CORREO_FISICO | PRESENCIAL | PORTAL_ISP

datatype LegalBasis = DEBER_LEGAL_CONSERVACION | DEBER_CONTRACTUAL | SOLICITANTE_NO_LEGITIMADO | OTRO

datatype RequestTaskKind = SUSPENDER_COBRO_EXTERNO | ENTREGAR_COPIA_DOCUMENTOS
  | FORMULAR_DENUNCIA_OPERADOR | COMUNICAR_PLAZO_DENUNCIA

datatype DataPurpose = TRATAMIENTO_CONTRACTUAL | CONTACTO_COMERCIAL | REPORTE_CENTRALES_RIESGO
  | DATOS_BIOMETRICOS

datatype PrivacyMark = RECLAMO_EN_TRAMITE | VICTIMA_FALSEDAD_PERSONAL | DATOS_BLOQUEADOS

datatype MarkEvent = MARK_OPEN | MARK_CLOSE

datatype RequestAction = Act_require_info | Act_complete | Act_extend | Act_resolve | Act_reject
  | Act_transfer

record request_row =
  rq_id :: string
  rq_party :: "string option"
  rq_hmac :: "string option"
  rq_requester_kind :: RequesterKind
  rq_kind :: RequestKind
  rq_right :: RequestRight
  rq_purpose :: "DataPurpose option"
  rq_status :: RequestStatus
  rq_received_at :: string
  rq_complete_at :: "string option"
  rq_due_at :: string
  rq_complaint_due_at :: "string option"
  rq_suspended :: "string list"
  rq_disputed :: "string list"
  rq_extended_until :: "string option"
  rq_info_required_at :: "string option"
  rq_desist_at :: "string option"
  rq_response_text :: "string option"
  rq_response_channel :: "ResponseChannel option"
  rq_resolved_at :: "string option"
  rq_resolved_by :: "string option"
  rq_transferred_to :: "string option"
  rq_legal_basis :: "LegalBasis option"
  rq_evidence :: "string option"
  rq_identity_method :: "IdentityMethod option"
  rq_identity_at :: "string option"
  rq_identity_by :: "string option"
  rq_erased_at :: "string option"
  rq_erasure_categories :: "string list"

record request_event =
  ev_request :: string
  ev_from :: "RequestStatus option"
  ev_to :: RequestStatus
  ev_actor :: "string option"
  ev_reason :: string

record request_task =
  tk_request :: string
  tk_kind :: RequestTaskKind
  tk_due_at :: string
  tk_done_at :: "string option"
  tk_done_by :: "string option"
  tk_note :: "string option"

record mark_row =
  mk_party :: string
  mk_mark :: PrivacyMark
  mk_event :: MarkEvent
  mk_request :: string

record revocation_row =
  rv_party :: string
  rv_purpose :: DataPurpose
  rv_source_ref :: string

record privacy_store =
  ps_requests :: "request_row list"
  ps_events :: "request_event list"
  ps_tasks :: "request_task list"
  ps_marks :: "mark_row list"
  ps_revocations :: "revocation_row list"

section \<open>Deadlines (requests-domain)\<close>

text \<open>
  The counter of business days always answers (\<open>addColombiaBusinessDays_total\<close>), so the
  clients read its answer.
\<close>

definition business_days_after :: "string \<Rightarrow> int \<Rightarrow> string result" where
  "business_days_after s k = the (addColombiaBusinessDays s k)"

definition REQUEST_DUE_DAYS :: "RequestKind \<Rightarrow> int" where
  "REQUEST_DUE_DAYS kind = (case kind of CONSULTA \<Rightarrow> 10 | RECLAMO \<Rightarrow> 15 | SUPLANTACION \<Rightarrow> 10)"

definition calculateInitialDueAt :: "RequestKind \<Rightarrow> string \<Rightarrow> string option \<Rightarrow> string result" where
  "calculateInitialDueAt kind receivedAt completeAt =
     (let baseDate = (if kind = RECLAMO
                      then (case completeAt of Some d \<Rightarrow> d | None \<Rightarrow> receivedAt) else receivedAt)
      in business_days_after baseDate (REQUEST_DUE_DAYS kind))"

definition calculateImpersonationComplaintDueAt :: "string \<Rightarrow> string result" where
  "calculateImpersonationComplaintDueAt receivedAt = business_days_after receivedAt 20"

fun calculateRequestTaskDueAt :: "RequestTaskKind \<Rightarrow> string \<Rightarrow> string \<Rightarrow> string \<Rightarrow> string" where
  "calculateRequestTaskDueAt SUSPENDER_COBRO_EXTERNO receivedAt complaintDueAt requestDueAt = receivedAt"
| "calculateRequestTaskDueAt COMUNICAR_PLAZO_DENUNCIA receivedAt complaintDueAt requestDueAt = receivedAt"
| "calculateRequestTaskDueAt FORMULAR_DENUNCIA_OPERADOR receivedAt complaintDueAt requestDueAt = complaintDueAt"
| "calculateRequestTaskDueAt ENTREGAR_COPIA_DOCUMENTOS receivedAt complaintDueAt requestDueAt = requestDueAt"

definition calculateDesistAt :: "string \<Rightarrow> string result" where
  "calculateDesistAt infoRequiredAt = addCalendarMonths infoRequiredAt 2"

definition calculateExtendedUntil :: "RequestKind \<Rightarrow> string \<Rightarrow> string result" where
  "calculateExtendedUntil kind dueAt =
     (if kind = SUPLANTACION then Inl Range_Error
      else business_days_after dueAt (if kind = CONSULTA then 5 else 8))"

definition isWithinBusinessDeadline :: "string \<Rightarrow> string \<Rightarrow> int \<Rightarrow> bool result" where
  "isWithinBusinessDeadline actionDate receivedAt days =
     res_bind (business_days_after receivedAt days) (\<lambda>limit. Inr (js_le actionDate limit))"

fun TRANSITIONS :: "RequestStatus \<Rightarrow> RequestAction \<Rightarrow> RequestStatus list" where
  "TRANSITIONS RADICADA Act_require_info = [INCOMPLETA]"
| "TRANSITIONS EN_TRAMITE Act_require_info = [INCOMPLETA]"
| "TRANSITIONS RADICADA Act_complete = [EN_TRAMITE]"
| "TRANSITIONS INCOMPLETA Act_complete = [EN_TRAMITE]"
| "TRANSITIONS EN_TRAMITE Act_extend = [PRORROGADA]"
| "TRANSITIONS EN_TRAMITE Act_resolve = [RESUELTA]"
| "TRANSITIONS PRORROGADA Act_resolve = [RESUELTA]"
| "TRANSITIONS RADICADA Act_reject = [NO_PROCEDENTE]"
| "TRANSITIONS INCOMPLETA Act_reject = [NO_PROCEDENTE]"
| "TRANSITIONS EN_TRAMITE Act_reject = [NO_PROCEDENTE]"
| "TRANSITIONS PRORROGADA Act_reject = [NO_PROCEDENTE]"
| "TRANSITIONS RADICADA Act_transfer = [TRASLADADA]"
| "TRANSITIONS INCOMPLETA Act_transfer = [TRASLADADA]"
| "TRANSITIONS _ _ = []"

definition requestTransitionAllowed :: "RequestStatus \<Rightarrow> RequestAction \<Rightarrow> bool" where
  "requestTransitionAllowed status action \<longleftrightarrow> length (TRANSITIONS status action) > 0"

definition nextRequestStatus :: "RequestStatus \<Rightarrow> RequestAction \<Rightarrow> RequestStatus result" where
  "nextRequestStatus status action =
     (case TRANSITIONS status action of [] \<Rightarrow> Inl Range_Error | s # _ \<Rightarrow> Inr s)"

definition civilDateAtBogotaNoon :: "string \<Rightarrow> string" where
  "civilDateAtBogotaNoon date = date @ ''T17:00:00.000Z''"

text \<open>
  \<open>bogotaCivilDate(new Date(ts))\<close> on the timestamps the service stores in
  \<open>received_at\<close>: 17:00 UTC is noon in Bogota (UTC-5), on the date of the text.
\<close>

definition bogota_date_of_noon :: "string \<Rightarrow> string" where
  "bogota_date_of_noon ts = take 10 ts"

definition transferDueAtFor :: "string \<Rightarrow> string result" where
  "transferDueAtFor receivedAt = business_days_after (bogota_date_of_noon receivedAt) 2"

definition OPEN_STATUSES :: "RequestStatus list" where
  "OPEN_STATUSES = [RADICADA, INCOMPLETA, EN_TRAMITE, PRORROGADA]"

text \<open>The \<open>isOverdue\<close> flag of \<open>list\<close>.\<close>

definition isOverdue :: "request_row \<Rightarrow> string \<Rightarrow> bool" where
  "isOverdue r today \<longleftrightarrow> rq_status r \<in> set OPEN_STATUSES \<and>
     js_lt (case rq_extended_until r of Some d \<Rightarrow> d | None \<Rightarrow> rq_due_at r) today"

section \<open>Inputs and their schemas\<close>

record create_input =
  ci_kind :: RequestKind
  ci_right :: RequestRight
  ci_purpose :: "DataPurpose option"
  ci_requester_kind :: RequesterKind
  ci_document_type :: DocumentTypeParty
  ci_document :: string
  ci_evidence :: "string option"
  ci_method :: "IdentityMethod option"
  ci_party :: "string option"
  ci_disputed :: "string list option"
  ci_received_at :: "string option"

text \<open>\<open>input.disputedContractIds?.length\<close> as a condition.\<close>

definition has_disputed :: "create_input \<Rightarrow> bool" where
  "has_disputed i \<longleftrightarrow> (case ci_disputed i of None \<Rightarrow> False | Some ds \<Rightarrow> ds \<noteq> [])"

text \<open>The issues of \<open>superRefine\<close>; the input passes when there is none.\<close>

definition create_issues :: "create_input \<Rightarrow> string list" where
  "create_issues i =
     (if ci_right i = REVOCAR \<and> ci_purpose i = None then [''purpose''] else [])
   @ (if ci_right i \<noteq> REVOCAR \<and> ci_purpose i \<noteq> None then [''purpose''] else [])
   @ (if ci_method i = None \<and> ci_evidence i \<noteq> None then [''identityVerificationMethod''] else [])
   @ (if ci_method i \<noteq> None \<and> ci_method i \<noteq> Some DOCUMENTO_PRESENCIAL \<and> ci_evidence i = None
      then [''requesterEvidenceMediaId''] else [])
   @ (if ci_method i \<noteq> None \<and> ci_requester_kind i \<in> set [REPRESENTANTE, APODERADO]
         \<and> ci_method i \<noteq> Some PODER_O_REPRESENTACION
      then [''identityVerificationMethod''] else [])
   @ (if ci_method i \<noteq> None \<and> ci_requester_kind i = CAUSAHABIENTE
         \<and> ci_method i \<noteq> Some DECLARACION_CAUSAHABIENTE
      then [''identityVerificationMethod''] else [])
   @ (if ci_kind i = SUPLANTACION
      then (if ci_party i = None then [''partyId''] else [])
         @ (if ci_method i = None then [''identityVerificationMethod''] else [])
         @ (if \<not> has_disputed i then [''disputedContractIds''] else [])
      else (if has_disputed i then [''disputedContractIds''] else []))"

definition verify_issues :: "IdentityMethod \<Rightarrow> string option \<Rightarrow> string list" where
  "verify_issues method evidence =
     (if method \<noteq> DOCUMENTO_PRESENCIAL \<and> evidence = None then [''requesterEvidenceMediaId''] else [])"

text \<open>The body of each action, as its schema gives it.\<close>

datatype request_command =
    Cmd_require_info string ResponseChannel
  | Cmd_complete "string option"
  | Cmd_extend string
  | Cmd_resolve string ResponseChannel "string option" "string list option"
  | Cmd_reject string ResponseChannel LegalBasis
  | Cmd_transfer string string ResponseChannel

fun action_of :: "request_command \<Rightarrow> RequestAction" where
  "action_of (Cmd_require_info _ _) = Act_require_info"
| "action_of (Cmd_complete _) = Act_complete"
| "action_of (Cmd_extend _) = Act_extend"
| "action_of (Cmd_resolve _ _ _ _) = Act_resolve"
| "action_of (Cmd_reject _ _ _) = Act_reject"
| "action_of (Cmd_transfer _ _ _) = Act_transfer"

section \<open>Ports\<close>

text \<open>
  What the other modules answer: the standing of a party in CRM (open contracts, the date
  the last one ended), the last fiscal document in Billing, the retention policies of the
  tenant, and the contracts CRM suspends for an impersonation. The erasure port reads the
  database twice when it resolves a suppression, once for the plan and once for the
  anonymization; other transactions may commit in between, so the two readings may differ.
\<close>

record erasure_port =
  ep_at_plan :: erasure_world
  ep_at_anonymize :: erasure_world

record privacy_ports =
  pp_open_contracts :: "string \<Rightarrow> string list"
  pp_last_terminated :: "string \<Rightarrow> string option"
  pp_fiscal_date :: "(string \<Rightarrow> string option) option"
  pp_retention_years :: "string \<Rightarrow> int option"
  pp_suspend :: "string \<Rightarrow> string list \<Rightarrow> string list result"
  pp_erasure :: "erasure_port option"

record request_env =
  rx_now :: string
  rx_today :: string
  rx_hmac :: "string \<Rightarrow> string"
  rx_ports :: privacy_ports

section \<open>The duty to conserve\<close>

record conservation_duty =
  cd_applies :: bool
  cd_open_contract :: bool
  cd_retention :: bool

definition retained :: "request_env \<Rightarrow> string option \<Rightarrow> string \<Rightarrow> bool result" where
  "retained env date category =
     (case date of
        None \<Rightarrow> Inr False
      | Some d \<Rightarrow>
          let years = (case pp_retention_years (rx_ports env) category of Some y \<Rightarrow> y | None \<Rightarrow> 0)
          in if years = 0 then Inl Plain_Error
             else res_bind (addCalendarMonths (take 10 d) (years * 12))
                    (\<lambda>limit. Inr (js_lt (rx_today env) limit)))"

definition conservationDuty :: "request_env \<Rightarrow> string option \<Rightarrow> conservation_duty result" where
  "conservationDuty env partyId =
     (case partyId of
        None \<Rightarrow> Inr \<lparr>cd_applies = False, cd_open_contract = False, cd_retention = False\<rparr>
      | Some p \<Rightarrow>
          let openContract = length (pp_open_contracts (rx_ports env) p) > 0
          in case pp_fiscal_date (rx_ports env) of
               None \<Rightarrow> Inl Plain_Error
             | Some fiscal \<Rightarrow>
                 res_bind (retained env (pp_last_terminated (rx_ports env) p)
                             ''IDENTIFICACION_DIRECCION_CONTRATO_SUSCRIPTOR'') (\<lambda>contractRetention.
                 res_bind (retained env (fiscal p) ''FACTURACION_SOPORTES_CONTABLES'') (\<lambda>fiscalRetention.
                   let retention = contractRetention \<or> fiscalRetention
                   in Inr \<lparr>cd_applies = openContract \<or> retention, cd_open_contract = openContract,
                           cd_retention = retention\<rparr>)))"

definition hasConservationDuty :: "request_env \<Rightarrow> string \<Rightarrow> bool result" where
  "hasConservationDuty env partyId =
     res_bind (conservationDuty env (Some partyId)) (\<lambda>d. Inr (cd_applies d))"

section \<open>Rows\<close>

definition find_request :: "string \<Rightarrow> privacy_store \<Rightarrow> request_row option" where
  "find_request rid st = find (\<lambda>r. rq_id r = rid) (ps_requests st)"

definition update_request :: "string \<Rightarrow> (request_row \<Rightarrow> request_row) \<Rightarrow> privacy_store \<Rightarrow> privacy_store" where
  "update_request rid f st =
     st\<lparr>ps_requests := map (\<lambda>r. if rq_id r = rid then f r else r) (ps_requests st)\<rparr>"

definition append_event ::
  "string \<Rightarrow> RequestStatus option \<Rightarrow> RequestStatus \<Rightarrow> string option \<Rightarrow> string \<Rightarrow> privacy_store \<Rightarrow>
    privacy_store" where
  "append_event rid from_st to_st actor reason st =
     st\<lparr>ps_events := ps_events st @ [\<lparr>ev_request = rid, ev_from = from_st, ev_to = to_st,
         ev_actor = actor, ev_reason = reason\<rparr>]\<rparr>"

definition appendMark ::
  "string \<Rightarrow> PrivacyMark \<Rightarrow> MarkEvent \<Rightarrow> string \<Rightarrow> privacy_store \<Rightarrow> privacy_store" where
  "appendMark partyId mark event requestId st =
     st\<lparr>ps_marks := ps_marks st @ [\<lparr>mk_party = partyId, mk_mark = mark, mk_event = event,
         mk_request = requestId\<rparr>]\<rparr>"

text \<open>The latest event of a mark of a party; a mark is active when it is an opening.\<close>

definition latest_mark :: "string \<Rightarrow> PrivacyMark \<Rightarrow> privacy_store \<Rightarrow> MarkEvent option" where
  "latest_mark partyId mark st =
     map_option mk_event (find (\<lambda>m. mk_party m = partyId \<and> mk_mark m = mark) (rev (ps_marks st)))"

definition mark_active :: "string \<Rightarrow> PrivacyMark \<Rightarrow> privacy_store \<Rightarrow> bool" where
  "mark_active partyId mark st \<longleftrightarrow> latest_mark partyId mark st = Some MARK_OPEN"

definition closeActiveBlockedDataMark :: "string \<Rightarrow> string \<Rightarrow> privacy_store \<Rightarrow> privacy_store" where
  "closeActiveBlockedDataMark partyId requestId st =
     (if mark_active partyId DATOS_BLOQUEADOS st
      then appendMark partyId DATOS_BLOQUEADOS MARK_CLOSE requestId st else st)"

section \<open>Filing a request\<close>

definition create_row :: "request_env \<Rightarrow> string \<Rightarrow> string \<Rightarrow> string \<Rightarrow> create_input \<Rightarrow> string \<Rightarrow>
    string option \<Rightarrow> string list \<Rightarrow> request_row" where
  "create_row env requestId actorId receivedAt i dueAt complaintDueAt suspended =
     (let verified = ci_method i \<noteq> None
      in \<lparr>rq_id = requestId, rq_party = ci_party i,
          rq_hmac = Some (rx_hmac env (normalizeDocumentNumber (ci_document_type i) (ci_document i))),
          rq_requester_kind = ci_requester_kind i,
          rq_kind = ci_kind i, rq_right = ci_right i, rq_purpose = ci_purpose i,
          rq_status = RADICADA, rq_received_at = civilDateAtBogotaNoon receivedAt,
          rq_complete_at = None, rq_due_at = dueAt, rq_complaint_due_at = complaintDueAt,
          rq_suspended = suspended,
          rq_disputed = (case ci_disputed i of Some ds \<Rightarrow> ds | None \<Rightarrow> []),
          rq_extended_until = None, rq_info_required_at = None, rq_desist_at = None,
          rq_response_text = None, rq_response_channel = None, rq_resolved_at = None,
          rq_resolved_by = None, rq_transferred_to = None, rq_legal_basis = None,
          rq_evidence = ci_evidence i, rq_identity_method = ci_method i,
          rq_identity_at = (if verified then Some (rx_now env) else None),
          rq_identity_by = (if verified then Some actorId else None),
          rq_erased_at = None, rq_erasure_categories = []\<rparr>)"

definition impersonation_tasks :: "string \<Rightarrow> string \<Rightarrow> string \<Rightarrow> string \<Rightarrow> request_task list" where
  "impersonation_tasks requestId receivedAt complaintDueAt dueAt =
     map (\<lambda>kind. \<lparr>tk_request = requestId, tk_kind = kind,
            tk_due_at = calculateRequestTaskDueAt kind receivedAt complaintDueAt dueAt,
            tk_done_at = None, tk_done_by = None, tk_note = None\<rparr>)
       [SUSPENDER_COBRO_EXTERNO, ENTREGAR_COPIA_DOCUMENTOS, FORMULAR_DENUNCIA_OPERADOR,
        COMUNICAR_PLAZO_DENUNCIA]"

definition create_request ::
  "request_env \<Rightarrow> string \<Rightarrow> string \<Rightarrow> create_input \<Rightarrow> privacy_store \<Rightarrow> privacy_store result" where
  "create_request env requestId actorId i st =
     (let receivedAt = (case ci_received_at i of Some d \<Rightarrow> d | None \<Rightarrow> rx_today env)
      in res_bind (guard_ok (normalizeDocumentNumber (ci_document_type i) (ci_document i) \<noteq> [])
             (Bad_Request [])) (\<lambda>_.
         res_bind (guard_ok (\<not> (ci_kind i = SUPLANTACION \<and>
             (ci_party i = None \<or> ci_method i = None \<or> \<not> has_disputed i))) (Unprocessable [])) (\<lambda>_.
         res_bind (guard_ok (\<not> (ci_kind i \<noteq> SUPLANTACION \<and> has_disputed i)) (Unprocessable [])) (\<lambda>_.
         res_bind (calculateInitialDueAt (ci_kind i) receivedAt None) (\<lambda>dueAt.
           if ci_kind i = SUPLANTACION then
             (case (ci_party i, ci_disputed i) of
                (Some p, Some ds) \<Rightarrow>
                  res_bind (calculateImpersonationComplaintDueAt receivedAt) (\<lambda>complaintDueAt.
                  res_bind (pp_suspend (rx_ports env) p ds) (\<lambda>suspended.
                    let row = create_row env requestId actorId receivedAt i dueAt (Some complaintDueAt) suspended;
                        st1 = st\<lparr>ps_requests := ps_requests st @ [row]\<rparr>;
                        st2 = append_event requestId None RADICADA (Some actorId) ''RADICACION'' st1;
                        st3 = appendMark p VICTIMA_FALSEDAD_PERSONAL MARK_OPEN requestId st2
                    in Inr (st3\<lparr>ps_tasks := ps_tasks st3
                         @ impersonation_tasks requestId receivedAt complaintDueAt dueAt\<rparr>)))
              | _ \<Rightarrow> Inl (Unprocessable []))
           else
             let row = create_row env requestId actorId receivedAt i dueAt None []
             in Inr (append_event requestId None RADICADA (Some actorId) ''RADICACION''
                  (st\<lparr>ps_requests := ps_requests st @ [row]\<rparr>)))))))"

text \<open>The route: the schema first, then the service.\<close>

definition post_request ::
  "request_env \<Rightarrow> string \<Rightarrow> string \<Rightarrow> create_input \<Rightarrow> privacy_store \<Rightarrow> privacy_store result" where
  "post_request env requestId actorId i st =
     (if create_issues i \<noteq> [] then Inl (Bad_Request [])
      else create_request env requestId actorId i st)"

section \<open>Verifying identity, tasks, and automatic withdrawal\<close>

definition assertIdentityMethodForRequester :: "IdentityMethod \<Rightarrow> RequesterKind \<Rightarrow> unit result" where
  "assertIdentityMethodForRequester method requesterKind =
     (if requesterKind \<in> set [REPRESENTANTE, APODERADO] \<and> method \<noteq> PODER_O_REPRESENTACION
      then Inl (Bad_Request [])
      else if requesterKind = CAUSAHABIENTE \<and> method \<noteq> DECLARACION_CAUSAHABIENTE
      then Inl (Bad_Request [])
      else Inr ())"

definition verifyIdentity ::
  "request_env \<Rightarrow> string \<Rightarrow> IdentityMethod \<Rightarrow> string option \<Rightarrow> string \<Rightarrow> privacy_store \<Rightarrow>
    privacy_store result" where
  "verifyIdentity env requestId method evidence actorId st =
     res_bind (guard_ok (\<not> (method \<noteq> DOCUMENTO_PRESENCIAL \<and> evidence = None)) (Bad_Request [])) (\<lambda>_.
       case find_request requestId st of
         None \<Rightarrow> Inl (Not_Found [])
       | Some current \<Rightarrow>
           if rq_identity_at current \<noteq> None
           then Inl (Conflict ''PRIVACY_REQUEST_IDENTITY_ALREADY_VERIFIED'')
           else if rq_status current \<notin> set [RADICADA, INCOMPLETA]
           then Inl (Conflict ''PRIVACY_REQUEST_INVALID_TRANSITION'')
           else
             res_bind (assertIdentityMethodForRequester method (rq_requester_kind current)) (\<lambda>_.
               Inr (append_event requestId (Some (rq_status current)) (rq_status current) (Some actorId)
                 ''IDENTIDAD_VERIFICADA''
                 (update_request requestId (\<lambda>r. r\<lparr>
                    rq_evidence := (case evidence of Some e \<Rightarrow> Some e | None \<Rightarrow> rq_evidence r),
                    rq_identity_method := Some method,
                    rq_identity_at := Some (rx_now env),
                    rq_identity_by := Some actorId\<rparr>) st))))"

text \<open>
  The trimmed note and its two schemas: at most 1000 characters, or one line of at most
  120 for the two operator tasks.
\<close>

definition validate_note :: "RequestTaskKind \<Rightarrow> string \<Rightarrow> string option" where
  "validate_note kind note =
     (let n = js_trim note
      in if kind \<in> set [FORMULAR_DENUNCIA_OPERADOR, COMUNICAR_PLAZO_DENUNCIA]
         then if note \<noteq> [] \<and> list_all (\<lambda>c. char_code c \<noteq> 13 \<and> char_code c \<noteq> 10) note
                 \<and> 1 \<le> length n \<and> length n \<le> 120 then Some n else None
         else if 1 \<le> length n \<and> length n \<le> 1000 then Some n else None)"

definition task_label :: "RequestTaskKind \<Rightarrow> string" where
  "task_label kind = (case kind of
       SUSPENDER_COBRO_EXTERNO \<Rightarrow> ''SUSPENDER_COBRO_EXTERNO''
     | ENTREGAR_COPIA_DOCUMENTOS \<Rightarrow> ''ENTREGAR_COPIA_DOCUMENTOS''
     | FORMULAR_DENUNCIA_OPERADOR \<Rightarrow> ''FORMULAR_DENUNCIA_OPERADOR''
     | COMUNICAR_PLAZO_DENUNCIA \<Rightarrow> ''COMUNICAR_PLAZO_DENUNCIA'')"

text \<open>A task is named by its position in the table; its request must be the one of the route.\<close>

definition completeTask ::
  "request_env \<Rightarrow> string \<Rightarrow> nat \<Rightarrow> string \<Rightarrow> string \<Rightarrow> privacy_store \<Rightarrow> privacy_store result" where
  "completeTask env requestId taskId note actorId st =
     (if taskId \<ge> length (ps_tasks st) \<or> tk_request (ps_tasks st ! taskId) \<noteq> requestId
      then Inl (Not_Found [])
      else
        let task = ps_tasks st ! taskId
        in case find_request requestId st of
             None \<Rightarrow> Inl (Not_Found [])
           | Some request \<Rightarrow>
               if tk_done_at task \<noteq> None then Inl (Conflict [])
               else case validate_note (tk_kind task) note of
                      None \<Rightarrow> Inl (Bad_Request [])
                    | Some validated \<Rightarrow>
                        Inr (append_event requestId (Some (rq_status request)) (rq_status request)
                          (Some actorId) (''TAREA_COMPLETADA:'' @ task_label (tk_kind task))
                          (st\<lparr>ps_tasks := (ps_tasks st)[taskId := task\<lparr>tk_done_at := Some (rx_now env),
                             tk_done_by := Some actorId, tk_note := Some validated\<rparr>]\<rparr>)))"

definition desists :: "string \<Rightarrow> request_row \<Rightarrow> bool" where
  "desists today r \<longleftrightarrow> rq_status r = INCOMPLETA \<and>
     (case rq_desist_at r of None \<Rightarrow> False | Some d \<Rightarrow> js_le d today)"

definition markDesisted :: "string \<Rightarrow> privacy_store \<Rightarrow> privacy_store \<times> int" where
  "markDesisted today st =
     (let desisted = filter (desists today) (ps_requests st)
      in (st\<lparr>ps_requests := map (\<lambda>r. if desists today r then r\<lparr>rq_status := DESISTIDA\<rparr> else r) (ps_requests st),
             ps_events := ps_events st @ map (\<lambda>r. \<lparr>ev_request = rq_id r, ev_from = Some INCOMPLETA,
               ev_to = DESISTIDA, ev_actor = None, ev_reason = ''DESISTIMIENTO_AUTOMATICO''\<rparr>) desisted\<rparr>,
          int (length desisted)))"

section \<open>Transitions\<close>

text \<open>
  One definition per branch of \<open>transition\<close>. \<open>current\<close> is the row read \<open>FOR UPDATE\<close>,
  \<open>next\<close> the status the table gives. The event row is appended by \<open>transition\<close>, but by
  the suppression itself when it resolves one, as in the code.
\<close>

definition tr_require_info ::
  "request_env \<Rightarrow> request_row \<Rightarrow> RequestStatus \<Rightarrow> string \<Rightarrow> ResponseChannel \<Rightarrow> privacy_store \<Rightarrow>
    privacy_store result" where
  "tr_require_info env current next missingItems channel st =
     (let receivedAt = bogota_date_of_noon (rq_received_at current)
      in res_bind (isWithinBusinessDeadline (rx_today env) receivedAt 5) (\<lambda>within.
           if \<not> within then Inl (Conflict [])
           else res_bind (calculateDesistAt (rx_today env)) (\<lambda>desistAt.
             Inr (update_request (rq_id current) (\<lambda>r. r\<lparr>rq_status := next,
               rq_info_required_at := Some (rx_now env), rq_desist_at := Some desistAt,
               rq_response_text := Some missingItems, rq_response_channel := Some channel\<rparr>) st))))"

definition tr_complete ::
  "request_env \<Rightarrow> request_row \<Rightarrow> RequestStatus \<Rightarrow> string option \<Rightarrow> string \<Rightarrow> privacy_store \<Rightarrow>
    privacy_store result" where
  "tr_complete env current next completedAtInput actorId st =
     (let receivedAt = bogota_date_of_noon (rq_received_at current)
      in if rq_identity_at current = None \<or> rq_identity_by current = None
         then Inl (Unprocessable [])
         else
           let completedAt = (case completedAtInput of Some d \<Rightarrow> d | None \<Rightarrow> rx_today env)
           in if js_lt completedAt receivedAt \<or> js_lt (rx_today env) completedAt
              then Inl (Conflict [])
              else
                res_bind (calculateInitialDueAt (rq_kind current) receivedAt (Some completedAt)) (\<lambda>newDueAt.
                  let st1 = update_request (rq_id current) (\<lambda>r. r\<lparr>rq_status := next,
                        rq_complete_at := Some (civilDateAtBogotaNoon completedAt),
                        rq_due_at := newDueAt, rq_info_required_at := None, rq_desist_at := None\<rparr>) st
                  in case rq_party current of
                       Some p \<Rightarrow>
                         if rq_kind current = RECLAMO
                         then Inr (appendMark p RECLAMO_EN_TRAMITE MARK_OPEN (rq_id current) st1)
                         else Inr st1
                     | None \<Rightarrow> Inr st1))"

definition tr_extend ::
  "request_row \<Rightarrow> RequestStatus \<Rightarrow> string \<Rightarrow> privacy_store \<Rightarrow> privacy_store result" where
  "tr_extend current next reason st =
     (if rq_kind current = SUPLANTACION then Inl (Conflict [])
      else if rq_extended_until current \<noteq> None then Inl (Conflict [])
      else
        res_bind (calculateExtendedUntil (rq_kind current) (rq_due_at current)) (\<lambda>extendedUntil.
          Inr (update_request (rq_id current) (\<lambda>r. r\<lparr>rq_status := next,
            rq_extended_until := Some extendedUntil, rq_response_text := Some reason\<rparr>) st)))"

definition response_with_reference :: "string \<Rightarrow> string option \<Rightarrow> string" where
  "response_with_reference text reference =
     (case reference of
        None \<Rightarrow> text
      | Some rf \<Rightarrow> if length rf > 0
          then text @ [CHR 0x0A, CHR 0x0A] @ ''Referencia de cambio: '' @ rf else text)"

text \<open>\<open>INSERT ... ON CONFLICT (source_ref) DO NOTHING\<close>.\<close>

definition insert_revocation :: "string \<Rightarrow> DataPurpose \<Rightarrow> string \<Rightarrow> privacy_store \<Rightarrow> privacy_store" where
  "insert_revocation p purpose rid st =
     (let ref = ''privacy-request:'' @ rid @ '':REVOCATION''
      in if ref \<in> set (map rv_source_ref (ps_revocations st)) then st
         else st\<lparr>ps_revocations := ps_revocations st
                @ [\<lparr>rv_party = p, rv_purpose = purpose, rv_source_ref = ref\<rparr>]\<rparr>)"

definition close_claim_mark :: "request_row \<Rightarrow> privacy_store \<Rightarrow> privacy_store" where
  "close_claim_mark current st =
     (case rq_party current of
        Some p \<Rightarrow> if rq_kind current = RECLAMO
                  then appendMark p RECLAMO_EN_TRAMITE MARK_CLOSE (rq_id current) st else st
      | None \<Rightarrow> st)"

definition erasure_target_of :: "request_row \<Rightarrow> erasure_target" where
  "erasure_target_of current =
     \<lparr>et_request = rq_id current, et_party = rq_party current, et_hmac = rq_hmac current\<rparr>"

definition requireErasurePort :: "request_env \<Rightarrow> erasure_port result" where
  "requireErasurePort env =
     (case pp_erasure (rx_ports env) of None \<Rightarrow> Inl (Service_Unavailable []) | Some port \<Rightarrow> Inr port)"

definition resolveSuppression ::
  "request_env \<Rightarrow> request_row \<Rightarrow> RequestStatus \<Rightarrow> string \<Rightarrow> ResponseChannel \<Rightarrow> string option \<Rightarrow>
    string list option \<Rightarrow> string \<Rightarrow> privacy_store \<Rightarrow> privacy_store result" where
  "resolveSuppression env current next responseText channel reference erasure actorId st =
     (case erasure of
        None \<Rightarrow> Inl (Unprocessable ''PRIVACY_ERASURE_CONFIRMATION_REQUIRED'')
      | Some expedienteIds \<Rightarrow>
          if rq_identity_at current = None
          then Inl (Unprocessable ''PRIVACY_ERASURE_IDENTITY_REQUIRED'')
          else
            let target = erasure_target_of current
            in res_bind (requireErasurePort env) (\<lambda>port.
               res_bind (erasure_plan_of (ep_at_plan port) target) (\<lambda>plan.
               res_bind (case rq_party current of None \<Rightarrow> Inr False
                         | Some p \<Rightarrow> hasConservationDuty env p) (\<lambda>duty.
                 if duty then Inl (Conflict [])
                 else if length (pl_candidates plan) > 500
                 then Inl (Conflict ''PRIVACY_ERASURE_TOO_MANY_CANDIDATES'')
                 else if UNRECONCILED_TITULAR \<in> set (pl_blockers plan)
                 then Inl (Conflict ''PRIVACY_ERASURE_UNRECONCILED_TITULAR'')
                 else if ACTIVE_USER_ACCOUNT \<in> set (pl_blockers plan)
                 then Inl (Conflict ''PRIVACY_ERASURE_ACTIVE_ACCOUNT'')
                 else res_bind (anonymize (ep_at_anonymize port) target expedienteIds) (\<lambda>outcome.
                   let st1 = update_request (rq_id current) (\<lambda>r. r\<lparr>rq_status := next,
                         rq_response_text := Some (response_with_reference responseText reference),
                         rq_response_channel := Some channel, rq_resolved_at := Some (rx_now env),
                         rq_resolved_by := Some actorId, rq_erased_at := Some (rx_now env),
                         rq_erasure_categories := map category_text (ar_categories outcome)\<rparr>) st;
                       st2 = append_event (rq_id current) (Some (rq_status current)) next (Some actorId)
                         ''RESOLVE'' st1;
                       st3 = close_claim_mark current st2
                   in Inr (case rq_party current of
                             Some p \<Rightarrow> closeActiveBlockedDataMark p (rq_id current) st3
                           | None \<Rightarrow> st3))))))"

definition tr_resolve ::
  "request_env \<Rightarrow> request_row \<Rightarrow> RequestStatus \<Rightarrow> string \<Rightarrow> ResponseChannel \<Rightarrow> string option \<Rightarrow>
    string list option \<Rightarrow> string \<Rightarrow> privacy_store \<Rightarrow> privacy_store result" where
  "tr_resolve env current next responseText channel reference erasure actorId st =
     (if erasure \<noteq> None then Inl (Unprocessable ''PRIVACY_ERASURE_NOT_APPLICABLE'')
      else
        let requiresCheck = (rq_right current = REVOCAR \<and> rq_purpose current = Some TRATAMIENTO_CONTRACTUAL)
        in res_bind (if requiresCheck
                     then (case rq_party current of
                             None \<Rightarrow> Inl (Conflict [])
                           | Some p \<Rightarrow> res_bind (hasConservationDuty env p) (\<lambda>duty.
                                        if duty then Inl (Conflict []) else Inr ()))
                     else Inr ()) (\<lambda>_.
           let st1 = update_request (rq_id current) (\<lambda>r. r\<lparr>rq_status := next,
                 rq_response_text := Some (response_with_reference responseText reference),
                 rq_response_channel := Some channel, rq_resolved_at := Some (rx_now env),
                 rq_resolved_by := Some actorId\<rparr>) st;
               st2 = (case (rq_party current, rq_purpose current) of
                        (Some p, Some purpose) \<Rightarrow>
                          if rq_right current = REVOCAR
                          then insert_revocation p purpose (rq_id current) st1 else st1
                      | _ \<Rightarrow> st1)
           in Inr (close_claim_mark current st2)))"

definition tr_reject ::
  "request_env \<Rightarrow> request_row \<Rightarrow> RequestStatus \<Rightarrow> string \<Rightarrow> ResponseChannel \<Rightarrow> LegalBasis \<Rightarrow> string \<Rightarrow>
    privacy_store \<Rightarrow> privacy_store result" where
  "tr_reject env current next responseText channel basis actorId st =
     (if rq_identity_at current = None \<and> basis \<noteq> SOLICITANTE_NO_LEGITIMADO
      then Inl (Unprocessable ''PRIVACY_REQUEST_IDENTITY_REQUIRED'')
      else
        let requiresCheck = (rq_identity_at current \<noteq> None \<and>
              (rq_right current = SUPRIMIR \<or>
               (rq_right current = REVOCAR \<and> rq_purpose current = Some TRATAMIENTO_CONTRACTUAL)));
            conservation = basis \<in> set [DEBER_CONTRACTUAL, DEBER_LEGAL_CONSERVACION]
        in res_bind (if requiresCheck then conservationDuty env (rq_party current)
                     else Inr \<lparr>cd_applies = False, cd_open_contract = False, cd_retention = False\<rparr>) (\<lambda>duty.
           res_bind (guard_ok (\<not> (requiresCheck \<and> rq_party current = None)) (Conflict [])) (\<lambda>_.
           res_bind (if cd_applies duty
                     then guard_ok (basis = (if cd_open_contract duty then DEBER_CONTRACTUAL
                                             else DEBER_LEGAL_CONSERVACION)) (Conflict [])
                     else guard_ok (\<not> conservation) (Conflict [])) (\<lambda>_.
           res_bind (if conservation
                     then res_bind (guard_ok (\<not> (rq_right current = REVOCAR \<and>
                            rq_purpose current \<noteq> Some TRATAMIENTO_CONTRACTUAL)) (Conflict [])) (\<lambda>_.
                          guard_ok (\<not> (rq_right current \<noteq> REVOCAR \<and> rq_right current \<noteq> SUPRIMIR)) (Conflict []))
                     else Inr ()) (\<lambda>_.
           res_bind (if conservation \<and> rq_right current = SUPRIMIR \<and> basis = DEBER_LEGAL_CONSERVACION
                     then (case rq_party current of
                             None \<Rightarrow> Inl (Conflict [])
                           | Some p \<Rightarrow> Inr (appendMark p DATOS_BLOQUEADOS MARK_OPEN (rq_id current) st))
                     else Inr st) (\<lambda>st1.
             Inr (close_claim_mark current
               (update_request (rq_id current) (\<lambda>r. r\<lparr>rq_status := next,
                  rq_response_text := Some responseText, rq_response_channel := Some channel,
                  rq_legal_basis := Some basis, rq_resolved_at := Some (rx_now env),
                  rq_resolved_by := Some actorId\<rparr>) st1))))))))"

definition tr_transfer ::
  "request_row \<Rightarrow> RequestStatus \<Rightarrow> string \<Rightarrow> ResponseChannel \<Rightarrow> privacy_store \<Rightarrow> privacy_store" where
  "tr_transfer current next transferredTo channel st =
     update_request (rq_id current) (\<lambda>r. r\<lparr>rq_status := next, rq_transferred_to := Some transferredTo,
       rq_response_channel := Some channel\<rparr>) st"

definition reason_code :: "request_command \<Rightarrow> string" where
  "reason_code cmd = (case cmd of
       Cmd_require_info _ _ \<Rightarrow> ''REQUIRE_INFO''
     | Cmd_complete _ \<Rightarrow> ''COMPLETE''
     | Cmd_extend _ \<Rightarrow> ''EXTEND''
     | Cmd_resolve _ _ _ _ \<Rightarrow> ''RESOLVE''
     | Cmd_reject _ _ _ \<Rightarrow> ''REJECT''
     | Cmd_transfer _ reason _ \<Rightarrow> reason)"

definition apply_command ::
  "request_env \<Rightarrow> request_row \<Rightarrow> RequestStatus \<Rightarrow> request_command \<Rightarrow> string \<Rightarrow> privacy_store \<Rightarrow>
    privacy_store result" where
  "apply_command env current next cmd actorId st = (case cmd of
       Cmd_require_info items channel \<Rightarrow> tr_require_info env current next items channel st
     | Cmd_complete completedAt \<Rightarrow> tr_complete env current next completedAt actorId st
     | Cmd_extend reason \<Rightarrow> tr_extend current next reason st
     | Cmd_resolve text channel ref erasure \<Rightarrow> tr_resolve env current next text channel ref erasure actorId st
     | Cmd_reject text channel basis \<Rightarrow> tr_reject env current next text channel basis actorId st
     | Cmd_transfer to_whom _ channel \<Rightarrow>
         res_bind (transferDueAtFor (rq_received_at current)) (\<lambda>_.
           Inr (tr_transfer current next to_whom channel st)))"

definition transition ::
  "request_env \<Rightarrow> string \<Rightarrow> request_command \<Rightarrow> string \<Rightarrow> privacy_store \<Rightarrow> privacy_store result" where
  "transition env rid cmd actorId st =
     (case find_request rid st of
        None \<Rightarrow> Inl (Not_Found [])
      | Some current \<Rightarrow>
          res_bind (nextRequestStatus (rq_status current) (action_of cmd)) (\<lambda>next.
            case cmd of
              Cmd_resolve text channel ref erasure \<Rightarrow>
                if rq_right current = SUPRIMIR
                then resolveSuppression env current next text channel ref erasure actorId st
                else res_bind (apply_command env current next cmd actorId st) (\<lambda>st1.
                       Inr (append_event rid (Some (rq_status current)) next (Some actorId) (reason_code cmd) st1))
            | _ \<Rightarrow>
                res_bind (apply_command env current next cmd actorId st) (\<lambda>st1.
                  Inr (append_event rid (Some (rq_status current)) next (Some actorId) (reason_code cmd) st1))))"

text \<open>
  The preview of a suppression (\<open>erasurePreview\<close>) of a row: its blockers in the order they
  are found, the files it would erase and the rows of each category.
\<close>

record erasure_preview =
  pv_eligible :: bool
  pv_blockers :: "ErasureBlocker list"
  pv_candidates :: "string list"
  pv_counts :: "(ErasureCategory \<times> nat) list"
  pv_categories :: "ErasureCategory list"

definition add_blocker :: "ErasureBlocker list \<Rightarrow> ErasureBlocker \<Rightarrow> ErasureBlocker list" where
  "add_blocker bs b = (if b \<in> set bs then bs else bs @ [b])"

definition preview_of_plan :: "ErasureBlocker list \<Rightarrow> erasure_plan \<Rightarrow> erasure_preview" where
  "preview_of_plan blockers plan =
     (let tooManyCandidates = length (pl_candidates plan) > 500;
          bs = foldl add_blocker blockers (pl_blockers plan);
          bs' = (if tooManyCandidates then add_blocker bs TOO_MANY_CANDIDATES else bs)
      in \<lparr>pv_eligible = (length bs' = 0), pv_blockers = bs',
          pv_candidates = (if tooManyCandidates then [] else pl_candidates plan),
          pv_counts = pl_counts plan,
          pv_categories = map fst (filter (\<lambda>c. snd c > 0) (pl_counts plan))\<rparr>)"

definition erasurePreview :: "request_env \<Rightarrow> string \<Rightarrow> privacy_store \<Rightarrow> erasure_preview result" where
  "erasurePreview env rid st = (case find_request rid st of
       None \<Rightarrow> Inl (Not_Found [])
     | Some current \<Rightarrow>
         if rq_right current \<noteq> SUPRIMIR then Inl (Unprocessable ''PRIVACY_ERASURE_NOT_APPLICABLE'')
         else
           let b1 = (if rq_identity_at current = None then [IDENTITY_NOT_VERIFIED] else []);
               b2 = (if rq_status current \<noteq> EN_TRAMITE \<and> rq_status current \<noteq> PRORROGADA
                     then [INVALID_STATUS] else [])
           in res_bind (case rq_party current of None \<Rightarrow> Inr False
                        | Some p \<Rightarrow> hasConservationDuty env p) (\<lambda>duty.
              res_bind (requireErasurePort env) (\<lambda>port.
              res_bind (erasure_plan_of (ep_at_plan port) (erasure_target_of current)) (\<lambda>plan.
                Inr (preview_of_plan (b1 @ b2 @ (if duty then [CONSERVATION_DUTY] else [])) plan)))))"

section \<open>The service as a state machine\<close>

inductive privacy_step :: "privacy_store \<Rightarrow> privacy_store \<Rightarrow> bool" where
  step_post: "post_request env rid actorId i st = Inr st' \<Longrightarrow> rid \<notin> rq_id ` set (ps_requests st) \<Longrightarrow>
    privacy_step st st'"
| step_verify: "verifyIdentity env rid method evidence actorId st = Inr st' \<Longrightarrow> privacy_step st st'"
| step_transition: "transition env rid cmd actorId st = Inr st' \<Longrightarrow> privacy_step st st'"
| step_task: "completeTask env rid taskId note actorId st = Inr st' \<Longrightarrow> privacy_step st st'"
| step_desist: "markDesisted today st = (st', n) \<Longrightarrow> privacy_step st st'"

definition privacy_init :: privacy_store where
  "privacy_init = \<lparr>ps_requests = [], ps_events = [], ps_tasks = [], ps_marks = [], ps_revocations = []\<rparr>"

definition privacy_reachable :: "privacy_store \<Rightarrow> bool" where
  "privacy_reachable st \<longleftrightarrow> privacy_step\<^sup>*\<^sup>* privacy_init st"

text \<open>
  The \<open>CHECK\<close> constraints of \<open>data_subject_requests\<close> on one row: those of migration 149
  (the scope of an erasure, its pair of columns, its categories), and all of them, with the
  ones of migration 146.
\<close>

definition known_categories :: "string list" where
  "known_categories = [''IDENTIFICACION'', ''CONTACTO'', ''UBICACION'', ''FISCAL'',
     ''COMERCIAL'', ''EVIDENCIA_CONSENTIMIENTO'', ''CUENTA_USUARIO'', ''EVIDENCIA_DOCUMENTAL'',
     ''OPERACION_CAMPO'']"

definition erasure_checks :: "request_row \<Rightarrow> bool" where
  "erasure_checks r \<longleftrightarrow>
     (rq_erased_at r = None \<or> (rq_right r = SUPRIMIR \<and> rq_status r = RESUELTA)) \<and>
     (rq_erased_at r \<noteq> None \<or> length (rq_erasure_categories r) = 0) \<and>
     set (rq_erasure_categories r) \<subseteq> set known_categories"

definition request_checks :: "request_row \<Rightarrow> bool" where
  "request_checks r \<longleftrightarrow>
     (rq_identity_at r = None) = (rq_identity_by r = None) \<and>
     (rq_identity_at r = None \<or> rq_identity_method r \<noteq> None) \<and>
     (rq_status r \<notin> set [EN_TRAMITE, PRORROGADA, RESUELTA] \<or> rq_identity_at r \<noteq> None) \<and>
     (rq_status r \<noteq> NO_PROCEDENTE \<or> rq_identity_at r \<noteq> None
        \<or> rq_legal_basis r = Some SOLICITANTE_NO_LEGITIMADO) \<and>
     ((rq_right r = REVOCAR) = (rq_purpose r \<noteq> None)) \<and>
     (rq_kind r \<noteq> SUPLANTACION \<or> (rq_disputed r \<noteq> [] \<and> rq_party r \<noteq> None \<and> rq_identity_at r \<noteq> None)) \<and>
     (rq_kind r = SUPLANTACION \<or> rq_disputed r = []) \<and>
     erasure_checks r"

text \<open>A log of events that leads from one status to another.\<close>

fun follows :: "RequestStatus option \<Rightarrow> request_event list \<Rightarrow> RequestStatus option \<Rightarrow> bool" where
  "follows s [] t \<longleftrightarrow> s = t"
| "follows s (e # es) t \<longleftrightarrow> ev_from e = s \<and> follows (Some (ev_to e)) es t"

definition events_of :: "string \<Rightarrow> privacy_store \<Rightarrow> request_event list" where
  "events_of rid st = filter (\<lambda>e. ev_request e = rid) (ps_events st)"

definition status_of :: "string \<Rightarrow> privacy_store \<Rightarrow> RequestStatus option" where
  "status_of rid st = map_option rq_status (find_request rid st)"

definition privacy_ok :: "privacy_store \<Rightarrow> bool" where
  "privacy_ok st \<longleftrightarrow> distinct (map rq_id (ps_requests st)) \<and>
     (\<forall>r \<in> set (ps_requests st). request_checks r) \<and>
     (\<forall>rid. follows None (events_of rid st) (status_of rid st))"

lemma follows_append: "follows s (xs @ ys) t \<longleftrightarrow> (\<exists>u. follows s xs u \<and> follows u ys t)"
  by (induction xs arbitrary: s) auto

lemma find_request_Some: "find_request rid st = Some r \<Longrightarrow> r \<in> set (ps_requests st) \<and> rq_id r = rid"
  unfolding find_request_def by (rule find_Some_iff_hd)

lemma find_map_upd:
  "(\<And>r. k (f r) = k r) \<Longrightarrow>
    find (\<lambda>r. k r = b) (map (\<lambda>r. if k r = a then f r else r) rs)
      = map_option (\<lambda>r. if k r = a then f r else r) (find (\<lambda>r. k r = b) rs)"
  by (induction rs) auto

lemma status_of_update:
  assumes "\<And>r. rq_id (f r) = rq_id r"
  shows "status_of b (update_request a f st)
    = (if a = b then map_option (\<lambda>r. rq_status (f r)) (find_request b st) else status_of b st)"
  using find_map_upd [of rq_id f b a "ps_requests st"] assms
  by (auto simp: status_of_def find_request_def update_request_def option.map_comp o_def
      dest: find_Some_iff_hd intro!: option.map_cong)

lemma requests_append_event [simp]: "ps_requests (append_event a b c d e st) = ps_requests st"
  and requests_appendMark [simp]: "ps_requests (appendMark p m v q st) = ps_requests st"
  and events_appendMark [simp]: "ps_events (appendMark p m v q st) = ps_events st"
  and events_update_request [simp]: "ps_events (update_request a f st) = ps_events st"
  by (simp_all add: append_event_def appendMark_def update_request_def)

lemma requests_marks [simp]:
  "ps_requests (close_claim_mark r st) = ps_requests st" "ps_events (close_claim_mark r st) = ps_events st"
  "ps_requests (closeActiveBlockedDataMark p q st) = ps_requests st"
  "ps_events (closeActiveBlockedDataMark p q st) = ps_events st"
  "ps_requests (insert_revocation p d q st) = ps_requests st"
  "ps_events (insert_revocation p d q st) = ps_events st"
  by (simp_all add: close_claim_mark_def closeActiveBlockedDataMark_def insert_revocation_def Let_def
      split: option.split)

text \<open>
  What every accepted transition does to the two tables of the state machine: one row
  rewritten to the next status of the table, one event from the old status to the new.
\<close>

definition moves :: "string \<Rightarrow> request_row \<Rightarrow> RequestStatus \<Rightarrow> (request_row \<Rightarrow> request_row) \<Rightarrow>
    privacy_store \<Rightarrow> privacy_store \<Rightarrow> bool" where
  "moves rid current next f st st' \<longleftrightarrow>
     ps_requests st' = ps_requests (update_request rid f st) \<and>
     (\<exists>e. ps_events st' = ps_events st @ [e] \<and> ev_request e = rid \<and>
        ev_from e = Some (rq_status current) \<and> ev_to e = next)"

lemma status_of_cong: "ps_requests st = ps_requests st' \<Longrightarrow> status_of rid st = status_of rid st'"
  by (simp add: status_of_def find_request_def)

lemma moves_ok:
  assumes ok: "privacy_ok st" and cur: "find_request rid st = Some current"
    and m: "moves rid current next f st st'"
    and f: "\<And>r. rq_id (f r) = rq_id r" "rq_status (f current) = next"
    and checks: "request_checks current \<Longrightarrow> request_checks (f current)"
  shows "privacy_ok st'"
proof -
  obtain e where e: "ps_events st' = ps_events st @ [e]" "ev_request e = rid"
    "ev_from e = Some (rq_status current)" "ev_to e = next" and
    req: "ps_requests st' = ps_requests (update_request rid f st)" using m by (auto simp: moves_def)
  note c = find_request_Some [OF cur]
  have d: "distinct (map rq_id (ps_requests st))" using ok by (simp add: privacy_ok_def)
  have ids: "map rq_id (ps_requests st') = map rq_id (ps_requests st)"
    by (simp add: req update_request_def f o_def if_distrib cong: if_cong)
  have "request_checks r" if r: "r \<in> set (ps_requests st')" for r
  proof -
    from r obtain r0 where r0: "r0 \<in> set (ps_requests st)" "r = (if rq_id r0 = rid then f r0 else r0)"
      by (auto simp: req update_request_def)
    show ?thesis
    proof (cases "rq_id r0 = rid")
      case True
      then have "r0 = current" using d c r0(1) by (metis distinct_map inj_onD)
      then show ?thesis using True r0 checks c ok by (simp add: privacy_ok_def)
    qed (use r0 ok in \<open>simp add: privacy_ok_def\<close>)
  qed
  moreover have "follows None (events_of b st') (status_of b st')" for b
  proof -
    have s: "status_of b st' = (if rid = b then Some next else status_of b st)"
      using status_of_update [of f b rid st] f cur status_of_cong [OF req, of b]
      by (cases "rid = b") auto
    have "follows None (events_of b st) (status_of b st)" using ok by (simp add: privacy_ok_def)
    moreover have "status_of rid st = Some (rq_status current)" using cur by (simp add: status_of_def)
    ultimately show ?thesis using e by (auto simp: events_of_def s follows_append)
  qed
  ultimately show ?thesis using d ids by (simp add: privacy_ok_def)
qed

text \<open>A row that is not resolved carries no erasure.\<close>

lemma not_erased:
  "request_checks r \<Longrightarrow> rq_status r \<noteq> RESUELTA \<Longrightarrow> rq_erased_at r = None \<and> rq_erasure_categories r = []"
  by (auto simp: request_checks_def erasure_checks_def)

lemma no_erasure_checks:
  "rq_erased_at r = None \<Longrightarrow> rq_erasure_categories r = [] \<Longrightarrow> erasure_checks r"
  by (simp add: erasure_checks_def)

text \<open>What one branch of a transition does to the row; \<open>branch_ok\<close> is its contract.\<close>

definition branch_ok :: "request_row \<Rightarrow> RequestStatus \<Rightarrow> privacy_store \<Rightarrow> privacy_store \<Rightarrow> bool" where
  "branch_ok current next st st' \<longleftrightarrow>
     ps_events st' = ps_events st \<and>
     (\<exists>f. ps_requests st' = ps_requests (update_request (rq_id current) f st) \<and>
        (\<forall>r. rq_id (f r) = rq_id r \<and> rq_status (f r) = next) \<and>
        (request_checks current \<longrightarrow> request_checks (f current)))"

lemma branch_okI:
  assumes "ps_requests st' = ps_requests (update_request (rq_id current) f st)"
    and "ps_events st' = ps_events st"
    and "\<And>r. rq_id (f r) = rq_id r \<and> rq_status (f r) = next"
    and "rq_status current \<noteq> RESUELTA"
    and "request_checks current \<Longrightarrow> rq_erased_at current = None \<Longrightarrow> rq_erasure_categories current = [] \<Longrightarrow>
      request_checks (f current)"
  shows "branch_ok current next st st'"
  unfolding branch_ok_def
  by (intro conjI exI [of _ f]) (use assms not_erased [of current] in simp_all)

lemma update_request_cong:
  "ps_requests st = ps_requests st' \<Longrightarrow> ps_requests (update_request i f st) = ps_requests (update_request i f st')"
  by (simp add: update_request_def)

lemma next_status_cases:
  assumes "nextRequestStatus s a = Inr t"
  shows "case a of Act_require_info \<Rightarrow> t = INCOMPLETA | Act_complete \<Rightarrow> t = EN_TRAMITE
    | Act_extend \<Rightarrow> s = EN_TRAMITE \<and> t = PRORROGADA
    | Act_resolve \<Rightarrow> (s = EN_TRAMITE \<or> s = PRORROGADA) \<and> t = RESUELTA
    | Act_reject \<Rightarrow> t = NO_PROCEDENTE | Act_transfer \<Rightarrow> t = TRASLADADA"
  using assms by (cases s; cases a) (simp_all add: nextRequestStatus_def)

lemma next_status_open: "nextRequestStatus s a = Inr t \<Longrightarrow> s \<noteq> RESUELTA"
  by (cases a) (auto simp: nextRequestStatus_def)

lemma require_info_branch:
  "tr_require_info env current INCOMPLETA items channel st = Inr st' \<Longrightarrow>
    rq_status current \<noteq> RESUELTA \<Longrightarrow> branch_ok current INCOMPLETA st st'"
  by (auto simp: tr_require_info_def res_simps Let_def request_checks_def erasure_checks_def split: if_splits
      intro!: branch_okI)

lemma complete_branch:
  "tr_complete env current EN_TRAMITE completedAt actorId st = Inr st' \<Longrightarrow>
    rq_status current \<noteq> RESUELTA \<Longrightarrow> branch_ok current EN_TRAMITE st st'"
  by (auto simp: tr_complete_def res_simps Let_def request_checks_def erasure_checks_def split: if_splits option.splits
      intro!: branch_okI)

lemma extend_branch:
  "tr_extend current PRORROGADA reason st = Inr st' \<Longrightarrow> rq_status current = EN_TRAMITE \<Longrightarrow>
    branch_ok current PRORROGADA st st'"
  by (auto simp: tr_extend_def res_simps request_checks_def erasure_checks_def split: if_splits intro!: branch_okI)

lemma resolve_branch:
  "tr_resolve env current RESUELTA text channel ref erasure actorId st = Inr st' \<Longrightarrow>
    rq_status current = EN_TRAMITE \<or> rq_status current = PRORROGADA \<Longrightarrow> branch_ok current RESUELTA st st'"
  by (auto simp: tr_resolve_def res_simps Let_def request_checks_def erasure_checks_def split: if_splits option.splits
      intro!: branch_okI)

lemma reject_branch:
  assumes "tr_reject env current NO_PROCEDENTE text channel basis actorId st = Inr st'"
    and "rq_status current \<noteq> RESUELTA"
  shows "branch_ok current NO_PROCEDENTE st st'"
proof -
  have b: "rq_identity_at current \<noteq> None \<or> basis = SOLICITANTE_NO_LEGITIMADO"
    using assms(1) by (auto simp: tr_reject_def split: if_splits)
  let ?f = "\<lambda>r. r\<lparr>rq_status := NO_PROCEDENTE, rq_response_text := Some text,
      rq_response_channel := Some channel, rq_legal_basis := Some basis,
      rq_resolved_at := Some (rx_now env), rq_resolved_by := Some actorId\<rparr>"
  have "st' = close_claim_mark current (update_request (rq_id current) ?f st) \<or>
      (\<exists>p. st' = close_claim_mark current (update_request (rq_id current) ?f
        (appendMark p DATOS_BLOQUEADOS MARK_OPEN (rq_id current) st)))"
    using assms(1) by (auto simp: tr_reject_def res_simps Let_def split: if_splits option.splits)
  then have "ps_requests st' = ps_requests (update_request (rq_id current) ?f st)" "ps_events st' = ps_events st"
    by (auto simp: update_request_def)
  then show ?thesis by (rule branch_okI) (use b assms(2) in \<open>auto simp: request_checks_def erasure_checks_def\<close>)
qed

lemma transfer_branch:
  "rq_status current \<noteq> RESUELTA \<Longrightarrow>
    branch_ok current TRASLADADA st (tr_transfer current TRASLADADA to_whom channel st)"
  by (auto simp: tr_transfer_def request_checks_def erasure_checks_def intro!: branch_okI)

lemma apply_command_branch:
  assumes "apply_command env current next cmd actorId st = Inr st'"
    and "nextRequestStatus (rq_status current) (action_of cmd) = Inr next"
  shows "branch_ok current next st st'"
  using assms next_status_cases [OF assms(2)] next_status_open [OF assms(2)]
  by (cases cmd)
    (auto simp: apply_command_def res_simps intro: require_info_branch complete_branch extend_branch
      resolve_branch reject_branch transfer_branch)

lemma branch_moves:
  assumes "branch_ok current next st st1" and "find_request rid st = Some current" and "privacy_ok st"
    and "ps_requests st' = ps_requests st1"
    and "ps_events st' = ps_events st1 @ [\<lparr>ev_request = rid, ev_from = Some (rq_status current),
      ev_to = next, ev_actor = a, ev_reason = w\<rparr>]"
  shows "privacy_ok st'"
proof -
  obtain f where f: "ps_requests st1 = ps_requests (update_request (rq_id current) f st)"
    "\<And>r. rq_id (f r) = rq_id r" "\<And>r. rq_status (f r) = next"
    "request_checks current \<Longrightarrow> request_checks (f current)" "ps_events st1 = ps_events st"
    using assms(1) unfolding branch_ok_def by blast
  have "moves rid current next f st st'"
    using f assms(4,5) find_request_Some [OF assms(2)] by (simp add: moves_def)
  then show ?thesis using moves_ok [OF assms(3,2) _ f(2,3,4)] by blast
qed

lemma category_text_known: "category_text c \<in> set known_categories"
  by (cases c) (simp_all add: known_categories_def)

lemma suppression_branch:
  assumes "resolveSuppression env current RESUELTA text channel ref erasure actorId st = Inr st'"
    and "rq_right current = SUPRIMIR" and "rq_status current \<noteq> RESUELTA"
  obtains st1 w where "branch_ok current RESUELTA st st1" "ps_requests st' = ps_requests st1"
    "ps_events st' = ps_events st1 @ [\<lparr>ev_request = rq_id current, ev_from = Some (rq_status current),
      ev_to = RESUELTA, ev_actor = Some actorId, ev_reason = w\<rparr>]"
proof -
  from assms(1) obtain cs where i: "rq_identity_at current \<noteq> None" and
    st': "ps_requests st' = ps_requests (update_request (rq_id current) (\<lambda>r. r\<lparr>rq_status := RESUELTA,
       rq_response_text := Some (response_with_reference text ref),
       rq_response_channel := Some channel, rq_resolved_at := Some (rx_now env),
       rq_resolved_by := Some actorId, rq_erased_at := Some (rx_now env),
       rq_erasure_categories := map category_text cs\<rparr>) st)" (is "_ = ps_requests (update_request _ ?f st)")
    and ev: "ps_events st' = ps_events st @ [\<lparr>ev_request = rq_id current, ev_from = Some (rq_status current),
      ev_to = RESUELTA, ev_actor = Some actorId, ev_reason = ''RESOLVE''\<rparr>]"
    by (auto simp: resolveSuppression_def res_bind_eq_Inr Let_def append_event_def split: if_splits option.splits)
  have "branch_ok current RESUELTA st (update_request (rq_id current) ?f st)"
    by (rule branch_okI)
      (use i assms(2,3) category_text_known in \<open>auto simp: request_checks_def erasure_checks_def\<close>)
  then show thesis using that st' ev by simp
qed

lemma transition_ok [inv_intros]:
  assumes "transition env rid cmd actorId st = Inr st'" and "privacy_ok st"
  shows "privacy_ok st'"
proof -
  from assms(1) obtain current nxt where cur: "find_request rid st = Some current"
    and n: "nextRequestStatus (rq_status current) (action_of cmd) = Inr nxt"
    by (auto simp: transition_def res_simps split: option.splits)
  note c = find_request_Some [OF cur]
  show ?thesis
  proof (cases "\<exists>msg channel ref erasure. cmd = Cmd_resolve msg channel ref erasure \<and> rq_right current = SUPRIMIR")
    case True
    then obtain msg channel ref erasure where cmd: "cmd = Cmd_resolve msg channel ref erasure"
      "rq_right current = SUPRIMIR" by blast
    then have nx: "nxt = RESUELTA" using next_status_cases [OF n] by simp
    have "resolveSuppression env current RESUELTA msg channel ref erasure actorId st = Inr st'"
      using assms(1) cur n cmd nx by (simp add: transition_def)
    then show ?thesis
      by (rule suppression_branch [OF _ cmd(2) next_status_open [OF n]]) (use branch_moves [OF _ cur assms(2)] c nx in blast)
  next
    case False
    then obtain st1 where st1: "apply_command env current nxt cmd actorId st = Inr st1"
      "st' = append_event rid (Some (rq_status current)) nxt (Some actorId) (reason_code cmd) st1"
      using assms(1) cur n by (cases cmd) (auto simp: transition_def res_simps split: if_splits)
    from apply_command_branch [OF st1(1) n] show ?thesis
      by (rule branch_moves [OF _ cur assms(2)]) (simp_all add: st1(2) append_event_def)
  qed
qed

lemma privacy_ok_same_status:
  assumes "privacy_ok st" and "find_request rid st = Some current"
    and "ps_requests st' = ps_requests (update_request rid f st)"
    and "ps_events st' = ps_events st @ [\<lparr>ev_request = rid, ev_from = Some (rq_status current),
      ev_to = rq_status current, ev_actor = a, ev_reason = w\<rparr>]"
    and "\<And>r. rq_id (f r) = rq_id r" and "rq_status (f current) = rq_status current"
    and "request_checks current \<Longrightarrow> request_checks (f current)"
  shows "privacy_ok st'"
  using assms by (intro moves_ok [OF assms(1,2) _ assms(5,6,7)]) (simp_all add: moves_def)

lemma verifyIdentity_ok [inv_intros]:
  assumes "verifyIdentity env rid method evidence actorId st = Inr st'" and "privacy_ok st"
  shows "privacy_ok st'"
proof -
  from assms(1) obtain current where cur: "find_request rid st = Some current"
    and s: "rq_status current = RADICADA \<or> rq_status current = INCOMPLETA" and
    st': "st' = append_event rid (Some (rq_status current)) (rq_status current) (Some actorId)
                 ''IDENTIDAD_VERIFICADA''
                 (update_request rid (\<lambda>r. r\<lparr>
                    rq_evidence := (case evidence of Some e \<Rightarrow> Some e | None \<Rightarrow> rq_evidence r),
                    rq_identity_method := Some method, rq_identity_at := Some (rx_now env),
                    rq_identity_by := Some actorId\<rparr>) st)"
    by (auto simp: verifyIdentity_def res_simps split: if_splits option.splits)
  show ?thesis
    by (rule privacy_ok_same_status [OF assms(2) cur, where f = "\<lambda>r. r\<lparr>
          rq_evidence := (case evidence of Some e \<Rightarrow> Some e | None \<Rightarrow> rq_evidence r),
          rq_identity_method := Some method, rq_identity_at := Some (rx_now env),
          rq_identity_by := Some actorId\<rparr>"])
      (use s in \<open>auto simp: st' append_event_def request_checks_def erasure_checks_def\<close>)
qed

lemma completeTask_ok [inv_intros]:
  assumes "completeTask env rid taskId note actorId st = Inr st'" and "privacy_ok st"
  shows "privacy_ok st'"
proof -
  from assms(1) obtain current w where cur: "find_request rid st = Some current"
    and st': "ps_requests st' = ps_requests st"
    "ps_events st' = ps_events st @ [\<lparr>ev_request = rid, ev_from = Some (rq_status current),
      ev_to = rq_status current, ev_actor = Some actorId, ev_reason = w\<rparr>]"
    by (auto simp: completeTask_def Let_def append_event_def split: if_splits option.splits)
  show ?thesis
    by (rule privacy_ok_same_status [OF assms(2) cur _ st'(2), where f = "\<lambda>r. r"])
      (simp_all add: st' update_request_def)
qed

lemma follows_None_end: "follows None es None \<Longrightarrow> es = []"
proof (cases es rule: rev_cases)
  case (snoc ys e)
  then show "follows None es None \<Longrightarrow> es = []" by (simp add: follows_append)
qed simp

lemma no_issue: "(if c then [x] else []) = [] \<longleftrightarrow> \<not> c"
  by simp

lemma create_issues_facts:
  assumes "create_issues i = []"
  shows "(ci_right i = REVOCAR) = (ci_purpose i \<noteq> None)"
    "ci_kind i = SUPLANTACION \<Longrightarrow> ci_party i \<noteq> None \<and> ci_method i \<noteq> None \<and> has_disputed i"
    "ci_kind i \<noteq> SUPLANTACION \<Longrightarrow> \<not> has_disputed i"
proof -
  have n: "\<not> (ci_right i = REVOCAR \<and> ci_purpose i = None)" "\<not> (ci_right i \<noteq> REVOCAR \<and> ci_purpose i \<noteq> None)"
    and k: "(if ci_kind i = SUPLANTACION
      then (if ci_party i = None then [''partyId''] else [])
         @ (if ci_method i = None then [''identityVerificationMethod''] else [])
         @ (if \<not> has_disputed i then [''disputedContractIds''] else [])
      else (if has_disputed i then [''disputedContractIds''] else [])) = []"
    using assms unfolding create_issues_def append_is_Nil_conv no_issue by blast+
  show "(ci_right i = REVOCAR) = (ci_purpose i \<noteq> None)" using n by auto
  show "ci_kind i = SUPLANTACION \<Longrightarrow> ci_party i \<noteq> None \<and> ci_method i \<noteq> None \<and> has_disputed i"
    using k by (simp split: if_splits)
  show "ci_kind i \<noteq> SUPLANTACION \<Longrightarrow> \<not> has_disputed i"
    using k by (simp split: if_splits)
qed

lemma create_row_checks:
  assumes "create_issues i = []"
  shows "request_checks (create_row env rid actorId receivedAt i dueAt complaint suspended)"
  using create_issues_facts [OF assms]
  by (cases "ci_disputed i"; cases "ci_kind i = SUPLANTACION")
    (simp_all add: request_checks_def erasure_checks_def create_row_def has_disputed_def Let_def)

lemma create_row_fields:
  "rq_id (create_row env rid actorId receivedAt i dueAt complaint suspended) = rid"
  "rq_status (create_row env rid actorId receivedAt i dueAt complaint suspended) = RADICADA"
  by (simp_all add: create_row_def Let_def)

lemma create_request_Inr:
  assumes "create_request env rid actorId i st = Inr st'"
  obtains receivedAt dueAt complaint suspended where
    "ps_requests st' = ps_requests st @ [create_row env rid actorId receivedAt i dueAt complaint suspended]"
    "ps_events st' = ps_events st @ [\<lparr>ev_request = rid, ev_from = None, ev_to = RADICADA,
        ev_actor = Some actorId, ev_reason = ''RADICACION''\<rparr>]"
  using assms
  by (cases "ci_kind i = SUPLANTACION"; cases "ci_party i"; cases "ci_disputed i")
    (auto simp: create_request_def res_simps Let_def append_event_def appendMark_def)

lemma post_request_ok [inv_intros]:
  assumes "post_request env rid actorId i st = Inr st'" and "rid \<notin> rq_id ` set (ps_requests st)"
    and "privacy_ok st"
  shows "privacy_ok st'"
proof -
  have iss: "create_issues i = []" and cr: "create_request env rid actorId i st = Inr st'"
    using assms(1) by (auto simp: post_request_def split: if_splits)
  from create_request_Inr [OF cr] obtain row where row: "request_checks row" "rq_id row = rid"
    "rq_status row = RADICADA" and st': "ps_requests st' = ps_requests st @ [row]"
      "ps_events st' = ps_events st @ [\<lparr>ev_request = rid, ev_from = None, ev_to = RADICADA,
        ev_actor = Some actorId, ev_reason = ''RADICACION''\<rparr>]"
    using create_row_checks [OF iss] create_row_fields by metis
  note r = row(2,3,1)
  have new: "find (\<lambda>r. rq_id r = rid) (ps_requests st) = None"
    using assms(2) by (auto simp: find_None_all)
  have "follows None (events_of b st') (status_of b st')" for b
  proof (cases "b = rid")
    case True
    have "follows None (events_of rid st) (status_of rid st)" using assms(3) by (simp add: privacy_ok_def)
    then have "events_of rid st = []"
      using new by (intro follows_None_end) (simp add: status_of_def find_request_def)
    with True r new show ?thesis
      by (simp add: events_of_def st' status_of_def find_request_def find_append)
  next
    case False
    then have "events_of b st' = events_of b st" "status_of b st' = status_of b st"
      using r by (simp_all add: events_of_def st' status_of_def find_request_def find_append
          split: option.split)
    then show ?thesis using assms(3) by (simp add: privacy_ok_def)
  qed
  then show ?thesis using assms(2,3) r st' by (auto simp: privacy_ok_def)
qed

lemma filter_id_find:
  "distinct (map rq_id rs) \<Longrightarrow> filter (\<lambda>r. rq_id r = b \<and> P r) rs
    = (case find (\<lambda>r. rq_id r = b) rs of None \<Rightarrow> [] | Some r \<Rightarrow> if P r then [r] else [])"
proof (induction rs)
  case (Cons a rs)
  have "filter (\<lambda>r. rq_id r = b \<and> P r) rs = []" if "rq_id a = b"
    using that Cons.prems by (metis (mono_tags, lifting) distinct.simps(2) filter_False image_eqI list.simps(9) list.set_map)
  with Cons show ?case by simp
qed simp

lemma find_map_same_key:
  "(\<And>r. k (g r) = k r) \<Longrightarrow> find (\<lambda>r. k r = b) (map g rs) = map_option g (find (\<lambda>r. k r = b) rs)"
  by (induction rs) auto

lemma markDesisted_ok [inv_intros]:
  assumes "markDesisted today st = (st', n)" and "privacy_ok st"
  shows "privacy_ok st'"
proof -
  let ?g = "\<lambda>r. if desists today r then r\<lparr>rq_status := DESISTIDA\<rparr> else r"
  let ?e = "\<lambda>r. \<lparr>ev_request = rq_id r, ev_from = Some INCOMPLETA,
               ev_to = DESISTIDA, ev_actor = None, ev_reason = ''DESISTIMIENTO_AUTOMATICO''\<rparr>"
  have st': "ps_requests st' = map ?g (ps_requests st)"
    "ps_events st' = ps_events st @ map ?e (filter (desists today) (ps_requests st))"
    using assms(1) by (auto simp: markDesisted_def Let_def)
  have d: "distinct (map rq_id (ps_requests st))" using assms(2) by (simp add: privacy_ok_def)
  have ids: "map rq_id (ps_requests st') = map rq_id (ps_requests st)" by (simp add: st')
  have "request_checks (?g r)" if "r \<in> set (ps_requests st)" for r
    using that assms(2) by (auto simp: privacy_ok_def request_checks_def erasure_checks_def desists_def)
  moreover have "follows None (events_of b st') (status_of b st')" for b
  proof -
    have ev: "events_of b st' = events_of b st
        @ map ?e (case find_request b st of None \<Rightarrow> [] | Some r \<Rightarrow> if desists today r then [r] else [])"
      using filter_id_find [OF d, of b "desists today"]
      by (simp add: events_of_def st' filter_map o_def find_request_def conj_commute)
    have "find_request b st' = map_option ?g (find_request b st)"
      unfolding find_request_def st'(1) by (rule find_map_same_key) simp
    then have s: "status_of b st' = map_option (\<lambda>r. rq_status (?g r)) (find_request b st)"
      by (simp add: status_of_def option.map_comp o_def)
    have old: "follows None (events_of b st) (status_of b st)" using assms(2) by (simp add: privacy_ok_def)
    show ?thesis
      using old unfolding ev s
      by (cases "find_request b st") (auto simp: follows_append status_of_def desists_def)
  qed
  moreover have "\<forall>r \<in> set (ps_requests st'). request_checks r"
    unfolding st'(1) set_map using calculation(1) by blast
  ultimately show ?thesis using d ids unfolding privacy_ok_def by metis
qed

lemma privacy_step_ok: "privacy_step st st' \<Longrightarrow> privacy_ok st \<Longrightarrow> privacy_ok st'"
  by (induction rule: privacy_step.induct) (auto intro: inv_intros)

lemma privacy_reachable_ok: "privacy_reachable st \<Longrightarrow> privacy_ok st"
  unfolding privacy_reachable_def
proof (induction rule: rtranclp_induct)
  case base
  show ?case by (simp add: privacy_ok_def privacy_init_def events_of_def status_of_def find_request_def)
next
  case (step st st')
  then show ?case using privacy_step_ok by blast
qed

section \<open>Deadlines meet the calendar's contract\<close>

lemma business_days_after_eq: "addColombiaBusinessDays s k = Some r \<Longrightarrow> business_days_after s k = r"
  by (simp add: business_days_after_def)

lemma business_days_after_returns:
  assumes "parseCivilDate s = Inr c" and "0 \<le> k" and "day_num c + 70 * k < day_from_year 10000"
  obtains r d where "business_days_after s k = Inr r" "parseCivilDate r = Inr d" "text_date d"
    "day_num c \<le> day_num d" "day_num d \<le> day_num c + 70 * k" "js_le s r"
    "add_business (day_num c) k = Some (day_num d)"
proof -
  from addColombiaBusinessDays_returns [OF assms] obtain r d where
    r: "addColombiaBusinessDays s k = Some (Inr r)" "parseCivilDate r = Inr d"
    and n: "counts_to business_day (day_num c) k (day_num d)" by metis
  note p = parse_sound [OF assms(1)] parse_sound [OF r(2)]
  have v: "valid_date c" using p by (simp add: text_date_def)
  have c: "day_from_year 1 \<le> day_num c" "day_num c < day_from_year 10000"
    using p(1) text_date_civil [of "day_num c"] v by simp_all
  have "add_business (day_num c) k = Some (day_num d)"
    using r c p v by (simp add: add_business_def day_text_num)
  moreover have "js_le s r" using fmt_le [OF p(1,3)] p n by (simp add: counts_to_def)
  moreover have "day_num d \<le> day_num c + 70 * k" by (rule counts_to_bound [OF n assms(2) c(1) assms(3)])
  ultimately show thesis
    using that [OF business_days_after_eq [OF r(1)] r(2) p(3)] n by (simp add: counts_to_def)
qed

lemma js_lt_of_day:
  assumes "parseCivilDate s = Inr a" and "parseCivilDate r = Inr b" and "day_num a < day_num b"
  shows "js_lt s r"
  using fmt_le [OF parse_sound(1) [OF assms(2)] parse_sound(1) [OF assms(1)]]
    parse_sound(2) [OF assms(1)] parse_sound(2) [OF assms(2)] assms(3) by simp

lemma text_of_day_eq:
  assumes "parseCivilDate s = Inr a" and "parseCivilDate r = Inr b" and "day_num a = day_num b"
  shows "s = r"
  using parse_sound [OF assms(1)] parse_sound [OF assms(2)] day_num_inject [of a b] assms(3)
  by (auto simp: text_date_def)

lemma foldl_blockers_nil: "foldl add_blocker bs xs = [] \<Longrightarrow> bs = [] \<and> xs = []"
proof (induction xs arbitrary: bs)
  case (Cons x xs)
  then have "add_blocker bs x = []" using Cons.IH [of "add_blocker bs x"] by simp
  then show ?case by (auto simp: add_blocker_def split: if_splits)
qed simp

lemma eligible_preview:
  assumes "pv_eligible (preview_of_plan bs plan)"
  shows "bs = [] \<and> pl_blockers plan = [] \<and> length (pl_candidates plan) \<le> 500 \<and>
    pv_candidates (preview_of_plan bs plan) = pl_candidates plan"
proof -
  have "foldl add_blocker bs (pl_blockers plan) = []" "length (pl_candidates plan) \<le> 500"
    using assms by (auto simp: preview_of_plan_def Let_def add_blocker_def split: if_splits)
  with foldl_blockers_nil [OF this(1)] show ?thesis by (simp add: preview_of_plan_def Let_def)
qed

section \<open>Sample data for the witnesses\<close>

definition sample_participant :: "string \<Rightarrow> nat \<Rightarrow> participant" where
  "sample_participant name residual = \<lparr>pt_name = name, pt_resolve = None,
     pt_plan = (\<lambda>scope. Inr [\<lparr>tr_table = name, tr_category = CONTACTO,
        tr_selected = length (es_expedientes scope), tr_changed = 0, tr_residual = 0\<rparr>]),
     pt_apply = (\<lambda>scope. Inr [\<lparr>tr_table = name, tr_category = CONTACTO,
        tr_selected = length (es_expedientes scope), tr_changed = length (es_expedientes scope),
        tr_residual = residual\<rparr>])\<rparr>"

text \<open>A subscriber of the party whose account was closed, and two files with his document.\<close>

definition sample_world :: erasure_world where
  "sample_world = \<lparr>ew_schema = Some ''tenant_a'',
     ew_subscribers = [\<lparr>sl_id = ''s1'', sl_party = Some ''p1'', sl_user = Some ''w1'', sl_hmac = Some ''h:1010''\<rparr>],
     ew_expedientes = [(''e2'', Some ''h:1010''), (''e1'', Some ''h:1010''), (''e3'', None)],
     ew_users = [\<lparr>ul_id = ''w1'', ul_party = None, ul_deleted_at = Some ''2026-01-02''\<rparr>],
     ew_suppliers = [''p7''], ew_participants = [sample_participant ''expediente_records'' 0],
     ew_billing = Some (sample_participant ''billing_documents'' 0)\<rparr>"

definition sample_ports :: privacy_ports where
  "sample_ports = \<lparr>pp_open_contracts = (\<lambda>_. []), pp_last_terminated = (\<lambda>_. None),
     pp_fiscal_date = Some (\<lambda>_. None), pp_retention_years = (\<lambda>_. Some 5),
     pp_suspend = (\<lambda>_ ids. Inr ids),
     pp_erasure = Some \<lparr>ep_at_plan = sample_world, ep_at_anonymize = sample_world\<rparr>\<rparr>"

definition sample_env :: request_env where
  "sample_env = \<lparr>rx_now = ''2026-01-13T15:00:00.000Z'', rx_today = ''2026-01-13'',
     rx_hmac = (\<lambda>d. ''h:'' @ d), rx_ports = sample_ports\<rparr>"

definition sample_input :: create_input where
  "sample_input = \<lparr>ci_kind = CONSULTA, ci_right = CONOCER, ci_purpose = None, ci_requester_kind = TITULAR,
     ci_document_type = Doc_CC, ci_document = ''10.10'',
     ci_evidence = None, ci_method = Some DOCUMENTO_PRESENCIAL, ci_party = Some ''p1'',
     ci_disputed = None, ci_received_at = None\<rparr>"

definition sample_request :: "RequestKind \<Rightarrow> RequestRight \<Rightarrow> request_row" where
  "sample_request kind right = (create_row sample_env ''r1'' ''u1'' ''2026-01-13'' sample_input ''2026-02-03'' None [])
     \<lparr>rq_kind := kind, rq_right := right, rq_status := EN_TRAMITE\<rparr>"

definition sample_store :: "RequestKind \<Rightarrow> RequestRight \<Rightarrow> privacy_store" where
  "sample_store kind right = privacy_init\<lparr>ps_requests := [sample_request kind right],
     ps_marks := [\<lparr>mk_party = ''p1'', mk_mark = RECLAMO_EN_TRAMITE, mk_event = MARK_OPEN, mk_request = ''r1''\<rparr>]\<rparr>"

lemma sample_date: "parseCivilDate ''2026-01-13'' = Inr \<lparr>cd_year = 2026, cd_month = 1, cd_day = 13\<rparr>"
  "day_num \<lparr>cd_year = 2026, cd_month = 1, cd_day = 13\<rparr> + 3000 < day_from_year 10000"
  by code_simp+

lemma isWithinBusinessDeadline_same_day:
  assumes "parseCivilDate s = Inr c" and "0 \<le> k" and "day_num c + 70 * k < day_from_year 10000"
  shows "isWithinBusinessDeadline s s k = Inr True"
  by (rule business_days_after_returns [OF assms]) (simp add: isWithinBusinessDeadline_def)

lemma sample_document: "normalizeDocumentNumber Doc_CC ''10.10'' = ''1010''"
  by code_simp

lemma sample_reachable:
  "\<exists>st r. privacy_reachable st \<and> find_request ''r1'' st = Some r"
proof -
  obtain due where due: "business_days_after ''2026-01-13'' 10 = Inr due"
    by (rule business_days_after_returns [OF sample_date(1), of 10]) (use sample_date(2) in simp_all)
  let ?row = "create_row sample_env ''r1'' ''u1'' ''2026-01-13'' sample_input due None []"
  let ?st = "append_event ''r1'' None RADICADA (Some ''u1'') ''RADICACION''
    (privacy_init\<lparr>ps_requests := ps_requests privacy_init @ [?row]\<rparr>)"
  have "post_request sample_env ''r1'' ''u1'' sample_input privacy_init = Inr ?st"
    using due by (simp add: post_request_def create_request_def create_issues_def sample_input_def
        has_disputed_def calculateInitialDueAt_def REQUEST_DUE_DAYS_def sample_env_def Let_def sample_document)
  then have "privacy_step privacy_init ?st" by (rule step_post) (simp add: privacy_init_def)
  then have "privacy_reachable ?st" unfolding privacy_reachable_def by (rule r_into_rtranclp)
  moreover have "find_request ''r1'' ?st = Some ?row"
    by (simp add: find_request_def privacy_init_def create_row_fields)
  ultimately show ?thesis by blast
qed

section \<open>Properties\<close>

text \<open>
  C5. In every state the service can reach the requests have distinct identifiers, and every
  request satisfies the \<open>CHECK\<close> constraints that migrations 146 and 149 put on its table: the
  pair and the method of a verified identity, identity verified before processing, the legal
  basis of a rejection without identity, the purpose of a revocation, the contracts of an
  impersonation, and of the record of an erasure that it stands on a suppression that was
  granted, that categories come with a date, and that they are the known ones. (The constraints
  that list the values of one column hold by the types of the columns.)
\<close>

theorem privacy_reachable_checks:
  assumes "privacy_reachable st"
  shows "distinct (map rq_id (ps_requests st)) \<and> (\<forall>r \<in> set (ps_requests st). request_checks r)"
  using privacy_reachable_ok [OF assms] by (simp add: privacy_ok_def)

theorem privacy_reachable_checks_witness:
  "\<exists>st. privacy_reachable st \<and> ps_requests st \<noteq> [] \<and>
    distinct (map rq_id (ps_requests st)) \<and> (\<forall>r \<in> set (ps_requests st). request_checks r)"
proof -
  from sample_reachable obtain st r where "privacy_reachable st" "find_request ''r1'' st = Some r" by blast
  with privacy_reachable_checks [of st] show ?thesis
    by (intro exI [of _ st]) (auto simp: find_request_def)
qed



text \<open>
  A closed request stays closed: in the statuses resolved, rejected, withdrawn and
  transferred every action of the table is refused, identity can no longer be verified,
  and the nightly withdrawal leaves the request as it is.
\<close>

lemma privacy_closed_stays_closed:
  assumes "find_request rid st = Some r" and "rq_status r \<notin> set OPEN_STATUSES"
  shows "transition env rid cmd actorId st = Inl Range_Error \<and>
    (\<forall>st'. verifyIdentity env rid method evidence actorId st \<noteq> Inr st') \<and>
    find_request rid (fst (markDesisted today st)) = Some r"
proof (intro conjI allI)
  show "transition env rid cmd actorId st = Inl Range_Error"
    using assms by (cases "rq_status r"; cases cmd) (simp_all add: transition_def nextRequestStatus_def OPEN_STATUSES_def)
  show "verifyIdentity env rid method evidence actorId st \<noteq> Inr st'" for st'
    using assms by (auto simp: verifyIdentity_def res_simps OPEN_STATUSES_def split: if_splits)
  have "find (\<lambda>r. rq_id r = rid) (map (\<lambda>r. if desists today r then r\<lparr>rq_status := DESISTIDA\<rparr> else r) (ps_requests st))
      = map_option (\<lambda>r. if desists today r then r\<lparr>rq_status := DESISTIDA\<rparr> else r)
          (find (\<lambda>r. rq_id r = rid) (ps_requests st))"
    by (rule find_map_same_key) simp
  moreover have "\<not> desists today r" using assms(2) by (auto simp: desists_def OPEN_STATUSES_def)
  ultimately show "find_request rid (fst (markDesisted today st)) = Some r"
    using assms(1) by (simp add: markDesisted_def find_request_def Let_def)
qed

text \<open>
  C32. Personal data are erased only under every guard. When resolving a suppression goes
  through, erasure was confirmed, identity is verified, no duty to conserve is in force for
  the party, and on the rows that the anonymization reads nothing blocks it: the confirmed
  files are exactly the candidates of the document, without a party no subscriber has that
  document, no account linked to the party is active and the party is no supplier; billing
  and every other participant applied its part and none left a residual. The request ends
  resolved, with the time of the erasure and the categories that changed.
\<close>

theorem suppression_guarded:
  assumes "transition env rid (Cmd_resolve msg channel rf erasure) actorId st = Inr st'"
    and "find_request rid st = Some r" and "rq_right r = SUPRIMIR"
  shows "\<exists>ids port w scope applied r'.
    erasure = Some ids \<and> rq_identity_at r \<noteq> None \<and>
    (\<forall>p. rq_party r = Some p \<longrightarrow> hasConservationDuty env p = Inr False) \<and>
    pp_erasure (rx_ports env) = Some port \<and> w = ep_at_anonymize port \<and>
    mset ids = mset (candidate_ids w (erasure_target_of r)) \<and> erasable w (erasure_target_of r) \<and>
    ew_billing w \<noteq> None \<and> resolveParticipants w (target_scope w (erasure_target_of r)) = Inr scope \<and>
    run_participants (\<lambda>p. pt_apply p scope) (participants w) = Inr applied \<and>
    (\<forall>t \<in> set applied. tr_residual t = 0) \<and>
    find_request rid st' = Some r' \<and> rq_status r' = RESUELTA \<and> rq_erased_at r' = Some (rx_now env) \<and>
    set (rq_erasure_categories r') = (category_text \<circ> tr_category) ` {t \<in> set applied. tr_changed t > 0}"
proof -
  note c = find_request_Some [OF assms(2)]
  from assms obtain nxt where n: "nextRequestStatus (rq_status r) Act_resolve = Inr nxt"
    and s: "resolveSuppression env r nxt msg channel rf erasure actorId st = Inr st'"
    by (auto simp: transition_def res_simps)
  have nx: "nxt = RESUELTA" using next_status_cases [OF n] by simp
  from s obtain ids port outcome where
    g: "erasure = Some ids" "rq_identity_at r \<noteq> None" "pp_erasure (rx_ports env) = Some port"
    and duty: "(case rq_party r of None \<Rightarrow> Inr False | Some p \<Rightarrow> hasConservationDuty env p) = Inr False"
    and a: "anonymize (ep_at_anonymize port) (erasure_target_of r) ids = Inr outcome"
    and st': "ps_requests st' = ps_requests (update_request (rq_id r) (\<lambda>r. r\<lparr>rq_status := nxt,
       rq_response_text := Some (response_with_reference msg rf),
       rq_response_channel := Some channel, rq_resolved_at := Some (rx_now env),
       rq_resolved_by := Some actorId, rq_erased_at := Some (rx_now env),
       rq_erasure_categories := map category_text (ar_categories outcome)\<rparr>) st)"
       (is "_ = ps_requests (update_request _ ?f st)")
    by (auto simp: resolveSuppression_def requireErasurePort_def res_bind_eq_Inr Let_def split: if_splits option.splits)
  have "find_request rid st' = Some (?f r)"
    using find_map_upd [of rq_id ?f rid "rq_id r" "ps_requests st"] assms(2) c
    by (simp add: find_request_def st' update_request_def)
  moreover have "\<forall>p. rq_party r = Some p \<longrightarrow> hasConservationDuty env p = Inr False" using duty by auto
  ultimately show ?thesis
    using g nx by (rule_tac anonymize_Inr [OF a]) (auto simp: set_erasure_categories image_comp)
qed

lemma sample_request_found:
  "find_request ''r1'' (sample_store CONSULTA right) = Some (sample_request CONSULTA right)"
  "rq_right (sample_request CONSULTA right) = right"
  by (simp_all add: find_request_def sample_store_def sample_request_def create_row_fields)

definition sample_target :: erasure_target where
  "sample_target = \<lparr>et_request = ''r1'', et_party = Some ''p1'', et_hmac = Some ''h:1010''\<rparr>"

definition sample_plan :: erasure_plan where
  "sample_plan = \<lparr>pl_candidates = [''e1'', ''e2''], pl_blockers = [],
     pl_counts = plan_counts [\<lparr>tr_table = ''expediente_records'', tr_category = CONTACTO, tr_selected = 2,
        tr_changed = 0, tr_residual = 0\<rparr>, \<lparr>tr_table = ''billing_documents'', tr_category = CONTACTO,
        tr_selected = 2, tr_changed = 0, tr_residual = 0\<rparr>]\<rparr>"

lemma sample_erasure:
  "erasure_plan_of sample_world sample_target = Inr sample_plan"
  "anonymize sample_world sample_target [''e1'', ''e2'']
     = Inr \<lparr>ar_categories = [CONTACTO], ar_changed_rows = 4\<rparr>"
  by code_simp+

lemma sample_plan_blockers: "pl_blockers sample_plan = []" "length (pl_candidates sample_plan) = 2"
  by (simp_all add: sample_plan_def)

lemma sample_target_of: "erasure_target_of (sample_request CONSULTA SUPRIMIR) = sample_target"
  by (simp add: erasure_target_of_def sample_request_def create_row_def sample_input_def sample_env_def
      sample_target_def sample_document Let_def)

lemma sample_no_duty: "conservationDuty sample_env (Some ''p1'')
    = Inr \<lparr>cd_applies = False, cd_open_contract = False, cd_retention = False\<rparr>"
  by (simp add: conservationDuty_def retained_def sample_env_def sample_ports_def Let_def)

lemma sample_request_fields:
  "rq_status (sample_request CONSULTA right) = EN_TRAMITE" "rq_party (sample_request CONSULTA right) = Some ''p1''"
  "rq_identity_at (sample_request CONSULTA right) = Some (rx_now sample_env)"
  by (simp_all add: sample_request_def create_row_def sample_input_def Let_def)

lemma sample_port:
  "requireErasurePort sample_env = Inr \<lparr>ep_at_plan = sample_world, ep_at_anonymize = sample_world\<rparr>"
  by (simp add: requireErasurePort_def sample_env_def sample_ports_def)

lemma sample_suppression:
  "\<exists>st'. transition sample_env ''r1'' (Cmd_resolve ''ok'' EMAIL None (Some [''e1'', ''e2''])) ''u1''
      (sample_store CONSULTA SUPRIMIR) = Inr st'"
  by (simp add: transition_def sample_request_found sample_request_fields nextRequestStatus_def
      resolveSuppression_def sample_target_of sample_port sample_erasure sample_plan_blockers hasConservationDuty_def
      sample_no_duty Let_def)

theorem suppression_guarded_witness:
  "\<exists>st' r'. transition sample_env ''r1'' (Cmd_resolve ''ok'' EMAIL None (Some [''e1'', ''e2''])) ''u1''
      (sample_store CONSULTA SUPRIMIR) = Inr st' \<and> find_request ''r1'' st' = Some r' \<and>
    rq_status r' = RESUELTA \<and> rq_erased_at r' = Some ''2026-01-13T15:00:00.000Z''"
proof -
  from sample_suppression obtain st' where st': "transition sample_env ''r1''
      (Cmd_resolve ''ok'' EMAIL None (Some [''e1'', ''e2''])) ''u1'' (sample_store CONSULTA SUPRIMIR) = Inr st'"
    by blast
  from suppression_guarded [OF st' sample_request_found] st' show ?thesis by (auto simp: sample_env_def)
qed

lemma erasurePreview_Inr:
  assumes "erasurePreview env rid st = Inr preview"
  obtains r duty port plan where "find_request rid st = Some r" "rq_right r = SUPRIMIR"
    "(case rq_party r of None \<Rightarrow> Inr False | Some p \<Rightarrow> hasConservationDuty env p) = Inr duty"
    "requireErasurePort env = Inr port" "erasure_plan_of (ep_at_plan port) (erasure_target_of r) = Inr plan"
    "preview = preview_of_plan ((if rq_identity_at r = None then [IDENTITY_NOT_VERIFIED] else [])
      @ (if rq_status r \<noteq> EN_TRAMITE \<and> rq_status r \<noteq> PRORROGADA then [INVALID_STATUS] else [])
      @ (if duty then [CONSERVATION_DUTY] else [])) plan"
proof (cases "find_request rid st")
  case (Some r)
  show thesis
  proof (cases "rq_right r = SUPRIMIR")
    case True
    from assms True show thesis
      using that [OF Some True]
      by (simp only: erasurePreview_def Some option.case Let_def simp_thms if_False res_bind_eq_Inr sum.inject
          append_assoc) (elim exE conjE, blast)
  qed (use assms Some in \<open>simp add: erasurePreview_def\<close>)
qed (use assms in \<open>simp add: erasurePreview_def\<close>)

text \<open>
  C39. The preview of a suppression keeps its word: when it says that the request is
  eligible, and nothing it reads has moved since, then confirming the files it lists
  resolves the request exactly when every participant applies its part and none leaves a
  residual; a residual is answered with the verification error, and nothing else can be.
\<close>

theorem erasure_preview_sound:
  assumes "erasurePreview env rid st = Inr preview" and "pv_eligible preview"
    and "pp_erasure (rx_ports env) = Some \<lparr>ep_at_plan = w, ep_at_anonymize = w\<rparr>"
    and "answer = transition env rid (Cmd_resolve msg channel rf (Some (pv_candidates preview))) actorId st"
  shows "\<exists>r scope. find_request rid st = Some r \<and>
    resolveParticipants w (target_scope w (erasure_target_of r)) = Inr scope \<and>
    (case run_participants (\<lambda>p. pt_apply p scope) (participants w) of
       Inl e \<Rightarrow> answer = Inl e
     | Inr applied \<Rightarrow>
         if \<exists>t \<in> set applied. tr_residual t > 0
         then answer = Inl (Conflict ''PRIVACY_ERASURE_VERIFICATION_FAILED'')
         else \<exists>st'. answer = Inr st')"
proof -
  from assms(1,3) obtain r plan duty where cur: "find_request rid st = Some r" and right: "rq_right r = SUPRIMIR"
    and duty: "(case rq_party r of None \<Rightarrow> Inr False | Some p \<Rightarrow> hasConservationDuty env p) = Inr duty"
    and plan: "erasure_plan_of w (erasure_target_of r) = Inr plan"
    and pv: "preview = preview_of_plan ((if rq_identity_at r = None then [IDENTITY_NOT_VERIFIED] else [])
      @ (if rq_status r \<noteq> EN_TRAMITE \<and> rq_status r \<noteq> PRORROGADA then [INVALID_STATUS] else [])
      @ (if duty then [CONSERVATION_DUTY] else [])) plan"
    by (rule_tac erasurePreview_Inr [OF assms(1)]) (auto simp: requireErasurePort_def)
  from eligible_preview [OF assms(2) [unfolded pv], folded pv]
  have ok: "rq_identity_at r \<noteq> None" "rq_status r = EN_TRAMITE \<or> rq_status r = PRORROGADA" "\<not> duty"
    "pl_blockers plan = []" "length (pl_candidates plan) \<le> 500" "pv_candidates preview = pl_candidates plan"
    by (auto split: if_splits)
  from erasure_plan_no_blocker [OF plan ok(4)] obtain scope where
    scope: "resolveParticipants w (target_scope w (erasure_target_of r)) = Inr scope" and
    a: "anonymize w (erasure_target_of r) (pv_candidates preview) =
       res_bind (run_participants (\<lambda>p. pt_apply p scope) (participants w)) (\<lambda>applied.
         if sum_list (map tr_residual applied) > 0
         then Inl (Conflict ''PRIVACY_ERASURE_VERIFICATION_FAILED'') else Inr (erasure_summary applied))"
    unfolding ok(6) .
  obtain ident where i: "rq_identity_at r = Some ident" using ok(1) by blast
  have n: "nextRequestStatus (rq_status r) Act_resolve = Inr RESUELTA"
    using ok(2) by (auto simp: nextRequestStatus_def)
  have res: "(\<exists>t \<in> set applied. tr_residual t > 0) \<longleftrightarrow> sum_list (map tr_residual applied) > 0" for applied
    by (auto simp: neq0_conv [symmetric] simp del: neq0_conv)
  have "case run_participants (\<lambda>p. pt_apply p scope) (participants w) of
       Inl e \<Rightarrow> answer = Inl e
     | Inr applied \<Rightarrow>
         if \<exists>t \<in> set applied. tr_residual t > 0
         then answer = Inl (Conflict ''PRIVACY_ERASURE_VERIFICATION_FAILED'')
         else \<exists>st'. answer = Inr st'"
  proof (cases "run_participants (\<lambda>p. pt_apply p scope) (participants w)")
    case (Inr applied)
    with cur right n i ok duty plan a assms(3,4) show ?thesis
      by (cases "sum_list (map tr_residual applied) > 0")
        (simp_all only: res sum.case if_True if_False, simp_all add: transition_def resolveSuppression_def
          requireErasurePort_def Let_def)
  qed (use cur right n i ok duty plan a assms(3,4) in
    \<open>simp add: transition_def resolveSuppression_def requireErasurePort_def Let_def\<close>)
  with cur scope show ?thesis by blast
qed

theorem erasure_preview_sound_witness:
  "\<exists>preview. erasurePreview sample_env ''r1'' (sample_store CONSULTA SUPRIMIR) = Inr preview \<and>
    (\<exists>st'. transition sample_env ''r1'' (Cmd_resolve ''ok'' EMAIL None (Some (pv_candidates preview))) ''u1''
      (sample_store CONSULTA SUPRIMIR) = Inr st')"
proof -
  define preview where "preview = preview_of_plan [] sample_plan"
  have p: "erasurePreview sample_env ''r1'' (sample_store CONSULTA SUPRIMIR) = Inr preview"
    by (simp add: erasurePreview_def sample_request_found sample_request_fields sample_target_of sample_port
        sample_erasure hasConservationDuty_def sample_no_duty preview_def Let_def)
  have e: "pv_eligible preview" by (simp add: preview_def preview_of_plan_def Let_def sample_plan_blockers)
  have "pp_erasure (rx_ports sample_env) = Some \<lparr>ep_at_plan = sample_world, ep_at_anonymize = sample_world\<rparr>"
    by (simp add: sample_env_def sample_ports_def)
  note sound = erasure_preview_sound [OF p e this refl, of "''ok''" EMAIL None "''u1''"]
  have applied: "\<exists>applied. run_participants (\<lambda>p. pt_apply p scope) (participants sample_world) = Inr applied \<and>
      (\<forall>t \<in> set applied. \<not> tr_residual t > 0)" for scope
    by (simp add: participants_def sample_world_def sample_participant_def run_participants_def runParticipant_def)
  from sound obtain scope where "case run_participants (\<lambda>p. pt_apply p scope) (participants sample_world) of
       Inl e \<Rightarrow> transition sample_env ''r1'' (Cmd_resolve ''ok'' EMAIL None (Some (pv_candidates preview))) ''u1''
         (sample_store CONSULTA SUPRIMIR) = Inl e
     | Inr applied \<Rightarrow>
         if \<exists>t \<in> set applied. tr_residual t > 0
         then transition sample_env ''r1'' (Cmd_resolve ''ok'' EMAIL None (Some (pv_candidates preview))) ''u1''
           (sample_store CONSULTA SUPRIMIR) = Inl (Conflict ''PRIVACY_ERASURE_VERIFICATION_FAILED'')
         else \<exists>st'. transition sample_env ''r1'' (Cmd_resolve ''ok'' EMAIL None (Some (pv_candidates preview))) ''u1''
           (sample_store CONSULTA SUPRIMIR) = Inr st'"
    by (elim exE conjE)
  moreover obtain applied where a: "run_participants (\<lambda>p. pt_apply p scope) (participants sample_world) = Inr applied"
    "\<not> (\<exists>t \<in> set applied. tr_residual t > 0)" using applied [of scope] by blast
  ultimately show ?thesis using p by (simp only: sum.case if_False) blast
qed

text \<open>
  An extension adds up: extending a query or a claim gives the date that counting the
  original term and the extension together from the same start gives, and it is later
  than the original due date.
\<close>

lemma extension_adds_up:
  assumes "kind \<noteq> SUPLANTACION" and "parseCivilDate base = Inr c"
    and "day_num c + 3000 < day_from_year 10000"
  shows "\<exists>due ext. business_days_after base (REQUEST_DUE_DAYS kind) = Inr due \<and>
    calculateExtendedUntil kind due = Inr ext \<and> js_lt due ext \<and>
    business_days_after base (REQUEST_DUE_DAYS kind + (if kind = CONSULTA then 5 else 8)) = Inr ext"
proof -
  define a b where "a = REQUEST_DUE_DAYS kind" and "b = (if kind = CONSULTA then 5 else 8 :: int)"
  have ab: "0 \<le> a" "a \<le> 15" "0 < b" "b \<le> 8"
    using assms(1) by (cases kind; simp add: a_def b_def REQUEST_DUE_DAYS_def)+
  have r1: "day_num c + 70 * a < day_from_year 10000" "day_num c + 70 * (a + b) < day_from_year 10000"
    using ab assms(3) by simp_all
  obtain due d where due: "business_days_after base a = Inr due" "parseCivilDate due = Inr d"
    "day_num d \<le> day_num c + 70 * a" "add_business (day_num c) a = Some (day_num d)"
    by (rule business_days_after_returns [OF assms(2) ab(1) r1(1)])
  have "0 \<le> b" "day_num d + 70 * b < day_from_year 10000" using due(3) ab assms(3) by simp_all
  from business_days_after_returns [OF due(2) this] obtain ext e where
    ext: "business_days_after due b = Inr ext" "parseCivilDate ext = Inr e"
    "add_business (day_num d) b = Some (day_num e)" by metis
  have "0 \<le> a + b" using ab by simp
  from business_days_after_returns [OF assms(2) this r1(2)] obtain t f where
    t: "business_days_after base (a + b) = Inr t" "parseCivilDate t = Inr f"
    "add_business (day_num c) (a + b) = Some (day_num f)" by metis
  have "day_num f = day_num e" by (rule colombia.add_add [OF due(4) ext(3) t(3)])
  then have "t = ext" by (rule text_of_day_eq [OF t(2) ext(2)])
  have "add_business (day_num d) 0 = Some (day_num d)"
  proof -
    have "0 \<le> (0::int)" "day_num d + 70 * 0 < day_from_year 10000" using due(3) ab assms(3) by simp_all
    from business_days_after_returns [OF due(2) this] obtain g where
      "add_business (day_num d) 0 = Some (day_num g)" by metis
    with colombia.add_zero [OF this] show ?thesis by simp
  qed
  from colombia.add_less [OF this ext(3) order_refl ab(3)] have "js_lt due ext"
    by (rule js_lt_of_day [OF due(2) ext(2)])
  then show ?thesis
    using due(1) ext(1) t(1) \<open>t = ext\<close> assms(1) by (simp add: a_def b_def calculateExtendedUntil_def)
qed

text \<open>
  The mark of a claim in progress outlives the claim: a claim that was in process and
  is sent back for information keeps its party marked when the nightly job closes it as
  withdrawn; the mark is opened by \<open>complete\<close> and closed by \<open>resolve\<close> and
  \<open>reject\<close> only.
\<close>

lemma claim_mark_survives_withdrawal:
  assumes "find_request rid st = Some r" and "rq_status r = EN_TRAMITE" and "rq_kind r = RECLAMO"
    and "mark_active p RECLAMO_EN_TRAMITE st"
    and "transition env rid (Cmd_require_info items channel) actorId st = Inr st1"
    and "calculateDesistAt (rx_today env) = Inr limit" and "js_le limit later"
    and "markDesisted later st1 = (st2, n)"
  shows "status_of rid st2 = Some DESISTIDA \<and> mark_active p RECLAMO_EN_TRAMITE st2"
proof -
  note c = find_request_Some [OF assms(1)]
  let ?f = "\<lambda>r. r\<lparr>rq_status := INCOMPLETA, rq_info_required_at := Some (rx_now env),
      rq_desist_at := Some limit, rq_response_text := Some items, rq_response_channel := Some channel\<rparr>"
  have st1: "ps_requests st1 = ps_requests (update_request rid ?f st)" "ps_marks st1 = ps_marks st"
    using assms(1,2,5,6) c
    by (auto simp: transition_def nextRequestStatus_def apply_command_def tr_require_info_def res_simps
        Let_def append_event_def update_request_def split: if_splits)
  have r1: "find_request rid st1 = Some (?f r)"
    using find_map_upd [of rq_id ?f rid rid "ps_requests st"] assms(1) c
    by (simp add: find_request_def st1 update_request_def)
  have d: "desists later (?f r)" using assms(7) by (simp add: desists_def)
  have st2: "ps_requests st2 = map (\<lambda>r. if desists later r then r\<lparr>rq_status := DESISTIDA\<rparr> else r) (ps_requests st1)"
    "ps_marks st2 = ps_marks st1"
    using assms(8) by (auto simp: markDesisted_def Let_def)
  have "find_request rid st2 = map_option (\<lambda>r. if desists later r then r\<lparr>rq_status := DESISTIDA\<rparr> else r)
      (find_request rid st1)"
    unfolding find_request_def st2 by (rule find_map_same_key) simp
  then show ?thesis using r1 d assms(4) st1 st2 by (simp add: status_of_def mark_active_def latest_mark_def)
qed

end
