(* ===== verification/BillingCalendar.thy ===== *)
theory BillingCalendar
  imports CivilDate
begin

text \<open>
  The billing calendar: \<open>packages/shared/src/calendar/billing-calendar.ts\<close> (periods,
  generation dates, due and cutoff dates, preview) and \<open>billing-cutoff.ts\<close> (the fixed
  cutoff day). Dates are texts throughout, as in the code; the lemmas reason on day numbers
  of months counted from year 0 (\<open>12 * year + month - 1\<close>).
\<close>

section \<open>Data\<close>

datatype BillingPeriodTiming = ANTICIPADO | VENCIDO

datatype BillingCutoffMode = DIA_FIJO_CICLO | VENCIMIENTO_MAS_GRACIA

record BillingPeriodSpan =
  periodStart :: string
  periodEnd :: string

record BillingDueAndCutoff =
  dueDate :: string
  cutoffDate :: "string option"

text \<open>\<open>cutoffEnabled\<close> is optional: \<^const>\<open>None\<close> is \<open>undefined\<close>.\<close>

record BillingDueAndCutoffPolicyInput =
  cutoffMode :: BillingCutoffMode
  paymentTermDays :: int
  graceDays :: int
  cutoffEnabled :: "bool option"

record BillingPolicyInput = BillingDueAndCutoffPolicyInput +
  periodTiming :: BillingPeriodTiming
  generationLeadDays :: int

record BillingPreviewInput =
  bp_cycleDay :: int
  bp_cutoffDay :: "int option"
  bp_policy :: BillingPolicyInput
  bp_today :: string

record BillingPolicyPreviewItem =
  pv_periodStart :: string
  pv_periodEnd :: string
  pv_generationDate :: string
  pv_dueDate :: string
  pv_cutoffDate :: "string option"

definition BILLING_TERMINATED_LOOKBACK_DAYS :: int where
  "BILLING_TERMINATED_LOOKBACK_DAYS = 62"

section \<open>The cutoff day (billing-cutoff)\<close>

definition validateCycle :: "int \<Rightarrow> int \<Rightarrow> unit result" where
  "validateCycle cycleDay cutoffDay =
     (if cycleDay < 1 \<or> cycleDay > 28 then Inl Range_Error
      else if cutoffDay < 1 \<or> cutoffDay > 31 \<or> cutoffDay \<le> cycleDay then Inl Range_Error
      else Inr ())"

definition cutoff_daysInMonth :: "int \<Rightarrow> int \<Rightarrow> int" where
  "cutoff_daysInMonth year month =
     (if month = 2
      then if year mod 4 = 0 \<and> (year mod 100 \<noteq> 0 \<or> year mod 400 = 0) then 29 else 28
      else if month \<in> set [4, 6, 9, 11] then 30 else 31)"

definition cutoff_parseDate :: "string \<Rightarrow> civil_date result" where
  "cutoff_parseDate value =
     (case match_civil value of
        None \<Rightarrow> Inl Range_Error
      | Some (year, month, day) \<Rightarrow>
          (let actualDay = cutoff_daysInMonth year month
           in if year < 1 \<or> month < 1 \<or> month > 12 \<or> day < 1 \<or> day > actualDay
              then Inl Range_Error
              else Inr \<lparr>cd_year = year, cd_month = month, cd_day = day\<rparr>))"

definition computeCutoffDate :: "int \<Rightarrow> int \<Rightarrow> int \<Rightarrow> int \<Rightarrow> string result" where
  "computeCutoffDate cycleDay cutoffDay year month =
     res_bind (validateCycle cycleDay cutoffDay) (\<lambda>_.
       if year < 1 \<or> year > 9999 then Inl Range_Error
       else if month < 1 \<or> month > 12 then Inl Range_Error
       else (let lastDay = cutoff_daysInMonth year month
             in Inr (formatCivilDate year month (min cutoffDay lastDay))))"

definition computeNextCutoffDate :: "int \<Rightarrow> int \<Rightarrow> string \<Rightarrow> string result" where
  "computeNextCutoffDate cycleDay cutoffDay today =
     res_bind (validateCycle cycleDay cutoffDay) (\<lambda>_.
     res_bind (cutoff_parseDate today) (\<lambda>t.
     res_bind (computeCutoffDate cycleDay cutoffDay (cd_year t) (cd_month t)) (\<lambda>currentMonthCutoff.
       if js_le today currentMonthCutoff then Inr currentMonthCutoff
       else
         let year = (if cd_month t = 12 then cd_year t + 1 else cd_year t);
             month = (if cd_month t = 12 then 1 else cd_month t + 1)
         in if year > 9999 then Inl Range_Error
            else computeCutoffDate cycleDay cutoffDay year month)))"

section \<open>Periods and generation (billing-calendar)\<close>

definition computeBillingPeriod :: "int \<Rightarrow> int \<Rightarrow> int \<Rightarrow> BillingPeriodSpan result" where
  "computeBillingPeriod cycleDay year month =
     (if cycleDay < 1 \<or> cycleDay > 28 then Inl Range_Error
      else if year < 1 \<or> year > 9999 then Inl Range_Error
      else if month < 1 \<or> month > 12 then Inl Range_Error
      else
        let pstart = formatCivilDate year month cycleDay;
            nextMonth = (if month + 1 > 12 then 1 else month + 1);
            nextYear = (if month + 1 > 12 then year + 1 else year);
            pend = (if cycleDay = 1
                    then formatCivilDate year month (billing_daysInMonth year month)
                    else formatCivilDate nextYear nextMonth (cycleDay - 1))
        in Inr \<lparr>periodStart = pstart, periodEnd = pend\<rparr>)"

definition computeGenerationDate ::
  "BillingPeriodSpan \<Rightarrow> BillingPeriodTiming \<Rightarrow> int \<Rightarrow> string result" where
  "computeGenerationDate period timing leadDays =
     (if leadDays < 0 \<or> leadDays > 15 then Inl Range_Error
      else case timing of
        ANTICIPADO \<Rightarrow> addDays (periodStart period) (- leadDays)
      | VENCIDO \<Rightarrow>
          res_bind (addDays (periodEnd period) 1) (\<lambda>nextPeriodStart.
            addDays nextPeriodStart (- leadDays)))"

text \<open>One turn of the loop of \<open>resolveGenerationTarget\<close>; \<open>continue\<close> keeps the target.\<close>

definition resolve_step ::
  "int \<Rightarrow> BillingPeriodTiming \<Rightarrow> int \<Rightarrow> int \<Rightarrow> int \<Rightarrow> string \<Rightarrow> int \<Rightarrow>
    BillingPeriodSpan option \<Rightarrow> BillingPeriodSpan option result" where
  "resolve_step cycleDay timing leadDays year month today monthOffset target =
     (let absoluteMonth = year * 12 + month - 1 - monthOffset;
          periodYear = absoluteMonth div 12;
          periodMonth = absoluteMonth mod 12 + 1
      in if periodYear < 1 \<or> periodYear > 9999 then Inr target
         else
           res_bind (computeBillingPeriod cycleDay periodYear periodMonth) (\<lambda>period.
           res_bind (computeGenerationDate period timing leadDays) (\<lambda>generationDate.
             Inr (if js_le generationDate today \<and>
                     (case target of None \<Rightarrow> True
                      | Some t \<Rightarrow> js_lt (periodStart t) (periodStart period))
                  then Some period else target))))"

definition resolveGenerationTarget ::
  "int \<Rightarrow> BillingPeriodTiming \<Rightarrow> int \<Rightarrow> string \<Rightarrow> BillingPeriodSpan result" where
  "resolveGenerationTarget cycleDay timing leadDays localDate =
     res_bind (billing_parseCivilDate localDate) (\<lambda>t.
       let today = formatCivilDate (cd_year t) (cd_month t) (parse_digits (take 2 (drop 8 localDate)))
       in res_bind (res_fold (resolve_step cycleDay timing leadDays (cd_year t) (cd_month t) today)
            [-1, 0, 1, 2] None) (\<lambda>target.
            case target of None \<Rightarrow> Inl Range_Error | Some p \<Rightarrow> Inr p))"

definition computeDueAndCutoff ::
  "BillingPeriodSpan \<Rightarrow> BillingDueAndCutoffPolicyInput \<Rightarrow> string \<Rightarrow> int option \<Rightarrow>
    BillingDueAndCutoff result" where
  "computeDueAndCutoff period policy issueDate cutoffDay =
     (let enabled = (case cutoffEnabled policy of None \<Rightarrow> True | Some b \<Rightarrow> b)
      in case cutoffMode policy of
           DIA_FIJO_CICLO \<Rightarrow>
             (case cutoffDay of
                None \<Rightarrow> Inl Range_Error
              | Some cday \<Rightarrow>
                  res_bind (billing_parseCivilDate (periodStart period)) (\<lambda>startParsed.
                  res_bind (computeCutoffDate (cd_day startParsed) cday
                              (cd_year startParsed) (cd_month startParsed)) (\<lambda>rawCutoff.
                  res_bind (addDays rawCutoff (-1)) (\<lambda>due.
                    Inr \<lparr>dueDate = due, cutoffDate = (if enabled then Some rawCutoff else None)\<rparr>))))
         | VENCIMIENTO_MAS_GRACIA \<Rightarrow>
             res_bind (addDays issueDate (paymentTermDays policy)) (\<lambda>due.
               let grace = max 1 (graceDays policy)
               in if enabled
                  then res_bind (addDays due grace) (\<lambda>cut. Inr \<lparr>dueDate = due, cutoffDate = Some cut\<rparr>)
                  else Inr \<lparr>dueDate = due, cutoffDate = None\<rparr>))"

text \<open>
  The \<open>while\<close> loop of \<open>nextBillingDates\<close>: it pushes one item per turn until there are
  \<open>n\<close>, so it makes exactly \<open>n\<close> turns.
\<close>

definition next_month :: "int \<times> int \<Rightarrow> int \<times> int" where
  "next_month ym = (case ym of (year, month) \<Rightarrow>
     if month + 1 > 12 then (year + 1, 1) else (year, month + 1))"

fun next_billing_loop ::
  "int \<Rightarrow> int option \<Rightarrow> BillingPolicyInput \<Rightarrow> nat \<Rightarrow> int \<times> int \<Rightarrow>
    BillingPolicyPreviewItem list result" where
  "next_billing_loop cycleDay cutoffDay policy 0 ym = Inr []"
| "next_billing_loop cycleDay cutoffDay policy (Suc n) ym =
     res_bind (computeBillingPeriod cycleDay (fst ym) (snd ym)) (\<lambda>period.
     res_bind (computeGenerationDate period (periodTiming policy) (generationLeadDays policy))
       (\<lambda>generationDate.
     res_bind (computeDueAndCutoff period (BillingDueAndCutoffPolicyInput.truncate policy)
                 generationDate cutoffDay) (\<lambda>dc.
     res_bind (next_billing_loop cycleDay cutoffDay policy n (next_month ym)) (\<lambda>rest.
       Inr (\<lparr>pv_periodStart = periodStart period, pv_periodEnd = periodEnd period,
             pv_generationDate = generationDate, pv_dueDate = dueDate dc,
             pv_cutoffDate = cutoffDate dc\<rparr> # rest)))))"

definition nextBillingDates ::
  "BillingPreviewInput \<Rightarrow> nat \<Rightarrow> BillingPolicyPreviewItem list result" where
  "nextBillingDates input n =
     res_bind (billing_parseCivilDate (bp_today input)) (\<lambda>t.
     res_bind (computeBillingPeriod (bp_cycleDay input) (cd_year t) (cd_month t)) (\<lambda>candidatePeriod.
     res_bind (computeGenerationDate candidatePeriod (periodTiming (bp_policy input))
                 (generationLeadDays (bp_policy input))) (\<lambda>candidateGen.
       let ym = (cd_year t, cd_month t);
           ym' = (if js_lt candidateGen (bp_today input) then next_month ym else ym)
       in next_billing_loop (bp_cycleDay input) (bp_cutoffDay input) (bp_policy input) n ym')))"

section \<open>Month arithmetic\<close>

lemma cutoff_daysInMonth_eq [simp]: "cutoff_daysInMonth = daysInMonth"
  by (intro ext) (simp add: cutoff_daysInMonth_def daysInMonth_def isLeapYear_def)

lemma cutoff_parseDate_eq [simp]: "cutoff_parseDate = parseCivilDate"
  by (intro ext) (simp add: cutoff_parseDate_def parseCivilDate_def split: option.split)

definition month_first :: "int \<Rightarrow> int" where
  "month_first M = day_from_year (M div 12) + days_before (M div 12) (M mod 12 + 1)"

definition start_day :: "int \<Rightarrow> int \<Rightarrow> int" where
  "start_day cycle M = month_first M + cycle - 1"

definition start_date :: "int \<Rightarrow> int \<Rightarrow> civil_date" where
  "start_date cycle M = \<lparr>cd_year = M div 12, cd_month = M mod 12 + 1, cd_day = cycle\<rparr>"

definition gen_day :: "int \<Rightarrow> BillingPeriodTiming \<Rightarrow> int \<Rightarrow> int \<Rightarrow> int" where
  "gen_day cycle timing lead M =
     (case timing of ANTICIPADO \<Rightarrow> start_day cycle M | VENCIDO \<Rightarrow> start_day cycle (M + 1)) - lead"

definition period_of :: "int \<Rightarrow> int \<Rightarrow> BillingPeriodSpan" where
  "period_of cycle M =
     \<lparr>periodStart = day_text (start_day cycle M),
      periodEnd = day_text (start_day cycle (M + 1) - 1)\<rparr>"

lemma month_index: "0 \<le> M mod 12" "M mod 12 \<le> (11::int)"
  using pos_mod_sign [of 12 M] pos_mod_bound [of 12 M] by linarith+

lemma month_year_bounds:
  assumes "12 \<le> M" and "M < 120000"
  shows "1 \<le> M div 12 \<and> M div 12 \<le> (9999::int)"
  using assms div_bounds(1) [of 12 M] div_bounds(2) [of 12 M] by linarith

lemma month_Suc:
  "M mod 12 < 11 \<Longrightarrow> (M + 1) div 12 = M div 12 \<and> (M + 1) mod 12 = M mod 12 + (1::int)"
  "\<not> M mod 12 < 11 \<Longrightarrow>
    (M + 1) div 12 = M div 12 + 1 \<and> (M + 1) mod 12 = 0 \<and> M mod 12 = (11::int)"
proof -
  define q r where "q = M div 12" and "r = M mod 12"
  have M: "M = 12 * q + r" and r: "0 \<le> r" "r \<le> 11"
    using month_index [of M] by (simp_all add: q_def r_def)
  have "M + 1 = 12 * q + (r + 1)" using M by simp
  then have "r < 11 \<Longrightarrow> (M + 1) div 12 = q \<and> (M + 1) mod 12 = r + 1"
    using r int_div_pos_eq [of "M + 1" 12 q "r + 1"] int_mod_pos_eq [of "M + 1" 12 q "r + 1"] by simp
  then show "M mod 12 < 11 \<Longrightarrow> (M + 1) div 12 = M div 12 \<and> (M + 1) mod 12 = M mod 12 + 1"
    by (simp add: q_def r_def)
  have "r = 11 \<Longrightarrow> M + 1 = 12 * (q + 1)" using M by simp
  then have "r = 11 \<Longrightarrow> (M + 1) div 12 = q + 1 \<and> (M + 1) mod 12 = 0"
    by simp
  then show "\<not> M mod 12 < 11 \<Longrightarrow>
      (M + 1) div 12 = M div 12 + 1 \<and> (M + 1) mod 12 = 0 \<and> M mod 12 = 11"
    using r by (simp add: q_def r_def)
qed

lemma month_first_Suc:
  "month_first (M + 1) = month_first M + daysInMonth (M div 12) (M mod 12 + 1)"
proof (cases "M mod 12 < 11")
  case True
  then show ?thesis
    using month_Suc(1) [OF True] days_before_Suc [of "M mod 12 + 1" "M div 12"]
    by (simp add: month_first_def)
next
  case False
  then show ?thesis
    using month_Suc(2) [OF False] year_length_days [of "M div 12"]
    by (simp add: month_first_def)
qed

lemma month_first_bounds:
  "month_first M + 28 \<le> month_first (M + 1)" "month_first (M + 1) \<le> month_first M + 31"
  using daysInMonth_bounds [of "M div 12" "M mod 12 + 1"] by (simp_all add: month_first_Suc)

lemma start_date_valid:
  "1 \<le> cycle \<Longrightarrow> cycle \<le> 28 \<Longrightarrow> valid_date (start_date cycle M)"
  using month_index [of M] daysInMonth_bounds [of "M div 12" "M mod 12 + 1"]
  by (simp add: valid_date_def start_date_def)

lemma day_num_start_date [simp]: "day_num (start_date cycle M) = start_day cycle M"
  by (simp add: day_num_def start_date_def start_day_def month_first_def)

lemma civil_of_start_day:
  "1 \<le> cycle \<Longrightarrow> cycle \<le> 28 \<Longrightarrow> civil_of_day (start_day cycle M) = start_date cycle M"
  using civil_of_day_num [OF start_date_valid, of cycle M] by simp

lemma civil_of_month_end:
  "civil_of_day (month_first (M + 1) - 1) =
    \<lparr>cd_year = M div 12, cd_month = M mod 12 + 1, cd_day = daysInMonth (M div 12) (M mod 12 + 1)\<rparr>"
  (is "_ = ?c")
proof -
  have "valid_date ?c"
    using month_index [of M] daysInMonth_bounds [of "M div 12" "M mod 12 + 1"]
    by (simp add: valid_date_def)
  moreover have "day_num ?c = month_first (M + 1) - 1"
    by (simp add: day_num_def month_first_Suc) (simp add: month_first_def)
  ultimately show ?thesis using civil_of_day_num [of ?c] by simp
qed

lemma month_first_mono: "M \<le> M' \<Longrightarrow> month_first M + 28 * (M' - M) \<le> month_first M'"
proof (induction "nat (M' - M)" arbitrary: M')
  case (Suc n)
  then have "month_first M + 28 * (M' - 1 - M) \<le> month_first (M' - 1)"
    by (intro Suc.hyps(1)) linarith+
  then show ?case using month_first_bounds(1) [of "M' - 1"] by simp
qed simp

text \<open>The span of months in which every date the code builds stays in the text format.\<close>

lemma month_first_ends: "month_first 1200 = day_from_year 100" "month_first 120000 = day_from_year 10000"
  by (simp_all add: month_first_def)

lemma start_day_range:
  assumes "1200 \<le> M" and "M < 120000" and "1 \<le> cycle" and "cycle \<le> 28"
  shows "day_from_year 100 \<le> start_day cycle M" "start_day cycle M < day_from_year 10000"
  using assms month_first_mono [of 1200 M] month_first_mono [of "M + 1" 120000]
    month_first_bounds(1) [of M]
  by (simp_all add: start_day_def month_first_ends)

lemma computeBillingPeriod_eq:
  assumes "1 \<le> cycle" and "cycle \<le> 28" and "12 \<le> M" and "M < 120000"
  shows "computeBillingPeriod cycle (M div 12) (M mod 12 + 1) = Inr (period_of cycle M)"
proof -
  have y: "1 \<le> M div 12" "M div 12 \<le> 9999" using assms month_year_bounds [of M] by simp_all
  have s: "day_text (start_day cycle M) = formatCivilDate (M div 12) (M mod 12 + 1) cycle"
    using assms by (simp add: day_text_def civil_of_start_day start_date_def)
  have e: "day_text (start_day cycle (M + 1) - 1) =
     (if cycle = 1 then formatCivilDate (M div 12) (M mod 12 + 1) (daysInMonth (M div 12) (M mod 12 + 1))
      else formatCivilDate ((M + 1) div 12) ((M + 1) mod 12 + 1) (cycle - 1))"
  proof (cases "cycle = 1")
    case True
    then show ?thesis by (simp add: day_text_def start_day_def civil_of_month_end)
  next
    case False
    have "start_day cycle (M + 1) - 1 = start_day (cycle - 1) (M + 1)"
      by (simp add: start_day_def)
    with False assms show ?thesis by (simp add: day_text_def civil_of_start_day start_date_def)
  qed
  show ?thesis
    using assms y month_index [of M] month_Suc [of M]
    by (cases "M mod 12 < 11") (simp_all add: computeBillingPeriod_def Let_def period_of_def s e)
qed

lemma computeGenerationDate_eq:
  assumes "1 \<le> cycle" and "cycle \<le> 28" and "0 \<le> lead" and "lead \<le> 15"
    and "1200 \<le> M" and "M + 1 < 120000"
  shows "computeGenerationDate (period_of cycle M) timing lead = Inr (day_text (gen_day cycle timing lead M))"
proof -
  note r = start_day_range [of M cycle] start_day_range [of "M + 1" cycle]
  have "start_day cycle M \<le> start_day cycle (M + 1) - 1"
    using month_first_bounds(1) [of M] by (simp add: start_day_def)
  with assms r show ?thesis
    by (cases timing)
      (simp_all add: computeGenerationDate_def period_of_def addDays_day_text gen_day_def)
qed

lemma gen_day_range:
  assumes "1 \<le> cycle" and "cycle \<le> 28" and "0 \<le> lead" and "lead \<le> 15"
    and "1200 \<le> M" and "M + 1 < 120000"
  shows "day_from_year 1 \<le> gen_day cycle timing lead M" "gen_day cycle timing lead M < day_from_year 10000"
  using assms start_day_range [of M cycle] start_day_range [of "M + 1" cycle]
  by (cases timing; simp add: gen_day_def day_from_year_ends)+

lemma gen_day_less: "gen_day cycle timing lead M < gen_day cycle timing lead (M + 1)"
  using month_first_bounds(1) [of M] month_first_bounds(1) [of "M + 1"]
  by (cases timing) (simp_all add: gen_day_def start_day_def add.assoc)

lemma month_of_date:
  assumes "valid_date t" and "M = 12 * cd_year t + cd_month t - 1"
  shows "M div 12 = cd_year t" "M mod 12 = cd_month t - 1"
    "month_first M \<le> day_num t" "day_num t < month_first (M + 1)"
proof -
  have m: "0 \<le> cd_month t - 1" "cd_month t - 1 < 12" using assms by (simp_all add: valid_date_def)
  have "M = 12 * cd_year t + (cd_month t - 1)" using assms by simp
  with m show d: "M div 12 = cd_year t" "M mod 12 = cd_month t - 1"
    by (blast intro: int_div_pos_eq int_mod_pos_eq)+
  with assms show "month_first M \<le> day_num t"
    by (simp add: month_first_def day_num_def valid_date_def)
  have "month_first (M + 1) = month_first M + daysInMonth (cd_year t) (cd_month t)"
    unfolding month_first_Suc d by simp
  moreover have "month_first M = day_from_year (cd_year t) + days_before (cd_year t) (cd_month t)"
    unfolding month_first_def d by simp
  ultimately show "day_num t < month_first (M + 1)"
    using assms by (simp add: day_num_def valid_date_def)
qed

section \<open>Which period to generate\<close>

definition date_month :: "civil_date \<Rightarrow> int" where
  "date_month t = 12 * cd_year t + cd_month t - 1"

lemma start_day_mono: "M < M' \<Longrightarrow> start_day cycle M < start_day cycle M'"
  using month_first_mono [of M M'] by (simp add: start_day_def)

lemma gen_day_mono: "M < M' \<Longrightarrow> gen_day cycle timing lead M < gen_day cycle timing lead M'"
  using start_day_mono [of M M' cycle] start_day_mono [of "M + 1" "M' + 1" cycle]
  by (cases timing) (simp_all add: gen_day_def)

lemma resolve_step_eq:
  assumes "1 \<le> cycle" and "cycle \<le> 28" and "0 \<le> lead" and "lead \<le> 15"
    and "1200 \<le> M" and "M + 1 < 120000" and "y * 12 + m - 1 - off = M"
    and "day_from_year 1 \<le> n" and "n < day_from_year 10000"
  shows "resolve_step cycle timing lead y m (day_text n) off None
      = Inr (if gen_day cycle timing lead M \<le> n then Some (period_of cycle M) else None)"
    and "M < K \<Longrightarrow> K < 120000 \<Longrightarrow>
      resolve_step cycle timing lead y m (day_text n) off (Some (period_of cycle K))
      = Inr (Some (period_of cycle K))"
proof -
  have y: "1 \<le> M div 12" "M div 12 \<le> 9999" using assms month_year_bounds [of M] by simp_all
  have p: "computeBillingPeriod cycle (M div 12) (M mod 12 + 1) = Inr (period_of cycle M)"
    using assms(1,2,5,6) by (intro computeBillingPeriod_eq) simp_all
  have g: "computeGenerationDate (period_of cycle M) timing lead = Inr (day_text (gen_day cycle timing lead M))"
    using assms(1-6) by (rule computeGenerationDate_eq)
  have le: "js_le (day_text (gen_day cycle timing lead M)) (day_text n) \<longleftrightarrow> gen_day cycle timing lead M \<le> n"
    using gen_day_range [OF assms(1-6)] assms(8,9) by (rule day_text_le)
  have ny: "\<not> (M div 12 < 1 \<or> M div 12 > 9999)" using y by simp
  show "resolve_step cycle timing lead y m (day_text n) off None
      = Inr (if gen_day cycle timing lead M \<le> n then Some (period_of cycle M) else None)"
    unfolding resolve_step_def assms(7) Let_def if_not_P [OF ny] p res_bind_Inr g le by simp
  assume K: "M < K" "K < 120000"
  then have "day_from_year 1 \<le> start_day cycle M" "start_day cycle M < day_from_year 10000"
    "day_from_year 1 \<le> start_day cycle K" "start_day cycle K < day_from_year 10000"
    "start_day cycle M < start_day cycle K"
    using assms start_day_range [of M cycle] start_day_range [of K cycle] start_day_mono [of M K cycle]
    by (simp_all add: day_from_year_ends)
  then have "js_le (periodStart (period_of cycle M)) (periodStart (period_of cycle K))"
    by (simp add: period_of_def day_text_le)
  then show "resolve_step cycle timing lead y m (day_text n) off (Some (period_of cycle K))
      = Inr (Some (period_of cycle K))"
    unfolding resolve_step_def assms(7) Let_def if_not_P [OF ny] p res_bind_Inr g by simp
qed

lemma gen_day_window:
  assumes "month_first N \<le> n" and "n < month_first (N + 1)"
    and "1 \<le> cycle" and "cycle \<le> 28" and "0 \<le> lead" and "lead \<le> 15"
  shows "gen_day cycle timing lead (N - 2) \<le> n" "n < gen_day cycle timing lead (N + 2)"
proof -
  have s: "month_first (N - 2) + 28 \<le> month_first (N - 1)" "month_first (N - 1) + 28 \<le> month_first N"
    "month_first (N + 1) + 28 \<le> month_first (N + 2)" "month_first (N + 2) + 28 \<le> month_first (N + 3)"
    using month_first_mono [of "N - 2" "N - 1"] month_first_mono [of "N - 1" N]
      month_first_mono [of "N + 1" "N + 2"] month_first_mono [of "N + 2" "N + 3"] by simp_all
  have e: "N - 2 + 1 = N - 1" "N + 2 + 1 = N + 3" by simp_all
  show "gen_day cycle timing lead (N - 2) \<le> n" "n < gen_day cycle timing lead (N + 2)"
    unfolding gen_day_def start_day_def e using assms s
    by (cases timing; simp only: BillingPeriodTiming.case; linarith)+
qed

lemma today_text:
  assumes "parseCivilDate localDate = Inr t"
  shows "formatCivilDate (cd_year t) (cd_month t) (parse_digits (take 2 (drop 8 localDate))) = localDate"
    "localDate = day_text (day_num t)" "text_date t"
proof -
  note p = parse_sound [OF assms]
  have "cd_day t = parse_digits (drop 8 localDate)" "length localDate = 10"
    using assms by (auto simp: parseCivilDate_def match_civil_def split: if_splits)
  then show "formatCivilDate (cd_year t) (cd_month t) (parse_digits (take 2 (drop 8 localDate))) = localDate"
    using p(2) by simp
  show "localDate = day_text (day_num t)" "text_date t"
    using p by (simp_all add: day_text_num text_date_def)
qed

text \<open>The loop settles on the last of its four candidates whose generation date has come.\<close>

lemma resolve_loop:
  assumes c: "1 \<le> cycle" "cycle \<le> 28" and l: "0 \<le> lead" "lead \<le> 15"
    and N: "1202 \<le> y * 12 + m - 1" "y * 12 + m - 1 < 119998"
    and n: "day_from_year 1 \<le> n" "n < day_from_year 10000"
    and w: "gen_day cycle timing lead (y * 12 + m - 1 - 2) \<le> n"
      "n < gen_day cycle timing lead (y * 12 + m - 1 + 2)"
  obtains J where
    "res_fold (resolve_step cycle timing lead y m (day_text n)) [-1, 0, 1, 2] None
      = Inr (Some (period_of cycle J))"
    "gen_day cycle timing lead J \<le> n" "n < gen_day cycle timing lead (J + 1)"
    "y * 12 + m - 1 - 2 \<le> J" "J \<le> y * 12 + m - 1 + 1"
proof -
  define N where "N = y * 12 + m - 1"
  note rs = resolve_step_eq [OF c l _ _ _ n, where timing = timing and y = y and m = m]
  have off: "y * 12 + m - 1 - (-1) = N + 1" "y * 12 + m - 1 - 0 = N" "y * 12 + m - 1 - 1 = N - 1"
    "y * 12 + m - 1 - 2 = N - 2" by (simp_all add: N_def)
  have b: "1200 \<le> N + 1" "N + 1 + 1 < 120000" "1200 \<le> N" "N + 1 < 120000"
    "1200 \<le> N - 1" "N - 1 + 1 < 120000" "1200 \<le> N - 2" "N - 2 + 1 < 120000"
    using N by (simp_all add: N_def)
  let ?g = "gen_day cycle timing lead"
  let ?s = "resolve_step cycle timing lead y m (day_text n)"
  have s: "?s (-1) None = Inr (if ?g (N + 1) \<le> n then Some (period_of cycle (N + 1)) else None)"
    "?s 0 None = Inr (if ?g N \<le> n then Some (period_of cycle N) else None)"
    "?s 1 None = Inr (if ?g (N - 1) \<le> n then Some (period_of cycle (N - 1)) else None)"
    "?s 2 None = Inr (if ?g (N - 2) \<le> n then Some (period_of cycle (N - 2)) else None)"
    by (rule rs(1) [OF b(1,2) off(1)], rule rs(1) [OF b(3,4) off(2)],
        rule rs(1) [OF b(5,6) off(3)], rule rs(1) [OF b(7,8) off(4)])
  have k: "?s 0 (Some (period_of cycle K)) = Inr (Some (period_of cycle K))"
    if "N < K" "K < 120000" for K using rs(2) [OF b(3,4) off(2)] that .
  have k1: "?s 1 (Some (period_of cycle K)) = Inr (Some (period_of cycle K))"
    if "N - 1 < K" "K < 120000" for K using rs(2) [OF b(5,6) off(3)] that .
  have k2: "?s 2 (Some (period_of cycle K)) = Inr (Some (period_of cycle K))"
    if "N - 2 < K" "K < 120000" for K using rs(2) [OF b(7,8) off(4)] that .
  note w' = w [folded N_def]
  define J where "J = (if ?g (N + 1) \<le> n then N + 1 else if ?g N \<le> n then N
    else if ?g (N - 1) \<le> n then N - 1 else N - 2)"
  have "res_fold ?s [-1, 0, 1, 2] None = Inr (Some (period_of cycle J))"
    using b w'(1) by (simp add: J_def s k k1 k2)
  moreover have "?g J \<le> n" "n < ?g (J + 1)" "N - 2 \<le> J" "J \<le> N + 1"
    using w' by (simp_all add: J_def add.commute [of N 2])
  ultimately show thesis using that unfolding N_def by simp
qed

lemma resolve_target:
  assumes c: "1 \<le> cycle" "cycle \<le> 28" and l: "0 \<le> lead" "lead \<le> 15"
    and t: "parseCivilDate today = Inr t" "101 \<le> cd_year t" "cd_year t \<le> 9998"
  obtains J where "resolveGenerationTarget cycle timing lead today = Inr (period_of cycle J)"
    "gen_day cycle timing lead J \<le> day_num t" "day_num t < gen_day cycle timing lead (J + 1)"
    "date_month t - 2 \<le> J" "J \<le> date_month t + 1" "1202 \<le> date_month t" "date_month t < 119988"
proof -
  note tt = today_text [OF t(1)]
  have v: "valid_date t" "1 \<le> cd_month t" "cd_month t \<le> 12"
    using tt(3) by (simp_all add: text_date_def valid_date_def)
  have N: "date_month t = cd_year t * 12 + cd_month t - 1" by (simp add: date_month_def)
  have Nb: "1202 \<le> date_month t" "date_month t < 119988" using t v by (simp_all add: date_month_def)
  have n: "day_from_year 1 \<le> day_num t" "day_num t < day_from_year 10000"
    using tt(3) text_date_civil [of "day_num t"] v(1) by simp_all
  note mb = month_of_date(3,4) [OF v(1) date_month_def]
  note w = gen_day_window [OF mb c l, where timing = timing]
  have Nb': "cd_year t * 12 + cd_month t - 1 < 119998" using Nb(2) unfolding N by simp
  from resolve_loop [OF c l Nb(1) [unfolded N] Nb' n w [unfolded N]]
  obtain J where J: "res_fold (resolve_step cycle timing lead (cd_year t) (cd_month t)
        (day_text (day_num t))) [-1, 0, 1, 2] None = Inr (Some (period_of cycle J))"
    "gen_day cycle timing lead J \<le> day_num t" "day_num t < gen_day cycle timing lead (J + 1)"
    "date_month t - 2 \<le> J" "J \<le> date_month t + 1"
    unfolding N .
  have "resolveGenerationTarget cycle timing lead today = Inr (period_of cycle J)"
    unfolding resolveGenerationTarget_def billing_parseCivilDate_eq t(1) res_bind_Inr Let_def tt(1)
    using J(1) tt(2) by simp
  then show thesis using J Nb that by blast
qed

section \<open>Reading the month back from a computed period\<close>

lemma month_of_ym:
  assumes "1 \<le> m" and "m \<le> 12"
  shows "(12 * y + m - 1) div 12 = y" "(12 * y + m - 1) mod 12 + 1 = (m::int)"
proof -
  have "12 * y + m - 1 = 12 * y + (m - 1)" by simp
  then have "(12 * y + m - 1) div 12 = y \<and> (12 * y + m - 1) mod 12 = m - 1"
    using assms int_div_pos_eq [of "12 * y + m - 1" 12 y "m - 1"]
      int_mod_pos_eq [of "12 * y + m - 1" 12 y "m - 1"] by simp
  then show "(12 * y + m - 1) div 12 = y" "(12 * y + m - 1) mod 12 + 1 = m" by simp_all
qed

lemma next_month_eq:
  assumes "1 \<le> m" and "m \<le> 12" and "M = 12 * y + m - 1"
  shows "next_month (y, m) = ((M + 1) div 12, (M + 1) mod 12 + 1)"
  using month_of_ym [OF assms(1,2), of y] month_Suc [of M] assms
  by (cases "M mod 12 < 11") (simp_all add: next_month_def)

lemma computeBillingPeriod_month:
  assumes "computeBillingPeriod cycle y m = Inr p" and "100 \<le> y"
  obtains M where "M = 12 * y + m - 1" "y = M div 12" "m = M mod 12 + 1" "1200 \<le> M" "M < 120000"
    "1 \<le> cycle" "cycle \<le> 28" "p = period_of cycle M" "1 \<le> m" "m \<le> 12"
proof -
  define M where "M = 12 * y + m - 1"
  have g: "1 \<le> cycle" "cycle \<le> 28" "1 \<le> m" "m \<le> 12" "y \<le> 9999"
    using assms(1) by (auto simp: computeBillingPeriod_def split: if_splits)
  note d = month_of_ym [OF g(3,4), of y, folded M_def]
  have "1200 \<le> M" "M < 120000" using g assms(2) by (simp_all add: M_def)
  moreover from this have "p = period_of cycle M"
    using computeBillingPeriod_eq [of cycle M] d g assms(1) by simp
  ultimately show thesis by (rule that [OF M_def d(1) [symmetric] d(2) [symmetric] _ _ g(1,2) _ g(3,4)])
qed

section \<open>Cutoff dates of a month\<close>

definition month_days :: "int \<Rightarrow> int" where
  "month_days M = daysInMonth (M div 12) (M mod 12 + 1)"

definition cut_day :: "int \<Rightarrow> int \<Rightarrow> int" where
  "cut_day cday M = month_first M + min cday (month_days M) - 1"

lemma day_text_of_month:
  assumes "1 \<le> d" and "d \<le> month_days M"
  shows "day_text (month_first M + d - 1) = formatCivilDate (M div 12) (M mod 12 + 1) d"
proof -
  let ?c = "\<lparr>cd_year = M div 12, cd_month = M mod 12 + 1, cd_day = d\<rparr>"
  have "valid_date ?c"
    using assms month_index [of M] by (simp add: valid_date_def month_days_def)
  moreover have "day_num ?c = month_first M + d - 1" by (simp add: day_num_def month_first_def)
  ultimately show ?thesis using day_text_num [of ?c] by simp
qed

lemma month_days_bounds: "28 \<le> month_days M" "month_days M \<le> 31"
  "month_first (M + 1) = month_first M + month_days M"
  using daysInMonth_bounds [of "M div 12" "M mod 12 + 1"] month_first_Suc [of M]
  by (simp_all add: month_days_def)

lemma computeCutoffDate_month:
  assumes "1 \<le> cycle" and "cycle \<le> 28" and "cycle < cday" and "cday \<le> 31"
    and "12 \<le> M" and "M < 120000"
  shows "computeCutoffDate cycle cday (M div 12) (M mod 12 + 1) = Inr (day_text (cut_day cday M))"
proof -
  have "day_text (cut_day cday M) = formatCivilDate (M div 12) (M mod 12 + 1) (min cday (month_days M))"
    unfolding cut_day_def using assms month_days_bounds [of M] by (intro day_text_of_month) simp_all
  then show ?thesis
    using assms month_index [of M] month_year_bounds [of M]
    by (simp add: computeCutoffDate_def validateCycle_def month_days_def Let_def)
qed

lemma cut_day_in_month:
  assumes "1 \<le> cday"
  shows "month_first M \<le> cut_day cday M" "cut_day cday M < month_first (M + 1)"
  using assms month_days_bounds [of M] by (simp_all add: cut_day_def)

lemma cut_day_mono: "1 \<le> cday \<Longrightarrow> M < K \<Longrightarrow> cut_day cday M < cut_day cday K"
  using cut_day_in_month [of cday M] cut_day_in_month [of cday K] month_first_mono [of "M + 1" K]
  by simp

lemma month_first_range:
  assumes "12 \<le> M" and "M < 120000"
  shows "day_from_year 1 \<le> month_first M" "month_first (M + 1) \<le> day_from_year 10000"
  using assms month_first_mono [of 12 M] month_first_mono [of "M + 1" 120000] month_first_ends(2)
  by (simp_all add: month_first_def [of 12])

lemma computeCutoffDate_Inr:
  assumes "computeCutoffDate cycle cday y m = Inr s"
  obtains M where "M = 12 * y + m - 1" "y = M div 12" "m = M mod 12 + 1" "12 \<le> M" "M < 120000"
    "1 \<le> cycle" "cycle \<le> 28" "cycle < cday" "cday \<le> 31" "s = day_text (cut_day cday M)"
proof -
  define M where "M = 12 * y + m - 1"
  have g: "1 \<le> cycle" "cycle \<le> 28" "cycle < cday" "cday \<le> 31" "1 \<le> m" "m \<le> 12" "1 \<le> y" "y \<le> 9999"
    using assms by (auto simp: computeCutoffDate_def validateCycle_def split: if_splits)
  note d = month_of_ym [OF g(5,6), of y, folded M_def]
  have M: "12 \<le> M" "M < 120000" using g by (simp_all add: M_def)
  have "s = day_text (cut_day cday M)"
    using computeCutoffDate_month [OF g(1-4) M] assms unfolding d by simp
  then show thesis by (rule that [OF M_def d(1) [symmetric] d(2) [symmetric] M g(1-4)])
qed

section \<open>Due dates and the preview\<close>

lemma parse_period_start:
  assumes "1200 \<le> M" and "M < 120000" and "1 \<le> cycle" and "cycle \<le> 28"
  shows "parseCivilDate (periodStart (period_of cycle M)) = Inr (start_date cycle M)"
  using start_day_range [OF assms] assms
  by (simp add: period_of_def parse_day_text civil_of_start_day day_from_year_ends)

text \<open>What a computed pair of dates is, in each mode, and when there is one.\<close>

lemma computeDueAndCutoff_fixed:
  assumes "1200 \<le> M" and "M < 120000" and "1 \<le> cycle" and "cycle \<le> 28"
    and "cycle < cday" and "cday \<le> 31" and "cutoffMode pol = DIA_FIJO_CICLO"
  shows "computeDueAndCutoff (period_of cycle M) pol issue (Some cday) =
    Inr \<lparr>dueDate = day_text (cut_day cday M - 1),
         cutoffDate = (if cutoffEnabled pol \<noteq> Some False then Some (day_text (cut_day cday M)) else None)\<rparr>"
proof -
  have r: "day_from_year 100 \<le> cut_day cday M" "cut_day cday M < day_from_year 10000"
    using cut_day_in_month [of cday M] assms month_first_mono [of 1200 M]
      month_first_range(2) [of M] by (simp_all add: month_first_ends)
  have c: "computeCutoffDate cycle cday (M div 12) (M mod 12 + 1) = Inr (day_text (cut_day cday M))"
    using assms by (intro computeCutoffDate_month) simp_all
  show ?thesis
    using assms(7) parse_period_start [OF assms(1-4)] c addDays_day_text [OF r, of "-1"]
    by (simp add: computeDueAndCutoff_def start_date_def split: option.split)
qed

lemma computeDueAndCutoff_grace:
  assumes "day_from_year 100 \<le> n" and "n + 365 < day_from_year 10000"
    and "0 \<le> paymentTermDays pol" and "paymentTermDays pol \<le> 365"
    and "cutoffMode pol = VENCIMIENTO_MAS_GRACIA"
  shows "computeDueAndCutoff p pol (day_text n) cd =
    Inr \<lparr>dueDate = day_text (n + paymentTermDays pol),
         cutoffDate = (if cutoffEnabled pol \<noteq> Some False
           then Some (day_text (n + paymentTermDays pol + max 1 (graceDays pol))) else None)\<rparr>"
proof -
  have "addDays (day_text n) (paymentTermDays pol) = Inr (day_text (n + paymentTermDays pol))"
    "addDays (day_text (n + paymentTermDays pol)) (max 1 (graceDays pol))
      = Inr (day_text (n + paymentTermDays pol + max 1 (graceDays pol)))"
    using assms by (simp_all add: addDays_day_text)
  then show ?thesis
    using assms(5) by (simp add: computeDueAndCutoff_def Let_def split: option.split)
qed

definition due_policy_ok :: "'a BillingDueAndCutoffPolicyInput_scheme \<Rightarrow> int \<Rightarrow> int option \<Rightarrow> bool" where
  "due_policy_ok pol cycle cd \<longleftrightarrow>
     (case cutoffMode pol of
        DIA_FIJO_CICLO \<Rightarrow> (case cd of None \<Rightarrow> False | Some d \<Rightarrow> cycle < d \<and> d \<le> 31)
      | VENCIMIENTO_MAS_GRACIA \<Rightarrow> 0 \<le> paymentTermDays pol \<and> paymentTermDays pol \<le> 365
          \<and> graceDays pol \<le> 365)"

lemma preview_loop:
  assumes "1 \<le> cycle" and "cycle \<le> 28" and "0 \<le> generationLeadDays pol" and "generationLeadDays pol \<le> 15"
    and "due_policy_ok pol cycle cd" and "1201 \<le> M" and "M + int n < 119980"
  shows "\<exists>xs. next_billing_loop cycle cd pol n (M div 12, M mod 12 + 1) = Inr xs \<and> length xs = n \<and>
    (\<forall>i<n. pv_periodStart (xs ! i) = periodStart (period_of cycle (M + int i)) \<and>
      pv_periodEnd (xs ! i) = periodEnd (period_of cycle (M + int i)) \<and>
      pv_generationDate (xs ! i)
        = day_text (gen_day cycle (periodTiming pol) (generationLeadDays pol) (M + int i)))"
  using assms(6,7)
proof (induction n arbitrary: M)
  case 0
  then show ?case by simp
next
  case (Suc n)
  let ?g = "gen_day cycle (periodTiming pol) (generationLeadDays pol) M"
  let ?pol = "BillingDueAndCutoffPolicyInput.truncate pol"
  have M: "1200 \<le> M" "M < 120000" "M + 1 < 120000" using Suc.prems by simp_all
  have p: "computeBillingPeriod cycle (M div 12) (M mod 12 + 1) = Inr (period_of cycle M)"
    using assms(1,2) M by (intro computeBillingPeriod_eq) simp_all
  have g: "computeGenerationDate (period_of cycle M) (periodTiming pol) (generationLeadDays pol)
      = Inr (day_text ?g)"
    using assms(1-4) M by (intro computeGenerationDate_eq) simp_all
  have "month_first 1200 + 28 \<le> month_first M" "month_first M + 448 \<le> month_first 120000"
      "month_first (M + 1) \<le> month_first M + 31"
    using month_first_mono [of 1200 M] month_first_mono [of M 120000] month_first_bounds [of M]
      Suc.prems by simp_all
  then have gr: "day_from_year 100 \<le> ?g" "?g + 365 < day_from_year 10000"
    using assms(1-4) month_first_bounds(1) [of M] unfolding month_first_ends gen_day_def start_day_def
    by (cases "periodTiming pol"; simp only: BillingPeriodTiming.case; linarith)+
  have "\<exists>dc. computeDueAndCutoff (period_of cycle M) ?pol (day_text ?g) cd = Inr dc"
    using assms(1,2,5) M computeDueAndCutoff_fixed [of M cycle _ ?pol]
      computeDueAndCutoff_grace [OF gr, of ?pol]
    by (cases "cutoffMode pol"; cases cd)
      (auto simp: due_policy_ok_def BillingDueAndCutoffPolicyInput.truncate_def)
  then obtain dc where dc: "computeDueAndCutoff (period_of cycle M) ?pol (day_text ?g) cd = Inr dc" by blast
  have nm: "next_month (M div 12, M mod 12 + 1) = ((M + 1) div 12, (M + 1) mod 12 + 1)"
    using month_index [of M] by (intro next_month_eq) (simp_all add: mult_div_mod_eq)
  have "1201 \<le> M + 1" "M + 1 + int n < 119980" using Suc.prems by simp_all
  from Suc.IH [OF this] obtain xs where
    xs: "next_billing_loop cycle cd pol n ((M + 1) div 12, (M + 1) mod 12 + 1) = Inr xs" "length xs = n"
      "\<forall>i<n. pv_periodStart (xs ! i) = periodStart (period_of cycle (M + 1 + int i)) \<and>
      pv_periodEnd (xs ! i) = periodEnd (period_of cycle (M + 1 + int i)) \<and>
      pv_generationDate (xs ! i)
        = day_text (gen_day cycle (periodTiming pol) (generationLeadDays pol) (M + 1 + int i))" by blast
  let ?x = "\<lparr>pv_periodStart = periodStart (period_of cycle M), pv_periodEnd = periodEnd (period_of cycle M),
             pv_generationDate = day_text ?g, pv_dueDate = dueDate dc, pv_cutoffDate = cutoffDate dc\<rparr>"
  have "next_billing_loop cycle cd pol (Suc n) (M div 12, M mod 12 + 1) = Inr (?x # xs)"
    by (simp only: next_billing_loop.simps fst_conv snd_conv p g res_bind_Inr dc nm xs(1))
  moreover have "pv_periodStart ((?x # xs) ! i) = periodStart (period_of cycle (M + int i)) \<and>
      pv_periodEnd ((?x # xs) ! i) = periodEnd (period_of cycle (M + int i)) \<and>
      pv_generationDate ((?x # xs) ! i)
        = day_text (gen_day cycle (periodTiming pol) (generationLeadDays pol) (M + int i))"
    if "i < Suc n" for i
  proof (cases i)
    case (Suc j)
    have "M + int (Suc j) = M + 1 + int j" by simp
    with Suc that xs(3) show ?thesis by (simp only: nth_Cons_Suc Suc_less_eq)
  qed simp
  ultimately show ?case using xs(2) by (intro exI [of _ "?x # xs"]) simp
qed

section \<open>Properties\<close>

text \<open>
  Billing periods tile the calendar: the day after the end of a month's period is the
  start of the next month's, so no day is billed twice or left out, and a period has
  between 28 and 31 days.
\<close>

lemma billing_periods_tile:
  assumes "computeBillingPeriod cycle y m = Inr p" and "next_month (y, m) = (y', m')"
    and "computeBillingPeriod cycle y' m' = Inr p'" and "100 \<le> y"
  shows "addDays (periodEnd p) 1 = Inr (periodStart p') \<and>
    (\<exists>k. diffInDays (periodStart p) (periodEnd p) = Inr k \<and> 27 \<le> k \<and> k \<le> 30)"
proof
  from computeBillingPeriod_month [OF assms(1,4)] obtain M where
    M: "M = 12 * y + m - 1" "1200 \<le> M" "M < 120000" and c: "1 \<le> cycle" "cycle \<le> 28"
    and p: "p = period_of cycle M" and m: "1 \<le> m" "m \<le> 12" by metis
  have n: "y' = (M + 1) div 12" "m' = (M + 1) mod 12 + 1"
    using next_month_eq [OF m M(1)] assms(2) by simp_all
  have "100 \<le> y'" using assms(2,4) by (auto simp: next_month_def split: if_splits)
  from computeBillingPeriod_month [OF assms(3) this] obtain M' where
    M': "y' = M' div 12" "m' = M' mod 12 + 1" "M' < 120000" and p': "p' = period_of cycle M'" by metis
  have "M + 1 = M'"
    using M'(1,2) n mult_div_mod_eq [of 12 M'] mult_div_mod_eq [of 12 "M + 1"] by linarith
  note r = start_day_range [OF M(2,3) c] and
    r' = start_day_range [of "M + 1", OF _ _ c]
  have b: "start_day cycle M + 28 \<le> start_day cycle (M + 1)"
    "start_day cycle (M + 1) \<le> start_day cycle M + 31"
    using month_first_bounds [of M] by (simp_all add: start_day_def)
  have e: "day_from_year 100 \<le> start_day cycle (M + 1) - 1"
    "start_day cycle (M + 1) - 1 < day_from_year 10000"
    using b r r' \<open>M + 1 = M'\<close> M' M by simp_all
  show "addDays (periodEnd p) 1 = Inr (periodStart p')"
    unfolding p p' \<open>M + 1 = M'\<close> [symmetric] using addDays_day_text [OF e, of 1]
    by (simp add: period_of_def)
  show "\<exists>k. diffInDays (periodStart p) (periodEnd p) = Inr k \<and> 27 \<le> k \<and> k \<le> 30"
    unfolding p using diffInDays_day_text [OF r e] b by (simp add: period_of_def)
qed

text \<open>
  C20. The period that the generation job picks is the last one due: it is the period of
  some month, its generation date is not after today, the generation date of the
  following period is, and it starts at most \<open>BILLING_TERMINATED_LOOKBACK_DAYS\<close> days
  before today, the window in which the CRM is asked for contracts. It always finds one.
\<close>

theorem resolveGenerationTarget_latest:
  assumes "1 \<le> cycle" and "cycle \<le> 28" and "0 \<le> lead" and "lead \<le> 15"
    and "parseCivilDate today = Inr t" and "101 \<le> cd_year t" and "cd_year t \<le> 9998"
  shows "\<exists>y m p g p' g' k. resolveGenerationTarget cycle timing lead today = Inr p \<and>
    computeBillingPeriod cycle y m = Inr p \<and>
    computeGenerationDate p timing lead = Inr g \<and> js_le g today \<and>
    computeBillingPeriod cycle (fst (next_month (y, m))) (snd (next_month (y, m))) = Inr p' \<and>
    computeGenerationDate p' timing lead = Inr g' \<and> js_lt today g' \<and>
    diffInDays (periodStart p) today = Inr k \<and> k \<le> BILLING_TERMINATED_LOOKBACK_DAYS"
proof -
  from resolve_target [OF assms] obtain J where
    r: "resolveGenerationTarget cycle timing lead today = Inr (period_of cycle J)"
    and g: "gen_day cycle timing lead J \<le> day_num t" "day_num t < gen_day cycle timing lead (J + 1)"
    and J: "date_month t - 2 \<le> J" "J \<le> date_month t + 1"
    and N: "1202 \<le> date_month t" "date_month t < 119988" by metis
  have c: "1200 \<le> J" "J + 1 < 120000" "1200 \<le> J + 1" using J N by simp_all
  note tt = today_text [OF assms(5)]
  have v: "valid_date t" using tt(3) by (simp add: text_date_def)
  have n: "day_from_year 1 \<le> day_num t" "day_num t < day_from_year 10000"
    using tt(3) text_date_civil [of "day_num t"] v by simp_all
  let ?y = "J div 12" and ?m = "J mod 12 + 1"
  have nm: "next_month (?y, ?m) = ((J + 1) div 12, (J + 1) mod 12 + 1)"
    using month_index [of J] by (intro next_month_eq) (simp_all add: mult_div_mod_eq)
  have J1: "J + 1 + 1 < 120000" using J N by simp
  have p: "computeBillingPeriod cycle ?y ?m = Inr (period_of cycle J)"
    "computeBillingPeriod cycle ((J + 1) div 12) ((J + 1) mod 12 + 1) = Inr (period_of cycle (J + 1))"
    using assms(1,2) c J1 by (intro computeBillingPeriod_eq; simp)+
  have gd: "computeGenerationDate (period_of cycle J) timing lead = Inr (day_text (gen_day cycle timing lead J))"
    "computeGenerationDate (period_of cycle (J + 1)) timing lead
      = Inr (day_text (gen_day cycle timing lead (J + 1)))"
    using assms(1-4) c J1 by (intro computeGenerationDate_eq; simp)+
  have le: "js_le (day_text (gen_day cycle timing lead J)) today"
    "\<not> js_le (day_text (gen_day cycle timing lead (J + 1))) today"
    unfolding tt(2) using g n gen_day_range [OF assms(1-4) c(1,2), of timing]
      gen_day_range [OF assms(1-4) c(3) J1, of timing] by (simp_all add: day_text_le)
  have "day_from_year 100 \<le> day_num t"
    using day_in_year(1) [OF v] day_from_year_mono [of 100 "cd_year t"] assms(6) by simp
  then have d: "diffInDays (periodStart (period_of cycle J)) today = Inr (day_num t - start_day cycle J)"
    unfolding tt(2) period_of_def using c n(2) start_day_range [of J cycle] assms(1,2)
    by (simp add: diffInDays_day_text)
  have k: "day_num t - start_day cycle J \<le> BILLING_TERMINATED_LOOKBACK_DAYS"
    using g(2) assms(3) month_first_bounds(2) [of J] month_first_bounds(2) [of "J + 1"]
    by (cases timing) (simp_all add: gen_day_def start_day_def BILLING_TERMINATED_LOOKBACK_DAYS_def)
  show ?thesis
    by (rule exI [of _ ?y], rule exI [of _ ?m], rule exI [of _ "period_of cycle J"],
        rule exI [of _ "day_text (gen_day cycle timing lead J)"],
        rule exI [of _ "period_of cycle (J + 1)"],
        rule exI [of _ "day_text (gen_day cycle timing lead (J + 1))"],
        rule exI [of _ "day_num t - start_day cycle J"])
      (simp only: nm fst_conv snd_conv r p gd le d k simp_thms)
qed

theorem resolveGenerationTarget_latest_witness:
  "\<exists>y m p g p' g' k. resolveGenerationTarget 15 ANTICIPADO 10 ''2026-01-07'' = Inr p \<and>
    computeBillingPeriod 15 y m = Inr p \<and>
    computeGenerationDate p ANTICIPADO 10 = Inr g \<and> js_le g ''2026-01-07'' \<and>
    computeBillingPeriod 15 (fst (next_month (y, m))) (snd (next_month (y, m))) = Inr p' \<and>
    computeGenerationDate p' ANTICIPADO 10 = Inr g' \<and> js_lt ''2026-01-07'' g' \<and>
    diffInDays (periodStart p) ''2026-01-07'' = Inr k \<and> k \<le> BILLING_TERMINATED_LOOKBACK_DAYS"
  by (rule resolveGenerationTarget_latest [of _ _ _ "\<lparr>cd_year = 2026, cd_month = 1, cd_day = 7\<rparr>"])
    code_simp+

text \<open>
  The next cutoff date is the first one not before today: it exists for every valid
  cycle and date up to November 9999, is not before today, is the cutoff of some month, and no
  month has an earlier cutoff that is not before today. It falls on the last day of a
  month shorter than the cutoff day.
\<close>

lemma computeNextCutoffDate_least:
  assumes "1 \<le> cycle" and "cycle \<le> 28" and "cycle < cday" and "cday \<le> 31"
    and "parseCivilDate today = Inr t" and "12 * cd_year t + cd_month t < 120000"
  shows "\<exists>r y m. computeNextCutoffDate cycle cday today = Inr r \<and> js_le today r \<and>
    computeCutoffDate cycle cday y m = Inr r \<and>
    (\<forall>y' m' s. computeCutoffDate cycle cday y' m' = Inr s \<and> js_le today s \<longrightarrow> js_le r s)"
proof -
  define N where "N = 12 * cd_year t + cd_month t - 1"
  note tt = today_text [OF assms(5)]
  have v: "valid_date t" "1 \<le> cd_month t" "cd_month t \<le> 12" "1 \<le> cd_year t"
    using tt(3) by (simp_all add: text_date_def valid_date_def)
  have N: "12 \<le> N" "N + 1 < 120000" "N < 120000" using v assms(6) by (simp_all add: N_def)
  note mb = month_of_date [OF v(1) N_def]
  have c1: "1 \<le> cday" using assms by simp
  define M where "M = (if day_num t \<le> cut_day cday N then N else N + 1)"
  have M: "12 \<le> M" "M < 120000" using N by (simp_all add: M_def)
  have rng: "day_from_year 1 \<le> cut_day cday K \<and> cut_day cday K < day_from_year 10000"
    if "12 \<le> K" "K < 120000" for K
    using month_first_range [OF that] cut_day_in_month [OF c1, of K] by linarith
  have n: "day_from_year 1 \<le> day_num t" "day_num t < day_from_year 10000"
    using mb(3,4) month_first_range [OF N(1,3)] by linarith+
  note cm = computeCutoffDate_month [OF assms(1-4)]
  have ym: "N div 12 = cd_year t" "N mod 12 + 1 = cd_month t" using mb by simp_all
  have nx: "(N + 1) div 12 = (if cd_month t = 12 then cd_year t + 1 else cd_year t)"
    "(N + 1) mod 12 + 1 = (if cd_month t = 12 then 1 else cd_month t + 1)"
    using next_month_eq [OF v(2,3) N_def] v(3) by (auto simp: next_month_def split: if_splits)
  have y9: "\<not> (if cd_month t = 12 then cd_year t + 1 else cd_year t) > 9999"
    using month_year_bounds [of "N + 1"] N unfolding nx by simp
  have le: "js_le today (day_text (cut_day cday K)) \<longleftrightarrow> day_num t \<le> cut_day cday K"
    if "12 \<le> K" "K < 120000" for K
    unfolding tt(2) using n rng [OF that] by (simp add: day_text_le)
  have r: "computeNextCutoffDate cycle cday today = Inr (day_text (cut_day cday M))"
    using assms(1-4) cm [OF N(1,3)] cm [of "N + 1"] N le [OF N(1,3)] y9
    unfolding computeNextCutoffDate_def cutoff_parseDate_eq assms(5) res_bind_Inr nx ym Let_def
    by (simp add: validateCycle_def M_def)
  have "cut_day cday N < day_num t \<Longrightarrow> day_num t \<le> cut_day cday (N + 1)"
    using mb(4) cut_day_in_month [OF c1, of "N + 1"] by simp
  then have today: "day_num t \<le> cut_day cday M" by (simp add: M_def)
  have least: "js_le (day_text (cut_day cday M)) s"
    if "computeCutoffDate cycle cday y' m' = Inr s" "js_le today s" for y' m' s
  proof -
    from that(1) obtain K where K: "12 \<le> K" "K < 120000" "s = day_text (cut_day cday K)"
      by (rule computeCutoffDate_Inr)
    have dk: "day_num t \<le> cut_day cday K" using le [OF K(1,2)] that(2) K(3) by simp
    have "M \<le> K"
    proof (rule ccontr)
      assume "\<not> M \<le> K"
      then have "K \<le> N \<and> (K < N \<or> \<not> day_num t \<le> cut_day cday N)" by (auto simp: M_def split: if_splits)
      then show False
        using dk cut_day_in_month [OF c1, of K] month_first_mono [of "K + 1" N] mb(3)
        by (cases "K = N") auto
    qed
    then have "cut_day cday M \<le> cut_day cday K" using cut_day_mono [OF c1, of M K] by (cases "M = K") auto
    then show ?thesis using rng [OF M] rng [OF K(1,2)] K(3) by (simp add: day_text_le)
  qed
  show ?thesis
    using r le [OF M] today cm [OF M] least by blast
qed

text \<open>
  An invoice is due before its contract is cut off: whenever a due date and a cutoff
  date are computed for a period, by either cutoff mode, the due date is at least one day
  earlier than the cutoff date, and with a fixed cutoff day it is the day before.
\<close>

lemma due_before_cutoff:
  assumes "computeBillingPeriod cycle y m = Inr p" and "101 \<le> y" and "y \<le> 9990"
    and "computeGenerationDate p timing lead = Inr issue"
    and "due_policy_ok pol cycle cday" and "cutoffEnabled pol \<noteq> Some False"
  shows "\<exists>due cutoff k. computeDueAndCutoff p pol issue cday = Inr \<lparr>dueDate = due, cutoffDate = Some cutoff\<rparr>
    \<and> diffInDays due cutoff = Inr k \<and> 1 \<le> k \<and> (cutoffMode pol = DIA_FIJO_CICLO \<longrightarrow> k = 1)
    \<and> (cutoffMode pol = VENCIMIENTO_MAS_GRACIA \<longrightarrow> k = max 1 (graceDays pol))"
proof -
  from assms(2) have "100 \<le> y" by simp
  from computeBillingPeriod_month [OF assms(1) this] obtain M where
    M0: "M = 12 * y + m - 1" and M: "1200 \<le> M" "M < 120000" and c: "1 \<le> cycle" "cycle \<le> 28"
    and p: "p = period_of cycle M" and m: "1 \<le> m" "m \<le> 12" by metis
  have M': "1212 \<le> M" "M + 108 < 120000" using M0 m assms(2,3) by simp_all
  have lead: "0 \<le> lead" "lead \<le> 15" using assms(4) by (auto simp: computeGenerationDate_def split: if_splits)
  have mf: "day_from_year 100 + 336 \<le> month_first M" "month_first (M + 1) + 2996 \<le> day_from_year 10000"
      "month_first M \<le> month_first (M + 1)"
    using month_first_mono [of 1200 M] month_first_mono [of "M + 1" 120000] month_first_bounds [of M] M'
    by (simp_all add: month_first_ends)
  show ?thesis
  proof (cases "cutoffMode pol")
    case DIA_FIJO_CICLO
    then obtain d where d: "cday = Some d" "cycle < d" "d \<le> 31"
      using assms(5) by (auto simp: due_policy_ok_def split: option.splits)
    have r: "day_from_year 100 \<le> cut_day d M - 1" "cut_day d M < day_from_year 10000"
      using cut_day_in_month [of d M] d c mf by simp_all
    then have "diffInDays (day_text (cut_day d M - 1)) (day_text (cut_day d M)) = Inr 1"
      by (simp add: diffInDays_day_text)
    then show ?thesis
      using computeDueAndCutoff_fixed [OF M c d(2,3) DIA_FIJO_CICLO] DIA_FIJO_CICLO assms(6) d(1) p by simp
  next
    case VENCIMIENTO_MAS_GRACIA
    let ?g = "gen_day cycle timing lead M"
    have g: "issue = day_text ?g"
      using computeGenerationDate_eq [OF c lead, of M timing] M M' assms(4) p by simp
    have r: "day_from_year 100 \<le> ?g" "?g + 730 < day_from_year 10000"
      using mf c lead unfolding gen_day_def start_day_def
      by (cases timing; simp only: BillingPeriodTiming.case; linarith)+
    have pol: "0 \<le> paymentTermDays pol" "paymentTermDays pol \<le> 365" "graceDays pol \<le> 365"
      using assms(5) VENCIMIENTO_MAS_GRACIA by (simp_all add: due_policy_ok_def)
    let ?due = "?g + paymentTermDays pol" let ?k = "max 1 (graceDays pol)"
    have "diffInDays (day_text ?due) (day_text (?due + ?k)) = Inr ?k"
      using r pol by (simp add: diffInDays_day_text)
    moreover have "computeDueAndCutoff p pol issue cday
        = Inr \<lparr>dueDate = day_text ?due, cutoffDate = Some (day_text (?due + ?k))\<rparr>"
      using computeDueAndCutoff_grace [OF r(1) _ pol(1,2) VENCIMIENTO_MAS_GRACIA, of p cday] r(2) assms(6) g
      by simp
    ultimately show ?thesis using VENCIMIENTO_MAS_GRACIA by simp
  qed
qed

text \<open>
  The billing preview lists exactly \<open>n\<close> periods, each starting the day after the
  previous one ends, with strictly increasing generation dates, and when billing is in
  arrears (\<open>VENCIDO\<close>) or the lead is shorter than the cycle day, none of them is
  generated before today.
\<close>

lemma nextBillingDates_upcoming:
  assumes "1 \<le> bp_cycleDay i" and "bp_cycleDay i \<le> 28"
    and "0 \<le> generationLeadDays (bp_policy i)" and "generationLeadDays (bp_policy i) \<le> 15"
    and "due_policy_ok (bp_policy i) (bp_cycleDay i) (bp_cutoffDay i)"
    and "parseCivilDate (bp_today i) = Inr t" and "101 \<le> cd_year t" and "cd_year t + int n < 9990"
  shows "\<exists>xs. nextBillingDates i n = Inr xs \<and> length xs = n \<and>
    (\<forall>k. Suc k < n \<longrightarrow> addDays (pv_periodEnd (xs ! k)) 1 = Inr (pv_periodStart (xs ! Suc k)) \<and>
      js_lt (pv_generationDate (xs ! k)) (pv_generationDate (xs ! Suc k))) \<and>
    (periodTiming (bp_policy i) = VENCIDO \<or> generationLeadDays (bp_policy i) < bp_cycleDay i \<longrightarrow>
      (\<forall>k<n. js_le (bp_today i) (pv_generationDate (xs ! k))))"
proof -
  let ?c = "bp_cycleDay i" and ?pol = "bp_policy i"
  let ?l = "generationLeadDays ?pol" and ?t = "periodTiming ?pol"
  note tt = today_text [OF assms(6)]
  have v: "valid_date t" "1 \<le> cd_month t" "cd_month t \<le> 12" using tt(3) by (simp_all add: text_date_def valid_date_def)
  define N where "N = 12 * cd_year t + cd_month t - 1"
  note mb = month_of_date [OF v(1) N_def]
  have N: "1212 \<le> N" "N + int n < 119892" using v assms(7,8) by (simp_all add: N_def)
  have n: "day_from_year 1 \<le> day_num t" "day_num t < day_from_year 10000"
    using tt(3) text_date_civil [of "day_num t"] v by simp_all
  let ?g = "gen_day ?c ?t ?l"
  define M where "M = (if ?g N < day_num t then N + 1 else N)"
  have M: "1201 \<le> M" "M + int n < 119980" "N \<le> M" using N by (simp_all add: M_def)
  have ym: "N div 12 = cd_year t" "N mod 12 + 1 = cd_month t" using mb by simp_all
  have p: "computeBillingPeriod ?c (cd_year t) (cd_month t) = Inr (period_of ?c N)"
    using computeBillingPeriod_eq [of ?c N] assms(1,2) N unfolding ym by simp
  have g: "computeGenerationDate (period_of ?c N) ?t ?l = Inr (day_text (?g N))"
    using assms(1-4) N by (intro computeGenerationDate_eq) simp_all
  have gr: "day_from_year 1 \<le> ?g K" "?g K < day_from_year 10000" if "1200 \<le> K" "K < 119980" for K
    using gen_day_range [OF assms(1-4), of K ?t] that by simp_all
  have le: "js_le (day_text (day_num t)) (day_text (?g K)) \<longleftrightarrow> day_num t \<le> ?g K"
    if "1200 \<le> K" "K < 119980" for K
    using n gr [OF that] by (simp add: day_text_le)
  have st: "(if js_lt (day_text (?g N)) (bp_today i) then next_month (cd_year t, cd_month t)
      else (cd_year t, cd_month t)) = (M div 12, M mod 12 + 1)"
    using le [of N] N next_month_eq [OF v(2,3) N_def] ym unfolding tt(2) by (simp add: M_def)
  from preview_loop [OF assms(1-5) M(1,2)] obtain xs where
    xs: "next_billing_loop ?c (bp_cutoffDay i) ?pol n (M div 12, M mod 12 + 1) = Inr xs" "length xs = n"
    and x: "\<And>k. k < n \<Longrightarrow> pv_periodStart (xs ! k) = periodStart (period_of ?c (M + int k)) \<and>
      pv_periodEnd (xs ! k) = periodEnd (period_of ?c (M + int k)) \<and>
      pv_generationDate (xs ! k) = day_text (?g (M + int k))" by blast
  have r: "nextBillingDates i n = Inr xs"
    unfolding nextBillingDates_def billing_parseCivilDate_eq assms(6) res_bind_Inr p g Let_def st
    by (rule xs(1))
  have tile: "addDays (pv_periodEnd (xs ! k)) 1 = Inr (pv_periodStart (xs ! Suc k)) \<and>
      js_lt (pv_generationDate (xs ! k)) (pv_generationDate (xs ! Suc k))" if k: "Suc k < n" for k
  proof -
    let ?K = "M + int k"
    have K: "1201 \<le> ?K" "?K + 1 < 119980" using k M by simp_all
    have e: "M + int (Suc k) = ?K + 1" by simp
    have "start_day ?c ?K < start_day ?c (?K + 1)" by (rule start_day_mono) simp
    then have "day_from_year 100 \<le> start_day ?c (?K + 1) - 1" "start_day ?c (?K + 1) - 1 < day_from_year 10000"
      using start_day_range [of ?K ?c] start_day_range [of "?K + 1" ?c] K assms(1,2) by simp_all
    from addDays_day_text [OF this, of 1]
    have a: "addDays (pv_periodEnd (xs ! k)) 1 = Inr (pv_periodStart (xs ! Suc k))"
      using x [of k] x [of "Suc k"] k unfolding e by (simp add: period_of_def)
    have "?g ?K < ?g (?K + 1)" by (rule gen_day_less)
    then have "\<not> js_le (day_text (?g (?K + 1))) (day_text (?g ?K))"
      using gr [of ?K] gr [of "?K + 1"] K by (simp add: day_text_le)
    then show ?thesis using a x [of k] x [of "Suc k"] k unfolding e by simp
  qed
  have up: "js_le (bp_today i) (pv_generationDate (xs ! k))"
    if c: "?t = VENCIDO \<or> ?l < ?c" and k: "k < n" for k
  proof -
    have "month_first (N + 1) + 28 \<le> month_first (N + 2)" using month_first_mono [of "N + 1" "N + 2"] by simp
    moreover have "N + 1 + 1 = N + 2" by simp
    ultimately have "day_num t \<le> ?g (N + 1)" using c mb(4) assms(1-4)
      by (cases ?t) (simp_all only: gen_day_def start_day_def BillingPeriodTiming.case, auto)
    then have "day_num t \<le> ?g M" by (simp add: M_def)
    also have "?g M \<le> ?g (M + int k)" using gen_day_mono [of M "M + int k" ?c ?t ?l] by (cases "k = 0") auto
    finally show ?thesis using x [OF k] le [of "M + int k"] k M unfolding tt(2) by simp
  qed
  show ?thesis using r xs(2) tile up by blast
qed

text \<open>
  With billing in advance and a lead as long as the cycle day the preview breaks its
  own rule (only generation dates from today on): the code skips one month at most, and on
  25 January, with cycle day 1 and a lead of 15 days, the first item is generated on 17 January.
\<close>

lemma nextBillingDates_past_item:
  "nextBillingDates \<lparr>bp_cycleDay = 1, bp_cutoffDay = None,
      bp_policy = \<lparr>cutoffMode = VENCIMIENTO_MAS_GRACIA, paymentTermDays = 10, graceDays = 3,
        cutoffEnabled = None, periodTiming = ANTICIPADO, generationLeadDays = 15\<rparr>,
      bp_today = ''2026-01-25''\<rparr> 1 = Inr [\<lparr>pv_periodStart = ''2026-02-01'', pv_periodEnd = ''2026-02-28'',
         pv_generationDate = ''2026-01-17'', pv_dueDate = ''2026-01-27'',
         pv_cutoffDate = Some ''2026-01-30''\<rparr>] \<and> js_lt ''2026-01-17'' ''2026-01-25''"
  by code_simp

end
