(* ===== verification/Allocation.thy ===== *)
theory Allocation
  imports CivilDate
begin

text \<open>
  Money as text and the FIFO suggestion:
  \<open>packages/shared/src/contracts/billing/allocation.ts\<close>, the money schemas of
  \<open>billing-money.schema.ts\<close>, and the helpers \<open>moneyCents\<close> and \<open>centsMoney\<close> of
  \<open>billing-payments.service.ts\<close>. A \<open>number\<close> that passes the schema is one that
  \<open>toFixed(2)\<close> prints exactly: it is its count of cents here. The text that
  PostgreSQL gives for a \<open>numeric(14,2)\<close> is \<open>numeric_text\<close>.
\<close>

section \<open>Money\<close>

datatype BillingMoney = Money_text string | Money_number int

text \<open>\<open>/^(\d{1,12})(?:\.(\d{1,2}))?$/u\<close> and its two groups.\<close>

definition match_money :: "string \<Rightarrow> (string \<times> string option) option" where
  "match_money s =
     (let w = takeWhile is_digit s; r = drop (length w) s
      in if 1 \<le> length w \<and> length w \<le> 12
         then (case r of
                 [] \<Rightarrow> Some (w, None)
               | c # f \<Rightarrow> if c = CHR ''.'' \<and> list_all is_digit f \<and> 1 \<le> length f \<and> length f \<le> 2
                          then Some (w, Some f) else None)
         else None)"

text \<open>\<open>s.padEnd(2, '0')\<close>.\<close>

definition pad_end2 :: "string \<Rightarrow> string" where
  "pad_end2 s = s @ replicate (2 - length s) CHR ''0''"

definition centsMoney :: "int \<Rightarrow> string" where
  "centsMoney value = show_int (value div 100) @ CHR ''.'' # pad_num 2 (value mod 100)"

definition money_decimal :: "BillingMoney \<Rightarrow> string" where
  "money_decimal m = (case m of Money_text s \<Rightarrow> s | Money_number c \<Rightarrow> centsMoney c)"

definition text_cents :: "string \<Rightarrow> int result" where
  "text_cents decimal =
     (case match_money decimal of
        None \<Rightarrow> Inl Range_Error
      | Some (w, f) \<Rightarrow>
          Inr (parse_digits w * 100 + parse_digits (pad_end2 (case f of None \<Rightarrow> [] | Some d \<Rightarrow> d))))"

definition moneyCents :: "BillingMoney \<Rightarrow> int result" where
  "moneyCents value = text_cents (money_decimal value)"

text \<open>The \<open>toCents\<close> and \<open>fromCents\<close> of \<open>allocation.ts\<close>.\<close>

definition toCents :: "BillingMoney \<Rightarrow> int result" where
  "toCents value =
     (case match_money (money_decimal value) of
        None \<Rightarrow> Inl Range_Error
      | Some (w, f) \<Rightarrow>
          (let whole = parse_digits w;
               fraction = parse_digits (pad_end2 (case f of None \<Rightarrow> [] | Some d \<Rightarrow> d))
           in Inr (whole * 100 + fraction)))"

definition fromCents :: "int \<Rightarrow> string" where
  "fromCents cents =
     (let whole = cents div 100; fraction = pad_num 2 (cents mod 100)
      in show_int whole @ CHR ''.'' # fraction)"

text \<open>\<open>billingMoneyInputSchema()\<close>: positive, at most 999999999999.99.\<close>

definition money_input_ok :: "BillingMoney \<Rightarrow> bool" where
  "money_input_ok m = (case m of
       Money_number c \<Rightarrow> 0 < c \<and> c \<le> 99999999999999
     | Money_text s \<Rightarrow> (case text_cents s of Inl _ \<Rightarrow> False | Inr c \<Rightarrow> 0 < c))"

definition numeric_text :: "int \<Rightarrow> string" where
  "numeric_text c = (if c < 0 then CHR ''-'' # centsMoney (- c) else centsMoney c)"

text \<open>The service reads a column with \<open>moneyCents(row.amount)\<close>.\<close>

definition read_money :: "int \<Rightarrow> int result" where
  "read_money c = text_cents (numeric_text c)"

section \<open>FIFO suggestion\<close>

record FifoAllocationCandidate =
  fc_documentId :: string
  fc_dueDate :: string
  fc_pendingAmount :: BillingMoney

record FifoAllocation =
  fa_documentId :: string
  fa_amount :: string

text \<open>
  The comparator: due date, then document. \<open>localeCompare\<close> on civil dates and on UUIDs
  (hexadecimal digits and hyphens at fixed places) is the order by code unit.
\<close>

definition fifo_le :: "FifoAllocationCandidate \<Rightarrow> FifoAllocationCandidate \<Rightarrow> bool" where
  "fifo_le l r \<longleftrightarrow> (if fc_dueDate l = fc_dueDate r then js_le (fc_documentId l) (fc_documentId r)
                     else js_le (fc_dueDate l) (fc_dueDate r))"

fun fifo_loop ::
  "int \<Rightarrow> FifoAllocationCandidate list \<Rightarrow> FifoAllocation list \<Rightarrow> FifoAllocation list result" where
  "fifo_loop remaining [] allocations = Inr allocations"
| "fifo_loop remaining (c # cs) allocations =
     (if remaining = 0 then Inr allocations
      else res_bind (toCents (fc_pendingAmount c)) (\<lambda>pending.
        if pending \<le> 0 then fifo_loop remaining cs allocations
        else
          let allocated = min remaining pending
          in fifo_loop (remaining - allocated) cs
               (allocations @ [\<lparr>fa_documentId = fc_documentId c, fa_amount = fromCents allocated\<rparr>])))"

definition suggestFifoAllocations ::
  "BillingMoney \<Rightarrow> FifoAllocationCandidate list \<Rightarrow> FifoAllocation list result" where
  "suggestFifoAllocations paymentAmount candidates =
     res_bind (toCents paymentAmount) (\<lambda>remaining.
       if remaining \<le> 0 then Inr []
       else fifo_loop remaining (js_sort fifo_le candidates) [])"

section \<open>Money round trips\<close>

lemma fromCents_eq: "fromCents = centsMoney"
  by (intro ext) (simp add: fromCents_def centsMoney_def Let_def)

lemma toCents_eq: "toCents = moneyCents"
  by (intro ext) (simp add: toCents_def moneyCents_def text_cents_def Let_def split: option.split)

lemma takeWhile_digits:
  "list_all is_digit w \<Longrightarrow> r = [] \<or> \<not> is_digit (hd r) \<Longrightarrow> takeWhile is_digit (w @ r) = w"
  by (cases r) (auto simp: list_all_iff takeWhile_append2 intro: takeWhile_eq_all_conv [THEN iffD2])

lemma text_cents_print:
  assumes "list_all is_digit w" and "1 \<le> length w" and "length w \<le> 12"
    and "list_all is_digit f" and "length f = 2"
  shows "text_cents (w @ CHR ''.'' # f) = Inr (parse_digits w * 100 + parse_digits f)"
proof -
  have "takeWhile is_digit (w @ CHR ''.'' # f) = w"
    by (rule takeWhile_digits [OF assms(1)]) simp
  then show ?thesis
    using assms by (simp add: text_cents_def match_money_def Let_def pad_end2_def)
qed

definition money_range :: "int \<Rightarrow> bool" where
  "money_range c \<longleftrightarrow> 0 \<le> c \<and> c \<le> 99999999999999"

lemma cents_of_text [simp]:
  assumes "money_range c"
  shows "text_cents (centsMoney c) = Inr c"
proof -
  have c: "0 \<le> c" "c \<le> 99999999999999" using assms by (simp_all add: money_range_def)
  then have d: "0 \<le> c div 100" "c div 100 < 10 ^ 12" by simp_all
  have m: "0 \<le> c mod 100" "c mod 100 < 10 ^ 2" using pos_mod_bound [of 100 c] by simp_all
  have "text_cents (show_pos (c div 100) @ CHR ''.'' # pad_num 2 (c mod 100))
      = Inr (parse_digits (show_pos (c div 100)) * 100 + parse_digits (pad_num 2 (c mod 100)))"
    using d m length_show_pos [OF d] length_pad_num [OF m]
    by (intro text_cents_print) (simp_all add: Suc_le_eq)
  then show ?thesis using d m by (simp add: centsMoney_def show_int_def)
qed

lemma read_money_range [simp]: "money_range c \<Longrightarrow> read_money c = Inr c"
  by (simp add: read_money_def numeric_text_def money_range_def)

lemma read_money_negative: "c < 0 \<Longrightarrow> read_money c = Inl Range_Error"
  by (simp add: read_money_def numeric_text_def text_cents_def match_money_def)

lemma text_cents_bounds:
  assumes "text_cents s = Inr c"
  shows "money_range c"
proof -
  obtain w f where m: "match_money s = Some (w, f)"
    and c: "c = parse_digits w * 100 + parse_digits (pad_end2 (case f of None \<Rightarrow> [] | Some d \<Rightarrow> d))"
    using assms by (auto simp: text_cents_def split: option.splits)
  define g where "g = (case f of None \<Rightarrow> [] | Some d \<Rightarrow> d)"
  have w: "list_all is_digit w" "length w \<le> 12"
    using m by (auto simp: match_money_def Let_def list_all_iff dest: set_takeWhileD
        split: if_splits list.splits)
  have g: "list_all is_digit g" "length g \<le> 2"
    using m by (auto simp: match_money_def Let_def g_def split: if_splits list.splits)
  have p: "list_all is_digit (pad_end2 g)" "length (pad_end2 g) = 2"
    using g by (auto simp: pad_end2_def list_all_iff)
  have "parse_digits w < 10 ^ 12"
    using parse_digits_less [OF w(1)] power_increasing [OF w(2), of "10::int"] by simp
  moreover have "parse_digits (pad_end2 g) < 100" using parse_digits_less [OF p(1)] p(2) by simp
  ultimately show ?thesis
    using c parse_digits_nonneg [OF w(1)] parse_digits_nonneg [OF p(1)]
    by (simp add: money_range_def g_def)
qed

lemma moneyCents_range: "moneyCents m = Inr c \<Longrightarrow> money_range c"
  unfolding moneyCents_def by (rule text_cents_bounds)

lemma money_rangeD: "money_range c \<Longrightarrow> 0 \<le> c"
  by (simp add: money_range_def)

lemma money_range_le: "money_range c \<Longrightarrow> 0 \<le> d \<Longrightarrow> d \<le> c \<Longrightarrow> money_range d"
  by (simp add: money_range_def)

section \<open>What the FIFO loop gives\<close>

interpretation fifo_order: js_comparator fifo_le
proof unfold_locales
  fix x y z :: FifoAllocationCandidate
  show "fifo_le x y \<or> fifo_le y x"
    using js_le_total by (auto simp: fifo_le_def)
  assume "fifo_le x y" "fifo_le y z"
  then show "fifo_le x z"
    using js_le_trans js_le_antisym by (auto simp: fifo_le_def split: if_splits)
qed

definition pending_cents :: "FifoAllocationCandidate \<Rightarrow> int" where
  "pending_cents c = (case moneyCents (fc_pendingAmount c) of Inr p \<Rightarrow> p | Inl _ \<Rightarrow> 0)"

definition alloc_cents :: "FifoAllocation \<Rightarrow> int" where
  "alloc_cents a = (case text_cents (fa_amount a) of Inr p \<Rightarrow> p | Inl _ \<Rightarrow> 0)"

definition readable :: "FifoAllocationCandidate \<Rightarrow> bool" where
  "readable c \<longleftrightarrow> (\<exists>p. moneyCents (fc_pendingAmount c) = Inr p)"

text \<open>The greedy split of an amount over the open balances in order.\<close>

fun greedy :: "int \<Rightarrow> FifoAllocationCandidate list \<Rightarrow> FifoAllocation list" where
  "greedy r [] = []"
| "greedy r (c # cs) =
     (if r = 0 then []
      else if pending_cents c \<le> 0 then greedy r cs
      else \<lparr>fa_documentId = fc_documentId c, fa_amount = centsMoney (min r (pending_cents c))\<rparr>
             # greedy (r - min r (pending_cents c)) cs)"

lemma fifo_loop_greedy:
  "list_all readable cs \<Longrightarrow> fifo_loop r cs acc = Inr (acc @ greedy r cs)"
proof (induction cs arbitrary: r acc)
  case (Cons c cs)
  then obtain p where "moneyCents (fc_pendingAmount c) = Inr p" by (auto simp: readable_def)
  with Cons show ?case
    by (simp add: toCents_eq pending_cents_def Let_def fromCents_eq)
qed simp

lemma suggest_greedy:
  assumes "moneyCents amount = Inr P" and "\<And>c. c \<in> set cands \<Longrightarrow> readable c"
  shows "suggestFifoAllocations amount cands = Inr (greedy P (js_sort fifo_le cands))"
proof (cases "P \<le> 0")
  case True
  then have "P = 0" using moneyCents_range [OF assms(1)] by (simp add: money_range_def)
  then have "greedy P (js_sort fifo_le cands) = []" by (cases "js_sort fifo_le cands") simp_all
  with True assms show ?thesis by (simp add: suggestFifoAllocations_def toCents_eq)
next
  case False
  have "list_all readable (js_sort fifo_le cands)" using assms(2) by (simp add: list_all_iff)
  with False assms(1) show ?thesis
    by (simp add: suggestFifoAllocations_def toCents_eq fifo_loop_greedy)
qed

lemma pending_cents_range: "money_range (pending_cents c)"
  using moneyCents_range by (auto simp: pending_cents_def money_range_def split: sum.split)

lemma greedy_sum:
  "money_range r \<Longrightarrow> sum_list (map alloc_cents (greedy r cs)) = min r (sum_list (map pending_cents cs))"
proof (induction r cs rule: greedy.induct)
  case (1 r)
  then show ?case by (simp add: money_range_def)
next
  case (2 r c cs)
  have p: "0 \<le> pending_cents c" using pending_cents_range [of c] by (simp add: money_range_def)
  have s: "0 \<le> sum_list (map pending_cents cs)"
    using pending_cents_range by (intro sum_list_nonneg) (auto simp: money_range_def)
  show ?case
  proof (cases "r = 0 \<or> pending_cents c \<le> 0")
    case True
    with 2 p s show ?thesis by (auto simp: min_def)
  next
    case False
    let ?m = "min r (pending_cents c)"
    have "0 \<le> r" using 2(3) by (simp add: money_range_def)
    then have m: "money_range ?m" "money_range (r - ?m)"
      using 2(3) p by (simp_all add: money_range_def)
    have a: "alloc_cents \<lparr>fa_documentId = fc_documentId c, fa_amount = centsMoney ?m\<rparr> = ?m"
      using m(1) by (simp add: alloc_cents_def)
    have "sum_list (map alloc_cents (greedy (r - ?m) cs)) = min (r - ?m) (sum_list (map pending_cents cs))"
      using False m(2) by (intro 2(2)) auto
    with False a s \<open>0 \<le> r\<close> show ?thesis by auto
  qed
qed

text \<open>Each allocation belongs to a candidate with an open balance, and does not exceed it.\<close>

lemma greedy_bound:
  assumes "money_range r" and "a \<in> set (greedy r cs)"
  shows "\<exists>c \<in> set cs. fa_documentId a = fc_documentId c \<and> 0 < alloc_cents a \<and> alloc_cents a \<le> pending_cents c
    \<and> fa_amount a = centsMoney (alloc_cents a) \<and> money_range (alloc_cents a)"
  using assms
proof (induction r cs rule: greedy.induct)
  case (2 r c cs)
  show ?case
  proof (cases "r = 0 \<or> pending_cents c \<le> 0")
    case True
    with 2 show ?thesis by (auto split: if_splits)
  next
    case False
    let ?m = "min r (pending_cents c)"
    have "0 \<le> r" using 2(3) by (simp add: money_range_def)
    with False 2(3) have m: "money_range ?m" "money_range (r - ?m)" "0 < ?m"
      by (auto simp: money_range_def)
    show ?thesis
    proof (cases "a \<in> set (greedy (r - ?m) cs)")
      case True
      with 2(2) False m show ?thesis by fastforce
    next
      case False2: False
      with False 2(4) have a: "a = \<lparr>fa_documentId = fc_documentId c, fa_amount = centsMoney ?m\<rparr>" by auto
      have "alloc_cents a = ?m" using m(1) by (simp add: a alloc_cents_def)
      with a m show ?thesis by (intro bexI [of _ c]) simp_all
    qed
  qed
qed simp

text \<open>
  The allocations follow the candidates with an open balance in order, and all but the
  last pay their document in full.
\<close>

lemma greedy_fifo:
  assumes "money_range r"
  shows "\<exists>n. map fa_documentId (greedy r cs) = map fc_documentId (take n (filter (\<lambda>c. 0 < pending_cents c) cs))
    \<and> length (greedy r cs) = n \<and> n \<le> length (filter (\<lambda>c. 0 < pending_cents c) cs)
    \<and> (\<forall>i. Suc i < n \<longrightarrow> alloc_cents (greedy r cs ! i) = pending_cents (filter (\<lambda>c. 0 < pending_cents c) cs ! i))"
  using assms
proof (induction r cs rule: greedy.induct)
  case (1 r)
  then show ?case by simp
next
  case (2 r c cs)
  have p: "0 \<le> pending_cents c" using pending_cents_range [of c] by (simp add: money_range_def)
  consider "r = 0" | "r \<noteq> 0" "pending_cents c \<le> 0" | "r \<noteq> 0" "0 < pending_cents c" by linarith
  then show ?case
  proof cases
    case 1
    then show ?thesis by (intro exI [of _ 0]) simp
  next
    case 2
    with "2.IH"(1) "2.prems" show ?thesis by simp
  next
    case 3
    let ?m = "min r (pending_cents c)" and ?ps = "filter (\<lambda>c. 0 < pending_cents c) cs"
    have "0 \<le> r" using "2.prems" by (simp add: money_range_def)
    with 3 "2.prems" have m: "money_range ?m" "money_range (r - ?m)" by (auto simp: money_range_def)
    from "2.IH"(2) [OF 3(1) _ m(2)] 3 obtain n where
      n: "map fa_documentId (greedy (r - ?m) cs) = map fc_documentId (take n ?ps)"
      "length (greedy (r - ?m) cs) = n" "n \<le> length ?ps"
      "\<And>i. Suc i < n \<Longrightarrow> alloc_cents (greedy (r - ?m) cs ! i) = pending_cents (?ps ! i)" by auto
    have a: "alloc_cents \<lparr>fa_documentId = fc_documentId c, fa_amount = centsMoney ?m\<rparr> = ?m"
      using m(1) by (simp add: alloc_cents_def)
    have full: "?m = pending_cents c" if "0 < n"
    proof (rule ccontr)
      assume "?m \<noteq> pending_cents c"
      then have "r - ?m = 0" by simp
      then have "greedy (r - ?m) cs = []" by (cases cs) simp_all
      then show False using n(2) that by simp
    qed
    show ?thesis
      using 3 n a full
      by (intro exI [of _ "Suc n"]) (auto simp: nth_Cons split: nat.split)
  qed
qed

text \<open>A candidate is paid in full when one after it gets anything.\<close>

lemma greedy_earlier_first:
  assumes "money_range r" and "distinct (map fc_documentId (xs @ c # ys))" and "0 < pending_cents c"
    and "a \<in> set (greedy r (xs @ c # ys))" and "fa_documentId a \<in> fc_documentId ` set ys"
  shows "\<exists>b \<in> set (greedy r (xs @ c # ys)). fa_documentId b = fc_documentId c \<and> alloc_cents b = pending_cents c"
  using assms
proof (induction xs arbitrary: r)
  case Nil
  let ?m = "min r (pending_cents c)"
  have r: "0 < r" using Nil.prems(1,4) by (auto simp: money_range_def split: if_splits)
  have m: "money_range ?m" using Nil.prems(1,3) by (simp add: money_range_def min.coboundedI1)
  have "a \<in> set (greedy (r - ?m) ys)"
    using Nil.prems(2,3,4,5) r by (auto simp: image_iff)
  then have "r - ?m \<noteq> 0" by (cases ys) auto
  then have "?m = pending_cents c" by linarith
  with m r Nil.prems(3) show ?case by (simp add: alloc_cents_def)
next
  case (Cons x xs)
  let ?m = "min r (pending_cents x)"
  have r: "r \<noteq> 0" using Cons.prems(4) by auto
  show ?case
  proof (cases "pending_cents x \<le> 0")
    case True
    with Cons.IH [OF Cons.prems(1)] Cons.prems r show ?thesis by simp
  next
    case False
    have "money_range (r - ?m)" using Cons.prems(1) False by (auto simp: money_range_def)
    moreover have "a \<in> set (greedy (r - ?m) (xs @ c # ys))" using Cons.prems False r by (auto simp: image_iff)
    ultimately show ?thesis using Cons.IH [of "r - ?m"] Cons.prems False r by simp
  qed
qed

section \<open>The suggestion\<close>

definition sample_candidate :: "string \<Rightarrow> string \<Rightarrow> string \<Rightarrow> FifoAllocationCandidate" where
  "sample_candidate d due pending =
     \<lparr>fc_documentId = d, fc_dueDate = due, fc_pendingAmount = Money_text pending\<rparr>"

text \<open>
  C18. Suggesting how a payment is spread: on readable amounts \<open>suggestFifoAllocations\<close>
  always answers. It gives away the smaller of the payment and the total balance, follows
  the documents with an open balance by due date and identifier without skipping one, never
  exceeds a balance, and leaves a balance open on the last document only.
\<close>

theorem suggestFifoAllocations_greedy:
  assumes "moneyCents amount = Inr P" and "\<And>c. c \<in> set cands \<Longrightarrow> readable c"
  defines "ps \<equiv> filter (\<lambda>c. 0 < pending_cents c) (js_sort fifo_le cands)"
  shows "\<exists>as. suggestFifoAllocations amount cands = Inr as
    \<and> sum_list (map alloc_cents as) = min P (sum_list (map pending_cents cands))
    \<and> length as \<le> length ps
    \<and> map fa_documentId as = map fc_documentId (take (length as) ps)
    \<and> (\<forall>a \<in> set as. \<exists>c \<in> set cands. fa_documentId a = fc_documentId c
          \<and> 0 < alloc_cents a \<and> alloc_cents a \<le> pending_cents c)
    \<and> (\<forall>i. Suc i < length as \<longrightarrow> alloc_cents (as ! i) = pending_cents (ps ! i))"
proof (intro exI conjI)
  let ?as = "greedy P (js_sort fifo_le cands)"
  have P: "money_range P" by (rule moneyCents_range [OF assms(1)])
  show "suggestFifoAllocations amount cands = Inr ?as" by (rule suggest_greedy [OF assms(1,2)])
  show "sum_list (map alloc_cents ?as) = min P (sum_list (map pending_cents cands))"
    by (simp add: greedy_sum [OF P])
  obtain n where n: "map fa_documentId ?as = map fc_documentId (take n ps)" "length ?as = n"
    "n \<le> length ps" "\<forall>i. Suc i < n \<longrightarrow> alloc_cents (?as ! i) = pending_cents (ps ! i)"
    using greedy_fifo [OF P, of "js_sort fifo_le cands"] unfolding ps_def by blast
  then show "length ?as \<le> length ps" "map fa_documentId ?as = map fc_documentId (take (length ?as) ps)"
    "\<forall>i. Suc i < length ?as \<longrightarrow> alloc_cents (?as ! i) = pending_cents (ps ! i)" by simp_all
  show "\<forall>a \<in> set ?as. \<exists>c \<in> set cands. fa_documentId a = fc_documentId c
      \<and> 0 < alloc_cents a \<and> alloc_cents a \<le> pending_cents c"
    using greedy_bound [OF P, of _ "js_sort fifo_le cands"] by fastforce
qed

theorem suggestFifoAllocations_greedy_witness:
  "\<exists>as. suggestFifoAllocations (Money_text ''150'')
      [sample_candidate ''b'' ''2026-02-10'' ''80.50'', sample_candidate ''a'' ''2026-01-10'' ''100''] = Inr as
    \<and> sum_list (map alloc_cents as) = 15000"
proof -
  let ?cs = "[sample_candidate ''b'' ''2026-02-10'' ''80.50'', sample_candidate ''a'' ''2026-01-10'' ''100'']"
  have P: "moneyCents (Money_text ''150'') = Inr 15000" by code_simp
  have "moneyCents (Money_text ''80.50'') = Inr 8050" "moneyCents (Money_text ''100'') = Inr 10000"
    by code_simp+
  then have "readable c" if "c \<in> set ?cs" for c
    using that by (auto simp: readable_def sample_candidate_def)
  moreover have "sum_list (map pending_cents ?cs) = 18050" by code_simp
  ultimately show ?thesis using suggestFifoAllocations_greedy [OF P, of ?cs] by auto
qed

end
