(* ===== verification/BillingPolicy.thy ===== *)
theory BillingPolicy
  imports BillingCalendar Allocation
begin

text \<open>
  The billing policy of a tenant and its overrides per contract:
  \<open>apps/api/src/modules/billing/policy/billing-policy.service.ts\<close> over the schemas of
  \<open>billing-policy.contract.ts\<close>. The rule both writers keep is that a cutoff on a fixed day
  of the cycle needs billing in advance. A row's \<open>updated_at\<close> is the stamp of its last
  write; the writers receive the stamp of \<open>clock_timestamp()\<close> as an argument. The types,
  enums, UUIDs and date-time texts that zod checks are the types of the records.
\<close>

section \<open>Schemas\<close>

datatype BillingProrationMethod = DIAS_REALES | MES_30

datatype BillingFirstPeriodMode = SEPARADO | JUNTO_AL_SIGUIENTE

datatype BillingApprovalMode = APROBACION_BORRADOR | APROBACION_AUTOMATICA

record policy_settings =
  po_periodTiming :: BillingPeriodTiming
  po_generationLeadDays :: int
  po_cutoffMode :: BillingCutoffMode
  po_paymentTermDays :: int
  po_graceDays :: int
  po_cutoffEnabled :: bool
  po_minimumUnpaidForCutoff :: BillingMoney
  po_prorationMethod :: BillingProrationMethod
  po_firstPeriodMode :: BillingFirstPeriodMode
  po_automaticGeneration :: bool
  po_approvalMode :: BillingApprovalMode
  po_autoApplyCredit :: bool
  po_generationHour :: int
  po_documentPrefix :: string

record BillingPolicy = policy_settings +
  po_updatedBy :: "string option"
  po_updatedAt :: string

record BillingPolicyUpdate = policy_settings +
  po_expectedUpdatedAt :: string

text \<open>An absent field is \<^const>\<open>None\<close>; \<open>null\<close> is \<open>Some None\<close>.\<close>

record BillingContractPolicyUpdate =
  cu_expectedUpdatedAt :: "string option"
  cu_periodTiming :: "BillingPeriodTiming option option"
  cu_generationLeadDays :: "int option option"
  cu_paymentTermDays :: "int option option"
  cu_graceDays :: "int option option"
  cu_cutoffEnabled :: "bool option option"
  cu_firstPeriodMode :: "BillingFirstPeriodMode option option"
  cu_billingStartDate :: "string option option"

record ContractPolicyRow =
  cp_contract_id :: string
  cp_period_timing :: "BillingPeriodTiming option"
  cp_generation_lead_days :: "int option"
  cp_payment_term_days :: "int option"
  cp_grace_days :: "int option"
  cp_cutoff_enabled :: "bool option"
  cp_first_period_mode :: "BillingFirstPeriodMode option"
  cp_billing_start_date :: "string option"
  cp_updated_by :: "string option"
  cp_updated_at :: string

record preview_policy =
  pq_periodTiming :: "BillingPeriodTiming option"
  pq_generationLeadDays :: "int option"
  pq_cutoffMode :: "BillingCutoffMode option"
  pq_paymentTermDays :: "int option"
  pq_graceDays :: "int option"
  pq_cutoffEnabled :: "bool option"

record BillingPolicyPreviewRequest =
  pq_contractId :: "string option"
  pq_policy :: preview_policy

definition isCivilDate :: "string \<Rightarrow> bool" where
  "isCivilDate value =
     (case match_civil value of
        None \<Rightarrow> False
      | Some (year, month, day) \<Rightarrow>
          (if year < 1 \<or> month < 1 \<or> month > 12 \<or> day < 1 then False
           else
             let leap = year mod 4 = 0 \<and> (year mod 100 \<noteq> 0 \<or> year mod 400 = 0);
                 daysInMonth = (if month = 2 then if leap then 29 else 28
                                else if month \<in> {4, 6, 9, 11} then 30 else 31)
             in day \<le> daysInMonth))"

text \<open>\<open>billingMoneyInputSchema(true)\<close>.\<close>

definition money_input_zero_ok :: "BillingMoney \<Rightarrow> bool" where
  "money_input_zero_ok m = (case m of
       Money_number c \<Rightarrow> 0 \<le> c \<and> c \<le> 99999999999999
     | Money_text s \<Rightarrow> (case text_cents s of Inl _ \<Rightarrow> False | Inr c \<Rightarrow> 0 \<le> c))"

definition within :: "int \<Rightarrow> int \<Rightarrow> int \<Rightarrow> bool" where
  "within lo hi n \<longleftrightarrow> lo \<le> n \<and> n \<le> hi"

definition settings_ok :: "'a policy_settings_scheme \<Rightarrow> bool" where
  "settings_ok p \<longleftrightarrow>
     within 0 15 (po_generationLeadDays p) \<and> within 0 60 (po_paymentTermDays p)
   \<and> within 0 30 (po_graceDays p) \<and> money_input_zero_ok (po_minimumUnpaidForCutoff p)
   \<and> within 0 23 (po_generationHour p)
   \<and> 1 \<le> length (po_documentPrefix p) \<and> length (po_documentPrefix p) \<le> 10"

definition incompatible :: "'a policy_settings_scheme \<Rightarrow> bool" where
  "incompatible p \<longleftrightarrow> po_cutoffMode p = DIA_FIJO_CICLO \<and> po_periodTiming p = VENCIDO"

definition opt_all :: "('a \<Rightarrow> bool) \<Rightarrow> 'a option \<Rightarrow> bool" where
  "opt_all P m = (case m of None \<Rightarrow> True | Some x \<Rightarrow> P x)"

definition contract_update_ok :: "BillingContractPolicyUpdate \<Rightarrow> bool" where
  "contract_update_ok u \<longleftrightarrow>
     opt_all (opt_all (within 0 15)) (cu_generationLeadDays u)
   \<and> opt_all (opt_all (within 0 60)) (cu_paymentTermDays u)
   \<and> opt_all (opt_all (within 0 30)) (cu_graceDays u)
   \<and> opt_all (opt_all isCivilDate) (cu_billingStartDate u)"

definition preview_request_ok :: "BillingPolicyPreviewRequest \<Rightarrow> bool" where
  "preview_request_ok r \<longleftrightarrow>
     opt_all (within 0 15) (pq_generationLeadDays (pq_policy r))
   \<and> opt_all (within 0 60) (pq_paymentTermDays (pq_policy r))
   \<and> opt_all (within 0 30) (pq_graceDays (pq_policy r))"

definition policyIncompatible :: http_error where
  "policyIncompatible = Unprocessable ''BILLING_POLICY_INCOMPATIBLE''"

definition policyChanged :: http_error where
  "policyChanged = Conflict ''BILLING_POLICY_CHANGED''"

definition policyNotFound :: http_error where
  "policyNotFound = Not_Found ''BILLING_POLICY_NOT_FOUND''"

text \<open>
  The object check runs after the fields even when one is out of range, and
  \<open>validationError\<close> prefers its issue.
\<close>

definition validationError :: "bool \<Rightarrow> http_error" where
  "validationError has_incompatible =
     (if has_incompatible then policyIncompatible else Bad_Request ''VALIDATION_ERROR'')"

definition validate_policy :: "'a policy_settings_scheme \<Rightarrow> unit result" where
  "validate_policy p = guard_ok (settings_ok p \<and> \<not> incompatible p) (validationError (incompatible p))"

text \<open>\<open>toPolicy\<close> parses the row with the schema; a failure is a \<open>ZodError\<close>.\<close>

definition toPolicy :: "BillingPolicy \<Rightarrow> BillingPolicy result" where
  "toPolicy row = res_bind (guard_ok (settings_ok row \<and> \<not> incompatible row) Plain_Error) (\<lambda>_. Inr row)"

definition assertEffectivePolicyCompatible :: "BillingPolicy \<Rightarrow> unit result" where
  "assertEffectivePolicyCompatible p =
     guard_ok (\<not> (po_cutoffMode p = DIA_FIJO_CICLO \<and> po_periodTiming p = VENCIDO)) policyIncompatible"

section \<open>The tables and their operations\<close>

record policy_db =
  db_policy :: "BillingPolicy option"
  db_overrides :: "ContractPolicyRow list"

definition find_override :: "string \<Rightarrow> policy_db \<Rightarrow> ContractPolicyRow option" where
  "find_override contractId db = find (\<lambda>r. cp_contract_id r = contractId) (db_overrides db)"

definition getPolicy :: "policy_db \<Rightarrow> BillingPolicy result" where
  "getPolicy db = (case db_policy db of None \<Rightarrow> Inl policyNotFound | Some row \<Rightarrow> toPolicy row)"

text \<open>A number or a text becomes the \<open>numeric(14,2)\<close> of its value.\<close>

definition stored_money :: "BillingMoney \<Rightarrow> BillingMoney" where
  "stored_money m = (case moneyCents m of Inl _ \<Rightarrow> m | Inr c \<Rightarrow> Money_text (numeric_text c))"

definition policy_row :: "BillingPolicyUpdate \<Rightarrow> string \<Rightarrow> string \<Rightarrow> BillingPolicy" where
  "policy_row u actorId stamp =
     \<lparr>po_periodTiming = po_periodTiming u, po_generationLeadDays = po_generationLeadDays u,
      po_cutoffMode = po_cutoffMode u, po_paymentTermDays = po_paymentTermDays u,
      po_graceDays = po_graceDays u, po_cutoffEnabled = po_cutoffEnabled u,
      po_minimumUnpaidForCutoff = stored_money (po_minimumUnpaidForCutoff u),
      po_prorationMethod = po_prorationMethod u, po_firstPeriodMode = po_firstPeriodMode u,
      po_automaticGeneration = po_automaticGeneration u, po_approvalMode = po_approvalMode u,
      po_autoApplyCredit = po_autoApplyCredit u, po_generationHour = po_generationHour u,
      po_documentPrefix = po_documentPrefix u, po_updatedBy = Some actorId, po_updatedAt = stamp\<rparr>"

definition updatePolicy ::
  "BillingPolicyUpdate \<Rightarrow> string \<Rightarrow> string \<Rightarrow> policy_db \<Rightarrow> (BillingPolicy \<times> policy_db) result" where
  "updatePolicy u actorId stamp db =
     res_bind (validate_policy u) (\<lambda>_.
     case db_policy db of
       None \<Rightarrow> Inl policyNotFound
     | Some before \<Rightarrow>
         res_bind (guard_ok (po_updatedAt before = po_expectedUpdatedAt u) policyChanged) (\<lambda>_.
         res_bind (guard_ok (\<not> (po_cutoffMode u = DIA_FIJO_CICLO
                       \<and> list_ex (\<lambda>r. cp_period_timing r = Some VENCIDO) (db_overrides db)))
                     policyIncompatible) (\<lambda>_.
         let after = policy_row u actorId stamp
         in res_bind (toPolicy before) (\<lambda>_.
            res_bind (toPolicy after) (\<lambda>policy.
              Inr (policy, db\<lparr>db_policy := Some after\<rparr>))))))"

text \<open>\<open>new !== undefined ? new : (before ?? null)\<close>.\<close>

definition merged :: "'a option option \<Rightarrow> 'a option \<Rightarrow> 'a option" where
  "merged new old = (case new of None \<Rightarrow> old | Some v \<Rightarrow> v)"

definition of_before :: "(ContractPolicyRow \<Rightarrow> 'a option) \<Rightarrow> ContractPolicyRow option \<Rightarrow> 'a option" where
  "of_before f before = (case before of None \<Rightarrow> None | Some r \<Rightarrow> f r)"

definition or_else :: "'a option \<Rightarrow> 'a \<Rightarrow> 'a" where
  "or_else m d = (case m of None \<Rightarrow> d | Some x \<Rightarrow> x)"

definition merged_override ::
  "string \<Rightarrow> BillingContractPolicyUpdate \<Rightarrow> string \<Rightarrow> string \<Rightarrow> ContractPolicyRow option \<Rightarrow> ContractPolicyRow" where
  "merged_override contractId u actorId stamp before =
     \<lparr>cp_contract_id = contractId,
      cp_period_timing = merged (cu_periodTiming u) (of_before cp_period_timing before),
      cp_generation_lead_days = merged (cu_generationLeadDays u) (of_before cp_generation_lead_days before),
      cp_payment_term_days = merged (cu_paymentTermDays u) (of_before cp_payment_term_days before),
      cp_grace_days = merged (cu_graceDays u) (of_before cp_grace_days before),
      cp_cutoff_enabled = merged (cu_cutoffEnabled u) (of_before cp_cutoff_enabled before),
      cp_first_period_mode = merged (cu_firstPeriodMode u) (of_before cp_first_period_mode before),
      cp_billing_start_date = merged (cu_billingStartDate u) (of_before cp_billing_start_date before),
      cp_updated_by = Some actorId, cp_updated_at = stamp\<rparr>"

text \<open>
  The transaction of \<open>updateContractPolicy\<close> up to its write: it reads the policy without a
  lock and the override \<open>FOR UPDATE\<close>, and decides the row to write.
\<close>

definition check_contract_policy ::
  "string \<Rightarrow> BillingContractPolicyUpdate \<Rightarrow> string \<Rightarrow> string \<Rightarrow> policy_db \<Rightarrow> ContractPolicyRow result" where
  "check_contract_policy contractId u actorId stamp db =
     (case db_policy db of
        None \<Rightarrow> Inl policyNotFound
      | Some policyRow \<Rightarrow>
          let before = find_override contractId db
          in res_bind (guard_ok (opt_all (\<lambda>e. map_option cp_updated_at before = Some e)
                          (cu_expectedUpdatedAt u)) policyChanged) (\<lambda>_.
             res_bind (toPolicy policyRow) (\<lambda>policy.
             let effectivePeriodTiming =
                   (case cu_periodTiming u of
                      None \<Rightarrow> or_else (of_before cp_period_timing before) (po_periodTiming policy)
                    | Some t \<Rightarrow> or_else t (po_periodTiming policy))
             in res_bind (assertEffectivePolicyCompatible
                            (policy\<lparr>po_periodTiming := effectivePeriodTiming\<rparr>)) (\<lambda>_.
                  Inr (merged_override contractId u actorId stamp before)))))"

text \<open>\<open>INSERT ... ON CONFLICT (contract_id) DO UPDATE\<close>; the contract is a foreign key.\<close>

definition write_contract_policy ::
  "(string \<Rightarrow> bool) \<Rightarrow> ContractPolicyRow \<Rightarrow> policy_db \<Rightarrow> (ContractPolicyRow \<times> policy_db) result" where
  "write_contract_policy contracts row db =
     (if \<not> contracts (cp_contract_id row) then Inl (Not_Found ''BILLING_CONTRACT_NOT_FOUND'')
      else
        let rest = filter (\<lambda>r. cp_contract_id r \<noteq> cp_contract_id row) (db_overrides db)
        in Inr (row, db\<lparr>db_overrides := row # rest\<rparr>))"

definition updateContractPolicy ::
  "(string \<Rightarrow> bool) \<Rightarrow> string \<Rightarrow> BillingContractPolicyUpdate \<Rightarrow> string \<Rightarrow> string \<Rightarrow> policy_db \<Rightarrow>
    (ContractPolicyRow \<times> policy_db) result" where
  "updateContractPolicy contracts contractId u actorId stamp db =
     (if \<not> contract_update_ok u then Inl (validationError False)
      else res_bind (check_contract_policy contractId u actorId stamp db) (\<lambda>row.
           write_contract_policy contracts row db))"

text \<open>
  The preview. \<open>cycle_of\<close> and \<open>all_cycles\<close> are the answers of the CRM port
  (\<open>findBillingCycleByContractId\<close> and \<open>listBillingCycles\<close>), \<open>today\<close> the civil date of the
  tenant.
\<close>

definition preview_effective ::
  "BillingPolicyPreviewRequest \<Rightarrow> ContractPolicyRow option \<Rightarrow> BillingPolicy \<Rightarrow> BillingPolicy" where
  "preview_effective request contractPolicy basePolicy =
     (let q = pq_policy request;
          timing = or_else (of_before cp_period_timing contractPolicy) (po_periodTiming basePolicy);
          lead = or_else (of_before cp_generation_lead_days contractPolicy) (po_generationLeadDays basePolicy);
          term = or_else (of_before cp_payment_term_days contractPolicy) (po_paymentTermDays basePolicy);
          grace = or_else (of_before cp_grace_days contractPolicy) (po_graceDays basePolicy);
          enabled = or_else (of_before cp_cutoff_enabled contractPolicy) (po_cutoffEnabled basePolicy)
      in basePolicy\<lparr>po_periodTiming := or_else (pq_periodTiming q) timing,
           po_generationLeadDays := or_else (pq_generationLeadDays q) lead,
           po_cutoffMode := or_else (pq_cutoffMode q) (po_cutoffMode basePolicy),
           po_paymentTermDays := or_else (pq_paymentTermDays q) term,
           po_graceDays := or_else (pq_graceDays q) grace,
           po_cutoffEnabled := or_else (pq_cutoffEnabled q) enabled\<rparr>)"

definition preview_policy_input :: "BillingPolicy \<Rightarrow> BillingPolicyInput" where
  "preview_policy_input p =
     \<lparr>cutoffMode = po_cutoffMode p, paymentTermDays = po_paymentTermDays p,
      graceDays = po_graceDays p, cutoffEnabled = Some (po_cutoffEnabled p),
      periodTiming = po_periodTiming p, generationLeadDays = po_generationLeadDays p\<rparr>"

definition preview ::
  "(string \<Rightarrow> (int option \<times> int option) option) \<Rightarrow> (int \<times> int) list \<Rightarrow> string \<Rightarrow>
    BillingPolicyPreviewRequest \<Rightarrow> policy_db \<Rightarrow> (int \<times> int \<times> BillingPolicyPreviewItem list) list result" where
  "preview cycle_of all_cycles today request db =
     (if \<not> preview_request_ok request then Inl (validationError False)
      else
        let contractCycle = (case pq_contractId request of None \<Rightarrow> None | Some c \<Rightarrow> cycle_of c)
        in res_bind (guard_ok (pq_contractId request = None \<or> contractCycle \<noteq> None)
                       (Not_Found ''BILLING_CONTRACT_NOT_FOUND'')) (\<lambda>_.
           res_bind (getPolicy db) (\<lambda>basePolicy.
           let contractPolicy = (case pq_contractId request of None \<Rightarrow> None | Some c \<Rightarrow> find_override c db);
               effectivePolicy = preview_effective request contractPolicy basePolicy
           in res_bind (validate_policy effectivePolicy) (\<lambda>_.
              res_bind (assertEffectivePolicyCompatible effectivePolicy) (\<lambda>_.
              let cycles = (case pq_contractId request of
                              None \<Rightarrow> all_cycles
                            | Some _ \<Rightarrow>
                                (case contractCycle of
                                   Some (Some cycleDay, Some cutoffDay) \<Rightarrow> [(cycleDay, cutoffDay)]
                                 | _ \<Rightarrow> []))
              in res_map (\<lambda>(cycleDay, cutoffDay).
                   res_bind (nextBillingDates
                       \<lparr>bp_cycleDay = cycleDay, bp_cutoffDay = Some cutoffDay,
                        bp_policy = preview_policy_input effectivePolicy, bp_today = today\<rparr> 3) (\<lambda>items.
                     Inr (cycleDay, cutoffDay, items))) cycles)))))"

lemma isCivilDate_parse: "isCivilDate v \<longleftrightarrow> (\<exists>c. parseCivilDate v = Inr c)"
  by (auto simp: isCivilDate_def parseCivilDate_def daysInMonth_def isLeapYear_def Let_def
      split: option.splits if_splits)

section \<open>The compatibility rule over time\<close>

lemma or_else_simps [simp]: "or_else None d = d" "or_else (Some x) d = x"
  by (simp_all add: or_else_def)

lemma opt_all_simps [simp]: "opt_all P None" "opt_all P (Some x) \<longleftrightarrow> P x"
  by (simp_all add: opt_all_def)

lemma merged_all: "opt_all (opt_all P) new \<Longrightarrow> opt_all P old \<Longrightarrow> opt_all P (merged new old)"
  by (simp add: opt_all_def merged_def split: option.splits)

lemma stored_money_ok:
  assumes "money_input_zero_ok m"
  shows "money_input_zero_ok (stored_money m)"
proof -
  have "\<exists>c. moneyCents m = Inr c \<and> money_range c"
    using assms text_cents_bounds
    by (auto simp: money_input_zero_ok_def moneyCents_def money_decimal_def money_range_def
        split: BillingMoney.splits sum.splits)
  then obtain c where c: "moneyCents m = Inr c" "money_range c" by blast
  then have "0 \<le> c" by (simp add: money_rangeD)
  with c have "text_cents (numeric_text c) = Inr c" by (simp add: numeric_text_def)
  with c \<open>0 \<le> c\<close> show ?thesis by (simp add: stored_money_def money_input_zero_ok_def)
qed

definition override_ok :: "ContractPolicyRow \<Rightarrow> bool" where
  "override_ok r \<longleftrightarrow> opt_all (within 0 15) (cp_generation_lead_days r)
     \<and> opt_all (within 0 60) (cp_payment_term_days r) \<and> opt_all (within 0 30) (cp_grace_days r)
     \<and> opt_all isCivilDate (cp_billing_start_date r)"

definition policy_ok :: "policy_db \<Rightarrow> bool" where
  "policy_ok db \<longleftrightarrow> distinct (map cp_contract_id (db_overrides db))
     \<and> (\<forall>r \<in> set (db_overrides db). override_ok r)
     \<and> (\<forall>p. db_policy db = Some p \<longrightarrow> settings_ok p \<and> \<not> incompatible p
          \<and> (po_cutoffMode p = DIA_FIJO_CICLO
               \<longrightarrow> (\<forall>r \<in> set (db_overrides db). cp_period_timing r \<noteq> Some VENCIDO)))"

inductive policy_step :: "(string \<Rightarrow> bool) \<Rightarrow> policy_db \<Rightarrow> policy_db \<Rightarrow> bool" for contracts where
  step_policy: "updatePolicy u actorId stamp db = Inr (p, db') \<Longrightarrow> policy_step contracts db db'"
| step_contract: "updateContractPolicy contracts contractId u actorId stamp db = Inr (r, db') \<Longrightarrow>
    policy_step contracts db db'"

inductive_cases policy_stepE: "policy_step contracts db db'"

text \<open>The row that migration 173 seeds.\<close>

definition seeded_policy :: "string \<Rightarrow> BillingPolicy" where
  "seeded_policy stamp =
     \<lparr>po_periodTiming = ANTICIPADO, po_generationLeadDays = 0, po_cutoffMode = DIA_FIJO_CICLO,
      po_paymentTermDays = 14, po_graceDays = 0, po_cutoffEnabled = True,
      po_minimumUnpaidForCutoff = Money_text ''0.00'', po_prorationMethod = DIAS_REALES,
      po_firstPeriodMode = SEPARADO, po_automaticGeneration = False,
      po_approvalMode = APROBACION_BORRADOR, po_autoApplyCredit = True, po_generationHour = 6,
      po_documentPrefix = ''DC'', po_updatedBy = None, po_updatedAt = stamp\<rparr>"

definition seeded_db :: "string \<Rightarrow> policy_db" where
  "seeded_db stamp = \<lparr>db_policy = Some (seeded_policy stamp), db_overrides = []\<rparr>"

definition policy_reachable :: "(string \<Rightarrow> bool) \<Rightarrow> string \<Rightarrow> policy_db \<Rightarrow> bool" where
  "policy_reachable contracts stamp db \<longleftrightarrow> (policy_step contracts)\<^sup>*\<^sup>* (seeded_db stamp) db"

lemma find_override_in: "find_override c db = Some r \<Longrightarrow> r \<in> set (db_overrides db) \<and> cp_contract_id r = c"
  unfolding find_override_def by (rule find_Some_iff_hd)

lemma policy_ok_seeded: "policy_ok (seeded_db stamp)"
  by (simp add: policy_ok_def seeded_db_def seeded_policy_def settings_ok_def within_def
      incompatible_def money_input_zero_ok_def) code_simp

lemma policy_ok_update:
  assumes "policy_ok db" and "updatePolicy u actorId stamp db = Inr (p, db')"
  shows "policy_ok db'"
proof -
  obtain after where db': "db' = db\<lparr>db_policy := Some after\<rparr>"
    and after: "after = policy_row u actorId stamp"
    and v: "settings_ok u" "\<not> incompatible u"
    and o: "\<not> (po_cutoffMode u = DIA_FIJO_CICLO
              \<and> list_ex (\<lambda>r. cp_period_timing r = Some VENCIDO) (db_overrides db))"
    using assms(2)
    by (auto simp: updatePolicy_def validate_policy_def Let_def res_simps split: option.splits)
  have "settings_ok after" "\<not> incompatible after" "po_cutoffMode after = po_cutoffMode u"
    using v stored_money_ok by (simp_all add: after settings_ok_def incompatible_def policy_row_def)
  with assms(1) o show ?thesis
    by (auto simp: policy_ok_def db' list_ex_iff)
qed

lemma policy_ok_contract:
  assumes "policy_ok db" and "updateContractPolicy contracts contractId u actorId stamp db = Inr (r, db')"
  shows "policy_ok db'"
proof -
  obtain p row where p: "db_policy db = Some p"
    and u: "contract_update_ok u"
    and row: "row = merged_override contractId u actorId stamp (find_override contractId db)"
    and timing: "\<not> (po_cutoffMode p = DIA_FIJO_CICLO
      \<and> (case cu_periodTiming u of
           None \<Rightarrow> or_else (of_before cp_period_timing (find_override contractId db)) (po_periodTiming p)
         | Some t \<Rightarrow> or_else t (po_periodTiming p)) = VENCIDO)"
    and db': "db' = db\<lparr>db_overrides := row # filter (\<lambda>r. cp_contract_id r \<noteq> cp_contract_id row) (db_overrides db)\<rparr>"
    using assms(2)
    by (auto simp: updateContractPolicy_def check_contract_policy_def write_contract_policy_def
        toPolicy_def assertEffectivePolicyCompatible_def Let_def res_simps split: if_splits option.splits)
  let ?before = "find_override contractId db"
  have b: "opt_all (within 0 15) (of_before cp_generation_lead_days ?before)"
    "opt_all (within 0 60) (of_before cp_payment_term_days ?before)"
    "opt_all (within 0 30) (of_before cp_grace_days ?before)"
    "opt_all isCivilDate (of_before cp_billing_start_date ?before)"
    using assms(1) find_override_in [of contractId db]
    by (auto simp: of_before_def policy_ok_def override_ok_def split: option.split)
  have "override_ok row"
    using u b by (auto simp: row merged_override_def override_ok_def contract_update_ok_def intro!: merged_all)
  moreover have "po_cutoffMode p = DIA_FIJO_CICLO \<Longrightarrow> cp_period_timing row \<noteq> Some VENCIDO"
    using timing by (auto simp: row merged_override_def merged_def split: option.splits)
  ultimately show ?thesis
    using assms(1) p by (auto simp: policy_ok_def db' distinct_map_filter)
qed

lemma policy_ok_reachable: "policy_reachable contracts stamp db \<Longrightarrow> policy_ok db"
  unfolding policy_reachable_def
proof (induction rule: rtranclp_induct)
  case base
  show ?case by (rule policy_ok_seeded)
next
  case (step db db')
  from step.hyps(2) step.IH show ?case
    by (auto elim!: policy_stepE intro: policy_ok_update policy_ok_contract)
qed


section \<open>What the rule gives\<close>

definition plain_request :: "string option \<Rightarrow> BillingPolicyPreviewRequest" where
  "plain_request contractId =
     \<lparr>pq_contractId = contractId,
      pq_policy = \<lparr>pq_periodTiming = None, pq_generationLeadDays = None, pq_cutoffMode = None,
        pq_paymentTermDays = None, pq_graceDays = None, pq_cutoffEnabled = None\<rparr>\<rparr>"

definition same_settings :: "BillingPolicy \<Rightarrow> BillingPolicyUpdate" where
  "same_settings p =
     policy_settings.extend (policy_settings.truncate p) \<lparr>po_expectedUpdatedAt = po_updatedAt p\<rparr>"

definition timing_override :: "BillingPeriodTiming \<Rightarrow> BillingContractPolicyUpdate" where
  "timing_override t =
     \<lparr>cu_expectedUpdatedAt = None, cu_periodTiming = Some (Some t), cu_generationLeadDays = None,
      cu_paymentTermDays = None, cu_graceDays = None, cu_cutoffEnabled = None,
      cu_firstPeriodMode = None, cu_billingStartDate = None\<rparr>"

text \<open>
  C19. Whatever sequence of policy updates and contract overrides succeeds, the policy that
  results for every contract (its overrides over the policy of the tenant, as the preview
  merges them) is within the ranges of the schema and never combines a cutoff on a fixed
  day with billing in arrears.
\<close>

theorem effective_policy_valid:
  assumes "policy_reachable contracts stamp db" and "db_policy db = Some p"
  shows "getPolicy db = Inr p
    \<and> validate_policy (preview_effective (plain_request (Some c)) (find_override c db) p) = Inr ()"
proof -
  note ok = policy_ok_reachable [OF assms(1)]
  have p: "settings_ok p" "\<not> incompatible p" using ok assms(2) by (auto simp: policy_ok_def)
  show ?thesis
  proof (cases "find_override c db")
    case None
    with p assms(2) show ?thesis
      by (simp add: getPolicy_def toPolicy_def validate_policy_def preview_effective_def
          plain_request_def of_before_def Let_def)
  next
    case (Some r)
    then have "override_ok r" "po_cutoffMode p = DIA_FIJO_CICLO \<Longrightarrow> cp_period_timing r \<noteq> Some VENCIDO"
      using find_override_in [OF Some] ok assms(2) by (auto simp: policy_ok_def)
    with p assms(2) Some show ?thesis
      by (cases "cp_period_timing r"; cases "cp_generation_lead_days r"; cases "cp_payment_term_days r";
          cases "cp_grace_days r")
        (simp_all add: getPolicy_def toPolicy_def validate_policy_def preview_effective_def
          plain_request_def of_before_def Let_def settings_ok_def incompatible_def override_ok_def)
  qed
qed

theorem effective_policy_valid_witness:
  "validate_policy (preview_effective (plain_request (Some ''k'')) (find_override ''k'' (seeded_db ''t0''))
     (seeded_policy ''t0'')) = Inr ()"
  using effective_policy_valid [of "\<lambda>_. True" "''t0''" "seeded_db ''t0''" "seeded_policy ''t0''" "''k''"]
  by (simp add: policy_reachable_def) (simp add: seeded_db_def)

text \<open>
  The stored policy with its cutoff after the due date: the starting point of the race
  below.
\<close>

definition grace_update :: "string \<Rightarrow> BillingPolicyUpdate" where
  "grace_update stamp = (same_settings (seeded_policy stamp))\<lparr>po_cutoffMode := VENCIMIENTO_MAS_GRACIA\<rparr>"

definition grace_db :: policy_db where
  "grace_db = \<lparr>db_policy = Some (policy_row (grace_update ''t0'') ''u'' ''t1''), db_overrides = []\<rparr>"

definition fixed_update :: BillingPolicyUpdate where
  "fixed_update = (same_settings (policy_row (grace_update ''t0'') ''u'' ''t1''))\<lparr>po_cutoffMode := DIA_FIJO_CICLO\<rparr>"

lemma grace_db_reachable: "policy_reachable contracts ''t0'' grace_db"
proof -
  have "updatePolicy (grace_update ''t0'') ''u'' ''t1'' (seeded_db ''t0'')
      = Inr (policy_row (grace_update ''t0'') ''u'' ''t1'', grace_db)"
    by code_simp
  then have "policy_step contracts (seeded_db ''t0'') grace_db" by (auto intro: step_policy)
  then show ?thesis by (simp add: policy_reachable_def)
qed

text \<open>
  The two writers do not exclude each other: the override reads the policy without a
  lock. If its checks run before the policy moves to a cutoff on a fixed day, and its
  write after, both transactions succeed and the contract ends with the combination that
  each of them rejects. (With a lock on the row that is read, the order of the three steps
  below could not occur.)
\<close>

lemma policy_writers_race:
  "\<exists>db row p db1 r db2. policy_reachable (\<lambda>_. True) ''t0'' db
    \<and> check_contract_policy ''k'' (timing_override VENCIDO) ''u'' ''t2'' db = Inr row
    \<and> updatePolicy fixed_update ''u'' ''t3'' db = Inr (p, db1)
    \<and> write_contract_policy (\<lambda>_. True) row db1 = Inr (r, db2)
    \<and> validate_policy (preview_effective (plain_request (Some ''k'')) (find_override ''k'' db2) p)
        = Inl policyIncompatible"
proof -
  let ?row = "merged_override ''k'' (timing_override VENCIDO) ''u'' ''t2'' None"
  let ?p = "policy_row fixed_update ''u'' ''t3''"
  let ?db1 = "\<lparr>db_policy = Some ?p, db_overrides = []\<rparr>"
  let ?db2 = "\<lparr>db_policy = Some ?p, db_overrides = [?row]\<rparr>"
  have "check_contract_policy ''k'' (timing_override VENCIDO) ''u'' ''t2'' grace_db = Inr ?row"
    "updatePolicy fixed_update ''u'' ''t3'' grace_db = Inr (?p, ?db1)"
    "write_contract_policy (\<lambda>_. True) ?row ?db1 = Inr (?row, ?db2)"
    "validate_policy (preview_effective (plain_request (Some ''k'')) (find_override ''k'' ?db2) ?p)
      = Inl policyIncompatible"
    by code_simp+
  with grace_db_reachable [of "\<lambda>_. True"] show ?thesis by blast
qed

end
