(* ===== verification/BillingLedger.thy ===== *)
theory BillingLedger
  imports BillingPolicy
begin

text \<open>
  The billing tables and the payments service:
  \<open>apps/api/src/modules/billing/payments/billing-payments.service.ts\<close> over migration 173.
  One database holds one tenant. Amounts are the cents of a \<open>numeric(14,2)\<close>; the service
  reads each through its text, \<open>read_money\<close>, which fails on a negative amount. An
  operation is one transaction: an error leaves the database as it was. The identifier of a
  new row (\<open>gen_random_uuid()\<close>), the stamp of \<open>now()\<close>, the digest function and the answer
  of the CRM about the titular are arguments. An allocation is known by its place in its
  table; its identifier is not modelled, nor is the audit log.
\<close>

section \<open>Tables\<close>

datatype BillingDocumentStatus = BORRADOR | EMITIDO | DOC_ANULADO

datatype BillingPaymentStatus = REGISTRADO | PAGO_ANULADO

datatype BillingPaymentMethod = EFECTIVO | TRANSFERENCIA | CONSIGNACION | DATAFONO | OTRO_METODO

datatype BillingPaymentVoidReason = ERROR_DE_REGISTRO | PAGO_RECHAZADO | PAGO_DUPLICADO

datatype BillingDocumentVoidReason =
  ERROR_DE_VALOR | ERROR_DE_ADQUIRENTE | DOC_DUPLICADO | SERVICIO_NO_PRESTADO | DOC_SUPLANTACION

datatype BillingBlockingReason = SIN_PRECIO | SIN_TRATAMIENTO_IVA | SIN_DATOS_FISCALES

datatype BillingPeriodPaymentState = SIN_DOCUMENTO | PAGADO | PERIODO_VENCIDO | PARCIAL | PENDIENTE

record period_row =
  pe_id :: string
  pe_contract_id :: string
  pe_subscriber_id :: string
  pe_period_start :: string
  pe_period_end :: string
  pe_covered_start :: string
  pe_generation_date :: string
  pe_due_date :: string
  pe_cutoff_date :: "string option"
  pe_effective_policy :: BillingPolicy

record document_row =
  do_id :: string
  do_period_id :: string
  do_contract_id :: string
  do_subscriber_id :: string
  do_status :: BillingDocumentStatus
  do_number :: "string option"
  do_issue_date :: "string option"
  do_due_date :: string
  do_subtotal :: int
  do_tax_total :: int
  do_total :: int
  do_blocking_reason :: "BillingBlockingReason option"
  do_void_reason_code :: "BillingDocumentVoidReason option"
  do_voided_by :: "string option"
  do_created_by :: "string option"
  do_created_at :: int

record payment_row =
  pa_id :: string
  pa_subscriber_id :: string
  pa_method :: BillingPaymentMethod
  pa_amount :: int
  pa_paid_at :: string
  pa_reference :: "string option"
  pa_note :: "string option"
  pa_idempotency_key :: string
  pa_allocations_fingerprint :: "string option"
  pa_status :: BillingPaymentStatus
  pa_void_reason_code :: "BillingPaymentVoidReason option"
  pa_void_note :: "string option"
  pa_voided_by :: "string option"
  pa_created_by :: string
  pa_created_at :: int

record allocation_row =
  al_payment_id :: string
  al_document_id :: string
  al_amount :: int
  al_reversed_by :: "string option"
  al_reversed_at :: "int option"
  al_created_by :: "string option"

record billing_db =
  bd_policy :: "BillingPolicy option"
  bd_periods :: "period_row list"
  bd_documents :: "document_row list"
  bd_payments :: "payment_row list"
  bd_allocations :: "allocation_row list"
  bd_signals :: "(string \<times> bool) list"

datatype period_event_name = Period_paid | Period_reopened

record period_event =
  ev_name :: period_event_name
  ev_contractId :: string
  ev_periodId :: string
  ev_periodStart :: string

section \<open>Queries\<close>

definition find_period :: "string \<Rightarrow> billing_db \<Rightarrow> period_row option" where
  "find_period k db = find (\<lambda>r. pe_id r = k) (bd_periods db)"

definition find_document :: "string \<Rightarrow> billing_db \<Rightarrow> document_row option" where
  "find_document k db = find (\<lambda>r. do_id r = k) (bd_documents db)"

definition findPaymentById :: "string \<Rightarrow> billing_db \<Rightarrow> payment_row option" where
  "findPaymentById k db = find (\<lambda>r. pa_id r = k) (bd_payments db)"

definition findPaymentByKey :: "string \<Rightarrow> billing_db \<Rightarrow> payment_row option" where
  "findPaymentByKey k db = find (\<lambda>r. pa_idempotency_key r = k) (bd_payments db)"

definition al_live :: "allocation_row \<Rightarrow> bool" where
  "al_live a \<longleftrightarrow> al_reversed_at a = None"

text \<open>The two sums over the live allocations, of a payment and of a document.\<close>

definition allocated_amount :: "string \<Rightarrow> allocation_row list \<Rightarrow> int" where
  "allocated_amount paymentId as =
     sum_list (map al_amount (filter (\<lambda>a. al_payment_id a = paymentId \<and> al_live a) as))"

definition paid_amount :: "string \<Rightarrow> allocation_row list \<Rightarrow> int" where
  "paid_amount documentId as =
     sum_list (map al_amount (filter (\<lambda>a. al_document_id a = documentId \<and> al_live a) as))"

definition signal_of :: "string \<Rightarrow> billing_db \<Rightarrow> bool" where
  "signal_of periodId db = (case map_of (bd_signals db) periodId of None \<Rightarrow> False | Some b \<Rightarrow> b)"

section \<open>Commands and answers\<close>

record PaymentAllocationInput =
  ai_documentId :: string
  ai_amount :: BillingMoney

record RegisterPaymentCommand =
  rp_subscriberId :: string
  rp_method :: BillingPaymentMethod
  rp_amount :: BillingMoney
  rp_paidAt :: string
  rp_reference :: "string option"
  rp_note :: "string option"
  rp_allocations :: "PaymentAllocationInput list option"

record CreditAllocationItem =
  ci_paymentId :: string
  ci_documentId :: string
  ci_amount :: BillingMoney

record AllocateCreditCommand =
  ac_subscriberId :: string
  ac_allocations :: "CreditAllocationItem list"

record VoidPaymentCommand =
  vp_reasonCode :: BillingPaymentVoidReason
  vp_note :: "string option"

record payment_response =
  re_row :: payment_row
  re_allocatedAmount :: string
  re_unallocatedAmount :: string
  re_allocations :: "allocation_row list"

text \<open>The answer of \<open>lockTitularForBillingWrite\<close>.\<close>

record titular_ref =
  ti_exists :: bool
  ti_anonymized :: bool

definition payments_isCivilDate :: "string \<Rightarrow> bool" where
  "payments_isCivilDate value =
     (case match_civil value of
        None \<Rightarrow> False
      | Some (year, month, day) \<Rightarrow>
          (if year < 1 \<or> month < 1 \<or> month > 12 \<or> day < 1 then False
           else
             let leap = year mod 4 = 0 \<and> (year mod 100 \<noteq> 0 \<or> year mod 400 = 0);
                 daysInMonth = (if month = 2 then if leap then 29 else 28
                                else if month \<in> {4, 6, 9, 11} then 30 else 31)
             in day \<le> daysInMonth))"

definition register_command_ok :: "RegisterPaymentCommand \<Rightarrow> bool" where
  "register_command_ok c \<longleftrightarrow> money_input_ok (rp_amount c) \<and> payments_isCivilDate (rp_paidAt c)
     \<and> opt_all (\<lambda>s. length s \<le> 80) (rp_reference c) \<and> opt_all (\<lambda>s. length s \<le> 500) (rp_note c)
     \<and> opt_all (list_all (\<lambda>i. money_input_ok (ai_amount i))) (rp_allocations c)"

definition credit_command_ok :: "AllocateCreditCommand \<Rightarrow> bool" where
  "credit_command_ok c \<longleftrightarrow> ac_allocations c \<noteq> []
     \<and> list_all (\<lambda>i. money_input_ok (ci_amount i)) (ac_allocations c)"

definition void_payment_command_ok :: "VoidPaymentCommand \<Rightarrow> bool" where
  "void_payment_command_ok c \<longleftrightarrow> opt_all (\<lambda>s. length s \<le> 500) (vp_note c)"

text \<open>\<open>!key || key.trim().length === 0 || key.length > 80\<close>.\<close>

definition idempotency_key_ok :: "string option \<Rightarrow> bool" where
  "idempotency_key_ok k = (case k of None \<Rightarrow> False | Some s \<Rightarrow> js_trim s \<noteq> [] \<and> length s \<le> 80)"

definition subscriberNotFound :: http_error where
  "subscriberNotFound = Not_Found ''BILLING_SUBSCRIBER_NOT_FOUND''"

definition anonymizedConflict :: http_error where
  "anonymizedConflict = Conflict ''PRIVACY_TITULAR_ANONYMIZED''"

definition idempotencyConflict :: http_error where
  "idempotencyConflict = Conflict ''IDEMPOTENCY_KEY_REUSED''"

definition paymentVoidedConflict :: http_error where
  "paymentVoidedConflict = Conflict ''BILLING_PAYMENT_VOIDED''"

definition paymentNotFound :: http_error where
  "paymentNotFound = Not_Found ''BILLING_PAYMENT_NOT_FOUND''"

definition documentNotFound :: http_error where
  "documentNotFound = Not_Found ''BILLING_DOCUMENT_NOT_FOUND''"

definition documentNotIssued :: http_error where
  "documentNotIssued = Conflict ''BILLING_DOCUMENT_NOT_ISSUED''"

definition allocationExceeded :: http_error where
  "allocationExceeded = Unprocessable ''BILLING_ALLOCATION_EXCEEDS_BALANCE''"

definition validation_error :: http_error where
  "validation_error = Unprocessable ''VALIDATION_ERROR''"

section \<open>Idempotency\<close>

record fingerprint_item =
  fi_documentId :: string
  fi_amount :: string

definition fingerprint_le :: "fingerprint_item \<Rightarrow> fingerprint_item \<Rightarrow> bool" where
  "fingerprint_le l r \<longleftrightarrow> (if fi_documentId l = fi_documentId r then js_le (fi_amount l) (fi_amount r)
                           else js_le (fi_documentId l) (fi_documentId r))"

text \<open>
  \<open>JSON.stringify(canonical)\<close>: an identifier is a UUID and an amount is digits and a
  point, so that no character is escaped.
\<close>

definition json_item :: "fingerprint_item \<Rightarrow> string" where
  "json_item i = ''{\"documentId\":\"'' @ fi_documentId i @ ''\",\"amount\":\"'' @ fi_amount i @ ''\"}''"

fun json_items :: "fingerprint_item list \<Rightarrow> string" where
  "json_items [] = ''''"
| "json_items [i] = json_item i"
| "json_items (i # is) = json_item i @ '','' @ json_items is"

definition json_array :: "fingerprint_item list \<Rightarrow> string" where
  "json_array is = ''['' @ json_items is @ '']''"

definition canonical_allocations :: "PaymentAllocationInput list \<Rightarrow> fingerprint_item list result" where
  "canonical_allocations allocations =
     res_bind (res_map (\<lambda>i. res_bind (moneyCents (ai_amount i)) (\<lambda>c.
                  Inr \<lparr>fi_documentId = ai_documentId i, fi_amount = centsMoney c\<rparr>)) allocations) (\<lambda>items.
     Inr (js_sort fingerprint_le items))"

text \<open>\<open>sha256\<close> stands for \<open>createHash('sha256').update(s).digest('hex')\<close>.\<close>

definition allocationsFingerprint ::
  "(string \<Rightarrow> string) \<Rightarrow> PaymentAllocationInput list option \<Rightarrow> string option result" where
  "allocationsFingerprint sha256 allocations =
     (case allocations of
        None \<Rightarrow> Inr None
      | Some is \<Rightarrow> res_bind (canonical_allocations is) (\<lambda>canonical. Inr (Some (sha256 (json_array canonical)))))"

text \<open>
  The comparison of a repeated request: \<open>existing.amount\<close> is the text of the column,
  \<open>command.amount\<close> the text that was sent. \<open>paid_at.slice(0, 10)\<close> of a date is the date.
\<close>

definition assertSameIdempotentRequest ::
  "(string \<Rightarrow> string) \<Rightarrow> payment_row \<Rightarrow> RegisterPaymentCommand \<Rightarrow> unit result" where
  "assertSameIdempotentRequest sha256 existing command =
     (let amount = money_decimal (rp_amount command);
          sameFields = pa_subscriber_id existing = rp_subscriberId command
            \<and> pa_method existing = rp_method command
            \<and> numeric_text (pa_amount existing) = amount
            \<and> take 10 (pa_paid_at existing) = rp_paidAt command
            \<and> pa_reference existing = rp_reference command
            \<and> pa_note existing = rp_note command
      in res_bind (guard_ok sameFields idempotencyConflict) (\<lambda>_.
         res_bind (allocationsFingerprint sha256 (rp_allocations command)) (\<lambda>fp.
           guard_ok (pa_allocations_fingerprint existing = fp) idempotencyConflict)))"

section \<open>Allocations\<close>

text \<open>\<open>billingMoneyStringSchema\<close>, which every amount of an answer passes.\<close>

definition money_string_ok :: "string \<Rightarrow> bool" where
  "money_string_ok s = (match_money s \<noteq> None)"

definition toPaymentResponse :: "payment_row \<Rightarrow> billing_db \<Rightarrow> payment_response result" where
  "toPaymentResponse row db =
     res_bind (read_money (allocated_amount (pa_id row) (bd_allocations db))) (\<lambda>allocated.
     res_bind (read_money (pa_amount row)) (\<lambda>amount.
     let candidate =
           \<lparr>re_row = row, re_allocatedAmount = centsMoney allocated,
            re_unallocatedAmount = centsMoney (amount - allocated),
            re_allocations = filter (\<lambda>a. al_payment_id a = pa_id row) (bd_allocations db)\<rparr>
     in res_bind (guard_ok (money_string_ok (re_allocatedAmount candidate)
                    \<and> money_string_ok (re_unallocatedAmount candidate)) Plain_Error) (\<lambda>_.
        Inr candidate)))"

text \<open>
  One turn of the loop of \<open>applyAllocations\<close>; an item is the document, the amount that was
  asked and its cents. The state of the loop is \<open>paymentRemaining\<close>, the periods met so far
  (a \<open>Set\<close>, in order of insertion) and the database.
\<close>

record apply_item =
  it_documentId :: string
  it_cents :: int

type_synonym apply_state = "int \<times> string list \<times> billing_db"

definition set_insert :: "string \<Rightarrow> string list \<Rightarrow> string list" where
  "set_insert x xs = (if x \<in> set xs then xs else xs @ [x])"

definition apply_one ::
  "string \<Rightarrow> string \<Rightarrow> string option \<Rightarrow> apply_item \<Rightarrow> apply_state \<Rightarrow> apply_state result" where
  "apply_one paymentId subscriberId actorId item = (\<lambda>(paymentRemaining, periods, db).
     res_bind (guard_ok (\<not> (it_cents item \<le> 0 \<or> it_cents item > paymentRemaining)) allocationExceeded) (\<lambda>_.
     case find_document (it_documentId item) db of
       None \<Rightarrow> Inl documentNotFound
     | Some document \<Rightarrow>
         res_bind (guard_ok (do_subscriber_id document = subscriberId) documentNotFound) (\<lambda>_.
         res_bind (guard_ok (do_status document = EMITIDO) documentNotIssued) (\<lambda>_.
         res_bind (read_money (do_total document)) (\<lambda>total.
         res_bind (read_money (paid_amount (do_id document) (bd_allocations db))) (\<lambda>paid.
         let pending = total - paid
         in res_bind (guard_ok (\<not> it_cents item > pending) allocationExceeded) (\<lambda>_.
            Inr (paymentRemaining - it_cents item, set_insert (do_period_id document) periods,
                 db\<lparr>bd_allocations := bd_allocations db @
                   [\<lparr>al_payment_id = paymentId, al_document_id = do_id document,
                     al_amount = it_cents item, al_reversed_by = None, al_reversed_at = None,
                     al_created_by = actorId\<rparr>]\<rparr>)))))))) "

definition item_le :: "apply_item \<Rightarrow> apply_item \<Rightarrow> bool" where
  "item_le l r \<longleftrightarrow> js_le (it_documentId l) (it_documentId r)"

definition applyAllocations ::
  "string \<Rightarrow> string \<Rightarrow> (string \<times> string) list \<Rightarrow> string option \<Rightarrow> billing_db \<Rightarrow>
    (string list \<times> billing_db) result" where
  "applyAllocations paymentId subscriberId allocations actorId db =
     (if allocations = [] then Inr ([], db)
      else
        case find (\<lambda>r. pa_id r = paymentId \<and> pa_subscriber_id r = subscriberId \<and> pa_status r = REGISTRADO)
               (bd_payments db) of
          None \<Rightarrow> Inl paymentNotFound
        | Some payment \<Rightarrow>
            res_bind (read_money (pa_amount payment)) (\<lambda>amount.
            res_bind (read_money (allocated_amount paymentId (bd_allocations db))) (\<lambda>used.
            let paymentRemaining = amount - used
            in res_bind (res_map (\<lambda>(documentId, amount).
                  res_bind (text_cents amount) (\<lambda>c. Inr \<lparr>it_documentId = documentId, it_cents = c\<rparr>))
                  allocations) (\<lambda>items.
               res_bind (res_fold (apply_one paymentId subscriberId actorId) (js_sort item_le items)
                          (paymentRemaining, [], db)) (\<lambda>(_, periods, db').
               Inr (periods, db'))))))"

text \<open>The documents of the subscriber that are open, and the FIFO suggestion over them.\<close>

definition suggestAllocations :: "string \<Rightarrow> BillingMoney \<Rightarrow> billing_db \<Rightarrow> (string \<times> string) list result" where
  "suggestAllocations subscriberId amount db =
     (let rows = filter (\<lambda>d. do_subscriber_id d = subscriberId \<and> do_status d = EMITIDO) (bd_documents db)
      in res_bind (suggestFifoAllocations amount
           (map (\<lambda>d. \<lparr>fc_documentId = do_id d, fc_dueDate = do_due_date d,
                      fc_pendingAmount = Money_text (numeric_text
                        (do_total d - paid_amount (do_id d) (bd_allocations db)))\<rparr>) rows)) (\<lambda>as.
         Inr (map (\<lambda>a. (fa_documentId a, fa_amount a)) as)))"

section \<open>Signals\<close>

definition has_document :: "string \<Rightarrow> billing_db \<Rightarrow> bool" where
  "has_document periodId db =
     list_ex (\<lambda>d. do_period_id d = periodId \<and> do_status d = EMITIDO) (bd_documents db)"

definition all_paid :: "string \<Rightarrow> billing_db \<Rightarrow> bool" where
  "all_paid periodId db =
     (\<not> list_ex (\<lambda>d. do_period_id d = periodId \<and> do_status d = EMITIDO
                   \<and> do_total d > paid_amount (do_id d) (bd_allocations db)) (bd_documents db))"

definition put_signal :: "string \<Rightarrow> bool \<Rightarrow> (string \<times> bool) list \<Rightarrow> (string \<times> bool) list" where
  "put_signal periodId paid signals =
     (if map_of signals periodId = None then signals @ [(periodId, paid)]
      else map (\<lambda>(k, b). if k = periodId then (k, paid) else (k, b)) signals)"

definition recalculate_one :: "string \<Rightarrow> billing_db \<times> period_event list \<Rightarrow> billing_db \<times> period_event list" where
  "recalculate_one periodId = (\<lambda>(db, events).
     case find_period periodId db of
       None \<Rightarrow> (db, events)
     | Some period \<Rightarrow>
         let before = signal_of periodId db;
             paid = has_document periodId db \<and> all_paid periodId db;
             db' = db\<lparr>bd_signals := put_signal periodId paid (bd_signals db)\<rparr>
         in if before \<noteq> paid
            then (db', events @ [\<lparr>ev_name = (if paid then Period_paid else Period_reopened),
                    ev_contractId = pe_contract_id period, ev_periodId = pe_id period,
                    ev_periodStart = pe_period_start period\<rparr>])
            else (db', events))"

definition recalculateSignals :: "string list \<Rightarrow> billing_db \<Rightarrow> billing_db \<times> period_event list" where
  "recalculateSignals periodIds db =
     fold recalculate_one (js_sort js_le (remdups periodIds)) (db, [])"

section \<open>Payments\<close>

definition requireTitular :: "titular_ref \<Rightarrow> unit result" where
  "requireTitular titular =
     res_bind (guard_ok (ti_exists titular) subscriberNotFound) (\<lambda>_.
     guard_ok (\<not> ti_anonymized titular) anonymizedConflict)"

definition payment_of_command ::
  "string \<Rightarrow> RegisterPaymentCommand \<Rightarrow> int \<Rightarrow> string \<Rightarrow> string option \<Rightarrow> string \<Rightarrow> int \<Rightarrow> payment_row" where
  "payment_of_command rowid command cents idempotencyKey fingerprint actorId now =
     \<lparr>pa_id = rowid, pa_subscriber_id = rp_subscriberId command, pa_method = rp_method command,
      pa_amount = cents, pa_paid_at = rp_paidAt command, pa_reference = rp_reference command,
      pa_note = rp_note command, pa_idempotency_key = idempotencyKey,
      pa_allocations_fingerprint = fingerprint, pa_status = REGISTRADO, pa_void_reason_code = None,
      pa_void_note = None, pa_voided_by = None, pa_created_by = actorId, pa_created_at = now\<rparr>"

text \<open>The allocations of the command, or the FIFO suggestion.\<close>

definition chosen_allocations :: "RegisterPaymentCommand \<Rightarrow> billing_db \<Rightarrow> (string \<times> string) list result" where
  "chosen_allocations command db =
     (case rp_allocations command of
        Some is \<Rightarrow> Inr (map (\<lambda>i. (ai_documentId i, money_decimal (ai_amount i))) is)
      | None \<Rightarrow> suggestAllocations (rp_subscriberId command) (rp_amount command) db)"

text \<open>
  \<open>registerPayment\<close>. The insert does nothing on a repeated key, which under the lock of the
  subscriber was just found free: its second reading of the key has no case here.
\<close>

definition registerPayment ::
  "(string \<Rightarrow> string) \<Rightarrow> (string \<Rightarrow> titular_ref) \<Rightarrow> string \<Rightarrow> int \<Rightarrow> RegisterPaymentCommand \<Rightarrow>
    string option \<Rightarrow> string \<Rightarrow> billing_db \<Rightarrow> (payment_response \<times> period_event list \<times> billing_db) result" where
  "registerPayment sha256 titular rowid now command key actorId db =
     res_bind (guard_ok (register_command_ok command) validation_error) (\<lambda>_.
     res_bind (guard_ok (idempotency_key_ok key) (Unprocessable ''IDEMPOTENCY_KEY_REQUIRED'')) (\<lambda>_.
     let idempotencyKey = the key
     in res_bind (requireTitular (titular (rp_subscriberId command))) (\<lambda>_.
        case findPaymentByKey idempotencyKey db of
          Some existing \<Rightarrow>
            res_bind (assertSameIdempotentRequest sha256 existing command) (\<lambda>_.
            res_bind (toPaymentResponse existing db) (\<lambda>response. Inr (response, [], db)))
        | None \<Rightarrow>
            res_bind (moneyCents (rp_amount command)) (\<lambda>cents.
            res_bind (allocationsFingerprint sha256 (rp_allocations command)) (\<lambda>fingerprint.
            let row = payment_of_command rowid command cents idempotencyKey fingerprint actorId now;
                db1 = db\<lparr>bd_payments := bd_payments db @ [row]\<rparr>
            in res_bind (chosen_allocations command db1) (\<lambda>allocations.
               res_bind (applyAllocations rowid (rp_subscriberId command) allocations (Some actorId) db1) (\<lambda>(periods, db2).
               let (db3, events) = recalculateSignals periods db2
               in case findPaymentById rowid db3 of
                    None \<Rightarrow> Inl Plain_Error
                  | Some payment \<Rightarrow>
                      res_bind (toPaymentResponse payment db3) (\<lambda>response. Inr (response, events, db3)))))))))"

definition allocateCredit ::
  "(string \<Rightarrow> titular_ref) \<Rightarrow> string \<Rightarrow> AllocateCreditCommand \<Rightarrow> string \<Rightarrow> billing_db \<Rightarrow>
    (payment_response \<times> period_event list \<times> billing_db) result" where
  "allocateCredit titular paymentId command actorId db =
     res_bind (guard_ok (credit_command_ok command
                 \<and> \<not> list_ex (\<lambda>i. ci_paymentId i \<noteq> paymentId) (ac_allocations command)) validation_error) (\<lambda>_.
     res_bind (requireTitular (titular (ac_subscriberId command))) (\<lambda>_.
     case findPaymentById paymentId db of
       None \<Rightarrow> Inl paymentNotFound
     | Some payment \<Rightarrow>
         res_bind (guard_ok (pa_status payment = REGISTRADO) paymentVoidedConflict) (\<lambda>_.
         res_bind (guard_ok (pa_subscriber_id payment = ac_subscriberId command) validation_error) (\<lambda>_.
         let allocations = map (\<lambda>i. (ci_documentId i, money_decimal (ci_amount i))) (ac_allocations command)
         in res_bind (applyAllocations paymentId (ac_subscriberId command) allocations (Some actorId) db) (\<lambda>(periods, db1).
            let (db2, events) = recalculateSignals periods db1
            in case findPaymentById paymentId db2 of
                 None \<Rightarrow> Inl Plain_Error
               | Some after \<Rightarrow>
                   res_bind (toPaymentResponse after db2) (\<lambda>response. Inr (response, events, db2)))))))"

definition reverse_if :: "(allocation_row \<Rightarrow> bool) \<Rightarrow> string \<Rightarrow> int \<Rightarrow> allocation_row \<Rightarrow> allocation_row" where
  "reverse_if P actorId now a =
     (if P a \<and> al_live a then a\<lparr>al_reversed_at := Some now, al_reversed_by := Some actorId\<rparr> else a)"

definition voidPayment ::
  "string \<Rightarrow> VoidPaymentCommand \<Rightarrow> string \<Rightarrow> int \<Rightarrow> billing_db \<Rightarrow>
    (payment_response \<times> period_event list \<times> billing_db) result" where
  "voidPayment paymentId command actorId now db =
     res_bind (guard_ok (void_payment_command_ok command) validation_error) (\<lambda>_.
     case findPaymentById paymentId db of
       None \<Rightarrow> Inl paymentNotFound
     | Some payment \<Rightarrow>
         res_bind (guard_ok (pa_status payment = REGISTRADO) paymentVoidedConflict) (\<lambda>_.
         let periods = concat (map (\<lambda>a. map do_period_id (filter (\<lambda>d. do_id d = al_document_id a) (bd_documents db)))
               (filter (\<lambda>a. al_payment_id a = paymentId \<and> al_live a) (bd_allocations db)));
             db1 = db\<lparr>bd_allocations := map (reverse_if (\<lambda>a. al_payment_id a = paymentId) actorId now) (bd_allocations db)\<rparr>;
             db2 = db1\<lparr>bd_payments := map (\<lambda>p. if pa_id p = paymentId
                       then p\<lparr>pa_status := PAGO_ANULADO, pa_void_reason_code := Some (vp_reasonCode command),
                              pa_void_note := vp_note command, pa_voided_by := Some actorId\<rparr>
                       else p) (bd_payments db1)\<rparr>;
             (db3, events) = recalculateSignals periods db2
         in case findPaymentById paymentId db3 of
              None \<Rightarrow> Inl Plain_Error
            | Some after \<Rightarrow>
                res_bind (toPaymentResponse after db3) (\<lambda>response. Inr (response, events, db3))))"

text \<open>\<open>getPayment\<close>.\<close>

definition getPayment :: "string \<Rightarrow> billing_db \<Rightarrow> payment_response result" where
  "getPayment paymentId db =
     (case findPaymentById paymentId db of
        None \<Rightarrow> Inl paymentNotFound
      | Some payment \<Rightarrow> toPaymentResponse payment db)"

section \<open>Credit applied at issue\<close>

definition payment_le :: "payment_row \<Rightarrow> payment_row \<Rightarrow> bool" where
  "payment_le l r \<longleftrightarrow>
     (if pa_paid_at l = pa_paid_at r
      then if pa_created_at l = pa_created_at r then js_le (pa_id l) (pa_id r)
           else pa_created_at l \<le> pa_created_at r
      else js_le (pa_paid_at l) (pa_paid_at r))"

definition credit_one ::
  "string \<Rightarrow> string \<Rightarrow> string option \<Rightarrow> payment_row \<Rightarrow> string list \<times> billing_db \<Rightarrow> (string list \<times> billing_db) result" where
  "credit_one documentId subscriberId actorId payment = (\<lambda>(periods, db).
     res_bind (case find_document documentId db of
                 None \<Rightarrow> Inr 0
               | Some d \<Rightarrow> read_money (do_total d - paid_amount documentId (bd_allocations db))) (\<lambda>pending.
     res_bind (read_money (pa_amount payment)) (\<lambda>amt.
     res_bind (read_money (allocated_amount (pa_id payment) (bd_allocations db))) (\<lambda>used.
     let amount = min pending (amt - used)
     in if amount \<le> 0 then Inr (periods, db)
        else res_bind (applyAllocations (pa_id payment) subscriberId [(documentId, centsMoney amount)] actorId db)
               (\<lambda>(affected, db'). Inr (fold set_insert affected periods, db'))))))"

definition applyCreditWithin ::
  "string \<Rightarrow> string \<Rightarrow> string option \<Rightarrow> billing_db \<Rightarrow> (period_event list \<times> billing_db) result" where
  "applyCreditWithin documentId subscriberId actorId db =
     (let payments = js_sort payment_le
            (filter (\<lambda>p. pa_subscriber_id p = subscriberId \<and> pa_status p = REGISTRADO) (bd_payments db))
      in res_bind (res_fold (credit_one documentId subscriberId actorId) payments ([], db)) (\<lambda>(periods, db').
         let (db'', events) = recalculateSignals periods db' in Inr (events, db'')))"

section \<open>Reading amounts\<close>

lemma text_cents_centsMoney:
  assumes "0 \<le> c" and "text_cents (centsMoney c) = Inr d"
  shows "d = c"
proof -
  have d: "0 \<le> c div 100" "0 \<le> c mod 100" "c mod 100 < 10 ^ 2" using assms(1) by simp_all
  let ?w = "show_pos (c div 100)" and ?f = "pad_num 2 (c mod 100)"
  have s: "centsMoney c = ?w @ CHR ''.'' # ?f" using d by (simp add: centsMoney_def show_int_def)
  have t: "takeWhile is_digit (?w @ CHR ''.'' # ?f) = ?w"
    using d by (intro takeWhile_digits) simp_all
  have "match_money (centsMoney c) = Some (?w, Some ?f) \<or> match_money (centsMoney c) = None"
    using length_pad_num [OF d(2,3)] d by (auto simp: s match_money_def t Let_def)
  then have "d = parse_digits ?w * 100 + parse_digits (pad_end2 ?f)"
    using assms(2) by (auto simp: text_cents_def)
  moreover have "pad_end2 ?f = ?f" using length_pad_num [OF d(2,3)] by (simp add: pad_end2_def)
  ultimately show ?thesis using d by simp
qed

lemma read_money_eq:
  assumes "read_money c = Inr d"
  shows "d = c \<and> money_range c"
proof (cases "c < 0")
  case True
  with assms show ?thesis by (simp add: read_money_negative)
next
  case False
  then have "text_cents (centsMoney c) = Inr d" using assms by (simp add: read_money_def numeric_text_def)
  with False text_cents_centsMoney [of c d] text_cents_bounds show ?thesis by auto
qed

lemma money_string_centsMoney: "money_range c \<Longrightarrow> money_string_ok (centsMoney c)"
  using cents_of_text [of c] by (auto simp: money_string_ok_def text_cents_def split: option.splits)

section \<open>Sums over live allocations\<close>

definition live_sum :: "(allocation_row \<Rightarrow> bool) \<Rightarrow> allocation_row list \<Rightarrow> int" where
  "live_sum P as = sum_list (map al_amount (filter (\<lambda>a. P a \<and> al_live a) as))"

lemma live_sums:
  "allocated_amount p = live_sum (\<lambda>a. al_payment_id a = p)"
  "paid_amount d = live_sum (\<lambda>a. al_document_id a = d)"
  by (intro ext, simp add: allocated_amount_def paid_amount_def live_sum_def)+

lemma live_sum_Nil [simp]: "live_sum P [] = 0"
  by (simp add: live_sum_def)

lemma live_sum_append [simp]: "live_sum P (as @ bs) = live_sum P as + live_sum P bs"
  by (simp add: live_sum_def)

lemma live_sum_Cons:
  "live_sum P (a # as) = (if P a \<and> al_live a then al_amount a else 0) + live_sum P as"
  by (simp add: live_sum_def)

lemma live_sum_nonneg: "(\<And>a. a \<in> set as \<Longrightarrow> 0 \<le> al_amount a) \<Longrightarrow> 0 \<le> live_sum P as"
  by (auto simp: live_sum_def intro!: sum_list_nonneg)

lemma live_sum_mono:
  assumes "\<And>a. a \<in> set as \<Longrightarrow> 0 \<le> al_amount a" and "\<And>a. a \<in> set as \<Longrightarrow> P a \<Longrightarrow> Q a"
  shows "live_sum P as \<le> live_sum Q as"
  using assms by (induction as) (force simp: live_sum_Cons)+

lemma live_sum_none: "(\<And>a. a \<in> set as \<Longrightarrow> P a \<Longrightarrow> \<not> al_live a) \<Longrightarrow> live_sum P as = 0"
  by (induction as) (auto simp: live_sum_Cons)

lemma live_sum_cong:
  "(\<And>a. a \<in> set as \<Longrightarrow> al_live a \<Longrightarrow> P a = Q a) \<Longrightarrow> live_sum P as = live_sum Q as"
  by (induction as) (auto simp: live_sum_Cons)

lemma reverse_if_simps [simp]:
  "al_payment_id (reverse_if P u n a) = al_payment_id a"
  "al_document_id (reverse_if P u n a) = al_document_id a"
  "al_amount (reverse_if P u n a) = al_amount a"
  "al_live (reverse_if P u n a) \<longleftrightarrow> al_live a \<and> \<not> P a"
  by (auto simp: reverse_if_def al_live_def)

lemma live_sum_reverse:
  "(\<And>a. Q (reverse_if P u n a) = Q a) \<Longrightarrow>
    live_sum Q (map (reverse_if P u n) as) = live_sum (\<lambda>a. Q a \<and> \<not> P a) as"
  by (induction as) (auto simp: live_sum_Cons)

lemma paid_reverse:
  "paid_amount d (map (reverse_if P u n) as) = live_sum (\<lambda>a. al_document_id a = d \<and> \<not> P a) as"
  unfolding live_sums by (rule live_sum_reverse) simp

lemma allocated_reverse:
  "allocated_amount p (map (reverse_if P u n) as) = live_sum (\<lambda>a. al_payment_id a = p \<and> \<not> P a) as"
  unfolding live_sums by (rule live_sum_reverse) simp

section \<open>Signals\<close>

definition period_paid :: "string \<Rightarrow> billing_db \<Rightarrow> bool" where
  "period_paid k db \<longleftrightarrow> has_document k db \<and> all_paid k db"

definition event_of :: "billing_db \<Rightarrow> string \<Rightarrow> period_event" where
  "event_of db k = (case find_period k db of
     Some period \<Rightarrow> \<lparr>ev_name = (if period_paid k db then Period_paid else Period_reopened),
       ev_contractId = pe_contract_id period, ev_periodId = k, ev_periodStart = pe_period_start period\<rparr>)"

definition signal_changes :: "billing_db \<Rightarrow> string \<Rightarrow> bool" where
  "signal_changes db k \<longleftrightarrow> find_period k db \<noteq> None \<and> signal_of k db \<noteq> period_paid k db"

lemma signal_put [simp]:
  "signal_of k (db\<lparr>bd_signals := put_signal j b (bd_signals db)\<rparr>) = (if k = j then b else signal_of k db)"
proof -
  have "map_of (put_signal j b ss) = (map_of ss)(j \<mapsto> b)" for ss
  proof -
    have "map_of (map (\<lambda>(k, c). if k = j then (k, b) else (k, c)) ss)
        = (\<lambda>k. if k = j \<and> map_of ss k \<noteq> None then Some b else map_of ss k)"
      by (induction ss) (auto simp: fun_eq_iff split: prod.split)
    then show ?thesis by (auto simp: put_signal_def map_add_def fun_eq_iff split: option.splits)
  qed
  then show ?thesis by (simp add: signal_of_def)
qed

lemma signals_irrelevant [simp]:
  "find_period k (db\<lparr>bd_signals := S\<rparr>) = find_period k db"
  "period_paid k (db\<lparr>bd_signals := S\<rparr>) = period_paid k db"
  "has_document k (db\<lparr>bd_signals := S\<rparr>) = has_document k db"
  "all_paid k (db\<lparr>bd_signals := S\<rparr>) = all_paid k db"
  "event_of (db\<lparr>bd_signals := S\<rparr>) = event_of db"
  "findPaymentById r (db\<lparr>bd_signals := S\<rparr>) = findPaymentById r db"
  "find_document r (db\<lparr>bd_signals := S\<rparr>) = find_document r db"
  by (simp_all add: find_period_def period_paid_def has_document_def all_paid_def event_of_def
      findPaymentById_def find_document_def fun_eq_iff cong: option.case_cong)

lemma recalculate_one_eq:
  "recalculate_one k (db, es) =
     (if find_period k db = None then (db, es)
      else (db\<lparr>bd_signals := put_signal k (period_paid k db) (bd_signals db)\<rparr>,
            es @ (if signal_changes db k then [event_of db k] else [])))"
proof (cases "find_period k db")
  case (Some p)
  then have "pe_id p = k" unfolding find_period_def using find_Some_iff_hd by fastforce
  with Some show ?thesis
    by (auto simp: recalculate_one_def Let_def signal_changes_def event_of_def period_paid_def)
qed (simp add: recalculate_one_def)

lemma recalculate_fold:
  assumes "distinct ks"
  shows "\<exists>S. fold recalculate_one ks (db, es) =
      (db\<lparr>bd_signals := S\<rparr>, es @ map (event_of db) (filter (signal_changes db) ks))
    \<and> (\<forall>k. signal_of k (db\<lparr>bd_signals := S\<rparr>) =
         (if k \<in> set ks \<and> find_period k db \<noteq> None then period_paid k db else signal_of k db))"
  using assms
proof (induction ks arbitrary: db es)
  case Nil
  show ?case by (rule exI [of _ "bd_signals db"]) simp
next
  case (Cons j ks)
  show ?case
  proof (cases "find_period j db = None")
    case True
    then have "\<not> signal_changes db j" by (simp add: signal_changes_def)
    moreover obtain S where "fold recalculate_one ks (db, es) =
        (db\<lparr>bd_signals := S\<rparr>, es @ map (event_of db) (filter (signal_changes db) ks))"
      "\<And>k. signal_of k (db\<lparr>bd_signals := S\<rparr>) =
         (if k \<in> set ks \<and> find_period k db \<noteq> None then period_paid k db else signal_of k db)"
      using Cons.IH [of db es] Cons.prems by auto
    ultimately show ?thesis using True by (intro exI [of _ S]) (auto simp: recalculate_one_eq)
  next
    case False
    let ?db = "db\<lparr>bd_signals := put_signal j (period_paid j db) (bd_signals db)\<rparr>"
    let ?es = "es @ (if signal_changes db j then [event_of db j] else [])"
    obtain S where S: "fold recalculate_one ks (?db, ?es) =
        (?db\<lparr>bd_signals := S\<rparr>, ?es @ map (event_of ?db) (filter (signal_changes ?db) ks))"
      "\<And>k. signal_of k (?db\<lparr>bd_signals := S\<rparr>) =
         (if k \<in> set ks \<and> find_period k ?db \<noteq> None then period_paid k ?db else signal_of k ?db)"
      using Cons.IH [of ?db ?es] Cons.prems by auto
    have "filter (signal_changes ?db) ks = filter (signal_changes db) ks"
      using Cons.prems by (intro filter_cong) (auto simp: signal_changes_def)
    with S False Cons.prems show ?thesis
      by (intro exI [of _ S]) (auto simp: recalculate_one_eq)
  qed
qed

text \<open>What one recalculation does, in one equation.\<close>

lemma recalculateSignals_spec:
  obtains S where "recalculateSignals ids db =
      (db\<lparr>bd_signals := S\<rparr>, map (event_of db) (filter (signal_changes db) (js_sort js_le (remdups ids))))"
    and "\<And>k. signal_of k (db\<lparr>bd_signals := S\<rparr>) =
      (if k \<in> set ids \<and> find_period k db \<noteq> None then period_paid k db else signal_of k db)"
proof -
  have "distinct (js_sort js_le (remdups ids))" using distinct_js_sort [of "\<lambda>x::string. x"] by simp
  from recalculate_fold [OF this, of db "[]"] that show ?thesis
    unfolding recalculateSignals_def by auto
qed

section \<open>The invariant of the books\<close>

definition allocation_ok :: "billing_db \<Rightarrow> allocation_row \<Rightarrow> bool" where
  "allocation_ok db a \<longleftrightarrow> 0 < al_amount a
     \<and> (\<exists>p \<in> set (bd_payments db). \<exists>d \<in> set (bd_documents db).
          pa_id p = al_payment_id a \<and> do_id d = al_document_id a \<and> do_subscriber_id d = pa_subscriber_id p
        \<and> do_status d \<noteq> BORRADOR
        \<and> (al_live a \<longrightarrow> pa_status p = REGISTRADO \<and> do_status d = EMITIDO))"

definition payments_ok :: "billing_db \<Rightarrow> bool" where
  "payments_ok db \<longleftrightarrow> distinct (map pa_id (bd_payments db)) \<and> distinct (map pa_idempotency_key (bd_payments db))
     \<and> (\<forall>p \<in> set (bd_payments db). 0 < pa_amount p \<and> money_range (pa_amount p)
          \<and> allocated_amount (pa_id p) (bd_allocations db) \<le> pa_amount p)"

definition documents_paid_ok :: "billing_db \<Rightarrow> bool" where
  "documents_paid_ok db \<longleftrightarrow> distinct (map do_id (bd_documents db))
     \<and> (\<forall>d \<in> set (bd_documents db). money_range (do_total d)
          \<and> paid_amount (do_id d) (bd_allocations db) \<le> do_total d)"

definition book_ok :: "billing_db \<Rightarrow> bool" where
  "book_ok db \<longleftrightarrow> payments_ok db \<and> documents_paid_ok db \<and> (\<forall>a \<in> set (bd_allocations db). allocation_ok db a)"

text \<open>A period is settled when its issued document has a balance to pay and it is paid.\<close>

definition settled :: "string \<Rightarrow> billing_db \<Rightarrow> bool" where
  "settled k db \<longleftrightarrow> (\<exists>d \<in> set (bd_documents db). do_period_id d = k \<and> do_status d = EMITIDO
     \<and> 0 < do_total d \<and> do_total d \<le> paid_amount (do_id d) (bd_allocations db))"

definition signals_ok :: "string set \<Rightarrow> billing_db \<Rightarrow> bool" where
  "signals_ok E db \<longleftrightarrow> (\<forall>k. k \<notin> E \<longrightarrow> signal_of k db = settled k db)"

text \<open>An issued document with something to pay in the period.\<close>

definition charged :: "string \<Rightarrow> billing_db \<Rightarrow> bool" where
  "charged k db \<longleftrightarrow> (\<exists>d \<in> set (bd_documents db). do_period_id d = k \<and> do_status d = EMITIDO \<and> 0 < do_total d)"

definition live_documents :: "billing_db \<Rightarrow> document_row list" where
  "live_documents db = filter (\<lambda>d. do_status d \<noteq> DOC_ANULADO) (bd_documents db)"

text \<open>The tables of periods and documents, which payments leave alone.\<close>

definition periods_ok :: "billing_db \<Rightarrow> bool" where
  "periods_ok db \<longleftrightarrow> distinct (map pe_id (bd_periods db))
     \<and> distinct (map (\<lambda>p. (pe_contract_id p, pe_period_start p)) (bd_periods db))
     \<and> distinct (map do_period_id (live_documents db))
     \<and> (\<forall>d \<in> set (bd_documents db). \<exists>p \<in> set (bd_periods db). pe_id p = do_period_id d
          \<and> pe_contract_id p = do_contract_id d
          \<and> (do_status d = EMITIDO \<longrightarrow> pe_due_date p = do_due_date d))"

definition ledger_ok :: "billing_db \<Rightarrow> bool" where
  "ledger_ok db \<longleftrightarrow> book_ok db \<and> periods_ok db \<and> signals_ok {} db"

lemma allocations_nonneg: "book_ok db \<Longrightarrow> a \<in> set (bd_allocations db) \<Longrightarrow> 0 \<le> al_amount a"
  by (force simp: book_ok_def allocation_ok_def)

lemma allocated_bounds:
  assumes "book_ok db" and "p \<in> set (bd_payments db)"
  shows "0 \<le> allocated_amount (pa_id p) (bd_allocations db)"
    and "money_range (allocated_amount (pa_id p) (bd_allocations db))"
    and "money_range (pa_amount p)"
    and "money_range (pa_amount p - allocated_amount (pa_id p) (bd_allocations db))"
proof -
  show n: "0 \<le> allocated_amount (pa_id p) (bd_allocations db)"
    unfolding live_sums using allocations_nonneg [OF assms(1)] by (rule live_sum_nonneg)
  show "money_range (allocated_amount (pa_id p) (bd_allocations db))" "money_range (pa_amount p)"
    "money_range (pa_amount p - allocated_amount (pa_id p) (bd_allocations db))"
    using assms n by (auto simp: book_ok_def payments_ok_def money_range_def)
qed

lemma paid_bounds:
  assumes "book_ok db" and "d \<in> set (bd_documents db)"
  shows "0 \<le> paid_amount (do_id d) (bd_allocations db)"
    and "money_range (paid_amount (do_id d) (bd_allocations db))"
    and "money_range (do_total d)"
    and "money_range (do_total d - paid_amount (do_id d) (bd_allocations db))"
proof -
  show n: "0 \<le> paid_amount (do_id d) (bd_allocations db)"
    unfolding live_sums using allocations_nonneg [OF assms(1)] by (rule live_sum_nonneg)
  show "money_range (paid_amount (do_id d) (bd_allocations db))" "money_range (do_total d)"
    "money_range (do_total d - paid_amount (do_id d) (bd_allocations db))"
    using assms n by (auto simp: book_ok_def documents_paid_ok_def money_range_def)
qed

lemma find_document_in: "find_document k db = Some d \<Longrightarrow> d \<in> set (bd_documents db) \<and> do_id d = k"
  unfolding find_document_def by (rule find_Some_iff_hd)

lemma find_payment_in: "findPaymentById k db = Some p \<Longrightarrow> p \<in> set (bd_payments db) \<and> pa_id p = k"
  unfolding findPaymentById_def by (rule find_Some_iff_hd)

lemma find_period_in: "find_period k db = Some p \<Longrightarrow> p \<in> set (bd_periods db) \<and> pe_id p = k"
  unfolding find_period_def by (rule find_Some_iff_hd)

lemma distinct_map_eq: "distinct (map f xs) \<Longrightarrow> x \<in> set xs \<Longrightarrow> y \<in> set xs \<Longrightarrow> f x = f y \<Longrightarrow> x = y"
  by (meson distinct_map inj_on_eq_iff)

lemma allocations_irrelevant [simp]:
  "find_document k (db\<lparr>bd_allocations := as\<rparr>) = find_document k db"
  "findPaymentById k (db\<lparr>bd_allocations := as\<rparr>) = findPaymentById k db"
  "find_period k (db\<lparr>bd_allocations := as\<rparr>) = find_period k db"
  "has_document k (db\<lparr>bd_allocations := as\<rparr>) = has_document k db"
  "charged k (db\<lparr>bd_allocations := as\<rparr>) = charged k db"
  "signal_of k (db\<lparr>bd_allocations := as\<rparr>) = signal_of k db"
  "periods_ok (db\<lparr>bd_allocations := as\<rparr>) = periods_ok db"
  "allocation_ok (db\<lparr>bd_allocations := as\<rparr>) = allocation_ok db"
  by (simp_all add: allocation_ok_def fun_eq_iff find_document_def findPaymentById_def find_period_def has_document_def charged_def
      signal_of_def periods_ok_def live_documents_def)

section \<open>Allocating\<close>

definition new_allocation :: "string \<Rightarrow> string option \<Rightarrow> apply_item \<Rightarrow> allocation_row" where
  "new_allocation paymentId actorId item =
     \<lparr>al_payment_id = paymentId, al_document_id = it_documentId item, al_amount = it_cents item,
      al_reversed_by = None, al_reversed_at = None, al_created_by = actorId\<rparr>"

lemma new_allocation_simps [simp]:
  "al_payment_id (new_allocation p u i) = p" "al_document_id (new_allocation p u i) = it_documentId i"
  "al_amount (new_allocation p u i) = it_cents i" "al_live (new_allocation p u i)"
  by (simp_all add: new_allocation_def al_live_def)

lemma amounts_snoc:
  "allocated_amount q (as @ [new_allocation p u i]) = allocated_amount q as + (if p = q then it_cents i else 0)"
  "paid_amount d (as @ [new_allocation p u i]) = paid_amount d as + (if it_documentId i = d then it_cents i else 0)"
  by (simp_all add: live_sums live_sum_Cons)

lemma apply_one_spec:
  assumes "apply_one pid sub u i (r, ps, db) = Inr st"
  obtains d where "find_document (it_documentId i) db = Some d" "do_subscriber_id d = sub" "do_status d = EMITIDO"
    "0 < it_cents i" "it_cents i \<le> r"
    "it_cents i \<le> do_total d - paid_amount (do_id d) (bd_allocations db)"
    "st = (r - it_cents i, set_insert (do_period_id d) ps,
       db\<lparr>bd_allocations := bd_allocations db @ [new_allocation pid u i]\<rparr>)"
proof -
  obtain d where d: "find_document (it_documentId i) db = Some d"
    using assms by (auto simp: apply_one_def res_simps split: option.splits)
  have e: "do_id d = it_documentId i" using find_document_in [OF d] by simp
  have g: "0 < it_cents i \<and> it_cents i \<le> r" "do_subscriber_id d = sub" "do_status d = EMITIDO"
    using assms d by (auto simp: apply_one_def guard_ok_def split: if_splits)
  obtain t where t: "read_money (do_total d) = Inr t"
    using assms d g by (cases "read_money (do_total d)") (simp_all add: apply_one_def)
  obtain q where q: "read_money (paid_amount (do_id d) (bd_allocations db)) = Inr q"
    using assms d g t by (cases "read_money (paid_amount (do_id d) (bd_allocations db))") (simp_all add: apply_one_def)
  have *: "do_subscriber_id d = sub" "do_status d = EMITIDO" "0 < it_cents i" "it_cents i \<le> r"
      "read_money (do_total d) = Inr t" "read_money (paid_amount (do_id d) (bd_allocations db)) = Inr q"
    using g t q by simp_all
  have "it_cents i \<le> t - q" "st = (r - it_cents i, set_insert (do_period_id d) ps,
       db\<lparr>bd_allocations := bd_allocations db @ [new_allocation pid u i]\<rparr>)"
    using assms d g t q e
    by (simp_all add: apply_one_def Let_def guard_ok_def new_allocation_def not_less split: if_splits)
  note * = * this
  from that [OF d *(1-4) _ *(8)] *(7) read_money_eq [OF *(5)] read_money_eq [OF *(6)] show ?thesis by simp
qed

lemma book_ok_allocate:
  assumes "book_ok db" and "p \<in> set (bd_payments db)" and "pa_id p = pid" and "pa_status p = REGISTRADO"
    and "d \<in> set (bd_documents db)" and "do_id d = it_documentId i"
    and "do_subscriber_id d = pa_subscriber_id p" and "do_status d = EMITIDO" and "0 < it_cents i"
    and "it_cents i \<le> pa_amount p - allocated_amount pid (bd_allocations db)"
    and "it_cents i \<le> do_total d - paid_amount (do_id d) (bd_allocations db)"
  shows "book_ok (db\<lparr>bd_allocations := bd_allocations db @ [new_allocation pid u i]\<rparr>)" (is "book_ok ?db")
proof -
  have ids: "distinct (map pa_id (bd_payments db))" "distinct (map do_id (bd_documents db))"
    using assms(1) by (simp_all add: book_ok_def payments_ok_def documents_paid_ok_def)
  have p: "q = p" if "q \<in> set (bd_payments db)" "pa_id q = pid" for q
    using distinct_map_eq [OF ids(1) that(1) assms(2)] that(2) assms(3) by simp
  have d: "e = d" if "e \<in> set (bd_documents db)" "do_id e = it_documentId i" for e
    using distinct_map_eq [OF ids(2) that(1) assms(5)] that(2) assms(6) by simp
  have bk: "payments_ok db" "documents_paid_ok db" "\<forall>a \<in> set (bd_allocations db). allocation_ok db a"
    using assms(1) by (simp_all add: book_ok_def)
  have "allocated_amount (pa_id q) (bd_allocations ?db) \<le> pa_amount q" if q: "q \<in> set (bd_payments db)" for q
  proof (cases "pa_id q = pid")
    case True
    with p [OF q] assms(3,10) show ?thesis by (simp add: amounts_snoc)
  next
    case False
    with q bk(1) show ?thesis by (simp add: amounts_snoc payments_ok_def)
  qed
  then have "payments_ok ?db" using bk(1) by (simp add: payments_ok_def)
  moreover have "paid_amount (do_id e) (bd_allocations ?db) \<le> do_total e" if e: "e \<in> set (bd_documents db)" for e
  proof (cases "do_id e = it_documentId i")
    case True
    with d [OF e] assms(6,11) show ?thesis by (simp add: amounts_snoc)
  next
    case False
    with e bk(2) show ?thesis by (simp add: amounts_snoc documents_paid_ok_def)
  qed
  then have "documents_paid_ok ?db" using bk(2) by (simp add: documents_paid_ok_def)
  moreover have "allocation_ok ?db (new_allocation pid u i)"
    unfolding allocation_ok_def using assms(2-9) by (auto intro!: bexI [of _ p] bexI [of _ d])
  then have "allocation_ok ?db a" if "a \<in> set (bd_allocations ?db)" for a
    using that bk(3) by auto
  ultimately show ?thesis by (simp add: book_ok_def)
qed

lemma set_set_insert [simp]: "set (set_insert x xs) = insert x (set xs)"
  by (auto simp: set_insert_def)

lemma settled_append:
  assumes "\<And>d. d \<in> set (bd_documents db) \<Longrightarrow> do_status d = EMITIDO \<Longrightarrow> do_period_id d = k \<Longrightarrow>
    paid_amount (do_id d) as = paid_amount (do_id d) (bd_allocations db)"
  shows "settled k (db\<lparr>bd_allocations := as\<rparr>) = settled k db"
  using assms by (auto simp: settled_def)

text \<open>The invariant of the loop, for a payment that starts at the books \<open>db\<close>.\<close>

definition applying ::
  "billing_db \<Rightarrow> payment_row \<Rightarrow> string option \<Rightarrow> apply_item list \<Rightarrow> apply_state \<Rightarrow> bool" where
  "applying db p u is = (\<lambda>(r, ps, db').
     db' = db\<lparr>bd_allocations := bd_allocations db @ map (new_allocation (pa_id p) u) is\<rparr>
   \<and> book_ok db' \<and> r = pa_amount p - allocated_amount (pa_id p) (bd_allocations db')
   \<and> (\<forall>k. k \<notin> set ps \<longrightarrow> settled k db' = settled k db)
   \<and> (\<forall>k \<in> set ps. charged k db)
   \<and> (\<forall>i \<in> set is. \<exists>d. find_document (it_documentId i) db = Some d \<and> do_period_id d \<in> set ps
        \<and> do_subscriber_id d = pa_subscriber_id p \<and> do_status d = EMITIDO \<and> 0 < it_cents i))"

lemma applying_step:
  assumes inv: "applying db p u is st" and p: "p \<in> set (bd_payments db)" "pa_status p = REGISTRADO"
    and step: "apply_one (pa_id p) (pa_subscriber_id p) u i st = Inr st'"
  shows "applying db p u (is @ [i]) st'"
proof -
  obtain r ps db' where st: "st = (r, ps, db')" by (cases st) auto
  note inv = inv [unfolded st applying_def, simplified]
  obtain d where d: "find_document (it_documentId i) db' = Some d" "do_subscriber_id d = pa_subscriber_id p"
    "do_status d = EMITIDO" "0 < it_cents i" "it_cents i \<le> r"
    "it_cents i \<le> do_total d - paid_amount (do_id d) (bd_allocations db')"
    "st' = (r - it_cents i, set_insert (do_period_id d) ps,
       db'\<lparr>bd_allocations := bd_allocations db' @ [new_allocation (pa_id p) u i]\<rparr>)"
    using apply_one_spec [OF step [unfolded st]] by metis
  let ?db = "db'\<lparr>bd_allocations := bd_allocations db' @ [new_allocation (pa_id p) u i]\<rparr>"
  have tables: "bd_payments db' = bd_payments db" "bd_documents db' = bd_documents db"
    and find: "find_document k db' = find_document k db" for k
    using inv by auto
  have d': "d \<in> set (bd_documents db')" "do_id d = it_documentId i" using find_document_in [OF d(1)] by auto
  have book: "book_ok ?db"
    using inv p d d' by (intro book_ok_allocate [of db' p _ d]) (auto simp: tables)
  have bk: "book_ok db'" using inv by blast
  then have ids: "distinct (map do_id (bd_documents db'))" by (simp add: book_ok_def documents_paid_ok_def)
  have "settled k ?db = settled k db'" if "k \<noteq> do_period_id d" for k
  proof (rule settled_append)
    fix e assume e: "e \<in> set (bd_documents db')" "do_period_id e = k"
    then have "do_id e \<noteq> it_documentId i" using distinct_map_eq [OF ids e(1) d'(1)] d'(2) that by auto
    then show "paid_amount (do_id e) (bd_allocations db' @ [new_allocation (pa_id p) u i])
        = paid_amount (do_id e) (bd_allocations db')" by (simp add: amounts_snoc)
  qed
  moreover have "charged (do_period_id d) db"
    using d d' paid_bounds(1) [OF bk d'(1)] unfolding charged_def tables(2) by (intro bexI [of _ d]) auto
  ultimately show ?thesis
    using inv book d by (auto simp: applying_def live_sums live_sum_Cons)
qed

lemma applying_fold:
  assumes "applying db p u is st" and "p \<in> set (bd_payments db)" "pa_status p = REGISTRADO"
    and "res_fold (apply_one (pa_id p) (pa_subscriber_id p) u) js st = Inr st'"
  shows "applying db p u (is @ js) st'"
  using assms(1,4)
proof (induction js arbitrary: "is" st)
  case (Cons j js)
  then obtain st1 where "apply_one (pa_id p) (pa_subscriber_id p) u j st = Inr st1"
    "res_fold (apply_one (pa_id p) (pa_subscriber_id p) u) js st1 = Inr st'" by (auto simp: res_simps)
  with Cons.IH [of "is @ [j]" st1] applying_step [OF Cons.prems(1) assms(2,3)] show ?case by simp
qed simp

text \<open>What a successful \<open>applyAllocations\<close> does.\<close>

lemma apply_spec:
  assumes "applyAllocations pid sub allocs u db = Inr (ps, db')" and "book_ok db" and "allocs \<noteq> []"
  obtains p items r where "p \<in> set (bd_payments db)" "pa_id p = pid" "pa_subscriber_id p = sub"
    "pa_status p = REGISTRADO" "res_map (\<lambda>(documentId, amount).
        res_bind (text_cents amount) (\<lambda>c. Inr \<lparr>it_documentId = documentId, it_cents = c\<rparr>)) allocs = Inr items"
    "applying db p u (js_sort item_le items) (r, ps, db')"
proof -
  obtain p where f: "find (\<lambda>r. pa_id r = pid \<and> pa_subscriber_id r = sub \<and> pa_status r = REGISTRADO)
      (bd_payments db) = Some p"
    using assms(1,3) by (auto simp: applyAllocations_def split: option.splits)
  have p: "p \<in> set (bd_payments db)" "pa_id p = pid" "pa_subscriber_id p = sub" "pa_status p = REGISTRADO"
    using find_Some_iff_hd [OF f] by auto
  have b: "read_money (pa_amount p) = Inr (pa_amount p)"
    "read_money (allocated_amount pid (bd_allocations db)) = Inr (allocated_amount pid (bd_allocations db))"
    using allocated_bounds [OF assms(2) p(1)] p(2) by simp_all
  obtain items r where i: "res_map (\<lambda>(documentId, amount).
        res_bind (text_cents amount) (\<lambda>c. Inr \<lparr>it_documentId = documentId, it_cents = c\<rparr>)) allocs = Inr items"
    and fold: "res_fold (apply_one pid sub u) (js_sort item_le items)
       (pa_amount p - allocated_amount pid (bd_allocations db), [], db) = Inr (r, ps, db')"
    using assms(1,3) f b by (auto simp: applyAllocations_def Let_def res_simps)
  have "applying db p u [] (pa_amount p - allocated_amount pid (bd_allocations db), [], db)"
    using assms(2) p by (simp add: applying_def)
  from applying_fold [OF this p(1,4)] fold p have "applying db p u (js_sort item_le items) (r, ps, db')"
    by simp
  with that p i show ?thesis by blast
qed

section \<open>Committing allocations\<close>

text \<open>
  What a run of allocations leaves: rows appended, the books in order, and every period
  whose settlement may have changed among those reported.
\<close>

definition applied :: "billing_db \<Rightarrow> string list \<Rightarrow> billing_db \<Rightarrow> bool" where
  "applied db ps db' \<longleftrightarrow>
     (\<exists>new. db' = db\<lparr>bd_allocations := bd_allocations db @ new\<rparr> \<and> list_all al_live new)
   \<and> book_ok db' \<and> (\<forall>k. k \<notin> set ps \<longrightarrow> settled k db' = settled k db) \<and> (\<forall>k \<in> set ps. charged k db)"

lemma applied_refl: "book_ok db \<Longrightarrow> applied db [] db"
  by (auto simp: applied_def intro!: exI [of _ "[]"])

lemma applied_apply:
  assumes "applyAllocations pid sub allocs u db = Inr (ps, db')" and "book_ok db"
  shows "applied db ps db'"
proof (cases "allocs = []")
  case True
  with assms applied_refl show ?thesis by (simp add: applyAllocations_def)
next
  case False
  from apply_spec [OF assms False] obtain p items r where
    "applying db p u (js_sort item_le items) (r, ps, db')" by metis
  then show ?thesis
    unfolding applying_def applied_def
    by (auto simp: list_all_iff intro!: exI [of _ "map (new_allocation (pa_id p) u) (js_sort item_le items)"])
qed

lemma set_fold_set_insert [simp]: "set (fold set_insert xs ys) = set xs \<union> set ys"
  by (induction xs arbitrary: ys) auto

lemma applied_trans:
  assumes "applied db ps db1" and "applied db1 qs db2"
  shows "applied db (fold set_insert qs ps) db2"
proof -
  obtain new where 1: "db1 = db\<lparr>bd_allocations := bd_allocations db @ new\<rparr>" "list_all al_live new"
    using assms(1) by (auto simp: applied_def)
  obtain more where 2: "db2 = db1\<lparr>bd_allocations := bd_allocations db1 @ more\<rparr>" "list_all al_live more"
    using assms(2) by (auto simp: applied_def)
  have "db2 = db\<lparr>bd_allocations := bd_allocations db @ (new @ more)\<rparr>" using 1 2 by simp
  moreover have "list_all al_live (new @ more)" using 1 2 by simp
  moreover have "charged k db1 = charged k db" for k using 1(1) by simp
  ultimately show ?thesis using assms unfolding applied_def by auto
qed

lemma periods_of_document:
  assumes "periods_ok db" and "d \<in> set (bd_documents db)"
  shows "find_period (do_period_id d) db \<noteq> None"
  using assms unfolding periods_ok_def find_period_def find_None_all by fastforce

lemma charged_has_period: "periods_ok db \<Longrightarrow> charged k db \<Longrightarrow> find_period k db \<noteq> None"
  unfolding charged_def using periods_of_document by auto

lemma issued_unique:
  assumes "periods_ok db" and "d \<in> set (bd_documents db)" "e \<in> set (bd_documents db)"
    and "do_status d = EMITIDO" "do_status e = EMITIDO" and "do_period_id d = do_period_id e"
  shows "d = e"
proof -
  have "distinct (map do_period_id (live_documents db))" using assms(1) by (simp add: periods_ok_def)
  from distinct_map_eq [OF this, of d e] assms show ?thesis by (simp add: live_documents_def)
qed

lemma settled_charged: "settled k db \<Longrightarrow> charged k db"
  by (auto simp: settled_def charged_def)

lemma period_paid_settled:
  assumes "periods_ok db" and "charged k db \<or> \<not> has_document k db"
  shows "period_paid k db = settled k db"
proof (cases "has_document k db")
  case True
  then obtain d where d: "d \<in> set (bd_documents db)" "do_period_id d = k" "do_status d = EMITIDO" "0 < do_total d"
    using assms(2) by (auto simp: charged_def)
  then have u: "e = d" if "e \<in> set (bd_documents db)" "do_period_id e = k" "do_status e = EMITIDO" for e
    using issued_unique [OF assms(1) that(1) d(1)] that by simp
  have "all_paid k db = (\<forall>e \<in> set (bd_documents db). do_period_id e = k \<longrightarrow> do_status e = EMITIDO \<longrightarrow>
      do_total e \<le> paid_amount (do_id e) (bd_allocations db))"
    by (auto simp: all_paid_def list_ex_iff not_less)
  also have "\<dots> = (do_total d \<le> paid_amount (do_id d) (bd_allocations db))"
  proof
    show "do_total d \<le> paid_amount (do_id d) (bd_allocations db)" if "\<forall>e \<in> set (bd_documents db).
      do_period_id e = k \<longrightarrow> do_status e = EMITIDO \<longrightarrow> do_total e \<le> paid_amount (do_id e) (bd_allocations db)"
      using that d by blast
  next
    assume le: "do_total d \<le> paid_amount (do_id d) (bd_allocations db)"
    show "\<forall>e \<in> set (bd_documents db). do_period_id e = k \<longrightarrow> do_status e = EMITIDO \<longrightarrow>
      do_total e \<le> paid_amount (do_id e) (bd_allocations db)"
    proof (intro ballI impI)
      fix e assume "e \<in> set (bd_documents db)" "do_period_id e = k" "do_status e = EMITIDO"
      then have "e = d" by (rule u)
      with le show "do_total e \<le> paid_amount (do_id e) (bd_allocations db)" by simp
    qed
  qed
  finally have "all_paid k db = (do_total d \<le> paid_amount (do_id d) (bd_allocations db))" .
  moreover have "settled k db = (do_total d \<le> paid_amount (do_id d) (bd_allocations db))"
    unfolding settled_def using d u by metis
  ultimately show ?thesis using True by (simp add: period_paid_def)
next
  case False
  then have "\<not> settled k db" by (auto simp: settled_def has_document_def list_ex_iff)
  with False show ?thesis by (simp add: period_paid_def)
qed

text \<open>The events tell exactly which periods became settled and which stopped being so.\<close>

definition events_exact :: "billing_db \<Rightarrow> period_event list \<Rightarrow> billing_db \<Rightarrow> bool" where
  "events_exact db events db' \<longleftrightarrow> distinct (map ev_periodId events)
     \<and> (\<forall>k. (\<exists>e \<in> set events. ev_periodId e = k \<and> ev_name e = Period_paid) = (\<not> settled k db \<and> settled k db'))
     \<and> (\<forall>k. (\<exists>e \<in> set events. ev_periodId e = k \<and> ev_name e = Period_reopened) = (settled k db \<and> \<not> settled k db'))"

lemma settled_signals [simp]: "settled k (db\<lparr>bd_signals := S\<rparr>) = settled k db"
  by (simp add: settled_def)

lemma tables_signals [simp]:
  "book_ok (db\<lparr>bd_signals := S\<rparr>) = book_ok db"
  "periods_ok (db\<lparr>bd_signals := S\<rparr>) = periods_ok db"
  "charged k (db\<lparr>bd_signals := S\<rparr>) = charged k db"
  by (simp_all add: book_ok_def payments_ok_def documents_paid_ok_def allocation_ok_def periods_ok_def
      live_documents_def charged_def)

lemma recalculate_ok:
  assumes "book_ok db1" and "periods_ok db1"
    and ids: "\<And>k. k \<in> set ids \<Longrightarrow> find_period k db1 \<noteq> None \<and> (charged k db1 \<or> \<not> has_document k db1)"
    and before: "\<And>k. signal_of k db1 = settled k db0"
    and same: "\<And>k. k \<notin> set ids \<Longrightarrow> settled k db1 = settled k db0"
    and recalc: "recalculateSignals ids db1 = (db2, evs)"
  shows "\<exists>S. db2 = db1\<lparr>bd_signals := S\<rparr>" and "ledger_ok db2" and "events_exact db0 evs db2"
proof -
  obtain S where S: "recalculateSignals ids db1 =
      (db1\<lparr>bd_signals := S\<rparr>, map (event_of db1) (filter (signal_changes db1) (js_sort js_le (remdups ids))))"
    "\<And>k. signal_of k (db1\<lparr>bd_signals := S\<rparr>) =
      (if k \<in> set ids \<and> find_period k db1 \<noteq> None then period_paid k db1 else signal_of k db1)"
    using recalculateSignals_spec [of ids db1] by metis
  then have db2: "db2 = db1\<lparr>bd_signals := S\<rparr>"
    and evs: "evs = map (event_of db1) (filter (signal_changes db1) (js_sort js_le (remdups ids)))"
    using recalc by simp_all
  show "\<exists>S. db2 = db1\<lparr>bd_signals := S\<rparr>" using db2 by blast
  have pp: "period_paid k db1 = settled k db1" if "k \<in> set ids" for k
    using period_paid_settled [OF assms(2)] ids [OF that] by blast
  have "signal_of k db2 = settled k db2" for k
    using S(2) [of k] ids [of k] pp [of k] same [of k] before [of k] by (cases "k \<in> set ids") (simp_all add: db2)
  then show "ledger_ok db2" using assms(1,2) by (simp add: ledger_ok_def signals_ok_def db2)
  let ?ks = "filter (signal_changes db1) (js_sort js_le (remdups ids))"
  have id: "ev_periodId (event_of db1 k) = k"
    and name: "ev_name (event_of db1 k) = (if settled k db1 then Period_paid else Period_reopened)"
    if "k \<in> set ids" for k
    using ids [OF that] pp [OF that] by (auto simp: event_of_def)
  have ks: "set ?ks = {k \<in> set ids. settled k db1 \<noteq> settled k db0}"
    using ids pp before by (auto simp: signal_changes_def)
  have ids_evs: "map ev_periodId evs = ?ks"
    unfolding evs map_map by (rule map_idI) (use id in auto)
  have "distinct (js_sort js_le (remdups ids))" using distinct_js_sort [of "\<lambda>x::string. x"] by simp
  then have "distinct (map ev_periodId evs)" by (simp add: ids_evs)
  moreover have "(\<exists>e \<in> set evs. ev_periodId e = k \<and> ev_name e = n) \<longleftrightarrow>
      (settled k db1 \<noteq> settled k db0) \<and> n = (if settled k db1 then Period_paid else Period_reopened)" for k n
  proof -
    have "(\<exists>e \<in> set evs. ev_periodId e = k \<and> ev_name e = n) \<longleftrightarrow>
        k \<in> set ?ks \<and> n = (if settled k db1 then Period_paid else Period_reopened)"
      using id name unfolding evs by (auto simp: signal_changes_def)
    also have "k \<in> set ?ks \<longleftrightarrow> settled k db1 \<noteq> settled k db0"
      unfolding ks using same by blast
    finally show ?thesis .
  qed
  ultimately show "events_exact db0 evs db2"
    unfolding events_exact_def db2 by (auto split: if_splits)
qed

lemma commit_applied:
  assumes "ledger_ok db" and "applied db ps db1" and "recalculateSignals ps db1 = (db2, evs)"
  shows "\<exists>S. db2 = db1\<lparr>bd_signals := S\<rparr>" and "ledger_ok db2" and "events_exact db evs db2"
proof -
  obtain new where new: "db1 = db\<lparr>bd_allocations := bd_allocations db @ new\<rparr>"
    using assms(2) by (auto simp: applied_def)
  have ok: "book_ok db1" "periods_ok db1" "\<And>k. signal_of k db1 = settled k db"
    "\<And>k. k \<notin> set ps \<Longrightarrow> settled k db1 = settled k db"
    "\<And>k. k \<in> set ps \<Longrightarrow> charged k db1"
    using assms(1,2) by (auto simp: ledger_ok_def signals_ok_def applied_def new)
  have "find_period k db1 \<noteq> None \<and> (charged k db1 \<or> \<not> has_document k db1)" if "k \<in> set ps" for k
    using ok(5) [OF that] charged_has_period [OF ok(2)] by blast
  note r = recalculate_ok [OF ok(1,2) this ok(3,4) assms(3)]
  show "\<exists>S. db2 = db1\<lparr>bd_signals := S\<rparr>" "ledger_ok db2" "events_exact db evs db2"
    by (rule r; assumption)+
qed

section \<open>The payment operations keep the ledger\<close>

lemma money_input_cents: "money_input_ok m \<Longrightarrow> \<exists>c. moneyCents m = Inr c \<and> 0 < c \<and> money_range c"
  using text_cents_bounds
  by (auto simp: money_input_ok_def moneyCents_def money_decimal_def money_range_def
      split: BillingMoney.splits sum.splits)

lemma book_ok_insert_payment:
  assumes "book_ok db" and "pa_id row \<notin> pa_id ` set (bd_payments db)"
    and "pa_idempotency_key row \<notin> pa_idempotency_key ` set (bd_payments db)"
    and "0 < pa_amount row" and "money_range (pa_amount row)"
  shows "book_ok (db\<lparr>bd_payments := bd_payments db @ [row]\<rparr>)"
proof -
  have b: "payments_ok db" "documents_paid_ok db" "\<And>a. a \<in> set (bd_allocations db) \<Longrightarrow> allocation_ok db a"
    using assms(1) by (simp_all add: book_ok_def)
  have "al_payment_id a \<noteq> pa_id row" if "a \<in> set (bd_allocations db)" for a
    using b(3) [OF that] assms(2) unfolding allocation_ok_def by (metis imageI)
  then have "allocated_amount (pa_id row) (bd_allocations db) = 0"
    unfolding live_sums by (intro live_sum_none) auto
  then have "payments_ok (db\<lparr>bd_payments := bd_payments db @ [row]\<rparr>)"
    using b(1) assms(2-5) by (auto simp: payments_ok_def)
  moreover have "documents_paid_ok (db\<lparr>bd_payments := bd_payments db @ [row]\<rparr>)"
    using b(2) by (simp add: documents_paid_ok_def)
  moreover have "allocation_ok (db\<lparr>bd_payments := bd_payments db @ [row]\<rparr>) a"
    if "a \<in> set (bd_allocations db)" for a
    using b(3) [OF that] unfolding allocation_ok_def by auto
  ultimately show ?thesis by (simp add: book_ok_def)
qed

lemma payments_irrelevant [simp]:
  "periods_ok (db\<lparr>bd_payments := ps\<rparr>) = periods_ok db"
  "settled k (db\<lparr>bd_payments := ps\<rparr>) = settled k db"
  "signal_of k (db\<lparr>bd_payments := ps\<rparr>) = signal_of k db"
  "charged k (db\<lparr>bd_payments := ps\<rparr>) = charged k db"
  "has_document k (db\<lparr>bd_payments := ps\<rparr>) = has_document k db"
  "find_period k (db\<lparr>bd_payments := ps\<rparr>) = find_period k db"
  "find_document k (db\<lparr>bd_payments := ps\<rparr>) = find_document k db"
  by (simp_all add: periods_ok_def live_documents_def settled_def signal_of_def charged_def
      has_document_def find_period_def find_document_def)

lemma signals_ok_payments [simp]: "signals_ok E (db\<lparr>bd_payments := ps\<rparr>) = signals_ok E db"
  by (simp add: signals_ok_def)

lemma events_exact_payments [simp]:
  "events_exact (db\<lparr>bd_payments := ps\<rparr>) evs db' = events_exact db evs db'"
  by (simp add: events_exact_def)

lemma events_exact_none [simp]: "events_exact db [] db"
  by (simp add: events_exact_def)

text \<open>The two outcomes of a registration.\<close>

lemma registerPayment_cases:
  assumes "registerPayment sha titular rowid now cmd key u db = Inr (resp, evs, db')"
  obtains (repeated) k p where "key = Some k" "findPaymentByKey k db = Some p"
      "assertSameIdempotentRequest sha p cmd = Inr ()" "toPaymentResponse p db = Inr resp" "evs = []" "db' = db"
  | (fresh) k cents fp allocs ps db2 row p where "key = Some k" "findPaymentByKey k db = None"
      "register_command_ok cmd" "requireTitular (titular (rp_subscriberId cmd)) = Inr ()"
      "moneyCents (rp_amount cmd) = Inr cents" "allocationsFingerprint sha (rp_allocations cmd) = Inr fp"
      "row = payment_of_command rowid cmd cents k fp u now"
      "chosen_allocations cmd (db\<lparr>bd_payments := bd_payments db @ [row]\<rparr>) = Inr allocs"
      "applyAllocations rowid (rp_subscriberId cmd) allocs (Some u)
         (db\<lparr>bd_payments := bd_payments db @ [row]\<rparr>) = Inr (ps, db2)"
      "recalculateSignals ps db2 = (db', evs)" "findPaymentById rowid db' = Some p"
      "toPaymentResponse p db' = Inr resp"
proof -
  have c1: "register_command_ok cmd"
    using assms by (cases "register_command_ok cmd") (simp_all add: registerPayment_def)
  have c2: "idempotency_key_ok key"
    using assms c1 by (cases "idempotency_key_ok key") (simp_all add: registerPayment_def)
  have c3: "requireTitular (titular (rp_subscriberId cmd)) = Inr ()"
    using assms c1 c2 by (cases "requireTitular (titular (rp_subscriberId cmd))") (simp_all add: registerPayment_def)
  note c = c1 c2 c3
  obtain k where k: "key = Some k" using c(2) by (auto simp: idempotency_key_ok_def split: option.splits)
  show thesis
  proof (cases "findPaymentByKey k db")
    case (Some p)
    then have "assertSameIdempotentRequest sha p cmd = Inr ()"
      using assms c k by (cases "assertSameIdempotentRequest sha p cmd") (simp_all add: registerPayment_def)
    moreover from this have "toPaymentResponse p db = Inr resp \<and> evs = [] \<and> db' = db"
      using assms c k Some by (cases "toPaymentResponse p db") (simp_all add: registerPayment_def)
    ultimately show thesis using repeated [OF k Some] by blast
  next
    case None
    obtain cents where cents: "moneyCents (rp_amount cmd) = Inr cents"
      using assms c k None by (cases "moneyCents (rp_amount cmd)") (simp_all add: registerPayment_def)
    obtain fp where fp: "allocationsFingerprint sha (rp_allocations cmd) = Inr fp"
      using assms c k None cents
      by (cases "allocationsFingerprint sha (rp_allocations cmd)") (simp_all add: registerPayment_def)
    define row where "row = payment_of_command rowid cmd cents k fp u now"
    let ?db1 = "db\<lparr>bd_payments := bd_payments db @ [row]\<rparr>"
    let ?choice = "chosen_allocations cmd ?db1"
    note sofar = c k None cents fp
    obtain allocs where allocs: "?choice = Inr allocs"
      using assms sofar by (cases ?choice) (simp_all add: registerPayment_def row_def Let_def)
    obtain ps db2 where a: "applyAllocations rowid (rp_subscriberId cmd) allocs (Some u) ?db1 = Inr (ps, db2)"
      using assms sofar allocs
      by (cases "applyAllocations rowid (rp_subscriberId cmd) allocs (Some u) ?db1")
        (auto simp: registerPayment_def row_def Let_def)
    obtain db3 es where r: "recalculateSignals ps db2 = (db3, es)" by fastforce
    have "\<exists>p. findPaymentById rowid db3 = Some p \<and> toPaymentResponse p db3 = Inr resp \<and> db' = db3 \<and> evs = es"
      using assms sofar allocs a r
      by (auto simp: registerPayment_def row_def Let_def res_simps split: option.split_asm)
    with fresh [OF k None c(1,3) cents fp row_def allocs a] r show thesis by auto
  qed
qed

lemma ledger_ok_register:
  assumes "registerPayment sha titular rowid now cmd key u db = Inr (resp, evs, db')"
    and "ledger_ok db" and "rowid \<notin> pa_id ` set (bd_payments db)"
  shows "ledger_ok db' \<and> events_exact db evs db'"
  using assms(1)
proof (cases rule: registerPayment_cases)
  case (repeated k p)
  with assms(2) show ?thesis by simp
next
  case (fresh k cents fp allocs ps db2 row p)
  have cents: "0 < cents" "money_range cents"
    using fresh(3,5) money_input_cents [of "rp_amount cmd"] by (auto simp: register_command_ok_def)
  have "k \<notin> pa_idempotency_key ` set (bd_payments db)"
    using fresh(2) by (auto simp: findPaymentByKey_def find_None_all)
  then have book: "book_ok (db\<lparr>bd_payments := bd_payments db @ [row]\<rparr>)"
    using assms(2,3) cents by (intro book_ok_insert_payment) (simp_all add: ledger_ok_def fresh(7) payment_of_command_def)
  then have led: "ledger_ok (db\<lparr>bd_payments := bd_payments db @ [row]\<rparr>)"
    using assms(2) by (simp add: ledger_ok_def)
  show ?thesis
    using commit_applied(2,3) [OF led applied_apply [OF fresh(9) book] fresh(10)] by simp
qed

lemma allocateCredit_cases:
  assumes "allocateCredit titular pid cmd u db = Inr (resp, evs, db')"
  obtains p ps db1 q where "findPaymentById pid db = Some p" "pa_status p = REGISTRADO"
    "pa_subscriber_id p = ac_subscriberId cmd" "credit_command_ok cmd"
    "applyAllocations pid (ac_subscriberId cmd)
       (map (\<lambda>i. (ci_documentId i, money_decimal (ci_amount i))) (ac_allocations cmd)) (Some u) db = Inr (ps, db1)"
    "recalculateSignals ps db1 = (db', evs)" "findPaymentById pid db' = Some q" "toPaymentResponse q db' = Inr resp"
proof -
  let ?allocs = "map (\<lambda>i. (ci_documentId i, money_decimal (ci_amount i))) (ac_allocations cmd)"
  obtain p where p: "findPaymentById pid db = Some p" "pa_status p = REGISTRADO"
    "pa_subscriber_id p = ac_subscriberId cmd" and c: "credit_command_ok cmd"
    "\<not> list_ex (\<lambda>i. ci_paymentId i \<noteq> pid) (ac_allocations cmd)"
    "requireTitular (titular (ac_subscriberId cmd)) = Inr ()"
    using assms by (auto simp: allocateCredit_def res_simps Let_def split: option.split_asm)
  obtain ps db1 where a: "applyAllocations pid (ac_subscriberId cmd) ?allocs (Some u) db = Inr (ps, db1)"
    using assms p c by (cases "applyAllocations pid (ac_subscriberId cmd) ?allocs (Some u) db")
      (auto simp: allocateCredit_def Let_def)
  obtain db2 es where r: "recalculateSignals ps db1 = (db2, es)" by fastforce
  have "\<exists>q. findPaymentById pid db2 = Some q \<and> toPaymentResponse q db2 = Inr resp \<and> db' = db2 \<and> evs = es"
    using assms p c a r by (auto simp: allocateCredit_def Let_def res_simps split: option.split_asm)
  with that [OF p c(1) a] r show thesis by auto
qed

lemma ledger_ok_credit:
  assumes "allocateCredit titular pid cmd u db = Inr (resp, evs, db')" and "ledger_ok db"
  shows "ledger_ok db' \<and> events_exact db evs db'"
  using assms(1)
proof (rule allocateCredit_cases)
  fix p ps db1 q
  assume a: "applyAllocations pid (ac_subscriberId cmd)
       (map (\<lambda>i. (ci_documentId i, money_decimal (ci_amount i))) (ac_allocations cmd)) (Some u) db = Inr (ps, db1)"
    and r: "recalculateSignals ps db1 = (db', evs)"
  have "book_ok db" using assms(2) by (simp add: ledger_ok_def)
  from commit_applied(2,3) [OF assms(2) applied_apply [OF a this] r] show ?thesis by simp
qed

section \<open>Reversing allocations\<close>

lemma allocation_ok_reverse_if:
  assumes "allocation_ok db a"
  shows "allocation_ok db (reverse_if P u n a)"
  using assms unfolding allocation_ok_def reverse_if_simps by fastforce

lemma book_ok_reverse:
  assumes "book_ok db"
  shows "book_ok (db\<lparr>bd_allocations := map (reverse_if P u n) (bd_allocations db)\<rparr>)" (is "book_ok ?db")
proof -
  have b: "payments_ok db" "documents_paid_ok db" "\<And>a. a \<in> set (bd_allocations db) \<Longrightarrow> allocation_ok db a"
    using assms by (simp_all add: book_ok_def)
  have "live_sum (\<lambda>a. Q a \<and> \<not> P a) (bd_allocations db) \<le> live_sum Q (bd_allocations db)" for Q
    using allocations_nonneg [OF assms] by (rule live_sum_mono) auto
  then have le: "allocated_amount k (bd_allocations ?db) \<le> allocated_amount k (bd_allocations db)"
    "paid_amount k (bd_allocations ?db) \<le> paid_amount k (bd_allocations db)" for k
    by (simp_all add: allocated_reverse paid_reverse) (simp_all add: live_sums)
  have "payments_ok ?db" using b(1) le(1) by (fastforce simp: payments_ok_def intro: order_trans)
  moreover have "documents_paid_ok ?db" using b(2) le(2) by (fastforce simp: documents_paid_ok_def intro: order_trans)
  ultimately show ?thesis using b(3) allocation_ok_reverse_if by (auto simp: book_ok_def)
qed

lemma voidPayment_cases:
  assumes "voidPayment pid cmd u now db = Inr (resp, evs, db')"
  obtains p db2 q where "findPaymentById pid db = Some p" "pa_status p = REGISTRADO"
    "db2 = db\<lparr>bd_allocations := map (reverse_if (\<lambda>a. al_payment_id a = pid) u now) (bd_allocations db),
       bd_payments := map (\<lambda>p. if pa_id p = pid
          then p\<lparr>pa_status := PAGO_ANULADO, pa_void_reason_code := Some (vp_reasonCode cmd),
                 pa_void_note := vp_note cmd, pa_voided_by := Some u\<rparr> else p) (bd_payments db)\<rparr>"
    "recalculateSignals (concat (map (\<lambda>a. map do_period_id (filter (\<lambda>d. do_id d = al_document_id a) (bd_documents db)))
               (filter (\<lambda>a. al_payment_id a = pid \<and> al_live a) (bd_allocations db)))) db2 = (db', evs)"
    "findPaymentById pid db' = Some q" "toPaymentResponse q db' = Inr resp"
  using assms by (auto simp: voidPayment_def res_simps Let_def split: prod.splits option.split_asm)

lemma settled_reverse:
  assumes "\<And>a d. a \<in> set (bd_allocations db) \<Longrightarrow> al_live a \<Longrightarrow> P a \<Longrightarrow> d \<in> set (bd_documents db) \<Longrightarrow>
    do_id d = al_document_id a \<Longrightarrow> do_period_id d \<noteq> k"
  shows "settled k (db\<lparr>bd_allocations := map (reverse_if P u n) (bd_allocations db)\<rparr>) = settled k db"
proof (rule settled_append)
  fix d assume "d \<in> set (bd_documents db)" "do_period_id d = k"
  then show "paid_amount (do_id d) (map (reverse_if P u n) (bd_allocations db)) = paid_amount (do_id d) (bd_allocations db)"
    unfolding paid_reverse unfolding live_sums using assms by (intro live_sum_cong) metis
qed

lemma charged_live:
  assumes "book_ok db" and "a \<in> set (bd_allocations db)" and "al_live a"
    and "d \<in> set (bd_documents db)" and "do_id d = al_document_id a"
  shows "do_status d = EMITIDO \<and> 0 < do_total d"
proof -
  have ids: "distinct (map do_id (bd_documents db))" using assms(1) by (simp add: book_ok_def documents_paid_ok_def)
  obtain e where e: "e \<in> set (bd_documents db)" "do_id e = al_document_id a" "do_status e = EMITIDO" "0 < al_amount a"
    using assms(1,2,3) unfolding book_ok_def allocation_ok_def by blast
  have de: "d = e" using distinct_map_eq [OF ids assms(4) e(1)] assms(5) e(2) by simp
  obtain xs ys where "bd_allocations db = xs @ a # ys" using assms(2) by (auto dest: split_list)
  moreover have "0 \<le> live_sum Q xs" "0 \<le> live_sum Q ys" for Q
    using allocations_nonneg [OF assms(1)] calculation by (auto intro!: live_sum_nonneg)
  ultimately have "al_amount a \<le> paid_amount (do_id d) (bd_allocations db)"
    using assms(3,5) by (simp add: live_sums live_sum_Cons)
  also have "\<dots> \<le> do_total d" using assms(1,4) by (simp add: book_ok_def documents_paid_ok_def)
  finally show ?thesis using e de by simp
qed

lemma ledger_ok_void:
  assumes "voidPayment pid cmd u now db = Inr (resp, evs, db')" and "ledger_ok db"
  shows "ledger_ok db' \<and> events_exact db evs db'"
  using assms(1)
proof (rule voidPayment_cases)
  let ?P = "\<lambda>a. al_payment_id a = pid"
  let ?annul = "\<lambda>p. if pa_id p = pid
          then p\<lparr>pa_status := PAGO_ANULADO, pa_void_reason_code := Some (vp_reasonCode cmd),
                 pa_void_note := vp_note cmd, pa_voided_by := Some u\<rparr> else p"
  let ?ids = "concat (map (\<lambda>a. map do_period_id (filter (\<lambda>d. do_id d = al_document_id a) (bd_documents db)))
               (filter (\<lambda>a. al_payment_id a = pid \<and> al_live a) (bd_allocations db)))"
  fix p db2 q
  assume db2: "db2 = db\<lparr>bd_allocations := map (reverse_if ?P u now) (bd_allocations db),
       bd_payments := map ?annul (bd_payments db)\<rparr>"
    and r: "recalculateSignals ?ids db2 = (db', evs)"
  have ok: "book_ok db" "periods_ok db" "\<And>k. signal_of k db = settled k db"
    using assms(2) by (simp_all add: ledger_ok_def signals_ok_def)
  let ?db1 = "db\<lparr>bd_allocations := map (reverse_if ?P u now) (bd_allocations db)\<rparr>"
  have db2': "db2 = ?db1\<lparr>bd_payments := map ?annul (bd_payments ?db1)\<rparr>" by (simp add: db2)
  have b1: "payments_ok ?db1" "documents_paid_ok ?db1" "\<And>a. a \<in> set (bd_allocations ?db1) \<Longrightarrow> allocation_ok ?db1 a"
    using book_ok_reverse [OF ok(1), of ?P u now] unfolding book_ok_def by blast+
  have maps: "map pa_id (map ?annul ps) = map pa_id ps"
    "map pa_idempotency_key (map ?annul ps) = map pa_idempotency_key ps" for ps
    by (induction ps) simp_all
  have "payments_ok db2"
    using b1(1) unfolding payments_ok_def db2' by (auto simp: maps simp del: map_map)
  moreover have "documents_paid_ok db2" using b1(2) by (simp add: documents_paid_ok_def db2')
  moreover have "allocation_ok db2 a" if a: "a \<in> set (bd_allocations db2)" for a
  proof -
    have a1: "a \<in> set (bd_allocations ?db1)" using a by (simp add: db2')
    then obtain x where "a = reverse_if ?P u now x" by auto
    then have dead: "al_payment_id a = pid \<Longrightarrow> \<not> al_live a" by simp
    obtain p d where pd: "0 < al_amount a" "p \<in> set (bd_payments db)" "d \<in> set (bd_documents db)"
      "pa_id p = al_payment_id a" "do_id d = al_document_id a" "do_subscriber_id d = pa_subscriber_id p"
      "do_status d \<noteq> BORRADOR" "al_live a \<Longrightarrow> pa_status p = REGISTRADO \<and> do_status d = EMITIDO"
      using b1(3) [OF a1] unfolding allocation_ok_def by auto
    have "?annul p \<in> set (bd_payments db2)" using pd(2) by (simp add: db2)
    moreover have "d \<in> set (bd_documents db2)" using pd(3) by (simp add: db2)
    ultimately show ?thesis
      unfolding allocation_ok_def using pd dead by (intro conjI bexI [of _ "?annul p"] bexI [of _ d]) auto
  qed
  ultimately have book: "book_ok db2" by (simp add: book_ok_def)
  have per: "periods_ok db2" using ok(2) by (simp add: db2')
  have ids: "find_period k db2 \<noteq> None \<and> (charged k db2 \<or> \<not> has_document k db2)" if k: "k \<in> set ?ids" for k
  proof -
    obtain a d where "a \<in> set (bd_allocations db)" "al_live a" "d \<in> set (bd_documents db)"
      "do_id d = al_document_id a" "do_period_id d = k" using k by auto
    then have "charged k db2" using charged_live [OF ok(1)] by (auto simp: charged_def db2)
    then show ?thesis using charged_has_period [OF per] by simp
  qed
  have same: "settled k db2 = settled k db" if "k \<notin> set ?ids" for k
    unfolding db2' payments_irrelevant using that by (intro settled_reverse) auto
  have "signal_of k db2 = settled k db" for k using ok(3) by (simp add: db2')
  from recalculate_ok(2,3) [OF book per ids this same r] show ?thesis by blast
qed

section \<open>Credit applied at issue\<close>

lemma credit_one_applied:
  assumes "credit_one did sub u p (ps, db1) = Inr (ps', db2)" and "applied db ps db1"
  shows "applied db ps' db2"
proof -
  have b: "book_ok db1" using assms(2) by (simp add: applied_def)
  show ?thesis
  proof (cases "(ps', db2) = (ps, db1)")
    case False
    then obtain c qs where "applyAllocations (pa_id p) sub [(did, c)] u db1 = Inr (qs, db2)"
      "ps' = fold set_insert qs ps"
      using assms(1) by (auto simp: credit_one_def res_simps Let_def split: if_splits option.splits)
    then show ?thesis using applied_trans [OF assms(2) applied_apply [OF _ b]] by blast
  qed (use assms in simp)
qed

lemma credit_fold_applied:
  assumes "res_fold (credit_one did sub u) xs st = Inr (ps', db2)" and "st = (ps, db1)" and "applied db ps db1"
  shows "applied db ps' db2"
  using assms
proof (induction xs arbitrary: st ps db1)
  case (Cons x xs)
  obtain qs db3 where "credit_one did sub u x (ps, db1) = Inr (qs, db3)"
    "res_fold (credit_one did sub u) xs (qs, db3) = Inr (ps', db2)"
    using Cons.prems(1,2) by (auto simp: res_simps)
  with Cons.IH credit_one_applied [OF _ Cons.prems(3)] show ?case by blast
qed simp

lemma applyCredit_cases:
  assumes "applyCreditWithin did sub u db = Inr (evs, db')"
  obtains ps db1 where "res_fold (credit_one did sub u) (js_sort payment_le
      (filter (\<lambda>p. pa_subscriber_id p = sub \<and> pa_status p = REGISTRADO) (bd_payments db))) ([], db) = Inr (ps, db1)"
    "recalculateSignals ps db1 = (db', evs)"
proof -
  let ?f = "res_fold (credit_one did sub u) (js_sort payment_le
      (filter (\<lambda>p. pa_subscriber_id p = sub \<and> pa_status p = REGISTRADO) (bd_payments db))) ([], db)"
  obtain ps db1 where f: "?f = Inr (ps, db1)"
    using assms by (cases ?f) (auto simp: applyCreditWithin_def)
  obtain db2 es where r: "recalculateSignals ps db1 = (db2, es)" by fastforce
  with assms f that show thesis by (simp add: applyCreditWithin_def)
qed

lemma ledger_ok_apply_credit:
  assumes "applyCreditWithin did sub u db = Inr (evs, db')" and "ledger_ok db"
  shows "ledger_ok db'" and "events_exact db evs db'"
    and "\<exists>new S. db' = db\<lparr>bd_allocations := bd_allocations db @ new, bd_signals := S\<rparr>"
proof -
  obtain ps db1 where f: "res_fold (credit_one did sub u) (js_sort payment_le
      (filter (\<lambda>p. pa_subscriber_id p = sub \<and> pa_status p = REGISTRADO) (bd_payments db))) ([], db) = Inr (ps, db1)"
    and r: "recalculateSignals ps db1 = (db', evs)" using applyCredit_cases [OF assms(1)] .
  have "book_ok db" using assms(2) by (simp add: ledger_ok_def)
  from credit_fold_applied [OF f refl applied_refl [OF this]] have a: "applied db ps db1" .
  note c = commit_applied [OF assms(2) a r]
  show "ledger_ok db'" "events_exact db evs db'" by (fact c)+
  obtain new where "db1 = db\<lparr>bd_allocations := bd_allocations db @ new\<rparr>" using a by (auto simp: applied_def)
  with c(1) show "\<exists>new S. db' = db\<lparr>bd_allocations := bd_allocations db @ new, bd_signals := S\<rparr>" by auto
qed

end
