(* ===== verification/BillingDocuments.thy ===== *)
theory BillingDocuments
  imports BillingLedger
begin

text \<open>
  Charging documents: issue, void and discard
  (\<open>apps/api/src/modules/billing/documents/billing-documents.service.ts\<close>) and the
  generation of drafts (\<open>generation/billing-generation.service.ts\<close>). The encrypted buyer
  document and the snapshots of buyer and issuer are not modelled, only whether the issue
  finds them; the amounts of the plan line come from floating-point arithmetic
  (\<open>billing-generation.math.ts\<close>) and are an argument of the model.
\<close>

section \<open>Numbering\<close>

text \<open>\<open>regexp_replace(number, '^.*-', '')::bigint\<close>: what follows the last hyphen.\<close>

definition after_last_hyphen :: "string \<Rightarrow> string" where
  "after_last_hyphen s = rev (takeWhile (\<lambda>c. c \<noteq> CHR ''-'') (rev s))"

definition bigint_of :: "string \<Rightarrow> int result" where
  "bigint_of s = (if s \<noteq> [] \<and> list_all is_digit s then Inr (parse_digits s) else Inl Plain_Error)"

definition number_text :: "string \<Rightarrow> int \<Rightarrow> string" where
  "number_text prefix n = prefix @ CHR ''-'' # pad_num 6 n"

definition issued_numbers :: "string \<Rightarrow> billing_db \<Rightarrow> string list" where
  "issued_numbers pattern db =
     concat (map (\<lambda>d. case do_number d of None \<Rightarrow> [] | Some n \<Rightarrow>
       if sql_like pattern n \<and> do_status d \<noteq> BORRADOR then [n] else []) (bd_documents db))"

definition nextNumber :: "string \<Rightarrow> billing_db \<Rightarrow> int result" where
  "nextNumber prefix db =
     res_bind (res_map (\<lambda>n. bigint_of (after_last_hyphen n)) (issued_numbers (prefix @ ''-%'') db)) (\<lambda>ns.
     Inr (foldr max ns 0 + 1))"

text \<open>
  The three attempts: a number already taken (\<open>billing_documents_tenant_id_number_key\<close>)
  rolls back to the savepoint and reads the next number again.
\<close>

definition number_taken :: "string \<Rightarrow> billing_db \<Rightarrow> bool" where
  "number_taken number db = list_ex (\<lambda>d. do_number d = Some number) (bd_documents db)"

fun assign_number :: "nat \<Rightarrow> string \<Rightarrow> int \<Rightarrow> billing_db \<Rightarrow> string result" where
  "assign_number 0 prefix next_number db = Inl Plain_Error"
| "assign_number (Suc attempts) prefix next_number db =
     (let number = number_text prefix next_number
      in if \<not> number_taken number db then Inr number
         else res_bind (nextNumber prefix db) (\<lambda>again.
                if attempts = 0 then Inl (Conflict []) else assign_number attempts prefix again db))"

section \<open>Issue, void and discard\<close>

record prepared_contract =
  pc_subscriberId :: string
  pc_documentNumber :: "string option"
  pc_revealed :: "string option"

record prepared_issuer =
  pi_legalName :: "string option"
  pi_nit :: "string option"

text \<open>The answers of the ports that \<open>prepareIssue\<close> collects before the transaction.\<close>

record prepared_issue =
  pr_contract :: "prepared_contract option"
  pr_cycle :: "(int option \<times> int option) option"
  pr_issuer :: prepared_issuer
  pr_issueDate :: string

definition truthy :: "string option \<Rightarrow> bool" where
  "truthy s = (case s of None \<Rightarrow> False | Some t \<Rightarrow> t \<noteq> [])"

definition buyer_number :: "prepared_contract \<Rightarrow> string option" where
  "buyer_number c = (case pc_documentNumber c of Some n \<Rightarrow> Some n | None \<Rightarrow> pc_revealed c)"

definition due_input :: "BillingPolicy \<Rightarrow> BillingDueAndCutoffPolicyInput" where
  "due_input p =
     \<lparr>cutoffMode = po_cutoffMode p, paymentTermDays = po_paymentTermDays p,
      graceDays = po_graceDays p, cutoffEnabled = Some (po_cutoffEnabled p)\<rparr>"

definition set_period_dates :: "string \<Rightarrow> BillingDueAndCutoff \<Rightarrow> billing_db \<Rightarrow> billing_db" where
  "set_period_dates periodId dates db =
     db\<lparr>bd_periods := map (\<lambda>p. if pe_id p = periodId
          then p\<lparr>pe_due_date := dueDate dates, pe_cutoff_date := cutoffDate dates\<rparr> else p) (bd_periods db)\<rparr>"

definition set_issued :: "string \<Rightarrow> string \<Rightarrow> string \<Rightarrow> string \<Rightarrow> billing_db \<Rightarrow> billing_db" where
  "set_issued documentId number issueDate due db =
     db\<lparr>bd_documents := map (\<lambda>d. if do_id d = documentId
          then d\<lparr>do_status := EMITIDO, do_number := Some number, do_issue_date := Some issueDate,
                 do_due_date := due\<rparr> else d) (bd_documents db)\<rparr>"

text \<open>The checks of one document, in the order of the code; they give what the writes need.\<close>

record issue_plan =
  ip_document :: document_row
  ip_period :: period_row
  ip_prefix :: string
  ip_dates :: BillingDueAndCutoff

definition check_issue ::
  "(string \<Rightarrow> titular_ref) \<Rightarrow> string \<Rightarrow> prepared_issue option \<Rightarrow> billing_db \<Rightarrow> issue_plan result" where
  "check_issue titular documentId prepared db =
     (case prepared of None \<Rightarrow> Inl documentNotFound | Some pr \<Rightarrow>
      case find_document documentId db of None \<Rightarrow> Inl documentNotFound | Some document \<Rightarrow>
      res_bind (guard_ok (do_status document = BORRADOR) (Conflict ''BILLING_DOCUMENT_NOT_DRAFT'')) (\<lambda>_.
      res_bind (guard_ok (do_blocking_reason document = None) (Unprocessable ''BILLING_DOCUMENT_BLOCKED'')) (\<lambda>_.
      case pr_contract pr of None \<Rightarrow> Inl (Not_Found ''BILLING_CONTRACT_NOT_FOUND'') | Some contract \<Rightarrow>
      res_bind (guard_ok (ti_exists (titular (do_subscriber_id document))
                  \<and> \<not> ti_anonymized (titular (do_subscriber_id document))) anonymizedConflict) (\<lambda>_.
      res_bind (guard_ok (truthy (buyer_number contract)) (Unprocessable ''BILLING_DOCUMENT_BLOCKED'')) (\<lambda>_.
      res_bind (guard_ok (truthy (pi_legalName (pr_issuer pr)) \<and> truthy (pi_nit (pr_issuer pr)))
                  (Unprocessable ''BILLING_ISSUER_INCOMPLETE'')) (\<lambda>_.
      res_bind (guard_ok (truthy (map_option po_documentPrefix (bd_policy db))) Plain_Error) (\<lambda>_.
      case (pr_cycle pr, find_period (do_period_id document) db) of
        (Some (Some cycleDay, cutoffDay), Some period) \<Rightarrow>
          res_bind (guard_ok (cycleDay \<noteq> 0) Plain_Error) (\<lambda>_.
          res_bind (computeDueAndCutoff
                      \<lparr>periodStart = pe_period_start period, periodEnd = pe_period_end period\<rparr>
                      (due_input (pe_effective_policy period)) (pr_issueDate pr) cutoffDay) (\<lambda>dates.
          Inr \<lparr>ip_document = document, ip_period = period,
               ip_prefix = po_documentPrefix (the (bd_policy db)), ip_dates = dates\<rparr>))
      | _ \<Rightarrow> Inl Plain_Error)))))))"

definition issueWithinManager ::
  "(string \<Rightarrow> titular_ref) \<Rightarrow> string \<Rightarrow> string option \<Rightarrow> prepared_issue option \<Rightarrow> billing_db \<Rightarrow>
    (period_event list \<times> billing_db) result" where
  "issueWithinManager titular documentId actorId prepared db =
     res_bind (check_issue titular documentId prepared db) (\<lambda>plan.
     let db1 = set_period_dates (do_period_id (ip_document plan)) (ip_dates plan) db
     in res_bind (nextNumber (ip_prefix plan) db1) (\<lambda>first.
        res_bind (assign_number 3 (ip_prefix plan) first db1) (\<lambda>number.
        let db2 = set_issued documentId number (pr_issueDate (the prepared)) (dueDate (ip_dates plan)) db1
        in if po_autoApplyCredit (pe_effective_policy (ip_period plan))
           then applyCreditWithin documentId (do_subscriber_id (ip_document plan)) actorId db2
           else Inr ([], db2))))"

text \<open>\<open>issue\<close>: one transaction over the identifiers, in order.\<close>

fun issue_all ::
  "(string \<Rightarrow> titular_ref) \<Rightarrow> (string \<Rightarrow> prepared_issue option) \<Rightarrow> string option \<Rightarrow> string list \<Rightarrow>
    period_event list \<times> billing_db \<Rightarrow> (period_event list \<times> billing_db) result" where
  "issue_all titular prepared actorId [] st = Inr st"
| "issue_all titular prepared actorId (k # ks) st =
     res_bind (issueWithinManager titular k actorId (prepared k) (snd st)) (\<lambda>(events, db).
       issue_all titular prepared actorId ks (fst st @ events, db))"

definition void_document ::
  "string \<Rightarrow> BillingDocumentVoidReason \<Rightarrow> string \<Rightarrow> int \<Rightarrow> billing_db \<Rightarrow> (period_event list \<times> billing_db) result" where
  "void_document documentId reasonCode actorId now db =
     (case find_document documentId db of
        None \<Rightarrow> Inl documentNotFound
      | Some document \<Rightarrow>
          res_bind (guard_ok (do_status document = EMITIDO) documentNotIssued) (\<lambda>_.
          let db1 = db\<lparr>bd_documents := map (\<lambda>d. if do_id d = documentId
                then d\<lparr>do_status := DOC_ANULADO, do_void_reason_code := Some reasonCode,
                       do_voided_by := Some actorId\<rparr> else d) (bd_documents db)\<rparr>;
              db2 = db1\<lparr>bd_allocations :=
                map (reverse_if (\<lambda>a. al_document_id a = documentId) actorId now) (bd_allocations db1)\<rparr>;
              (db3, events) = recalculateSignals [do_period_id document] db2
          in Inr (events, db3)))"

definition discard :: "string \<Rightarrow> billing_db \<Rightarrow> billing_db result" where
  "discard documentId db =
     (case find_document documentId db of
        None \<Rightarrow> Inl documentNotFound
      | Some document \<Rightarrow>
          res_bind (guard_ok (do_status document = BORRADOR) (Conflict ''BILLING_DOCUMENT_NOT_DRAFT'')) (\<lambda>_.
          Inr (db\<lparr>bd_documents := filter (\<lambda>d. do_id d \<noteq> documentId) (bd_documents db)\<rparr>)))"

section \<open>Generation\<close>

record billable_contract =
  bc_contractId :: string
  bc_subscriberId :: string
  bc_cycleDay :: "int option"
  bc_cutoffDay :: "int option"
  bc_activatedAt :: "string option"
  bc_terminatedAt :: "string option"
  bc_monthlyPrice :: "string option"
  bc_hasVat :: bool
  bc_displayName :: string
  bc_documentType :: "string option"
  bc_hasDocumentNumber :: bool

datatype generate_outcome =
  Generated | Existing | Omitted_termination | Blocked | Not_due | Without_cycle

text \<open>\<open>{ ...basePolicy, ... }\<close> with the overrides of the contract.\<close>

definition effective_policy :: "BillingPolicy \<Rightarrow> ContractPolicyRow option \<Rightarrow> BillingPolicy" where
  "effective_policy basePolicy override =
     basePolicy\<lparr>po_periodTiming := or_else (of_before cp_period_timing override) (po_periodTiming basePolicy),
       po_generationLeadDays := or_else (of_before cp_generation_lead_days override) (po_generationLeadDays basePolicy),
       po_paymentTermDays := or_else (of_before cp_payment_term_days override) (po_paymentTermDays basePolicy),
       po_graceDays := or_else (of_before cp_grace_days override) (po_graceDays basePolicy),
       po_cutoffEnabled := or_else (of_before cp_cutoff_enabled override) (po_cutoffEnabled basePolicy),
       po_firstPeriodMode := or_else (of_before cp_first_period_mode override) (po_firstPeriodMode basePolicy)\<rparr>"

definition previousPeriodStart :: "int \<Rightarrow> string \<Rightarrow> string result" where
  "previousPeriodStart cycleDay start =
     (let year = parse_digits (take 4 start); month = parse_digits (take 2 (drop 5 start))
      in res_bind (if month = 1 then computeBillingPeriod cycleDay (year - 1) 12
                   else computeBillingPeriod cycleDay year (month - 1)) (\<lambda>p. Inr (periodStart p)))"

definition opt_gt :: "string option \<Rightarrow> string \<Rightarrow> bool" where
  "opt_gt m s = (case m of None \<Rightarrow> False | Some t \<Rightarrow> js_lt s t)"

definition opt_lt :: "string option \<Rightarrow> string \<Rightarrow> bool" where
  "opt_lt m s = (case m of None \<Rightarrow> False | Some t \<Rightarrow> js_lt t s)"

text \<open>
  The period to bill: the target and the start of a combined first period, or the reason
  to stop. \<open>has_prior\<close> is whether the contract already has a period.
\<close>

definition choose_target ::
  "int \<Rightarrow> BillingPolicy \<Rightarrow> string option \<Rightarrow> string option \<Rightarrow> string \<Rightarrow> bool \<Rightarrow>
    (generate_outcome + BillingPeriodSpan \<times> string option) result" where
  "choose_target cycleDay policy billingStart terminatedAt localDate has_prior =
     res_bind (resolveGenerationTarget cycleDay (po_periodTiming policy) (po_generationLeadDays policy) localDate) (\<lambda>target0.
     if opt_gt billingStart (periodEnd target0) then Inr (Inl Not_due)
     else
       res_bind
         (if opt_gt billingStart (periodStart target0) \<and> po_firstPeriodMode policy = JUNTO_AL_SIGUIENTE
          then res_bind (addDays (periodEnd target0) 1) (\<lambda>nxt.
               res_bind (computeBillingPeriod cycleDay (parse_digits (take 4 nxt)) (parse_digits (take 2 (drop 5 nxt)))) (\<lambda>target.
               res_bind (computeGenerationDate target (po_periodTiming policy) (po_generationLeadDays policy)) (\<lambda>nextGenerationDate.
               if js_lt localDate nextGenerationDate then Inr (Inl Not_due)
               else if opt_lt terminatedAt (periodStart target) then Inr (Inl Omitted_termination)
               else Inr (Inr (target, billingStart)))))
          else Inr (Inr (target0, None))) (\<lambda>choice.
       case choice of
         Inl outcome \<Rightarrow> Inr (Inl outcome)
       | Inr (target, combinedStart) \<Rightarrow>
           if opt_lt terminatedAt (periodStart target) then Inr (Inl Omitted_termination)
           else if opt_lt billingStart (periodStart target) \<and> po_firstPeriodMode policy = JUNTO_AL_SIGUIENTE
           then res_bind (previousPeriodStart cycleDay (periodStart target)) (\<lambda>previousStart.
                if \<not> opt_lt billingStart previousStart \<and> \<not> has_prior
                then Inr (Inr (target, billingStart)) else Inr (Inr (target, combinedStart)))
           else Inr (Inr (target, combinedStart))))"

definition blocking_reason :: "billable_contract \<Rightarrow> BillingBlockingReason option" where
  "blocking_reason c =
     (if \<not> truthy (bc_monthlyPrice c) then Some SIN_PRECIO
      else if \<not> bc_hasVat c then Some SIN_TRATAMIENTO_IVA
      else if bc_displayName c = [] \<or> \<not> truthy (bc_documentType c) \<or> \<not> bc_hasDocumentNumber c
      then Some SIN_DATOS_FISCALES else None)"

text \<open>The rows that a generation inserts.\<close>

definition new_period ::
  "string \<Rightarrow> billable_contract \<Rightarrow> BillingPeriodSpan \<Rightarrow> string \<Rightarrow> string \<Rightarrow> BillingDueAndCutoff \<Rightarrow> BillingPolicy \<Rightarrow> period_row" where
  "new_period periodUuid contract target coveredStart localDate dates policy =
     \<lparr>pe_id = periodUuid, pe_contract_id = bc_contractId contract, pe_subscriber_id = bc_subscriberId contract,
      pe_period_start = periodStart target, pe_period_end = periodEnd target, pe_covered_start = coveredStart,
      pe_generation_date = localDate, pe_due_date = dueDate dates, pe_cutoff_date = cutoffDate dates,
      pe_effective_policy = policy\<rparr>"

definition new_draft ::
  "string \<Rightarrow> string \<Rightarrow> billable_contract \<Rightarrow> BillingDueAndCutoff \<Rightarrow> int \<times> int \<Rightarrow> string option \<Rightarrow> int \<Rightarrow> document_row" where
  "new_draft documentUuid periodId contract dates amounts actorId now =
     \<lparr>do_id = documentUuid, do_period_id = periodId,
      do_contract_id = bc_contractId contract, do_subscriber_id = bc_subscriberId contract,
      do_status = BORRADOR, do_number = None, do_issue_date = None, do_due_date = dueDate dates,
      do_subtotal = fst amounts, do_tax_total = snd amounts, do_total = fst amounts + snd amounts,
      do_blocking_reason = blocking_reason contract, do_void_reason_code = None, do_voided_by = None,
      do_created_by = actorId, do_created_at = now\<rparr>"

definition insert_draft :: "period_row option \<Rightarrow> period_row \<Rightarrow> document_row \<Rightarrow> billing_db \<Rightarrow> billing_db" where
  "insert_draft existing period document db =
     (let db1 = (case existing of Some _ \<Rightarrow> db | None \<Rightarrow> db\<lparr>bd_periods := bd_periods db @ [period]\<rparr>)
      in db1\<lparr>bd_documents := bd_documents db1 @ [document]\<rparr>)"

text \<open>
  \<open>generateOne\<close> from the lock of the period on. \<open>{ ...policy, ...frozen.effective_policy }\<close>:
  every field was frozen with the period. A total that does not fit its column fails at the
  insert.
\<close>

definition live_in_period :: "string \<Rightarrow> billing_db \<Rightarrow> bool" where
  "live_in_period k db = list_ex (\<lambda>d. do_period_id d = k \<and> do_status d \<noteq> DOC_ANULADO) (bd_documents db)"

definition find_contract_period :: "string \<Rightarrow> string \<Rightarrow> billing_db \<Rightarrow> period_row option" where
  "find_contract_period contractId start db =
     find (\<lambda>p. pe_contract_id p = contractId \<and> pe_period_start p = start) (bd_periods db)"

definition generate_period ::
  "(string \<Rightarrow> titular_ref) \<Rightarrow> (int \<Rightarrow> int \<Rightarrow> BillingProrationMethod \<Rightarrow> (int \<times> int) result) \<Rightarrow>
    BillingPolicy \<Rightarrow> billable_contract \<Rightarrow> string option \<Rightarrow> BillingPeriodSpan \<Rightarrow> string option \<Rightarrow> string \<Rightarrow>
    string option \<Rightarrow> bool \<Rightarrow> prepared_issue \<Rightarrow> string \<Rightarrow> string \<Rightarrow> int \<Rightarrow> billing_db \<Rightarrow>
    (generate_outcome \<times> period_event list \<times> billing_db) result" where
  "generate_period titular plan_line policy contract billingStart target combinedStart localDate actorId manual
     prepared periodUuid documentUuid now db =
     (let existing = find_contract_period (bc_contractId contract) (periodStart target) db
      in if existing \<noteq> None \<and> (\<not> manual \<or> live_in_period (pe_id (the existing)) db) then Inr (Existing, [], db)
      else
        let effectivePolicy = (case existing of None \<Rightarrow> policy | Some p \<Rightarrow> pe_effective_policy p);
            coveredStart = (case existing of
                Some p \<Rightarrow> pe_covered_start p
              | None \<Rightarrow> or_else combinedStart
                  (if opt_gt billingStart (periodStart target) then the billingStart else periodStart target));
            coveredEnd = (if opt_lt (bc_terminatedAt contract) (periodEnd target)
                          then the (bc_terminatedAt contract) else periodEnd target)
        in res_bind (diffInDays (periodStart target) (periodEnd target)) (\<lambda>span.
           res_bind (diffInDays coveredStart coveredEnd) (\<lambda>covered.
           res_bind (computeDueAndCutoff target (due_input effectivePolicy) localDate (bc_cutoffDay contract)) (\<lambda>dates.
           res_bind (if truthy (bc_monthlyPrice contract) \<and> bc_hasVat contract
                     then plan_line (covered + 1) (span + 1) (po_prorationMethod effectivePolicy)
                     else Inr (0, 0)) (\<lambda>amounts.
           res_bind (guard_ok (fst amounts + snd amounts \<le> 99999999999999) Plain_Error) (\<lambda>_.
           let period = new_period periodUuid contract target coveredStart localDate dates policy;
               periodId = (case existing of Some p \<Rightarrow> pe_id p | None \<Rightarrow> periodUuid);
               document = new_draft documentUuid periodId contract dates amounts actorId now;
               db1 = insert_draft existing period document db;
               outcome = (if blocking_reason contract \<noteq> None then Blocked else Generated)
           in if po_approvalMode effectivePolicy = APROBACION_AUTOMATICA \<and> blocking_reason contract = None
              then res_bind (issueWithinManager titular documentUuid actorId (Some prepared) db1) (\<lambda>(events, db2).
                     Inr (outcome, events, db2))
              else Inr (outcome, [], db1)))))))"

definition generateOne ::
  "(string \<Rightarrow> titular_ref) \<Rightarrow> (int \<Rightarrow> int \<Rightarrow> BillingProrationMethod \<Rightarrow> (int \<times> int) result) \<Rightarrow>
    ContractPolicyRow option \<Rightarrow> billable_contract \<Rightarrow> string \<Rightarrow> string option \<Rightarrow> bool \<Rightarrow> prepared_issue \<Rightarrow>
    string \<Rightarrow> string \<Rightarrow> int \<Rightarrow> billing_db \<Rightarrow> (generate_outcome \<times> period_event list \<times> billing_db) result" where
  "generateOne titular plan_line override contract localDate actorId manual prepared periodUuid documentUuid now db =
     (if bc_cycleDay contract = None \<or> bc_cycleDay contract = Some 0 then Inr (Without_cycle, [], db)
      else case bd_policy db of None \<Rightarrow> Inl Plain_Error | Some basePolicy \<Rightarrow>
      let policy = effective_policy basePolicy override;
          billingStart = (case of_before cp_billing_start_date override of
                            None \<Rightarrow> bc_activatedAt contract | Some s \<Rightarrow> Some s);
          has_prior = list_ex (\<lambda>p. pe_contract_id p = bc_contractId contract) (bd_periods db)
      in res_bind (choose_target (the (bc_cycleDay contract)) policy billingStart (bc_terminatedAt contract)
                     localDate has_prior) (\<lambda>choice.
         case choice of
           Inl outcome \<Rightarrow> Inr (outcome, [], db)
         | Inr (target, combinedStart) \<Rightarrow>
             generate_period titular plan_line policy contract billingStart target combinedStart localDate
               actorId manual prepared periodUuid documentUuid now db))"

section \<open>Issuing keeps the ledger\<close>

lemma issue_cases:
  assumes "issueWithinManager titular did u prepared db = Inr (evs, db')"
  obtains pr d p prefix dates first number db1 db2 where
    "prepared = Some pr" "find_document did db = Some d" "do_status d = BORRADOR" "do_blocking_reason d = None"
    "find_period (do_period_id d) db = Some p" "map_option po_documentPrefix (bd_policy db) = Some prefix"
    "ti_exists (titular (do_subscriber_id d))" "\<not> ti_anonymized (titular (do_subscriber_id d))"
    "db1 = set_period_dates (do_period_id d) dates db"
    "nextNumber prefix db1 = Inr first" "assign_number 3 prefix first db1 = Inr number"
    "db2 = set_issued did number (pr_issueDate pr) (dueDate dates) db1"
    "(if po_autoApplyCredit (pe_effective_policy p)
      then applyCreditWithin did (do_subscriber_id d) u db2 else Inr ([], db2)) = Inr (evs, db')"
proof -
  obtain plan where plan: "check_issue titular did prepared db = Inr plan"
    using assms by (cases "check_issue titular did prepared db") (simp_all add: issueWithinManager_def)
  have c: "prepared \<noteq> None \<and> find_document did db = Some (ip_document plan) \<and> do_status (ip_document plan) = BORRADOR
      \<and> do_blocking_reason (ip_document plan) = None
      \<and> find_period (do_period_id (ip_document plan)) db = Some (ip_period plan)
      \<and> map_option po_documentPrefix (bd_policy db) = Some (ip_prefix plan)
      \<and> ti_exists (titular (do_subscriber_id (ip_document plan)))
      \<and> \<not> ti_anonymized (titular (do_subscriber_id (ip_document plan)))"
    using plan
    by (auto simp: check_issue_def res_simps truthy_def split: option.splits if_splits)
  then obtain pr where pr: "prepared = Some pr" by auto
  let ?db1 = "set_period_dates (do_period_id (ip_document plan)) (ip_dates plan) db"
  obtain first where f: "nextNumber (ip_prefix plan) ?db1 = Inr first"
    using assms plan by (cases "nextNumber (ip_prefix plan) ?db1") (simp_all add: issueWithinManager_def Let_def)
  obtain number where n: "assign_number 3 (ip_prefix plan) first ?db1 = Inr number"
    using assms plan f by (cases "assign_number 3 (ip_prefix plan) first ?db1")
      (simp_all add: issueWithinManager_def Let_def)
  show thesis
    using that [OF pr, of "ip_document plan" "ip_period plan" "ip_prefix plan" ?db1 "ip_dates plan" first number]
      c f n assms plan pr by (simp add: issueWithinManager_def Let_def)
qed

text \<open>A change of documents that only touches rows without live allocations.\<close>

lemma book_ok_documents:
  assumes "book_ok db" and "distinct (map do_id ds)"
    and "\<And>d. d \<in> set ds \<Longrightarrow> money_range (do_total d) \<and> paid_amount (do_id d) (bd_allocations db) \<le> do_total d"
    and "\<And>a d. a \<in> set (bd_allocations db) \<Longrightarrow> d \<in> set (bd_documents db) \<Longrightarrow> do_id d = al_document_id a \<Longrightarrow>
      do_status d \<noteq> BORRADOR \<Longrightarrow> d \<in> set ds"
  shows "book_ok (db\<lparr>bd_documents := ds\<rparr>)"
proof -
  have "allocation_ok (db\<lparr>bd_documents := ds\<rparr>) a" if a: "a \<in> set (bd_allocations db)" for a
  proof -
    obtain p d where "0 < al_amount a" "p \<in> set (bd_payments db)" "d \<in> set (bd_documents db)"
      "pa_id p = al_payment_id a" "do_id d = al_document_id a" "do_subscriber_id d = pa_subscriber_id p"
      "do_status d \<noteq> BORRADOR" "al_live a \<longrightarrow> pa_status p = REGISTRADO \<and> do_status d = EMITIDO"
      using assms(1) a unfolding book_ok_def allocation_ok_def by blast
    moreover from this have "d \<in> set ds" using assms(4) [OF a] by blast
    ultimately show ?thesis unfolding allocation_ok_def by auto
  qed
  moreover have "payments_ok (db\<lparr>bd_documents := ds\<rparr>)"
    using assms(1) by (simp add: book_ok_def payments_ok_def)
  moreover have "documents_paid_ok (db\<lparr>bd_documents := ds\<rparr>)"
    using assms(2,3) by (simp add: documents_paid_ok_def)
  ultimately show ?thesis by (simp add: book_ok_def)
qed

lemma draft_unpaid:
  assumes "book_ok db" and "d \<in> set (bd_documents db)" and "do_status d = BORRADOR"
  shows "a \<in> set (bd_allocations db) \<Longrightarrow> al_document_id a \<noteq> do_id d"
    and "paid_amount (do_id d) (bd_allocations db) = 0"
proof -
  have ids: "distinct (map do_id (bd_documents db))" using assms(1) by (simp add: book_ok_def documents_paid_ok_def)
  show *: "al_document_id a \<noteq> do_id d" if "a \<in> set (bd_allocations db)" for a
  proof
    assume "al_document_id a = do_id d"
    then obtain e where "e \<in> set (bd_documents db)" "do_id e = do_id d" "do_status e \<noteq> BORRADOR"
      using assms(1) \<open>a \<in> _\<close> unfolding book_ok_def allocation_ok_def by fastforce
    with distinct_map_eq [OF ids this(1) assms(2)] assms(3) show False by simp
  qed
  show "paid_amount (do_id d) (bd_allocations db) = 0"
    unfolding live_sums using * by (intro live_sum_none) auto
qed

lemma dates_irrelevant [simp]:
  "book_ok (set_period_dates k dates db) = book_ok db"
  "settled j (set_period_dates k dates db) = settled j db"
  "signal_of j (set_period_dates k dates db) = signal_of j db"
  "bd_documents (set_period_dates k dates db) = bd_documents db"
  "bd_allocations (set_period_dates k dates db) = bd_allocations db"
  "bd_payments (set_period_dates k dates db) = bd_payments db"
  "bd_policy (set_period_dates k dates db) = bd_policy db"
  "find_document j (set_period_dates k dates db) = find_document j db"
  by (simp_all add: set_period_dates_def book_ok_def payments_ok_def documents_paid_ok_def allocation_ok_def
      settled_def signal_of_def find_document_def)

lemma live_unique:
  assumes "periods_ok db" and "d \<in> set (bd_documents db)" "e \<in> set (bd_documents db)"
    and "do_status d \<noteq> DOC_ANULADO" "do_status e \<noteq> DOC_ANULADO" and "do_period_id d = do_period_id e"
  shows "d = e"
proof -
  have "distinct (map do_period_id (live_documents db))" using assms(1) by (simp add: periods_ok_def)
  from distinct_map_eq [OF this, of d e] assms show ?thesis by (simp add: live_documents_def)
qed

lemma ledger_ok_set_issued:
  fixes dates :: BillingDueAndCutoff and number date :: string
  assumes "ledger_ok db" and d: "find_document did db = Some d" "do_status d = BORRADOR"
  defines "db1 \<equiv> set_period_dates (do_period_id d) dates db"
  defines "db2 \<equiv> set_issued did number date (dueDate dates) db1"
  shows "ledger_ok db2" and "settled k db2 = settled k db"
proof -
  have ok: "book_ok db" "periods_ok db" "\<And>k. signal_of k db = settled k db"
    using assms(1) by (simp_all add: ledger_ok_def signals_ok_def)
  have ids: "distinct (map do_id (bd_documents db))" using ok(1) by (simp add: book_ok_def documents_paid_ok_def)
  note din = find_document_in [OF d(1)]
  have only: "e = d" if "e \<in> set (bd_documents db)" "do_id e = did" for e
    using distinct_map_eq [OF ids that(1)] din that(2) by blast
  let ?issue = "\<lambda>e. if do_id e = did then e\<lparr>do_status := EMITIDO, do_number := Some number,
      do_issue_date := Some date, do_due_date := dueDate dates\<rparr> else e"
  have docs: "bd_documents db2 = map ?issue (bd_documents db)" by (simp add: db2_def db1_def set_issued_def)
  have db2: "db2 = db1\<lparr>bd_documents := map ?issue (bd_documents db)\<rparr>" by (simp add: db2_def db1_def set_issued_def)
  have maps: "map do_id (map ?issue es) = map do_id es" "map do_period_id (map ?issue es) = map do_period_id es" for es
    by (induction es) simp_all
  note unpaid = draft_unpaid [OF ok(1) conjunct1 [OF din] d(2)]
  have b1: "book_ok db1" "bd_allocations db1 = bd_allocations db" "bd_documents db1 = bd_documents db"
    using ok(1) by (simp_all add: db1_def)
  have book: "book_ok db2" unfolding db2
  proof (rule book_ok_documents [OF b1(1)])
    show "distinct (map do_id (map ?issue (bd_documents db)))" using ids by (simp only: maps)
  next
    fix e assume "e \<in> set (map ?issue (bd_documents db))"
    then obtain x where "x \<in> set (bd_documents db)" "do_id e = do_id x" "do_total e = do_total x" by auto
    then show "money_range (do_total e) \<and> paid_amount (do_id e) (bd_allocations db1) \<le> do_total e"
      using ok(1) by (simp add: b1 book_ok_def documents_paid_ok_def)
  next
    fix a e assume "a \<in> set (bd_allocations db1)" "e \<in> set (bd_documents db1)" "do_id e = al_document_id a"
    then have "do_id e \<noteq> did" using unpaid(1) [of a] din by (simp add: b1)
    with \<open>e \<in> set (bd_documents db1)\<close> show "e \<in> set (map ?issue (bd_documents db))" by (force simp: b1)
  qed
  have no_issued: "do_period_id e \<noteq> do_period_id d" if "e \<in> set (bd_documents db)" "do_status e = EMITIDO" for e
    using live_unique [OF ok(2) that(1) conjunct1 [OF din]] that(2) d(2) by auto
  show settled: "settled k db2 = settled k db" for k
  proof
    assume "settled k db2"
    then obtain x where x: "x \<in> set (bd_documents db)" "do_period_id (?issue x) = k" "do_status (?issue x) = EMITIDO"
      "0 < do_total (?issue x)" "do_total (?issue x) \<le> paid_amount (do_id (?issue x)) (bd_allocations db)"
      unfolding settled_def docs by (auto simp: db2_def db1_def set_issued_def)
    show "settled k db"
    proof (cases "do_id x = did")
      case True
      then have "paid_amount (do_id x) (bd_allocations db) = 0" using unpaid(2) din by simp
      with x True show ?thesis by simp
    qed (use x in \<open>auto simp: settled_def\<close>)
  next
    assume "settled k db"
    then obtain x where x: "x \<in> set (bd_documents db)" "do_period_id x = k" "do_status x = EMITIDO"
      "0 < do_total x" "do_total x \<le> paid_amount (do_id x) (bd_allocations db)" by (auto simp: settled_def)
    then have "do_id x \<noteq> did" using only d(2) by auto
    then have "x \<in> set (bd_documents db2)" using x(1) by (force simp: docs)
    with x show "settled k db2" by (auto simp: settled_def db2_def db1_def set_issued_def)
  qed
  have "periods_ok db2"
  proof -
    have p: "bd_periods db2 = map (\<lambda>p. if pe_id p = do_period_id d
        then p\<lparr>pe_due_date := dueDate dates, pe_cutoff_date := cutoffDate dates\<rparr> else p) (bd_periods db)"
      by (simp add: db2_def db1_def set_issued_def set_period_dates_def)
    have pm: "map pe_id (bd_periods db2) = map pe_id (bd_periods db)"
      "map (\<lambda>p. (pe_contract_id p, pe_period_start p)) (bd_periods db2) = map (\<lambda>p. (pe_contract_id p, pe_period_start p)) (bd_periods db)"
      unfolding p by simp_all
    have "do_status (?issue x) \<noteq> DOC_ANULADO \<longleftrightarrow> do_status x \<noteq> DOC_ANULADO" if "x \<in> set (bd_documents db)" for x
      using only [OF that] d(2) by auto
    then have "filter ((\<lambda>d. do_status d \<noteq> DOC_ANULADO) \<circ> ?issue) (bd_documents db)
        = filter (\<lambda>d. do_status d \<noteq> DOC_ANULADO) (bd_documents db)" by (intro filter_cong) (simp_all add: o_def)
    then have "live_documents db2 = map ?issue (live_documents db)"
      unfolding live_documents_def docs filter_map by simp
    then have "map do_period_id (live_documents db2) = map do_period_id (live_documents db)" by (simp only: maps)
    moreover have "\<exists>p \<in> set (bd_periods db2). pe_id p = do_period_id e \<and> pe_contract_id p = do_contract_id e
        \<and> (do_status e = EMITIDO \<longrightarrow> pe_due_date p = do_due_date e)" if e: "e \<in> set (bd_documents db2)" for e
    proof -
      obtain x where x: "x \<in> set (bd_documents db)" "e = ?issue x" using e by (auto simp: docs)
      obtain q where q: "q \<in> set (bd_periods db)" "pe_id q = do_period_id x" "pe_contract_id q = do_contract_id x"
        "do_status x = EMITIDO \<longrightarrow> pe_due_date q = do_due_date x" using ok(2) x(1) by (auto simp: periods_ok_def)
      let ?q = "if pe_id q = do_period_id d
        then q\<lparr>pe_due_date := dueDate dates, pe_cutoff_date := cutoffDate dates\<rparr> else q"
      have "?q \<in> set (bd_periods db2)" using q(1) by (simp add: p)
      moreover have "do_status e = EMITIDO \<longrightarrow> pe_due_date ?q = do_due_date e"
      proof (cases "do_id x = did")
        case True
        then have "x = d" using only x(1) by blast
        with True x(2) q(2) show ?thesis by simp
      next
        case False
        with x q no_issued [OF x(1)] show ?thesis by auto
      qed
      ultimately show ?thesis using q(2,3) x(2) by (intro bexI [of _ ?q]) auto
    qed
    ultimately show ?thesis using ok(2) pm by (simp add: periods_ok_def)
  qed
  moreover have "signal_of k db2 = signal_of k db" for k by (simp add: db2_def db1_def set_issued_def signal_of_def set_period_dates_def)
  ultimately show "ledger_ok db2" using book settled ok(3) by (simp add: ledger_ok_def signals_ok_def)
qed

lemma ledger_ok_issue:
  assumes "issueWithinManager titular did u prepared db = Inr (evs, db')" and "ledger_ok db"
  shows "ledger_ok db' \<and> events_exact db evs db'"
  using assms(1)
proof (rule issue_cases)
  fix pr d p prefix dates first number db1 db2
  assume d: "find_document did db = Some d" "do_status d = BORRADOR"
    and db1: "db1 = set_period_dates (do_period_id d) dates db"
    and db2: "db2 = set_issued did number (pr_issueDate pr) (dueDate dates) db1"
    and r: "(if po_autoApplyCredit (pe_effective_policy p)
      then applyCreditWithin did (do_subscriber_id d) u db2 else Inr ([], db2)) = Inr (evs, db')"
  note s = ledger_ok_set_issued [OF assms(2) d, where number = number and date = "pr_issueDate pr" and dates = dates,
      folded db1, folded db2]
  show ?thesis
  proof (cases "po_autoApplyCredit (pe_effective_policy p)")
    case True
    with r have "applyCreditWithin did (do_subscriber_id d) u db2 = Inr (evs, db')" by simp
    from ledger_ok_apply_credit(1,2) [OF this s(1)] s(2) show ?thesis by (simp add: events_exact_def)
  next
    case False
    with r s show ?thesis by (auto simp: events_exact_def)
  qed
qed

section \<open>Void, discard and generation keep the ledger\<close>

lemma ledger_ok_void_document:
  assumes "void_document did reason u now db = Inr (evs, db')" and "ledger_ok db"
  shows "ledger_ok db' \<and> events_exact db evs db'"
proof -
  obtain d where d: "find_document did db = Some d" "do_status d = EMITIDO"
    using assms(1) by (auto simp: void_document_def res_simps split: option.splits)
  let ?annul = "\<lambda>d. if do_id d = did then d\<lparr>do_status := DOC_ANULADO, do_void_reason_code := Some reason,
      do_voided_by := Some u\<rparr> else d"
  let ?P = "\<lambda>a. al_document_id a = did"
  define db1 where "db1 = db\<lparr>bd_allocations := map (reverse_if ?P u now) (bd_allocations db)\<rparr>"
  define db2 where "db2 = db1\<lparr>bd_documents := map ?annul (bd_documents db)\<rparr>"
  have "db2 = db\<lparr>bd_documents := map ?annul (bd_documents db),
      bd_allocations := map (reverse_if ?P u now) (bd_allocations db)\<rparr>"
    by (cases db) (simp add: db2_def db1_def)
  then have r: "recalculateSignals [do_period_id d] db2 = (db', evs)"
    using assms(1) d by (auto simp: void_document_def split: prod.splits)
  have ok: "book_ok db" "periods_ok db" "\<And>k. signal_of k db = settled k db"
    using assms(2) by (simp_all add: ledger_ok_def signals_ok_def)
  have ids: "distinct (map do_id (bd_documents db))" using ok(1) by (simp add: book_ok_def documents_paid_ok_def)
  note din = find_document_in [OF d(1)]
  have only: "e = d" if "e \<in> set (bd_documents db)" "do_id e = did" for e
    using distinct_map_eq [OF ids that(1)] din that(2) by blast
  have b1: "book_ok db1" unfolding db1_def by (rule book_ok_reverse [OF ok(1)])
  have maps: "map do_id (map ?annul es) = map do_id es" for es by (induction es) simp_all
  have dead: "\<not> al_live a" if a: "a \<in> set (bd_allocations db1)" "al_document_id a = did" for a
  proof -
    obtain x where "a = reverse_if ?P u now x" using a(1) by (auto simp: db1_def)
    with a(2) show ?thesis by simp
  qed
  have book: "book_ok db2"
  proof -
    have "payments_ok db2" using b1 by (simp add: db2_def book_ok_def payments_ok_def)
    moreover have "documents_paid_ok db2"
      using b1 by (auto simp: db2_def db1_def book_ok_def documents_paid_ok_def maps simp del: map_map)
    moreover have "allocation_ok db2 a" if a: "a \<in> set (bd_allocations db1)" for a
    proof -
      obtain p e where pe: "0 < al_amount a" "p \<in> set (bd_payments db1)" "e \<in> set (bd_documents db1)"
        "pa_id p = al_payment_id a" "do_id e = al_document_id a" "do_subscriber_id e = pa_subscriber_id p"
        "do_status e \<noteq> BORRADOR" "al_live a \<longrightarrow> pa_status p = REGISTRADO \<and> do_status e = EMITIDO"
        using b1 a unfolding book_ok_def allocation_ok_def by blast
      have "?annul e \<in> set (bd_documents db2)" using pe(3) by (simp add: db2_def db1_def)
      moreover have "p \<in> set (bd_payments db2)" using pe(2) by (simp add: db2_def)
      ultimately show ?thesis
        unfolding allocation_ok_def using pe dead [OF a]
        by (intro conjI bexI [of _ p] bexI [of _ "?annul e"]) auto
    qed
    moreover have "bd_allocations db2 = bd_allocations db1" by (simp add: db2_def)
    ultimately show ?thesis by (simp add: book_ok_def)
  qed
  have docs: "bd_documents db2 = map ?annul (bd_documents db)" by (simp add: db2_def db1_def)
  have per: "periods_ok db2"
  proof -
    have "filter (\<lambda>d. do_status d \<noteq> DOC_ANULADO) (map ?annul es)
        = filter (\<lambda>e. do_id e \<noteq> did) (filter (\<lambda>d. do_status d \<noteq> DOC_ANULADO) es)" for es
      by (induction es) auto
    then have "live_documents db2 = filter (\<lambda>e. do_id e \<noteq> did) (live_documents db)"
      unfolding live_documents_def docs .
    then have "distinct (map do_period_id (live_documents db2))"
      using ok(2) by (simp add: periods_ok_def distinct_map_filter)
    moreover have "bd_periods db2 = bd_periods db" by (simp add: db2_def db1_def)
    moreover have "\<exists>p \<in> set (bd_periods db). pe_id p = do_period_id e \<and> pe_contract_id p = do_contract_id e
        \<and> (do_status e = EMITIDO \<longrightarrow> pe_due_date p = do_due_date e)" if e: "e \<in> set (map ?annul (bd_documents db))" for e
    proof -
      obtain x where "x \<in> set (bd_documents db)" "e = ?annul x" using e by auto
      with ok(2) show ?thesis by (fastforce simp: periods_ok_def)
    qed
    ultimately show ?thesis using ok(2) by (simp add: periods_ok_def docs del: set_map)
  qed
  have none: "\<not> has_document (do_period_id d) db2"
  proof -
    have "do_period_id e \<noteq> do_period_id d" if "e \<in> set (bd_documents db)" "do_status e = EMITIDO" "do_id e \<noteq> did" for e
      using issued_unique [OF ok(2) that(1) conjunct1 [OF din] that(2) d(2)] din that(3) by auto
    then show ?thesis by (auto simp: has_document_def list_ex_iff docs)
  qed
  have "find_period (do_period_id d) db2 \<noteq> None"
    using periods_of_document [OF ok(2) conjunct1 [OF din]] by (simp add: find_period_def db2_def db1_def)
  with none have i: "find_period k db2 \<noteq> None \<and> (charged k db2 \<or> \<not> has_document k db2)"
    if "k \<in> set [do_period_id d]" for k using that by simp
  have sig: "signal_of k db2 = settled k db" for k using ok(3) by (simp add: db2_def db1_def signal_of_def)
  have same: "settled k db2 = settled k db" if "k \<notin> set [do_period_id d]" for k
  proof -
    have "settled k db2 = settled k db1"
    proof -
      have "(\<exists>e \<in> set (map ?annul (bd_documents db)). do_period_id e = k \<and> do_status e = EMITIDO \<and> 0 < do_total e
          \<and> do_total e \<le> paid_amount (do_id e) as) = (\<exists>e \<in> set (bd_documents db). do_period_id e = k \<and> do_status e = EMITIDO
          \<and> 0 < do_total e \<and> do_total e \<le> paid_amount (do_id e) as)" for as
        using only that by (auto split: if_splits)
      then show ?thesis by (simp add: settled_def db2_def db1_def)
    qed
    also have "\<dots> = settled k db"
      unfolding db1_def
    proof (rule settled_reverse)
      fix a e assume "al_document_id a = did" "e \<in> set (bd_documents db)" "do_id e = al_document_id a"
      then have "e = d" using only by simp
      with that show "do_period_id e \<noteq> k" by simp
    qed
    finally show ?thesis .
  qed
  from recalculate_ok(2,3) [OF book per i sig same r] show ?thesis by blast
qed

lemma discard_cases:
  assumes "discard did db = Inr db'"
  obtains d where "find_document did db = Some d" "do_status d = BORRADOR"
    "db' = db\<lparr>bd_documents := filter (\<lambda>e. do_id e \<noteq> did) (bd_documents db)\<rparr>"
  using assms by (auto simp: discard_def res_simps split: option.splits)

lemma ledger_ok_discard:
  assumes "discard did db = Inr db'" and "ledger_ok db"
  shows "ledger_ok db' \<and> events_exact db [] db'"
  using assms(1)
proof (rule discard_cases)
  fix d assume d: "find_document did db = Some d" "do_status d = BORRADOR"
    and db': "db' = db\<lparr>bd_documents := filter (\<lambda>e. do_id e \<noteq> did) (bd_documents db)\<rparr>"
  have ok: "book_ok db" "periods_ok db" "\<And>k. signal_of k db = settled k db"
    using assms(2) by (simp_all add: ledger_ok_def signals_ok_def)
  have ids: "distinct (map do_id (bd_documents db))" using ok(1) by (simp add: book_ok_def documents_paid_ok_def)
  note din = find_document_in [OF d(1)]
  have only: "e = d" if "e \<in> set (bd_documents db)" "do_id e = did" for e
    using distinct_map_eq [OF ids that(1)] din that(2) by blast
  have "book_ok db'" unfolding db'
  proof (rule book_ok_documents [OF ok(1)])
    fix a e assume "a \<in> set (bd_allocations db)" "e \<in> set (bd_documents db)" "do_id e = al_document_id a"
    then show "e \<in> set (filter (\<lambda>e. do_id e \<noteq> did) (bd_documents db))"
      using draft_unpaid(1) [OF ok(1) conjunct1 [OF din] d(2)] din by auto
  qed (use ok(1) ids in \<open>auto simp: book_ok_def documents_paid_ok_def distinct_map_filter\<close>)
  moreover have "periods_ok db'"
  proof -
    have "live_documents db' = filter (\<lambda>e. do_id e \<noteq> did) (live_documents db)"
      by (simp add: live_documents_def db' conj_commute)
    with ok(2) show ?thesis by (auto simp: periods_ok_def db' distinct_map_filter)
  qed
  moreover have s: "settled k db' = settled k db" for k
    using only d(2) by (auto simp: settled_def db')
  moreover have "signal_of k db' = signal_of k db" for k by (simp add: db' signal_of_def)
  ultimately show ?thesis using ok(3) by (simp add: ledger_ok_def signals_ok_def events_exact_def)
qed

text \<open>A fresh draft, with its period when that is new.\<close>

lemma ledger_ok_new_period:
  assumes "ledger_ok db" and "pe_id p \<notin> pe_id ` set (bd_periods db)"
    and "find (\<lambda>q. pe_contract_id q = pe_contract_id p \<and> pe_period_start q = pe_period_start p) (bd_periods db) = None"
  shows "ledger_ok (db\<lparr>bd_periods := bd_periods db @ [p]\<rparr>)"
    and "settled k (db\<lparr>bd_periods := bd_periods db @ [p]\<rparr>) = settled k db"
proof -
  let ?db = "db\<lparr>bd_periods := bd_periods db @ [p]\<rparr>"
  have "periods_ok ?db"
    using assms by (auto simp: ledger_ok_def periods_ok_def live_documents_def find_None_all)
  moreover have "book_ok ?db"
    using assms(1) by (simp add: ledger_ok_def book_ok_def payments_ok_def documents_paid_ok_def allocation_ok_def)
  moreover show s: "settled k ?db = settled k db" for k by (simp add: settled_def)
  moreover have "signal_of k ?db = signal_of k db" for k by (simp add: signal_of_def)
  ultimately show "ledger_ok ?db" using assms(1) by (simp add: ledger_ok_def signals_ok_def)
qed

lemma ledger_ok_new_draft:
  assumes "ledger_ok db" and "do_id d \<notin> do_id ` set (bd_documents db)" and "do_status d = BORRADOR"
    and "money_range (do_total d)"
    and "p \<in> set (bd_periods db)" "pe_id p = do_period_id d" "pe_contract_id p = do_contract_id d"
    and "\<not> list_ex (\<lambda>e. do_period_id e = do_period_id d \<and> do_status e \<noteq> DOC_ANULADO) (bd_documents db)"
  shows "ledger_ok (db\<lparr>bd_documents := bd_documents db @ [d]\<rparr>)"
    and "settled k (db\<lparr>bd_documents := bd_documents db @ [d]\<rparr>) = settled k db"
proof -
  let ?db = "db\<lparr>bd_documents := bd_documents db @ [d]\<rparr>"
  have ok: "book_ok db" "periods_ok db" "\<And>k. signal_of k db = settled k db"
    using assms(1) by (simp_all add: ledger_ok_def signals_ok_def)
  have fresh: "al_document_id a \<noteq> do_id d" if "a \<in> set (bd_allocations db)" for a
    using ok(1) that assms(2) unfolding book_ok_def allocation_ok_def by (metis imageI)
  have zero: "paid_amount (do_id d) (bd_allocations db) = 0"
    unfolding live_sums using fresh by (intro live_sum_none) auto
  have "book_ok ?db"
  proof (rule book_ok_documents [OF ok(1)])
    fix e assume "e \<in> set (bd_documents db @ [d])"
    then show "money_range (do_total e) \<and> paid_amount (do_id e) (bd_allocations db) \<le> do_total e"
      using ok(1) zero assms(4) by (auto simp: book_ok_def documents_paid_ok_def money_range_def)
  qed (use ok(1) assms(2) in \<open>auto simp: book_ok_def documents_paid_ok_def\<close>)
  moreover have "periods_ok ?db"
  proof -
    have "live_documents ?db = live_documents db @ [d]" using assms(3) by (simp add: live_documents_def)
    moreover have "do_period_id d \<notin> do_period_id ` set (live_documents db)"
      using assms(8) by (auto simp: live_documents_def list_ex_iff)
    moreover have "\<exists>q \<in> set (bd_periods db). pe_id q = do_period_id d \<and> pe_contract_id q = do_contract_id d"
      using assms(5-7) by blast
    ultimately show ?thesis using ok(2) assms(3) by (auto simp: periods_ok_def)
  qed
  moreover show s: "settled k ?db = settled k db" for k using assms(3) by (auto simp: settled_def)
  moreover have "signal_of k ?db = signal_of k db" for k by (simp add: signal_of_def)
  ultimately show "ledger_ok ?db" using ok(3) by (simp add: ledger_ok_def signals_ok_def)
qed

text \<open>What a generation does to the tables: nothing, or a draft that may be issued at once.\<close>

lemma generate_period_cases:
  assumes "generate_period titular plan_line policy contract bs target cs localDate u manual prepared pu du now db
      = Inr (outcome, evs, db')"
  obtains (unchanged) "evs = []" "db' = db"
  | (drafted) existing p d db1 s t where
      "existing = find_contract_period (bc_contractId contract) (periodStart target) db"
      "\<And>q. existing = Some q \<Longrightarrow> \<not> live_in_period (pe_id q) db"
      "pe_id p = pu" "pe_contract_id p = bc_contractId contract" "pe_period_start p = periodStart target"
      "do_id d = du" "do_period_id d = (case existing of Some q \<Rightarrow> pe_id q | None \<Rightarrow> pu)"
      "do_contract_id d = bc_contractId contract" "do_status d = BORRADOR" "do_number d = None"
      "do_total d = s + t" "s + t \<le> 99999999999999" "(s, t) = (0, 0) \<or> (\<exists>a b m. plan_line a b m = Inr (s, t))"
      "db1 = insert_draft existing p d db"
      "(evs = [] \<and> db' = db1) \<or> issueWithinManager titular du u (Some prepared) db1 = Inr (evs, db')"
proof -
  define existing where "existing = find_contract_period (bc_contractId contract) (periodStart target) db"
  define eff where "eff = (case existing of None \<Rightarrow> policy | Some p \<Rightarrow> pe_effective_policy p)"
  define cstart where "cstart = (case existing of Some p \<Rightarrow> pe_covered_start p
              | None \<Rightarrow> or_else cs (if opt_gt bs (periodStart target) then the bs else periodStart target))"
  define cend where "cend = (if opt_lt (bc_terminatedAt contract) (periodEnd target)
                          then the (bc_terminatedAt contract) else periodEnd target)"
  note defs = generate_period_def [of titular plan_line policy contract bs target cs localDate u manual prepared pu du now db,
      unfolded Let_def, folded existing_def, folded eff_def cstart_def cend_def]
  show thesis
  proof (cases "existing \<noteq> None \<and> (\<not> manual \<or> live_in_period (pe_id (the existing)) db)")
    case True
    with assms show thesis by (intro unchanged) (simp_all add: defs)
  next
    case False
    note body = assms [unfolded defs if_not_P [OF False]]
    obtain span where "diffInDays (periodStart target) (periodEnd target) = Inr span"
      using body by (cases "diffInDays (periodStart target) (periodEnd target)") simp_all
    note body = body [unfolded this res_bind_Inr]
    obtain covered where "diffInDays cstart cend = Inr covered"
      using body by (cases "diffInDays cstart cend") simp_all
    note body = body [unfolded this res_bind_Inr]
    obtain dates where "computeDueAndCutoff target (due_input eff) localDate (bc_cutoffDay contract) = Inr dates"
      using body by (cases "computeDueAndCutoff target (due_input eff) localDate (bc_cutoffDay contract)") simp_all
    note body = body [unfolded this res_bind_Inr]
    let ?line = "if truthy (bc_monthlyPrice contract) \<and> bc_hasVat contract
         then plan_line (covered + 1) (span + 1) (po_prorationMethod eff) else Inr (0, 0)"
    obtain st where st: "?line = Inr st" using body by (cases ?line) (simp_all del: split_paired_Ex)
    note body = body [unfolded st res_bind_Inr]
    have le: "fst st + snd st \<le> 99999999999999"
      using body by (cases "fst st + snd st \<le> 99999999999999") simp_all
    let ?d = "new_draft du (case existing of Some p \<Rightarrow> pe_id p | None \<Rightarrow> pu) contract dates st u now"
    let ?p = "new_period pu contract target cstart localDate dates policy"
    let ?db1 = "insert_draft existing ?p ?d db"
    have line: "(fst st, snd st) = (0, 0) \<or> (\<exists>a b m. plan_line a b m = Inr (fst st, snd st))"
      using st by (auto split: if_splits)
    have last: "(evs = [] \<and> db' = ?db1) \<or> issueWithinManager titular du u (Some prepared) ?db1 = Inr (evs, db')"
      using body le by (auto simp: res_simps split: if_splits)
    show thesis
      by (rule drafted [OF existing_def _ _ _ _ _ _ _ _ _ _ le line refl last])
        (use False in \<open>auto simp: new_draft_def new_period_def\<close>)
  qed
qed

lemma generateOne_cases:
  assumes "generateOne titular plan_line override contract localDate u manual prepared pu du now db = Inr (outcome, evs, db')"
  obtains (unchanged) "evs = []" "db' = db"
  | (generated) policy bs target cs where
      "generate_period titular plan_line policy contract bs target cs localDate u manual prepared pu du now db
        = Inr (outcome, evs, db')"
proof (cases "bc_cycleDay contract = None \<or> bc_cycleDay contract = Some 0")
  case True
  with assms show thesis by (intro unchanged) (auto simp: generateOne_def)
next
  case False
  then obtain basePolicy where p: "bd_policy db = Some basePolicy"
    using assms by (auto simp: generateOne_def split: option.splits)
  let ?c = "choose_target (the (bc_cycleDay contract)) (effective_policy basePolicy override)
      (case of_before cp_billing_start_date override of None \<Rightarrow> bc_activatedAt contract | Some s \<Rightarrow> Some s)
      (bc_terminatedAt contract) localDate (list_ex (\<lambda>p. pe_contract_id p = bc_contractId contract) (bd_periods db))"
  obtain choice where c: "?c = Inr choice"
    using assms False p by (cases ?c) (simp_all add: generateOne_def Let_def)
  show thesis
  proof (cases choice)
    case (Inl out)
    with assms False p c show thesis by (intro unchanged) (auto simp: generateOne_def Let_def)
  next
    case (Inr tc)
    obtain target cs where tc: "tc = (target, cs)" by fastforce
    from assms False p c Inr tc have "generate_period titular plan_line (effective_policy basePolicy override) contract
        (case of_before cp_billing_start_date override of None \<Rightarrow> bc_activatedAt contract | Some s \<Rightarrow> Some s)
        target cs localDate u manual prepared pu du now db = Inr (outcome, evs, db')"
      by (auto simp: generateOne_def Let_def)
    then show thesis by (rule generated)
  qed
qed

text \<open>The plan line is never negative: \<open>buildPlanLine\<close> rejects negative prices and days.\<close>

definition plan_line_ok :: "(int \<Rightarrow> int \<Rightarrow> BillingProrationMethod \<Rightarrow> (int \<times> int) result) \<Rightarrow> bool" where
  "plan_line_ok plan_line \<longleftrightarrow> (\<forall>a b m s t. plan_line a b m = Inr (s, t) \<longrightarrow> 0 \<le> s \<and> 0 \<le> t)"

lemma generate_draft_ok:
  assumes "ledger_ok db" and "plan_line_ok plan_line"
    and "pu \<notin> pe_id ` set (bd_periods db)" and "du \<notin> do_id ` set (bd_documents db)"
    and existing: "existing = find_contract_period (bc_contractId contract) (periodStart target) db"
    and live: "\<And>q. existing = Some q \<Longrightarrow> \<not> live_in_period (pe_id q) db"
    and p: "pe_id p = pu" "pe_contract_id p = bc_contractId contract" "pe_period_start p = periodStart target"
    and d: "do_id d = du" "do_period_id d = (case existing of Some q \<Rightarrow> pe_id q | None \<Rightarrow> pu)"
      "do_contract_id d = bc_contractId contract" "do_status d = BORRADOR"
    and total: "do_total d = s + t" "s + t \<le> 99999999999999"
      "(s, t) = (0, 0) \<or> (\<exists>a b m. plan_line a b m = Inr (s, t))"
  shows "ledger_ok (insert_draft existing p d db)"
    and "settled k (insert_draft existing p d db) = settled k db"
proof -
  have range: "money_range (do_total d)"
    using total assms(2) by (auto simp: plan_line_ok_def money_range_def)
  have "ledger_ok (insert_draft existing p d db) \<and> (\<forall>k. settled k (insert_draft existing p d db) = settled k db)"
  proof (cases existing)
    case (Some q)
    then have f: "find (\<lambda>p. pe_contract_id p = bc_contractId contract \<and> pe_period_start p = periodStart target)
        (bd_periods db) = Some q" using existing by (simp add: find_contract_period_def)
    note q = find_Some_iff_hd [OF f]
    show ?thesis
      using ledger_ok_new_draft [OF assms(1), of d q] assms(4) live d range q Some
      by (simp add: insert_draft_def live_in_period_def)
  next
    case None
    let ?db = "db\<lparr>bd_periods := bd_periods db @ [p]\<rparr>"
    have f: "find (\<lambda>q. pe_contract_id q = pe_contract_id p \<and> pe_period_start q = pe_period_start p) (bd_periods db) = None"
      using None existing p by (simp add: find_contract_period_def)
    have fresh: "pe_id p \<notin> pe_id ` set (bd_periods db)" using assms(3) p by simp
    note np = ledger_ok_new_period [OF assms(1) fresh f]
    have "\<not> list_ex (\<lambda>e. do_period_id e = pu \<and> do_status e \<noteq> DOC_ANULADO) (bd_documents db)"
      using assms(1,3) unfolding ledger_ok_def periods_ok_def list_ex_iff by (metis imageI)
    then show ?thesis
      using ledger_ok_new_draft [OF np(1), of d p] np(2) assms(4) p d range None
      by (simp add: insert_draft_def)
  qed
  then show "ledger_ok (insert_draft existing p d db)"
    "settled k (insert_draft existing p d db) = settled k db" by auto
qed

lemma ledger_ok_generate:
  assumes "generateOne titular plan_line override contract localDate u manual prepared pu du now db = Inr (outcome, evs, db')"
    and ok: "ledger_ok db" "plan_line_ok plan_line"
      "pu \<notin> pe_id ` set (bd_periods db)" "du \<notin> do_id ` set (bd_documents db)"
  shows "ledger_ok db' \<and> events_exact db evs db'"
  using assms(1)
proof (cases rule: generateOne_cases)
  case unchanged
  with ok(1) show ?thesis by simp
next
  case (generated policy bs target cs)
  then show ?thesis
  proof (cases rule: generate_period_cases)
    case unchanged
    with ok(1) show ?thesis by simp
  next
    case (drafted existing p d db1 s t)
    note db1 = generate_draft_ok [OF ok drafted(1-9,11-13), folded drafted(14)]
    from drafted(15) show ?thesis
    proof
      assume "evs = [] \<and> db' = db1"
      with db1 show ?thesis by (simp add: events_exact_def)
    next
      assume "issueWithinManager titular du u (Some prepared) db1 = Inr (evs, db')"
      from ledger_ok_issue [OF this db1(1)] db1(2) show ?thesis by (simp add: events_exact_def)
    qed
  qed
qed

end
