(* ===== verification/BillingMachine.thy ===== *)
theory BillingMachine
  imports BillingDocuments
begin

text \<open>
  Billing as a whole: the transactions of payments, documents and generation as one step
  relation, its invariants, and what they give. A concrete run (draft, issue, payment)
  serves the witnesses.
\<close>

section \<open>Billing as a state machine\<close>

text \<open>
  One transaction of the module and the events it emits. New identifiers are fresh, and
  the policy may change at any time.
\<close>

inductive billing_step :: "billing_db \<Rightarrow> period_event list \<Rightarrow> billing_db \<Rightarrow> bool" where
  step_register: "registerPayment sha titular rowid now cmd key u db = Inr (resp, evs, db') \<Longrightarrow>
    rowid \<notin> pa_id ` set (bd_payments db) \<Longrightarrow> billing_step db evs db'"
| step_credit: "allocateCredit titular pid ccmd u db = Inr (resp, evs, db') \<Longrightarrow> billing_step db evs db'"
| step_void_payment: "voidPayment pid vcmd u now db = Inr (resp, evs, db') \<Longrightarrow> billing_step db evs db'"
| step_issue: "issueWithinManager titular did actor prepared db = Inr (evs, db') \<Longrightarrow> billing_step db evs db'"
| step_void_document: "void_document did reason u now db = Inr (evs, db') \<Longrightarrow> billing_step db evs db'"
| step_discard: "discard did db = Inr db' \<Longrightarrow> billing_step db [] db'"
| step_generate: "generateOne titular plan_line override contract localDate actor manual prep pu du now db
      = Inr (outcome, evs, db') \<Longrightarrow> plan_line_ok plan_line \<Longrightarrow> pu \<notin> pe_id ` set (bd_periods db) \<Longrightarrow>
    du \<notin> do_id ` set (bd_documents db) \<Longrightarrow> billing_step db evs db'"
| step_set_policy: "billing_step db [] (db\<lparr>bd_policy := policy\<rparr>)"

inductive_cases billing_stepE: "billing_step db evs db'"

definition billing_init :: billing_db where
  "billing_init = \<lparr>bd_policy = None, bd_periods = [], bd_documents = [], bd_payments = [],
     bd_allocations = [], bd_signals = []\<rparr>"

inductive billing_reachable :: "billing_db \<Rightarrow> bool" where
  reach_init: "billing_reachable billing_init"
| reach_step: "billing_reachable db \<Longrightarrow> billing_step db evs db' \<Longrightarrow> billing_reachable db'"

lemma ledger_ok_init: "ledger_ok billing_init"
  by (simp add: ledger_ok_def book_ok_def payments_ok_def documents_paid_ok_def periods_ok_def
      live_documents_def signals_ok_def signal_of_def settled_def billing_init_def)

lemma ledger_ok_policy:
  "ledger_ok (db\<lparr>bd_policy := p\<rparr>) = ledger_ok db" "settled k (db\<lparr>bd_policy := p\<rparr>) = settled k db"
  by (simp_all add: ledger_ok_def book_ok_def payments_ok_def documents_paid_ok_def allocation_ok_def
      periods_ok_def live_documents_def signals_ok_def signal_of_def settled_def)

lemma ledger_ok_step:
  assumes "billing_step db evs db'" and "ledger_ok db"
  shows "ledger_ok db' \<and> events_exact db evs db'"
  using assms
proof cases
  case (step_set_policy policy)
  with assms(2) show ?thesis by (simp add: ledger_ok_policy events_exact_def)
qed (use assms(2) in \<open>auto dest: ledger_ok_register ledger_ok_credit ledger_ok_void ledger_ok_issue
      ledger_ok_void_document ledger_ok_discard ledger_ok_generate\<close>)

lemma ledger_ok_reachable: "billing_reachable db \<Longrightarrow> ledger_ok db"
  by (induction rule: billing_reachable.induct) (auto simp: ledger_ok_init dest: ledger_ok_step)

lemma signal_settled: "ledger_ok db \<Longrightarrow> signal_of k db = settled k db"
  by (simp add: ledger_ok_def signals_ok_def)

lemma void_payment_empty:
  assumes "ledger_ok db" and "p \<in> set (bd_payments db)" and "pa_status p = PAGO_ANULADO"
  shows "allocated_amount (pa_id p) (bd_allocations db) = 0"
proof -
  have ids: "distinct (map pa_id (bd_payments db))" using assms(1) by (simp add: ledger_ok_def book_ok_def payments_ok_def)
  have "\<not> al_live a" if a: "a \<in> set (bd_allocations db)" "al_payment_id a = pa_id p" for a
  proof
    assume "al_live a"
    then obtain q where "q \<in> set (bd_payments db)" "pa_id q = pa_id p" "pa_status q = REGISTRADO"
      using assms(1) a unfolding ledger_ok_def book_ok_def allocation_ok_def by metis
    with distinct_map_eq [OF ids this(1) assms(2)] assms(3) show False by simp
  qed
  then show ?thesis unfolding live_sums by (rule live_sum_none)
qed

lemma not_issued_empty:
  assumes "ledger_ok db" and "d \<in> set (bd_documents db)" and "do_status d \<noteq> EMITIDO"
  shows "paid_amount (do_id d) (bd_allocations db) = 0"
proof -
  have "\<not> al_live a" if "a \<in> set (bd_allocations db)" "al_document_id a = do_id d" for a
    using charged_live [of db a d] assms that by (auto simp: ledger_ok_def)
  then show ?thesis unfolding live_sums by (rule live_sum_none)
qed

text \<open>
  C1. In every reachable state of billing no payment is allocated beyond its amount and no
  document is paid beyond its total; an annulled payment and a document that is not issued
  carry no live allocation; and a period has at most one document that is not annulled.
\<close>

theorem billing_books_balance:
  assumes "billing_reachable db"
  shows "(\<forall>p \<in> set (bd_payments db). 0 \<le> allocated_amount (pa_id p) (bd_allocations db)
      \<and> allocated_amount (pa_id p) (bd_allocations db) \<le> pa_amount p
      \<and> (pa_status p = PAGO_ANULADO \<longrightarrow> allocated_amount (pa_id p) (bd_allocations db) = 0))
    \<and> (\<forall>d \<in> set (bd_documents db). 0 \<le> paid_amount (do_id d) (bd_allocations db)
      \<and> paid_amount (do_id d) (bd_allocations db) \<le> do_total d
      \<and> (do_status d \<noteq> EMITIDO \<longrightarrow> paid_amount (do_id d) (bd_allocations db) = 0))
    \<and> (\<forall>d \<in> set (bd_documents db). \<forall>e \<in> set (bd_documents db). do_status d \<noteq> DOC_ANULADO \<longrightarrow>
      do_status e \<noteq> DOC_ANULADO \<longrightarrow> do_period_id d = do_period_id e \<longrightarrow> d = e)"
proof -
  note ok = ledger_ok_reachable [OF assms]
  then have b: "book_ok db" "periods_ok db" by (simp_all add: ledger_ok_def)
  show ?thesis
    using allocated_bounds(1) [OF b(1)] paid_bounds(1) [OF b(1)] void_payment_empty [OF ok] not_issued_empty [OF ok]
      live_unique [OF b(2)] b(1)
    by (auto simp: book_ok_def payments_ok_def documents_paid_ok_def)
qed

text \<open>
  C2. The paid signal of a period is on exactly when the period has an issued document with
  a positive total that its live allocations cover; and a transaction emits one event per
  period whose signal changes, \<open>paid\<close> when it becomes covered and \<open>reopened\<close> when it stops
  being so, and no other event.
\<close>

theorem period_events_exact:
  assumes "billing_reachable db" and "billing_step db evs db'"
  shows "(\<forall>k. signal_of k db' = settled k db')
    \<and> distinct (map ev_periodId evs)
    \<and> (\<forall>k. (\<exists>e \<in> set evs. ev_periodId e = k \<and> ev_name e = Period_paid)
         = (\<not> signal_of k db \<and> signal_of k db'))
    \<and> (\<forall>k. (\<exists>e \<in> set evs. ev_periodId e = k \<and> ev_name e = Period_reopened)
         = (signal_of k db \<and> \<not> signal_of k db'))"
proof -
  note ok = ledger_ok_reachable [OF assms(1)]
  note s = ledger_ok_step [OF assms(2) ok]
  show ?thesis
    using s signal_settled [OF ok] signal_settled [OF conjunct1 [OF s]] by (simp add: events_exact_def)
qed

section \<open>A run\<close>

definition sample_titular :: "string \<Rightarrow> titular_ref" where
  "sample_titular s = \<lparr>ti_exists = True, ti_anonymized = False\<rparr>"

definition sample_line :: "int \<Rightarrow> int \<Rightarrow> BillingProrationMethod \<Rightarrow> (int \<times> int) result" where
  "sample_line covered days m = Inr (10000, 1900)"

definition sample_contract :: billable_contract where
  "sample_contract =
     \<lparr>bc_contractId = ''k'', bc_subscriberId = ''s'', bc_cycleDay = Some 1, bc_cutoffDay = Some 15,
      bc_activatedAt = Some ''2025-06-01'', bc_terminatedAt = None, bc_monthlyPrice = Some ''100.00'',
      bc_hasVat = True, bc_displayName = ''Ana'', bc_documentType = Some ''CC'', bc_hasDocumentNumber = True\<rparr>"

definition sample_prepared :: prepared_issue where
  "sample_prepared =
     \<lparr>pr_contract = Some \<lparr>pc_subscriberId = ''s'', pc_documentNumber = Some ''1'', pc_revealed = None\<rparr>,
      pr_cycle = Some (Some 1, Some 15),
      pr_issuer = \<lparr>pi_legalName = Some ''ISP'', pi_nit = Some ''900''\<rparr>, pr_issueDate = ''2026-02-01''\<rparr>"

definition sample_start :: billing_db where
  "sample_start = billing_init\<lparr>bd_policy := Some (seeded_policy ''t0'')\<rparr>"

definition sample_drafted :: billing_db where
  "sample_drafted =
     (case generateOne sample_titular sample_line None sample_contract ''2026-02-01'' None False sample_prepared
             ''p1'' ''d1'' 1 sample_start of Inr (_, _, db) \<Rightarrow> db | Inl _ \<Rightarrow> billing_init)"

definition sample_issued :: billing_db where
  "sample_issued =
     (case issueWithinManager sample_titular ''d1'' None (Some sample_prepared) sample_drafted of
        Inr (_, db) \<Rightarrow> db | Inl _ \<Rightarrow> billing_init)"

definition sample_command :: "string \<Rightarrow> RegisterPaymentCommand" where
  "sample_command amount =
     \<lparr>rp_subscriberId = ''s'', rp_method = EFECTIVO, rp_amount = Money_text amount,
      rp_paidAt = ''2026-02-03'', rp_reference = None, rp_note = None, rp_allocations = None\<rparr>"

definition sample_register ::
  "string \<Rightarrow> string \<Rightarrow> string \<Rightarrow> billing_db \<Rightarrow> (payment_response \<times> period_event list \<times> billing_db) result" where
  "sample_register rowid amount key db =
     registerPayment (\<lambda>s. s) sample_titular rowid 2 (sample_command amount) (Some key) ''u'' db"

definition sample_paid :: billing_db where
  "sample_paid = (case sample_register ''x1'' ''119.00'' ''key1'' sample_issued of
     Inr (_, _, db) \<Rightarrow> db | Inl _ \<Rightarrow> billing_init)"

definition sample_event :: "period_event_name \<Rightarrow> period_event" where
  "sample_event n = \<lparr>ev_name = n, ev_contractId = ''k'', ev_periodId = ''p1'', ev_periodStart = ''2026-02-01''\<rparr>"

lemma sample_drafted_step:
  "generateOne sample_titular sample_line None sample_contract ''2026-02-01'' None False sample_prepared
     ''p1'' ''d1'' 1 sample_start = Inr (Generated, [], sample_drafted)"
  by code_simp

lemma sample_issued_step:
  "issueWithinManager sample_titular ''d1'' None (Some sample_prepared) sample_drafted = Inr ([], sample_issued)"
  by code_simp

lemma sample_paid_step:
  "map_sum id snd (sample_register ''x1'' ''119.00'' ''key1'' sample_issued) = Inr ([sample_event Period_paid], sample_paid)"
  by code_simp

lemma sample_run_reachable:
  "billing_reachable sample_start" "billing_reachable sample_drafted"
  "billing_reachable sample_issued" "billing_reachable sample_paid"
  "billing_step sample_issued [sample_event Period_paid] sample_paid"
proof -
  show s: "billing_reachable sample_start"
    unfolding sample_start_def by (rule reach_step [OF reach_init step_set_policy])
  have "plan_line_ok sample_line" by (simp add: plan_line_ok_def sample_line_def)
  moreover have "''p1'' \<notin> pe_id ` set (bd_periods sample_start)" "''d1'' \<notin> do_id ` set (bd_documents sample_start)"
    by (simp_all add: sample_start_def billing_init_def)
  ultimately have "billing_step sample_start [] sample_drafted" by (rule step_generate [OF sample_drafted_step])
  with s show d: "billing_reachable sample_drafted" by (rule reach_step)
  then show i: "billing_reachable sample_issued" by (rule reach_step [OF _ step_issue [OF sample_issued_step]])
  obtain resp where r: "sample_register ''x1'' ''119.00'' ''key1'' sample_issued
      = Inr (resp, [sample_event Period_paid], sample_paid)"
    using sample_paid_step by (cases "sample_register ''x1'' ''119.00'' ''key1'' sample_issued") auto
  have "bd_payments sample_issued = []" by code_simp
  then show p: "billing_step sample_issued [sample_event Period_paid] sample_paid"
    using step_register [OF r [unfolded sample_register_def]] by simp
  show "billing_reachable sample_paid" by (rule reach_step [OF i p])
qed

theorem billing_books_balance_witness:
  "list_all (\<lambda>p. allocated_amount (pa_id p) (bd_allocations sample_paid) \<le> pa_amount p) (bd_payments sample_paid)
    \<and> list_all (\<lambda>d. paid_amount (do_id d) (bd_allocations sample_paid) \<le> do_total d) (bd_documents sample_paid)
    \<and> map do_total (bd_documents sample_paid) = [11900] \<and> map pa_amount (bd_payments sample_paid) = [11900]"
proof -
  have "map do_total (bd_documents sample_paid) = [11900]" "map pa_amount (bd_payments sample_paid) = [11900]"
    by code_simp+
  with billing_books_balance [OF sample_run_reachable(4)] show ?thesis unfolding list_all_iff by blast
qed

theorem period_events_exact_witness:
  "signal_of ''p1'' sample_paid = settled ''p1'' sample_paid \<and> distinct (map ev_periodId [sample_event Period_paid])"
  using period_events_exact [OF sample_run_reachable(3,5)] by blast

section \<open>Repeated registrations\<close>

text \<open>What identifies a payment: all but its annulment.\<close>

definition pa_core :: "payment_row \<Rightarrow> payment_row" where
  "pa_core p = p\<lparr>pa_status := REGISTRADO, pa_void_reason_code := None, pa_void_note := None, pa_voided_by := None\<rparr>"

definition keeps_payments :: "billing_db \<Rightarrow> billing_db \<Rightarrow> bool" where
  "keeps_payments db db' \<longleftrightarrow> (\<forall>p \<in> set (bd_payments db). \<exists>q \<in> set (bd_payments db'). pa_core q = pa_core p)"

lemma keeps_same: "bd_payments db' = bd_payments db \<Longrightarrow> keeps_payments db db'"
  by (auto simp: keeps_payments_def)

lemma recalculate_tables: "recalculateSignals ids db = (db', evs) \<Longrightarrow> \<exists>S. db' = db\<lparr>bd_signals := S\<rparr>"
  using recalculateSignals_spec [of ids db] by (metis prod.inject)

lemma recalculate_payments: "recalculateSignals ids db = (db', evs) \<Longrightarrow> bd_payments db' = bd_payments db"
  using recalculate_tables by fastforce

lemma applied_payments: "applied db ps db' \<Longrightarrow> bd_payments db' = bd_payments db"
  by (auto simp: applied_def)

lemma apply_one_tables:
  "apply_one pid sub u i (r, ps, db) = Inr (r', ps', db') \<Longrightarrow> \<exists>as. db' = db\<lparr>bd_allocations := as\<rparr>"
  by (erule apply_one_spec) auto

lemma apply_fold_tables:
  "res_fold (apply_one pid sub u) items (r, ps, db) = Inr (r', ps', db') \<Longrightarrow> \<exists>as. db' = db\<lparr>bd_allocations := as\<rparr>"
proof (induction items arbitrary: r ps db)
  case Nil
  then show ?case by (auto intro!: exI [of _ "bd_allocations db"])
next
  case (Cons i items)
  then obtain r1 ps1 db1 where "apply_one pid sub u i (r, ps, db) = Inr (r1, ps1, db1)"
    "res_fold (apply_one pid sub u) items (r1, ps1, db1) = Inr (r', ps', db')" by (auto simp: res_simps)
  with Cons.IH apply_one_tables show ?case by fastforce
qed

lemma applyAllocations_tables:
  "applyAllocations pid sub allocs u db = Inr (ps, db') \<Longrightarrow> \<exists>as. db' = db\<lparr>bd_allocations := as\<rparr>"
proof (cases "allocs = []")
  case True
  then show "applyAllocations pid sub allocs u db = Inr (ps, db') \<Longrightarrow> ?thesis"
    by (auto simp: applyAllocations_def intro!: exI [of _ "bd_allocations db"])
next
  case False
  assume "applyAllocations pid sub allocs u db = Inr (ps, db')"
  with False show ?thesis
    by (auto simp: applyAllocations_def res_simps Let_def dest!: apply_fold_tables split: option.splits)
qed

lemma issue_payments:
  assumes "issueWithinManager titular did u prepared db = Inr (evs, db')" and "ledger_ok db"
  shows "bd_payments db' = bd_payments db"
  using assms(1)
proof (rule issue_cases)
  fix pr d p prefix dates first number db1 db2
  assume d: "find_document did db = Some d" "do_status d = BORRADOR"
    and db1: "db1 = set_period_dates (do_period_id d) dates db"
    and db2: "db2 = set_issued did number (pr_issueDate pr) (dueDate dates) db1"
    and r: "(if po_autoApplyCredit (pe_effective_policy p)
      then applyCreditWithin did (do_subscriber_id d) u db2 else Inr ([], db2)) = Inr (evs, db')"
  note s = ledger_ok_set_issued(1) [OF assms(2) d, where number = number and date = "pr_issueDate pr" and dates = dates,
      folded db1, folded db2]
  have "bd_payments db2 = bd_payments db" by (simp add: db2 db1 set_issued_def)
  with r ledger_ok_apply_credit(3) [OF _ s] show ?thesis by (fastforce split: if_splits)
qed

lemma generate_payments:
  assumes "generateOne titular plan_line override contract localDate u manual prepared pu du now db = Inr (outcome, evs, db')"
    and "ledger_ok db" and "plan_line_ok plan_line"
    and "pu \<notin> pe_id ` set (bd_periods db)" and "du \<notin> do_id ` set (bd_documents db)"
  shows "bd_payments db' = bd_payments db"
  using assms(1)
proof (cases rule: generateOne_cases)
  case (generated policy bs target cs)
  then show ?thesis
  proof (cases rule: generate_period_cases)
    case (drafted existing p d db1 s t)
    have p: "bd_payments db1 = bd_payments db" by (simp add: drafted(14) insert_draft_def split: option.split)
    have "ledger_ok db1"
      using generate_draft_ok(1) [OF assms(2-5) drafted(1-9,11-13), folded drafted(14)] .
    with drafted(15) p issue_payments show ?thesis by fastforce
  qed simp
qed simp

lemma step_keeps_payments:
  assumes "billing_step db evs db'" and "ledger_ok db"
  shows "keeps_payments db db'"
  using assms(1)
proof cases
  case (step_register sha titular rowid now cmd key u resp)
  from step_register(1) show ?thesis
  proof (cases rule: registerPayment_cases)
    case (fresh k cents fp allocs ps db2 row p)
    have "bd_payments db2 = bd_payments db @ [row]"
      using applyAllocations_tables [OF fresh(9)] by auto
    with recalculate_payments [OF fresh(10)] show ?thesis by (auto simp: keeps_payments_def)
  qed (simp add: keeps_same)
next
  case (step_credit titular pid ccmd u resp)
  from step_credit(1) show ?thesis
  proof (rule allocateCredit_cases)
    fix p ps db1 q
    assume a: "applyAllocations pid (ac_subscriberId ccmd)
         (map (\<lambda>i. (ci_documentId i, money_decimal (ci_amount i))) (ac_allocations ccmd)) (Some u) db = Inr (ps, db1)"
      and r: "recalculateSignals ps db1 = (db', evs)"
    have "bd_payments db1 = bd_payments db" using applyAllocations_tables [OF a] by auto
    with recalculate_payments [OF r] show ?thesis by (simp add: keeps_same)
  qed
next
  case (step_void_payment pid vcmd u now resp)
  from step_void_payment(1) show ?thesis
  proof (rule voidPayment_cases)
    fix p db2 q
    assume "db2 = db\<lparr>bd_allocations := map (reverse_if (\<lambda>a. al_payment_id a = pid) u now) (bd_allocations db),
       bd_payments := map (\<lambda>p. if pa_id p = pid
          then p\<lparr>pa_status := PAGO_ANULADO, pa_void_reason_code := Some (vp_reasonCode vcmd),
                 pa_void_note := vp_note vcmd, pa_voided_by := Some u\<rparr> else p) (bd_payments db)\<rparr>"
      and "recalculateSignals (concat (map (\<lambda>a. map do_period_id (filter (\<lambda>d. do_id d = al_document_id a) (bd_documents db)))
               (filter (\<lambda>a. al_payment_id a = pid \<and> al_live a) (bd_allocations db)))) db2 = (db', evs)"
    then have "bd_payments db' = map (\<lambda>p. if pa_id p = pid
          then p\<lparr>pa_status := PAGO_ANULADO, pa_void_reason_code := Some (vp_reasonCode vcmd),
                 pa_void_note := vp_note vcmd, pa_voided_by := Some u\<rparr> else p) (bd_payments db)"
      using recalculate_payments by fastforce
    moreover have "pa_core (if pa_id p = pid
          then p\<lparr>pa_status := PAGO_ANULADO, pa_void_reason_code := Some (vp_reasonCode vcmd),
                 pa_void_note := vp_note vcmd, pa_voided_by := Some u\<rparr> else p) = pa_core p" for p
      by (simp add: pa_core_def)
    ultimately show ?thesis unfolding keeps_payments_def by (metis (no_types, lifting) image_eqI list.set_map)
  qed
next
  case (step_void_document did reason u now)
  then obtain d where "find_document did db = Some d" "do_status d = EMITIDO"
    by (auto simp: void_document_def res_simps split: option.splits)
  with step_void_document have "bd_payments db' = bd_payments db"
    by (auto simp: void_document_def dest: recalculate_payments split: prod.splits)
  then show ?thesis by (rule keeps_same)
next
  case (step_discard did)
  from step_discard(2) show ?thesis by (rule discard_cases) (simp add: keeps_same)
qed (use assms(2) issue_payments generate_payments in \<open>auto intro!: keeps_same\<close>)

lemma toPaymentResponse_ok:
  assumes "ledger_ok db" and "p \<in> set (bd_payments db)"
  shows "toPaymentResponse p db = Inr
    \<lparr>re_row = p, re_allocatedAmount = centsMoney (allocated_amount (pa_id p) (bd_allocations db)),
     re_unallocatedAmount = centsMoney (pa_amount p - allocated_amount (pa_id p) (bd_allocations db)),
     re_allocations = filter (\<lambda>a. al_payment_id a = pa_id p) (bd_allocations db)\<rparr>"
proof -
  have "book_ok db" using assms(1) by (simp add: ledger_ok_def)
  note b = allocated_bounds [OF this assms(2)]
  then show ?thesis by (simp add: toPaymentResponse_def Let_def money_string_centsMoney)
qed

lemma toPaymentResponse_row: "toPaymentResponse p db = Inr resp \<Longrightarrow> re_row resp = p"
  by (auto simp: toPaymentResponse_def res_simps Let_def)

lemma civil_text_length: "payments_isCivilDate v \<Longrightarrow> length v = 10"
  by (auto simp: payments_isCivilDate_def match_civil_def split: option.splits if_splits)

lemma pa_core_eqD:
  assumes "pa_core p = pa_core q"
  shows "pa_id p = pa_id q" "pa_subscriber_id p = pa_subscriber_id q" "pa_method p = pa_method q"
    "pa_amount p = pa_amount q" "pa_paid_at p = pa_paid_at q" "pa_reference p = pa_reference q"
    "pa_note p = pa_note q" "pa_idempotency_key p = pa_idempotency_key q"
    "pa_allocations_fingerprint p = pa_allocations_fingerprint q"
  using arg_cong [OF assms, of pa_id] arg_cong [OF assms, of pa_subscriber_id] arg_cong [OF assms, of pa_method]
    arg_cong [OF assms, of pa_amount] arg_cong [OF assms, of pa_paid_at] arg_cong [OF assms, of pa_reference]
    arg_cong [OF assms, of pa_note] arg_cong [OF assms, of pa_idempotency_key]
    arg_cong [OF assms, of pa_allocations_fingerprint]
  by (simp_all add: pa_core_def)

definition billing_later :: "billing_db \<Rightarrow> billing_db \<Rightarrow> bool" where
  "billing_later = (\<lambda>db db'. \<exists>evs. billing_step db evs db')\<^sup>*\<^sup>*"

lemma later_keeps_payments:
  "billing_later db db' \<Longrightarrow> ledger_ok db \<Longrightarrow> keeps_payments db db' \<and> ledger_ok db'"
  unfolding billing_later_def
proof (induction rule: rtranclp_induct)
  case base
  then show ?case by (simp add: keeps_same)
next
  case (step db1 db2)
  then obtain evs where s: "billing_step db1 evs db2" and k: "keeps_payments db db1" "ledger_ok db1" by blast
  have "keeps_payments db db2"
    unfolding keeps_payments_def
  proof
    fix p assume "p \<in> set (bd_payments db)"
    then obtain q where "q \<in> set (bd_payments db1)" "pa_core q = pa_core p" using k(1) unfolding keeps_payments_def by blast
    moreover from this obtain r where "r \<in> set (bd_payments db2)" "pa_core r = pa_core q"
      using step_keeps_payments [OF s k(2)] unfolding keeps_payments_def by blast
    ultimately show "\<exists>q \<in> set (bd_payments db2). pa_core q = pa_core p" by auto
  qed
  with ledger_ok_step [OF s k(2)] show ?case by simp
qed

text \<open>
  C16. A payment request repeated under its idempotency key, at any later time and with the
  titular still in place, is answered with the same payment and changes nothing - as long as
  its amount was written with two decimals. Any other spelling of the amount that the
  schema accepts (such as \<open>100\<close> or \<open>100.5\<close>) is stored in the canonical form, and the very
  same request is then refused as a reuse of the key with another content.
\<close>

theorem repeated_payment_request:
  assumes "billing_reachable db" and "registerPayment sha titular rowid now cmd (Some k) u db = Inr (resp, evs, db1)"
    and "findPaymentByKey k db = None" and "rowid \<notin> pa_id ` set (bd_payments db)"
    and "billing_later db1 db2" and "requireTitular (titular' (rp_subscriberId cmd)) = Inr ()"
    and "moneyCents (rp_amount cmd) = Inr c"
  shows "if money_decimal (rp_amount cmd) = centsMoney c
    then \<exists>resp2. registerPayment sha titular' rowid' now' cmd (Some k) u' db2 = Inr (resp2, [], db2)
      \<and> pa_core (re_row resp2) = pa_core (re_row resp)
    else registerPayment sha titular' rowid' now' cmd (Some k) u' db2 = Inl idempotencyConflict"
  using assms(2)
proof (cases rule: registerPayment_cases)
  case (repeated k' p)
  with assms(3) show ?thesis by simp
next
  case (fresh k' cents fp allocs ps dbx row p)
  have led: "ledger_ok db1" using ledger_ok_register [OF assms(2) ledger_ok_reachable [OF assms(1)] assms(4)] by simp
  have pays: "bd_payments db1 = bd_payments db @ [row]"
    using recalculate_payments [OF fresh(10)] applyAllocations_tables [OF fresh(9)] by auto
  have kk: "k' = k" and c: "cents = c" using fresh(1,5) assms(7) by simp_all
  have cok: "register_command_ok cmd" by (fact fresh(3))
  have keyok: "idempotency_key_ok (Some k)"
    using assms(2) cok by (cases "idempotency_key_ok (Some k)") (simp_all add: registerPayment_def)
  obtain q where q: "q \<in> set (bd_payments db2)" "pa_core q = pa_core row" and led2: "ledger_ok db2"
    using later_keeps_payments [OF assms(5) led] pays unfolding keeps_payments_def by auto
  then have f: "pa_id q = rowid" "pa_subscriber_id q = rp_subscriberId cmd" "pa_method q = rp_method cmd"
    "pa_amount q = c" "pa_paid_at q = rp_paidAt cmd" "pa_reference q = rp_reference cmd" "pa_note q = rp_note cmd"
    "pa_idempotency_key q = k" "pa_allocations_fingerprint q = fp"
    using pa_core_eqD [OF q(2)] by (simp_all add: fresh(7) payment_of_command_def kk c)
  have "findPaymentByKey k db2 = Some q"
  proof -
    obtain r where r: "findPaymentByKey k db2 = Some r"
      using q(1) f(8) unfolding findPaymentByKey_def
      by (cases "find (\<lambda>r. pa_idempotency_key r = k) (bd_payments db2)") (auto simp: find_None_all)
    then have "r \<in> set (bd_payments db2)" "pa_idempotency_key r = k"
      unfolding findPaymentByKey_def by (auto dest: find_Some_iff_hd)
    moreover have "distinct (map pa_idempotency_key (bd_payments db2))"
      using led2 by (simp add: ledger_ok_def book_ok_def payments_ok_def)
    ultimately show ?thesis using distinct_map_eq [OF _ _ q(1), of pa_idempotency_key r] f(8) r by simp
  qed
  note look = this
  have m: "money_range c" using moneyCents_range [OF assms(7)] .
  have canon: "numeric_text c = centsMoney c" using money_rangeD [OF m] by (simp add: numeric_text_def)
  have dt: "take 10 (rp_paidAt cmd) = rp_paidAt cmd"
    using cok civil_text_length [of "rp_paidAt cmd"] by (simp add: register_command_ok_def)
  have body: "registerPayment sha titular' rowid' now' cmd (Some k) u' db2 =
      res_bind (assertSameIdempotentRequest sha q cmd) (\<lambda>_.
      res_bind (toPaymentResponse q db2) (\<lambda>response. Inr (response, [], db2)))"
    using cok keyok assms(6) look by (simp add: registerPayment_def)
  have same: "assertSameIdempotentRequest sha q cmd =
      guard_ok (centsMoney c = money_decimal (rp_amount cmd)) idempotencyConflict"
    using f dt fresh(6) by (simp add: assertSameIdempotentRequest_def Let_def canon guard_ok_def)
  have "re_row resp = p" by (rule toPaymentResponse_row [OF fresh(12)])
  moreover have "p = row"
  proof -
    have "p \<in> set (bd_payments db1)" "pa_id p = rowid" using find_payment_in [OF fresh(11)] by simp_all
    moreover have "row \<in> set (bd_payments db1)" "pa_id row = rowid" using pays by (simp_all add: fresh(7) payment_of_command_def)
    moreover have "distinct (map pa_id (bd_payments db1))" using led by (simp add: ledger_ok_def book_ok_def payments_ok_def)
    ultimately show ?thesis using distinct_map_eq [of pa_id "bd_payments db1" p row] by simp
  qed
  ultimately have r: "re_row resp = row" by simp
  show ?thesis
    using toPaymentResponse_ok [OF led2 q(1)] q(2) r by (simp add: body same guard_ok_def eq_commute)
qed

theorem repeated_payment_request_witness:
  "(\<exists>resp. sample_register ''x2'' ''119.00'' ''key1'' sample_paid = Inr (resp, [], sample_paid))
    \<and> (\<exists>resp evs db1. sample_register ''x1'' ''119'' ''key1'' sample_issued = Inr (resp, evs, db1)
        \<and> sample_register ''x2'' ''119'' ''key1'' db1 = Inl idempotencyConflict)"
proof -
  have k: "findPaymentByKey ''key1'' sample_issued = None" "bd_payments sample_issued = []" by code_simp+
  have t: "requireTitular (sample_titular s) = Inr ()" for s by (simp add: requireTitular_def sample_titular_def)
  have l: "billing_later db db" for db by (simp add: billing_later_def)
  have m: "moneyCents (rp_amount (sample_command ''119.00'')) = Inr 11900"
    "moneyCents (rp_amount (sample_command ''119'')) = Inr 11900"
    "money_decimal (rp_amount (sample_command ''119.00'')) = centsMoney 11900"
    "money_decimal (rp_amount (sample_command ''119'')) \<noteq> centsMoney 11900" by code_simp+
  obtain r1 e1 where 1: "sample_register ''x1'' ''119.00'' ''key1'' sample_issued = Inr (r1, e1, sample_paid)"
    using sample_paid_step by (cases "sample_register ''x1'' ''119.00'' ''key1'' sample_issued") auto
  have "\<not> isl (sample_register ''x1'' ''119'' ''key1'' sample_issued)" by code_simp
  then obtain r2 e2 db2 where 2: "sample_register ''x1'' ''119'' ''key1'' sample_issued = Inr (r2, e2, db2)"
    by (cases "sample_register ''x1'' ''119'' ''key1'' sample_issued") auto
  have a: "\<exists>r. registerPayment (\<lambda>s. s) sample_titular ''x2'' 2 (sample_command ''119.00'') (Some ''key1'') ''u'' sample_paid
      = Inr (r, [], sample_paid)"
    using repeated_payment_request [OF sample_run_reachable(3) 1 [unfolded sample_register_def] k(1) _ l _ m(1),
        where titular' = sample_titular and rowid' = "''x2''" and now' = 2 and u' = "''u''"] m(3) k(2) t by auto
  have b: "registerPayment (\<lambda>s. s) sample_titular ''x2'' 2 (sample_command ''119'') (Some ''key1'') ''u'' db2
      = Inl idempotencyConflict"
    using repeated_payment_request [OF sample_run_reachable(3) 2 [unfolded sample_register_def] k(1) _ l _ m(2),
        where titular' = sample_titular and rowid' = "''x2''" and now' = 2 and u' = "''u''"] m(4) k(2) t by simp
  show ?thesis using a b 2 unfolding sample_register_def by blast
qed

text \<open>A document that a live allocation of the annulled payment covered is not settled any more.\<close>

lemma void_uncovers:
  assumes "ledger_ok db" and "ledger_ok db'" and "bd_documents db' = bd_documents db"
    and "a \<in> set (bd_allocations db)" and "al_payment_id a = pid" and "al_live a"
    and "d \<in> set (bd_documents db)" and "do_id d = al_document_id a"
    and "\<And>k. paid_amount k (bd_allocations db') + live_sum (\<lambda>a. al_document_id a = k \<and> al_payment_id a = pid) (bd_allocations db)
      = paid_amount k (bd_allocations db)"
  shows "\<not> settled (do_period_id d) db'"
proof
  assume "settled (do_period_id d) db'"
  then obtain e where e: "e \<in> set (bd_documents db)" "do_period_id e = do_period_id d" "do_status e = EMITIDO"
    "do_total e \<le> paid_amount (do_id e) (bd_allocations db')" by (auto simp: settled_def assms(3))
  have book: "book_ok db" "periods_ok db" using assms(1) by (simp_all add: ledger_ok_def)
  have "do_status d = EMITIDO" using charged_live [OF book(1) assms(4,6,7,8)] by simp
  then have "d = e" using issued_unique [OF book(2)] assms(7) e by metis
  obtain xs ys where as: "bd_allocations db = xs @ a # ys" using assms(4) by (auto dest: split_list)
  have "0 \<le> live_sum Q xs" "0 \<le> live_sum Q ys" for Q
    using allocations_nonneg [OF book(1)] as by (auto intro!: live_sum_nonneg)
  moreover have "0 < al_amount a" using book(1) assms(4) by (simp add: book_ok_def allocation_ok_def)
  ultimately have "0 < live_sum (\<lambda>a. al_document_id a = do_id d \<and> al_payment_id a = pid) (bd_allocations db)"
    unfolding as using assms(5,6,8) by (simp add: live_sum_Cons add_nonneg_pos add_pos_nonneg)
  moreover have "paid_amount (do_id d) (bd_allocations db) \<le> do_total d"
    using book(1) assms(7) by (simp add: book_ok_def documents_paid_ok_def)
  ultimately show False using assms(9) [of "do_id d"] e(4) unfolding \<open>d = e\<close> by linarith
qed

text \<open>
  C17. Annulling a payment gives back exactly what it covered: its live allocations are gone,
  no other payment loses any, every document loses what that payment had put on it, the
  answer shows the whole amount as unallocated, and the payment cannot be annulled again.
  Coverage follows: afterwards the signal of every period says whether its document is paid,
  it is off for the period of every document that the payment covered, and exactly one event
  is emitted for each period whose signal went off, which says that it was reopened.
\<close>

theorem void_payment_releases:
  assumes "billing_reachable db" and "voidPayment pid cmd u now db = Inr (resp, evs, db')"
  shows "allocated_amount pid (bd_allocations db') = 0
    \<and> (\<forall>q. q \<noteq> pid \<longrightarrow> allocated_amount q (bd_allocations db') = allocated_amount q (bd_allocations db))
    \<and> (\<forall>d. paid_amount d (bd_allocations db') + live_sum (\<lambda>a. al_document_id a = d \<and> al_payment_id a = pid) (bd_allocations db)
          = paid_amount d (bd_allocations db))
    \<and> pa_status (re_row resp) = PAGO_ANULADO
    \<and> re_unallocatedAmount resp = centsMoney (pa_amount (re_row resp))
    \<and> (void_payment_command_ok cmd' \<longrightarrow> voidPayment pid cmd' u' now' db' = Inl paymentVoidedConflict)
    \<and> (\<forall>k. signal_of k db' = settled k db')
    \<and> (\<forall>a \<in> set (bd_allocations db). \<forall>d \<in> set (bd_documents db).
          al_payment_id a = pid \<and> al_live a \<and> do_id d = al_document_id a \<longrightarrow> \<not> signal_of (do_period_id d) db')
    \<and> distinct (map ev_periodId evs) \<and> (\<forall>e \<in> set evs. ev_name e = Period_reopened)
    \<and> (\<forall>k. k \<in> ev_periodId ` set evs \<longleftrightarrow> signal_of k db \<and> \<not> signal_of k db')"
  using assms(2)
proof (rule voidPayment_cases)
  let ?P = "\<lambda>a. al_payment_id a = pid"
  fix p db2 q
  assume db2: "db2 = db\<lparr>bd_allocations := map (reverse_if ?P u now) (bd_allocations db),
       bd_payments := map (\<lambda>p. if pa_id p = pid
          then p\<lparr>pa_status := PAGO_ANULADO, pa_void_reason_code := Some (vp_reasonCode cmd),
                 pa_void_note := vp_note cmd, pa_voided_by := Some u\<rparr> else p) (bd_payments db)\<rparr>"
    and r: "recalculateSignals (concat (map (\<lambda>a. map do_period_id (filter (\<lambda>d. do_id d = al_document_id a) (bd_documents db)))
               (filter (\<lambda>a. al_payment_id a = pid \<and> al_live a) (bd_allocations db)))) db2 = (db', evs)"
    and q: "findPaymentById pid db' = Some q" "toPaymentResponse q db' = Inr resp"
  have al: "bd_allocations db' = map (reverse_if ?P u now) (bd_allocations db)"
    and pays: "bd_payments db' = bd_payments db2" using recalculate_tables [OF r] by (auto simp: db2)
  have led: "ledger_ok db'" using ledger_ok_void [OF assms(2) ledger_ok_reachable [OF assms(1)]] by simp
  have split: "live_sum Q as = live_sum (\<lambda>a. Q a \<and> \<not> ?P a) as + live_sum (\<lambda>a. Q a \<and> ?P a) as" for Q as
    by (induction as) (auto simp: live_sum_Cons)
  have zero: "allocated_amount pid (bd_allocations db') = 0"
    unfolding al allocated_reverse by (intro live_sum_none) auto
  have others: "allocated_amount j (bd_allocations db') = allocated_amount j (bd_allocations db)" if "j \<noteq> pid" for j
    unfolding al allocated_reverse unfolding live_sums using that by (intro live_sum_cong) auto
  have docs: "paid_amount d (bd_allocations db') + live_sum (\<lambda>a. al_document_id a = d \<and> ?P a) (bd_allocations db)
      = paid_amount d (bd_allocations db)" for d
    unfolding al paid_reverse unfolding live_sums using split [of "\<lambda>a. al_document_id a = d"] by simp
  have qs: "q \<in> set (bd_payments db')" "pa_id q = pid" using find_payment_in [OF q(1)] by simp_all
  have st: "pa_status q = PAGO_ANULADO"
  proof -
    let ?f = "\<lambda>p. if pa_id p = pid then p\<lparr>pa_status := PAGO_ANULADO, pa_void_reason_code := Some (vp_reasonCode cmd),
                 pa_void_note := vp_note cmd, pa_voided_by := Some u\<rparr> else p"
    have "q \<in> ?f ` set (bd_payments db)" using qs(1) unfolding pays db2 by simp
    then obtain x where "q = ?f x" by blast
    with qs(2) show ?thesis by (simp split: if_splits)
  qed
  have resp: "re_row resp = q" "re_unallocatedAmount resp = centsMoney (pa_amount q)"
    using toPaymentResponse_ok [OF led qs(1)] q(2) qs(2) zero by auto
  have again: "voidPayment pid cmd' u' now' db' = Inl paymentVoidedConflict" if "void_payment_command_ok cmd'"
    using that q(1) st by (simp add: voidPayment_def)
  have led0: "ledger_ok db" by (rule ledger_ok_reachable [OF assms(1)])
  have sig: "signal_of k db = settled k db" "signal_of k db' = settled k db'" for k
    using led0 led by (simp_all add: ledger_ok_def signals_ok_def)
  have ds: "bd_documents db' = bd_documents db" using recalculate_tables [OF r] by (auto simp: db2)
  have nonneg: "0 \<le> al_amount a" if "a \<in> set (bd_allocations db)" for a
    using led0 that allocations_nonneg [of db a] by (simp add: ledger_ok_def)
  have less: "paid_amount k (bd_allocations db') \<le> paid_amount k (bd_allocations db)" for k
    using docs [of k] live_sum_nonneg [OF nonneg, of "bd_allocations db"] by (smt (verit))
  have covered: "\<not> signal_of (do_period_id d) db'"
    if a: "a \<in> set (bd_allocations db)" "al_payment_id a = pid" "al_live a"
      and d: "d \<in> set (bd_documents db)" "do_id d = al_document_id a" for a d
    using void_uncovers [OF led0 led ds a d docs] sig(2) by simp
  have ev: "events_exact db evs db'" using ledger_ok_void [OF assms(2) led0] by simp
  have down: "settled k db' \<Longrightarrow> settled k db" for k
    using less ds unfolding settled_def by (metis order_trans)
  have reopened: "ev_name e = Period_reopened" if "e \<in> set evs" for e
    using ev down that unfolding events_exact_def by (cases "ev_name e") blast+
  have went: "k \<in> ev_periodId ` set evs \<longleftrightarrow> signal_of k db \<and> \<not> signal_of k db'" for k
  proof -
    have "k \<in> ev_periodId ` set evs \<longleftrightarrow> (\<exists>e \<in> set evs. ev_periodId e = k \<and> ev_name e = Period_reopened)"
      using reopened by auto
    then show ?thesis using ev by (simp add: events_exact_def sig)
  qed
  have one: "distinct (map ev_periodId evs)" using ev by (simp add: events_exact_def)
  have resp': "pa_status (re_row resp) = PAGO_ANULADO"
    "re_unallocatedAmount resp = centsMoney (pa_amount (re_row resp))" using st resp by simp_all
  have "\<forall>q. q \<noteq> pid \<longrightarrow> allocated_amount q (bd_allocations db') = allocated_amount q (bd_allocations db)"
    "\<forall>d. paid_amount d (bd_allocations db') + live_sum (\<lambda>a. al_document_id a = d \<and> al_payment_id a = pid) (bd_allocations db)
          = paid_amount d (bd_allocations db)"
    "void_payment_command_ok cmd' \<longrightarrow> voidPayment pid cmd' u' now' db' = Inl paymentVoidedConflict"
    "\<forall>k. signal_of k db' = settled k db'" "\<forall>e \<in> set evs. ev_name e = Period_reopened"
    "\<forall>k. k \<in> ev_periodId ` set evs \<longleftrightarrow> signal_of k db \<and> \<not> signal_of k db'"
    using others docs again sig(2) reopened went by simp_all
  moreover have "\<forall>a \<in> set (bd_allocations db). \<forall>d \<in> set (bd_documents db).
      al_payment_id a = pid \<and> al_live a \<and> do_id d = al_document_id a \<longrightarrow> \<not> signal_of (do_period_id d) db'"
    using covered by blast
  ultimately show ?thesis using zero resp' one by (intro conjI)
qed

definition sample_void :: VoidPaymentCommand where
  "sample_void = \<lparr>vp_reasonCode = PAGO_RECHAZADO, vp_note = None\<rparr>"

theorem void_payment_releases_witness:
  "\<exists>resp evs db'. voidPayment ''x1'' sample_void ''u'' 3 sample_paid = Inr (resp, evs, db')
    \<and> allocated_amount ''x1'' (bd_allocations db') = 0
    \<and> voidPayment ''x1'' sample_void ''u'' 4 db' = Inl paymentVoidedConflict"
proof -
  have "\<not> isl (voidPayment ''x1'' sample_void ''u'' 3 sample_paid)" by code_simp
  then obtain resp evs db' where v: "voidPayment ''x1'' sample_void ''u'' 3 sample_paid = Inr (resp, evs, db')"
    by (cases "voidPayment ''x1'' sample_void ''u'' 3 sample_paid") auto
  have "void_payment_command_ok sample_void" by code_simp
  moreover note w = void_payment_releases [OF sample_run_reachable(4) v, where cmd' = sample_void and u' = "''u''" and now' = 4]
  from w have "void_payment_command_ok sample_void \<longrightarrow>
      voidPayment ''x1'' sample_void ''u'' 4 db' = Inl paymentVoidedConflict" by (elim conjE)
  moreover from w have "allocated_amount ''x1'' (bd_allocations db') = 0" by (elim conjE)
  ultimately show ?thesis using v by blast
qed

section \<open>Automatic allocation\<close>

text \<open>A run of allocations over distinct documents within their balances does not fail.\<close>

lemma apply_fold_total:
  assumes "distinct (map it_documentId items)"
    and "\<And>i. i \<in> set items \<Longrightarrow> \<exists>d. find_document (it_documentId i) db = Some d \<and> do_subscriber_id d = sub
      \<and> do_status d = EMITIDO \<and> money_range (do_total d)
      \<and> money_range (paid_amount (do_id d) (bd_allocations db)) \<and> 0 < it_cents i
      \<and> it_cents i \<le> do_total d - paid_amount (do_id d) (bd_allocations db)"
    and "sum_list (map it_cents items) \<le> r"
  shows "\<exists>ps'. res_fold (apply_one pid sub u) items (r, ps, db) = Inr (r - sum_list (map it_cents items), ps',
    db\<lparr>bd_allocations := bd_allocations db @ map (new_allocation pid u) items\<rparr>)"
  using assms
proof (induction items arbitrary: r ps db)
  case (Cons i items)
  obtain d where d: "find_document (it_documentId i) db = Some d" "do_subscriber_id d = sub" "do_status d = EMITIDO"
    "money_range (do_total d)" "money_range (paid_amount (do_id d) (bd_allocations db))" "0 < it_cents i"
    "it_cents i \<le> do_total d - paid_amount (do_id d) (bd_allocations db)" using Cons.prems(2) [of i] by auto
  have nonneg: "0 \<le> sum_list (map it_cents items)"
    using Cons.prems(2) by (intro sum_list_nonneg) fastforce
  have id: "do_id d = it_documentId i" using find_document_in [OF d(1)] by simp
  let ?db = "db\<lparr>bd_allocations := bd_allocations db @ [new_allocation pid u i]\<rparr>"
  have one: "apply_one pid sub u i (r, ps, db) = Inr (r - it_cents i, set_insert (do_period_id d) ps, ?db)"
    using d nonneg Cons.prems(3) by (simp add: apply_one_def Let_def id [symmetric] new_allocation_def)
  have "\<exists>ps'. res_fold (apply_one pid sub u) items (r - it_cents i, set_insert (do_period_id d) ps, ?db)
      = Inr (r - it_cents i - sum_list (map it_cents items), ps',
          ?db\<lparr>bd_allocations := bd_allocations ?db @ map (new_allocation pid u) items\<rparr>)"
  proof (rule Cons.IH)
    show "distinct (map it_documentId items)" using Cons.prems(1) by simp
    show "sum_list (map it_cents items) \<le> r - it_cents i" using Cons.prems(3) by simp
  next
    fix j assume j: "j \<in> set items"
    then have ne: "it_documentId i \<noteq> it_documentId j" using Cons.prems(1) by force
    obtain e where e: "find_document (it_documentId j) db = Some e" "do_subscriber_id e = sub" "do_status e = EMITIDO"
      "money_range (do_total e)" "money_range (paid_amount (do_id e) (bd_allocations db))" "0 < it_cents j"
      "it_cents j \<le> do_total e - paid_amount (do_id e) (bd_allocations db)" using Cons.prems(2) [of j] j by auto
    have "do_id e = it_documentId j" using find_document_in [OF e(1)] by simp
    then have "paid_amount (do_id e) (bd_allocations ?db) = paid_amount (do_id e) (bd_allocations db)"
      using ne by (simp add: amounts_snoc)
    with e show "\<exists>d. find_document (it_documentId j) ?db = Some d \<and> do_subscriber_id d = sub
      \<and> do_status d = EMITIDO \<and> money_range (do_total d)
      \<and> money_range (paid_amount (do_id d) (bd_allocations ?db)) \<and> 0 < it_cents j
      \<and> it_cents j \<le> do_total d - paid_amount (do_id d) (bd_allocations ?db)" by simp
  qed
  then show ?case using one by (auto simp: diff_diff_eq)
qed simp

definition open_documents :: "string \<Rightarrow> billing_db \<Rightarrow> document_row list" where
  "open_documents sub db = filter (\<lambda>d. do_subscriber_id d = sub \<and> do_status d = EMITIDO) (bd_documents db)"

definition candidate_of :: "billing_db \<Rightarrow> document_row \<Rightarrow> FifoAllocationCandidate" where
  "candidate_of db d = \<lparr>fc_documentId = do_id d, fc_dueDate = do_due_date d,
     fc_pendingAmount = Money_text (numeric_text (do_total d - paid_amount (do_id d) (bd_allocations db)))\<rparr>"

text \<open>The order of the queue: by due date, then by identifier.\<close>

definition older :: "document_row \<Rightarrow> document_row \<Rightarrow> bool" where
  "older d e \<longleftrightarrow> js_lt (do_due_date d) (do_due_date e)
     \<or> (do_due_date d = do_due_date e \<and> js_lt (do_id d) (do_id e))"

lemma older_fifo: "older d e \<Longrightarrow> \<not> fifo_le (candidate_of db e) (candidate_of db d)"
  by (auto simp: older_def fifo_le_def candidate_of_def)

lemma candidate_pending:
  assumes "book_ok db" and "d \<in> set (bd_documents db)"
  shows "readable (candidate_of db d)"
    and "pending_cents (candidate_of db d) = do_total d - paid_amount (do_id d) (bd_allocations db)"
proof -
  have "money_range (do_total d - paid_amount (do_id d) (bd_allocations db))" using paid_bounds(4) [OF assms] .
  then have "moneyCents (fc_pendingAmount (candidate_of db d)) = Inr (do_total d - paid_amount (do_id d) (bd_allocations db))"
    using money_rangeD [of "do_total d - paid_amount (do_id d) (bd_allocations db)"]
    by (simp add: candidate_of_def moneyCents_def money_decimal_def numeric_text_def)
  then show "readable (candidate_of db d)"
    "pending_cents (candidate_of db d) = do_total d - paid_amount (do_id d) (bd_allocations db)"
    by (simp_all add: readable_def pending_cents_def)
qed

lemma suggest_spec:
  assumes "book_ok db" and "moneyCents amount = Inr c"
  obtains as where "suggestAllocations sub amount db = Inr (map (\<lambda>a. (fa_documentId a, fa_amount a)) as)"
    "sum_list (map alloc_cents as) = min c (sum_list (map (\<lambda>d. do_total d - paid_amount (do_id d) (bd_allocations db)) (open_documents sub db)))"
    "distinct (map fa_documentId as)"
    "\<And>a. a \<in> set as \<Longrightarrow> \<exists>d \<in> set (open_documents sub db). fa_documentId a = do_id d \<and> 0 < alloc_cents a
      \<and> alloc_cents a \<le> do_total d - paid_amount (do_id d) (bd_allocations db) \<and> text_cents (fa_amount a) = Inr (alloc_cents a)"
    "\<And>d e a. d \<in> set (open_documents sub db) \<Longrightarrow> e \<in> set (open_documents sub db) \<Longrightarrow> older d e \<Longrightarrow> a \<in> set as \<Longrightarrow>
      fa_documentId a = do_id e \<Longrightarrow> 0 < do_total d - paid_amount (do_id d) (bd_allocations db) \<Longrightarrow>
      \<exists>b \<in> set as. fa_documentId b = do_id d \<and> alloc_cents b = do_total d - paid_amount (do_id d) (bd_allocations db)"
proof -
  let ?ds = "open_documents sub db"
  let ?cs = "map (candidate_of db) ?ds"
  have c: "money_range c" by (rule moneyCents_range [OF assms(2)])
  have ds: "d \<in> set (bd_documents db)" if "d \<in> set ?ds" for d using that by (simp add: open_documents_def)
  have ids: "distinct (map do_id ?ds)"
    using assms(1) by (simp add: book_ok_def documents_paid_ok_def open_documents_def distinct_map_filter)
  let ?as = "greedy c (js_sort fifo_le ?cs)"
  have "suggestFifoAllocations amount ?cs = Inr ?as"
    using ds candidate_pending(1) [OF assms(1)] by (intro suggest_greedy [OF assms(2)]) auto
  then have 1: "suggestAllocations sub amount db = Inr (map (\<lambda>a. (fa_documentId a, fa_amount a)) ?as)"
    by (simp add: suggestAllocations_def open_documents_def candidate_of_def [abs_def] Let_def)
  have "map pending_cents ?cs = map (\<lambda>d. do_total d - paid_amount (do_id d) (bd_allocations db)) ?ds"
    using ds candidate_pending(2) [OF assms(1)] by simp
  then have 2: "sum_list (map alloc_cents ?as)
      = min c (sum_list (map (\<lambda>d. do_total d - paid_amount (do_id d) (bd_allocations db)) ?ds))"
    unfolding greedy_sum [OF c] sum_list_js_sort by (simp only:)
  have "distinct (map fc_documentId (js_sort fifo_le ?cs))"
    using ids by (simp add: candidate_of_def o_def)
  then have "distinct (map fc_documentId (take n (filter P (js_sort fifo_le ?cs))))" for n P
    by (metis distinct_map_filter distinct_take take_map)
  then have 3: "distinct (map fa_documentId ?as)" using greedy_fifo [OF c, of "js_sort fifo_le ?cs"] by metis
  have 4: "\<exists>d \<in> set ?ds. fa_documentId a = do_id d \<and> 0 < alloc_cents a
      \<and> alloc_cents a \<le> do_total d - paid_amount (do_id d) (bd_allocations db) \<and> text_cents (fa_amount a) = Inr (alloc_cents a)"
    if a: "a \<in> set ?as" for a
  proof -
    obtain d where d: "d \<in> set ?ds" "fa_documentId a = fc_documentId (candidate_of db d)" "0 < alloc_cents a"
      "alloc_cents a \<le> pending_cents (candidate_of db d)" "fa_amount a = centsMoney (alloc_cents a)" "money_range (alloc_cents a)"
      using greedy_bound [OF c a] by auto
    then show ?thesis
      using candidate_pending(2) [OF assms(1) ds [OF d(1)]] by (intro bexI [OF _ d(1)]) (simp add: candidate_of_def)
  qed
  have 5: "\<exists>b \<in> set ?as. fa_documentId b = do_id d \<and> alloc_cents b = do_total d - paid_amount (do_id d) (bd_allocations db)"
    if d: "d \<in> set ?ds" and e: "e \<in> set ?ds" and o: "older d e" and a: "a \<in> set ?as" "fa_documentId a = do_id e"
      and pos: "0 < do_total d - paid_amount (do_id d) (bd_allocations db)" for d e a
  proof -
    let ?L = "js_sort fifo_le ?cs"
    have "candidate_of db d \<in> set ?L" "candidate_of db e \<in> set ?L" using d e by simp_all
    then obtain xs ys where L: "?L = xs @ candidate_of db d # ys" by (meson split_list)
    have "sorted_wrt fifo_le ?L" by (rule fifo_order.sorted_js_sort)
    then have "fifo_le c (candidate_of db d)" if "c \<in> set xs" for c
      using that unfolding L by (simp add: sorted_wrt_append)
    then have "candidate_of db e \<notin> set xs" using older_fifo [OF o] by blast
    moreover have "candidate_of db e \<noteq> candidate_of db d"
      using older_fifo [OF o, of db] fifo_order.le_total [of "candidate_of db d" "candidate_of db d"] by metis
    ultimately have "candidate_of db e \<in> set ys" using \<open>candidate_of db e \<in> set ?L\<close> unfolding L by auto
    then have ein: "fa_documentId a \<in> fc_documentId ` set ys"
      using a(2) by (auto simp: candidate_of_def intro!: image_eqI)
    have dist: "distinct (map fc_documentId (xs @ candidate_of db d # ys))"
      using ids unfolding L [symmetric] by (simp add: candidate_of_def o_def)
    have "0 < pending_cents (candidate_of db d)" using candidate_pending(2) [OF assms(1) ds [OF d]] pos by simp
    from greedy_earlier_first [OF c dist this a(1) [unfolded L] ein] show ?thesis
      unfolding L using candidate_pending(2) [OF assms(1) ds [OF d]] by (simp add: candidate_of_def)
  qed
  from that [OF 1 2 3 4 5] show thesis .
qed

lemma find_unique:
  assumes "distinct (map f xs)" and "x \<in> set xs" and "P x" and "\<And>y. P y \<Longrightarrow> f y = f x"
  shows "find P xs = Some x"
  using assms(1,2)
proof (induction xs)
  case (Cons y xs)
  show ?case
  proof (cases "P y")
    case True
    then have "f y = f x" by (rule assms(4))
    with Cons.prems have "y = x" by (auto simp: image_iff)
    with assms(3) show ?thesis by simp
  next
    case False
    with Cons assms(3) show ?thesis by auto
  qed
qed simp

lemma sum_items_sort [simp]: "sum_list (map it_cents (js_sort item_le items)) = sum_list (map it_cents items)"
  by simp

lemma allocated_new:
  "allocated_amount pid (as @ map (new_allocation pid u) items) = allocated_amount pid as + sum_list (map it_cents items)"
proof (induction items arbitrary: as)
  case (Cons i items)
  then show ?case using Cons.IH [of "as @ [new_allocation pid u i]"] by (simp add: amounts_snoc)
qed simp

lemma distinct_filter_one: "distinct (map f xs) \<Longrightarrow> x \<in> set xs \<Longrightarrow> filter (\<lambda>y. f y = f x) xs = [x]"
proof (induction xs)
  case (Cons y ys)
  have "f z \<noteq> f y" if "z \<in> set ys" for z
  proof
    assume "f z = f y"
    then have "f y \<in> f ` set ys" using imageI [OF that, of f] by simp
    with Cons.prems(1) show False by simp
  qed
  then have none: "filter (\<lambda>z. f z = f y) ys = []" by (simp add: filter_empty_conv)
  show ?case
  proof (cases "x = y")
    case False
    then have "x \<in> set ys" using Cons.prems(2) by simp
    then have "f y \<noteq> f x" using none by (auto simp: filter_empty_conv)
    with Cons.IH Cons.prems(1) \<open>x \<in> set ys\<close> show ?thesis by simp
  qed (use none in simp)
qed simp

text \<open>No open document gets anything while an older one is left with a balance.\<close>

definition oldest_first :: "string \<Rightarrow> billing_db \<Rightarrow> billing_db \<Rightarrow> bool" where
  "oldest_first sub db db' \<longleftrightarrow>
     (\<forall>d \<in> set (open_documents sub db). \<forall>e \<in> set (open_documents sub db). older d e \<longrightarrow>
        paid_amount (do_id e) (bd_allocations db) \<noteq> paid_amount (do_id e) (bd_allocations db') \<longrightarrow>
        paid_amount (do_id d) (bd_allocations db') = do_total d)"

lemma paid_new:
  "paid_amount k (as @ map (new_allocation pid u) items)
    = paid_amount k as + sum_list (map it_cents (filter (\<lambda>i. it_documentId i = k) items))"
proof (induction items arbitrary: as)
  case (Cons i items)
  then show ?case using Cons.IH [of "as @ [new_allocation pid u i]"] by (simp add: amounts_snoc)
qed simp

text \<open>The suggestion for a payment that nothing is allocated to goes through.\<close>

lemma apply_suggestion:
  assumes "book_ok db" and p: "p \<in> set (bd_payments db)" "pa_status p = REGISTRADO"
    and zero: "allocated_amount (pa_id p) (bd_allocations db) = 0" and "moneyCents amount = Inr (pa_amount p)"
  shows "\<exists>allocs ps db'. suggestAllocations (pa_subscriber_id p) amount db = Inr allocs
    \<and> applyAllocations (pa_id p) (pa_subscriber_id p) allocs u db = Inr (ps, db')
    \<and> allocated_amount (pa_id p) (bd_allocations db') = min (pa_amount p)
        (sum_list (map (\<lambda>d. do_total d - paid_amount (do_id d) (bd_allocations db)) (open_documents (pa_subscriber_id p) db)))
    \<and> oldest_first (pa_subscriber_id p) db db'"
proof -
  let ?sub = "pa_subscriber_id p"
  let ?total = "sum_list (map (\<lambda>d. do_total d - paid_amount (do_id d) (bd_allocations db)) (open_documents ?sub db))"
  obtain as where as: "suggestAllocations ?sub amount db = Inr (map (\<lambda>a. (fa_documentId a, fa_amount a)) as)"
    "sum_list (map alloc_cents as) = min (pa_amount p) ?total" "distinct (map fa_documentId as)"
    "\<And>a. a \<in> set as \<Longrightarrow> \<exists>d \<in> set (open_documents ?sub db). fa_documentId a = do_id d \<and> 0 < alloc_cents a
      \<and> alloc_cents a \<le> do_total d - paid_amount (do_id d) (bd_allocations db) \<and> text_cents (fa_amount a) = Inr (alloc_cents a)"
    and older: "\<And>d e a. d \<in> set (open_documents ?sub db) \<Longrightarrow> e \<in> set (open_documents ?sub db) \<Longrightarrow> older d e \<Longrightarrow>
      a \<in> set as \<Longrightarrow> fa_documentId a = do_id e \<Longrightarrow> 0 < do_total d - paid_amount (do_id d) (bd_allocations db) \<Longrightarrow>
      \<exists>b \<in> set as. fa_documentId b = do_id d \<and> alloc_cents b = do_total d - paid_amount (do_id d) (bd_allocations db)"
    by (rule suggest_spec [OF assms(1,5), where sub = ?sub]) (rule that, assumption+)
  let ?allocs = "map (\<lambda>a. (fa_documentId a, fa_amount a)) as"
  define items where "items = map (\<lambda>a. \<lparr>it_documentId = fa_documentId a, it_cents = alloc_cents a\<rparr>) as"
  have ids: "distinct (map pa_id (bd_payments db))" "distinct (map do_id (bd_documents db))"
    using assms(1) by (simp_all add: book_ok_def payments_ok_def documents_paid_ok_def)
  have pay: "find (\<lambda>r. pa_id r = pa_id p \<and> pa_subscriber_id r = ?sub \<and> pa_status r = REGISTRADO) (bd_payments db) = Some p"
    using p by (intro find_unique [OF ids(1) p(1)]) simp_all
  have res: "res_map (\<lambda>(documentId, amount). res_bind (text_cents amount)
      (\<lambda>c. Inr \<lparr>it_documentId = documentId, it_cents = c\<rparr>)) ?allocs = Inr items"
  proof -
    have "res_map (\<lambda>(documentId, amount). res_bind (text_cents amount)
        (\<lambda>c. Inr \<lparr>it_documentId = documentId, it_cents = c\<rparr>)) (map (\<lambda>a. (fa_documentId a, fa_amount a)) bs)
        = Inr (map (\<lambda>a. \<lparr>it_documentId = fa_documentId a, it_cents = alloc_cents a\<rparr>) bs)"
      if "\<And>a. a \<in> set bs \<Longrightarrow> text_cents (fa_amount a) = Inr (alloc_cents a)" for bs
      using that by (induction bs) simp_all
    from this [of as] show ?thesis using as(4) by (auto simp: items_def)
  qed
  have "\<exists>ps'. res_fold (apply_one (pa_id p) ?sub u) (js_sort item_le items) (pa_amount p, [], db) =
      Inr (pa_amount p - sum_list (map it_cents (js_sort item_le items)), ps',
       db\<lparr>bd_allocations := bd_allocations db @ map (new_allocation (pa_id p) u) (js_sort item_le items)\<rparr>)"
  proof (rule apply_fold_total)
    show "distinct (map it_documentId (js_sort item_le items))" using as(3) by (simp add: items_def o_def)
    show "sum_list (map it_cents (js_sort item_le items)) \<le> pa_amount p" using as(2) by (simp add: items_def o_def)
  next
    fix i assume "i \<in> set (js_sort item_le items)"
    then obtain a where a: "a \<in> set as" "it_documentId i = fa_documentId a" "it_cents i = alloc_cents a"
      by (auto simp: items_def)
    obtain d where d: "d \<in> set (open_documents ?sub db)" "fa_documentId a = do_id d" "0 < alloc_cents a"
      "alloc_cents a \<le> do_total d - paid_amount (do_id d) (bd_allocations db)" using as(4) [OF a(1)] by auto
    then have din: "d \<in> set (bd_documents db)" "do_subscriber_id d = ?sub" "do_status d = EMITIDO"
      by (simp_all add: open_documents_def)
    have "find_document (it_documentId i) db = Some d"
      unfolding find_document_def using a(2) d(2) by (intro find_unique [OF ids(2) din(1)]) simp_all
    then show "\<exists>d. find_document (it_documentId i) db = Some d \<and> do_subscriber_id d = ?sub \<and> do_status d = EMITIDO
      \<and> money_range (do_total d) \<and> money_range (paid_amount (do_id d) (bd_allocations db)) \<and> 0 < it_cents i
      \<and> it_cents i \<le> do_total d - paid_amount (do_id d) (bd_allocations db)"
      using din d a paid_bounds [OF assms(1) din(1)] by simp
  qed
  then obtain ps where fold: "res_fold (apply_one (pa_id p) ?sub u) (js_sort item_le items) (pa_amount p, [], db) =
      Inr (pa_amount p - sum_list (map it_cents items), ps,
       db\<lparr>bd_allocations := bd_allocations db @ map (new_allocation (pa_id p) u) (js_sort item_le items)\<rparr>)" by auto
  have total: "sum_list (map it_cents items) = min (pa_amount p) ?total" using as(2) by (simp add: items_def o_def)
  show ?thesis
  proof (cases "as = []")
    case True
    then have "applyAllocations (pa_id p) ?sub ?allocs u db = Inr ([], db)" by (simp add: applyAllocations_def)
    moreover have "oldest_first ?sub db db" by (simp add: oldest_first_def)
    ultimately show ?thesis using as(1,2) zero True by auto
  next
    case False
    have "read_money (pa_amount p) = Inr (pa_amount p)" "read_money 0 = Inr 0"
      using allocated_bounds(3) [OF assms(1) p(1)] by (simp_all add: money_range_def)
    then have "applyAllocations (pa_id p) ?sub ?allocs u db = Inr (ps,
        db\<lparr>bd_allocations := bd_allocations db @ map (new_allocation (pa_id p) u) (js_sort item_le items)\<rparr>)"
      using False pay zero res fold by (simp add: applyAllocations_def)
    moreover have "oldest_first ?sub db
        (db\<lparr>bd_allocations := bd_allocations db @ map (new_allocation (pa_id p) u) (js_sort item_le items)\<rparr>)"
      unfolding oldest_first_def
    proof (intro ballI impI)
      fix d e
      assume d: "d \<in> set (open_documents ?sub db)" and e: "e \<in> set (open_documents ?sub db)" and o: "older d e"
        and ne: "paid_amount (do_id e) (bd_allocations db) \<noteq> paid_amount (do_id e) (bd_allocations
          (db\<lparr>bd_allocations := bd_allocations db @ map (new_allocation (pa_id p) u) (js_sort item_le items)\<rparr>))"
      let ?of = "\<lambda>k. filter (\<lambda>i. it_documentId i = k) (js_sort item_le items)"
      have dist: "distinct (map it_documentId (js_sort item_le items))" using as(3) by (simp add: items_def o_def)
      have "?of (do_id e) \<noteq> []" using ne by (auto simp: paid_new)
      then obtain i where "i \<in> set items" "it_documentId i = do_id e" by (auto simp: filter_empty_conv)
      then obtain a where a: "a \<in> set as" "fa_documentId a = do_id e" by (auto simp: items_def)
      have din: "d \<in> set (bd_documents db)" using d by (simp add: open_documents_def)
      show "paid_amount (do_id d) (bd_allocations
          (db\<lparr>bd_allocations := bd_allocations db @ map (new_allocation (pa_id p) u) (js_sort item_le items)\<rparr>)) = do_total d"
      proof (cases "0 < do_total d - paid_amount (do_id d) (bd_allocations db)")
        case True
        from older [OF d e o a True] obtain b where b: "b \<in> set as" "fa_documentId b = do_id d"
          "alloc_cents b = do_total d - paid_amount (do_id d) (bd_allocations db)" by blast
        let ?i = "\<lparr>it_documentId = do_id d, it_cents = alloc_cents b\<rparr>"
        have "?i \<in> set (js_sort item_le items)" using b(1,2) by (force simp: items_def)
        from distinct_filter_one [OF dist this] b(3) show ?thesis by (simp add: paid_new)
      next
        case False
        have "?of (do_id d) = []"
        proof (rule ccontr)
          assume "?of (do_id d) \<noteq> []"
          then obtain b where b: "b \<in> set as" "fa_documentId b = do_id d" by (auto simp: filter_empty_conv items_def)
          obtain d' where d': "d' \<in> set (open_documents ?sub db)" "fa_documentId b = do_id d'" "0 < alloc_cents b"
            "alloc_cents b \<le> do_total d' - paid_amount (do_id d') (bd_allocations db)" using as(4) [OF b(1)] by auto
          have "d' = d"
            using distinct_map_eq [OF ids(2), of d' d] d' b din by (simp add: open_documents_def)
          with d' False show False by simp
        qed
        with False paid_bounds(4) [OF assms(1) din] show ?thesis by (simp add: paid_new money_range_def)
      qed
    qed
    ultimately show ?thesis
      using as(1) zero total allocated_new [of "pa_id p" "bd_allocations db" u "js_sort item_le items"] by auto
  qed
qed

text \<open>
  C15. Registering a payment without naming documents always succeeds for a valid request of
  a titular in place under a fresh key: whatever the state of the books, the automatic FIFO
  allocation is never rejected, and it covers exactly the smaller of the amount and what the
  subscriber owes, oldest first: an open document gets something only if every open document
  that was due before it (or on the same day, with a smaller identifier) ends paid in full.
\<close>

theorem automatic_payment_succeeds:
  assumes "billing_reachable db" and "register_command_ok cmd" and "rp_allocations cmd = None"
    and "idempotency_key_ok (Some k)" and "requireTitular (titular (rp_subscriberId cmd)) = Inr ()"
    and "findPaymentByKey k db = None" and "rowid \<notin> pa_id ` set (bd_payments db)"
    and "moneyCents (rp_amount cmd) = Inr c"
  shows "\<exists>resp evs db'. registerPayment sha titular rowid now cmd (Some k) u db = Inr (resp, evs, db')
    \<and> allocated_amount rowid (bd_allocations db') = min c (sum_list (map
        (\<lambda>d. do_total d - paid_amount (do_id d) (bd_allocations db)) (open_documents (rp_subscriberId cmd) db)))
    \<and> (\<forall>d \<in> set (open_documents (rp_subscriberId cmd) db). \<forall>e \<in> set (open_documents (rp_subscriberId cmd) db).
        older d e \<longrightarrow>
        paid_amount (do_id e) (bd_allocations db) \<noteq> paid_amount (do_id e) (bd_allocations db') \<longrightarrow>
        paid_amount (do_id d) (bd_allocations db') = do_total d)"
proof -
  note led = ledger_ok_reachable [OF assms(1)]
  define row where "row = payment_of_command rowid cmd c k None u now"
  let ?db1 = "db\<lparr>bd_payments := bd_payments db @ [row]\<rparr>"
  have row: "pa_id row = rowid" "pa_amount row = c" "pa_status row = REGISTRADO"
    "pa_subscriber_id row = rp_subscriberId cmd" "pa_idempotency_key row = k"
    by (simp_all add: row_def payment_of_command_def)
  have cents: "0 < c" "money_range c"
    using assms(2,8) money_input_cents [of "rp_amount cmd"] by (auto simp: register_command_ok_def)
  have book: "book_ok ?db1"
    using led assms(6,7) cents row
    by (intro book_ok_insert_payment) (auto simp: ledger_ok_def findPaymentByKey_def find_None_all)
  have led1: "ledger_ok ?db1" using led book by (simp add: ledger_ok_def)
  have "al_payment_id a \<noteq> rowid" if "a \<in> set (bd_allocations db)" for a
    using led that assms(7) unfolding ledger_ok_def book_ok_def allocation_ok_def by (metis imageI)
  then have zero: "allocated_amount (pa_id row) (bd_allocations ?db1) = 0"
    unfolding live_sums row by (intro live_sum_none) auto
  obtain allocs ps db2 where a: "suggestAllocations (pa_subscriber_id row) (rp_amount cmd) ?db1 = Inr allocs"
    "applyAllocations (pa_id row) (pa_subscriber_id row) allocs (Some u) ?db1 = Inr (ps, db2)"
    "allocated_amount (pa_id row) (bd_allocations db2) = min (pa_amount row) (sum_list (map
        (\<lambda>d. do_total d - paid_amount (do_id d) (bd_allocations ?db1)) (open_documents (pa_subscriber_id row) ?db1)))"
    "oldest_first (pa_subscriber_id row) ?db1 db2"
    using apply_suggestion [OF book _ row(3) zero, of "rp_amount cmd" "Some u"] assms(8) row(2) by auto
  obtain db3 evs where r: "recalculateSignals ps db2 = (db3, evs)" by fastforce
  have led3: "ledger_ok db3" using commit_applied(2) [OF led1 applied_apply [OF a(2) book] r] .
  have pays: "bd_payments db3 = bd_payments db @ [row]" "bd_allocations db3 = bd_allocations db2"
    using recalculate_tables [OF r] applyAllocations_tables [OF a(2)] by auto
  have "distinct (map pa_id (bd_payments db3))" using led3 by (simp add: ledger_ok_def book_ok_def payments_ok_def)
  then have f: "findPaymentById rowid db3 = Some row"
    unfolding findPaymentById_def using row(1) by (intro find_unique [of pa_id]) (simp_all add: pays)
  have in3: "row \<in> set (bd_payments db3)" by (simp add: pays)
  have "\<exists>resp. registerPayment sha titular rowid now cmd (Some k) u db = Inr (resp, evs, db3)"
    using assms(2-6,8) a(1,2) r f toPaymentResponse_ok [OF led3 in3] row
    by (simp add: registerPayment_def allocationsFingerprint_def chosen_allocations_def row_def [symmetric] Let_def)
  moreover have "open_documents s ?db1 = open_documents s db" for s by (simp add: open_documents_def)
  moreover have "oldest_first (rp_subscriberId cmd) db db3"
    using a(4) row(4) pays(2) by (simp add: oldest_first_def open_documents_def)
  ultimately show ?thesis using a(3) row pays(2) unfolding oldest_first_def by auto
qed

theorem automatic_payment_succeeds_witness:
  "\<exists>resp evs db'. sample_register ''x1'' ''200.00'' ''key1'' sample_issued = Inr (resp, evs, db')
    \<and> allocated_amount ''x1'' (bd_allocations db') = 11900"
proof -
  let ?cmd = "sample_command ''200.00''"
  have "register_command_ok ?cmd" "rp_allocations ?cmd = None" "idempotency_key_ok (Some ''key1'')"
    "requireTitular (sample_titular (rp_subscriberId ?cmd)) = Inr ()" "findPaymentByKey ''key1'' sample_issued = None"
    "bd_payments sample_issued = []" "moneyCents (rp_amount ?cmd) = Inr 20000"
    "sum_list (map (\<lambda>d. do_total d - paid_amount (do_id d) (bd_allocations sample_issued))
       (open_documents (rp_subscriberId ?cmd) sample_issued)) = 11900"
    by code_simp+
  then show ?thesis
    using automatic_payment_succeeds [OF sample_run_reachable(3), of ?cmd "''key1''" sample_titular "''x1''" 20000 "\<lambda>s. s" 2 "''u''"]
    unfolding sample_register_def by (simp del: split_paired_Ex) blast
qed

end
