(* ===== verification/BillingNumbers.thy ===== *)
theory BillingNumbers
  imports BillingMachine
begin

text \<open>
  The consecutive numbers of issued documents (\<open>nextNumber\<close> and the three attempts of
  \<open>issueWithinManager\<close>) over the runs of billing: with a plain prefix they have no
  gaps and no repetitions, with a prefix that ends in a backslash the second issue fails.
\<close>

section \<open>Consecutive numbers\<close>

definition plain_prefix :: "string \<Rightarrow> bool" where
  "plain_prefix p \<longleftrightarrow> p \<noteq> [] \<and> list_all (\<lambda>c. c \<noteq> CHR ''-'' \<and> c \<noteq> CHR ''%'' \<and> c \<noteq> CHR ''_'' \<and> c \<noteq> CHR 0x5C) p"

text \<open>Runs in which the configured prefix is always plain.\<close>

inductive plain_reachable :: "billing_db \<Rightarrow> bool" where
  plain_init: "plain_reachable billing_init"
| plain_step: "plain_reachable db \<Longrightarrow> billing_step db evs db' \<Longrightarrow>
    (\<And>p. bd_policy db' = Some p \<Longrightarrow> plain_prefix (po_documentPrefix p)) \<Longrightarrow> plain_reachable db'"

lemma plain_reachable_billing: "plain_reachable db \<Longrightarrow> billing_reachable db"
  by (induction rule: plain_reachable.induct) (auto intro: reach_init reach_step)

lemma plain_reachable_policy: "plain_reachable db \<Longrightarrow> bd_policy db = Some p \<Longrightarrow> plain_prefix (po_documentPrefix p)"
  by (induction rule: plain_reachable.induct) (auto simp: billing_init_def)

lemma like_prefix:
  assumes "plain_prefix p"
  shows "sql_like (p @ ''-%'') s \<longleftrightarrow> (\<exists>t. s = p @ CHR ''-'' # t)"
  using sql_like_plain [of "p @ ''-''" s] assms by (auto simp: plain_prefix_def list_all_iff)

lemma no_hyphen_digits: "list_all is_digit w \<Longrightarrow> CHR ''-'' \<notin> set w"
  by (auto simp: list_all_iff)

lemma after_last_hyphen_number:
  assumes "0 \<le> i"
  shows "after_last_hyphen (number_text p i) = pad_num 6 i"
proof -
  have "CHR ''-'' \<notin> set (pad_num 6 i)" using assms by (intro no_hyphen_digits) simp
  then show ?thesis
    by (simp add: after_last_hyphen_def number_text_def takeWhile_append)
qed

lemma bigint_number: "0 \<le> i \<Longrightarrow> bigint_of (after_last_hyphen (number_text p i)) = Inr i"
  by (simp add: after_last_hyphen_number bigint_of_def) (simp add: pad_num_def pad_start_def show_int_def)

lemma number_text_inject:
  assumes "plain_prefix p" "plain_prefix q" and "0 \<le> i" "0 \<le> j"
  shows "number_text p i = number_text q j \<longleftrightarrow> p = q \<and> i = j"
proof
  assume e: "number_text p i = number_text q j"
  have "bigint_of (after_last_hyphen (number_text p i)) = Inr i" by (rule bigint_number [OF assms(3)])
  moreover have "bigint_of (after_last_hyphen (number_text q j)) = Inr j" by (rule bigint_number [OF assms(4)])
  ultimately have "i = j" using e by simp
  with e show "p = q \<and> i = j" by (simp add: number_text_def)
qed simp

lemma number_text_prefix:
  assumes "plain_prefix p" "plain_prefix q" and "number_text q i = p @ CHR ''-'' # t"
  shows "q = p"
proof -
  have tw: "takeWhile (\<lambda>c. c \<noteq> CHR ''-'') (q @ CHR ''-'' # s) = q" if "list_all (\<lambda>c. c \<noteq> CHR ''-'') q" for q s
    using that by (induction q) auto
  have hyphens: "list_all (\<lambda>c. c \<noteq> CHR ''-'') q" if "plain_prefix q" for q
    using that by (simp add: plain_prefix_def list_all_iff)
  have "q @ CHR ''-'' # pad_num 6 i = p @ CHR ''-'' # t" using assms(3) by (simp add: number_text_def)
  then have "takeWhile (\<lambda>c. c \<noteq> CHR ''-'') (q @ CHR ''-'' # pad_num 6 i) = takeWhile (\<lambda>c. c \<noteq> CHR ''-'') (p @ CHR ''-'' # t)"
    by simp
  then show ?thesis by (simp only: tw [OF hyphens [OF assms(1)]] tw [OF hyphens [OF assms(2)]])
qed

text \<open>The numbers in use, and what holds of them.\<close>

definition numbers :: "billing_db \<Rightarrow> string set" where
  "numbers db = {n. \<exists>d \<in> set (bd_documents db). do_number d = Some n}"

definition doc_key :: "document_row \<Rightarrow> string \<times> string option \<times> bool" where
  "doc_key d = (do_id d, do_number d, do_status d = BORRADOR)"

abbreviation doc_keys :: "billing_db \<Rightarrow> (string \<times> string option \<times> bool) set" where
  "doc_keys db \<equiv> doc_key ` set (bd_documents db)"

definition numbering_ok :: "billing_db \<Rightarrow> bool" where
  "numbering_ok db \<longleftrightarrow>
     (\<forall>i n draft. (i, n, draft) \<in> doc_keys db \<longrightarrow> (n = None) = draft)
   \<and> (\<forall>i j n a b. (i, Some n, a) \<in> doc_keys db \<longrightarrow> (j, Some n, b) \<in> doc_keys db \<longrightarrow> i = j)
   \<and> (\<forall>n \<in> numbers db. \<exists>q i. plain_prefix q \<and> 1 \<le> i \<and> n = number_text q i)
   \<and> (\<forall>p. plain_prefix p \<longrightarrow> (\<exists>m \<ge> 0. \<forall>i \<ge> 1. (number_text p i \<in> numbers db) = (i \<le> m)))"

lemma numbers_keys: "n \<in> numbers db \<longleftrightarrow> (\<exists>i b. (i, Some n, b) \<in> doc_keys db)"
proof
  assume "n \<in> numbers db"
  then obtain d where "d \<in> set (bd_documents db)" "do_number d = Some n" by (auto simp: numbers_def)
  then have "(do_id d, Some n, do_status d = BORRADOR) \<in> doc_keys db"
    by (intro image_eqI [of _ _ d]) (simp_all add: doc_key_def)
  then show "\<exists>i b. (i, Some n, b) \<in> doc_keys db" by blast
next
  assume "\<exists>i b. (i, Some n, b) \<in> doc_keys db"
  then obtain d where "d \<in> set (bd_documents db)" "do_number d = Some n" by (auto simp: doc_key_def)
  then show "n \<in> numbers db" by (auto simp: numbers_def)
qed

lemma numbering_okD:
  assumes "numbering_ok db"
  shows "(i, n, draft) \<in> doc_keys db \<Longrightarrow> (n = None) = draft"
    and "(i, Some x, a) \<in> doc_keys db \<Longrightarrow> (j, Some x, b) \<in> doc_keys db \<Longrightarrow> i = j"
    and "x \<in> numbers db \<Longrightarrow> \<exists>q i. plain_prefix q \<and> 1 \<le> i \<and> x = number_text q i"
    and "plain_prefix p \<Longrightarrow> \<exists>m \<ge> 0. \<forall>i \<ge> 1. (number_text p i \<in> numbers db) = (i \<le> m)"
  using assms unfolding numbering_ok_def by blast+

lemma numbering_ok_draft:
  assumes "numbering_ok db" and "d \<in> set (bd_documents db)"
  shows "(do_number d = None) = (do_status d = BORRADOR)"
  using numbering_okD(1) [OF assms(1), of "do_id d" "do_number d" "do_status d = BORRADOR"] assms(2)
  by (auto simp: doc_key_def)

lemma numbering_ok_cong:
  assumes "doc_keys db' = doc_keys db" and "numbering_ok db"
  shows "numbering_ok db'"
proof -
  have "numbers db' = numbers db" by (rule set_eqI) (simp add: numbers_keys assms(1))
  with assms show ?thesis by (simp add: numbering_ok_def)
qed

text \<open>A draft added or discarded leaves the numbers as they are.\<close>

lemma numbering_ok_subset:
  assumes "\<And>i n b. (i, Some n, b) \<in> doc_keys db' \<longleftrightarrow> (i, Some n, b) \<in> doc_keys db"
    and "\<And>i n b. (i, n, b) \<in> doc_keys db' \<Longrightarrow> (n = None) = b" and "numbering_ok db"
  shows "numbering_ok db'"
proof -
  have n: "numbers db' = numbers db" by (rule set_eqI) (simp add: numbers_keys assms(1))
  show ?thesis
    unfolding numbering_ok_def n
  proof (intro conjI allI ballI impI)
    fix i j x a b assume "(i, Some x, a) \<in> doc_keys db'" "(j, Some x, b) \<in> doc_keys db'"
    then have "(i, Some x, a) \<in> doc_keys db" "(j, Some x, b) \<in> doc_keys db" by (simp_all only: assms(1))
    then show "i = j" by (rule numbering_okD(2) [OF assms(3)])
  qed (use assms(2) numbering_okD(3,4) [OF assms(3)] in blast)+
qed

text \<open>The draft \<open>did\<close> gets the next number of \<open>p\<close>.\<close>

lemma numbering_ok_assign:
  assumes ok: "numbering_ok db" and p: "plain_prefix p"
    and m: "0 \<le> m" "\<And>i. 1 \<le> i \<Longrightarrow> (number_text p i \<in> numbers db) = (i \<le> m)"
    and old: "(did, None, True) \<in> doc_keys db" "\<And>n b. (did, n, b) \<in> doc_keys db \<Longrightarrow> n = None"
    and keys: "doc_keys db' = {k \<in> doc_keys db. fst k \<noteq> did} \<union> {(did, Some (number_text p (m + 1)), False)}"
  shows "numbering_ok db'"
proof -
  let ?n = "number_text p (m + 1)"
  have n: "numbers db' = insert ?n (numbers db)"
  proof (rule set_eqI)
    fix x show "x \<in> numbers db' \<longleftrightarrow> x \<in> insert ?n (numbers db)"
    proof
      assume "x \<in> numbers db'"
      then show "x \<in> insert ?n (numbers db)" unfolding numbers_keys insert_iff keys by auto
    next
      assume "x \<in> insert ?n (numbers db)"
      then consider "x = ?n" | i b where "(i, Some x, b) \<in> doc_keys db" unfolding insert_iff numbers_keys by blast
      then show "x \<in> numbers db'"
      proof cases
        case 2
        with old(2) have "i \<noteq> did" by blast
        with 2 show ?thesis unfolding numbers_keys keys by auto
      qed (auto simp: numbers_keys keys)
    qed
  qed
  have fresh: "?n \<notin> numbers db" using m(2) [of "m + 1"] m(1) by simp
  have 1: "(n = None) = draft" if "(i, n, draft) \<in> doc_keys db'" for i n draft
  proof (cases "(i, n, draft) \<in> doc_keys db")
    case True
    then show ?thesis by (rule numbering_okD(1) [OF ok])
  next
    case False
    with that show ?thesis by (simp add: keys)
  qed
  have 2: "i = j" if k: "(i, Some x, a) \<in> doc_keys db'" "(j, Some x, b) \<in> doc_keys db'" for i j x a b
  proof (cases "x = ?n")
    case True
    have "(l, Some ?n, c) \<notin> doc_keys db" for l c using fresh unfolding numbers_keys by blast
    then show ?thesis using k True unfolding keys by simp
  next
    case False
    then have "(i, Some x, a) \<in> doc_keys db" "(j, Some x, b) \<in> doc_keys db" using k unfolding keys by simp_all
    then show ?thesis by (rule numbering_okD(2) [OF ok])
  qed
  have 3: "\<forall>n \<in> numbers db'. \<exists>q i. plain_prefix q \<and> 1 \<le> i \<and> n = number_text q i"
  proof
    fix x assume "x \<in> numbers db'"
    then consider "x = ?n" | "x \<in> numbers db" by (auto simp: n)
    then show "\<exists>q i. plain_prefix q \<and> 1 \<le> i \<and> x = number_text q i"
    proof cases
      case 1
      with p m(1) show ?thesis by (intro exI [of _ p] exI [of _ "m + 1"]) simp
    next
      case 2
      then show ?thesis by (rule numbering_okD(3) [OF ok])
    qed
  qed
  have 4: "\<exists>k \<ge> 0. \<forall>i \<ge> 1. (number_text q i \<in> numbers db') = (i \<le> k)" if q: "plain_prefix q" for q
  proof (cases "q = p")
    case True
    have "(number_text p i \<in> numbers db') = (i \<le> m + 1)" if i: "1 \<le> i" for i
      using m(2) [OF i] number_text_inject [OF p p, of i "m + 1"] i m(1) by (auto simp: n)
    then show ?thesis using m(1) True by (intro exI [of _ "m + 1"]) simp
  next
    case False
    obtain k where k: "0 \<le> k" "\<forall>i \<ge> 1. (number_text q i \<in> numbers db) = (i \<le> k)"
      using numbering_okD(4) [OF ok q] by blast
    have "(number_text q i \<in> numbers db') = (i \<le> k)" if "1 \<le> i" for i
      using k(2) that number_text_inject [OF q p, of i "m + 1"] False m(1) by (auto simp: n)
    with k(1) show ?thesis by (intro exI [of _ k]) simp
  qed
  show ?thesis
    unfolding numbering_ok_def
    by (intro conjI allI ballI impI) (rule 1 2 bspec [OF 3] 4, assumption+)+
qed

lemma foldr_max:
  fixes ns :: "int list"
  assumes "\<And>i. 1 \<le> i \<Longrightarrow> (i \<in> set ns) = (i \<le> m)" and "\<And>i. i \<in> set ns \<Longrightarrow> 1 \<le> i" and "0 \<le> m"
  shows "foldr max ns 0 = m"
proof -
  have ge: "i \<le> foldr max ns 0" if "i \<in> set ns" for i using that by (induction ns) auto
  have mem: "foldr max ns 0 = 0 \<or> foldr max ns 0 \<in> set ns" for ns :: "int list"
    by (induction ns) (auto simp: max_def)
  show ?thesis
  proof (cases "m = 0")
    case True
    have "i \<notin> set ns" for i using assms(1) [of i] assms(2) [of i] True by auto
    then have "ns = []" by (cases ns) auto
    with True show ?thesis by simp
  next
    case False
    then have "m \<le> foldr max ns 0" using ge [of m] assms(1) [of m] assms(3) by simp
    moreover have "foldr max ns 0 \<le> m" using mem [of ns] assms by auto
    ultimately show ?thesis by simp
  qed
qed

lemma next_number:
  assumes "numbering_ok db" and "plain_prefix p"
    and m: "0 \<le> m" "\<And>i. 1 \<le> i \<Longrightarrow> (number_text p i \<in> numbers db) = (i \<le> m)"
  shows "nextNumber p db = Inr (m + 1)" and "assign_number 3 p (m + 1) db = Inr (number_text p (m + 1))"
proof -
  let ?ns = "issued_numbers (p @ ''-%'') db"
  have set_ns: "set ?ns = {n \<in> numbers db. \<exists>t. n = p @ CHR ''-'' # t}"
  proof (rule set_eqI, rule iffI)
    fix n assume "n \<in> set ?ns"
    then show "n \<in> {n \<in> numbers db. \<exists>t. n = p @ CHR ''-'' # t}"
      using like_prefix [OF assms(2), of n] by (auto simp: issued_numbers_def numbers_def split: option.splits if_splits)
  next
    fix n assume n: "n \<in> {n \<in> numbers db. \<exists>t. n = p @ CHR ''-'' # t}"
    then obtain d where d: "d \<in> set (bd_documents db)" "do_number d = Some n" by (auto simp: numbers_def)
    with numbering_ok_draft [OF assms(1) d(1)] have "do_status d \<noteq> BORRADOR" by simp
    with d n like_prefix [OF assms(2), of n] show "n \<in> set ?ns"
      by (auto simp: issued_numbers_def intro!: bexI [of _ d])
  qed
  have each: "\<exists>i \<ge> 1. n = number_text p i" if "n \<in> set ?ns" for n
  proof -
    from that have "n \<in> numbers db" and "\<exists>t. n = p @ CHR ''-'' # t" unfolding set_ns by auto
    moreover have "\<forall>n \<in> numbers db. \<exists>q i. plain_prefix q \<and> 1 \<le> i \<and> n = number_text q i"
      using assms(1) unfolding numbering_ok_def by (elim conjE)
    ultimately obtain q i t where q: "plain_prefix q" "1 \<le> i" "n = number_text q i" "n = p @ CHR ''-'' # t" by blast
    then have "q = p" using number_text_prefix [OF assms(2), of q i t] by simp
    with q show ?thesis by blast
  qed
  define val where "val n = (case bigint_of (after_last_hyphen n) of Inr i \<Rightarrow> i | Inl _ \<Rightarrow> 0)" for n
  have val: "val (number_text p i) = i" if "1 \<le> i" for i using bigint_number [of i p] that by (simp add: val_def)
  have "res_map (\<lambda>n. bigint_of (after_last_hyphen n)) ?ns = Inr (map val ?ns)"
  proof (rule res_map_Inr)
    fix n assume "n \<in> set ?ns"
    then obtain i where "1 \<le> i" "n = number_text p i" using each by blast
    then show "bigint_of (after_last_hyphen n) = Inr (val n)" using bigint_number [of i p] val by simp
  qed
  moreover have "foldr max (map val ?ns) 0 = m"
  proof (rule foldr_max [OF _ _ m(1)])
    fix i assume "i \<in> set (map val ?ns)"
    then obtain n where n: "n \<in> set ?ns" "i = val n" by auto
    from each [OF n(1)] obtain j where "1 \<le> j" "n = number_text p j" by blast
    with n(2) val [of j] show "1 \<le> i" by simp
  next
    fix i :: int assume i: "1 \<le> i"
    have "i \<in> set (map val ?ns) \<longleftrightarrow> number_text p i \<in> set ?ns"
    proof
      assume "i \<in> set (map val ?ns)"
      then obtain n where n: "n \<in> set ?ns" "val n = i" by auto
      with each obtain j where "1 \<le> j" "n = number_text p j" by blast
      with n val show "number_text p i \<in> set ?ns" by auto
    next
      assume n: "number_text p i \<in> set ?ns"
      show "i \<in> set (map val ?ns)" using imageI [OF n, of val] val [OF i] by simp
    qed
    also have "\<dots> \<longleftrightarrow> number_text p i \<in> numbers db" by (auto simp: set_ns number_text_def)
    finally show "(i \<in> set (map val ?ns)) = (i \<le> m)" using m(2) [OF i] by simp
  qed
  ultimately show "nextNumber p db = Inr (m + 1)" by (simp add: nextNumber_def)
  have "number_text p (m + 1) \<notin> numbers db" using m(2) [of "m + 1"] m(1) by simp
  then have "\<not> number_taken (number_text p (m + 1)) db" by (auto simp: number_taken_def numbers_def list_ex_iff)
  then show "assign_number 3 p (m + 1) db = Inr (number_text p (m + 1))"
    by (simp add: numeral_3_eq_3 Let_def)
qed


lemma doc_keys_same: "bd_documents db' = bd_documents db \<Longrightarrow> numbering_ok db \<Longrightarrow> numbering_ok db'"
  by (rule numbering_ok_cong) simp_all

lemma draft_key:
  assumes "ledger_ok db" and "numbering_ok db" and "find_document did db = Some d"
  shows "(did, do_number d, do_status d = BORRADOR) \<in> doc_keys db"
    and "(did, n, b) \<in> doc_keys db \<Longrightarrow> n = do_number d \<and> b = (do_status d = BORRADOR)"
    and "e \<in> set (bd_documents db) \<Longrightarrow> do_id e = did \<Longrightarrow> e = d"
proof -
  note d = find_document_in [OF assms(3)]
  have ids: "distinct (map do_id (bd_documents db))"
    using assms(1) by (simp add: ledger_ok_def book_ok_def documents_paid_ok_def)
  show only: "e = d" if "e \<in> set (bd_documents db)" "do_id e = did" for e
    using distinct_map_eq [OF ids that(1) conjunct1 [OF d]] that(2) d by simp
  show "(did, do_number d, do_status d = BORRADOR) \<in> doc_keys db"
    using d by (intro image_eqI [of _ _ d]) (simp_all add: doc_key_def)
  show "n = do_number d \<and> b = (do_status d = BORRADOR)" if "(did, n, b) \<in> doc_keys db"
    using that only by (auto simp: doc_key_def)
qed

lemma numbering_ok_issue:
  assumes i: "issueWithinManager titular did u prepared db = Inr (evs, db')"
    and ok: "ledger_ok db" "numbering_ok db"
    and plain: "\<And>p. bd_policy db = Some p \<Longrightarrow> plain_prefix (po_documentPrefix p)"
  shows "numbering_ok db'"
  using i
proof (rule issue_cases)
  fix pr d p prefix dates first number db1 db2
  assume d: "find_document did db = Some d" "do_status d = BORRADOR"
    and prefix: "map_option po_documentPrefix (bd_policy db) = Some prefix"
    and db1: "db1 = set_period_dates (do_period_id d) dates db"
    and n: "nextNumber prefix db1 = Inr first" "assign_number 3 prefix first db1 = Inr number"
    and db2: "db2 = set_issued did number (pr_issueDate pr) (dueDate dates) db1"
    and r: "(if po_autoApplyCredit (pe_effective_policy p)
      then applyCreditWithin did (do_subscriber_id d) u db2 else Inr ([], db2)) = Inr (evs, db')"
  have pp: "plain_prefix prefix" using prefix plain by auto
  have ok1: "numbering_ok db1" by (rule doc_keys_same [OF _ ok(2)]) (simp add: db1)
  obtain m where m: "0 \<le> m" "\<And>i. 1 \<le> i \<Longrightarrow> (number_text prefix i \<in> numbers db1) = (i \<le> m)"
    using numbering_okD(4) [OF ok1 pp] by blast
  have number: "number = number_text prefix (m + 1)"
    using n next_number [OF ok1 pp m] by simp
  note key = draft_key [OF ok d(1)]
  have none: "do_number d = None" using numbering_ok_draft [OF ok(2)] find_document_in [OF d(1)] d(2) by simp
  have docs: "bd_documents db1 = bd_documents db" by (simp add: db1)
  have s: "ledger_ok db2"
    using ledger_ok_set_issued(1) [OF ok(1) d, where number = number and date = "pr_issueDate pr" and dates = dates,
      folded db1, folded db2] .
  have doc2: "bd_documents db2 = map (\<lambda>d. if do_id d = did
          then d\<lparr>do_status := EMITIDO, do_number := Some number, do_issue_date := Some (pr_issueDate pr),
                 do_due_date := dueDate dates\<rparr> else d) (bd_documents db)"
    by (simp add: db2 set_issued_def docs)
  have "doc_keys db2 = {k \<in> doc_keys db1. fst k \<noteq> did} \<union> {(did, Some (number_text prefix (m + 1)), False)}"
    (is "?l = ?r")
  proof
    show "?l \<subseteq> ?r" by (auto simp: doc2 docs doc_key_def number)
    have "(did, Some number, False) \<in> ?l"
      unfolding doc2 set_map image_image
      by (rule image_eqI [of _ _ d]) (use find_document_in [OF d(1)] in \<open>simp_all add: doc_key_def\<close>)
    moreover have "doc_key e \<in> ?l" if "e \<in> set (bd_documents db)" "do_id e \<noteq> did" for e
      unfolding doc2 set_map image_image
      by (rule image_eqI [of _ _ e]) (use that in simp_all)
    ultimately show "?r \<subseteq> ?l" by (auto simp: docs number doc_key_def)
  qed
  from numbering_ok_assign [OF ok1 pp m _ _ this] key(1,2) none d(2)
  have "numbering_ok db2" unfolding docs by simp
  moreover have "bd_documents db' = bd_documents db2"
    using r ledger_ok_apply_credit(3) [OF _ s] by (fastforce split: if_splits)
  ultimately show ?thesis by (rule doc_keys_same [rotated])
qed

lemma numbering_ok_draft_added:
  assumes "numbering_ok db" and "do_status d = BORRADOR" "do_number d = None"
  shows "numbering_ok (insert_draft existing p d db)"
proof (rule numbering_ok_subset [OF _ _ assms(1)])
  have keys: "doc_keys (insert_draft existing p d db) = insert (do_id d, None, True) (doc_keys db)"
    using assms(2,3) by (simp add: insert_draft_def doc_key_def split: option.split)
  show "(i, Some n, b) \<in> doc_keys (insert_draft existing p d db) \<longleftrightarrow> (i, Some n, b) \<in> doc_keys db" for i n b
    unfolding keys by simp
  show "(n = None) = b" if "(i, n, b) \<in> doc_keys (insert_draft existing p d db)" for i n b
    using that numbering_okD(1) [OF assms(1)] unfolding keys by blast
qed

lemma numbering_ok_generate:
  assumes "generateOne titular plan_line override contract localDate u manual prepared pu du now db = Inr (outcome, evs, db')"
    and ok: "ledger_ok db" "numbering_ok db" and "plan_line_ok plan_line"
    and "pu \<notin> pe_id ` set (bd_periods db)" and "du \<notin> do_id ` set (bd_documents db)"
    and plain: "\<And>p. bd_policy db = Some p \<Longrightarrow> plain_prefix (po_documentPrefix p)"
  shows "numbering_ok db'"
  using assms(1)
proof (cases rule: generateOne_cases)
  case (generated policy bs target cs)
  then show ?thesis
  proof (cases rule: generate_period_cases)
    case (drafted existing p d db1 s t)
    have l: "ledger_ok db1"
      using generate_draft_ok(1) [OF ok(1) assms(4-6) drafted(1-9,11-13), folded drafted(14)] .
    have n: "numbering_ok db1" unfolding drafted(14) by (rule numbering_ok_draft_added [OF ok(2) drafted(9,10)])
    have "bd_policy db1 = bd_policy db" by (simp add: drafted(14) insert_draft_def split: option.split)
    with plain numbering_ok_issue [OF _ l n] n drafted(15) show ?thesis by auto
  qed (simp add: ok)
qed (simp add: ok)

lemma numbering_ok_void:
  assumes "void_document did reason u now db = Inr (evs, db')" and ok: "ledger_ok db" "numbering_ok db"
  shows "numbering_ok db'"
proof -
  obtain d where d: "find_document did db = Some d" "do_status d = EMITIDO"
    using assms(1) by (auto simp: void_document_def res_simps split: option.splits)
  let ?f = "\<lambda>d. if do_id d = did
    then d\<lparr>do_status := DOC_ANULADO, do_void_reason_code := Some reason, do_voided_by := Some u\<rparr> else d"
  have docs: "bd_documents db' = map ?f (bd_documents db)"
    using assms(1) d by (auto simp: void_document_def dest!: recalculate_tables split: prod.splits)
  have "doc_key (?f e) = doc_key e" if "e \<in> set (bd_documents db)" for e
    using draft_key(3) [OF ok d(1) that] d(2) by (auto simp: doc_key_def)
  then have "doc_keys db' = doc_keys db" unfolding docs set_map image_image by (rule image_cong [OF refl])
  then show ?thesis by (rule numbering_ok_cong [OF _ ok(2)])
qed

lemma numbering_ok_discard:
  assumes "discard did db = Inr db'" and ok: "ledger_ok db" "numbering_ok db"
  shows "numbering_ok db'"
  using assms(1)
proof (rule discard_cases)
  fix d assume d: "find_document did db = Some d" "do_status d = BORRADOR"
    and db': "db' = db\<lparr>bd_documents := filter (\<lambda>e. do_id e \<noteq> did) (bd_documents db)\<rparr>"
  note key = draft_key [OF ok d(1)]
  have none: "do_number d = None" using numbering_ok_draft [OF ok(2)] find_document_in [OF d(1)] d(2) by simp
  have keys: "k \<in> doc_keys db' \<longleftrightarrow> k \<in> doc_keys db \<and> fst k \<noteq> did" for k
    by (simp add: db' doc_key_def image_iff) (metis fst_conv)
  show ?thesis
  proof (rule numbering_ok_subset [OF _ _ ok(2)])
    show "(i, Some n, b) \<in> doc_keys db' \<longleftrightarrow> (i, Some n, b) \<in> doc_keys db" for i n b
      using key(2) [of "Some n" b] none unfolding keys by auto
    show "(n = None) = b" if "(i, n, b) \<in> doc_keys db'" for i n b
      using that numbering_okD(1) [OF ok(2)] unfolding keys by blast
  qed
qed

lemma payments_keep_documents:
  "registerPayment sha titular rowid now cmd key u db = Inr (resp, evs, db') \<Longrightarrow> bd_documents db' = bd_documents db"
  "allocateCredit titular pid ccmd u db = Inr (cresp, evs, db') \<Longrightarrow> bd_documents db' = bd_documents db"
  "voidPayment pid vcmd u now db = Inr (vresp, evs, db') \<Longrightarrow> bd_documents db' = bd_documents db"
proof -
  show "bd_documents db' = bd_documents db"
    if "registerPayment sha titular rowid now cmd key u db = Inr (resp, evs, db')" using that
  proof (cases rule: registerPayment_cases)
    case (fresh k cents fp allocs ps db2 row p)
    with applyAllocations_tables [OF fresh(9)] recalculate_tables [OF fresh(10)] show ?thesis by auto
  qed simp
  show "bd_documents db' = bd_documents db" if "allocateCredit titular pid ccmd u db = Inr (cresp, evs, db')"
    using that by (rule allocateCredit_cases) (auto dest!: applyAllocations_tables recalculate_tables)
  show "bd_documents db' = bd_documents db" if "voidPayment pid vcmd u now db = Inr (vresp, evs, db')"
    using that by (rule voidPayment_cases) (auto dest!: recalculate_tables)
qed

lemma numbering_ok_step:
  assumes "billing_step db evs db'" and ok: "ledger_ok db" "numbering_ok db"
    and plain: "\<And>p. bd_policy db = Some p \<Longrightarrow> plain_prefix (po_documentPrefix p)"
  shows "numbering_ok db'"
  using assms(1)
proof cases
  case step_register
  then show ?thesis using doc_keys_same [OF payments_keep_documents(1) ok(2)] by blast
next
  case step_credit
  then show ?thesis using doc_keys_same [OF payments_keep_documents(2) ok(2)] by blast
next
  case step_void_payment
  then show ?thesis using doc_keys_same [OF payments_keep_documents(3) ok(2)] by blast
next
  case step_issue
  then show ?thesis using numbering_ok_issue [OF _ ok plain] by blast
next
  case step_void_document
  then show ?thesis using numbering_ok_void [OF _ ok] by blast
next
  case step_discard
  then show ?thesis using numbering_ok_discard [OF _ ok] by blast
next
  case step_generate
  then show ?thesis using numbering_ok_generate [OF step_generate(1) ok step_generate(2-4) plain] by blast
next
  case (step_set_policy policy)
  then show ?thesis by (intro doc_keys_same [OF _ ok(2)]) simp
qed

lemma numbering_ok_reachable: "plain_reachable db \<Longrightarrow> numbering_ok db"
proof (induction rule: plain_reachable.induct)
  case plain_init
  then show ?case by (auto simp: numbering_ok_def numbers_def billing_init_def intro!: exI [of _ "0 :: int"])
next
  case (plain_step db evs db')
  from numbering_ok_step [OF plain_step(2) ledger_ok_reachable [OF plain_reachable_billing [OF plain_step(1)]] plain_step(4)]
    plain_reachable_policy [OF plain_step(1)] show ?case by blast
qed

text \<open>
  C11. As long as the document prefix has no hyphen, wildcard or backslash, the documents that
  have a number are exactly those that are not drafts, no two documents share a number, and
  the numbers issued under each prefix are \<open>1\<close> to some \<open>m\<close>, without gaps, whatever was
  voided or discarded in between; the next issue under the prefix takes \<open>m + 1\<close>.
\<close>

theorem document_numbers_consecutive:
  assumes "plain_reachable db"
  shows "(\<forall>d \<in> set (bd_documents db). (do_number d = None) = (do_status d = BORRADOR))
    \<and> (\<forall>d \<in> set (bd_documents db). \<forall>e \<in> set (bd_documents db).
        do_number d \<noteq> None \<longrightarrow> do_number d = do_number e \<longrightarrow> d = e)
    \<and> (\<forall>p. plain_prefix p \<longrightarrow> (\<exists>m \<ge> 0.
        {n \<in> numbers db. \<exists>t. n = p @ CHR ''-'' # t} = number_text p ` {1..m}
        \<and> nextNumber p db = Inr (m + 1)))"
proof (intro conjI ballI allI impI)
  note ok = numbering_ok_reachable [OF assms]
  have ids: "distinct (map do_id (bd_documents db))"
    using ledger_ok_reachable [OF plain_reachable_billing [OF assms]]
    by (simp add: ledger_ok_def book_ok_def documents_paid_ok_def)
  show "(do_number d = None) = (do_status d = BORRADOR)" if "d \<in> set (bd_documents db)" for d
    by (rule numbering_ok_draft [OF ok that])
  show "d = e" if d: "d \<in> set (bd_documents db)" "e \<in> set (bd_documents db)" "do_number d \<noteq> None" "do_number d = do_number e" for d e
  proof -
    obtain x where x: "do_number d = Some x" "do_number e = Some x" using d(3,4) by auto
    have "(do_id d, Some x, do_status d = BORRADOR) \<in> doc_keys db" "(do_id e, Some x, do_status e = BORRADOR) \<in> doc_keys db"
      using d(1,2) x by (auto simp: doc_key_def image_iff intro!: bexI)
    then have "do_id d = do_id e" by (rule numbering_okD(2) [OF ok])
    with distinct_map_eq [OF ids d(1,2)] show ?thesis by simp
  qed
  fix p assume p: "plain_prefix p"
  obtain m where m: "0 \<le> m" "\<And>i. 1 \<le> i \<Longrightarrow> (number_text p i \<in> numbers db) = (i \<le> m)"
    using numbering_okD(4) [OF ok p] by blast
  have "{n \<in> numbers db. \<exists>t. n = p @ CHR ''-'' # t} = number_text p ` {1..m}"
  proof (rule set_eqI, rule iffI)
    fix n assume "n \<in> {n \<in> numbers db. \<exists>t. n = p @ CHR ''-'' # t}"
    then obtain t where n: "n \<in> numbers db" "n = p @ CHR ''-'' # t" by blast
    obtain q i where q: "plain_prefix q" "1 \<le> i" "n = number_text q i" using numbering_okD(3) [OF ok n(1)] by blast
    with n number_text_prefix [OF p q(1), of i t] have "q = p" by simp
    with q n m(2) show "n \<in> number_text p ` {1..m}" by auto
  qed (use m in \<open>auto simp: number_text_def\<close>)
  with m(1) next_number(1) [OF ok p m]
  show "\<exists>m \<ge> 0. {n \<in> numbers db. \<exists>t. n = p @ CHR ''-'' # t} = number_text p ` {1..m} \<and> nextNumber p db = Inr (m + 1)"
    by blast
qed

theorem document_numbers_consecutive_witness:
  "\<exists>m \<ge> 0. {n \<in> numbers sample_issued. \<exists>t. n = ''DC'' @ CHR ''-'' # t} = number_text ''DC'' ` {1..m}
    \<and> nextNumber ''DC'' sample_issued = Inr (m + 1)"
proof -
  have policies: "bd_policy sample_start = Some (seeded_policy ''t0'')" "bd_policy sample_drafted = Some (seeded_policy ''t0'')"
    "bd_policy sample_issued = Some (seeded_policy ''t0'')" by code_simp+
  have dc: "plain_prefix ''DC''" by (simp add: plain_prefix_def)
  then have plain: "plain_prefix (po_documentPrefix (seeded_policy ''t0''))" by (simp add: seeded_policy_def)
  have ok: "plan_line_ok sample_line" by (simp add: plan_line_ok_def sample_line_def)
  have start: "plain_reachable sample_start"
    by (rule plain_step [OF plain_init step_set_policy [where policy = "Some (seeded_policy ''t0'')"], folded sample_start_def])
      (use policies plain in simp)
  have "''p1'' \<notin> pe_id ` set (bd_periods sample_start)" "''d1'' \<notin> do_id ` set (bd_documents sample_start)"
    by (simp_all add: sample_start_def billing_init_def)
  then have "billing_step sample_start [] sample_drafted" by (rule step_generate [OF sample_drafted_step ok])
  from plain_step [OF start this] have "plain_reachable sample_drafted" using policies plain by simp
  from plain_step [OF this step_issue [OF sample_issued_step]] have "plain_reachable sample_issued"
    using policies plain by simp
  from document_numbers_consecutive [OF this] dc show ?thesis by blast
qed

section \<open>A prefix with a backslash\<close>

lemma backslash_like:
  assumes "plain_prefix q"
  shows "sql_like ((q @ [CHR 0x5C]) @ ''-%'') s \<longleftrightarrow> (\<exists>t. s = q @ CHR ''-'' # t)"
proof -
  have "sql_like (q @ [CHR 0x5C, CHR ''-'', CHR ''%'']) s \<longleftrightarrow> (\<exists>t. s = q @ CHR ''-'' # t)"
    if "list_all (\<lambda>c. c \<noteq> CHR ''%'' \<and> c \<noteq> CHR ''_'' \<and> c \<noteq> CHR 0x5C) q"
    using that
  proof (induction q arbitrary: s)
    case Nil
    then show ?case using sql_like_percent by (cases s) auto
  next
    case (Cons c q)
    then show ?case by (cases s) auto
  qed
  moreover have "list_all (\<lambda>c. c \<noteq> CHR ''%'' \<and> c \<noteq> CHR ''_'' \<and> c \<noteq> CHR 0x5C) q"
    using assms by (simp add: plain_prefix_def list_all_iff)
  ultimately show ?thesis by simp
qed

text \<open>
  With a document prefix that ends in a backslash, which the schema accepts, the pattern
  of \<open>nextNumber\<close> escapes the hyphen and never matches the numbers of the prefix: once the
  first document is issued, every further issue that passes its checks is refused as a
  number conflict after its three attempts.
\<close>

lemma backslash_prefix_blocks_issue:
  assumes "plain_prefix q" and "map_option po_documentPrefix (bd_policy db) = Some (q @ [CHR 0x5C])"
    and "number_taken (number_text (q @ [CHR 0x5C]) 1) db"
    and "\<And>n t. n \<in> numbers db \<Longrightarrow> n \<noteq> q @ CHR ''-'' # t"
    and "check_issue titular did prepared db = Inr plan"
  shows "issueWithinManager titular did u prepared db = Inl (Conflict [])"
proof -
  let ?p = "q @ [CHR 0x5C]"
  let ?db1 = "set_period_dates (do_period_id (ip_document plan)) (ip_dates plan) db"
  have prefix: "ip_prefix plan = ?p"
    using assms(2,5) by (auto simp: check_issue_def res_simps split: option.splits if_splits)
  have "issued_numbers (?p @ ''-%'') db = []"
    unfolding issued_numbers_def concat_eq_Nil_conv
  proof
    fix l assume "l \<in> set (map (\<lambda>d. case do_number d of None \<Rightarrow> [] | Some n \<Rightarrow>
        if sql_like (?p @ ''-%'') n \<and> do_status d \<noteq> BORRADOR then [n] else []) (bd_documents db))"
    then obtain d where d: "d \<in> set (bd_documents db)" "l = (case do_number d of None \<Rightarrow> [] | Some n \<Rightarrow>
        if sql_like (?p @ ''-%'') n \<and> do_status d \<noteq> BORRADOR then [n] else [])" by auto
    show "l = []"
    proof (cases "do_number d")
      case (Some n)
      with d(1) have "n \<in> numbers db" by (auto simp: numbers_def)
      with assms(4) backslash_like [OF assms(1), of n] have "\<not> sql_like (?p @ ''-%'') n" by blast
      with d(2) Some show ?thesis by simp
    qed (use d(2) in simp)
  qed
  then have "issued_numbers (?p @ ''-%'') ?db1 = []" by (simp add: issued_numbers_def)
  then have next1: "nextNumber ?p ?db1 = Inr 1" unfolding nextNumber_def by simp
  have "number_taken (number_text ?p 1) ?db1" using assms(3) by (simp add: number_taken_def)
  then have "assign_number 3 ?p 1 ?db1 = Inl (Conflict [])"
    by (simp add: numeral_3_eq_3 Let_def next1 del: sql_like.simps)
  with next1 show ?thesis by (simp add: issueWithinManager_def assms(5) prefix Let_def)
qed

definition sample_backslash :: "billing_db result" where
  "sample_backslash =
     (let start = billing_init\<lparr>bd_policy := Some ((seeded_policy ''t0'')\<lparr>po_documentPrefix := [CHR ''A'', CHR 0x5C]\<rparr>)\<rparr>;
          draft = (\<lambda>contract period document db.
            map_sum id (snd \<circ> snd) (generateOne sample_titular sample_line None (sample_contract\<lparr>bc_contractId := contract\<rparr>)
              ''2026-02-01'' None False sample_prepared period document 1 db))
      in res_bind (draft ''k'' ''p1'' ''d1'' start) (\<lambda>db1.
         res_bind (issueWithinManager sample_titular ''d1'' None (Some sample_prepared) db1) (\<lambda>(_, db2).
         draft ''k2'' ''p2'' ''d2'' db2)))"

end
