(* ===== verification/AuditSanitize.thy ===== *)
theory AuditSanitize
  imports Prelude
begin

text \<open>
  The denylist of the audit trail
  (\<open>apps/api/src/modules/audit/audit-sanitize.policy.ts\<close>): which entries of a logged
  payload are left out, and the walk over the payload. A payload is a tree of JavaScript
  values; the regular expressions are written out as functions on keys.
\<close>

section \<open>Keys\<close>

text \<open>\<open>toLowerCase\<close> below code unit 256: the letters of ASCII and of Latin-1.\<close>

definition lower_char :: "char \<Rightarrow> char" where
  "lower_char c =
     (let n = char_code c
      in if (65 \<le> n \<and> n \<le> 90) \<or> (192 \<le> n \<and> n \<le> 222 \<and> n \<noteq> 215) then char_of (nat (n + 32)) else c)"

definition toLowerCase :: "string \<Rightarrow> string" where
  "toLowerCase s = map lower_char s"

text \<open>
  \<open>/([a-z0-9])([A-Z])/g\<close> with \<open>$1_$2\<close>: a match ends in a capital, which cannot start
  the next one.
\<close>

fun split_camel :: "string \<Rightarrow> string" where
  "split_camel (a # b # s) =
     (if (is_lower a \<or> is_digit a) \<and> is_upper b then a # CHR ''_'' # b # split_camel s
      else a # split_camel (b # s))"
| "split_camel s = s"

text \<open>
  \<open>/([A-Z]+)([A-Z][a-z])/g\<close> with \<open>$1_$2\<close>: a run of two or more capitals that a small letter
  follows is split before its last capital.
\<close>

function split_acronym :: "string \<Rightarrow> string" where
  "split_acronym [] = []"
| "split_acronym (c # s) =
     (let run = takeWhile is_upper (c # s); rest = dropWhile is_upper (c # s)
      in if 2 \<le> length run \<and> rest \<noteq> [] \<and> is_lower (hd rest)
         then butlast run @ CHR ''_'' # last run # hd rest # split_acronym (tl rest)
         else if run \<noteq> [] then run @ split_acronym rest
         else c # split_acronym s)"
  by pat_completeness auto

termination
proof (relation "measure length", goal_cases)
  case (2 c s run rest)
  then have "length (tl rest) < length rest" by (cases rest) auto
  also have "length rest \<le> length (c # s)" using length_dropWhile_le [of is_upper "c # s"] 2 by simp
  finally show ?case by simp
next
  case (3 c s run rest)
  then have "is_upper c" by (auto split: if_splits)
  with 3 show ?case using length_dropWhile_le [of is_upper s] by simp
qed auto

definition normalizeAuditPiiKey :: "string \<Rightarrow> string" where
  "normalizeAuditPiiKey key = toLowerCase (split_acronym (split_camel key))"

definition starts_with :: "string \<Rightarrow> string \<Rightarrow> bool" where
  "starts_with p s = (take (length p) s = p)"

definition ends_with :: "string \<Rightarrow> string \<Rightarrow> bool" where
  "ends_with p s = starts_with (rev p) (rev s)"

fun str_includes :: "string \<Rightarrow> string \<Rightarrow> bool" where
  "str_includes p [] = (p = [])"
| "str_includes p (c # s) = (starts_with p (c # s) \<or> str_includes p s)"

text \<open>\<open>/(^|_)word$/\<close>.\<close>

definition last_word :: "string \<Rightarrow> string \<Rightarrow> bool" where
  "last_word word s = (s = word \<or> ends_with (CHR ''_'' # word) s)"

definition secret_words :: "string list" where
  "secret_words =
     [''password'', ''secret'', ''token'', ''credential'', ''apikey'', ''api_key'', ''privatekey'', ''private_key'',
      ''authorization'', ''otp'', ''qr'', ''seed'', ''recovery'', ''backup'']"

text \<open>
  The pattern has no small \<open>i\<close>-sensitive class: case is ignored on the letters of ASCII
  only, and \<open>api_?key\<close> and \<open>private_?key\<close> are listed with and without the underscore.
\<close>

definition ascii_lower :: "char \<Rightarrow> char" where
  "ascii_lower c = (if is_upper c then char_of (nat (char_code c + 32)) else c)"

definition AUDIT_SECRET_KEY_PATTERN :: "string \<Rightarrow> bool" where
  "AUDIT_SECRET_KEY_PATTERN key = list_ex (\<lambda>w. str_includes w (map ascii_lower key)) secret_words"

definition AUDIT_ALWAYS_OMITTED_KEYS :: "string list" where
  "AUDIT_ALWAYS_OMITTED_KEYS =
     [''email'', ''value'', ''whatsapp'', ''nit'', ''nitdv'', ''nit_dv'', ''fullname'', ''businessname'',
      ''business_name'', ''razonsocial'', ''razon_social'', ''firstname'', ''first_name'', ''lastname'',
      ''last_name'', ''displayname'', ''display_name'', ''legalname'', ''legal_name'', ''address'',
      ''birthdate'', ''birth_date'', ''contactphone'', ''contact_phone'', ''contactname'', ''contact_name'',
      ''altcontactphone'', ''alt_contact_phone'', ''adminemail'', ''admin_email'', ''contactemail'',
      ''contact_email'', ''emailprimary'', ''email_primary'', ''emailsecondary'', ''email_secondary'',
      ''documentnumber'', ''document_number'', ''nationalid'', ''national_id'', ''identification'',
      ''identificacion'', ''cedula'', ''c'' @ CHR 0xE9 # ''dula'', ''phone'', ''mobile'', ''telefono'',
      ''tel'' @ CHR 0xE9 # ''fono'', ''celular'', ''phonenumber'', ''phone_number'', ''mobilenumber'',
      ''mobile_number'', ''sitecontactphone'', ''site_contact_phone'', ''phoneprimary'', ''phone_primary'',
      ''phonesecondary'', ''phone_secondary'', ''customerdisplayname'', ''customer_display_name'',
      ''expedientefullname'', ''expediente_full_name'', ''fiscalname'', ''fiscal_name'',
      ''suggestedpartyname'', ''suggested_party_name'', ''latitude'', ''longitude'', ''description'',
      ''title'', ''sector'', ''municipality'', ''sourcedetail'', ''source_detail'']"

definition AUDIT_NEVER_OMITTED_KEYS :: "string list" where
  "AUDIT_NEVER_OMITTED_KEYS = [''actorname'', ''piiaaccess'']"

definition AUDIT_TECHNICAL_ADDRESS_PATTERN :: "string \<Rightarrow> bool" where
  "AUDIT_TECHNICAL_ADDRESS_PATTERN s = list_ex (\<lambda>w. last_word w s) [''ip_address'', ''mac_address'', ''remote_address'']"

definition AUDIT_PII_KEY_SUFFIX_PATTERN :: "string \<Rightarrow> bool" where
  "AUDIT_PII_KEY_SUFFIX_PATTERN s = list_ex (\<lambda>w. last_word w s)
     ([''email'', ''encrypted'', ''phone'', ''document_number'', ''fiscal_document'', ''fiscal_name'', ''nit'', ''address'']
      @ map (\<lambda>p. p @ ''_name'')
          [''contact'', ''person'', ''customer'', ''holder'', ''owner'', ''subscriber'', ''responsible'',
           ''technician'', ''uploaded_by'', ''directed_to''])"

definition matchesAuditPiiSuffix :: "string \<Rightarrow> bool" where
  "matchesAuditPiiSuffix key =
     (if toLowerCase key \<in> set AUDIT_NEVER_OMITTED_KEYS then False
      else let normalized = normalizeAuditPiiKey key
           in if AUDIT_TECHNICAL_ADDRESS_PATTERN normalized then False
              else AUDIT_PII_KEY_SUFFIX_PATTERN normalized)"

section \<open>Payloads\<close>

text \<open>
  A JavaScript value as the audit meets it. A number is known by its printed form; the
  entries of an object are those of \<open>Object.entries\<close>, in order.
\<close>

datatype audit_value =
    AV_null
  | AV_bool bool
  | AV_number string
  | AV_string string
  | AV_date int
  | AV_buffer
  | AV_array "audit_value list"
  | AV_object "(string \<times> audit_value) list"

fun is_string :: "audit_value \<Rightarrow> bool" where
  "is_string (AV_string s) = True"
| "is_string v = False"

fun is_scalar :: "audit_value \<Rightarrow> bool" where
  "is_scalar (AV_string s) = True"
| "is_scalar (AV_number n) = True"
| "is_scalar (AV_date d) = True"
| "is_scalar v = False"

definition isAuditSecretEntry :: "string \<Rightarrow> audit_value \<Rightarrow> bool" where
  "isAuditSecretEntry key value =
     (let normalizedKey = toLowerCase key
      in if normalizedKey \<in> set AUDIT_NEVER_OMITTED_KEYS then False
         else if normalizedKey \<in> set AUDIT_ALWAYS_OMITTED_KEYS then is_scalar value
         else if \<not> is_string value then False
         else if AUDIT_SECRET_KEY_PATTERN key then True
         else matchesAuditPiiSuffix key)"

definition AUDIT_MAX_SANITIZE_DEPTH :: nat where
  "AUDIT_MAX_SANITIZE_DEPTH = 5"

definition depth_marker :: audit_value where
  "depth_marker = AV_string ''[PROFUNDIDAD_EXCEDIDA]''"

text \<open>
  The walk. Assigning \<open>result['__proto__']\<close> sets the prototype of the result and makes no
  entry.
\<close>

function sanitizeAuditTree :: "audit_value \<Rightarrow> nat \<Rightarrow> audit_value" where
  "sanitizeAuditTree value depth =
     (if AUDIT_MAX_SANITIZE_DEPTH < depth then depth_marker
      else case value of
          AV_buffer \<Rightarrow> AV_string ''[BINARIO]''
        | AV_array items \<Rightarrow> AV_array (map (\<lambda>item. sanitizeAuditTree item (depth + 1)) items)
        | AV_object entries \<Rightarrow> AV_object (map (\<lambda>(key, item). (key, sanitizeAuditTree item (depth + 1)))
            (filter (\<lambda>(key, item). \<not> isAuditSecretEntry key item \<and> key \<noteq> ''__proto__'') entries))
        | _ \<Rightarrow> value)"
  by pat_completeness auto

termination
  by (relation "measure (\<lambda>(value, depth). Suc AUDIT_MAX_SANITIZE_DEPTH - depth)") auto

declare sanitizeAuditTree.simps [simp del]

definition sanitizeAuditPayload :: "audit_value option \<Rightarrow> audit_value option" where
  "sanitizeAuditPayload data = (case data of None \<Rightarrow> None | Some value \<Rightarrow> Some (sanitizeAuditTree value 0))"

section \<open>What the walk leaves\<close>

definition binary_marker :: audit_value where
  "binary_marker = AV_string ''[BINARIO]''"

text \<open>No secret entry at any depth, but for the two markers the walk writes itself.\<close>

fun clean :: "audit_value \<Rightarrow> bool" where
  "clean (AV_array items) = list_all clean items"
| "clean (AV_object entries) = list_all (\<lambda>(key, item).
     (isAuditSecretEntry key item \<longrightarrow> item = depth_marker \<or> item = binary_marker) \<and> clean item) entries"
| "clean v = True"

fun tree_depth :: "audit_value \<Rightarrow> nat" where
  "tree_depth (AV_array items) = Suc (foldr max (map tree_depth items) 0)"
| "tree_depth (AV_object entries) = Suc (foldr max (map (\<lambda>(key, item). tree_depth item) entries) 0)"
| "tree_depth v = 0"

lemma clean_entries:
  "clean (AV_object entries) \<longleftrightarrow> (\<forall>key item. (key, item) \<in> set entries \<longrightarrow>
     (isAuditSecretEntry key item \<longrightarrow> item = depth_marker \<or> item = binary_marker) \<and> clean item)"
  by (auto simp: list_all_iff)

lemma foldr_max_le: "(\<And>x. x \<in> set xs \<Longrightarrow> x \<le> (n :: nat)) \<Longrightarrow> foldr max xs 0 \<le> n"
  by (induction xs) auto

lemma sanitize_deep [simp]: "AUDIT_MAX_SANITIZE_DEPTH < d \<Longrightarrow> sanitizeAuditTree v d = depth_marker"
  by (simp add: sanitizeAuditTree.simps)

lemma sanitize_simps:
  assumes "d \<le> AUDIT_MAX_SANITIZE_DEPTH"
  shows "sanitizeAuditTree AV_null d = AV_null"
    "sanitizeAuditTree (AV_bool b) d = AV_bool b"
    "sanitizeAuditTree (AV_number n) d = AV_number n"
    "sanitizeAuditTree (AV_string s) d = AV_string s"
    "sanitizeAuditTree (AV_date t) d = AV_date t"
    "sanitizeAuditTree AV_buffer d = binary_marker"
    "sanitizeAuditTree (AV_array items) d = AV_array (map (\<lambda>item. sanitizeAuditTree item (Suc d)) items)"
    "sanitizeAuditTree (AV_object entries) d = AV_object (map (\<lambda>(key, item). (key, sanitizeAuditTree item (Suc d)))
       (filter (\<lambda>(key, item). \<not> isAuditSecretEntry key item \<and> key \<noteq> ''__proto__'') entries))"
  using assms by (simp_all add: sanitizeAuditTree.simps [of _ d] binary_marker_def)

lemma marker_simps [simp]:
  "is_string depth_marker" "is_string binary_marker" "is_scalar depth_marker" "is_scalar binary_marker"
  "sanitizeAuditTree depth_marker d = depth_marker"
  "d \<le> AUDIT_MAX_SANITIZE_DEPTH \<Longrightarrow> sanitizeAuditTree binary_marker d = binary_marker"
  by (simp_all add: depth_marker_def binary_marker_def sanitizeAuditTree.simps [of _ d])

text \<open>What the denylist looks at is whether the value is a string or another scalar.\<close>

lemma secret_cong:
  "is_string v = is_string w \<Longrightarrow> is_scalar v = is_scalar w \<Longrightarrow> isAuditSecretEntry key v = isAuditSecretEntry key w"
  by (simp add: isAuditSecretEntry_def)

lemma sanitize_kind:
  assumes "sanitizeAuditTree v d \<noteq> depth_marker" and "sanitizeAuditTree v d \<noteq> binary_marker"
  shows "is_string (sanitizeAuditTree v d) = is_string v" and "is_scalar (sanitizeAuditTree v d) = is_scalar v"
proof -
  have "d \<le> AUDIT_MAX_SANITIZE_DEPTH" using assms(1) by (rule contrapos_np) simp
  then show "is_string (sanitizeAuditTree v d) = is_string v" "is_scalar (sanitizeAuditTree v d) = is_scalar v"
    using assms(2) by (cases v; simp add: sanitize_simps)+
qed

lemma sanitize_again_kind:
  "is_string (sanitizeAuditTree (sanitizeAuditTree v d) d) = is_string (sanitizeAuditTree v d)"
  "is_scalar (sanitizeAuditTree (sanitizeAuditTree v d) d) = is_scalar (sanitizeAuditTree v d)"
  by (cases "d \<le> AUDIT_MAX_SANITIZE_DEPTH"; cases v; simp add: sanitize_simps)+

lemma sanitize_clean: "clean (sanitizeAuditTree v d)"
proof (induction v d rule: sanitizeAuditTree.induct)
  case (1 v d)
  show ?case
  proof (cases "d \<le> AUDIT_MAX_SANITIZE_DEPTH")
    case False
    then show ?thesis by (simp add: depth_marker_def)
  next
    case le: True
    then have d: "\<not> AUDIT_MAX_SANITIZE_DEPTH < d" by simp
    show ?thesis
    proof (cases v)
      case (AV_array items)
      with 1(1) [OF d AV_array] le show ?thesis by (simp add: sanitize_simps list_all_iff)
    next
      case (AV_object entries)
      show ?thesis
        unfolding AV_object sanitize_simps [OF le] clean_entries
      proof (intro allI impI)
        fix key w
        assume "(key, w) \<in> set (map (\<lambda>(key, item). (key, sanitizeAuditTree item (Suc d)))
          (filter (\<lambda>(key, item). \<not> isAuditSecretEntry key item \<and> key \<noteq> ''__proto__'') entries))"
        then obtain item where item: "(key, item) \<in> set entries" "\<not> isAuditSecretEntry key item"
          "key \<noteq> ''__proto__''" "w = sanitizeAuditTree item (Suc d)" by auto
        have "clean w" using 1(2) [OF d AV_object, of "(key, item)" key item] item by simp
        moreover have "isAuditSecretEntry key w \<longrightarrow> w = depth_marker \<or> w = binary_marker"
          using sanitize_kind [of item "Suc d"] secret_cong [of w item key] item by auto
        ultimately show "(isAuditSecretEntry key w \<longrightarrow> w = depth_marker \<or> w = binary_marker) \<and> clean w" by simp
      qed
    qed (simp_all add: sanitize_simps le binary_marker_def)
  qed
qed

lemma sanitize_depth: "tree_depth (sanitizeAuditTree v d) \<le> Suc AUDIT_MAX_SANITIZE_DEPTH - d"
proof (induction v d rule: sanitizeAuditTree.induct)
  case (1 v d)
  show ?case
  proof (cases "d \<le> AUDIT_MAX_SANITIZE_DEPTH")
    case False
    then show ?thesis by (simp add: depth_marker_def)
  next
    case le: True
    then have d: "\<not> AUDIT_MAX_SANITIZE_DEPTH < d" by simp
    have Suc_le: "Suc n \<le> Suc AUDIT_MAX_SANITIZE_DEPTH - d" if "n \<le> Suc AUDIT_MAX_SANITIZE_DEPTH - (d + 1)" for n
      using that le by linarith
    show ?thesis
    proof (cases v)
      case (AV_array items)
      have "foldr max (map tree_depth (map (\<lambda>item. sanitizeAuditTree item (Suc d)) items)) 0
          \<le> Suc AUDIT_MAX_SANITIZE_DEPTH - (d + 1)"
        by (rule foldr_max_le) (use 1(1) [OF d AV_array] in auto)
      from Suc_le [OF this] show ?thesis by (simp add: AV_array sanitize_simps le)
    next
      case (AV_object entries)
      let ?kept = "filter (\<lambda>(key, item). \<not> isAuditSecretEntry key item \<and> key \<noteq> ''__proto__'') entries"
      have "foldr max (map (\<lambda>(key, item). tree_depth item) (map (\<lambda>(key, item). (key, sanitizeAuditTree item (Suc d))) ?kept)) 0
          \<le> Suc AUDIT_MAX_SANITIZE_DEPTH - (d + 1)"
      proof (rule foldr_max_le)
        fix n assume "n \<in> set (map (\<lambda>(key, item). tree_depth item) (map (\<lambda>(key, item). (key, sanitizeAuditTree item (Suc d))) ?kept))"
        then obtain key item where "(key, item) \<in> set ?kept" "n = tree_depth (sanitizeAuditTree item (Suc d))" by auto
        with 1(2) [OF d AV_object, of "(key, item)" key item] show "n \<le> Suc AUDIT_MAX_SANITIZE_DEPTH - (d + 1)" by simp
      qed
      from Suc_le [OF this] show ?thesis by (simp add: AV_object sanitize_simps le)
    qed (simp_all add: sanitize_simps le binary_marker_def)
  qed
qed

text \<open>A second pass may drop markers that stand under a secret key; a third changes nothing.\<close>

lemma sanitize_stable:
  "sanitizeAuditTree (sanitizeAuditTree (sanitizeAuditTree v d) d) d = sanitizeAuditTree (sanitizeAuditTree v d) d"
proof (induction v d rule: sanitizeAuditTree.induct)
  case (1 v d)
  show ?case
  proof (cases "d \<le> AUDIT_MAX_SANITIZE_DEPTH")
    case le: True
    then have d: "\<not> AUDIT_MAX_SANITIZE_DEPTH < d" by simp
    show ?thesis
    proof (cases v)
      case (AV_array items)
      with 1(1) [OF d AV_array] le show ?thesis by (simp add: sanitize_simps)
    next
      case (AV_object entries)
      let ?f = "\<lambda>item. sanitizeAuditTree item (Suc d)"
      let ?ok = "\<lambda>(key, item). \<not> isAuditSecretEntry key item \<and> key \<noteq> ''__proto__''"
      let ?m = "map (\<lambda>(key, item). (key, ?f item))"
      have IH: "?f (?f (?f item)) = ?f (?f item)" if "(key, item) \<in> set entries" "?ok (key, item)" for key item
        using 1(2) [OF d AV_object, of "(key, item)" key item] that by simp
      have "?m (filter ?ok (?m (filter ?ok (?m (filter ?ok es))))) = ?m (filter ?ok (?m (filter ?ok es)))"
        if "set es \<subseteq> set entries" for es
        using that
      proof (induction es)
        case (Cons e es)
        obtain key item where e: "e = (key, item)" by fastforce
        have "isAuditSecretEntry key (?f (?f item)) = isAuditSecretEntry key (?f item)"
          by (rule secret_cong) (rule sanitize_again_kind)+
        with Cons IH [of key item] show ?case by (simp add: e)
      qed simp
      from this [of entries] show ?thesis by (simp add: AV_object sanitize_simps le)
    qed (simp_all add: sanitize_simps le)
  qed simp
qed

end
