(* ===== verification/AuditTrail.thy ===== *)
theory AuditTrail
  imports AuditSanitize
begin

text \<open>
  The writers of the audit trail: \<open>AuditService\<close> and \<open>PlatformAuditService\<close>
  (\<open>apps/api/src/modules/audit/audit.service.ts\<close>, \<open>platform-audit.service.ts\<close>) and the
  HTTP interceptor that routes write requests to them (\<open>audit.interceptor.ts\<close>); and the
  jobs of \<open>apps/worker/src/processors\<close> that touch the tables with SQL of their own: the
  expiry of orphan evidence (\<open>evidence-orphan-detection.processor.ts\<close>), the purge of deleted
  tenants (\<open>tenant-schema-purge.processor.ts\<close>) and the rollback of a failed provisioning
  (\<open>tenant-provisioning.processor.ts\<close>). Whether a save succeeds and the identifier and stamp
  of a row are arguments; logger output is not modelled, and neither are the migrations that
  redacted old rows.
\<close>

section \<open>Rows and writers\<close>

datatype AuditAction = CREATE | UPDATE | DELETE | RECORD_ACCESS | LIST_ACCESS | OTHER_ACTION string

record tenant_context =
  tc_tenantId :: string
  tc_schemaName :: string

record AuditEntryInput =
  ae_tenantId :: "string option"
  ae_schemaName :: "string option"
  ae_userId :: "string option"
  ae_action :: AuditAction
  ae_entityType :: string
  ae_entityId :: string
  ae_oldValue :: "audit_value option"
  ae_newValue :: "audit_value option"
  ae_ipAddress :: "string option"
  ae_userAgent :: "string option"
  ae_requestId :: "string option"

record audit_row =
  au_id :: string
  au_tenantId :: "string option"
  au_userId :: "string option"
  au_action :: AuditAction
  au_entityType :: string
  au_entityId :: string
  au_oldValue :: "audit_value option"
  au_newValue :: "audit_value option"
  au_ipAddress :: "string option"
  au_userAgent :: "string option"
  au_requestId :: "string option"
  au_createdAt :: int

text \<open>The table of each tenant schema and the table of the platform.\<close>

record audit_db =
  ad_tenants :: "(string \<times> audit_row) list"
  ad_platform :: "audit_row list"

definition filled :: "string option \<Rightarrow> bool" where
  "filled s = (case s of None \<Rightarrow> False | Some t \<Rightarrow> t \<noteq> [])"

definition row_of :: "string option \<Rightarrow> AuditEntryInput \<Rightarrow> string \<Rightarrow> int \<Rightarrow> audit_row" where
  "row_of tenantId entry rowid now =
     \<lparr>au_id = rowid, au_tenantId = tenantId, au_userId = ae_userId entry, au_action = ae_action entry,
      au_entityType = ae_entityType entry, au_entityId = ae_entityId entry,
      au_oldValue = sanitizeAuditPayload (ae_oldValue entry), au_newValue = sanitizeAuditPayload (ae_newValue entry),
      au_ipAddress = ae_ipAddress entry, au_userAgent = ae_userAgent entry, au_requestId = ae_requestId entry,
      au_createdAt = now\<rparr>"

text \<open>The destination: both fields of the entry, else the context.\<close>

definition destination :: "tenant_context option \<Rightarrow> AuditEntryInput \<Rightarrow> (string \<times> string) option" where
  "destination ctx entry =
     (if \<not> filled (ae_tenantId entry) \<or> \<not> filled (ae_schemaName entry)
      then map_option (\<lambda>c. (tc_tenantId c, tc_schemaName c)) ctx
      else Some (the (ae_tenantId entry), the (ae_schemaName entry)))"

text \<open>
  \<open>logWithin\<close> writes with the manager of the caller, whose \<open>search_path\<close> is \<open>schema\<close>.
\<close>

definition logWithin ::
  "tenant_context option \<Rightarrow> string \<Rightarrow> bool \<Rightarrow> AuditEntryInput \<Rightarrow> string \<Rightarrow> int \<Rightarrow> audit_db \<Rightarrow> audit_db result" where
  "logWithin ctx schema save_ok entry rowid now db =
     (case destination ctx entry of
        None \<Rightarrow> Inl Plain_Error
      | Some (tenantId, _) \<Rightarrow>
          res_bind (guard_ok save_ok Plain_Error) (\<lambda>_.
          Inr (db\<lparr>ad_tenants := ad_tenants db @ [(schema, row_of (Some tenantId) entry rowid now)]\<rparr>)))"

definition platform_log :: "bool \<Rightarrow> AuditEntryInput \<Rightarrow> string \<Rightarrow> int \<Rightarrow> audit_db \<Rightarrow> audit_db" where
  "platform_log save_ok entry rowid now db =
     (if save_ok then db\<lparr>ad_platform := ad_platform db @ [row_of None entry rowid now]\<rparr> else db)"

definition ANOMALIA_AUDITORIA_PREFIX :: string where
  "ANOMALIA_AUDITORIA_PREFIX = ''ANOMALIA_AUDITORIA:''"

definition audit_log :: "tenant_context option \<Rightarrow> bool \<Rightarrow> AuditEntryInput \<Rightarrow> string \<Rightarrow> int \<Rightarrow> audit_db \<Rightarrow> audit_db" where
  "audit_log ctx save_ok entry rowid now db =
     (case destination ctx entry of
        None \<Rightarrow> platform_log save_ok
          (entry\<lparr>ae_entityType := ANOMALIA_AUDITORIA_PREFIX @ ae_entityType entry\<rparr>) rowid now db
      | Some (tenantId, schemaName) \<Rightarrow>
          if save_ok
          then db\<lparr>ad_tenants := ad_tenants db @ [(schemaName, row_of (Some tenantId) entry rowid now)]\<rparr>
          else db)"

section \<open>The interceptor\<close>

definition httpMethodToAuditAction :: "string \<Rightarrow> AuditAction option" where
  "httpMethodToAuditAction method =
     (if method = ''POST'' then Some CREATE
      else if method = ''PUT'' \<or> method = ''PATCH'' then Some UPDATE
      else if method = ''DELETE'' then Some DELETE
      else None)"

function omitResponseFields :: "audit_value \<Rightarrow> string list \<Rightarrow> nat \<Rightarrow> audit_value" where
  "omitResponseFields value omitted depth =
     (if AUDIT_MAX_SANITIZE_DEPTH < depth then depth_marker
      else case value of
          AV_array items \<Rightarrow> AV_array (map (\<lambda>item. omitResponseFields item omitted (depth + 1)) items)
        | AV_object entries \<Rightarrow> AV_object (map (\<lambda>(key, item). (key, omitResponseFields item omitted (depth + 1)))
            (filter (\<lambda>(key, item). toLowerCase key \<notin> set omitted \<and> key \<noteq> ''__proto__'') entries))
        | _ \<Rightarrow> value)"
  by pat_completeness auto

termination
  by (relation "measure (\<lambda>(value, omitted, depth). Suc AUDIT_MAX_SANITIZE_DEPTH - depth)") auto

declare omitResponseFields.simps [simp del]

datatype jwt_type = Platform_token | Tenant_token

record audit_request =
  rq_method :: string
  rq_skip :: bool
  rq_user :: "(jwt_type \<times> string) option"
  rq_entity :: "string option"
  rq_controller :: string
  rq_entityName :: string
  rq_ip :: "string option"
  rq_agent :: "string option"
  rq_routeId :: "string option"
  rq_omitted :: "string list"

definition field :: "string \<Rightarrow> audit_value option \<Rightarrow> audit_value option" where
  "field k v = (case v of Some (AV_object entries) \<Rightarrow> map_of (rev entries) k | _ \<Rightarrow> None)"

definition is_js_object :: "audit_value option \<Rightarrow> bool" where
  "is_js_object v = (case v of Some (AV_object _) \<Rightarrow> True | Some (AV_array _) \<Rightarrow> True
     | Some (AV_date _) \<Rightarrow> True | Some AV_buffer \<Rightarrow> True | _ \<Rightarrow> False)"

text \<open>Only an object that is no list is audited.\<close>

definition sanitizeResponseData :: "audit_value option \<Rightarrow> string list \<Rightarrow> audit_value option" where
  "sanitizeResponseData data omittedFields =
     (if \<not> is_js_object data \<or> (case data of Some (AV_array _) \<Rightarrow> True | _ \<Rightarrow> False) then None
      else
        let responseForAudit = (if omittedFields \<noteq> []
              then omitResponseFields (the data) (map toLowerCase omittedFields) 0 else the data)
        in Some (sanitizeAuditTree responseForAudit 0))"

text \<open>\<open>response.data\<close> when it is an object, else the response itself.\<close>

definition response_data :: "audit_value option \<Rightarrow> audit_value option" where
  "response_data response =
     (if \<not> is_js_object response then None
      else if is_js_object (field ''data'' response) then field ''data'' response
      else response)"

definition entity_id :: "audit_request \<Rightarrow> audit_value option \<Rightarrow> string" where
  "entity_id req response =
     (case rq_routeId req of
        Some k \<Rightarrow> k
      | None \<Rightarrow> (case field ''id'' (response_data response) of
                   Some (AV_string s) \<Rightarrow> s
                 | _ \<Rightarrow> ''unknown''))"

definition entry_base :: "audit_request \<Rightarrow> AuditAction \<Rightarrow> audit_value option \<Rightarrow> AuditEntryInput" where
  "entry_base req action response =
     \<lparr>ae_tenantId = None, ae_schemaName = None, ae_userId = map_option snd (rq_user req), ae_action = action,
      ae_entityType = (case rq_entity req of Some e \<Rightarrow> e | None \<Rightarrow> rq_entityName req),
      ae_entityId = entity_id req response,
      ae_oldValue = None,
      ae_newValue = (if action \<noteq> DELETE then sanitizeResponseData (response_data response) (rq_omitted req) else None),
      ae_ipAddress = rq_ip req, ae_userAgent = rq_agent req, ae_requestId = None\<rparr>"

definition token_name :: "(jwt_type \<times> string) option \<Rightarrow> audit_value" where
  "token_name user = (case user of None \<Rightarrow> AV_null
     | Some (Platform_token, _) \<Rightarrow> AV_string ''platform'' | Some (Tenant_token, _) \<Rightarrow> AV_string ''tenant'')"

definition anomaly_entry :: "audit_request \<Rightarrow> AuditEntryInput \<Rightarrow> AuditEntryInput" where
  "anomaly_entry req base =
     base\<lparr>ae_entityType := ANOMALIA_AUDITORIA_PREFIX @ ae_entityType base,
          ae_newValue := Some (AV_object
            [(''motivo'', AV_string ''Peticion autenticada sin contexto de auditoria resoluble''),
             (''tokenType'', token_name (rq_user req)),
             (''metodo'', AV_string (rq_method req)),
             (''controlador'', AV_string (rq_controller req))])\<rparr>"

text \<open>
  What a successful HTTP response adds to the trail; \<open>rq_method\<close> is the method in capitals
  and \<open>rq_entityName\<close> the name of the controller class without its suffix.
\<close>

definition intercept ::
  "tenant_context option \<Rightarrow> bool \<Rightarrow> audit_request \<Rightarrow> audit_value option \<Rightarrow> string \<Rightarrow> int \<Rightarrow> audit_db \<Rightarrow> audit_db" where
  "intercept ctx save_ok req response rowid now db =
     (case httpMethodToAuditAction (rq_method req) of
        None \<Rightarrow> db
      | Some action \<Rightarrow>
          if rq_skip req then db
          else if rq_user req = None \<and> ctx = None then db
          else
            let base = entry_base req action response
            in if map_option fst (rq_user req) = Some Platform_token then platform_log save_ok base rowid now db
               else case ctx of
                   Some c \<Rightarrow> audit_log ctx save_ok
                     (base\<lparr>ae_tenantId := Some (tc_tenantId c), ae_schemaName := Some (tc_schemaName c)\<rparr>) rowid now db
                 | None \<Rightarrow> platform_log save_ok (anomaly_entry req base) rowid now db)"

section \<open>The jobs of the worker\<close>

definition has_shape :: "(char \<Rightarrow> bool) \<Rightarrow> (char \<Rightarrow> bool) \<Rightarrow> nat \<Rightarrow> string \<Rightarrow> bool" where
  "has_shape first rest n s = (case s of [] \<Rightarrow> False | c # cs \<Rightarrow> first c \<and> list_all rest cs \<and> length cs \<le> n)"

text \<open>\<open>/^[a-z][a-z0-9_]{0,62}$/i\<close> and \<open>/^tenant_[a-z][a-z0-9_]{0,54}$/\<close>.\<close>

definition evidence_schema_ok :: "string \<Rightarrow> bool" where
  "evidence_schema_ok s = has_shape (\<lambda>c. is_lower c \<or> is_upper c)
     (\<lambda>c. is_lower c \<or> is_upper c \<or> is_digit c \<or> c = CHR ''_'') 62 s"

definition isValidSchemaName :: "string \<Rightarrow> bool" where
  "isValidSchemaName s \<longleftrightarrow> starts_with ''tenant_'' s \<and>
     has_shape is_lower (\<lambda>c. is_lower c \<or> is_digit c \<or> c = CHR ''_'') 54 (drop 7 s)"

text \<open>
  The audit row of one expired asset. \<open>tenantOf\<close> is the lookup of a schema in
  \<open>public.tenants\<close>; an asset is its identifier, its schema and the identifier of the new row.
\<close>

definition orphan_row :: "string \<Rightarrow> string \<Rightarrow> string \<Rightarrow> string \<Rightarrow> int \<Rightarrow> audit_row" where
  "orphan_row tenantId assetId correlationId rowid now =
     \<lparr>au_id = rowid, au_tenantId = Some tenantId, au_userId = None, au_action = DELETE,
      au_entityType = ''MediaAsset'', au_entityId = assetId, au_oldValue = None,
      au_newValue = Some (AV_object [(''assetStatus'', AV_string ''EXPIRED''), (''reason'', AV_string ''ORPHAN_TTL'')]),
      au_ipAddress = None, au_userAgent = None, au_requestId = Some correlationId, au_createdAt = now\<rparr>"

definition writeSoftDeleteAudit ::
  "(string \<Rightarrow> string option) \<Rightarrow> string \<Rightarrow> int \<Rightarrow> string \<times> string \<times> string \<Rightarrow> audit_db \<Rightarrow> audit_db result" where
  "writeSoftDeleteAudit tenantOf correlationId now = (\<lambda>(assetId, schema, rowid) db.
     if \<not> evidence_schema_ok schema then Inl Plain_Error
     else case tenantOf schema of
         None \<Rightarrow> Inl Plain_Error
       | Some tenantId \<Rightarrow> Inr (db\<lparr>ad_tenants := ad_tenants db
           @ [(schema, orphan_row tenantId assetId correlationId rowid now)]\<rparr>))"

text \<open>One transaction for all the assets that expired: an error rolls every row back.\<close>

definition softDeleteUnclaimedOrphans ::
  "(string \<Rightarrow> string option) \<Rightarrow> string \<Rightarrow> int \<Rightarrow> (string \<times> string \<times> string) list \<Rightarrow> audit_db \<Rightarrow> audit_db result" where
  "softDeleteUnclaimedOrphans tenantOf correlationId now assets db =
     res_fold (writeSoftDeleteAudit tenantOf correlationId now) assets db"

definition drop_schema :: "string \<Rightarrow> audit_db \<Rightarrow> audit_db" where
  "drop_schema schema db = db\<lparr>ad_tenants := filter (\<lambda>(s, row). s \<noteq> schema) (ad_tenants db)\<rparr>"

text \<open>\<open>retentionDays\<close> is the printed number.\<close>

definition purge_row :: "string \<Rightarrow> string \<Rightarrow> string \<Rightarrow> string \<Rightarrow> string \<Rightarrow> int \<Rightarrow> audit_row" where
  "purge_row action tenantId schema retentionDays rowid now =
     \<lparr>au_id = rowid, au_tenantId = None, au_userId = None, au_action = OTHER_ACTION action,
      au_entityType = ''Tenant'', au_entityId = tenantId,
      au_oldValue = Some (AV_object [(''status'', AV_string ''MARKED_FOR_DELETION''), (''schemaName'', AV_string schema)]),
      au_newValue = Some (AV_object [(''purgedBy'', AV_string ''worker''), (''retentionDays'', AV_number retentionDays)]),
      au_ipAddress = None, au_userAgent = None, au_requestId = Some ''worker:tenant-schema-purge'',
      au_createdAt = now\<rparr>"

definition insertAuditEvent :: "string \<Rightarrow> string \<Rightarrow> string \<Rightarrow> string \<Rightarrow> string \<Rightarrow> int \<Rightarrow> audit_db \<Rightarrow> audit_db" where
  "insertAuditEvent action tenantId schema retentionDays rowid now db =
     db\<lparr>ad_platform := ad_platform db @ [purge_row action tenantId schema retentionDays rowid now]\<rparr>"

definition purgeTenant ::
  "bool \<Rightarrow> string \<Rightarrow> string \<Rightarrow> string \<Rightarrow> string \<Rightarrow> string \<Rightarrow> int \<Rightarrow> audit_db \<Rightarrow> audit_db result" where
  "purgeTenant locked tenantId schema retentionDays id1 id2 now db =
     (if \<not> isValidSchemaName schema then Inl Plain_Error
      else if \<not> locked then Inr db
      else Inr (insertAuditEvent ''TENANT_PURGE_COMPLETED'' tenantId schema retentionDays id2 now
             (drop_schema schema
               (insertAuditEvent ''TENANT_PURGE_STARTED'' tenantId schema retentionDays id1 now db))))"

definition rollbackProvisioning :: "string \<Rightarrow> audit_db \<Rightarrow> audit_db" where
  "rollbackProvisioning schema db = drop_schema schema db"

section \<open>What the trail holds\<close>

text \<open>A step is labelled with the schema that it drops, if it drops one.\<close>

inductive audit_step :: "string option \<Rightarrow> audit_db \<Rightarrow> audit_db \<Rightarrow> bool" where
  step_within: "logWithin ctx schema ok entry k now db = Inr db' \<Longrightarrow> audit_step None db db'"
| step_log: "audit_step None db (audit_log ctx ok entry k now db)"
| step_platform: "audit_step None db (platform_log ok entry k now db)"
| step_intercept: "audit_step None db (intercept ctx ok req response k now db)"
| step_orphans: "softDeleteUnclaimedOrphans tenantOf corr now assets db = Inr db' \<Longrightarrow> audit_step None db db'"
| step_purge: "purgeTenant locked tenantId schema retentionDays id1 id2 now db = Inr db' \<Longrightarrow>
    audit_step (Some schema) db db'"
| step_rollback: "audit_step (Some schema) db (rollbackProvisioning schema db)"

inductive_cases audit_stepE: "audit_step dropped db db'"

definition audit_empty :: audit_db where
  "audit_empty = \<lparr>ad_tenants = [], ad_platform = []\<rparr>"

definition audit_reachable :: "audit_db \<Rightarrow> bool" where
  "audit_reachable db \<longleftrightarrow> (\<lambda>a b. \<exists>dropped. audit_step dropped a b)\<^sup>*\<^sup>* audit_empty db"

definition all_rows :: "audit_db \<Rightarrow> audit_row list" where
  "all_rows db = map snd (ad_tenants db) @ ad_platform db"

definition payload_ok :: "audit_value option \<Rightarrow> bool" where
  "payload_ok v = (case v of None \<Rightarrow> True
     | Some t \<Rightarrow> clean t \<and> tree_depth t \<le> Suc AUDIT_MAX_SANITIZE_DEPTH
         \<and> (\<exists>w. t = sanitizeAuditTree w 0))"

definition row_ok :: "audit_row \<Rightarrow> bool" where
  "row_ok r \<longleftrightarrow> payload_ok (au_oldValue r) \<and> payload_ok (au_newValue r)"

lemma payload_ok_sanitized: "payload_ok (sanitizeAuditPayload v)"
  using sanitize_clean sanitize_depth [of _ 0]
  by (auto simp: payload_ok_def sanitizeAuditPayload_def split: option.splits)

lemma row_ok_row_of [simp]: "row_ok (row_of t entry k now)"
  by (simp add: row_ok_def row_of_def payload_ok_sanitized)

text \<open>The rows that the worker writes itself hold nothing the denylist names.\<close>

lemma payload_ok_fixed: "sanitizeAuditTree t 0 = t \<Longrightarrow> payload_ok (Some t)"
  using payload_ok_sanitized [of "Some t"] by (simp add: sanitizeAuditPayload_def)

lemma worker_keys:
  "\<not> isAuditSecretEntry ''assetStatus'' (AV_string s)" "\<not> isAuditSecretEntry ''reason'' (AV_string s)"
  "\<not> isAuditSecretEntry ''status'' (AV_string s)" "\<not> isAuditSecretEntry ''schemaName'' (AV_string s)"
  "\<not> isAuditSecretEntry ''purgedBy'' (AV_string s)" "\<not> isAuditSecretEntry ''retentionDays'' (AV_number s)"
proof -
  have "\<forall>key \<in> set [''assetStatus'', ''reason'', ''status'', ''schemaName'', ''purgedBy'', ''retentionDays''].
      toLowerCase key \<notin> set AUDIT_ALWAYS_OMITTED_KEYS \<and> \<not> AUDIT_SECRET_KEY_PATTERN key \<and> \<not> matchesAuditPiiSuffix key"
    by code_simp
  then show "\<not> isAuditSecretEntry ''assetStatus'' (AV_string s)" "\<not> isAuditSecretEntry ''reason'' (AV_string s)"
    "\<not> isAuditSecretEntry ''status'' (AV_string s)" "\<not> isAuditSecretEntry ''schemaName'' (AV_string s)"
    "\<not> isAuditSecretEntry ''purgedBy'' (AV_string s)" "\<not> isAuditSecretEntry ''retentionDays'' (AV_number s)"
    by (simp_all add: isAuditSecretEntry_def)
qed

lemma worker_rows_ok [simp]:
  "row_ok (orphan_row tenantId assetId corr k now)" "row_ok (purge_row action tenantId schema days k now)"
  by (simp_all add: row_ok_def orphan_row_def purge_row_def payload_ok_fixed sanitize_simps worker_keys
      AUDIT_MAX_SANITIZE_DEPTH_def payload_ok_def [of None])

text \<open>Each step keeps the rows outside the schema it drops, and adds good rows only.\<close>

definition extends :: "string option \<Rightarrow> audit_db \<Rightarrow> audit_db \<Rightarrow> bool" where
  "extends dropped db db' \<longleftrightarrow> set (ad_platform db) \<subseteq> set (ad_platform db') \<and>
     (\<forall>entry \<in> set (ad_tenants db). Some (fst entry) \<noteq> dropped \<longrightarrow> entry \<in> set (ad_tenants db')) \<and>
     (\<forall>r \<in> set (all_rows db'). r \<in> set (all_rows db) \<or> row_ok r)"

lemma extends_refl [simp]: "extends None db db"
  by (simp add: extends_def)

lemma extends_tenant [simp]:
  "row_ok r \<Longrightarrow> extends None db (db\<lparr>ad_tenants := ad_tenants db @ [(schema, r)]\<rparr>)"
  by (auto simp: extends_def all_rows_def)

lemma extends_platform_row [simp]: "row_ok r \<Longrightarrow> extends None db (db\<lparr>ad_platform := ad_platform db @ [r]\<rparr>)"
  by (auto simp: extends_def all_rows_def)

lemma extends_trans: "extends None a b \<Longrightarrow> extends None b c \<Longrightarrow> extends None a c"
  unfolding extends_def by blast

lemma extends_platform [simp]: "extends None db (platform_log ok entry k now db)"
  by (simp add: platform_log_def)

lemma extends_log [simp]: "extends None db (audit_log ctx ok entry k now db)"
  by (simp add: audit_log_def split: option.split prod.split)

lemma extends_within: "logWithin ctx schema ok entry k now db = Inr db' \<Longrightarrow> extends None db db'"
  by (auto simp: logWithin_def res_simps split: option.splits)

lemma extends_intercept [simp]: "extends None db (intercept ctx ok req response k now db)"
  by (simp add: intercept_def Let_def split: option.split)

lemma extends_orphans:
  assumes "softDeleteUnclaimedOrphans tenantOf corr now assets db = Inr db'"
  shows "extends None db db'"
proof -
  have "extends None s t" if "writeSoftDeleteAudit tenantOf corr now a s = Inr t" for a s t
    using that by (cases a) (auto simp: writeSoftDeleteAudit_def split: if_splits option.splits)
  then show ?thesis
    using res_fold_invariant [of _ assets db db' "extends None db"] assms extends_trans extends_refl
    unfolding softDeleteUnclaimedOrphans_def by blast
qed

lemma extends_purge:
  "purgeTenant locked tenantId schema days i j now db = Inr db' \<Longrightarrow> extends (Some schema) db db'"
  by (auto simp: purgeTenant_def insertAuditEvent_def drop_schema_def extends_def all_rows_def split: if_splits)

lemma extends_rollback: "extends (Some schema) db (rollbackProvisioning schema db)"
  by (auto simp: rollbackProvisioning_def drop_schema_def extends_def all_rows_def)

lemma audit_step_extends: "audit_step dropped db db' \<Longrightarrow> extends dropped db db'"
  by (erule audit_stepE) (auto intro: extends_within extends_orphans extends_purge extends_rollback)

lemma audit_reachable_rows: "audit_reachable db \<Longrightarrow> r \<in> set (all_rows db) \<Longrightarrow> row_ok r"
  unfolding audit_reachable_def
proof (induction arbitrary: r rule: rtranclp_induct)
  case base
  then show ?case by (simp add: audit_empty_def all_rows_def)
next
  case (step db db')
  then obtain dropped where "audit_step dropped db db'" by blast
  from audit_step_extends [OF this] step.prems step.IH show ?case unfolding extends_def by blast
qed


definition create_key_request :: audit_request where
  "create_key_request =
     \<lparr>rq_method = ''POST'', rq_skip = False, rq_user = Some (Tenant_token, ''u1''), rq_entity = Some ''User'',
      rq_controller = ''UsersController'', rq_entityName = ''Users'', rq_ip = None, rq_agent = None,
      rq_routeId = None, rq_omitted = []\<rparr>"

definition sample_response :: audit_value where
  "sample_response = AV_object [(''data'', AV_object
     [(''id'', AV_string ''k1''), (''temporaryPassword'', AV_string ''x''), (''contactPhone'', AV_string ''300''),
      (''role'', AV_string ''ADMIN'')])]"

definition sample_context :: tenant_context where
  "sample_context = \<lparr>tc_tenantId = ''t1'', tc_schemaName = ''tenant_t1''\<rparr>"


text \<open>
  A write request that is not marked to be skipped, made by an authenticated user or
  within a tenant, adds exactly one row when its save succeeds: to the platform table for a
  platform user, to the schema of the tenant when there is a tenant context, and otherwise
  to the platform table as an anomaly. Its user, action and entity are those of the request.
\<close>

lemma intercept_routes:
  assumes "httpMethodToAuditAction (rq_method req) = Some action" and "\<not> rq_skip req"
    and "rq_user req \<noteq> None \<or> ctx \<noteq> None"
  shows "\<exists>row. au_action row = action \<and> au_userId row = map_option snd (rq_user req)
      \<and> au_entityId row = entity_id req response
    \<and> intercept ctx True req response k now db =
        (if map_option fst (rq_user req) = Some Platform_token \<or> ctx = None
         then db\<lparr>ad_platform := ad_platform db @ [row]\<rparr>
         else db\<lparr>ad_tenants := ad_tenants db @ [(tc_schemaName (the ctx), row)]\<rparr>)
    \<and> (starts_with ANOMALIA_AUDITORIA_PREFIX (au_entityType row)
        \<or> map_option fst (rq_user req) = Some Platform_token \<or> ctx \<noteq> None)"
proof (cases "map_option fst (rq_user req) = Some Platform_token")
  case True
  with assms(1-3) show ?thesis
    by (intro exI [of _ "row_of None (entry_base req action response) k now"])
      (simp add: intercept_def platform_log_def row_of_def entry_base_def)
next
  case False
  show ?thesis
  proof (cases ctx)
    case None
    with assms(1-3) False show ?thesis
      by (intro exI [of _ "row_of None (anomaly_entry req (entry_base req action response)) k now"])
        (auto simp: intercept_def platform_log_def row_of_def entry_base_def anomaly_entry_def starts_with_def)
  next
    case (Some c)
    let ?entry = "(entry_base req action response)\<lparr>ae_tenantId := Some (tc_tenantId c), ae_schemaName := Some (tc_schemaName c)\<rparr>"
    have "destination ctx ?entry = Some (tc_tenantId c, tc_schemaName c)" by (simp add: destination_def Some)
    with assms(1,2) False Some show ?thesis
      by (intro exI [of _ "row_of (Some (tc_tenantId c)) ?entry k now"])
        (simp add: intercept_def audit_log_def Let_def row_of_def entry_base_def)
  qed
qed

text \<open>
  What the denylist lets through: under a key of the secret pattern only a string is
  left out, so a list of strings there (such as \<open>recoveryCodes\<close>) or a number (a one-time
  code) is stored as it came; and the denylist takes the \<open>tokenType\<close> of the anomaly entries
  for a secret, so their row never says what kind of token it was.
\<close>

lemma denylist_gaps:
  assumes "AUDIT_SECRET_KEY_PATTERN key" and "toLowerCase key \<notin> set AUDIT_ALWAYS_OMITTED_KEYS" and "key \<noteq> ''__proto__''"
    and "rq_user req \<noteq> None"
  shows "sanitizeAuditPayload (Some (AV_object [(key, AV_array (map AV_string codes))]))
      = Some (AV_object [(key, AV_array (map AV_string codes))])
    \<and> sanitizeAuditPayload (Some (AV_object [(key, AV_number n)])) = Some (AV_object [(key, AV_number n)])
    \<and> field ''tokenType'' (au_newValue (row_of None (anomaly_entry req base) k now)) = None"
proof -
  have not_secret: "\<not> isAuditSecretEntry key (AV_array vs)" "\<not> isAuditSecretEntry key (AV_number n)" for vs
    using assms(2) by (simp_all add: isAuditSecretEntry_def)
  have d: "0 \<le> AUDIT_MAX_SANITIZE_DEPTH" "Suc 0 \<le> AUDIT_MAX_SANITIZE_DEPTH" "Suc (Suc 0) \<le> AUDIT_MAX_SANITIZE_DEPTH"
    by (simp_all add: AUDIT_MAX_SANITIZE_DEPTH_def)
  have 1: "sanitizeAuditPayload (Some (AV_object [(key, AV_array (map AV_string codes))]))
      = Some (AV_object [(key, AV_array (map AV_string codes))])"
    and 2: "sanitizeAuditPayload (Some (AV_object [(key, AV_number n)])) = Some (AV_object [(key, AV_number n)])"
    by (simp_all add: sanitizeAuditPayload_def sanitize_simps d not_secret assms(3))
  have 3: "field ''tokenType'' (au_newValue (row_of None (anomaly_entry req base) k now)) = None"
  proof -
    obtain s where s: "token_name (rq_user req) = AV_string s"
      using assms(4) that by (cases "fst (the (rq_user req))") (auto simp: token_name_def)
    have "toLowerCase ''tokenType'' \<notin> set AUDIT_NEVER_OMITTED_KEYS"
      "toLowerCase ''tokenType'' \<notin> set AUDIT_ALWAYS_OMITTED_KEYS" "AUDIT_SECRET_KEY_PATTERN ''tokenType''"
      by code_simp+
    then have "isAuditSecretEntry ''tokenType'' (AV_string s)" by (simp add: isAuditSecretEntry_def Let_def)
    then show ?thesis
      by (simp add: row_of_def anomaly_entry_def sanitizeAuditPayload_def sanitize_simps d s field_def)
  qed
  from 1 2 3 show ?thesis by blast
qed

end
