(* ===== verification/CursorCodec.thy ===== *)
theory CursorCodec
  imports Prelude
begin

text \<open>
  The cursors of keyset pagination (\<open>apps/api/src/common/pagination/cursor-codec.ts\<close>): a
  record of texts, printed as JSON, encoded as UTF-8 and then as base64url. The layers of the
  standard library that the code uses are written out. Here a JavaScript string is the list
  of its UTF-16 code units, since names may hold any character.
\<close>

type_synonym units = "nat list"

definition units_of :: "string \<Rightarrow> units" where
  "units_of s = map (\<lambda>c. nat (char_code c)) s"

definition units_ok :: "units \<Rightarrow> bool" where
  "units_ok s = list_all (\<lambda>u. u < 0x10000) s"

section \<open>UTF-8\<close>

definition high_surrogate :: "nat \<Rightarrow> bool" where
  "high_surrogate u = (0xD800 \<le> u \<and> u < 0xDC00)"

definition low_surrogate :: "nat \<Rightarrow> bool" where
  "low_surrogate u = (0xDC00 \<le> u \<and> u < 0xE000)"

text \<open>\<open>Buffer.from(s, 'utf8')\<close>; a surrogate without its partner becomes U+FFFD.\<close>

fun utf8_encode :: "units \<Rightarrow> nat list" where
  "utf8_encode [] = []"
| "utf8_encode (u # us) =
     (if u < 0x80 then u # utf8_encode us
      else if u < 0x800 then (0xC0 + u div 64) # (0x80 + u mod 64) # utf8_encode us
      else if high_surrogate u then
        (case us of
           [] \<Rightarrow> [0xEF, 0xBF, 0xBD]
         | v # vs \<Rightarrow>
             if low_surrogate v
             then let c = 0x10000 + (u - 0xD800) * 1024 + (v - 0xDC00)
                  in (0xF0 + c div 262144) # (0x80 + c div 4096 mod 64) # (0x80 + c div 64 mod 64)
                     # (0x80 + c mod 64) # utf8_encode vs
             else 0xEF # 0xBF # 0xBD # utf8_encode us)
      else if low_surrogate u then 0xEF # 0xBF # 0xBD # utf8_encode us
      else (0xE0 + u div 4096) # (0x80 + u div 64 mod 64) # (0x80 + u mod 64) # utf8_encode us)"

definition between :: "nat \<Rightarrow> nat \<Rightarrow> nat \<Rightarrow> bool" where
  "between a b n = (a \<le> n \<and> n \<le> b)"

definition cp_units :: "nat \<Rightarrow> units" where
  "cp_units c = (if c < 0x10000 then [c] else [0xD800 + (c - 0x10000) div 1024, 0xDC00 + (c - 0x10000) mod 1024])"

text \<open>
  The bounds of the second byte after a leading byte, which rule out overlong forms,
  surrogates and code points above U+10FFFF.
\<close>

definition second_ok :: "nat \<Rightarrow> nat \<Rightarrow> bool" where
  "second_ok b c = between (if b = 0xE0 then 0xA0 else if b = 0xF0 then 0x90 else 0x80)
                           (if b = 0xED then 0x9F else if b = 0xF4 then 0x8F else 0xBF) c"

text \<open>
  \<open>buffer.toString('utf8')\<close>: an ill-formed sequence gives U+FFFD for its longest prefix that
  could have started a character, and decoding goes on after that prefix.
\<close>

function utf8_decode :: "nat list \<Rightarrow> units" where
  "utf8_decode [] = []"
| "utf8_decode (b # bs) =
     (if b < 0x80 then b # utf8_decode bs
      else if between 0xC2 0xDF b then
        (case bs of
           c # cs \<Rightarrow> if between 0x80 0xBF c then ((b - 0xC0) * 64 + (c - 0x80)) # utf8_decode cs
                     else 0xFFFD # utf8_decode bs
         | [] \<Rightarrow> [0xFFFD])
      else if between 0xE0 0xEF b then
        (case bs of
           c # cs \<Rightarrow>
             if second_ok b c then
               (case cs of
                  d # ds \<Rightarrow> if between 0x80 0xBF d
                    then ((b - 0xE0) * 4096 + (c - 0x80) * 64 + (d - 0x80)) # utf8_decode ds
                    else 0xFFFD # utf8_decode cs
                | [] \<Rightarrow> [0xFFFD])
             else 0xFFFD # utf8_decode bs
         | [] \<Rightarrow> [0xFFFD])
      else if between 0xF0 0xF4 b then
        (case bs of
           c # cs \<Rightarrow>
             if second_ok b c then
               (case cs of
                  d # ds \<Rightarrow>
                    if between 0x80 0xBF d then
                      (case ds of
                         e # es \<Rightarrow> if between 0x80 0xBF e
                           then cp_units ((b - 0xF0) * 262144 + (c - 0x80) * 4096 + (d - 0x80) * 64 + (e - 0x80))
                                @ utf8_decode es
                           else 0xFFFD # utf8_decode ds
                       | [] \<Rightarrow> [0xFFFD])
                    else 0xFFFD # utf8_decode cs
                | [] \<Rightarrow> [0xFFFD])
             else 0xFFFD # utf8_decode bs
         | [] \<Rightarrow> [0xFFFD])
      else 0xFFFD # utf8_decode bs)"
  by pat_completeness auto

termination
  by (relation "measure length") auto

section \<open>base64url\<close>

definition sextet_unit :: "nat \<Rightarrow> nat" where
  "sextet_unit n =
     (if n < 26 then 65 + n else if n < 52 then 97 + (n - 26) else if n < 62 then 48 + (n - 52)
      else if n = 62 then 45 else 95)"

definition unit_sextet :: "nat \<Rightarrow> nat option" where
  "unit_sextet u =
     (if between 65 90 u then Some (u - 65) else if between 97 122 u then Some (26 + (u - 97))
      else if between 48 57 u then Some (52 + (u - 48))
      else if u = 45 then Some 62 else if u = 95 then Some 63 else None)"

fun sextets :: "nat list \<Rightarrow> nat list" where
  "sextets (a # b # c # bs) =
     a div 4 # (a mod 4 * 16 + b div 16) # (b mod 16 * 4 + c div 64) # c mod 64 # sextets bs"
| "sextets [a, b] = [a div 4, a mod 4 * 16 + b div 16, b mod 16 * 4]"
| "sextets [a] = [a div 4, a mod 4 * 16]"
| "sextets [] = []"

fun octets :: "nat list \<Rightarrow> nat list" where
  "octets (p # q # r # s # ss) =
     (p * 4 + q div 16) # (q mod 16 * 16 + r div 4) # (r mod 4 * 64 + s) # octets ss"
| "octets [p, q, r] = [p * 4 + q div 16, q mod 16 * 16 + r div 4]"
| "octets [p, q] = [p * 4 + q div 16]"
| "octets [p] = []"
| "octets [] = []"

definition to_base64url :: "nat list \<Rightarrow> units" where
  "to_base64url bs = map sextet_unit (sextets bs)"

text \<open>
  A text within the alphabet is decoded by RFC 4648. What Node does with other texts (padding,
  the other alphabet, characters it skips) is the argument \<open>lenient\<close>.
\<close>

definition from_base64url :: "(units \<Rightarrow> nat list) \<Rightarrow> units \<Rightarrow> nat list" where
  "from_base64url lenient s =
     (if list_all (\<lambda>u. unit_sextet u \<noteq> None) s then octets (map (\<lambda>u. the (unit_sextet u)) s) else lenient s)"

section \<open>JSON\<close>

datatype json =
    J_null
  | J_bool bool
  | J_number units
  | J_string units
  | J_array "json list"
  | J_object "(units \<times> json) list"

definition hex_unit :: "nat \<Rightarrow> nat" where
  "hex_unit n = (if n < 10 then 48 + n else 87 + n)"

definition unicode_escape :: "nat \<Rightarrow> units" where
  "unicode_escape u =
     [92, 117, hex_unit (u div 4096), hex_unit (u div 256 mod 16), hex_unit (u div 16 mod 16), hex_unit (u mod 16)]"

definition escape_unit :: "nat \<Rightarrow> units" where
  "escape_unit u =
     (if u = 34 then [92, 34] else if u = 92 then [92, 92]
      else if u = 8 then [92, 98] else if u = 9 then [92, 116] else if u = 10 then [92, 110]
      else if u = 12 then [92, 102] else if u = 13 then [92, 114]
      else if u < 32 then unicode_escape u else [u])"

text \<open>The body of \<open>JSON.stringify(s)\<close>; a surrogate without its partner is escaped.\<close>

fun json_escape :: "units \<Rightarrow> units" where
  "json_escape [] = []"
| "json_escape (u # us) =
     (if high_surrogate u then
        (case us of
           v # vs \<Rightarrow> if low_surrogate v then u # v # json_escape vs else unicode_escape u @ json_escape us
         | [] \<Rightarrow> unicode_escape u)
      else if low_surrogate u then unicode_escape u @ json_escape us
      else escape_unit u @ json_escape us)"

definition json_member :: "units \<times> units \<Rightarrow> units" where
  "json_member kv = 34 # json_escape (fst kv) @ [34, 58, 34] @ json_escape (snd kv) @ [34]"

fun json_join :: "units list \<Rightarrow> units" where
  "json_join [] = []"
| "json_join [m] = m"
| "json_join (m # ms) = m @ 44 # json_join ms"

definition json_stringify :: "(units \<times> units) list \<Rightarrow> units" where
  "json_stringify payload = 123 # json_join (map json_member payload) @ [125]"

text \<open>\<open>JSON.parse\<close>.\<close>

definition skip_ws :: "units \<Rightarrow> units" where
  "skip_ws s = dropWhile (\<lambda>u. u \<in> {32, 9, 10, 13}) s"

definition unit_hex :: "nat \<Rightarrow> nat option" where
  "unit_hex u = (if between 48 57 u then Some (u - 48) else if between 97 102 u then Some (u - 87)
     else if between 65 70 u then Some (u - 55) else None)"

definition simple_escape :: "nat \<Rightarrow> nat option" where
  "simple_escape e =
     (if e = 34 \<or> e = 92 \<or> e = 47 then Some e else if e = 98 then Some 8 else if e = 102 then Some 12
      else if e = 110 then Some 10 else if e = 114 then Some 13 else if e = 116 then Some 9 else None)"

fun parse_string :: "units \<Rightarrow> (units \<times> units) option" where
  "parse_string [] = None"
| "parse_string (c # s) =
     (if c = 34 then Some ([], s)
      else if c = 92 then
        (case s of
           [] \<Rightarrow> None
         | e # t \<Rightarrow>
             if e = 117 then
               (case t of
                  a # b # c # d # r \<Rightarrow>
                    (case (unit_hex a, unit_hex b, unit_hex c, unit_hex d) of
                       (Some w, Some x, Some y, Some z) \<Rightarrow>
                         map_option (\<lambda>(us, rest). ((w * 4096 + x * 256 + y * 16 + z) # us, rest)) (parse_string r)
                     | _ \<Rightarrow> None)
                | _ \<Rightarrow> None)
             else (case simple_escape e of
                     Some u \<Rightarrow> map_option (\<lambda>(us, rest). (u # us, rest)) (parse_string t)
                   | None \<Rightarrow> None))
      else if c < 32 then None
      else map_option (\<lambda>(us, rest). (c # us, rest)) (parse_string s))"

definition is_digit_unit :: "nat \<Rightarrow> bool" where
  "is_digit_unit u = between 48 57 u"

text \<open>\<open>-?(0|[1-9][0-9]*)(.[0-9]+)?([eE][+-]?[0-9]+)?\<close>, as the text read and the rest.\<close>

definition parse_digits1 :: "units \<Rightarrow> (units \<times> units) option" where
  "parse_digits1 s = (if s \<noteq> [] \<and> is_digit_unit (hd s)
     then Some (takeWhile is_digit_unit s, dropWhile is_digit_unit s) else None)"

definition parse_int_part :: "units \<Rightarrow> (units \<times> units) option" where
  "parse_int_part s = (if s \<noteq> [] \<and> hd s = 48 then Some ([48], tl s) else parse_digits1 s)"

definition parse_fraction :: "units \<Rightarrow> (units \<times> units) option" where
  "parse_fraction s = (if s \<noteq> [] \<and> hd s = 46
     then map_option (\<lambda>(ds, r). (46 # ds, r)) (parse_digits1 (tl s)) else Some ([], s))"

definition parse_exponent :: "units \<Rightarrow> (units \<times> units) option" where
  "parse_exponent s =
     (if s \<noteq> [] \<and> (hd s = 69 \<or> hd s = 101)
      then let t = tl s; sign = (if t \<noteq> [] \<and> (hd t = 43 \<or> hd t = 45) then [hd t] else [])
           in map_option (\<lambda>(ds, r). (hd s # sign @ ds, r)) (parse_digits1 (drop (length sign) t))
      else Some ([], s))"

definition parse_number :: "units \<Rightarrow> (units \<times> units) option" where
  "parse_number s =
     (let sign = (if s \<noteq> [] \<and> hd s = 45 then [45] else [])
      in Option.bind (parse_int_part (drop (length sign) s)) (\<lambda>(i, r1).
         Option.bind (parse_fraction r1) (\<lambda>(f, r2).
         Option.bind (parse_exponent r2) (\<lambda>(e, r3). Some (sign @ i @ f @ e, r3)))))"

definition parse_word :: "string \<Rightarrow> json \<Rightarrow> units \<Rightarrow> (json \<times> units) option" where
  "parse_word w v s = (if take (length w) s = units_of w then Some (v, drop (length w) s) else None)"

definition expect :: "nat \<Rightarrow> units \<Rightarrow> units option" where
  "expect u s = (case skip_ws s of [] \<Rightarrow> None | c # r \<Rightarrow> if c = u then Some r else None)"

text \<open>
  The fuel bounds the nesting and the number of commas; each use of it reads at least one
  unit, so the length of the text is enough.
\<close>

fun parse_value :: "nat \<Rightarrow> units \<Rightarrow> (json \<times> units) option"
  and parse_items :: "nat \<Rightarrow> units \<Rightarrow> (json list \<times> units) option"
  and parse_members :: "nat \<Rightarrow> units \<Rightarrow> ((units \<times> json) list \<times> units) option" where
  "parse_value 0 s = None"
| "parse_value (Suc k) s =
     (case skip_ws s of
        [] \<Rightarrow> None
      | c # r \<Rightarrow>
          if c = 123 then
            (case expect 125 r of
               Some t \<Rightarrow> Some (J_object [], t)
             | None \<Rightarrow> map_option (\<lambda>(ms, t). (J_object ms, t)) (parse_members k r))
          else if c = 91 then
            (case expect 93 r of
               Some t \<Rightarrow> Some (J_array [], t)
             | None \<Rightarrow> map_option (\<lambda>(vs, t). (J_array vs, t)) (parse_items k r))
          else if c = 34 then map_option (\<lambda>(us, t). (J_string us, t)) (parse_string r)
          else if c = 110 then parse_word ''null'' J_null (c # r)
          else if c = 116 then parse_word ''true'' (J_bool True) (c # r)
          else if c = 102 then parse_word ''false'' (J_bool False) (c # r)
          else map_option (\<lambda>(n, t). (J_number n, t)) (parse_number (c # r)))"
| "parse_items 0 s = None"
| "parse_items (Suc k) s =
     Option.bind (parse_value k s) (\<lambda>(v, r).
     case expect 44 r of
       Some t \<Rightarrow> map_option (\<lambda>(vs, u). (v # vs, u)) (parse_items k t)
     | None \<Rightarrow> map_option (\<lambda>t. ([v], t)) (expect 93 r))"
| "parse_members 0 s = None"
| "parse_members (Suc k) s =
     Option.bind (expect 34 s) (\<lambda>r1.
     Option.bind (parse_string r1) (\<lambda>(key, r2).
     Option.bind (expect 58 r2) (\<lambda>r3.
     Option.bind (parse_value k r3) (\<lambda>(v, r).
     case expect 44 r of
       Some t \<Rightarrow> map_option (\<lambda>(ms, u). ((key, v) # ms, u)) (parse_members k t)
     | None \<Rightarrow> map_option (\<lambda>t. ([(key, v)], t)) (expect 125 r)))))"

definition json_parse :: "units \<Rightarrow> json option" where
  "json_parse s = (case parse_value (Suc (length s)) s of
     Some (v, r) \<Rightarrow> if skip_ws r = [] then Some v else None
   | None \<Rightarrow> None)"

section \<open>Cursors\<close>

definition invalid_cursor :: http_error where
  "invalid_cursor = Bad_Request ''Cursor de paginaci'' "

definition encodePayload :: "(units \<times> units) list \<Rightarrow> units" where
  "encodePayload payload = to_base64url (utf8_encode (json_stringify payload))"

definition decodePayload :: "(units \<Rightarrow> nat list) \<Rightarrow> units \<Rightarrow> (units \<times> json) list result" where
  "decodePayload lenient cursor =
     (case json_parse (utf8_decode (from_base64url lenient cursor)) of
        Some (J_object members) \<Rightarrow> Inr members
      | _ \<Rightarrow> Inl invalid_cursor)"

text \<open>\<open>parsed.k\<close> when it is a text: the last member of that name counts.\<close>

definition text_member :: "string \<Rightarrow> (units \<times> json) list \<Rightarrow> units option" where
  "text_member k members = (case map_of (rev members) (units_of k) of Some (J_string s) \<Rightarrow> Some s | _ \<Rightarrow> None)"

section \<open>Round trips of the layers\<close>

lemma digit_split: "(y :: nat) < n \<Longrightarrow> (x * n + y) div n = x \<and> (x * n + y) mod n = y"
  by simp

lemma sextet_bounds: "(x :: nat) < 4 \<Longrightarrow> y < 16 \<Longrightarrow> x * 16 + y < 64" "(x :: nat) < 16 \<Longrightarrow> y < 4 \<Longrightarrow> x * 4 + y < 64"
    "(x :: nat) < 4 \<Longrightarrow> x * 16 < 64" "(x :: nat) < 16 \<Longrightarrow> x * 4 < 64"
  by linarith+

lemma byte_parts:
  assumes "(b :: nat) < 256"
  shows "b div 4 < 64" "b div 16 < 16" "b div 64 < 4" "b mod 4 < 4" "b mod 16 < 16" "b mod 64 < 64"
  using assms by auto

lemma sextets_octets:
  "(\<forall>b \<in> set bs. b < 256) \<Longrightarrow> octets (sextets bs) = bs \<and> (\<forall>s \<in> set (sextets bs). s < 64)"
proof (induction bs rule: sextets.induct)
  case (1 a b c bs)
  then have ok: "a < 256" "b < 256" "c < 256" and IH: "octets (sextets bs) = bs" "\<forall>s \<in> set (sextets bs). s < 64"
    by simp_all
  note parts = byte_parts [OF ok(1)] byte_parts [OF ok(2)] byte_parts [OF ok(3)]
  have "(a mod 4 * 16 + b div 16) div 16 = a mod 4" "(a mod 4 * 16 + b div 16) mod 16 = b div 16"
    "(b mod 16 * 4 + c div 64) div 4 = b mod 16" "(b mod 16 * 4 + c div 64) mod 4 = c div 64"
    using digit_split [OF parts(8), of "a mod 4"] digit_split [OF parts(15), of "b mod 16"] by blast+
  then have "octets (sextets (a # b # c # bs)) = a # b # c # bs" using IH(1) by (simp add: div_mult_mod_eq)
  moreover have "a mod 4 * 16 + b div 16 < 64" "b mod 16 * 4 + c div 64 < 64" by (intro sextet_bounds parts)+
  ultimately show ?case using IH(2) byte_parts(1) [OF ok(1)] byte_parts(6) [OF ok(3)] by simp
next
  case (2 a b)
  then have ok: "a < 256" "b < 256" by simp_all
  note parts = byte_parts [OF ok(1)] byte_parts [OF ok(2)]
  have "(a mod 4 * 16 + b div 16) div 16 = a mod 4" "(a mod 4 * 16 + b div 16) mod 16 = b div 16"
    using digit_split [OF parts(8), of "a mod 4"] by blast+
  then have "octets (sextets [a, b]) = [a, b]" by (simp add: div_mult_mod_eq)
  moreover have "a mod 4 * 16 + b div 16 < 64" "b mod 16 * 4 < 64" by (intro sextet_bounds parts)+
  ultimately show ?case using byte_parts(1) [OF ok(1)] by simp
next
  case (3 a)
  then have ok: "a < 256" by simp
  note parts = byte_parts [OF ok]
  have "a mod 4 * 16 < 64" by (intro sextet_bounds parts)
  then show ?case using byte_parts(1) [OF ok] by (simp add: div_mult_mod_eq)
qed simp

lemma unit_sextet_unit: "n < 64 \<Longrightarrow> unit_sextet (sextet_unit n) = Some n"
  by (auto simp: unit_sextet_def sextet_unit_def between_def)

lemma from_to_base64url:
  assumes "\<forall>b \<in> set bs. b < 256"
  shows "from_base64url lenient (to_base64url bs) = bs"
proof -
  note s = sextets_octets [OF assms]
  have "map (\<lambda>u. the (unit_sextet u)) (map sextet_unit (sextets bs)) = sextets bs"
    using s by (simp add: unit_sextet_unit map_idI)
  moreover have "list_all (\<lambda>u. unit_sextet u \<noteq> None) (map sextet_unit (sextets bs))"
    using s by (simp add: list_all_iff unit_sextet_unit)
  ultimately show ?thesis using s by (simp add: from_base64url_def to_base64url_def)
qed

text \<open>Every surrogate stands in a pair.\<close>

fun well_formed :: "units \<Rightarrow> bool" where
  "well_formed [] = True"
| "well_formed (u # us) =
     (u < 0x10000 \<and> (if high_surrogate u then (case us of [] \<Rightarrow> False | v # vs \<Rightarrow> low_surrogate v \<and> well_formed vs)
       else \<not> low_surrogate u \<and> well_formed us))"

text \<open>The parts of a code point that two or four bytes carry.\<close>

definition pair_point :: "nat \<Rightarrow> nat \<Rightarrow> nat" where
  "pair_point u v = 0x10000 + (u - 0xD800) * 1024 + (v - 0xDC00)"

lemma pair_point_bounds:
  "high_surrogate u \<Longrightarrow> low_surrogate v \<Longrightarrow> 0x10000 \<le> pair_point u v \<and> pair_point u v < 0x110000"
  unfolding pair_point_def high_surrogate_def low_surrogate_def by linarith

lemma utf8_encode_pair:
  assumes "high_surrogate u" and "low_surrogate v"
  shows "utf8_encode (u # v # vs) =
    (0xF0 + pair_point u v div 262144) # (0x80 + pair_point u v div 4096 mod 64)
    # (0x80 + pair_point u v div 64 mod 64) # (0x80 + pair_point u v mod 64) # utf8_encode vs"
  using assms by (simp add: pair_point_def Let_def) (simp add: high_surrogate_def)

lemma utf8_encode_other:
  assumes "\<not> high_surrogate u" and "\<not> low_surrogate u"
  shows "utf8_encode (u # us) =
    (if u < 0x80 then u # utf8_encode us
     else if u < 0x800 then (0xC0 + u div 64) # (0x80 + u mod 64) # utf8_encode us
     else (0xE0 + u div 4096) # (0x80 + u div 64 mod 64) # (0x80 + u mod 64) # utf8_encode us)"
  using assms by simp

lemma well_formed_induct [consumes 1, case_names Nil Pair Other]:
  assumes "well_formed us" and "P []"
    and "\<And>u v vs. u < 0x10000 \<Longrightarrow> high_surrogate u \<Longrightarrow> low_surrogate v \<Longrightarrow> well_formed vs \<Longrightarrow> P vs \<Longrightarrow> P (u # v # vs)"
    and "\<And>u us. u < 0x10000 \<Longrightarrow> \<not> high_surrogate u \<Longrightarrow> \<not> low_surrogate u \<Longrightarrow> well_formed us \<Longrightarrow> P us \<Longrightarrow> P (u # us)"
  shows "P us"
  using assms(1)
proof (induction us rule: well_formed.induct)
  case (2 u us)
  then show ?case using assms(3,4) by (cases us) (auto split: if_splits)
qed (rule assms(2))

lemma utf8_encode_bytes: "well_formed us \<Longrightarrow> b \<in> set (utf8_encode us) \<Longrightarrow> b < 256"
proof (induction us rule: well_formed_induct)
  case (Pair u v vs)
  have "pair_point u v div 262144 \<le> 4" using pair_point_bounds [OF Pair(2,3)] by linarith
  moreover have "pair_point u v div 4096 mod 64 < 64" "pair_point u v div 64 mod 64 < 64" "pair_point u v mod 64 < 64"
    by simp_all
  moreover have "b = 0xF0 + pair_point u v div 262144 \<or> b = 0x80 + pair_point u v div 4096 mod 64
      \<or> b = 0x80 + pair_point u v div 64 mod 64 \<or> b = 0x80 + pair_point u v mod 64 \<or> b < 256"
    using Pair(5,6) unfolding utf8_encode_pair [OF Pair(2,3)] by auto
  ultimately show ?case by (elim disjE) linarith+
next
  case (Other u us)
  then show ?case unfolding utf8_encode_other [OF Other(2,3)] by (auto split: if_splits)
qed simp

text \<open>Reading back what two, three and four bytes carry.\<close>

lemma split3: "(u :: nat) div 4096 * 4096 + u div 64 mod 64 * 64 + u mod 64 = u"
proof -
  have "u div 64 div 64 = u div 4096" by (simp flip: div_mult2_eq)
  then have "u div 64 = u div 4096 * 64 + u div 64 mod 64" by (metis div_mult_mod_eq)
  moreover have "u = u div 64 * 64 + u mod 64" by simp
  moreover have "x = p * 64 + q \<Longrightarrow> u = x * 64 + r \<Longrightarrow> p * 4096 + q * 64 + r = u" for x p q r u :: nat by simp
  ultimately show ?thesis by blast
qed

lemma split4: "(c :: nat) div 262144 * 262144 + c div 4096 mod 64 * 4096 + c div 64 mod 64 * 64 + c mod 64 = c"
proof -
  have "c div 4096 div 64 = c div 262144" by (simp flip: div_mult2_eq)
  then have "c div 4096 = c div 262144 * 64 + c div 4096 mod 64" by (metis div_mult_mod_eq)
  moreover have "x = p * 64 + q \<Longrightarrow> x * 4096 + r * 64 + s = c \<Longrightarrow> p * 262144 + q * 4096 + r * 64 + s = c"
    for x p q r s c :: nat by simp
  ultimately show ?thesis using split3 [of c] by blast
qed

lemma utf8_round_trip: "well_formed us \<Longrightarrow> utf8_decode (utf8_encode us) = us"
proof (induction us rule: well_formed_induct)
  case (Pair u v vs)
  define c where "c = pair_point u v"
  have c: "0x10000 \<le> c" "c < 0x110000" using pair_point_bounds [OF Pair(2,3)] by (simp_all add: c_def)
  define q r s t where "q = c div 262144" and "r = c div 4096 mod 64" and "s = c div 64 mod 64" and "t = c mod 64"
  have sum: "q * 262144 + r * 4096 + s * 64 + t = c" using split4 [of c] by (simp add: q_def r_def s_def t_def)
  have small: "q \<le> 4" "r < 64" "s < 64" "t < 64" using c by (auto simp: q_def r_def s_def t_def)
  have first: "q = 0 \<Longrightarrow> 16 \<le> r" "q = 4 \<Longrightarrow> r \<le> 15" using sum small c by linarith+
  have units: "cp_units c = [u, v]"
  proof -
    have "v - 0xDC00 < 1024" using Pair(3) unfolding low_surrogate_def by linarith
    from digit_split [OF this, of "u - 0xD800"]
    have d: "((u - 0xD800) * 1024 + (v - 0xDC00)) div 1024 = u - 0xD800"
      "((u - 0xD800) * 1024 + (v - 0xDC00)) mod 1024 = v - 0xDC00" by blast+
    have "c - 0x10000 = (u - 0xD800) * 1024 + (v - 0xDC00)" by (simp add: c_def pair_point_def)
    then have "cp_units c = [0xD800 + (u - 0xD800), 0xDC00 + (v - 0xDC00)]"
      using c(1) unfolding cp_units_def by (simp only: d) simp
    moreover have "0xD800 + (u - 0xD800) = u" "0xDC00 + (v - 0xDC00) = v"
      using Pair(2,3) unfolding high_surrogate_def low_surrogate_def by linarith+
    ultimately show ?thesis by simp
  qed
  show ?case
    unfolding utf8_encode_pair [OF Pair(2,3)] c_def [symmetric] q_def [symmetric] r_def [symmetric] s_def [symmetric] t_def [symmetric]
    using small first units sum Pair(5) by (simp add: between_def second_ok_def)
next
  case (Other u us)
  define p q r where "p = u div 4096" and "q = u div 64 mod 64" and "r = u mod 64"
  have sum: "p * 4096 + q * 64 + r = u" using split3 [of u] by (simp add: p_def q_def r_def)
  have small: "p < 16" "q < 64" "r < 64" using Other(1) by (auto simp: p_def q_def r_def)
  consider "u < 0x80" | "0x80 \<le> u" "u < 0x800" | "0x800 \<le> u" by linarith
  then show ?case
  proof cases
    case 1
    with Other show ?thesis unfolding utf8_encode_other [OF Other(2,3)] by simp
  next
    case 2
    define a where "a = u div 64"
    have "a * 64 + r = u" by (simp add: a_def r_def)
    moreover have "2 \<le> a" "a < 32" using 2 by (auto simp: a_def)
    ultimately show ?thesis
      using 2 small(3) Other(5)
      unfolding utf8_encode_other [OF Other(2,3)] a_def [symmetric] r_def [symmetric] by (simp add: between_def)
  next
    case 3
    have "p = 0 \<Longrightarrow> 32 \<le> q" using sum small 3 by linarith
    moreover have "p = 13 \<Longrightarrow> q \<le> 31"
      using sum small Other(2,3) unfolding high_surrogate_def low_surrogate_def by linarith
    ultimately show ?thesis
      using 3 small sum Other(5)
      unfolding utf8_encode_other [OF Other(2,3)] p_def [symmetric] q_def [symmetric] r_def [symmetric]
      by (simp add: between_def second_ok_def)
  qed
qed simp


text \<open>Reading back an escaped text.\<close>

lemma unit_hex_hex: "n < 16 \<Longrightarrow> unit_hex (hex_unit n) = Some n"
  by (auto simp: unit_hex_def hex_unit_def between_def)

lemma hex_split: "(u :: nat) < 32 \<Longrightarrow> u div 4096 * 4096 + u div 256 mod 16 * 256 + u div 16 mod 16 * 16 + u mod 16 = u"
  by simp

lemma parse_escape_unit:
  "parse_string (escape_unit u @ s) = map_option (\<lambda>(us, rest). (u # us, rest)) (parse_string s)"
proof (cases "u < 32 \<and> u \<notin> {8, 9, 10, 12, 13}")
  case True
  then have "u div 4096 = 0" "u div 256 = 0" "u div 16 < 16" "u mod 16 < 16" by auto
  with True show ?thesis
    by (simp add: escape_unit_def unicode_escape_def unit_hex_hex)
next
  case False
  then show ?thesis by (auto simp: escape_unit_def simple_escape_def)
qed

lemma parse_json_escape: "well_formed us \<Longrightarrow> parse_string (json_escape us @ 34 # s) = Some (us, s)"
proof (induction us rule: well_formed_induct)
  case (Pair u v vs)
  then show ?case by (simp add: high_surrogate_def low_surrogate_def)
next
  case (Other u us)
  then show ?case by (simp add: parse_escape_unit)
qed simp

lemma well_formed_append: "well_formed us \<Longrightarrow> well_formed vs \<Longrightarrow> well_formed (us @ vs)"
  by (induction us rule: well_formed_induct) simp_all

lemma well_formed_plain: "list_all (\<lambda>u. u < 0xD800) us \<Longrightarrow> well_formed us"
  by (induction us) (auto simp: high_surrogate_def low_surrogate_def)

lemma hex_unit_less: "n < 16 \<Longrightarrow> hex_unit n < 128"
  by (simp add: hex_unit_def)

lemma well_formed_escape_unit:
  assumes "u < 0x10000" "\<not> high_surrogate u" "\<not> low_surrogate u"
  shows "well_formed (escape_unit u)"
  using assms
  by (auto simp: escape_unit_def unicode_escape_def hex_unit_def high_surrogate_def low_surrogate_def)

lemma well_formed_escape: "well_formed us \<Longrightarrow> well_formed (json_escape us)"
proof (induction us rule: well_formed_induct)
  case (Pair u v vs)
  then show ?case by (simp add: high_surrogate_def low_surrogate_def)
next
  case (Other u us)
  then show ?case by (simp add: well_formed_append well_formed_escape_unit)
qed simp

lemma skip_ws_Cons [simp]: "skip_ws (u # s) = (if u \<in> {32, 9, 10, 13} then skip_ws s else u # s)"
  by (simp add: skip_ws_def)

lemma expect_Cons: "u \<notin> {32, 9, 10, 13} \<Longrightarrow> expect c (u # s) = (if u = c then Some s else None)"
  by (auto simp: expect_def)

text \<open>Members that are texts are read back one by one.\<close>

lemma parse_one_member:
  assumes "well_formed k" and "well_formed v"
  shows "parse_members (Suc (Suc n)) (json_member (k, v) @ s) =
    (case expect 44 s of
       Some t \<Rightarrow> map_option (\<lambda>(ms, u). ((k, J_string v) # ms, u)) (parse_members (Suc n) t)
     | None \<Rightarrow> map_option (\<lambda>t. ([(k, J_string v)], t)) (expect 125 s))"
  using assms by (simp add: json_member_def expect_Cons parse_json_escape)

lemma parse_joined:
  assumes "ps \<noteq> []" and "\<And>k v. (k, v) \<in> set ps \<Longrightarrow> well_formed k \<and> well_formed v" and "length ps < n"
  shows "parse_members n (json_join (map json_member ps) @ 125 # s) = Some (map (\<lambda>(k, v). (k, J_string v)) ps, s)"
  using assms
proof (induction ps arbitrary: n)
  case (Cons p ps)
  obtain k v where p: "p = (k, v)" by fastforce
  have ok: "well_formed k" "well_formed v" using Cons.prems(2) p by auto
  obtain m where n: "n = Suc (Suc m)" using Cons.prems(3) by (cases n; cases "n - 1") auto
  show ?case
  proof (cases ps)
    case Nil
    show ?thesis unfolding p n Nil by (simp add: parse_one_member [OF ok] expect_Cons del: parse_members.simps)
  next
    case (Cons q qs)
    have IH: "parse_members (Suc m) (json_join (map json_member ps) @ 125 # s) = Some (map (\<lambda>(k, v). (k, J_string v)) ps, s)"
      by (rule Cons.IH) (use Cons.prems Cons n in auto)
    then show ?thesis
      unfolding p n Cons list.map json_join.simps append_assoc append_Cons
      by (simp add: parse_one_member [OF ok] expect_Cons Cons del: parse_members.simps)
  qed
qed simp

lemma length_json_join: "length ps \<le> length (json_join (map json_member ps))"
proof (induction ps)
  case (Cons p ps)
  then show ?case by (cases ps) (simp_all add: json_member_def)
qed simp

lemma json_round_trip:
  assumes "ps \<noteq> []" and "\<And>k v. (k, v) \<in> set ps \<Longrightarrow> well_formed k \<and> well_formed v"
  shows "json_parse (json_stringify ps) = Some (J_object (map (\<lambda>(k, v). (k, J_string v)) ps))"
proof -
  let ?body = "json_join (map json_member ps)"
  obtain u t where body: "?body = 34 # t"
    using assms(1) by (cases ps; cases "tl ps") (auto simp: json_member_def)
  have "parse_members (Suc (Suc (length ?body))) (?body @ [125]) = Some (map (\<lambda>(k, v). (k, J_string v)) ps, [])"
    by (rule parse_joined [OF assms]) (assumption, rule less_SucI, rule le_imp_less_Suc, rule length_json_join)
  moreover have "expect 125 (?body @ [125]) = None" unfolding body append_Cons by (simp add: expect_Cons)
  ultimately show ?thesis by (simp add: json_parse_def json_stringify_def skip_ws_def [of "[]"] del: parse_members.simps)
qed

lemma well_formed_member:
  assumes "well_formed (fst p)" and "well_formed (snd p)"
  shows "well_formed (json_member p)"
proof -
  have "well_formed [34]" "well_formed [34, 58, 34]" by (rule well_formed_plain, simp)+
  moreover note well_formed_escape [OF assms(1)] well_formed_escape [OF assms(2)]
  ultimately have "well_formed ([34] @ json_escape (fst p) @ [34, 58, 34] @ json_escape (snd p) @ [34])"
    by (intro well_formed_append)
  then show ?thesis by (simp add: json_member_def)
qed

lemma well_formed_join: "(\<And>m. m \<in> set ms \<Longrightarrow> well_formed m) \<Longrightarrow> well_formed (json_join ms)"
proof (induction ms rule: json_join.induct)
  case (3 m n ms)
  have "well_formed (m @ [44] @ json_join (n # ms))"
  proof (intro well_formed_append)
    show "well_formed [44]" by (rule well_formed_plain) simp
    show "well_formed m" "well_formed (json_join (n # ms))" using 3 by auto
  qed
  then show ?case by simp
qed simp_all

lemma well_formed_stringify:
  assumes "\<And>k v. (k, v) \<in> set ps \<Longrightarrow> well_formed k \<and> well_formed v"
  shows "well_formed (json_stringify ps)"
proof -
  have "well_formed (json_join (map json_member ps))"
    by (rule well_formed_join) (use assms well_formed_member in fastforce)
  then have "well_formed ([123] @ json_join (map json_member ps) @ [125])"
  proof (intro well_formed_append)
    show "well_formed [123]" "well_formed [125]" by (rule well_formed_plain, simp)+
  qed
  then show ?thesis by (simp add: json_stringify_def)
qed

text \<open>A payload of well-formed texts survives the three layers.\<close>

lemma payload_round_trip:
  assumes "ps \<noteq> []" and "\<And>k v. (k, v) \<in> set ps \<Longrightarrow> well_formed k \<and> well_formed v"
  shows "decodePayload lenient (encodePayload ps) = Inr (map (\<lambda>(k, v). (k, J_string v)) ps)"
proof -
  note wf = well_formed_stringify [OF assms(2)]
  have "from_base64url lenient (encodePayload ps) = utf8_encode (json_stringify ps)"
    unfolding encodePayload_def by (rule from_to_base64url) (use utf8_encode_bytes [OF wf] in blast)
  then show ?thesis using utf8_round_trip [OF wf] json_round_trip [OF assms] by (simp add: decodePayload_def)
qed

section \<open>The codecs\<close>

record DateIdCursor =
  di_d :: units
  di_i :: units

definition encodeDateIdCursor :: "units \<Rightarrow> units \<Rightarrow> units" where
  "encodeDateIdCursor d k = encodePayload [(units_of ''d'', d), (units_of ''i'', k)]"

definition decodeDateIdCursor :: "(units \<Rightarrow> nat list) \<Rightarrow> units \<Rightarrow> DateIdCursor result" where
  "decodeDateIdCursor lenient cursor =
     res_bind (decodePayload lenient cursor) (\<lambda>parsed.
     case (text_member ''d'' parsed, text_member ''i'' parsed) of
       (Some d, Some k) \<Rightarrow> Inr \<lparr>di_d = d, di_i = k\<rparr>
     | _ \<Rightarrow> Inl invalid_cursor)"

definition buildDateIdNextCursor :: "bool \<Rightarrow> (units \<times> units) option \<Rightarrow> units option" where
  "buildDateIdNextCursor hasNext last_row =
     (case last_row of
        None \<Rightarrow> None
      | Some (date, k) \<Rightarrow> if hasNext then Some (encodeDateIdCursor date k) else None)"

record NameIdCursor =
  ni_n :: units
  ni_i :: units

definition encodeNameIdCursor :: "units \<Rightarrow> units \<Rightarrow> units" where
  "encodeNameIdCursor name k = encodePayload [(units_of ''n'', name), (units_of ''i'', k)]"

definition decodeNameIdCursor :: "(units \<Rightarrow> nat list) \<Rightarrow> units \<Rightarrow> NameIdCursor result" where
  "decodeNameIdCursor lenient cursor =
     res_bind (decodePayload lenient cursor) (\<lambda>parsed.
     case (text_member ''n'' parsed, text_member ''i'' parsed) of
       (Some n, Some k) \<Rightarrow> Inr \<lparr>ni_n = n, ni_i = k\<rparr>
     | _ \<Rightarrow> Inl invalid_cursor)"

definition buildNameIdNextCursor :: "bool \<Rightarrow> (units \<times> units) option \<Rightarrow> units option" where
  "buildNameIdNextCursor hasNext last_row =
     (case last_row of
        None \<Rightarrow> None
      | Some (name, k) \<Rightarrow> if hasNext then Some (encodeNameIdCursor name k) else None)"

record CodeIdCursor =
  ci_c :: units
  ci_i :: units

definition encodeCodeIdCursor :: "units \<Rightarrow> units \<Rightarrow> units" where
  "encodeCodeIdCursor code k = encodePayload [(units_of ''c'', code), (units_of ''i'', k)]"

definition decodeCodeIdCursor :: "(units \<Rightarrow> nat list) \<Rightarrow> units \<Rightarrow> CodeIdCursor result" where
  "decodeCodeIdCursor lenient cursor =
     res_bind (decodePayload lenient cursor) (\<lambda>parsed.
     case (text_member ''c'' parsed, text_member ''i'' parsed) of
       (Some c, Some k) \<Rightarrow> Inr \<lparr>ci_c = c, ci_i = k\<rparr>
     | _ \<Rightarrow> Inl invalid_cursor)"

definition buildCodeIdNextCursor :: "bool \<Rightarrow> (units \<times> units) option \<Rightarrow> units option" where
  "buildCodeIdNextCursor hasNext last_row =
     (case last_row of
        None \<Rightarrow> None
      | Some (code, k) \<Rightarrow> if hasNext then Some (encodeCodeIdCursor code k) else None)"

text \<open>
  A number read from a cursor: a safe integer, any other finite number (by its text), or a
  value that is not finite. \<open>Number(s)\<close> is written out on decimal digits with an optional
  minus, below \<open>2 ^ 53\<close>, which is what \<open>String\<close> prints of a safe integer; on any other text
  it is the argument \<open>number\<close>.
\<close>

datatype js_number = Num_int int | Num_fraction units | Num_not_finite

definition unit_digits :: "units \<Rightarrow> int" where
  "unit_digits s = foldl (\<lambda>n u. n * 10 + (int u - 48)) 0 s"

definition to_number :: "(units \<Rightarrow> js_number) \<Rightarrow> units \<Rightarrow> js_number" where
  "to_number number s =
     (let neg = s \<noteq> [] \<and> hd s = 45; ds = (if neg then tl s else s); v = unit_digits ds
      in if ds \<noteq> [] \<and> list_all is_digit_unit ds \<and> v < 9007199254740992
         then Num_int (if neg then - v else v) else number s)"

record SortNameIdCursor =
  sn_s :: js_number
  sn_n :: units
  sn_i :: units

definition encodeSortNameIdCursor :: "int \<Rightarrow> units \<Rightarrow> units \<Rightarrow> units" where
  "encodeSortNameIdCursor sortOrder name k =
     encodePayload [(units_of ''s'', units_of (show_int sortOrder)), (units_of ''n'', name), (units_of ''i'', k)]"

definition decodeSortNameIdCursor ::
  "(units \<Rightarrow> nat list) \<Rightarrow> (units \<Rightarrow> js_number) \<Rightarrow> units \<Rightarrow> SortNameIdCursor result" where
  "decodeSortNameIdCursor lenient number cursor =
     res_bind (decodePayload lenient cursor) (\<lambda>parsed.
     let sortOrder = (case text_member ''s'' parsed of Some t \<Rightarrow> to_number number t | None \<Rightarrow> Num_not_finite)
     in if sortOrder = Num_not_finite then Inl invalid_cursor
        else case (text_member ''n'' parsed, text_member ''i'' parsed) of
            (Some n, Some k) \<Rightarrow> Inr \<lparr>sn_s = sortOrder, sn_n = n, sn_i = k\<rparr>
          | _ \<Rightarrow> Inl invalid_cursor)"

definition buildSortNameIdNextCursor :: "bool \<Rightarrow> (int \<times> units \<times> units) option \<Rightarrow> units option" where
  "buildSortNameIdNextCursor hasNext last_row =
     (case last_row of
        None \<Rightarrow> None
      | Some (sortOrder, name, k) \<Rightarrow> if hasNext then Some (encodeSortNameIdCursor sortOrder name k) else None)"

record ActiveNameIdCursor =
  an_a :: bool
  an_n :: units
  an_i :: units

definition encodeActiveNameIdCursor :: "bool \<Rightarrow> units \<Rightarrow> units \<Rightarrow> units" where
  "encodeActiveNameIdCursor isActive name k =
     encodePayload [(units_of ''a'', units_of (if isActive then ''1'' else ''0'')), (units_of ''n'', name), (units_of ''i'', k)]"

definition decodeActiveNameIdCursor :: "(units \<Rightarrow> nat list) \<Rightarrow> units \<Rightarrow> ActiveNameIdCursor result" where
  "decodeActiveNameIdCursor lenient cursor =
     res_bind (decodePayload lenient cursor) (\<lambda>parsed.
     case (text_member ''a'' parsed, text_member ''n'' parsed, text_member ''i'' parsed) of
       (Some a, Some n, Some k) \<Rightarrow>
         if a \<noteq> units_of ''0'' \<and> a \<noteq> units_of ''1'' then Inl invalid_cursor
         else Inr \<lparr>an_a = (a = units_of ''1''), an_n = n, an_i = k\<rparr>
     | _ \<Rightarrow> Inl invalid_cursor)"

definition buildActiveNameIdNextCursor :: "bool \<Rightarrow> (bool \<times> units \<times> units) option \<Rightarrow> units option" where
  "buildActiveNameIdNextCursor hasNext last_row =
     (case last_row of
        None \<Rightarrow> None
      | Some (isActive, name, k) \<Rightarrow> if hasNext then Some (encodeActiveNameIdCursor isActive name k) else None)"

record CategoryRankNameIdCursor =
  cr_r :: int
  cr_n :: units
  cr_i :: units

definition encodeCategoryRankNameIdCursor :: "int \<Rightarrow> units \<Rightarrow> units \<Rightarrow> units" where
  "encodeCategoryRankNameIdCursor rank name k =
     encodePayload [(units_of ''r'', units_of (show_int rank)), (units_of ''n'', name), (units_of ''i'', k)]"

definition decodeCategoryRankNameIdCursor ::
  "(units \<Rightarrow> nat list) \<Rightarrow> (units \<Rightarrow> js_number) \<Rightarrow> units \<Rightarrow> CategoryRankNameIdCursor result" where
  "decodeCategoryRankNameIdCursor lenient number cursor =
     res_bind (decodePayload lenient cursor) (\<lambda>parsed.
     case (text_member ''r'' parsed, text_member ''n'' parsed, text_member ''i'' parsed) of
       (Some r, Some n, Some k) \<Rightarrow>
         (case to_number number r of
            Num_int rank \<Rightarrow> Inr \<lparr>cr_r = rank, cr_n = n, cr_i = k\<rparr>
          | _ \<Rightarrow> Inl invalid_cursor)
     | _ \<Rightarrow> Inl invalid_cursor)"

definition buildCategoryRankNameIdNextCursor :: "bool \<Rightarrow> (int \<times> units \<times> units) option \<Rightarrow> units option" where
  "buildCategoryRankNameIdNextCursor hasNext last_row =
     (case last_row of
        None \<Rightarrow> None
      | Some (rank, name, k) \<Rightarrow> if hasNext then Some (encodeCategoryRankNameIdCursor rank name k) else None)"

definition encodeAuditCursor :: "units \<Rightarrow> units \<Rightarrow> units" where
  "encodeAuditCursor d k = encodePayload [(units_of ''d'', d), (units_of ''i'', k)]"

definition decodeAuditCursor :: "(units \<Rightarrow> nat list) \<Rightarrow> units \<Rightarrow> DateIdCursor result" where
  "decodeAuditCursor lenient cursor =
     res_bind (decodePayload lenient cursor) (\<lambda>parsed.
     case (text_member ''d'' parsed, text_member ''i'' parsed) of
       (Some d, Some k) \<Rightarrow> Inr \<lparr>di_d = d, di_i = k\<rparr>
     | _ \<Rightarrow> Inl invalid_cursor)"

section \<open>Cursors come back\<close>

text \<open>The contract of a codec: what is encoded is what a later request decodes.\<close>

locale cursor_codec =
  fixes encode :: "'k \<Rightarrow> units"
    and decode :: "units \<Rightarrow> 'k result"
    and valid :: "'k \<Rightarrow> bool"
  assumes decode_encode: "valid k \<Longrightarrow> decode (encode k) = Inr k"
begin

lemma encode_inject: "valid k \<Longrightarrow> valid l \<Longrightarrow> encode k = encode l \<Longrightarrow> k = l"
  by (metis decode_encode sum.inject(2))

end

lemma units_of_well_formed [simp]: "well_formed (units_of s)"
proof (rule well_formed_plain)
  have "nat (char_code c) < 0xD800" for c by (cases c) (simp add: char_code_bits)
  then show "list_all (\<lambda>u. u < 0xD800) (units_of s)" by (simp add: units_of_def list_all_iff)
qed

lemma units_of_inject [simp]: "units_of s = units_of t \<longleftrightarrow> s = t"
proof -
  have "0 \<le> char_code c" for c by (cases c) (simp add: char_code_bits)
  then have "inj (\<lambda>c. nat (char_code c))" by (auto intro!: injI simp: eq_nat_nat_iff)
  then show ?thesis by (simp add: units_of_def inj_map_eq_map)
qed

text \<open>The members of the payloads that the codecs write.\<close>

lemma members_round_trip:
  assumes "ps \<noteq> []" and "list_all (\<lambda>(k, v). well_formed v) ps" and "distinct (map fst ps)"
  defines "payload \<equiv> map (\<lambda>(k, v). (units_of k, v)) ps"
  shows "\<exists>members. decodePayload lenient (encodePayload payload) = Inr members
    \<and> (\<forall>k v. map_of ps k = Some v \<longrightarrow> text_member k members = Some v)"
proof (intro exI conjI allI impI)
  let ?members = "map (\<lambda>(k, v). (k, J_string v)) payload"
  show "decodePayload lenient (encodePayload payload) = Inr ?members"
    using assms(1,2) by (intro payload_round_trip) (auto simp: payload_def list_all_iff)
  fix k v
  assume "map_of ps k = Some v"
  then have "(units_of k, J_string v) \<in> set (rev ?members)"
    by (force simp: payload_def dest: map_of_SomeD)
  moreover have "distinct (map fst (rev ?members))"
  proof -
    have "map fst (rev ?members) = rev (map units_of (map fst ps))"
      by (simp add: payload_def rev_map case_prod_beta comp_def)
    then show ?thesis using assms(3) by (simp add: distinct_map inj_on_def)
  qed
  ultimately show "text_member k ?members = Some v" by (simp add: text_member_def)
qed

interpretation date_codec: cursor_codec "\<lambda>k. encodeDateIdCursor (di_d k) (di_i k)" "decodeDateIdCursor lenient"
    "\<lambda>k. well_formed (di_d k) \<and> well_formed (di_i k)" for lenient
proof unfold_locales
  fix k :: DateIdCursor
  assume "well_formed (di_d k) \<and> well_formed (di_i k)"
  then show "decodeDateIdCursor lenient (encodeDateIdCursor (di_d k) (di_i k)) = Inr k"
    using members_round_trip [of "[(''d'', di_d k), (''i'', di_i k)]" lenient]
    by (auto simp: encodeDateIdCursor_def decodeDateIdCursor_def)
qed

interpretation name_codec: cursor_codec "\<lambda>k. encodeNameIdCursor (ni_n k) (ni_i k)" "decodeNameIdCursor lenient"
    "\<lambda>k. well_formed (ni_n k) \<and> well_formed (ni_i k)" for lenient
proof unfold_locales
  fix k :: NameIdCursor
  assume "well_formed (ni_n k) \<and> well_formed (ni_i k)"
  then show "decodeNameIdCursor lenient (encodeNameIdCursor (ni_n k) (ni_i k)) = Inr k"
    using members_round_trip [of "[(''n'', ni_n k), (''i'', ni_i k)]" lenient]
    by (auto simp: encodeNameIdCursor_def decodeNameIdCursor_def)
qed

interpretation code_codec: cursor_codec "\<lambda>k. encodeCodeIdCursor (ci_c k) (ci_i k)" "decodeCodeIdCursor lenient"
    "\<lambda>k. well_formed (ci_c k) \<and> well_formed (ci_i k)" for lenient
proof unfold_locales
  fix k :: CodeIdCursor
  assume "well_formed (ci_c k) \<and> well_formed (ci_i k)"
  then show "decodeCodeIdCursor lenient (encodeCodeIdCursor (ci_c k) (ci_i k)) = Inr k"
    using members_round_trip [of "[(''c'', ci_c k), (''i'', ci_i k)]" lenient]
    by (auto simp: encodeCodeIdCursor_def decodeCodeIdCursor_def)
qed

text \<open>\<open>Number(String(n))\<close> is \<open>n\<close> for a safe integer.\<close>

lemma unit_digits_text: "unit_digits (units_of s) = parse_digits s"
proof -
  have "int (nat (char_code c)) = char_code c" for c by (cases c) (simp add: char_code_bits)
  then show ?thesis by (simp add: unit_digits_def units_of_def parse_digits_def foldl_map digit_val_def)
qed

lemma digits_units: "list_all is_digit s \<Longrightarrow> list_all is_digit_unit (units_of s)"
  by (auto simp: list_all_iff units_of_def is_digit_def is_digit_unit_def between_def)

lemma units_of_Cons: "units_of (c # s) = nat (char_code c) # units_of s"
  by (simp add: units_of_def)

lemma minus_unit [simp]: "nat (char_code CHR ''-'') = 45"
  by (simp add: char_code_bits)

lemma show_pos_hd: "0 \<le> n \<Longrightarrow> units_of (show_pos n) \<noteq> [] \<and> hd (units_of (show_pos n)) \<noteq> 45"
  using digits_units [OF show_pos_digits [of n]] show_pos_nonempty [of n]
  by (cases "show_pos n") (auto simp: units_of_def is_digit_unit_def between_def)

lemma to_number_show_int:
  assumes "abs n < 9007199254740992"
  shows "to_number number (units_of (show_int n)) = Num_int n"
proof (cases "n < 0")
  case True
  then have p: "0 \<le> - n" by simp
  show ?thesis
    using True assms digits_units [OF show_pos_digits [OF p]] show_pos_hd [OF p] parse_show_pos [OF p]
    by (simp add: to_number_def show_int_def units_of_Cons Let_def unit_digits_text)
next
  case False
  then have p: "0 \<le> n" by simp
  show ?thesis
    using False assms digits_units [OF show_pos_digits [OF p]] show_pos_hd [OF p] parse_show_pos [OF p]
    by (simp add: to_number_def show_int_def Let_def unit_digits_text)
qed

interpretation sort_codec: cursor_codec
    "\<lambda>k. encodeSortNameIdCursor (case sn_s k of Num_int n \<Rightarrow> n | _ \<Rightarrow> 0) (sn_n k) (sn_i k)"
    "decodeSortNameIdCursor lenient number"
    "\<lambda>k. (\<exists>n. sn_s k = Num_int n \<and> abs n < 9007199254740992) \<and> well_formed (sn_n k) \<and> well_formed (sn_i k)"
    for lenient number
proof unfold_locales
  fix k :: SortNameIdCursor
  assume k: "(\<exists>n. sn_s k = Num_int n \<and> abs n < 9007199254740992) \<and> well_formed (sn_n k) \<and> well_formed (sn_i k)"
  then obtain n where n: "sn_s k = Num_int n" "abs n < 9007199254740992" by blast
  show "decodeSortNameIdCursor lenient number
      (encodeSortNameIdCursor (case sn_s k of Num_int n \<Rightarrow> n | _ \<Rightarrow> 0) (sn_n k) (sn_i k)) = Inr k"
    using k n members_round_trip
      [of "[(''s'', units_of (show_int n)), (''n'', sn_n k), (''i'', sn_i k)]" lenient]
    by (auto simp: encodeSortNameIdCursor_def decodeSortNameIdCursor_def to_number_show_int)
qed

interpretation rank_codec: cursor_codec "\<lambda>k. encodeCategoryRankNameIdCursor (cr_r k) (cr_n k) (cr_i k)"
    "decodeCategoryRankNameIdCursor lenient number"
    "\<lambda>k. abs (cr_r k) < 9007199254740992 \<and> well_formed (cr_n k) \<and> well_formed (cr_i k)" for lenient number
proof unfold_locales
  fix k :: CategoryRankNameIdCursor
  assume "abs (cr_r k) < 9007199254740992 \<and> well_formed (cr_n k) \<and> well_formed (cr_i k)"
  then show "decodeCategoryRankNameIdCursor lenient number
      (encodeCategoryRankNameIdCursor (cr_r k) (cr_n k) (cr_i k)) = Inr k"
    using members_round_trip
      [of "[(''r'', units_of (show_int (cr_r k))), (''n'', cr_n k), (''i'', cr_i k)]" lenient]
    by (auto simp: encodeCategoryRankNameIdCursor_def decodeCategoryRankNameIdCursor_def to_number_show_int)
qed

interpretation active_codec: cursor_codec "\<lambda>k. encodeActiveNameIdCursor (an_a k) (an_n k) (an_i k)"
    "decodeActiveNameIdCursor lenient" "\<lambda>k. well_formed (an_n k) \<and> well_formed (an_i k)" for lenient
proof unfold_locales
  fix k :: ActiveNameIdCursor
  assume "well_formed (an_n k) \<and> well_formed (an_i k)"
  then show "decodeActiveNameIdCursor lenient (encodeActiveNameIdCursor (an_a k) (an_n k) (an_i k)) = Inr k"
    using members_round_trip
      [of "[(''a'', units_of (if an_a k then ''1'' else ''0'')), (''n'', an_n k), (''i'', an_i k)]" lenient]
    by (auto simp: encodeActiveNameIdCursor_def decodeActiveNameIdCursor_def)
qed

interpretation audit_codec: cursor_codec "\<lambda>k. encodeAuditCursor (di_d k) (di_i k)" "decodeAuditCursor lenient"
    "\<lambda>k. well_formed (di_d k) \<and> well_formed (di_i k)" for lenient
  using date_codec.decode_encode
  by unfold_locales
    (simp add: encodeAuditCursor_def decodeAuditCursor_def encodeDateIdCursor_def decodeDateIdCursor_def)

text \<open>
  C35. Every keyset cursor that the listings hand out is read back as the row it was made
  from: for any well-formed texts (accents, quotes, line breaks and characters outside the
  basic plane included), and for a sort order or rank that is a safe integer, the payload
  survives \<open>JSON.stringify\<close>, UTF-8 and base64url in all seven codecs, and \<open>next\<close> cursors are
  given exactly when there is a next page.
\<close>

theorem cursor_round_trip:
  assumes "well_formed x" and "well_formed k" and "abs n < 9007199254740992"
  shows "decodeDateIdCursor lenient (encodeDateIdCursor x k) = Inr \<lparr>di_d = x, di_i = k\<rparr>
    \<and> decodeNameIdCursor lenient (encodeNameIdCursor x k) = Inr \<lparr>ni_n = x, ni_i = k\<rparr>
    \<and> decodeCodeIdCursor lenient (encodeCodeIdCursor x k) = Inr \<lparr>ci_c = x, ci_i = k\<rparr>
    \<and> decodeSortNameIdCursor lenient number (encodeSortNameIdCursor n x k) = Inr \<lparr>sn_s = Num_int n, sn_n = x, sn_i = k\<rparr>
    \<and> decodeActiveNameIdCursor lenient (encodeActiveNameIdCursor active x k) = Inr \<lparr>an_a = active, an_n = x, an_i = k\<rparr>
    \<and> decodeCategoryRankNameIdCursor lenient number (encodeCategoryRankNameIdCursor n x k)
        = Inr \<lparr>cr_r = n, cr_n = x, cr_i = k\<rparr>
    \<and> decodeAuditCursor lenient (encodeAuditCursor x k) = Inr \<lparr>di_d = x, di_i = k\<rparr>
    \<and> map_option (decodeDateIdCursor lenient) (buildDateIdNextCursor hasNext (Some (x, k)))
        = (if hasNext then Some (Inr \<lparr>di_d = x, di_i = k\<rparr>) else None)
    \<and> map_option (decodeNameIdCursor lenient) (buildNameIdNextCursor hasNext (Some (x, k)))
        = (if hasNext then Some (Inr \<lparr>ni_n = x, ni_i = k\<rparr>) else None)
    \<and> map_option (decodeCodeIdCursor lenient) (buildCodeIdNextCursor hasNext (Some (x, k)))
        = (if hasNext then Some (Inr \<lparr>ci_c = x, ci_i = k\<rparr>) else None)
    \<and> map_option (decodeSortNameIdCursor lenient number) (buildSortNameIdNextCursor hasNext (Some (n, x, k)))
        = (if hasNext then Some (Inr \<lparr>sn_s = Num_int n, sn_n = x, sn_i = k\<rparr>) else None)
    \<and> map_option (decodeActiveNameIdCursor lenient) (buildActiveNameIdNextCursor hasNext (Some (active, x, k)))
        = (if hasNext then Some (Inr \<lparr>an_a = active, an_n = x, an_i = k\<rparr>) else None)
    \<and> map_option (decodeCategoryRankNameIdCursor lenient number) (buildCategoryRankNameIdNextCursor hasNext (Some (n, x, k)))
        = (if hasNext then Some (Inr \<lparr>cr_r = n, cr_n = x, cr_i = k\<rparr>) else None)"
  using assms date_codec.decode_encode [of "\<lparr>di_d = x, di_i = k\<rparr>" lenient]
    name_codec.decode_encode [of "\<lparr>ni_n = x, ni_i = k\<rparr>" lenient]
    code_codec.decode_encode [of "\<lparr>ci_c = x, ci_i = k\<rparr>" lenient]
    sort_codec.decode_encode [of "\<lparr>sn_s = Num_int n, sn_n = x, sn_i = k\<rparr>" lenient number]
    active_codec.decode_encode [of "\<lparr>an_a = active, an_n = x, an_i = k\<rparr>" lenient]
    rank_codec.decode_encode [of "\<lparr>cr_r = n, cr_n = x, cr_i = k\<rparr>" lenient number]
    audit_codec.decode_encode [of "\<lparr>di_d = x, di_i = k\<rparr>" lenient]
  by (simp add: buildDateIdNextCursor_def buildNameIdNextCursor_def buildCodeIdNextCursor_def
      buildSortNameIdNextCursor_def buildActiveNameIdNextCursor_def buildCategoryRankNameIdNextCursor_def)

text \<open>A name with an accent, a quotation mark and a pair of surrogates.\<close>

theorem cursor_round_trip_witness:
  "decodeNameIdCursor (\<lambda>s. []) (encodeNameIdCursor [0xF1, 34, 0xD83D, 0xDE00] (units_of ''k1''))
    = Inr \<lparr>ni_n = [0xF1, 34, 0xD83D, 0xDE00], ni_i = units_of ''k1''\<rparr>
    \<and> encodeNameIdCursor [0xF1] (units_of ''7'') = units_of ''eyJuIjoiw7EiLCJpIjoiNyJ9''"
proof
  have "well_formed [0xF1, 34, 0xD83D, 0xDE00]" "well_formed (units_of ''k1'')"
    by (simp_all add: high_surrogate_def low_surrogate_def)
  moreover have "abs (- 7) < (9007199254740992 :: int)" by simp
  ultimately have rt: "well_formed [0xF1, 34, 0xD83D, 0xDE00]" "well_formed (units_of ''k1'')"
    "abs (- 7) < (9007199254740992 :: int)" by blast+
  from cursor_round_trip [OF rt, of "\<lambda>s. []" "\<lambda>s. Num_not_finite" True]
  show "decodeNameIdCursor (\<lambda>s. []) (encodeNameIdCursor [0xF1, 34, 0xD83D, 0xDE00] (units_of ''k1''))
    = Inr \<lparr>ni_n = [0xF1, 34, 0xD83D, 0xDE00], ni_i = units_of ''k1''\<rparr>" by blast
  have "json_stringify [(units_of ''n'', [0xF1]), (units_of ''i'', units_of ''7'')]
      = [123, 34, 110, 34, 58, 34, 0xF1, 34, 44, 34, 105, 34, 58, 34, 55, 34, 125]"
    by (simp add: json_stringify_def json_member_def escape_unit_def units_of_def char_code_bits
        high_surrogate_def low_surrogate_def)
  moreover have "utf8_encode [123, 34, 110, 34, 58, 34, 0xF1, 34, 44, 34, 105, 34, 58, 34, 55, 34, 125]
      = [123, 34, 110, 34, 58, 34, 0xC3, 0xB1, 34, 44, 34, 105, 34, 58, 34, 55, 34, 125]"
    by (simp add: high_surrogate_def low_surrogate_def)
  moreover have "to_base64url [123, 34, 110, 34, 58, 34, 0xC3, 0xB1, 34, 44, 34, 105, 34, 58, 34, 55, 34, 125]
      = units_of ''eyJuIjoiw7EiLCJpIjoiNyJ9''"
    by (simp add: to_base64url_def sextet_unit_def units_of_def char_code_bits)
  ultimately show "encodeNameIdCursor [0xF1] (units_of ''7'') = units_of ''eyJuIjoiw7EiLCJpIjoiNyJ9''"
    by (simp add: encodeNameIdCursor_def encodePayload_def)
qed

end
