(* ===== verification/AuditQuery.thy ===== *)
theory AuditQuery
  imports AuditTrail CursorCodec CivilDate "HOL-Library.List_Lexorder"
begin

text \<open>
  Reading the audit trail page by page (\<open>audit-query.service.ts\<close>, with the filter of
  \<open>helpers/audit-export.helper.ts\<close> and the audit cursor of \<open>cursor-codec.ts\<close>).
  Time stamps of the table are microseconds since 1970; the driver hands them out as a
  \<open>Date\<close>, whole milliseconds. How PostgreSQL reads the time stamp of a cursor back
  (\<open>timestamptz\<close>) and how Node decodes a text outside the base64url alphabet (\<open>lenient\<close>)
  are arguments. Actors, responses and the CSV export are in \<open>AuditExport\<close>.
\<close>

section \<open>Dates\<close>

text \<open>\<open>date.toISOString()\<close> of the years 0 to 9999; the argument is in milliseconds.\<close>

definition iso_text :: "int \<Rightarrow> string" where
  "iso_text ms =
     (let day = ms div 86400000; rest = ms mod 86400000
      in fmt (civil_of_day day) @ CHR ''T'' # pad_num 2 (rest div 3600000) @ CHR '':'' # pad_num 2 (rest div 60000 mod 60)
         @ CHR '':'' # pad_num 2 (rest div 1000 mod 60) @ CHR ''.'' # pad_num 3 (rest mod 1000) @ ''Z'')"

section \<open>Queries\<close>

record QueryAuditLogsDto =
  qa_cursor :: "units option"
  qa_limit :: "nat option"
  qa_action :: "AuditAction option"
  qa_entityType :: "string option"
  qa_entityId :: "string option"
  qa_userId :: "string option"
  qa_fromDate :: "int option"
  qa_toDate :: "int option"

text \<open>\<open>fromDate\<close> and \<open>toDate\<close> as read by \<open>new Date\<close>, in milliseconds.\<close>

definition applyCreatedAtFilter :: "int option \<Rightarrow> int option \<Rightarrow> audit_row \<Rightarrow> bool" where
  "applyCreatedAtFilter fromDate toDate r =
     (case (fromDate, toDate) of
        (Some f, Some t) \<Rightarrow> f * 1000 \<le> au_createdAt r \<and> au_createdAt r \<le> t * 1000
      | (Some f, None) \<Rightarrow> f * 1000 \<le> au_createdAt r
      | (None, Some t) \<Rightarrow> au_createdAt r \<le> t * 1000
      | (None, None) \<Rightarrow> True)"

definition text_filter :: "string option \<Rightarrow> string option \<Rightarrow> bool" where
  "text_filter wanted actual = (filled wanted \<longrightarrow> actual = wanted)"

definition audit_matches :: "QueryAuditLogsDto \<Rightarrow> audit_row \<Rightarrow> bool" where
  "audit_matches dto r =
     ((case qa_action dto of None \<Rightarrow> True | Some a \<Rightarrow> au_action r = a)
      \<and> text_filter (qa_entityType dto) (Some (au_entityType r))
      \<and> text_filter (qa_entityId dto) (Some (au_entityId r))
      \<and> text_filter (qa_userId dto) (au_userId r)
      \<and> applyCreatedAtFilter (qa_fromDate dto) (qa_toDate dto) r)"

text \<open>\<open>ORDER BY created_at DESC, id DESC\<close>; identifiers are compared as their texts.\<close>

definition audit_key :: "audit_row \<Rightarrow> int \<times> units" where
  "audit_key r = (au_createdAt r, units_of (au_id r))"

definition key_le :: "int \<times> units \<Rightarrow> int \<times> units \<Rightarrow> bool" where
  "key_le k l = (fst k < fst l \<or> (fst k = fst l \<and> snd k \<le> snd l))"

definition newest_first :: "audit_row \<Rightarrow> audit_row \<Rightarrow> bool" where
  "newest_first r s = key_le (audit_key s) (audit_key r)"

text \<open>\<open>createdAt < :cursorDate OR (createdAt = :cursorDate AND id < :cursorId)\<close>.\<close>

definition after_cursor :: "int \<times> units \<Rightarrow> audit_row \<Rightarrow> bool" where
  "after_cursor c r = (au_createdAt r < fst c \<or> (au_createdAt r = fst c \<and> units_of (au_id r) < snd c))"

record audit_page =
  ap_data :: "audit_row list"
  ap_nextCursor :: "units option"
  ap_total :: nat

definition cursor_filter ::
  "(units \<Rightarrow> nat list) \<Rightarrow> (units \<Rightarrow> int result) \<Rightarrow> units option \<Rightarrow> (audit_row \<Rightarrow> bool) result" where
  "cursor_filter lenient timestamptz cursor =
     (case cursor of
        None \<Rightarrow> Inr (\<lambda>r. True)
      | Some c \<Rightarrow>
          if c = [] then Inr (\<lambda>r. True)
          else res_bind (decodeAuditCursor lenient c) (\<lambda>decoded.
               res_bind (timestamptz (di_d decoded)) (\<lambda>t. Inr (after_cursor (t, di_i decoded)))))"

definition audit_cursor :: "audit_row \<Rightarrow> units" where
  "audit_cursor r = encodeAuditCursor (units_of (iso_text (au_createdAt r div 1000))) (units_of (au_id r))"

definition audit_query ::
  "(units \<Rightarrow> nat list) \<Rightarrow> (units \<Rightarrow> int result) \<Rightarrow> QueryAuditLogsDto \<Rightarrow> audit_row list \<Rightarrow> audit_page result" where
  "audit_query lenient timestamptz dto rows =
     (let limit = (case qa_limit dto of None \<Rightarrow> 50 | Some l \<Rightarrow> l)
      in res_bind (cursor_filter lenient timestamptz (qa_cursor dto)) (\<lambda>after.
         let data = take (limit + 1) (js_sort newest_first (filter (\<lambda>r. audit_matches dto r \<and> after r) rows));
             total = length (filter (audit_matches dto) rows);
             hasNext = limit < length data;
             items = (if hasNext then take limit data else data);
             nextCursor = (if hasNext \<and> items \<noteq> [] then Some (audit_cursor (last items)) else None)
         in Inr \<lparr>ap_data = items, ap_nextCursor = nextCursor, ap_total = total\<rparr>))"

text \<open>
  A reader that follows \<open>nextCursor\<close> to the end; \<open>None\<close> when it has not ended after
  \<open>fuel\<close> pages.
\<close>

fun audit_walk ::
  "nat \<Rightarrow> (units \<Rightarrow> nat list) \<Rightarrow> (units \<Rightarrow> int result) \<Rightarrow> QueryAuditLogsDto \<Rightarrow> audit_row list \<Rightarrow>
    audit_row list result option" where
  "audit_walk 0 lenient timestamptz dto rows = None"
| "audit_walk (Suc fuel) lenient timestamptz dto rows =
     (case audit_query lenient timestamptz dto rows of
        Inl e \<Rightarrow> Some (Inl e)
      | Inr page \<Rightarrow>
          (case ap_nextCursor page of
             None \<Rightarrow> Some (Inr (ap_data page))
           | Some c \<Rightarrow>
               map_option (\<lambda>more. res_bind more (\<lambda>later. Inr (ap_data page @ later)))
                 (audit_walk fuel lenient timestamptz (dto\<lparr>qa_cursor := Some c\<rparr>) rows)))"

section \<open>Following the cursors\<close>

lemma decode_audit_cursor:
  "decodeAuditCursor lenient (audit_cursor r)
    = Inr \<lparr>di_d = units_of (iso_text (au_createdAt r div 1000)), di_i = units_of (au_id r)\<rparr>"
  using audit_codec.decode_encode [of "\<lparr>di_d = units_of (iso_text (au_createdAt r div 1000)), di_i = units_of (au_id r)\<rparr>"]
  by (simp add: audit_cursor_def)

lemma audit_cursor_nonempty: "audit_cursor r \<noteq> []"
proof
  assume "audit_cursor r = []"
  then have "decodeAuditCursor (\<lambda>s. []) [] \<noteq> Inl invalid_cursor" using decode_audit_cursor [of "\<lambda>s. []" r] by simp
  moreover have "decodeAuditCursor (\<lambda>s. []) [] = Inl invalid_cursor"
    by (simp add: decodeAuditCursor_def decodePayload_def from_base64url_def json_parse_def skip_ws_def)
  ultimately show False by simp
qed

definition reads_dates :: "(units \<Rightarrow> int result) \<Rightarrow> audit_row list \<Rightarrow> bool" where
  "reads_dates timestamptz rows \<longleftrightarrow> (\<forall>r \<in> set rows.
     timestamptz (units_of (iso_text (au_createdAt r div 1000))) = Inr (au_createdAt r div 1000 * 1000))"

lemma cursor_filter_row:
  assumes "reads_dates timestamptz rows" and "r \<in> set rows"
  shows "cursor_filter lenient timestamptz (Some (audit_cursor r))
    = Inr (after_cursor (au_createdAt r div 1000 * 1000, units_of (au_id r)))"
  using assms by (simp add: cursor_filter_def audit_cursor_nonempty decode_audit_cursor reads_dates_def)

interpretation audit_order: js_comparator newest_first
  by unfold_locales (auto simp: newest_first_def key_le_def)

definition audit_list :: "QueryAuditLogsDto \<Rightarrow> audit_row list \<Rightarrow> audit_row list" where
  "audit_list dto rows = js_sort newest_first (filter (audit_matches dto) rows)"

definition page_limit :: "QueryAuditLogsDto \<Rightarrow> nat" where
  "page_limit dto = (case qa_limit dto of None \<Rightarrow> 50 | Some l \<Rightarrow> l)"

lemma audit_query_eq:
  fixes rows :: "audit_row list"
  assumes "cursor_filter lenient timestamptz (qa_cursor dto) = Inr after" and "1 \<le> page_limit dto"
  defines "B \<equiv> filter after (audit_list dto rows)"
  shows "audit_query lenient timestamptz dto rows = Inr
    \<lparr>ap_data = take (page_limit dto) B,
     ap_nextCursor = (if page_limit dto < length B then Some (audit_cursor (last (take (page_limit dto) B))) else None),
     ap_total = length (audit_list dto rows)\<rparr>"
proof -
  let ?l = "page_limit dto"
  have "js_sort newest_first (filter (\<lambda>r. audit_matches dto r \<and> after r) rows) = B"
    unfolding B_def audit_list_def audit_order.filter_js_sort by (simp add: conj_commute)
  then have data: "take (?l + 1) (js_sort newest_first (filter (\<lambda>r. audit_matches dto r \<and> after r) rows)) = take (?l + 1) B"
    by simp
  have "?l < length (take (?l + 1) B) \<longleftrightarrow> ?l < length B" by auto
  moreover have "take ?l (take (?l + 1) B) = take ?l B" by simp
  moreover have "take (?l + 1) B = take ?l B" if "\<not> ?l < length B" using that by simp
  moreover have "take ?l B \<noteq> []" if "?l < length B" using that assms(2) by (cases B) auto
  ultimately show ?thesis
    unfolding audit_query_def page_limit_def [symmetric] assms(1) res_bind_Inr Let_def data
    by (simp add: audit_list_def)
qed

lemma audit_list_cursor [simp]: "audit_list (dto\<lparr>qa_cursor := c\<rparr>) rows = audit_list dto rows"
proof -
  have "audit_matches (dto\<lparr>qa_cursor := c\<rparr>) = audit_matches dto" by (rule ext) (simp add: audit_matches_def)
  then show ?thesis by (simp add: audit_list_def)
qed

lemma page_limit_cursor [simp]: "page_limit (dto\<lparr>qa_cursor := c\<rparr>) = page_limit dto"
  by (simp add: page_limit_def)

text \<open>In a list in strict order, what comes after an element is what the cursor keeps.\<close>

lemma filter_after:
  assumes "sorted_wrt newest_first (A @ x # B)" and "distinct (map au_id (A @ x # B))"
  shows "filter (after_cursor (audit_key x)) (A @ x # B) = B"
proof -
  have "\<not> after_cursor (audit_key x) a" if "a \<in> set A" for a
  proof -
    have "newest_first a x" using assms(1) that by (auto simp: sorted_wrt_append)
    then show ?thesis by (auto simp: newest_first_def key_le_def after_cursor_def audit_key_def)
  qed
  then have "filter (after_cursor (audit_key x)) A = []" by (simp add: filter_empty_conv)
  moreover have "after_cursor (audit_key x) b" if "b \<in> set B" for b
  proof -
    have "newest_first x b" using assms(1) that by (auto simp: sorted_wrt_append)
    moreover have "au_id b \<noteq> au_id x" using assms(2) that by (metis distinct_append distinct.simps(2) image_eqI list.set_map list.simps(9) map_append)
    then have "units_of (au_id b) \<noteq> units_of (au_id x)" by simp
    ultimately show ?thesis
      unfolding newest_first_def key_le_def after_cursor_def audit_key_def fst_conv snd_conv
      using le_neq_trans by metis
  qed
  then have "filter (after_cursor (audit_key x)) B = B" by simp
  moreover have "\<not> after_cursor (audit_key x) x" by (simp add: after_cursor_def audit_key_def)
  ultimately show ?thesis by simp
qed

lemma audit_walk_suffix:
  assumes "reads_dates timestamptz rows" and "distinct (map au_id rows)" and "1 \<le> page_limit dto"
    and "\<And>r. r \<in> set rows \<Longrightarrow> au_createdAt r mod 1000 = 0"
    and "audit_list dto rows = A @ B"
    and "qa_cursor dto = (if A = [] then None else Some (audit_cursor (last A)))" and "length B < fuel"
  shows "audit_walk fuel lenient timestamptz dto rows = Some (Inr B)"
  using assms(3,5-)
proof (induction fuel arbitrary: dto A B)
  case (Suc fuel)
  let ?l = "page_limit dto"
  have order: "sorted_wrt newest_first (A @ B)" "distinct (map au_id (A @ B))" "set (A @ B) \<subseteq> set rows"
    using audit_order.sorted_js_sort [of "filter (audit_matches dto) rows"] assms(2)
    unfolding Suc.prems(2) [symmetric] audit_list_def distinct_js_sort by (auto simp: distinct_map_filter)
  obtain after where after: "cursor_filter lenient timestamptz (qa_cursor dto) = Inr after" "filter after (A @ B) = B"
  proof (cases "A = []")
    case True
    with that [of "\<lambda>r. True"] Suc.prems(3) show ?thesis by (simp add: cursor_filter_def)
  next
    case False
    then obtain A' x where A: "A = A' @ [x]" by (metis append_butlast_last_id)
    have x: "x \<in> set rows" using order(3) A by simp
    have "cursor_filter lenient timestamptz (qa_cursor dto) = Inr (after_cursor (audit_key x))"
    proof -
      have "au_createdAt x div 1000 * 1000 = au_createdAt x" using assms(4) [OF x] by auto
      with cursor_filter_row [OF assms(1) x] Suc.prems(3) A show ?thesis by (simp add: audit_key_def)
    qed
    moreover have "filter (after_cursor (audit_key x)) (A @ B) = B"
      using filter_after [of A' x B] order(1,2) A by simp
    ultimately show ?thesis by (rule that)
  qed
  have q: "audit_query lenient timestamptz dto rows = Inr
    \<lparr>ap_data = take ?l B, ap_nextCursor = (if ?l < length B then Some (audit_cursor (last (take ?l B))) else None),
     ap_total = length (audit_list dto rows)\<rparr>"
    using audit_query_eq [OF after(1) Suc.prems(1), of rows] unfolding Suc.prems(2) after(2) .
  show ?case
  proof (cases "?l < length B")
    case False
    with q show ?thesis by simp
  next
    case True
    let ?dto = "dto\<lparr>qa_cursor := Some (audit_cursor (last (take ?l B)))\<rparr>"
    have ne: "take ?l B \<noteq> []" using True Suc.prems(1) by (cases B) auto
    have "audit_walk fuel lenient timestamptz ?dto rows = Some (Inr (drop ?l B))"
    proof (rule Suc.IH [of ?dto "A @ take ?l B"])
      show "audit_list ?dto rows = (A @ take ?l B) @ drop ?l B" using Suc.prems(2) by simp
      show "qa_cursor ?dto = (if A @ take ?l B = [] then None else Some (audit_cursor (last (A @ take ?l B))))"
        using ne by simp
      show "length (drop ?l B) < fuel" using Suc.prems(1,4) True by simp
    qed (use Suc.prems(1) in simp)
    with q True show ?thesis by simp
  qed
qed simp

section \<open>Completeness\<close>

text \<open>
  C34. A reader that follows \<open>nextCursor\<close> from the first page sees every matching entry once,
  newest first, after at most as many pages as there are rows, whatever the page size,
  provided the time stamps carry no fraction of a millisecond.
\<close>

theorem audit_walk_complete:
  assumes "reads_dates timestamptz rows" and "distinct (map au_id rows)" and "1 \<le> page_limit dto"
    and "list_all (\<lambda>r. au_createdAt r mod 1000 = 0) rows" and "qa_cursor dto = None"
  shows "audit_walk (length rows + 1) lenient timestamptz dto rows = Some (Inr (audit_list dto rows))"
proof (rule audit_walk_suffix [OF assms(1-3), where A = "[]"])
  show "length (audit_list dto rows) < length rows + 1"
    by (simp add: audit_list_def le_imp_less_Suc)
qed (use assms(4,5) in \<open>auto simp: list_all_iff\<close>)

definition audit_sample :: "string \<Rightarrow> int \<Rightarrow> audit_row" where
  "audit_sample rowid now =
     \<lparr>au_id = rowid, au_tenantId = Some ''t1'', au_userId = None, au_action = UPDATE, au_entityType = ''Plan'',
      au_entityId = ''p1'', au_oldValue = None, au_newValue = None, au_ipAddress = None, au_userAgent = None,
      au_requestId = None, au_createdAt = now\<rparr>"

definition any_query :: "nat \<Rightarrow> QueryAuditLogsDto" where
  "any_query l = \<lparr>qa_cursor = None, qa_limit = Some l, qa_action = None, qa_entityType = None, qa_entityId = None,
     qa_userId = None, qa_fromDate = None, qa_toDate = None\<rparr>"

lemma sample_fields [simp]:
  "au_id (audit_sample rowid now) = rowid" "au_createdAt (audit_sample rowid now) = now"
  "page_limit (any_query l) = l" "qa_cursor (any_query l) = None"
  by (simp_all add: audit_sample_def any_query_def page_limit_def)

text \<open>A reading of time stamps that knows the texts of the dates given.\<close>

definition known_dates :: "int list \<Rightarrow> units \<Rightarrow> int result" where
  "known_dates dates s =
     (case find (\<lambda>ms. units_of (iso_text ms) = s) dates of
        None \<Rightarrow> Inl Plain_Error
      | Some ms \<Rightarrow> Inr (ms * 1000))"

lemma reads_known_dates:
  assumes "inj_on iso_text (set dates)" and "\<And>r. r \<in> set rows \<Longrightarrow> au_createdAt r div 1000 \<in> set dates"
  shows "reads_dates (known_dates dates) rows"
  unfolding reads_dates_def
proof
  fix r assume "r \<in> set rows"
  let ?ms = "au_createdAt r div 1000"
  from assms(2) [OF \<open>r \<in> set rows\<close>] have "?ms \<in> set dates" .
  then obtain ms where ms: "find (\<lambda>m. units_of (iso_text m) = units_of (iso_text ?ms)) dates = Some ms"
    by (cases "find (\<lambda>m. units_of (iso_text m) = units_of (iso_text ?ms)) dates") (auto simp: find_None_iff)
  then have "ms \<in> set dates" "iso_text ms = iso_text ?ms" by (auto simp: find_Some_iff)
  then have "ms = ?ms" using assms(1) \<open>?ms \<in> set dates\<close> by (auto dest: inj_onD)
  with ms show "known_dates dates (units_of (iso_text ?ms)) = Inr (?ms * 1000)" by (simp add: known_dates_def)
qed

lemma audit_list_pair:
  "audit_list (any_query l) [audit_sample ''a'' t, audit_sample ''b'' s]
    = (if s \<le> t \<and> s \<noteq> t then [audit_sample ''a'' t, audit_sample ''b'' s] else [audit_sample ''b'' s, audit_sample ''a'' t])"
  by (auto simp: audit_list_def audit_matches_def any_query_def text_filter_def filled_def applyCreatedAtFilter_def
      newest_first_def key_le_def audit_key_def audit_sample_def units_of_def char_code_bits)

theorem audit_walk_complete_witness:
  "audit_walk 3 (\<lambda>s. []) (known_dates [1, 2]) (any_query 1) [audit_sample ''a'' 1000, audit_sample ''b'' 2000]
    = Some (Inr [audit_sample ''b'' 2000, audit_sample ''a'' 1000])"
proof -
  have "iso_text 1 \<noteq> iso_text 2" by code_simp
  then have "inj_on iso_text (set [1, 2])" by (auto simp: inj_on_def)
  then have "reads_dates (known_dates [1, 2]) [audit_sample ''a'' 1000, audit_sample ''b'' 2000]"
    by (rule reads_known_dates) (auto simp: audit_sample_def)
  from audit_walk_complete [OF this, of "any_query 1" "\<lambda>s. []"]
  show ?thesis by (simp add: audit_list_pair numeral_eq_Suc del: audit_walk.simps)
qed

text \<open>
  Entries written in one transaction share their time stamp, and the cursor keeps only
  its milliseconds. When that stamp has a fraction of a millisecond and a page ends among
  them, the next page is empty: the reader sees the first page only, and its last page says
  that nothing follows.
\<close>

lemma audit_walk_skips:
  assumes "reads_dates timestamptz rows" and "1 \<le> page_limit dto" and "qa_cursor dto = None"
    and "list_all (\<lambda>r. au_createdAt r = t) rows" and "t mod 1000 \<noteq> 0"
    and "page_limit dto < length (audit_list dto rows)"
  shows "audit_walk (fuel + 2) lenient timestamptz dto rows = Some (Inr (take (page_limit dto) (audit_list dto rows)))"
proof -
  let ?l = "page_limit dto" and ?B = "audit_list dto rows"
  let ?x = "last (take ?l ?B)"
  let ?c = "audit_cursor ?x"
  have rows: "r \<in> set rows" if "r \<in> set ?B" for r using that by (auto simp: audit_list_def)
  have "take ?l ?B \<noteq> []" using assms(2,6) by (cases ?B) auto
  then have x: "?x \<in> set rows" using rows last_in_set in_set_takeD by metis
  have first: "audit_query lenient timestamptz dto rows
      = Inr \<lparr>ap_data = take ?l ?B, ap_nextCursor = Some ?c, ap_total = length ?B\<rparr>"
    using audit_query_eq [of lenient timestamptz dto "\<lambda>r. True" rows] assms(2,3,6) by (simp add: cursor_filter_def)
  have t: "au_createdAt r = t" if "r \<in> set rows" for r using assms(4) that by (simp add: list_all_iff)
  have "cursor_filter lenient timestamptz (Some ?c) = Inr (after_cursor (t div 1000 * 1000, units_of (au_id ?x)))"
    using cursor_filter_row [OF assms(1) x] t [OF x] by simp
  moreover have "filter (after_cursor (t div 1000 * 1000, units_of (au_id ?x))) ?B = []"
  proof -
    have "t div 1000 * 1000 < t"
      using assms(5) div_mult_mod_eq [of t 1000] pos_mod_sign [of 1000 t] by linarith
    then show ?thesis using rows t by (auto simp: filter_empty_conv after_cursor_def)
  qed
  ultimately have "audit_query lenient timestamptz (dto\<lparr>qa_cursor := Some ?c\<rparr>) rows
      = Inr \<lparr>ap_data = [], ap_nextCursor = None, ap_total = length ?B\<rparr>"
    using audit_query_eq [of lenient timestamptz "dto\<lparr>qa_cursor := Some ?c\<rparr>"] assms(2) by simp
  with first show ?thesis by (simp add: numeral_2_eq_2)
qed

end
