(* ===== verification/AuditExport.thy ===== *)
theory AuditExport
  imports AuditQuery
begin

text \<open>
  What a reader of the audit trail receives: the actors of the entries
  (\<open>audit-actor.resolver.ts\<close>), the response of a page (\<open>toResponseDto\<close>) and the CSV export
  (\<open>exportCsv\<close> of both query services, \<open>helpers/audit-export.helper.ts\<close>). A reader of CSV in
  the sense of RFC 4180 stands beside the writer.
\<close>

section \<open>Actors\<close>

datatype AuditActorType = actor_tenant | actor_platform | actor_system | actor_unknown

record AuditActorDto =
  ac_id :: "string option"
  ac_type :: AuditActorType
  ac_displayName :: string
  ac_role :: "string option"
  ac_status :: "string option"
  ac_isDeleted :: "bool option"

record User =
  us_id :: string
  us_firstName :: "string option"
  us_lastName :: "string option"
  us_role :: string
  us_status :: string
  us_deletedAt :: "int option"

fun join_with :: "string \<Rightarrow> string list \<Rightarrow> string" where
  "join_with sep [] = []"
| "join_with sep [x] = x"
| "join_with sep (x # y # xs) = x @ sep @ join_with sep (y # xs)"

definition compactName :: "string option \<Rightarrow> string option \<Rightarrow> string option" where
  "compactName firstName lastName =
     (let parts = map js_trim (List.map_filter id [firstName, lastName]);
          name = join_with '' '' (filter (\<lambda>part. part \<noteq> []) parts)
      in if name = [] then None else Some name)"

definition shortId :: "string \<Rightarrow> string" where
  "shortId s = (if length s > 8 then take 8 s else s)"

definition systemActor :: AuditActorDto where
  "systemActor = \<lparr>ac_id = None, ac_type = actor_system, ac_displayName = ''Sistema'', ac_role = None, ac_status = None,
     ac_isDeleted = None\<rparr>"

definition unknownActor :: "string \<Rightarrow> AuditActorDto" where
  "unknownActor userId = \<lparr>ac_id = Some userId, ac_type = actor_unknown, ac_displayName = ''Actor '' @ shortId userId,
     ac_role = None, ac_status = None, ac_isDeleted = None\<rparr>"

definition actor_of :: "AuditActorType \<Rightarrow> string \<Rightarrow> User \<Rightarrow> AuditActorDto" where
  "actor_of kind label user =
     \<lparr>ac_id = Some (us_id user), ac_type = kind,
      ac_displayName = (case compactName (us_firstName user) (us_lastName user) of
          Some name \<Rightarrow> name
        | None \<Rightarrow> label @ shortId (us_id user)),
      ac_role = Some (us_role user), ac_status = Some (us_status user),
      ac_isDeleted = Some (us_deletedAt user \<noteq> None)\<rparr>"

text \<open>The map of actors; a later row of an identifier overwrites an earlier one.\<close>

definition actors_map :: "AuditActorType \<Rightarrow> string \<Rightarrow> User list \<Rightarrow> string list \<Rightarrow> string \<Rightarrow> AuditActorDto option" where
  "actors_map kind label users userIds =
     map_of (rev (map (\<lambda>user. (us_id user, actor_of kind label user)) (filter (\<lambda>user. us_id user \<in> set userIds) users)))"

definition resolveTenantActors :: "User list \<Rightarrow> string list \<Rightarrow> string \<Rightarrow> AuditActorDto option" where
  "resolveTenantActors users userIds = actors_map actor_tenant ''Usuario '' users userIds"

definition resolvePlatformActors :: "User list \<Rightarrow> string list \<Rightarrow> string \<Rightarrow> AuditActorDto option" where
  "resolvePlatformActors users userIds = actors_map actor_platform ''Usuario plataforma '' users userIds"

text \<open>\<open>source\<close> is \<open>'tenant'\<close> when \<open>tenant\<close> holds.\<close>

definition resolveMany :: "bool \<Rightarrow> User list \<Rightarrow> string option list \<Rightarrow> string \<Rightarrow> AuditActorDto option" where
  "resolveMany tenant users userIds =
     (let ids = remdups (filter (\<lambda>i. i \<noteq> []) (List.map_filter id userIds))
      in if ids = [] then Map.empty
         else if tenant then resolveTenantActors users ids else resolvePlatformActors users ids)"

section \<open>Responses\<close>

record audit_response =
  ar_entry :: audit_row
  ar_actor :: AuditActorDto

definition actor_of_entry :: "(string \<Rightarrow> AuditActorDto option) \<Rightarrow> string option \<Rightarrow> AuditActorDto" where
  "actor_of_entry actors userId =
     (case userId of
        None \<Rightarrow> systemActor
      | Some u \<Rightarrow> if u = [] then systemActor else (case actors u of Some a \<Rightarrow> a | None \<Rightarrow> unknownActor u))"

text \<open>A tenant's trail is sanitised again when it is read, the platform's is not.\<close>

definition toResponseDto :: "(string \<Rightarrow> AuditActorDto option) \<Rightarrow> audit_row \<Rightarrow> audit_response" where
  "toResponseDto actors entry =
     \<lparr>ar_entry = entry\<lparr>au_oldValue := sanitizeAuditPayload (au_oldValue entry),
                       au_newValue := sanitizeAuditPayload (au_newValue entry)\<rparr>,
      ar_actor = actor_of_entry actors (au_userId entry)\<rparr>"

definition platform_toResponseDto :: "(string \<Rightarrow> AuditActorDto option) \<Rightarrow> audit_row \<Rightarrow> audit_response" where
  "platform_toResponseDto actors entry = \<lparr>ar_entry = entry, ar_actor = actor_of_entry actors (au_userId entry)\<rparr>"

record audit_list_response =
  al_data :: "audit_response list"
  al_nextCursor :: "units option"
  al_total :: nat

definition query ::
  "(units \<Rightarrow> nat list) \<Rightarrow> (units \<Rightarrow> int result) \<Rightarrow> User list \<Rightarrow> QueryAuditLogsDto \<Rightarrow> audit_row list \<Rightarrow>
    audit_list_response result" where
  "query lenient timestamptz users dto rows =
     res_bind (audit_query lenient timestamptz dto rows) (\<lambda>page.
     let actors = resolveMany True users (map au_userId (ap_data page))
     in Inr \<lparr>al_data = map (toResponseDto actors) (ap_data page), al_nextCursor = ap_nextCursor page,
             al_total = ap_total page\<rparr>)"

text \<open>The platform's query has no filter by entity identifier.\<close>

definition platform_query ::
  "(units \<Rightarrow> nat list) \<Rightarrow> (units \<Rightarrow> int result) \<Rightarrow> User list \<Rightarrow> QueryAuditLogsDto \<Rightarrow> audit_row list \<Rightarrow>
    audit_list_response result" where
  "platform_query lenient timestamptz users dto rows =
     res_bind (audit_query lenient timestamptz (dto\<lparr>qa_entityId := None\<rparr>) rows) (\<lambda>page.
     let actors = resolveMany False users (map au_userId (ap_data page))
     in Inr \<lparr>al_data = map (platform_toResponseDto actors) (ap_data page), al_nextCursor = ap_nextCursor page,
             al_total = ap_total page\<rparr>)"

section \<open>The CSV export\<close>

definition AUDIT_EXPORT_MAX_ROWS :: nat where
  "AUDIT_EXPORT_MAX_ROWS = 5000"

definition quote :: char where
  "quote = CHR 34"

definition line_break :: string where
  "line_break = [CHR 13, CHR 10]"

record AuditCsvRowInput =
  cr_createdAt :: int
  cr_action :: string
  cr_entityType :: string
  cr_entityId :: "string option"
  cr_actorLabel :: string
  cr_ipAddress :: "string option"
  cr_requestId :: "string option"

record AuditCsvExportResult =
  ce_csv :: string
  ce_truncated :: bool
  ce_rowCount :: nat

definition double_quotes :: "string \<Rightarrow> string" where
  "double_quotes v = concat (map (\<lambda>c. if c = quote then [quote, quote] else [c]) v)"

definition escapeCsvCell :: "string \<Rightarrow> string" where
  "escapeCsvCell v = quote # double_quotes v @ [quote]"

definition headers :: "string list" where
  "headers = [''Fecha'', ''Acci'' @ CHR 0xF3 # ''n'', ''Entidad'', ''ID de entidad'', ''Actor'', ''IP'', ''ID de solicitud'']"

definition or_blank :: "string option \<Rightarrow> string" where
  "or_blank v = (case v of None \<Rightarrow> [] | Some s \<Rightarrow> s)"

definition cells_of :: "AuditCsvRowInput \<Rightarrow> string list" where
  "cells_of row = [iso_text (cr_createdAt row), cr_action row, cr_entityType row, or_blank (cr_entityId row),
     cr_actorLabel row, or_blank (cr_ipAddress row), or_blank (cr_requestId row)]"

definition csv_line :: "string list \<Rightarrow> string" where
  "csv_line cells = join_with '','' (map escapeCsvCell cells)"

definition scope_note :: "nat \<Rightarrow> string" where
  "scope_note maxRows = ''Export limitado a '' @ show_int (int maxRows) @ '' registros''"

definition buildAuditCsv :: "AuditCsvRowInput list \<Rightarrow> bool \<Rightarrow> nat option \<Rightarrow> string" where
  "buildAuditCsv rows truncated maxRows =
     (let max = (case maxRows of None \<Rightarrow> AUDIT_EXPORT_MAX_ROWS | Some n \<Rightarrow> n);
          scope = (if truncated then [escapeCsvCell (scope_note max)] else [])
      in join_with line_break (scope @ csv_line headers # map (\<lambda>row. csv_line (cells_of row)) rows))"

definition action_text :: "AuditAction \<Rightarrow> string" where
  "action_text a = (case a of CREATE \<Rightarrow> ''CREATE'' | UPDATE \<Rightarrow> ''UPDATE'' | DELETE \<Rightarrow> ''DELETE''
     | RECORD_ACCESS \<Rightarrow> ''RECORD_ACCESS'' | LIST_ACCESS \<Rightarrow> ''LIST_ACCESS'' | OTHER_ACTION s \<Rightarrow> s)"

definition resolveActorLabel :: "string option \<Rightarrow> (string \<Rightarrow> AuditActorDto option) \<Rightarrow> string" where
  "resolveActorLabel userId actors =
     (case userId of
        None \<Rightarrow> ac_displayName systemActor
      | Some u \<Rightarrow> if u = [] then ac_displayName systemActor
                  else (case actors u of Some a \<Rightarrow> ac_displayName a | None \<Rightarrow> u))"

definition csv_row_of :: "(string \<Rightarrow> AuditActorDto option) \<Rightarrow> audit_row \<Rightarrow> AuditCsvRowInput" where
  "csv_row_of actors entry =
     \<lparr>cr_createdAt = au_createdAt entry div 1000, cr_action = action_text (au_action entry),
      cr_entityType = au_entityType entry, cr_entityId = Some (au_entityId entry),
      cr_actorLabel = resolveActorLabel (au_userId entry) actors, cr_ipAddress = au_ipAddress entry,
      cr_requestId = au_requestId entry\<rparr>"

definition buildCreatedAtFilter :: "int option \<Rightarrow> int option \<Rightarrow> (audit_row \<Rightarrow> bool) option" where
  "buildCreatedAtFilter fromDate toDate =
     (case (fromDate, toDate) of
        (Some f, Some t) \<Rightarrow> Some (\<lambda>r. f * 1000 \<le> au_createdAt r \<and> au_createdAt r \<le> t * 1000)
      | (Some f, None) \<Rightarrow> Some (\<lambda>r. f * 1000 \<le> au_createdAt r)
      | (None, Some t) \<Rightarrow> Some (\<lambda>r. au_createdAt r \<le> t * 1000)
      | (None, None) \<Rightarrow> None)"

definition buildExportWhere :: "QueryAuditLogsDto \<Rightarrow> audit_row \<Rightarrow> bool" where
  "buildExportWhere dto r =
     ((case qa_action dto of None \<Rightarrow> True | Some a \<Rightarrow> au_action r = a)
      \<and> text_filter (qa_entityType dto) (Some (au_entityType r))
      \<and> text_filter (qa_entityId dto) (Some (au_entityId r))
      \<and> text_filter (qa_userId dto) (au_userId r)
      \<and> (case buildCreatedAtFilter (qa_fromDate dto) (qa_toDate dto) of None \<Rightarrow> True | Some created \<Rightarrow> created r))"

text \<open>\<open>tenant\<close> tells the service of a tenant's trail from the platform's.\<close>

definition exportCsv :: "bool \<Rightarrow> User list \<Rightarrow> QueryAuditLogsDto \<Rightarrow> audit_row list \<Rightarrow> AuditCsvExportResult" where
  "exportCsv tenant users dto table =
     (let dto' = (if tenant then dto else dto\<lparr>qa_entityId := None\<rparr>);
          data = take (AUDIT_EXPORT_MAX_ROWS + 1) (js_sort newest_first (filter (buildExportWhere dto') table));
          truncated = AUDIT_EXPORT_MAX_ROWS < length data;
          rows = (if truncated then take AUDIT_EXPORT_MAX_ROWS data else data);
          actors = resolveMany tenant users (map au_userId rows)
      in \<lparr>ce_csv = buildAuditCsv (map (csv_row_of actors) rows) truncated (Some AUDIT_EXPORT_MAX_ROWS),
          ce_truncated = truncated, ce_rowCount = length rows\<rparr>)"

section \<open>Reading CSV\<close>

text \<open>The rest of a quoted cell and what follows it.\<close>

fun read_quoted :: "string \<Rightarrow> string \<times> string" where
  "read_quoted [] = ([], [])"
| "read_quoted [c] = (if c = quote then ([], []) else ([c], []))"
| "read_quoted (c # d # s) =
     (if c = quote then
        (if d = quote then (case read_quoted s of (v, rest) \<Rightarrow> (quote # v, rest)) else ([], d # s))
      else (case read_quoted (d # s) of (v, rest) \<Rightarrow> (c # v, rest)))"

text \<open>The records of a file whose cells are all quoted; each call reads one cell.\<close>

fun read_csv :: "nat \<Rightarrow> string \<Rightarrow> string list list option" where
  "read_csv 0 s = None"
| "read_csv (Suc fuel) s =
     (case s of
        [] \<Rightarrow> None
      | c # t \<Rightarrow>
          if c \<noteq> quote then None
          else (case read_quoted t of
                  (v, []) \<Rightarrow> Some [[v]]
                | (v, d # u) \<Rightarrow>
                    if d = CHR '','' then
                      (case read_csv fuel u of
                         Some (cells # later) \<Rightarrow> Some ((v # cells) # later)
                       | _ \<Rightarrow> None)
                    else if d = CHR 13 \<and> u \<noteq> [] \<and> hd u = CHR 10 then map_option (\<lambda>later. [v] # later) (read_csv fuel (tl u))
                    else None))"

lemma read_quoted_double:
  "s = [] \<or> hd s \<noteq> quote \<Longrightarrow> read_quoted (double_quotes v @ quote # s) = (v, s)"
proof (induction v)
  case Nil
  then show ?case by (cases s) (auto simp: double_quotes_def)
next
  case (Cons c v)
  then have IH: "read_quoted (double_quotes v @ quote # s) = (v, s)" by blast
  show ?case
  proof (cases "c = quote")
    case True
    then show ?thesis using IH by (simp add: double_quotes_def)
  next
    case False
    obtain d t where t: "double_quotes v @ quote # s = d # t" by (cases "double_quotes v @ quote # s") auto
    have "double_quotes (c # v) @ quote # s = c # d # t" using False t by (simp add: double_quotes_def)
    then show ?thesis using False IH t by simp
  qed
qed

lemma read_cell:
  assumes "s = [] \<or> hd s \<noteq> quote"
  shows "read_csv (Suc fuel) (escapeCsvCell v @ s) =
    (case s of
       [] \<Rightarrow> Some [[v]]
     | d # u \<Rightarrow>
         if d = CHR '','' then
           (case read_csv fuel u of Some (cells # later) \<Rightarrow> Some ((v # cells) # later) | _ \<Rightarrow> None)
         else if d = CHR 13 \<and> u \<noteq> [] \<and> hd u = CHR 10 then map_option (\<lambda>later. [v] # later) (read_csv fuel (tl u))
         else None)"
  using read_quoted_double [OF assms, of v] by (simp add: escapeCsvCell_def)

text \<open>The lines after the first, each with its line break in front.\<close>

definition more_lines :: "string list list \<Rightarrow> string" where
  "more_lines lines = concat (map (\<lambda>cells. line_break @ csv_line cells) lines)"

lemma join_lines: "join_with line_break (map csv_line (cells # lines)) = csv_line cells @ more_lines lines"
  by (induction lines arbitrary: cells) (auto simp: more_lines_def)

lemma read_lines:
  assumes "list_all (\<lambda>cells. cells \<noteq> []) (cells # lines)" and "length (concat (cells # lines)) \<le> fuel"
  shows "read_csv fuel (csv_line cells @ more_lines lines) = Some (cells # lines)"
  using assms
proof (induction fuel arbitrary: cells lines)
  case 0
  then show ?case by simp
next
  case (Suc fuel)
  obtain v vs where cells: "cells = v # vs" using Suc.prems(1) by (cases cells) auto
  show ?case
  proof (cases vs)
    case Nil
    show ?thesis
    proof (cases lines)
      case Nil
      then show ?thesis
        using read_cell [of "[]" fuel v] cells \<open>vs = []\<close> by (simp add: csv_line_def more_lines_def)
    next
      case (Cons l ls)
      have "read_csv fuel (csv_line l @ more_lines ls) = Some (l # ls)"
        by (rule Suc.IH) (use Suc.prems Cons cells in auto)
      then show ?thesis
        using read_cell [of "line_break @ csv_line l @ more_lines ls" fuel v] cells \<open>vs = []\<close> Cons
        by (simp add: csv_line_def more_lines_def line_break_def quote_def)
    qed
  next
    case (Cons w ws)
    have "read_csv fuel (csv_line (w # ws) @ more_lines lines) = Some ((w # ws) # lines)"
      by (rule Suc.IH) (use Suc.prems Cons cells in auto)
    then show ?thesis
      using read_cell [of "'','' @ csv_line (w # ws) @ more_lines lines" fuel v] cells Cons
      by (simp add: csv_line_def quote_def)
  qed
qed

lemma buildAuditCsv_lines:
  "buildAuditCsv rows truncated (Some n)
    = join_with line_break (map csv_line ((if truncated then [[scope_note n]] else []) @ headers # map cells_of rows))"
  by (simp add: buildAuditCsv_def csv_line_def [of "[x]" for x] comp_def)

lemma buildExportWhere_matches: "buildExportWhere dto = audit_matches dto"
  by (rule ext) (auto simp: buildExportWhere_def audit_matches_def buildCreatedAtFilter_def applyCreatedAtFilter_def
      split: option.splits)

text \<open>
  C36. The CSV export is readable and exact, whatever the entries hold (quotes, commas and line
  breaks in an actor's name included): a reader of CSV gets, after the note of scope that is
  there exactly when more than 5000 entries match, the headings and one record for each of
  the newest 5000 matching entries, in the order of the listing, with every cell as it was.
\<close>

theorem audit_csv_exact:
  fixes tenant :: bool and users :: "User list" and dto :: QueryAuditLogsDto and table :: "audit_row list"
  defines "matching \<equiv> audit_list (if tenant then dto else dto\<lparr>qa_entityId := None\<rparr>) table"
    and "result \<equiv> exportCsv tenant users dto table"
  defines "exported \<equiv> take 5000 matching"
  shows "read_csv (7 * length exported + 8) (ce_csv result)
      = Some ((if 5000 < length matching then [[scope_note 5000]] else []) @ headers
          # map (\<lambda>r. cells_of (csv_row_of (resolveMany tenant users (map au_userId exported)) r)) exported)
    \<and> ce_truncated result = (5000 < length matching) \<and> ce_rowCount result = length exported"
proof -
  let ?actors = "resolveMany tenant users (map au_userId exported)"
  let ?head = "if 5000 < length matching then [[scope_note 5000]] else []"
  let ?lines = "?head @ headers # map (\<lambda>r. cells_of (csv_row_of ?actors r)) exported"
  have sorted: "js_sort newest_first (filter (buildExportWhere (if tenant then dto else dto\<lparr>qa_entityId := None\<rparr>)) table)
      = matching"
    by (simp add: matching_def audit_list_def buildExportWhere_matches)
  have cut: "5000 < length (take (5000 + 1) matching) \<longleftrightarrow> 5000 < length matching"
    "(if 5000 < length matching then take 5000 (take (5000 + 1) matching) else take (5000 + 1) matching) = exported"
    by (auto simp: exported_def)
  have result: "result = \<lparr>ce_csv = buildAuditCsv (map (csv_row_of ?actors) exported) (5000 < length matching) (Some 5000),
      ce_truncated = 5000 < length matching, ce_rowCount = length exported\<rparr>"
    unfolding result_def exportCsv_def Let_def sorted AUDIT_EXPORT_MAX_ROWS_def unfolding cut ..
  have csv: "ce_csv result = join_with line_break (map csv_line ?lines)"
    unfolding result by (simp add: buildAuditCsv_lines comp_def)
  have ok: "list_all (\<lambda>cells. cells \<noteq> []) ?lines" by (auto simp: list_all_iff headers_def cells_of_def)
  have len: "length (concat ?lines) \<le> 7 * length exported + 8"
    by (simp add: headers_def cells_of_def length_concat comp_def sum_list_triv)
  obtain l ls where l: "?lines = l # ls" by (cases ?lines) auto
  have "read_csv (7 * length exported + 8) (ce_csv result) = Some ?lines"
    unfolding csv l join_lines by (rule read_lines) (use ok len l in simp_all)
  then show ?thesis by (simp add: result)
qed

end
