(* ===== verification/Pagination.thy ===== *)
theory Pagination
  imports CursorCodec Complex_Main
begin

text \<open>
  The helpers of the paged listings (\<open>common/pagination\<close>): the bounds on page and limit, the
  metadata of a page, the in-memory slice of the cursor listings, dynamic sorting against a
  white list, and the search texts of the pickers. A number that a request may carry is a
  \<open>js_number\<close>: a finite double is a rational.
\<close>

section \<open>Bounds\<close>

datatype js_number = Finite rat | Not_Finite

definition isInteger :: "js_number \<Rightarrow> bool" where
  "isInteger n = (case n of Finite x \<Rightarrow> of_int \<lfloor>x\<rfloor> = x | Not_Finite \<Rightarrow> False)"

abbreviation js_int :: "int \<Rightarrow> js_number" where
  "js_int n \<equiv> Finite (of_int n)"

definition MAX_PAGE_OFFSET :: int where
  "MAX_PAGE_OFFSET = 9999"

definition page_error :: http_error where
  "page_error = Bad_Request ''pagination''"

definition clampPage :: "js_number \<Rightarrow> js_number \<Rightarrow> int \<Rightarrow> (int \<times> int) result" where
  "clampPage page limit maxOffset =
     (case (page, limit) of
        (Finite p, Finite l) \<Rightarrow>
          if \<not> isInteger page \<or> \<not> isInteger limit then Inl page_error
          else if p < 1 then Inl page_error
          else if l < 1 then Inl page_error
          else if p * l > of_int maxOffset then Inl page_error
          else Inr (\<lfloor>p\<rfloor>, \<lfloor>l\<rfloor>)
      | _ \<Rightarrow> Inl page_error)"

definition DEFAULT_LIMIT :: int where
  "DEFAULT_LIMIT = 20"

definition MAX_LIMIT :: int where
  "MAX_LIMIT = 100"

text \<open>\<open>None\<close> stands for \<open>undefined\<close> and for \<open>null\<close>.\<close>

definition clampLimit :: "js_number option \<Rightarrow> int \<Rightarrow> int \<Rightarrow> int" where
  "clampLimit limit maximum defaultLimit =
     (case limit of
        Some (Finite x) \<Rightarrow>
          (let floored = \<lfloor>x\<rfloor>
           in if floored < 1 then defaultLimit else min floored maximum)
      | _ \<Rightarrow> defaultLimit)"

definition assertExclusivePageCursor :: "js_number option \<Rightarrow> units option \<Rightarrow> unit result" where
  "assertExclusivePageCursor page cursor = guard_ok (\<not> (page \<noteq> None \<and> cursor \<noteq> None)) page_error"

lemma clampPage_int:
  "clampPage (js_int p) (js_int l) m = (if p < 1 \<or> l < 1 \<or> p * l > m then Inl page_error else Inr (p, l))"
proof -
  have "of_int p * of_int l > (of_int m :: rat) \<longleftrightarrow> p * l > m" by (metis of_int_less_iff of_int_mult)
  then show ?thesis by (simp add: clampPage_def isInteger_def)
qed

lemma clampPage_Inr:
  "clampPage page limit m = Inr (p, l) \<longleftrightarrow>
    page = js_int p \<and> limit = js_int l \<and> 1 \<le> p \<and> 1 \<le> l \<and> p * l \<le> m"
proof
  assume *: "clampPage page limit m = Inr (p, l)"
  then obtain x y where xy: "page = Finite x" "limit = Finite y"
    by (cases page; cases limit) (auto simp: clampPage_def)
  with * have "isInteger page" "isInteger limit" "p = \<lfloor>x\<rfloor>" "l = \<lfloor>y\<rfloor>"
    by (auto simp: clampPage_def split: if_splits)
  moreover have "z = of_int \<lfloor>z\<rfloor>" if "isInteger (Finite z)" for z
    using that by (simp add: isInteger_def del: of_int_floor_cancel)
  ultimately have "page = js_int p" "limit = js_int l" using xy by (simp_all del: of_int_floor_cancel)
  with * show "page = js_int p \<and> limit = js_int l \<and> 1 \<le> p \<and> 1 \<le> l \<and> p * l \<le> m"
    by (auto simp: clampPage_int split: if_splits)
next
  assume "page = js_int p \<and> limit = js_int l \<and> 1 \<le> p \<and> 1 \<le> l \<and> p * l \<le> m"
  then show "clampPage page limit m = Inr (p, l)" by (auto simp: clampPage_int)
qed

lemma clampLimit_bounds:
  "1 \<le> d \<Longrightarrow> d \<le> m \<Longrightarrow> 1 \<le> clampLimit limit m d \<and> clampLimit limit m d \<le> m"
  by (auto simp: clampLimit_def Let_def split: option.splits js_number.splits)

section \<open>Metadata\<close>

datatype meta_mode = page_mode | cursor_mode

datatype sort_dir = asc | desc

record ListMeta =
  lm_nextCursor :: "units option"
  lm_total :: int
  lm_totalIsEstimate :: bool
  lm_page :: "int option"
  lm_limit :: int
  lm_totalPages :: "int option"
  lm_hasMore :: bool
  lm_mode :: meta_mode
  lm_randomAccess :: bool
  lm_sortableFields :: "string list"
  lm_sort :: "(string \<times> sort_dir) option"

text \<open>\<open>Math.ceil(total / limit)\<close>.\<close>

definition ceil_div :: "int \<Rightarrow> int \<Rightarrow> int" where
  "ceil_div a b = - ((- a) div b)"

definition buildPageMeta ::
  "int \<Rightarrow> int \<Rightarrow> int \<Rightarrow> bool option \<Rightarrow> string list option \<Rightarrow> string option \<Rightarrow> sort_dir option \<Rightarrow> ListMeta" where
  "buildPageMeta count page limit randomAccess sortableFields sortBy sortDir =
     (let totalPages = (if limit > 0 then ceil_div count limit else 0);
          hasMore = page < totalPages;
          sort = (case (sortBy, sortDir) of (Some f, Some d) \<Rightarrow> if f \<noteq> [] then Some (f, d) else None | _ \<Rightarrow> None)
      in \<lparr>lm_nextCursor = None, lm_total = count, lm_totalIsEstimate = False, lm_page = Some page, lm_limit = limit,
          lm_totalPages = Some totalPages, lm_hasMore = hasMore, lm_mode = page_mode,
          lm_randomAccess = (case randomAccess of None \<Rightarrow> True | Some b \<Rightarrow> b),
          lm_sortableFields = (case sortableFields of None \<Rightarrow> [] | Some fs \<Rightarrow> fs), lm_sort = sort\<rparr>)"

definition buildCursorMeta ::
  "units option \<Rightarrow> int \<Rightarrow> int \<Rightarrow> bool option \<Rightarrow> bool option \<Rightarrow> string list option \<Rightarrow> ListMeta" where
  "buildCursorMeta nextCursor count limit totalIsEstimate randomAccess sortableFields =
     \<lparr>lm_nextCursor = nextCursor, lm_total = count,
      lm_totalIsEstimate = (case totalIsEstimate of None \<Rightarrow> False | Some b \<Rightarrow> b), lm_page = None, lm_limit = limit,
      lm_totalPages = None, lm_hasMore = (nextCursor \<noteq> None), lm_mode = cursor_mode,
      lm_randomAccess = (case randomAccess of None \<Rightarrow> False | Some b \<Rightarrow> b),
      lm_sortableFields = (case sortableFields of None \<Rightarrow> [] | Some fs \<Rightarrow> fs), lm_sort = None\<rparr>"

definition sliceDateIdDescPage ::
  "('r \<Rightarrow> units) \<Rightarrow> 'r list \<Rightarrow> nat \<Rightarrow> ('r \<Rightarrow> units) \<Rightarrow> 'r list \<times> units option" where
  "sliceDateIdDescPage row_id rows limit getDate =
     (let hasNext = limit < length rows;
          data = (if hasNext then take limit rows else rows);
          last_row = (if data = [] then None else Some (last data))
      in (data, buildDateIdNextCursor hasNext (map_option (\<lambda>r. (getDate r, row_id r)) last_row)))"

text \<open>The sort that is applied, its columns being the alias's.\<close>

definition applySort ::
  "string \<Rightarrow> string list \<Rightarrow> string option \<Rightarrow> sort_dir option \<Rightarrow> string \<Rightarrow> (string \<times> sort_dir) list \<Rightarrow>
    (string \<times> sort_dir) list \<times> (string \<times> sort_dir) option" where
  "applySort alias sortableFields sortBy sortDir idAlias orders =
     (case sortBy of
        Some f \<Rightarrow>
          if f \<noteq> [] \<and> f \<in> set sortableFields then
            (let dir = (case sortDir of None \<Rightarrow> asc | Some d \<Rightarrow> d)
             in ([(alias @ ''.'' @ f, dir), (alias @ ''.'' @ idAlias, dir)], Some (f, dir)))
          else (orders, None)
      | None \<Rightarrow> (orders, None))"

section \<open>A paged listing\<close>

text \<open>
  The pattern of the listings by page (as \<open>listRouters\<close> of \<open>network-catalog.service.ts\<close> has it):
  the limit is clamped, the page is checked, and \<open>skip\<close> and \<open>take\<close> cut the page out of the
  ordered rows.
\<close>

definition page_rows :: "'r list \<Rightarrow> int \<Rightarrow> int \<Rightarrow> 'r list" where
  "page_rows rows page limit = (let offset = (page - 1) * limit in take (nat limit) (drop (nat offset) rows))"

definition list_page :: "'r list \<Rightarrow> js_number \<Rightarrow> js_number option \<Rightarrow> ('r list \<times> ListMeta) result" where
  "list_page rows page limit =
     (let l = clampLimit limit 100 DEFAULT_LIMIT
      in res_bind (clampPage page (js_int l) MAX_PAGE_OFFSET) (\<lambda>(p, l).
         Inr (page_rows rows p l, buildPageMeta (int (length rows)) p l None None None None)))"

lemma ceil_div_bounds:
  assumes "0 < b"
  shows "a \<le> ceil_div a b * b \<and> (ceil_div a b - 1) * b < a"
proof -
  define q where "q = (- a) div b"
  have "q * b + (- a) mod b = - a" by (simp add: q_def)
  moreover have "0 \<le> (- a) mod b" "(- a) mod b < b" using assms by simp_all
  moreover have "ceil_div a b * b = - (q * b)" "(ceil_div a b - 1) * b = - (q * b) - b"
    by (simp_all add: ceil_div_def q_def algebra_simps)
  ultimately show ?thesis by linarith
qed

lemma less_ceil_div: "0 < b \<Longrightarrow> p < ceil_div a b \<longleftrightarrow> p * b < a"
proof -
  assume b: "0 < b"
  note bounds = ceil_div_bounds [OF b, of a]
  show "p < ceil_div a b \<longleftrightarrow> p * b < a"
  proof
    assume "p < ceil_div a b"
    then have "p * b \<le> (ceil_div a b - 1) * b" using b by (intro mult_right_mono) auto
    with bounds show "p * b < a" by linarith
  next
    assume "p * b < a"
    with bounds have "p * b < ceil_div a b * b" by linarith
    with b show "p < ceil_div a b" by simp
  qed
qed

text \<open>The pages before page \<open>p + 1\<close>, put together.\<close>

lemma pages_prefix:
  assumes "1 \<le> l"
  shows "concat (map (\<lambda>p. page_rows rows (int p) (int l)) [1..<Suc n]) = take (n * l) rows"
proof (induction n)
  case (Suc n)
  have "page_rows rows (int (Suc n)) (int l) = take l (drop (n * l) rows)"
    by (simp add: page_rows_def nat_mult_distrib)
  with Suc show ?case by (simp add: take_add add.commute [of l])
qed simp

text \<open>
  Following a listing page by page: with any limit asked for, the pages \<open>1 \<dots> n\<close> that lie
  within the bound on the offset are served, hold together exactly the first \<open>n * l\<close> rows,
  each once and in order, and page \<open>n\<close> announces more rows exactly when there are more. The
  next page is refused exactly when \<open>(n + 1) * l\<close> passes 9999, also when more rows were
  announced.
\<close>

lemma pages_reach:
  fixes rows :: "'r list" and limit :: "js_number option" and n :: nat
  defines "l \<equiv> nat (clampLimit limit 100 DEFAULT_LIMIT)"
  assumes "1 \<le> n" and "n * l \<le> 9999"
  shows "\<exists>pages. map (\<lambda>p. list_page rows (js_int (int p)) limit) [1..<Suc n] = map Inr pages
    \<and> concat (map fst pages) = take (n * l) rows
    \<and> lm_hasMore (snd (last pages)) = (n * l < length rows)
    \<and> (list_page rows (js_int (int (n + 1))) limit = Inl page_error) = (9999 < (n + 1) * l)"
proof -
  have clamp: "1 \<le> clampLimit limit 100 DEFAULT_LIMIT" using clampLimit_bounds [of DEFAULT_LIMIT 100 limit]
    by (simp add: DEFAULT_LIMIT_def)
  then have l: "1 \<le> l" "int l = clampLimit limit 100 DEFAULT_LIMIT" by (simp_all add: l_def)
  have one: "list_page rows (js_int (int p)) limit =
      (if p < 1 \<or> 9999 < p * l then Inl page_error
       else Inr (page_rows rows (int p) (int l), buildPageMeta (int (length rows)) (int p) (int l) None None None None))" for p
  proof -
    have "int p * int l > 9999 \<longleftrightarrow> 9999 < p * l" by (simp flip: of_nat_mult)
    then show ?thesis using l unfolding list_page_def l(2) [symmetric] clampPage_int MAX_PAGE_OFFSET_def by simp
  qed
  let ?pages = "map (\<lambda>p. (page_rows rows (int p) (int l),
      buildPageMeta (int (length rows)) (int p) (int l) None None None None)) [1..<Suc n]"
  have "p * l \<le> 9999" if "p < Suc n" for p
    using that assms(3) mult_right_mono [of p n l] by linarith
  then have fits: "\<not> (p < 1 \<or> 9999 < p * l)" if "p \<in> set [1..<Suc n]" for p using that by (auto simp: not_less)
  have "map (\<lambda>p. list_page rows (js_int (int p)) limit) [1..<Suc n] = map Inr ?pages"
    unfolding map_map comp_def
  proof (rule map_cong [OF refl])
    fix p assume "p \<in> set [1..<Suc n]"
    from fits [OF this] show "list_page rows (js_int (int p)) limit = Inr (page_rows rows (int p) (int l),
        buildPageMeta (int (length rows)) (int p) (int l) None None None None)"
      unfolding one by (rule if_not_P)
  qed
  moreover have "concat (map fst ?pages) = take (n * l) rows"
    using pages_prefix [OF l(1), of rows n] by (simp add: comp_def)
  moreover have "lm_hasMore (snd (last ?pages)) = (n * l < length rows)"
  proof -
    have "last ?pages = (page_rows rows (int n) (int l), buildPageMeta (int (length rows)) (int n) (int l) None None None None)"
      using assms(2) by (simp add: last_map)
    moreover have "int n < ceil_div (int (length rows)) (int l) \<longleftrightarrow> n * l < length rows"
      using l(1) by (simp add: less_ceil_div flip: of_nat_mult)
    ultimately show ?thesis using l(1) by (simp add: buildPageMeta_def Let_def)
  qed
  moreover have "(list_page rows (js_int (int (n + 1))) limit = Inl page_error) = (9999 < (n + 1) * l)"
    unfolding one by simp
  ultimately show ?thesis by blast
qed

end
