(* ===== verification/PickerSearch.thy ===== *)
theory PickerSearch
  imports Pagination AuditSanitize
begin

text \<open>
  The typeahead of the pickers (\<open>common/pagination/picker-search.ts\<close>) and the lookup of
  inventory items that uses it (\<open>searchForPicker\<close> of \<open>inventory-item.service.ts\<close>). The
  database's \<open>LOWER\<close> depends on its collation and is an argument.
\<close>

section \<open>Query texts\<close>

definition PICKER_SEARCH_DEFAULT_LIMIT :: int where
  "PICKER_SEARCH_DEFAULT_LIMIT = 20"

definition PICKER_SEARCH_MAX_LIMIT :: int where
  "PICKER_SEARCH_MAX_LIMIT = 20"

definition clampPickerSearchLimit :: "js_number option \<Rightarrow> int" where
  "clampPickerSearchLimit limit = clampLimit limit PICKER_SEARCH_MAX_LIMIT PICKER_SEARCH_DEFAULT_LIMIT"

definition assertPickerLimit :: "js_number \<Rightarrow> unit result" where
  "assertPickerLimit limit =
     (case limit of
        Finite x \<Rightarrow> guard_ok (\<not> (x < 1 \<or> x > of_int PICKER_SEARCH_MAX_LIMIT)) page_error
      | Not_Finite \<Rightarrow> Inl page_error)"

text \<open>Every run of white space becomes one space.\<close>

fun collapse_spaces :: "bool \<Rightarrow> string \<Rightarrow> string" where
  "collapse_spaces inside [] = []"
| "collapse_spaces inside (c # s) =
     (if is_space c then (if inside then collapse_spaces True s else CHR '' '' # collapse_spaces True s)
      else c # collapse_spaces False s)"

definition normalizePickerQuery :: "string option \<Rightarrow> string" where
  "normalizePickerQuery q = collapse_spaces False (js_trim (case q of None \<Rightarrow> [] | Some s \<Rightarrow> s))"

definition backslash :: char where
  "backslash = CHR 0x5C"

definition replace_char :: "char \<Rightarrow> string \<Rightarrow> string \<Rightarrow> string" where
  "replace_char c new_text v = concat (map (\<lambda>d. if d = c then new_text else [d]) v)"

definition escapePickerLikePattern :: "string \<Rightarrow> string" where
  "escapePickerLikePattern v =
     replace_char CHR ''_'' [backslash, CHR ''_''] (replace_char CHR ''%'' [backslash, CHR ''%'']
       (replace_char backslash [backslash, backslash] v))"

section \<open>Searching inventory items\<close>

record inventory_item =
  ii_id :: string
  ii_tenantId :: string
  ii_sku :: string
  ii_name :: string
  ii_brand :: "string option"
  ii_model :: "string option"
  ii_barcode :: "string option"
  ii_status :: string

record PickerSearchItem =
  pk_id :: string
  pk_label :: string
  pk_sublabel :: "string option"

definition coalesce :: "string option \<Rightarrow> string" where
  "coalesce v = (case v of None \<Rightarrow> [] | Some s \<Rightarrow> s)"

definition searched_texts :: "inventory_item \<Rightarrow> string list" where
  "searched_texts item = [ii_sku item, ii_name item, coalesce (ii_brand item), coalesce (ii_model item), coalesce (ii_barcode item)]"

definition picker_matches :: "(string \<Rightarrow> string) \<Rightarrow> string \<Rightarrow> string \<Rightarrow> string option \<Rightarrow> inventory_item \<Rightarrow> bool" where
  "picker_matches sql_lower tenantId like status item =
     (ii_tenantId item = tenantId \<and> list_ex (\<lambda>text. sql_like like (sql_lower text)) (searched_texts item)
      \<and> (case status of None \<Rightarrow> True | Some s \<Rightarrow> ii_status item = s))"

text \<open>\<open>ORDER BY name, id\<close> is the collation's order \<open>sql_le\<close>.\<close>

definition searchForPicker ::
  "(string \<Rightarrow> string) \<Rightarrow> (inventory_item \<Rightarrow> inventory_item \<Rightarrow> bool) \<Rightarrow> string \<Rightarrow> string option \<Rightarrow> js_number option \<Rightarrow>
    string option \<Rightarrow> inventory_item list \<Rightarrow> PickerSearchItem list \<times> nat" where
  "searchForPicker sql_lower sql_le tenantId query limit status items =
     (let l = clampPickerSearchLimit limit; q = normalizePickerQuery query
      in if q = [] then ([], 0)
         else let like = ''%'' @ escapePickerLikePattern (toLowerCase q) @ ''%'';
                  matching = filter (picker_matches sql_lower tenantId like status) items;
                  rows = take (nat l) (js_sort sql_le matching)
              in (map (\<lambda>item. \<lparr>pk_id = ii_id item, pk_label = ii_name item, pk_sublabel = Some (''SKU '' @ ii_sku item)\<rparr>) rows,
                  length matching))"

section \<open>Escaped patterns\<close>

definition escape_char :: "char \<Rightarrow> string" where
  "escape_char c = (if c = backslash \<or> c = CHR ''%'' \<or> c = CHR ''_'' then [backslash, c] else [c])"

lemma replace_char_Cons: "replace_char c t (d # v) = (if d = c then t else [d]) @ replace_char c t v"
  by (simp add: replace_char_def)

lemma replace_char_append: "replace_char c t (v @ w) = replace_char c t v @ replace_char c t w"
  by (simp add: replace_char_def)

lemma escape_eq: "escapePickerLikePattern v = concat (map escape_char v)"
proof (induction v)
  case Nil
  show ?case by (simp add: escapePickerLikePattern_def replace_char_def)
next
  case (Cons c v)
  have "escapePickerLikePattern (c # v) = escape_char c @ escapePickerLikePattern v"
    by (simp add: escapePickerLikePattern_def replace_char_Cons replace_char_append escape_char_def backslash_def
        replace_char_def [of _ _ "[]"])
  with Cons show ?case by simp
qed

lemma like_escape_char:
  "sql_like (escape_char c @ p) s \<longleftrightarrow> (\<exists>t. s = c # t \<and> sql_like p t)"
  by (cases s) (auto simp: escape_char_def backslash_def)

lemma like_escaped:
  "sql_like (escapePickerLikePattern v @ p) s \<longleftrightarrow> (\<exists>t. s = v @ t \<and> sql_like p t)"
proof (induction v arbitrary: s)
  case (Cons c v)
  show ?case unfolding escape_eq list.map concat.simps append_assoc like_escape_char
    using Cons unfolding escape_eq by auto
qed (simp add: escape_eq)

lemma like_percent: "sql_like (CHR ''%'' # p) s \<longleftrightarrow> (\<exists>a b. s = a @ b \<and> sql_like p b)"
proof (induction s)
  case (Cons c s)
  show ?case
  proof
    assume "sql_like (CHR ''%'' # p) (c # s)"
    with Cons show "\<exists>a b. c # s = a @ b \<and> sql_like p b" by simp (metis append_Cons append_Nil)
  next
    assume "\<exists>a b. c # s = a @ b \<and> sql_like p b"
    then obtain a b where ab: "c # s = a @ b" "sql_like p b" by blast
    show "sql_like (CHR ''%'' # p) (c # s)"
    proof (cases a)
      case Nil
      with ab show ?thesis by simp
    next
      case (Cons d a')
      with ab have "\<exists>a b. s = a @ b \<and> sql_like p b" by auto
      with \<open>sql_like (CHR ''%'' # p) s \<longleftrightarrow> _\<close> show ?thesis by simp
    qed
  qed
qed simp

text \<open>The text contains the other one.\<close>

definition contains :: "string \<Rightarrow> string \<Rightarrow> bool" where
  "contains text part = (\<exists>a b. text = a @ part @ b)"

lemma like_contains: "sql_like (''%'' @ escapePickerLikePattern v @ ''%'') s \<longleftrightarrow> contains s v"
  using like_escaped [of v "''%''"] sql_like_percent by (auto simp: like_percent contains_def simp del: sql_like.simps)

lemma collapse_idem: "collapse_spaces i (collapse_spaces i s) = collapse_spaces i s"
  by (induction i s rule: collapse_spaces.induct) (auto simp: is_space_def char_code_bits)

lemma clampPicker_bounds: "1 \<le> clampPickerSearchLimit limit \<and> clampPickerSearchLimit limit \<le> 20"
  unfolding clampPickerSearchLimit_def PICKER_SEARCH_MAX_LIMIT_def PICKER_SEARCH_DEFAULT_LIMIT_def
  by (rule clampLimit_bounds) simp_all

text \<open>
  The typeahead finds exactly the tenant's items of the wanted status one of whose texts,
  in lower case, contains the query in lower case, with its wildcards and backslashes taken
  literally; it counts all of them, shows at most twenty, in order, and nothing for a blank
  query.
\<close>

lemma picker_search_exact:
  fixes query status :: "string option" and tenantId :: string and sql_lower :: "string \<Rightarrow> string" and items :: "inventory_item list"
  defines "q \<equiv> normalizePickerQuery query"
  defines "found \<equiv> (if q = [] then [] else filter (\<lambda>item.
      ii_tenantId item = tenantId \<and> (case status of None \<Rightarrow> True | Some s \<Rightarrow> ii_status item = s)
      \<and> list_ex (\<lambda>text. contains (sql_lower text) (toLowerCase q)) (searched_texts item)) items)"
  shows "snd (searchForPicker sql_lower sql_le tenantId query limit status items) = length found
    \<and> map pk_id (fst (searchForPicker sql_lower sql_le tenantId query limit status items))
        = map ii_id (take (nat (clampPickerSearchLimit limit)) (js_sort sql_le found))
    \<and> length (fst (searchForPicker sql_lower sql_le tenantId query limit status items)) \<le> 20"
proof -
  let ?l = "nat (clampPickerSearchLimit limit)"
  have "filter (picker_matches sql_lower tenantId (''%'' @ escapePickerLikePattern (toLowerCase q) @ ''%'') status) items
      = found" if "q \<noteq> []"
    unfolding found_def picker_matches_def like_contains using that by (simp add: conj_commute conj_left_commute)
  then have "searchForPicker sql_lower sql_le tenantId query limit status items
      = (map (\<lambda>item. \<lparr>pk_id = ii_id item, pk_label = ii_name item, pk_sublabel = Some (''SKU '' @ ii_sku item)\<rparr>)
           (take ?l (js_sort sql_le found)), length found)"
    unfolding searchForPicker_def q_def [symmetric] Let_def by (cases "q = []") (simp_all add: found_def)
  moreover have "?l \<le> 20" using clampPicker_bounds [of limit] by linarith
  ultimately show ?thesis by (simp add: comp_def)
qed

end
