(* ===== verification/Ipv4.thy ===== *)
theory Ipv4
  imports Prelude "HOL-Library.Word"
begin

text \<open>
  IPv4 addresses: the texts and the arithmetic of \<open>contracts/network/network.ipv4.ts\<close>, the
  \<open>inet\<close> and \<open>cidr\<close> operators of PostgreSQL that the network services and the migrations
  use, on 32-bit words, and the agreement of the two on which addresses a router may own.
\<close>

unbundle bit_operations_syntax

section \<open>The operators of PostgreSQL\<close>

text \<open>An \<open>inet\<close> value: the address and the length of its mask.\<close>

type_synonym ipv4 = "32 word"

type_synonym inet = "ipv4 \<times> nat"

abbreviation host_mask :: "nat \<Rightarrow> ipv4" where
  "host_mask p \<equiv> mask (32 - p)"

text \<open>\<open>network(a)\<close> and \<open>broadcast(a)\<close>.\<close>

definition network_of :: "inet \<Rightarrow> ipv4" where
  "network_of a = fst a AND NOT (host_mask (snd a))"

definition broadcast_of :: "inet \<Rightarrow> ipv4" where
  "broadcast_of a = fst a OR host_mask (snd a)"

text \<open>\<open>a <<= b\<close> and \<open>a << b\<close>.\<close>

definition contained_eq :: "inet \<Rightarrow> inet \<Rightarrow> bool" where
  "contained_eq a b = (snd b \<le> snd a \<and> network_of (fst a, snd b) = network_of b)"

definition contained :: "inet \<Rightarrow> inet \<Rightarrow> bool" where
  "contained a b = (contained_eq a b \<and> snd b < snd a)"

text \<open>\<open>a && b\<close>.\<close>

definition overlaps :: "inet \<Rightarrow> inet \<Rightarrow> bool" where
  "overlaps a b = (contained_eq a b \<or> contained_eq b a)"

definition multicast_block :: inet where
  "multicast_block = (0xE0000000, 4)"

text \<open>\<open>usable\<close> of \<open>readAddressFacts\<close>, and the check of the table of local addresses.\<close>

definition facts_usable :: "inet \<Rightarrow> bool" where
  "facts_usable a =
     (fst a \<noteq> 0 \<and> fst a \<noteq> 0xFFFFFFFF \<and> \<not> contained a multicast_block
      \<and> (snd a > 30 \<or> (fst a \<noteq> network_of a \<and> fst a \<noteq> broadcast_of a)))"

definition ck_usable :: "inet \<Rightarrow> bool" where
  "ck_usable a =
     (fst a \<noteq> 0 \<and> fst a \<noteq> 0xFFFFFFFF \<and> \<not> contained (fst a, 32) multicast_block
      \<and> (snd a > 30 \<or> (fst a \<noteq> network_of a \<and> fst a \<noteq> broadcast_of a)))"

section \<open>Texts\<close>

definition char_between :: "char \<Rightarrow> char \<Rightarrow> char \<Rightarrow> bool" where
  "char_between a b c = (char_code a \<le> char_code c \<and> char_code c \<le> char_code b)"

text \<open>\<open>25[0-5]|2[0-4]\d|1\d\d|[1-9]?\d\<close>.\<close>

definition octet_ok :: "string \<Rightarrow> bool" where
  "octet_ok s =
     (case s of
        [a] \<Rightarrow> is_digit a
      | [a, b] \<Rightarrow> char_between CHR ''1'' CHR ''9'' a \<and> is_digit b
      | [a, b, c] \<Rightarrow>
          (a = CHR ''2'' \<and> b = CHR ''5'' \<and> char_between CHR ''0'' CHR ''5'' c)
          \<or> (a = CHR ''2'' \<and> char_between CHR ''0'' CHR ''4'' b \<and> is_digit c)
          \<or> (a = CHR ''1'' \<and> is_digit b \<and> is_digit c)
      | _ \<Rightarrow> False)"

text \<open>\<open>s.split(c)\<close>.\<close>

fun split_at :: "char \<Rightarrow> string \<Rightarrow> string list" where
  "split_at c [] = [[]]"
| "split_at c (x # xs) =
     (if x = c then [] # split_at c xs
      else (case split_at c xs of [] \<Rightarrow> [[x]] | part # parts \<Rightarrow> (x # part) # parts))"

definition ipv4AddressPattern :: "string \<Rightarrow> bool" where
  "ipv4AddressPattern host = (let parts = split_at CHR ''.'' host in length parts = 4 \<and> list_all octet_ok parts)"

definition toIpv4Integer :: "string \<Rightarrow> int option" where
  "toIpv4Integer host =
     (if \<not> ipv4AddressPattern host then None
      else Some (foldl (\<lambda>v octet. v * 256 + parse_digits octet) 0 (split_at CHR ''.'' host)))"

definition isMulticast :: "int \<Rightarrow> bool" where
  "isMulticast host = (host \<ge> 0xE0000000 \<and> host \<le> 0xEFFFFFFF)"

definition isUsableIpv4Host :: "string \<Rightarrow> int \<Rightarrow> bool" where
  "isUsableIpv4Host host prefixLength =
     (case toIpv4Integer host of
        None \<Rightarrow> False
      | Some address \<Rightarrow>
          if prefixLength < 1 \<or> prefixLength > 32 then False
          else if address = 0 \<or> address = 0xFFFFFFFF \<or> isMulticast address then False
          else if prefixLength \<ge> 31 then True
          else
            let hostBits = nat (32 - prefixLength);
                hostMask = 2 ^ hostBits - 1;
                networkAddress = address div 2 ^ hostBits * 2 ^ hostBits;
                broadcastAddress = networkAddress + hostMask
            in address \<noteq> networkAddress \<and> address \<noteq> broadcastAddress)"

text \<open>\<open>Ipv4AddressWithPrefixSchema\<close>.\<close>

definition prefix_ok :: "string \<Rightarrow> bool" where
  "prefix_ok s =
     (case s of
        [a] \<Rightarrow> char_between CHR ''1'' CHR ''9'' a
      | [a, b] \<Rightarrow> (char_between CHR ''1'' CHR ''2'' a \<and> is_digit b) \<or> (a = CHR ''3'' \<and> char_between CHR ''0'' CHR ''2'' b)
      | _ \<Rightarrow> False)"

definition Ipv4AddressWithPrefix :: "string \<Rightarrow> inet option" where
  "Ipv4AddressWithPrefix value =
     (case split_at CHR ''/'' value of
        [host, prefix] \<Rightarrow>
          if ipv4AddressPattern host \<and> prefix_ok prefix \<and> isUsableIpv4Host host (parse_digits prefix)
          then map_option (\<lambda>n. (word_of_int n, nat (parse_digits prefix))) (toIpv4Integer host)
          else None
      | _ \<Rightarrow> None)"

text \<open>\<open>[...new Set(hosts)]\<close> keeps first occurrences.\<close>

definition normalizeIpv4Exclusions :: "'a list \<Rightarrow> 'a list" where
  "normalizeIpv4Exclusions hosts = rev (remdups (rev hosts))"

section \<open>Bounds\<close>

lemma octet_bounds: "octet_ok s \<Longrightarrow> 0 \<le> parse_digits s \<and> parse_digits s < 256"
  by (auto simp: octet_ok_def parse_digits_def digit_val_def is_digit_def char_between_def char_code_bits
      split: list.splits)

lemma toIpv4Integer_bounds:
  assumes "toIpv4Integer host = Some n"
  shows "0 \<le> n \<and> n < 2 ^ 32"
proof -
  from assms have ok: "ipv4AddressPattern host"
    and n: "n = foldl (\<lambda>v octet. v * 256 + parse_digits octet) 0 (split_at CHR ''.'' host)"
    by (auto simp: toIpv4Integer_def split: if_splits)
  from ok obtain a b c d where parts: "split_at CHR ''.'' host = [a, b, c, d]" "octet_ok a" "octet_ok b" "octet_ok c" "octet_ok d"
    by (auto simp: ipv4AddressPattern_def Let_def length_Suc_conv numeral_eq_Suc)
  from parts(2-) [THEN octet_bounds] show ?thesis unfolding n parts(1) by simp
qed

section \<open>The two readings of an address\<close>

lemma network_bits: "network_of (a, p) = push_bit (32 - p) (drop_bit (32 - p) a)"
  by (rule bit_eqI) (auto simp: network_of_def bit_simps)

lemma int_or_mask: "(k :: int) OR mask n = k div 2 ^ n * 2 ^ n + (2 ^ n - 1)"
proof -
  have "push_bit n (drop_bit n k) + mask n = push_bit n (drop_bit n k) OR mask n"
    by (rule disjunctive_add) (auto simp: bit_simps)
  also have "\<dots> = k OR mask n" by (rule bit_eqI) (auto simp: bit_simps)
  finally show ?thesis by (simp add: push_bit_eq_mult drop_bit_eq_div mask_eq_exp_minus_1)
qed

lemma uint_network: "uint (network_of (a, p)) = uint a div 2 ^ (32 - p) * 2 ^ (32 - p)"
proof -
  let ?n = "32 - p"
  have "uint a div 2 ^ ?n * 2 ^ ?n \<le> uint a"
    using div_mult_mod_eq [of "uint a" "2 ^ ?n"] pos_mod_sign [of "2 ^ ?n" "uint a"] zero_less_power [of "2 :: int" ?n]
    by linarith
  moreover have "uint a < 2 ^ 32" using uint_bounded [of a] by simp
  ultimately have "uint a div 2 ^ ?n * 2 ^ ?n < 2 ^ 32" by linarith
  moreover have "0 \<le> uint a div 2 ^ ?n * 2 ^ ?n" by (simp add: pos_imp_zdiv_nonneg_iff)
  ultimately have "take_bit 32 (uint a div 2 ^ ?n * 2 ^ ?n) = uint a div 2 ^ ?n * 2 ^ ?n"
    by (simp add: take_bit_int_eq_self)
  then show ?thesis
    unfolding network_bits unsigned_push_bit_eq unsigned_drop_bit_eq
    by (simp add: push_bit_eq_mult drop_bit_eq_div bintr_uint)
qed

lemma uint_broadcast: "uint (broadcast_of (a, p)) = uint a div 2 ^ (32 - p) * 2 ^ (32 - p) + (2 ^ (32 - p) - 1)"
proof -
  have "uint (mask (32 - p) :: ipv4) = mask (32 - p)" by (cases "p = 0") (simp_all add: uint_mask_eq min_def)
  then show ?thesis by (simp add: broadcast_of_def uint_or int_or_mask)
qed

lemma multicast_iff: "contained (a, 32) multicast_block \<longleftrightarrow> isMulticast (uint a)"
proof -
  have "network_of (a, 4) = network_of (0xE0000000, 4) \<longleftrightarrow> uint a div 2 ^ 28 * 2 ^ 28 = 0xE0000000"
    unfolding word_uint_eq_iff uint_network by simp
  also have "\<dots> \<longleftrightarrow> isMulticast (uint a)"
    unfolding isMulticast_def by (simp, arith)
  finally show ?thesis by (simp add: contained_def contained_eq_def multicast_block_def)
qed

text \<open>
  The shared schema and the database agree on the addresses that a router may own: for
  every text and prefix, \<open>isUsableIpv4Host\<close> in floating-point arithmetic decides what the
  check constraint of the table decides on \<open>inet\<close> values. The query of the service, which
  compares the address with its own mask against the multicast block, accepts in addition
  the multicast addresses with a prefix of at most four bits.
\<close>

lemma usable_host_agree:
  assumes "toIpv4Integer host = Some n" and "1 \<le> p" and "p \<le> 32"
  shows "isUsableIpv4Host host (int p) = ck_usable (word_of_int n, p)
    \<and> facts_usable (word_of_int n, p) = (ck_usable (word_of_int n, p)
        | p \<le> 4 \<and> isMulticast n \<and> word_of_int n \<noteq> network_of (word_of_int n, p)
            \<and> word_of_int n \<noteq> broadcast_of (word_of_int n, p))"
proof -
  let ?w = "word_of_int n :: ipv4"
  have n: "uint ?w = n" using toIpv4Integer_bounds [OF assms(1)] by (simp add: uint_word_of_int)
  have zero: "?w = 0 \<longleftrightarrow> n = 0" "?w = 0xFFFFFFFF \<longleftrightarrow> n = 0xFFFFFFFF"
    unfolding word_uint_eq_iff n by simp_all
  have net: "?w = network_of (?w, p) \<longleftrightarrow> n = n div 2 ^ (32 - p) * 2 ^ (32 - p)"
    unfolding word_uint_eq_iff uint_network n ..
  have bro: "?w = broadcast_of (?w, p) \<longleftrightarrow> n = n div 2 ^ (32 - p) * 2 ^ (32 - p) + (2 ^ (32 - p) - 1)"
    unfolding word_uint_eq_iff uint_broadcast n ..
  have bits: "nat (32 - int p) = 32 - p" using assms(3) by simp
  have ts: "isUsableIpv4Host host (int p) = ck_usable (?w, p)"
    using assms unfolding isUsableIpv4Host_def ck_usable_def multicast_iff n fst_conv snd_conv zero net bro
    by (auto simp: bits Let_def)
  have sql: "contained (?w, p) multicast_block \<longleftrightarrow> 4 < p \<and> isMulticast n"
    using multicast_iff [of ?w] by (auto simp: contained_def contained_eq_def multicast_block_def n)
  have "isMulticast n \<Longrightarrow> n \<noteq> 0 \<and> n \<noteq> 0xFFFFFFFF" by (auto simp: isMulticast_def)
  then have "facts_usable (?w, p) = (ck_usable (?w, p)
        | p \<le> 4 \<and> isMulticast n \<and> ?w \<noteq> network_of (?w, p) \<and> ?w \<noteq> broadcast_of (?w, p))"
    unfolding facts_usable_def ck_usable_def multicast_iff sql n fst_conv snd_conv zero
    using assms(3) by (cases "4 < p") auto
  with ts show ?thesis ..
qed

end
