(* ===== verification/NetworkTables.thy ===== *)
theory NetworkTables
  imports Ipv4
begin

text \<open>
  The tables of the network module in one tenant schema: routers, interfaces and their local
  addresses, IPv4 networks, service provisionings, address assignments and the inbox of
  execution events (migrations 160, 161 and 165, entities under
  \<open>packages/database/src/entities\<close>). Rows stand in the order of their creation. The tenant
  identifier, who created a row and the clock columns that no code reads back are left out.
\<close>

section \<open>Rows\<close>

datatype CatalogStatus = CATALOG_ACTIVE | CATALOG_INACTIVE

datatype ControlMethod = SIMPLE_QUEUE_STATIC_IP | PCQ_ADDRESS_LIST

datatype ControlParams = Simple_Queue string | Pcq_Address_List string

datatype InterfaceKind = PHYSICAL | BRIDGE | VLAN | OTHER_KIND

datatype IpAssignmentStatus = IP_RESERVED | IP_ACTIVE | IP_RELEASED

datatype ServiceProvisioningStatus = SP_RESERVED | SP_CERTIFIED | SP_ACTIVE | SP_FAILED | SP_RELEASED

datatype ReleaseReason = NOT_EXECUTED | CANCELLED | ANNULLED | REPLACED | MANUAL | RECONCILED

datatype CommercialActivationStatus = NOT_APPLICABLE | PENDING | DONE | BLOCKED

datatype CommercialDetail = CONTACT_REQUIRED | FISCAL_INCOMPLETE | NO_EXPEDIENTE

datatype ProvisioningOrigin = NORMAL | REGULARIZED

record network_router =
  nr_id :: string
  nr_name :: string
  nr_managementHost :: string
  nr_lanInterface :: "string option"
  nr_methods :: "ControlMethod list"
  nr_site :: "string option"
  nr_node :: "string option"
  nr_notes :: "string option"
  nr_status :: CatalogStatus
  nr_legacyLan :: "string option"
  nr_version :: int

record router_interface =
  if_id :: string
  if_router :: string
  if_name :: string
  if_kind :: InterfaceKind
  if_notes :: "string option"
  if_status :: CatalogStatus
  if_version :: int

record local_address =
  la_id :: string
  la_router :: string
  la_interface :: string
  la_address :: inet
  la_notes :: "string option"
  la_version :: int

record ipv4_network =
  nw_id :: string
  nw_router :: string
  nw_interface :: "string option"
  nw_name :: string
  nw_cidr :: inet
  nw_gateway :: ipv4
  nw_from :: ipv4
  nw_to :: ipv4
  nw_excluded :: "ipv4 list"
  nw_method :: ControlMethod
  nw_status :: CatalogStatus
  nw_version :: int

record ip_assignment =
  ia_id :: string
  ia_network :: string
  ia_ip :: ipv4
  ia_provisioning :: string
  ia_status :: IpAssignmentStatus
  ia_releasedAt :: "int option"
  ia_releaseReason :: "ReleaseReason option"

record service_provisioning =
  sp_id :: string
  sp_subscriber :: string
  sp_expediente :: "string option"
  sp_contract :: "string option"
  sp_order :: string
  sp_router :: string
  sp_network :: string
  sp_assignment :: "string option"
  sp_controlParams :: ControlParams
  sp_plan :: "string option"
  sp_downloadMbps :: "int option"
  sp_uploadMbps :: "int option"
  sp_cpeSerial :: "string option"
  sp_cpeMac :: "string option"
  sp_status :: ServiceProvisioningStatus
  sp_origin :: ProvisioningOrigin
  sp_reservedBy :: "string option"
  sp_reservedAt :: "int option"
  sp_certifiedBy :: "string option"
  sp_certifiedAt :: "int option"
  sp_evidence :: "string option"
  sp_activatedAt :: "int option"
  sp_releasedAt :: "int option"
  sp_releasedBy :: "string option"
  sp_releaseReason :: "ReleaseReason option"
  sp_regularizationReason :: "string option"
  sp_regularizedBy :: "string option"
  sp_regularizedAt :: "int option"
  sp_failureReason :: "string option"
  sp_commercial :: CommercialActivationStatus
  sp_commercialDetail :: "CommercialDetail option"
  sp_version :: int

datatype event_type = ExecutionOrderClosedV1 | ExecutionOrderCancelledV1 | ExecutionOrderAnnulledV1

datatype execution_result = EXECUTED | EXECUTED_WITH_OBSERVATIONS | RESULT_NOT_EXECUTED | RESULT_CANCELLED | RESULT_REQUIRES_FOLLOW_UP

record NetworkExecutionEvent =
  ne_eventId :: string
  ne_eventType :: event_type
  ne_executionOrderId :: string
  ne_result :: "execution_result option"

datatype inbox_error =
    SIGNATURE_INVALID | ORDER_NOT_FOUND | IPAM_CONFLICT | CRM_LISTENER_FAILED | INVENTORY_LISTENER_FAILED | UNEXPECTED

record inbox_event =
  ib_eventId :: string
  ib_eventType :: event_type
  ib_order :: string
  ib_processedAt :: "int option"
  ib_lastErrorCode :: "inbox_error option"

record net_db =
  nd_routers :: "network_router list"
  nd_interfaces :: "router_interface list"
  nd_addresses :: "local_address list"
  nd_networks :: "ipv4_network list"
  nd_provisionings :: "service_provisioning list"
  nd_assignments :: "ip_assignment list"
  nd_inbox :: "inbox_event list"

definition net_empty :: net_db where
  "net_empty = \<lparr>nd_routers = [], nd_interfaces = [], nd_addresses = [], nd_networks = [], nd_provisionings = [],
     nd_assignments = [], nd_inbox = []\<rparr>"

section \<open>Reading and writing rows\<close>

definition find_router :: "string \<Rightarrow> net_db \<Rightarrow> network_router option" where
  "find_router k db = find (\<lambda>r. nr_id r = k) (nd_routers db)"

definition find_interface :: "string \<Rightarrow> string \<Rightarrow> net_db \<Rightarrow> router_interface option" where
  "find_interface routerId k db = find (\<lambda>i. if_id i = k \<and> if_router i = routerId) (nd_interfaces db)"

definition find_network :: "string \<Rightarrow> net_db \<Rightarrow> ipv4_network option" where
  "find_network k db = find (\<lambda>n. nw_id n = k) (nd_networks db)"

definition find_provisioning :: "string \<Rightarrow> net_db \<Rightarrow> service_provisioning option" where
  "find_provisioning k db = find (\<lambda>s. sp_id s = k) (nd_provisionings db)"

definition replace_row :: "('r \<Rightarrow> string) \<Rightarrow> 'r \<Rightarrow> 'r list \<Rightarrow> 'r list" where
  "replace_row key row rows = map (\<lambda>r. if key r = key row then row else r) rows"

abbreviation save_router :: "network_router \<Rightarrow> net_db \<Rightarrow> net_db" where
  "save_router r db \<equiv> db\<lparr>nd_routers := replace_row nr_id r (nd_routers db)\<rparr>"

abbreviation save_interface :: "router_interface \<Rightarrow> net_db \<Rightarrow> net_db" where
  "save_interface i db \<equiv> db\<lparr>nd_interfaces := replace_row if_id i (nd_interfaces db)\<rparr>"

abbreviation save_network :: "ipv4_network \<Rightarrow> net_db \<Rightarrow> net_db" where
  "save_network n db \<equiv> db\<lparr>nd_networks := replace_row nw_id n (nd_networks db)\<rparr>"

abbreviation save_provisioning :: "service_provisioning \<Rightarrow> net_db \<Rightarrow> net_db" where
  "save_provisioning s db \<equiv> db\<lparr>nd_provisionings := replace_row sp_id s (nd_provisionings db)\<rparr>"

abbreviation save_assignment :: "ip_assignment \<Rightarrow> net_db \<Rightarrow> net_db" where
  "save_assignment a db \<equiv> db\<lparr>nd_assignments := replace_row ia_id a (nd_assignments db)\<rparr>"

abbreviation save_inbox :: "inbox_event \<Rightarrow> net_db \<Rightarrow> net_db" where
  "save_inbox e db \<equiv> db\<lparr>nd_inbox := replace_row ib_eventId e (nd_inbox db)\<rparr>"

definition ia_live :: "ip_assignment \<Rightarrow> bool" where
  "ia_live a = (ia_status a = IP_RESERVED \<or> ia_status a = IP_ACTIVE)"

lemma find_SomeD: "find P xs = Some x \<Longrightarrow> x \<in> set xs \<and> P x"
  by (auto simp: find_Some_iff)

lemma find_distinct:
  "distinct (map key xs) \<Longrightarrow> x \<in> set xs \<Longrightarrow> find (\<lambda>r. key r = key x) xs = Some x"
  by (induction xs) (auto simp: image_iff)

lemma map_replace_row [simp]: "map key (replace_row key row rows) = map key rows"
  by (auto simp: replace_row_def)

lemma length_replace_row [simp]: "length (replace_row key row rows) = length rows"
  by (simp add: replace_row_def)

lemma set_replace_rowD:
  "r \<in> set (replace_row key row rows) \<Longrightarrow> (r = row \<and> (\<exists>r0 \<in> set rows. key r0 = key row)) \<or> (r \<in> set rows \<and> key r \<noteq> key row)"
  by (auto simp: replace_row_def split: if_splits)

lemma in_replace_row_other:
  "r \<in> set rows \<Longrightarrow> key r \<noteq> key row \<Longrightarrow> r \<in> set (replace_row key row rows)"
  unfolding replace_row_def set_map by (rule image_eqI [of _ _ r]) simp_all

lemma in_replace_row_same:
  "r \<in> set rows \<Longrightarrow> key r = key row \<Longrightarrow> row \<in> set (replace_row key row rows)"
  unfolding replace_row_def set_map by (rule image_eqI [of _ _ r]) simp_all

text \<open>A replaced row, in a table whose keys are distinct.\<close>

lemma set_replace_row:
  assumes "r0 \<in> set rows" and "key r0 = key row" and "distinct (map key rows)"
  shows "set (replace_row key row rows) = insert row (set rows - {r0})"
proof -
  have only: "r = r0" if "r \<in> set rows" "key r = key row" for r
    using assms that by (metis distinct_map inj_onD)
  show ?thesis
  proof (intro set_eqI iffI)
    fix r assume "r \<in> set (replace_row key row rows)"
    from set_replace_rowD [OF this] assms(2) show "r \<in> insert row (set rows - {r0})" by auto
  next
    fix r assume "r \<in> insert row (set rows - {r0})"
    then show "r \<in> set (replace_row key row rows)"
      using in_replace_row_same [OF assms(1,2)] in_replace_row_other [of r rows key row] only by auto
  qed
qed

end
