(* ===== verification/NetworkCatalog.thy ===== *)
theory NetworkCatalog
  imports NetworkTables
begin

text \<open>
  The catalog of routers, interfaces, local addresses and IPv4 networks
  (\<open>network-catalog.service.ts\<close>, \<open>network-interface-catalog.service.ts\<close>). Each operation is
  the transaction of its service method on the tables; the advisory and row locks it takes
  make it atomic and are not part of the result. Authorization, the sites of the organisation
  and the commercial nodes belong to other modules and are fields of the environment. The
  audit entries and the response objects are not modelled.
\<close>

section \<open>Environment\<close>

datatype permission = CATALOG_READ | CATALOG_MANAGE | PROVISIONING_EXECUTE | PROVISIONING_CERTIFY | PROVISIONING_REGULARIZE

text \<open>
  The decisions of the authorization facade, the references to sites and nodes (whether they
  are active, if they exist), \<open>lower\<close> of the database and \<open>NETWORK_IP_PROTECTION_STATUS\<close>.
\<close>

record net_env =
  en_siteOrTenantWide :: "string \<Rightarrow> string option \<Rightarrow> permission \<Rightarrow> unit result"
  en_tenantWide :: "string \<Rightarrow> permission \<Rightarrow> unit result"
  en_siteAction :: "string \<Rightarrow> string \<Rightarrow> permission \<Rightarrow> unit result"
  en_createScope :: "string \<Rightarrow> permission \<Rightarrow> unit result"
  en_site :: "string \<Rightarrow> bool option"
  en_node :: "string \<Rightarrow> bool option"
  en_lower :: "string \<Rightarrow> string"
  en_protectionActive :: bool

definition resourceNotFound :: http_error where
  "resourceNotFound = Not_Found ''RESOURCE_NOT_FOUND''"

definition versionConflict :: http_error where
  "versionConflict = Conflict ''VERSION_CONFLICT''"

definition siteOrNodeInactive :: http_error where
  "siteOrNodeInactive = Conflict ''SITE_OR_NODE_INACTIVE''"

definition of_option :: "'e \<Rightarrow> 'a option \<Rightarrow> 'e + 'a" where
  "of_option e v = (case v of None \<Rightarrow> Inl e | Some x \<Rightarrow> Inr x)"

lemma of_option_simps [simp]: "of_option e None = Inl e" "of_option e (Some x) = Inr x"
  by (simp_all add: of_option_def)

declare of_option_def [code_unfold]

section \<open>Routers\<close>

record CreateRouterBody =
  cr_name :: string
  cr_managementHost :: string
  cr_lanInterface :: "string option"
  cr_methods :: "ControlMethod list"
  cr_siteId :: "string option"
  cr_nodeId :: "string option"
  cr_notes :: "string option"

definition check_site :: "net_env \<Rightarrow> string \<Rightarrow> string \<Rightarrow> unit result" where
  "check_site env actorId siteId =
     res_bind (of_option resourceNotFound (en_site env siteId)) (\<lambda>isActive.
     res_bind (en_siteAction env actorId siteId CATALOG_MANAGE) (\<lambda>_.
     guard_ok isActive siteOrNodeInactive))"

definition assertCommercialNodeActive :: "net_env \<Rightarrow> string \<Rightarrow> unit result" where
  "assertCommercialNodeActive env nodeId =
     res_bind (of_option resourceNotFound (en_node env nodeId)) (\<lambda>isActive. guard_ok isActive siteOrNodeInactive)"

definition validateNewRouterReferences :: "net_env \<Rightarrow> CreateRouterBody \<Rightarrow> string \<Rightarrow> unit result" where
  "validateNewRouterReferences env input actorId =
     res_bind (case cr_siteId input of
         Some s \<Rightarrow> check_site env actorId s
       | None \<Rightarrow> en_createScope env actorId CATALOG_MANAGE) (\<lambda>_.
     (case cr_nodeId input of None \<Rightarrow> Inr () | Some n \<Rightarrow> assertCommercialNodeActive env n))"

text \<open>\<open>uq_network_routers_tenant_name\<close>.\<close>

definition router_name_taken :: "net_env \<Rightarrow> string \<Rightarrow> string \<Rightarrow> net_db \<Rightarrow> bool" where
  "router_name_taken env k name db =
     list_ex (\<lambda>r. nr_id r \<noteq> k \<and> en_lower env (nr_name r) = en_lower env name) (nd_routers db)"

definition createRouter :: "net_env \<Rightarrow> CreateRouterBody \<Rightarrow> string \<Rightarrow> string \<Rightarrow> net_db \<Rightarrow> net_db result" where
  "createRouter env input actorId newId db =
     res_bind (validateNewRouterReferences env input actorId) (\<lambda>_.
     let router = \<lparr>nr_id = newId, nr_name = js_trim (cr_name input), nr_managementHost = js_trim (cr_managementHost input),
           nr_lanInterface = cr_lanInterface input, nr_methods = cr_methods input, nr_site = cr_siteId input,
           nr_node = cr_nodeId input, nr_notes = cr_notes input, nr_status = CATALOG_ACTIVE, nr_legacyLan = None,
           nr_version = 1\<rparr>
     in res_bind (guard_ok (\<not> router_name_taken env newId (nr_name router) db) (Conflict ''ROUTER_NAME_IN_USE'')) (\<lambda>_.
        Inr (db\<lparr>nd_routers := nd_routers db @ [router]\<rparr>)))"

text \<open>\<open>undefined\<close> is the outer \<open>None\<close>, \<open>null\<close> the inner one.\<close>

record UpdateRouterBody =
  ur_name :: "string option"
  ur_managementHost :: "string option"
  ur_lanInterface :: "string option"
  ur_methods :: "ControlMethod list option"
  ur_siteId :: "string option option"
  ur_nodeId :: "string option option"
  ur_notes :: "string option"
  ur_version :: int

definition validateRouterReferenceChanges ::
  "net_env \<Rightarrow> network_router \<Rightarrow> UpdateRouterBody \<Rightarrow> string \<Rightarrow> unit result" where
  "validateRouterReferenceChanges env router input actorId =
     res_bind (case ur_siteId input of
         Some (Some s) \<Rightarrow> if nr_site router \<noteq> Some s then check_site env actorId s else Inr ()
       | _ \<Rightarrow> Inr ()) (\<lambda>_.
     (case ur_nodeId input of
         Some (Some n) \<Rightarrow> if nr_node router \<noteq> Some n then assertCommercialNodeActive env n else Inr ()
       | _ \<Rightarrow> Inr ()))"

definition or_keep :: "'a option \<Rightarrow> 'a \<Rightarrow> 'a" where
  "or_keep v old = (case v of None \<Rightarrow> old | Some x \<Rightarrow> x)"

definition updateRouter :: "net_env \<Rightarrow> string \<Rightarrow> UpdateRouterBody \<Rightarrow> string \<Rightarrow> net_db \<Rightarrow> net_db result" where
  "updateRouter env k input actorId db =
     res_bind (of_option resourceNotFound (find_router k db)) (\<lambda>router.
     res_bind (en_siteOrTenantWide env actorId (nr_site router) CATALOG_MANAGE) (\<lambda>_.
     res_bind (guard_ok (nr_version router = ur_version input) versionConflict) (\<lambda>_.
     res_bind (validateRouterReferenceChanges env router input actorId) (\<lambda>_.
     res_bind (case ur_methods input of
         None \<Rightarrow> Inr ()
       | Some methods \<Rightarrow> guard_ok (list_all (\<lambda>n. nw_router n = k \<longrightarrow> nw_method n \<in> set methods) (nd_networks db))
           (Conflict ''CONTROL_METHOD_IN_USE'')) (\<lambda>_.
     let saved = router\<lparr>nr_name := (case ur_name input of None \<Rightarrow> nr_name router | Some s \<Rightarrow> js_trim s),
           nr_managementHost := (case ur_managementHost input of None \<Rightarrow> nr_managementHost router | Some s \<Rightarrow> js_trim s),
           nr_lanInterface := (case ur_lanInterface input of None \<Rightarrow> nr_lanInterface router | Some s \<Rightarrow> Some s),
           nr_methods := or_keep (ur_methods input) (nr_methods router),
           nr_site := or_keep (ur_siteId input) (nr_site router),
           nr_node := or_keep (ur_nodeId input) (nr_node router),
           nr_notes := (case ur_notes input of None \<Rightarrow> nr_notes router | Some s \<Rightarrow> Some s),
           nr_version := nr_version router + 1\<rparr>
     in res_bind (guard_ok (\<not> router_name_taken env k (nr_name saved) db) (Conflict ''ROUTER_NAME_IN_USE'')) (\<lambda>_.
        Inr (save_router saved db)))))))"

definition setRouterStatus :: "net_env \<Rightarrow> string \<Rightarrow> int \<Rightarrow> CatalogStatus \<Rightarrow> string \<Rightarrow> net_db \<Rightarrow> net_db result" where
  "setRouterStatus env k version status actorId db =
     res_bind (of_option resourceNotFound (find_router k db)) (\<lambda>router.
     res_bind (en_siteOrTenantWide env actorId (nr_site router) CATALOG_MANAGE) (\<lambda>_.
     res_bind (guard_ok (nr_version router = version) versionConflict) (\<lambda>_.
     Inr (save_router (router\<lparr>nr_status := status, nr_version := nr_version router + 1\<rparr>) db))))"

section \<open>Local addresses\<close>

definition is_local :: "ipv4 \<Rightarrow> net_db \<Rightarrow> bool" where
  "is_local ip db = list_ex (\<lambda>a. fst (la_address a) = ip) (nd_addresses db)"

definition live_ip :: "ipv4 \<Rightarrow> net_db \<Rightarrow> bool" where
  "live_ip ip db = list_ex (\<lambda>a. ia_live a \<and> ia_ip a = ip) (nd_assignments db)"

definition assertNoLiveAssignment :: "ipv4 \<Rightarrow> net_db \<Rightarrow> unit result" where
  "assertNoLiveAssignment host db = guard_ok (\<not> live_ip host db) (Conflict ''IP_IN_USE'')"

text \<open>
  The insert of a local address: \<open>uq_network_interface_ipv4_address\<close> and the checks of the
  table, whose violation is not an error the service knows.
\<close>

definition address_row_ok :: "inet \<Rightarrow> bool" where
  "address_row_ok a = (1 \<le> snd a \<and> snd a \<le> 32 \<and> ck_usable a)"

definition address_taken :: "string \<Rightarrow> string \<Rightarrow> string \<Rightarrow> ipv4 \<Rightarrow> net_db \<Rightarrow> bool" where
  "address_taken k routerId interfaceId host db =
     list_ex (\<lambda>a. la_id a \<noteq> k \<and> la_router a = routerId \<and> la_interface a = interfaceId \<and> fst (la_address a) = host)
       (nd_addresses db)"

definition insert_address :: "string \<Rightarrow> string \<Rightarrow> inet \<Rightarrow> string \<Rightarrow> net_db \<Rightarrow> net_db result" where
  "insert_address routerId interfaceId address newId db =
     res_bind (guard_ok (address_row_ok address) Plain_Error) (\<lambda>_.
     res_bind (guard_ok (\<not> address_taken newId routerId interfaceId (fst address) db)
       (Conflict ''INTERFACE_ADDRESS_DUPLICATED'')) (\<lambda>_.
     Inr (db\<lparr>nd_addresses := nd_addresses db @ [\<lparr>la_id = newId, la_router = routerId, la_interface = interfaceId,
            la_address = address, la_notes = None, la_version = 1\<rparr>]\<rparr>)))"

definition createInterfaceIpv4Address ::
  "net_env \<Rightarrow> string \<Rightarrow> string \<Rightarrow> inet \<Rightarrow> string \<Rightarrow> string \<Rightarrow> net_db \<Rightarrow> net_db result" where
  "createInterfaceIpv4Address env routerId interfaceId address actorId newId db =
     res_bind (of_option resourceNotFound (find_router routerId db)) (\<lambda>router.
     res_bind (en_siteOrTenantWide env actorId (nr_site router) CATALOG_MANAGE) (\<lambda>_.
     res_bind (of_option resourceNotFound (find_interface routerId interfaceId db)) (\<lambda>iface.
     res_bind (guard_ok (facts_usable address) (Bad_Request ''ADDRESS_NOT_USABLE'')) (\<lambda>_.
     res_bind (guard_ok (if_status iface = CATALOG_ACTIVE \<and> nr_status router = CATALOG_ACTIVE)
       (Conflict ''INTERFACE_NOT_AVAILABLE'')) (\<lambda>_.
     res_bind (assertNoLiveAssignment (fst address) db) (\<lambda>_.
     res_bind (guard_ok (en_protectionActive env) (Conflict ''IP_PROTECTION_PENDING'')) (\<lambda>_.
     insert_address routerId interfaceId address newId db)))))))"

definition find_address :: "string \<Rightarrow> string \<Rightarrow> string \<Rightarrow> net_db \<Rightarrow> local_address option" where
  "find_address routerId interfaceId k db =
     find (\<lambda>a. la_id a = k \<and> la_router a = routerId \<and> la_interface a = interfaceId) (nd_addresses db)"

definition updateInterfaceIpv4Address ::
  "net_env \<Rightarrow> string \<Rightarrow> string \<Rightarrow> string \<Rightarrow> string option option \<Rightarrow> int \<Rightarrow> string \<Rightarrow> net_db \<Rightarrow> net_db result" where
  "updateInterfaceIpv4Address env routerId interfaceId addressId notes version actorId db =
     res_bind (of_option resourceNotFound (find_address routerId interfaceId addressId db)) (\<lambda>row.
     res_bind (of_option resourceNotFound (find_router routerId db)) (\<lambda>router.
     res_bind (of_option resourceNotFound (find_interface routerId interfaceId db)) (\<lambda>_.
     res_bind (en_siteOrTenantWide env actorId (nr_site router) CATALOG_MANAGE) (\<lambda>_.
     res_bind (guard_ok (la_version row = version) versionConflict) (\<lambda>_.
     Inr (db\<lparr>nd_addresses := replace_row la_id
       (row\<lparr>la_notes := or_keep notes (la_notes row), la_version := la_version row + 1\<rparr>) (nd_addresses db)\<rparr>))))))"

definition correctInterfaceIpv4Address ::
  "net_env \<Rightarrow> string \<Rightarrow> string \<Rightarrow> string \<Rightarrow> inet \<Rightarrow> int \<Rightarrow> bool option \<Rightarrow> string \<Rightarrow> net_db \<Rightarrow> net_db result" where
  "correctInterfaceIpv4Address env routerId interfaceId addressId newAddress version confirmReleasedHost actorId db =
     res_bind (of_option resourceNotFound (find_address routerId interfaceId addressId db)) (\<lambda>row.
     res_bind (guard_ok (facts_usable newAddress) (Bad_Request ''ADDRESS_NOT_USABLE'')) (\<lambda>_.
     res_bind (of_option resourceNotFound (find_router routerId db)) (\<lambda>router.
     res_bind (of_option resourceNotFound (find_interface routerId interfaceId db)) (\<lambda>iface.
     res_bind (en_siteOrTenantWide env actorId (nr_site router) CATALOG_MANAGE) (\<lambda>_.
     res_bind (guard_ok (la_version row = version) versionConflict) (\<lambda>_.
     res_bind (guard_ok (if_status iface = CATALOG_ACTIVE) (Conflict ''INTERFACE_NOT_AVAILABLE'')) (\<lambda>_.
     let previousHost = fst (la_address row)
     in res_bind (guard_ok (\<not> (previousHost \<noteq> fst newAddress \<and> confirmReleasedHost \<noteq> Some True))
          (Bad_Request ''ADDRESS_RELEASE_CONFIRMATION_REQUIRED'')) (\<lambda>_.
        res_bind (assertNoLiveAssignment previousHost db) (\<lambda>_.
        res_bind (assertNoLiveAssignment (fst newAddress) db) (\<lambda>_.
        res_bind (guard_ok (\<not> list_ex (\<lambda>n. nw_gateway n = previousHost) (nd_networks db))
          (Conflict ''INTERFACE_ADDRESS_IS_GATEWAY'')) (\<lambda>_.
        res_bind (guard_ok (en_protectionActive env) (Conflict ''IP_PROTECTION_PENDING'')) (\<lambda>_.
        res_bind (guard_ok (address_row_ok newAddress) Plain_Error) (\<lambda>_.
        res_bind (guard_ok (\<not> address_taken addressId routerId interfaceId (fst newAddress) db)
          (Conflict ''INTERFACE_ADDRESS_DUPLICATED'')) (\<lambda>_.
        Inr (db\<lparr>nd_addresses := replace_row la_id
          (row\<lparr>la_address := newAddress, la_version := la_version row + 1\<rparr>) (nd_addresses db)\<rparr>)))))))))))))))"

section \<open>Interfaces\<close>

text \<open>\<open>uq_network_router_interfaces_name\<close> and the checks of the table.\<close>

definition interface_name_taken :: "net_env \<Rightarrow> string \<Rightarrow> string \<Rightarrow> string \<Rightarrow> net_db \<Rightarrow> bool" where
  "interface_name_taken env k routerId name db =
     list_ex (\<lambda>i. if_id i \<noteq> k \<and> if_router i = routerId \<and> en_lower env (if_name i) = en_lower env name) (nd_interfaces db)"

record legacy_conversion =
  lc_routerVersion :: int
  lc_address :: "inet option"

record CreateRouterInterfaceBody =
  rif_name :: string
  rif_kind :: InterfaceKind
  rif_notes :: "string option"
  rif_convert :: "legacy_conversion option"

text \<open>\<open>lanInterface?.trim()\<close> is a text that is not blank.\<close>

definition has_legacy_lan :: "network_router \<Rightarrow> bool" where
  "has_legacy_lan router = (case nr_lanInterface router of None \<Rightarrow> False | Some s \<Rightarrow> js_trim s \<noteq> [])"

definition check_conversion :: "net_env \<Rightarrow> network_router \<Rightarrow> legacy_conversion \<Rightarrow> net_db \<Rightarrow> unit result" where
  "check_conversion env router conversion db =
     res_bind (guard_ok (has_legacy_lan router) (Conflict ''LEGACY_LAN_NOT_AVAILABLE'')) (\<lambda>_.
     res_bind (guard_ok (nr_legacyLan router = None) (Conflict ''LEGACY_LAN_ALREADY_CONVERTED'')) (\<lambda>_.
     res_bind (guard_ok (nr_version router = lc_routerVersion conversion) versionConflict) (\<lambda>_.
     (case lc_address conversion of
        None \<Rightarrow> Inr ()
      | Some address \<Rightarrow>
          res_bind (guard_ok (en_protectionActive env) (Conflict ''IP_PROTECTION_PENDING'')) (\<lambda>_.
          res_bind (guard_ok (facts_usable address) (Bad_Request ''ADDRESS_NOT_USABLE'')) (\<lambda>_.
          assertNoLiveAssignment (fst address) db))))))"

definition createRouterInterface ::
  "net_env \<Rightarrow> string \<Rightarrow> CreateRouterInterfaceBody \<Rightarrow> string \<Rightarrow> string \<Rightarrow> string \<Rightarrow> net_db \<Rightarrow> net_db result" where
  "createRouterInterface env routerId input actorId newId newAddressId db =
     res_bind (of_option resourceNotFound (find_router routerId db)) (\<lambda>router.
     res_bind (en_siteOrTenantWide env actorId (nr_site router) CATALOG_MANAGE) (\<lambda>_.
     res_bind (guard_ok (nr_status router = CATALOG_ACTIVE) (Conflict ''CATALOG_REFERENCE_INACTIVE'')) (\<lambda>_.
     res_bind (case rif_convert input of None \<Rightarrow> Inr () | Some c \<Rightarrow> check_conversion env router c db) (\<lambda>_.
     let row = \<lparr>if_id = newId, if_router = routerId, if_name = js_trim (rif_name input), if_kind = rif_kind input,
           if_notes = rif_notes input, if_status = CATALOG_ACTIVE, if_version = 1\<rparr>
     in res_bind (guard_ok (if_name row \<noteq> []) Plain_Error) (\<lambda>_.
        res_bind (guard_ok (\<not> interface_name_taken env newId routerId (if_name row) db)
          (Conflict ''INTERFACE_NAME_IN_USE'')) (\<lambda>_.
        let db1 = db\<lparr>nd_interfaces := nd_interfaces db @ [row]\<rparr>
        in (case rif_convert input of
              None \<Rightarrow> Inr db1
            | Some c \<Rightarrow>
                let db2 = save_router (router\<lparr>nr_legacyLan := Some newId, nr_version := nr_version router + 1\<rparr>) db1
                in (case lc_address c of
                      None \<Rightarrow> Inr db2
                    | Some address \<Rightarrow> insert_address routerId newId address newAddressId db2))))))))"

record UpdateRouterInterfaceBody =
  ui_name :: "string option"
  ui_kind :: "InterfaceKind option"
  ui_notes :: "string option option"
  ui_version :: int

definition updateRouterInterface ::
  "net_env \<Rightarrow> string \<Rightarrow> string \<Rightarrow> UpdateRouterInterfaceBody \<Rightarrow> string \<Rightarrow> net_db \<Rightarrow> net_db result" where
  "updateRouterInterface env routerId interfaceId input actorId db =
     res_bind (of_option resourceNotFound (find_interface routerId interfaceId db)) (\<lambda>row.
     res_bind (of_option resourceNotFound (find_router routerId db)) (\<lambda>router.
     res_bind (en_siteOrTenantWide env actorId (nr_site router) CATALOG_MANAGE) (\<lambda>_.
     res_bind (guard_ok (if_version row = ui_version input) versionConflict) (\<lambda>_.
     let saved = row\<lparr>if_name := (case ui_name input of None \<Rightarrow> if_name row | Some s \<Rightarrow> js_trim s),
           if_kind := or_keep (ui_kind input) (if_kind row), if_notes := or_keep (ui_notes input) (if_notes row),
           if_version := if_version row + 1\<rparr>
     in res_bind (guard_ok (if_name saved \<noteq> []) Plain_Error) (\<lambda>_.
        res_bind (guard_ok (\<not> interface_name_taken env interfaceId routerId (if_name saved) db)
          (Conflict ''INTERFACE_NAME_IN_USE'')) (\<lambda>_.
        Inr (save_interface saved db)))))))"

definition setRouterInterfaceStatus ::
  "net_env \<Rightarrow> string \<Rightarrow> string \<Rightarrow> int \<Rightarrow> CatalogStatus \<Rightarrow> string \<Rightarrow> net_db \<Rightarrow> net_db result" where
  "setRouterInterfaceStatus env routerId interfaceId version status actorId db =
     res_bind (of_option resourceNotFound (find_interface routerId interfaceId db)) (\<lambda>row.
     res_bind (of_option resourceNotFound (find_router routerId db)) (\<lambda>router.
     res_bind (en_siteOrTenantWide env actorId (nr_site router) CATALOG_MANAGE) (\<lambda>_.
     res_bind (guard_ok (if_version row = version) versionConflict) (\<lambda>_.
     Inr (save_interface (row\<lparr>if_status := status, if_version := if_version row + 1\<rparr>) db)))))"

section \<open>Networks\<close>

text \<open>\<open>$1::cidr\<close> raises an error when bits stand to the right of the mask.\<close>

definition cidr_cast :: "inet \<Rightarrow> inet result" where
  "cidr_cast c = (if network_of c = fst c then Inr c else Inl Plain_Error)"

definition assertNetworkRange :: "inet \<Rightarrow> ipv4 \<Rightarrow> ipv4 \<Rightarrow> ipv4 \<Rightarrow> ipv4 list \<Rightarrow> unit result" where
  "assertNetworkRange cidr gateway assignableFrom assignableTo excludedIps =
     res_bind (cidr_cast cidr) (\<lambda>block.
     res_bind (guard_ok (contained_eq (gateway, 32) block \<and> contained_eq (assignableFrom, 32) block
         \<and> contained_eq (assignableTo, 32) block \<and> assignableFrom \<le> assignableTo) (Bad_Request ''VALIDATION_ERROR'')) (\<lambda>_.
     guard_ok (list_all (\<lambda>e. contained_eq (e, 32) block) excludedIps) (Bad_Request ''EXCLUDED_IP_OUTSIDE_BLOCK'')))"

text \<open>The checks of \<open>ipv4_networks\<close> and its exclusion constraint.\<close>

definition network_row_ok :: "ipv4_network \<Rightarrow> bool" where
  "network_row_ok n =
     (16 \<le> snd (nw_cidr n) \<and> snd (nw_cidr n) \<le> 30 \<and> network_of (nw_cidr n) = fst (nw_cidr n)
      \<and> contained (nw_gateway n, 32) (nw_cidr n) \<and> contained (nw_from n, 32) (nw_cidr n)
      \<and> contained (nw_to n, 32) (nw_cidr n) \<and> nw_from n \<le> nw_to n
      \<and> nw_gateway n \<noteq> network_of (nw_cidr n) \<and> nw_gateway n \<noteq> broadcast_of (nw_cidr n)
      \<and> length (nw_excluded n) \<le> 256)"

definition insert_network :: "ipv4_network \<Rightarrow> net_db \<Rightarrow> net_db result" where
  "insert_network n db =
     res_bind (guard_ok (network_row_ok n) Plain_Error) (\<lambda>_.
     res_bind (guard_ok (\<not> list_ex (\<lambda>m. overlaps (nw_cidr m) (nw_cidr n)) (nd_networks db)) (Conflict ''NETWORK_OVERLAP'')) (\<lambda>_.
     Inr (db\<lparr>nd_networks := nd_networks db @ [n]\<rparr>)))"

record CreateIpv4NetworkBody =
  cn_routerId :: string
  cn_name :: string
  cn_cidr :: inet
  cn_gateway :: ipv4
  cn_from :: ipv4
  cn_to :: ipv4
  cn_excluded :: "ipv4 list option"
  cn_method :: ControlMethod

definition controlMethodNotSupported :: http_error where
  "controlMethodNotSupported = Conflict ''CONTROL_METHOD_NOT_SUPPORTED''"

definition createIpv4Network :: "net_env \<Rightarrow> CreateIpv4NetworkBody \<Rightarrow> string \<Rightarrow> string \<Rightarrow> net_db \<Rightarrow> net_db result" where
  "createIpv4Network env input actorId newId db =
     res_bind (of_option resourceNotFound (find_router (cn_routerId input) db)) (\<lambda>router.
     res_bind (en_siteOrTenantWide env actorId (nr_site router) CATALOG_MANAGE) (\<lambda>_.
     res_bind (guard_ok (nr_status router = CATALOG_ACTIVE) resourceNotFound) (\<lambda>_.
     res_bind (guard_ok (cn_method input \<in> set (nr_methods router)) controlMethodNotSupported) (\<lambda>_.
     let excludedIps = or_keep (cn_excluded input) []
     in res_bind (assertNetworkRange (cn_cidr input) (cn_gateway input) (cn_from input) (cn_to input) excludedIps) (\<lambda>_.
        insert_network \<lparr>nw_id = newId, nw_router = nr_id router, nw_interface = None, nw_name = js_trim (cn_name input),
          nw_cidr = cn_cidr input, nw_gateway = cn_gateway input, nw_from = cn_from input, nw_to = cn_to input,
          nw_excluded = excludedIps, nw_method = cn_method input, nw_status = CATALOG_ACTIVE, nw_version = 1\<rparr> db)))))"

datatype network_source =
    Manual_Cidr inet ipv4
  | Ip_Prefix inet inet ipv4
  | Interface_Address string int inet ipv4

record AssistedCreateIpv4NetworkBody =
  as_interfaceId :: "string option"
  as_interfaceVersion :: "int option"
  as_name :: "string option"
  as_from :: ipv4
  as_to :: ipv4
  as_excluded :: "ipv4 list option"
  as_method :: ControlMethod
  as_source :: network_source

definition assertConfirmedPrefix :: "inet \<Rightarrow> inet \<Rightarrow> unit result" where
  "assertConfirmedPrefix addressWithPrefix confirmedCidr =
     res_bind (cidr_cast confirmedCidr) (\<lambda>block.
     res_bind (guard_ok (16 \<le> snd addressWithPrefix \<and> snd addressWithPrefix \<le> 30 \<and> 16 \<le> snd block \<and> snd block \<le> 30)
       (Bad_Request ''NETWORK_PREFIX_NOT_ASSIGNABLE'')) (\<lambda>_.
     guard_ok (network_of addressWithPrefix = network_of block \<and> snd addressWithPrefix = snd block)
       (Bad_Request ''NETWORK_CONFIRMATION_MISMATCH'')))"

text \<open>The block, the gateway and the interface that the source names.\<close>

definition resolve_source ::
  "net_env \<Rightarrow> network_router \<Rightarrow> network_source \<Rightarrow> string \<Rightarrow> net_db \<Rightarrow> (inet \<times> ipv4 \<times> string option) result" where
  "resolve_source env router source actorId db =
     (case source of
        Manual_Cidr cidr gateway \<Rightarrow> Inr (cidr, gateway, None)
      | Ip_Prefix addressWithPrefix cidr gateway \<Rightarrow>
          res_bind (assertConfirmedPrefix addressWithPrefix cidr) (\<lambda>_. Inr (cidr, gateway, None))
      | Interface_Address addressId version cidr gateway \<Rightarrow>
          res_bind (en_siteOrTenantWide env actorId (nr_site router) CATALOG_READ) (\<lambda>_.
          res_bind (of_option resourceNotFound
              (find (\<lambda>a. la_id a = addressId \<and> la_router a = nr_id router \<and> la_version a = version) (nd_addresses db))) (\<lambda>address.
          res_bind (of_option resourceNotFound (find_interface (nr_id router) (la_interface address) db)) (\<lambda>source_interface.
          res_bind (guard_ok (if_status source_interface = CATALOG_ACTIVE) (Conflict ''INTERFACE_NOT_AVAILABLE'')) (\<lambda>_.
          res_bind (assertConfirmedPrefix (la_address address) cidr) (\<lambda>_.
          Inr (cidr, gateway, Some (if_id source_interface))))))))"

definition createAssistedIpv4Network ::
  "net_env \<Rightarrow> (inet \<Rightarrow> string) \<Rightarrow> string \<Rightarrow> AssistedCreateIpv4NetworkBody \<Rightarrow> string \<Rightarrow> string \<Rightarrow> net_db \<Rightarrow> net_db result" where
  "createAssistedIpv4Network env cidr_text routerId input actorId newId db =
     res_bind (of_option resourceNotFound (find_router routerId db)) (\<lambda>router.
     res_bind (en_siteOrTenantWide env actorId (nr_site router) CATALOG_MANAGE) (\<lambda>_.
     res_bind (guard_ok (nr_status router = CATALOG_ACTIVE) resourceNotFound) (\<lambda>_.
     res_bind (guard_ok (as_method input \<in> set (nr_methods router)) controlMethodNotSupported) (\<lambda>_.
     res_bind (resolve_source env router (as_source input) actorId db) (\<lambda>(cidr, gateway, sourceInterfaceId).
     let interfaceId = (case as_interfaceId input of Some i \<Rightarrow> Some i | None \<Rightarrow> sourceInterfaceId)
     in res_bind (guard_ok (\<not> (as_interfaceId input \<noteq> None \<and> sourceInterfaceId \<noteq> None
              \<and> as_interfaceId input \<noteq> sourceInterfaceId)) (Bad_Request ''NETWORK_CONFIRMATION_MISMATCH'')) (\<lambda>_.
        res_bind (case interfaceId of
            None \<Rightarrow> Inr None
          | Some i \<Rightarrow>
              res_bind (of_option resourceNotFound (find_interface routerId i db)) (\<lambda>iface.
              res_bind (guard_ok (\<not> (as_interfaceId input \<noteq> None \<and> Some (if_version iface) \<noteq> as_interfaceVersion input))
                versionConflict) (\<lambda>_.
              res_bind (guard_ok (if_status iface = CATALOG_ACTIVE) (Conflict ''INTERFACE_NOT_AVAILABLE'')) (\<lambda>_.
              Inr (Some (if_name iface)))))) (\<lambda>interfaceName.
        let excludedIps = or_keep (as_excluded input) [];
            given = js_trim (or_keep (as_name input) []);
            name = (if given \<noteq> [] then given
                    else (case interfaceName of
                            Some s \<Rightarrow> if s \<noteq> [] then s else ''Red '' @ cidr_text cidr
                          | None \<Rightarrow> ''Red '' @ cidr_text cidr))
        in res_bind (assertNetworkRange cidr gateway (as_from input) (as_to input) excludedIps) (\<lambda>_.
           insert_network \<lparr>nw_id = newId, nw_router = nr_id router, nw_interface = interfaceId, nw_name = name,
             nw_cidr = cidr, nw_gateway = gateway, nw_from = as_from input, nw_to = as_to input, nw_excluded = excludedIps,
             nw_method = as_method input, nw_status = CATALOG_ACTIVE, nw_version = 1\<rparr> db))))))))"

record UpdateIpv4NetworkBody =
  un_name :: "string option"
  un_from :: "ipv4 option"
  un_to :: "ipv4 option"
  un_excluded :: "ipv4 list option"
  un_interfaceId :: "string option option"
  un_interfaceVersion :: "int option"
  un_method :: "ControlMethod option"
  un_version :: int

text \<open>An assigned address that the change would leave out.\<close>

definition leaves_out :: "string \<Rightarrow> ipv4 \<Rightarrow> ipv4 \<Rightarrow> ipv4 list \<Rightarrow> net_db \<Rightarrow> bool" where
  "leaves_out k assignableFrom assignableTo excludedIps db =
     list_ex (\<lambda>a. ia_network a = k \<and> ia_live a
       \<and> (ia_ip a < assignableFrom \<or> ia_ip a > assignableTo \<or> ia_ip a \<in> set excludedIps)) (nd_assignments db)"

definition updateIpv4Network :: "net_env \<Rightarrow> string \<Rightarrow> UpdateIpv4NetworkBody \<Rightarrow> string \<Rightarrow> net_db \<Rightarrow> net_db result" where
  "updateIpv4Network env k input actorId db =
     res_bind (of_option resourceNotFound (find_network k db)) (\<lambda>network.
     res_bind (of_option resourceNotFound (find_router (nw_router network) db)) (\<lambda>router.
     res_bind (case un_interfaceId input of
         Some (Some i) \<Rightarrow>
           res_bind (of_option resourceNotFound (find_interface (nw_router network) i db)) (\<lambda>iface.
           res_bind (guard_ok (un_interfaceVersion input = None \<or> un_interfaceVersion input = Some (if_version iface))
             versionConflict) (\<lambda>_.
           Inr (Some iface)))
       | _ \<Rightarrow> Inr None) (\<lambda>selectedInterface.
     res_bind (en_siteOrTenantWide env actorId (nr_site router) CATALOG_MANAGE) (\<lambda>_.
     res_bind (guard_ok (nw_version network = un_version input) versionConflict) (\<lambda>_.
     let next_from = or_keep (un_from input) (nw_from network);
         next_to = or_keep (un_to input) (nw_to network);
         next_excluded = or_keep (un_excluded input) (nw_excluded network)
     in res_bind (assertNetworkRange (nw_cidr network) (nw_gateway network) next_from next_to next_excluded) (\<lambda>_.
        res_bind (guard_ok (\<not> leaves_out k next_from next_to next_excluded db) (Conflict ''IP_IN_USE'')) (\<lambda>_.
        res_bind (guard_ok (case un_method input of None \<Rightarrow> True | Some c \<Rightarrow> c \<in> set (nr_methods router))
          controlMethodNotSupported) (\<lambda>_.
        res_bind (guard_ok (\<not> (un_interfaceId input \<noteq> None \<and> un_interfaceId input \<noteq> Some (nw_interface network)
            \<and> un_interfaceId input \<noteq> Some None \<and> map_option if_status selectedInterface \<noteq> Some CATALOG_ACTIVE))
          (Conflict ''INTERFACE_NOT_AVAILABLE'')) (\<lambda>_.
        let saved = network\<lparr>nw_name := (case un_name input of None \<Rightarrow> nw_name network | Some s \<Rightarrow> js_trim s),
              nw_from := next_from, nw_to := next_to, nw_excluded := next_excluded,
              nw_method := or_keep (un_method input) (nw_method network),
              nw_interface := or_keep (un_interfaceId input) (nw_interface network),
              nw_version := nw_version network + 1\<rparr>
        in res_bind (guard_ok (network_row_ok saved) Plain_Error) (\<lambda>_.
           Inr (save_network saved db)))))))))))"

definition setIpv4NetworkStatus ::
  "net_env \<Rightarrow> string \<Rightarrow> int \<Rightarrow> CatalogStatus \<Rightarrow> string \<Rightarrow> net_db \<Rightarrow> net_db result" where
  "setIpv4NetworkStatus env k version status actorId db =
     res_bind (of_option resourceNotFound (find_network k db)) (\<lambda>network.
     res_bind (of_option resourceNotFound (find_router (nw_router network) db)) (\<lambda>router.
     res_bind (en_siteOrTenantWide env actorId (nr_site router) CATALOG_MANAGE) (\<lambda>_.
     res_bind (guard_ok (nw_version network = version) versionConflict) (\<lambda>_.
     Inr (save_network (network\<lparr>nw_status := status, nw_version := nw_version network + 1\<rparr>) db)))))"

end
