(* ===== verification/Ipam.thy ===== *)
theory Ipam
  imports NetworkCatalog
begin

text \<open>
  The assignment of addresses (\<open>ipam.service.ts\<close>): the addresses of a network that may be
  assigned, the next free one, the validation of a requested one, the reservation with its
  two attempts under the partial unique index, and the occupancy of a network. The arithmetic
  of addresses is that of 32-bit words.
\<close>

section \<open>The addresses of a network\<close>

text \<open>\<open>generate_series(0, assignable_to - assignable_from)\<close>, added to the first address.\<close>

definition candidates :: "ipv4_network \<Rightarrow> ipv4 list" where
  "candidates n = map (\<lambda>i. nw_from n + of_nat i) [0..<Suc (unat (nw_to n - nw_from n))]"

definition protected_in :: "ipv4_network \<Rightarrow> ipv4 \<Rightarrow> net_db \<Rightarrow> bool" where
  "protected_in n ip db =
     list_ex (\<lambda>a. fst (la_address a) = ip \<and> fst (la_address a) \<ge> nw_from n \<and> fst (la_address a) \<le> nw_to n) (nd_addresses db)"

definition eligible_ip :: "ipv4_network \<Rightarrow> net_db \<Rightarrow> ipv4 \<Rightarrow> bool" where
  "eligible_ip n db ip =
     (ip \<noteq> nw_gateway n \<and> ip \<noteq> network_of (nw_cidr n) \<and> ip \<noteq> broadcast_of (nw_cidr n)
      \<and> ip \<notin> set (nw_excluded n) \<and> \<not> protected_in n ip db)"

definition find_active_network :: "string \<Rightarrow> net_db \<Rightarrow> ipv4_network option" where
  "find_active_network k db = find (\<lambda>n. nw_id n = k \<and> nw_status n = CATALOG_ACTIVE) (nd_networks db)"

definition findNextAvailableIp :: "string \<Rightarrow> net_db \<Rightarrow> ipv4 option" where
  "findNextAvailableIp k db =
     (case find_active_network k db of
        None \<Rightarrow> None
      | Some n \<Rightarrow> find (\<lambda>ip. eligible_ip n db ip \<and> \<not> live_ip ip db) (candidates n))"

definition ipInUse :: http_error where
  "ipInUse = Conflict ''IP_IN_USE''"

definition ipProtected :: http_error where
  "ipProtected = Conflict ''IP_PROTECTED_BY_INFRASTRUCTURE''"

definition networkNotAvailable :: http_error where
  "networkNotAvailable = Unprocessable ''NETWORK_NOT_IN_ROUTER''"

definition validateRequestedIp :: "string \<Rightarrow> ipv4 \<Rightarrow> net_db \<Rightarrow> ipv4 result" where
  "validateRequestedIp k ip db =
     (case find_active_network k db of
        None \<Rightarrow> Inl (Conflict ''IP_OUTSIDE_RANGE'')
      | Some n \<Rightarrow>
          if ip < nw_from n \<or> ip > nw_to n \<or> ip = network_of (nw_cidr n) \<or> ip = broadcast_of (nw_cidr n)
          then Inl (Conflict ''IP_OUTSIDE_RANGE'')
          else if ip = nw_gateway n then Inl (Conflict ''IP_IS_GATEWAY'')
          else if ip \<in> set (nw_excluded n) then Inl (Conflict ''IP_EXCLUDED'')
          else if protected_in n ip db then Inl ipProtected
          else if live_ip ip db then Inl ipInUse
          else Inr ip)"

text \<open>Router, network and interface, read again under the lock of the network.\<close>

definition assertActiveNetwork :: "string \<Rightarrow> net_db \<Rightarrow> unit result" where
  "assertActiveNetwork k db =
     res_bind (of_option networkNotAvailable (find_active_network k db)) (\<lambda>network.
     res_bind (guard_ok (map_option nr_status (find_router (nw_router network) db) = Some CATALOG_ACTIVE) networkNotAvailable) (\<lambda>_.
     (case nw_interface network of
        None \<Rightarrow> Inr ()
      | Some i \<Rightarrow>
          (case find (\<lambda>r. if_id r = i) (nd_interfaces db) of
             None \<Rightarrow> Inl networkNotAvailable
           | Some iface \<Rightarrow>
               guard_ok (\<not> (if_status iface \<noteq> CATALOG_ACTIVE \<or> if_router iface \<noteq> nw_router network)) networkNotAvailable))))"

definition assertAssignmentNotLocallyProtected :: "ipv4 \<Rightarrow> net_db \<Rightarrow> unit result" where
  "assertAssignmentNotLocallyProtected ip db = guard_ok (\<not> is_local ip db) ipProtected"

section \<open>Reservation\<close>

text \<open>
  The attempts: a live address that appears between the choice and the insert
  (\<open>uq_ip_assignments_live\<close>) rolls back to the savepoint and chooses again, once.
\<close>

fun reserve_attempts ::
  "nat \<Rightarrow> string \<Rightarrow> string \<Rightarrow> ipv4 option \<Rightarrow> string \<Rightarrow> net_db \<Rightarrow> (ipv4 \<times> net_db) result" where
  "reserve_attempts 0 networkId provisioningId requestedIp newId db = Inl ipInUse"
| "reserve_attempts (Suc attempts) networkId provisioningId requestedIp newId db =
     res_bind (case requestedIp of
         Some ip \<Rightarrow> validateRequestedIp networkId ip db
       | None \<Rightarrow> of_option (Conflict ''NETWORK_POOL_EXHAUSTED'') (findNextAvailableIp networkId db)) (\<lambda>ip.
     if live_ip ip db
     then (if attempts = 0 then Inl ipInUse
           else reserve_attempts attempts networkId provisioningId requestedIp newId db)
     else Inr (ip, db\<lparr>nd_assignments := nd_assignments db @
            [\<lparr>ia_id = newId, ia_network = networkId, ia_ip = ip, ia_provisioning = provisioningId,
              ia_status = IP_RESERVED, ia_releasedAt = None, ia_releaseReason = None\<rparr>]\<rparr>))"

definition reserveIp ::
  "string \<Rightarrow> string \<Rightarrow> ipv4 option \<Rightarrow> string \<Rightarrow> net_db \<Rightarrow> (ipv4 \<times> net_db) result" where
  "reserveIp networkId provisioningId requestedIp newId db =
     res_bind (assertActiveNetwork networkId db) (\<lambda>_.
     reserve_attempts 2 networkId provisioningId requestedIp newId db)"

section \<open>Occupancy\<close>

record IpamOccupancy =
  oc_total :: nat
  oc_reserved :: nat
  oc_active :: nat
  oc_free :: nat

definition count_status :: "string \<Rightarrow> IpAssignmentStatus \<Rightarrow> net_db \<Rightarrow> nat" where
  "count_status k status db = length (filter (\<lambda>a. ia_network a = k \<and> ia_status a = status) (nd_assignments db))"

text \<open>\<open>GREATEST(total - reserved - active, 0)\<close> is the difference of natural numbers.\<close>

definition readOccupancy :: "string \<Rightarrow> net_db \<Rightarrow> IpamOccupancy result" where
  "readOccupancy k db =
     (let total = (case find_network k db of None \<Rightarrow> 0 | Some n \<Rightarrow> length (filter (eligible_ip n db) (candidates n)));
          reserved = count_status k IP_RESERVED db;
          active = count_status k IP_ACTIVE db;
          conflict = list_ex (\<lambda>a. ia_network a = k \<and> ia_live a \<and> is_local (ia_ip a) db) (nd_assignments db)
      in if conflict then Inl ipProtected
         else Inr \<lparr>oc_total = total, oc_reserved = reserved, oc_active = active, oc_free = total - reserved - active\<rparr>)"

section \<open>Facts on candidates\<close>

lemma unat_candidate:
  assumes "nw_from n \<le> nw_to n" and "i \<le> unat (nw_to n - nw_from n)"
  shows "unat (nw_from n + of_nat i) = unat (nw_from n) + i"
proof -
  have i: "i \<le> unat (nw_to n) - unat (nw_from n)" using assms unat_sub [OF assms(1)] by simp
  have le: "unat (nw_from n) \<le> unat (nw_to n)" using assms(1) by (simp add: word_le_nat_alt)
  have "unat (nw_to n) < 2 ^ 32" using unsigned_less [of "nw_to n"] by simp
  with i le have "unat (nw_from n) + i < 2 ^ 32" by linarith
  then show ?thesis by (simp add: unat_word_ariths(1) unat_of_nat)
qed

lemma mem_candidates:
  "ip \<in> set (candidates n) \<longleftrightarrow> (\<exists>i \<le> unat (nw_to n - nw_from n). ip = nw_from n + of_nat i)"
  unfolding candidates_def set_map set_upt image_iff Bex_def atLeastLessThan_iff less_Suc_eq_le by auto

lemma set_candidates:
  assumes "nw_from n \<le> nw_to n"
  shows "set (candidates n) = {nw_from n..nw_to n}"
proof (intro set_eqI iffI)
  fix ip assume "ip \<in> set (candidates n)"
  then obtain i where i: "ip = nw_from n + of_nat i" "i \<le> unat (nw_to n - nw_from n)" unfolding mem_candidates by blast
  have "unat ip = unat (nw_from n) + i" unfolding i(1) by (rule unat_candidate [OF assms i(2)])
  moreover have "i \<le> unat (nw_to n) - unat (nw_from n)" "unat (nw_from n) \<le> unat (nw_to n)"
    using i(2) assms unat_sub [OF assms] by (simp_all add: word_le_nat_alt)
  ultimately show "ip \<in> {nw_from n..nw_to n}" by (simp add: word_le_nat_alt)
next
  fix ip assume ip: "ip \<in> {nw_from n..nw_to n}"
  have "unat (ip - nw_from n) \<le> unat (nw_to n - nw_from n)"
    using ip assms unat_sub [of "nw_from n" ip] unat_sub [OF assms] by (simp add: word_le_nat_alt diff_le_mono)
  moreover have "ip = nw_from n + of_nat (unat (ip - nw_from n))" by simp
  ultimately show "ip \<in> set (candidates n)"
    unfolding mem_candidates by blast
qed

lemma distinct_candidates:
  assumes "nw_from n \<le> nw_to n"
  shows "distinct (candidates n)"
proof -
  have "inj_on (\<lambda>i. nw_from n + of_nat i :: ipv4) (set [0..<Suc (unat (nw_to n - nw_from n))])"
  proof (rule inj_onI)
    fix i j
    assume "i \<in> set [0..<Suc (unat (nw_to n - nw_from n))]" "j \<in> set [0..<Suc (unat (nw_to n - nw_from n))]"
      and eq: "nw_from n + of_nat i = nw_from n + of_nat j"
    then have "i \<le> unat (nw_to n - nw_from n)" "j \<le> unat (nw_to n - nw_from n)" by (simp_all only: set_upt) auto
    from unat_candidate [OF assms this(1)] unat_candidate [OF assms this(2)] eq show "i = j" by (metis add_left_cancel)
  qed
  then show ?thesis unfolding candidates_def distinct_map by simp
qed

end
