(* ===== verification/Provisioning.thy ===== *)
theory Provisioning
  imports Ipam
begin

text \<open>
  The life of a provisioning (\<open>service-provisioning.service.ts\<close>) and the two workers that
  end it: the inbox of execution events (\<open>network-execution-event.processor.ts\<close>) and the
  periodic reconciliation (\<open>network-provisioning-reconciler.processor.ts\<close>). A function with
  the suffix \<open>_tx\<close> is the body of the transaction; what was read before it, the execution
  order, is an argument, and a check that the code repeats once it holds its locks is written
  once. The instructions for the router, audit entries and response objects are not modelled.
\<close>

section \<open>What other modules answer\<close>

datatype ExecutionOrderStatus =
    ORDER_CREATED | ORDER_ASSIGNED | ORDER_EN_ROUTE | ORDER_IN_PROGRESS | ORDER_BLOCKED | ORDER_COMPLETED
  | ORDER_COMPLETED_WITH_OBSERVATIONS | ORDER_NOT_EXECUTED | ORDER_CANCELLED

record ExecutionSnapshot =
  os_id :: string
  os_status :: ExecutionOrderStatus
  os_isInstallation :: bool
  os_isAnnulled :: bool
  os_subscriberId :: "string option"
  os_technician :: "string option"
  os_result :: "execution_result option"

record commercial_context =
  cx_expedienteId :: "string option"
  cx_contracts :: "(string \<times> bool) list"
  cx_planId :: "string option"
  cx_downloadMbps :: "int option"
  cx_uploadMbps :: "int option"

record installed_equipment =
  eq_serialNumber :: string
  eq_macAddress :: "string option"

record prov_env = net_env +
  en_paused :: bool
  en_commercial :: "string \<Rightarrow> commercial_context option"
  en_equipment :: "string \<Rightarrow> string \<Rightarrow> installed_equipment option"
  en_hasEvidence :: "string \<Rightarrow> string \<Rightarrow> bool"
  en_assertWritable :: "string \<Rightarrow> unit result"
  en_now :: int

definition orderNotEligible :: http_error where
  "orderNotEligible = Unprocessable ''PROVISIONING_ORDER_NOT_ELIGIBLE''"

definition assertEligibleOpenInstallation :: "ExecutionSnapshot \<Rightarrow> unit result" where
  "assertEligibleOpenInstallation order =
     guard_ok (\<not> (\<not> os_isInstallation order \<or> os_status order \<noteq> ORDER_IN_PROGRESS \<or> os_isAnnulled order
       \<or> os_subscriberId order = None)) orderNotEligible"

definition assertEligibleClosedInstallation :: "ExecutionSnapshot \<Rightarrow> unit result" where
  "assertEligibleClosedInstallation order =
     guard_ok (\<not> (\<not> os_isInstallation order \<or> os_isAnnulled order
       \<or> (os_status order \<noteq> ORDER_COMPLETED \<and> os_status order \<noteq> ORDER_COMPLETED_WITH_OBSERVATIONS)
       \<or> (os_result order \<noteq> Some EXECUTED \<and> os_result order \<noteq> Some EXECUTED_WITH_OBSERVATIONS)
       \<or> os_subscriberId order = None)) orderNotEligible"

definition requireNetworkParent :: "string \<Rightarrow> string \<Rightarrow> net_db \<Rightarrow> (network_router \<times> ipv4_network) result" where
  "requireNetworkParent routerId networkId db =
     (case (find_router routerId db, find_network networkId db) of
        (Some router, Some network) \<Rightarrow> if nw_router network \<noteq> nr_id router then Inl resourceNotFound else Inr (router, network)
      | _ \<Rightarrow> Inl resourceNotFound)"

definition assertNetworkParentActive :: "network_router \<Rightarrow> ipv4_network \<Rightarrow> unit result" where
  "assertNetworkParentActive router network =
     guard_ok (\<not> (nr_status router \<noteq> CATALOG_ACTIVE \<or> nw_status network \<noteq> CATALOG_ACTIVE)) orderNotEligible"

definition assertReservationsOpen :: "prov_env \<Rightarrow> unit result" where
  "assertReservationsOpen env = guard_ok (\<not> en_paused env) (Conflict ''RESERVATIONS_PAUSED'')"

text \<open>The requested contract, else the active one, else the first.\<close>

definition choose_contract :: "string option \<Rightarrow> commercial_context \<Rightarrow> string option result" where
  "choose_contract contractId commercial =
     (case contractId of
        Some k \<Rightarrow> (case find (\<lambda>c. fst c = k) (cx_contracts commercial) of
            None \<Rightarrow> Inl (Unprocessable ''CONTRACT_NOT_OF_SUBSCRIBER'')
          | Some c \<Rightarrow> Inr (Some (fst c)))
      | None \<Rightarrow> (case find snd (cx_contracts commercial) of
            Some c \<Rightarrow> Inr (Some (fst c))
          | None \<Rightarrow> Inr (case cx_contracts commercial of [] \<Rightarrow> None | c # _ \<Rightarrow> Some (fst c))))"

section \<open>Assignments and rows\<close>

definition live_assignment :: "string \<Rightarrow> net_db \<Rightarrow> ip_assignment option" where
  "live_assignment provisioningId db = find (\<lambda>a. ia_provisioning a = provisioningId \<and> ia_live a) (nd_assignments db)"

text \<open>The newest row of an order in one of the statuses.\<close>

definition latest_of_order :: "string \<Rightarrow> ServiceProvisioningStatus list \<Rightarrow> net_db \<Rightarrow> service_provisioning option" where
  "latest_of_order orderId statuses db =
     find (\<lambda>s. sp_order s = orderId \<and> sp_status s \<in> set statuses) (rev (nd_provisionings db))"

text \<open>\<open>uq_sp_order_live\<close>.\<close>

definition insert_provisioning :: "service_provisioning \<Rightarrow> net_db \<Rightarrow> net_db result" where
  "insert_provisioning s db =
     res_bind (guard_ok (\<not> list_ex (\<lambda>t. sp_order t = sp_order s \<and> sp_status t \<noteq> SP_RELEASED) (nd_provisionings db)) Plain_Error) (\<lambda>_.
     Inr (db\<lparr>nd_provisionings := nd_provisionings db @ [s]\<rparr>))"

text \<open>The release of an assignment and of its service, shared by the four places that do it.\<close>

definition release_assignment :: "int \<Rightarrow> ReleaseReason \<Rightarrow> ip_assignment \<Rightarrow> ip_assignment" where
  "release_assignment now reason a =
     a\<lparr>ia_status := IP_RELEASED, ia_releasedAt := Some now, ia_releaseReason := Some reason\<rparr>"

definition release_service ::
  "int \<Rightarrow> ReleaseReason \<Rightarrow> string option \<Rightarrow> service_provisioning \<Rightarrow> net_db \<Rightarrow> service_provisioning \<times> net_db" where
  "release_service now reason releasedBy row db =
     (let db1 = (case live_assignment (sp_id row) db of
            None \<Rightarrow> db
          | Some a \<Rightarrow> save_assignment (release_assignment now reason a) db);
          saved = row\<lparr>sp_status := SP_RELEASED, sp_releasedAt := Some now, sp_releasedBy := releasedBy,
            sp_releaseReason := Some reason, sp_version := sp_version row + 1\<rparr>
      in (saved, save_provisioning saved db1))"

definition releaseExistingWithin :: "int \<Rightarrow> string \<Rightarrow> service_provisioning \<Rightarrow> net_db \<Rightarrow> net_db" where
  "releaseExistingWithin now actorId row db = snd (release_service now REPLACED (Some actorId) row db)"

section \<open>Reserve\<close>

record ReserveProvisioningBody =
  rb_executionOrderId :: string
  rb_routerId :: string
  rb_networkId :: string
  rb_requestedIp :: "ipv4 option"
  rb_controlParams :: ControlParams
  rb_contractId :: "string option"

fun control_method :: "ControlParams \<Rightarrow> ControlMethod" where
  "control_method (Simple_Queue _) = SIMPLE_QUEUE_STATIC_IP"
| "control_method (Pcq_Address_List _) = PCQ_ADDRESS_LIST"

definition new_provisioning ::
  "string \<Rightarrow> ReserveProvisioningBody \<Rightarrow> ExecutionSnapshot \<Rightarrow> string \<Rightarrow> commercial_context \<Rightarrow> string option \<Rightarrow>
    installed_equipment option \<Rightarrow> string \<Rightarrow> int \<Rightarrow> service_provisioning" where
  "new_provisioning newId input order subscriberId commercial contract equipment actorId now =
     \<lparr>sp_id = newId, sp_subscriber = subscriberId, sp_expediente = cx_expedienteId commercial, sp_contract = contract,
      sp_order = os_id order, sp_router = rb_routerId input, sp_network = rb_networkId input, sp_assignment = None,
      sp_controlParams = rb_controlParams input, sp_plan = cx_planId commercial,
      sp_downloadMbps = cx_downloadMbps commercial, sp_uploadMbps = cx_uploadMbps commercial,
      sp_cpeSerial = map_option eq_serialNumber equipment, sp_cpeMac = Option.bind equipment eq_macAddress,
      sp_status = SP_RESERVED, sp_origin = NORMAL, sp_reservedBy = Some actorId, sp_reservedAt = Some now,
      sp_certifiedBy = None, sp_certifiedAt = None, sp_evidence = None, sp_activatedAt = None, sp_releasedAt = None,
      sp_releasedBy = None, sp_releaseReason = None, sp_regularizationReason = None, sp_regularizedBy = None,
      sp_regularizedAt = None, sp_failureReason = None, sp_commercial = NOT_APPLICABLE,
      sp_commercialDetail = None, sp_version = 1\<rparr>"

definition same_reservation :: "ReserveProvisioningBody \<Rightarrow> service_provisioning \<Rightarrow> ip_assignment option \<Rightarrow> bool" where
  "same_reservation input existing assignment =
     (sp_router existing = rb_routerId input \<and> sp_network existing = rb_networkId input
      \<and> sp_controlParams existing = rb_controlParams input
      \<and> (case rb_requestedIp input of None \<Rightarrow> True | Some ip \<Rightarrow> map_option ia_ip assignment = Some ip)
      \<and> (case rb_contractId input of None \<Rightarrow> True | Some k \<Rightarrow> sp_contract existing = Some k))"

text \<open>The new row, its address and the link from one to the other.\<close>

definition open_provisioning ::
  "service_provisioning \<Rightarrow> ipv4 option \<Rightarrow> string \<Rightarrow> net_db \<Rightarrow> (service_provisioning \<times> ipv4 \<times> net_db) result" where
  "open_provisioning row requestedIp newAssignmentId db =
     res_bind (insert_provisioning row db) (\<lambda>db1.
     res_bind (reserveIp (sp_network row) (sp_id row) requestedIp newAssignmentId db1) (\<lambda>(ip, db2).
     let saved = row\<lparr>sp_assignment := map_option ia_id
           (find (\<lambda>a. ia_provisioning a = sp_id row \<and> ia_status a = IP_RESERVED) (nd_assignments db2))\<rparr>
     in Inr (saved, ip, save_provisioning saved db2)))"

definition reserve_tx ::
  "prov_env \<Rightarrow> ExecutionSnapshot \<Rightarrow> ReserveProvisioningBody \<Rightarrow> string \<Rightarrow> string \<Rightarrow> string \<Rightarrow> net_db \<Rightarrow>
    (service_provisioning \<times> ipv4 \<times> net_db) result" where
  "reserve_tx env order input actorId newId newAssignmentId db =
     res_bind (requireNetworkParent (rb_routerId input) (rb_networkId input) db) (\<lambda>(router, network).
     res_bind (en_siteOrTenantWide env actorId (nr_site router) PROVISIONING_EXECUTE) (\<lambda>_.
     res_bind (assertNetworkParentActive router network) (\<lambda>_.
     res_bind (assertEligibleOpenInstallation order) (\<lambda>_.
     res_bind (guard_ok (os_technician order \<noteq> None) (Unprocessable ''PROVISIONING_TECHNICIAN_REQUIRED'')) (\<lambda>_.
     res_bind (of_option orderNotEligible (os_subscriberId order)) (\<lambda>subscriberId.
     res_bind (of_option orderNotEligible (en_commercial env subscriberId)) (\<lambda>commercial.
     res_bind (choose_contract (rb_contractId input) commercial) (\<lambda>contract.
     res_bind (assertReservationsOpen env) (\<lambda>_.
     res_bind (guard_ok (control_method (rb_controlParams input) \<in> set (nr_methods router)) controlMethodNotSupported) (\<lambda>_.
     res_bind (assertActiveNetwork (nw_id network) db) (\<lambda>_.
     let existing = latest_of_order (rb_executionOrderId input) [SP_RESERVED, SP_CERTIFIED] db;
         row = new_provisioning newId input order subscriberId commercial contract
           (en_equipment env (rb_executionOrderId input) subscriberId) actorId (en_now env)
     in (case existing of
           None \<Rightarrow> open_provisioning row (rb_requestedIp input) newAssignmentId db
         | Some old \<Rightarrow>
             (case live_assignment (sp_id old) db of
                Some assignment \<Rightarrow>
                  if same_reservation input old (Some assignment)
                  then res_bind (assertAssignmentNotLocallyProtected (ia_ip assignment) db) (\<lambda>_.
                         Inr (old, ia_ip assignment, db))
                  else open_provisioning row (rb_requestedIp input) newAssignmentId
                         (releaseExistingWithin (en_now env) actorId old db)
              | None \<Rightarrow>
                  open_provisioning row (rb_requestedIp input) newAssignmentId
                    (releaseExistingWithin (en_now env) actorId old db))))))))))))))"

text \<open>The first transaction of the request authorizes the target, and then reads the order.\<close>

definition authorizeTarget ::
  "prov_env \<Rightarrow> string \<Rightarrow> string \<Rightarrow> string \<Rightarrow> permission \<Rightarrow> net_db \<Rightarrow> unit result" where
  "authorizeTarget env routerId networkId actorId permission db =
     res_bind (requireNetworkParent routerId networkId db) (\<lambda>(router, network).
     res_bind (en_siteOrTenantWide env actorId (nr_site router) permission) (\<lambda>_.
     assertNetworkParentActive router network))"

definition reserve ::
  "prov_env \<Rightarrow> (string \<Rightarrow> ExecutionSnapshot option) \<Rightarrow> ReserveProvisioningBody \<Rightarrow> string \<Rightarrow> string \<Rightarrow> string \<Rightarrow> net_db \<Rightarrow>
    (service_provisioning \<times> ipv4 \<times> net_db) result" where
  "reserve env orders input actorId newId newAssignmentId db =
     res_bind (authorizeTarget env (rb_routerId input) (rb_networkId input) actorId PROVISIONING_EXECUTE db) (\<lambda>_.
     res_bind (of_option resourceNotFound (orders (rb_executionOrderId input))) (\<lambda>order.
     reserve_tx env order input actorId newId newAssignmentId db))"

section \<open>Certify and release\<close>

definition certify_tx ::
  "prov_env \<Rightarrow> ExecutionSnapshot \<Rightarrow> string \<Rightarrow> string \<Rightarrow> int \<Rightarrow> string \<Rightarrow> net_db \<Rightarrow> (service_provisioning \<times> net_db) result" where
  "certify_tx env order k evidenceId version actorId db =
     res_bind (of_option resourceNotFound (find_provisioning k db)) (\<lambda>row.
     res_bind (requireNetworkParent (sp_router row) (sp_network row) db) (\<lambda>(router, network).
     res_bind (en_siteOrTenantWide env actorId (nr_site router) PROVISIONING_CERTIFY) (\<lambda>_.
     res_bind (assertNetworkParentActive router network) (\<lambda>_.
     res_bind (guard_ok (sp_version row = version) versionConflict) (\<lambda>_.
     if sp_status row = SP_CERTIFIED \<and> sp_evidence row = Some evidenceId then Inr (row, db)
     else
       res_bind (assertEligibleOpenInstallation order) (\<lambda>_.
       res_bind (guard_ok (sp_status row = SP_RESERVED) (Conflict ''PROVISIONING_STATE_INVALID'')) (\<lambda>_.
       res_bind (guard_ok (os_technician order \<noteq> None) (Unprocessable ''PROVISIONING_TECHNICIAN_REQUIRED'')) (\<lambda>_.
       res_bind (guard_ok (os_technician order \<noteq> Some actorId) (Forbidden ''PROVISIONING_CERTIFIER_IS_EXECUTOR'')) (\<lambda>_.
       res_bind (guard_ok (en_hasEvidence env (sp_order row) evidenceId) (Unprocessable ''PROVISIONING_EVIDENCE_REQUIRED'')) (\<lambda>_.
       let saved = row\<lparr>sp_status := SP_CERTIFIED, sp_certifiedBy := Some actorId, sp_certifiedAt := Some (en_now env),
             sp_evidence := Some evidenceId, sp_version := sp_version row + 1\<rparr>
       in Inr (saved, save_provisioning saved db)))))))))))"

definition authorize_certify :: "prov_env \<Rightarrow> string \<Rightarrow> network_router \<Rightarrow> unit result" where
  "authorize_certify env actorId router =
     (case nr_site router of
        None \<Rightarrow> en_tenantWide env actorId PROVISIONING_CERTIFY
      | Some s \<Rightarrow> en_siteAction env actorId s PROVISIONING_CERTIFY)"

text \<open>\<open>certify\<close> and \<open>release\<close> find the order of the row in a first transaction.\<close>

definition authorizeProvisioning ::
  "prov_env \<Rightarrow> (string \<Rightarrow> ExecutionSnapshot option) \<Rightarrow> string \<Rightarrow> string \<Rightarrow> permission \<Rightarrow> bool \<Rightarrow> net_db \<Rightarrow>
    ExecutionSnapshot result" where
  "authorizeProvisioning env orders k actorId permission requireCertifyWhenAlreadyCertified db =
     res_bind (of_option resourceNotFound (find_provisioning k db)) (\<lambda>row.
     res_bind (requireNetworkParent (sp_router row) (sp_network row) db) (\<lambda>(router, network).
     res_bind (en_siteOrTenantWide env actorId (nr_site router) permission) (\<lambda>_.
     res_bind (assertNetworkParentActive router network) (\<lambda>_.
     res_bind (of_option resourceNotFound (orders (sp_order row))) (\<lambda>order.
     res_bind (if requireCertifyWhenAlreadyCertified \<and> sp_status row = SP_CERTIFIED
               then authorize_certify env actorId router else Inr ()) (\<lambda>_.
     Inr order))))))"

definition certify ::
  "prov_env \<Rightarrow> (string \<Rightarrow> ExecutionSnapshot option) \<Rightarrow> string \<Rightarrow> string \<Rightarrow> int \<Rightarrow> string \<Rightarrow> net_db \<Rightarrow>
    (service_provisioning \<times> net_db) result" where
  "certify env orders k evidenceId version actorId db =
     res_bind (authorizeProvisioning env orders k actorId PROVISIONING_CERTIFY False db) (\<lambda>order.
     certify_tx env order k evidenceId version actorId db)"

definition release_tx ::
  "prov_env \<Rightarrow> ExecutionSnapshot \<Rightarrow> string \<Rightarrow> int \<Rightarrow> string \<Rightarrow> net_db \<Rightarrow> (service_provisioning \<times> net_db) result" where
  "release_tx env order k version actorId db =
     res_bind (of_option resourceNotFound (find_provisioning k db)) (\<lambda>row.
     res_bind (requireNetworkParent (sp_router row) (sp_network row) db) (\<lambda>(router, network).
     res_bind (en_siteOrTenantWide env actorId (nr_site router) PROVISIONING_EXECUTE) (\<lambda>_.
     res_bind (assertNetworkParentActive router network) (\<lambda>_.
     res_bind (if sp_status row = SP_CERTIFIED then authorize_certify env actorId router else Inr ()) (\<lambda>_.
     res_bind (guard_ok (sp_version row = version) versionConflict) (\<lambda>_.
     res_bind (guard_ok (\<not> (sp_status row \<noteq> SP_RESERVED \<and> sp_status row \<noteq> SP_CERTIFIED))
       (Conflict ''PROVISIONING_STATE_INVALID'')) (\<lambda>_.
     res_bind (guard_ok (os_status order = ORDER_IN_PROGRESS) orderNotEligible) (\<lambda>_.
     res_bind (assertActiveNetwork (sp_network row) db) (\<lambda>_.
     Inr (release_service (en_now env) MANUAL (Some actorId) row db))))))))))"

definition release ::
  "prov_env \<Rightarrow> (string \<Rightarrow> ExecutionSnapshot option) \<Rightarrow> string \<Rightarrow> int \<Rightarrow> string \<Rightarrow> net_db \<Rightarrow>
    (service_provisioning \<times> net_db) result" where
  "release env orders k version actorId db =
     res_bind (authorizeProvisioning env orders k actorId PROVISIONING_EXECUTE True db) (\<lambda>order.
     release_tx env order k version actorId db)"

section \<open>Activation\<close>

record ServiceProvisioningActivatedEvent =
  ae_provisioning :: string
  ae_subscriber :: string
  ae_expediente :: "string option"
  ae_contract :: "string option"
  ae_order :: string
  ae_cpeSerial :: "string option"

definition activationEvent :: "service_provisioning \<Rightarrow> ServiceProvisioningActivatedEvent" where
  "activationEvent s = \<lparr>ae_provisioning = sp_id s, ae_subscriber = sp_subscriber s, ae_expediente = sp_expediente s,
     ae_contract = sp_contract s, ae_order = sp_order s, ae_cpeSerial = sp_cpeSerial s\<rparr>"

text \<open>A certified service becomes active together with its assignment.\<close>

definition activate_service ::
  "int \<Rightarrow> ip_assignment \<Rightarrow> service_provisioning \<Rightarrow> net_db \<Rightarrow> service_provisioning \<times> net_db" where
  "activate_service now assignment row db =
     (let db1 = save_assignment (assignment\<lparr>ia_status := IP_ACTIVE\<rparr>) db;
          saved = row\<lparr>sp_status := SP_ACTIVE, sp_activatedAt := Some now, sp_commercial := PENDING, sp_commercialDetail := None,
            sp_version := sp_version row + 1\<rparr>
      in (saved, save_provisioning saved db1))"

definition fail_service :: "service_provisioning \<Rightarrow> net_db \<Rightarrow> net_db" where
  "fail_service row db = save_provisioning (row\<lparr>sp_status := SP_FAILED,
     sp_failureReason := Some ''CLOSED_WITHOUT_CERTIFICATION'', sp_version := sp_version row + 1\<rparr>) db"

section \<open>Regularize\<close>

record RegularizeProvisioningBody = ReserveProvisioningBody +
  rg_reason :: string

definition same_regularization :: "RegularizeProvisioningBody \<Rightarrow> service_provisioning \<Rightarrow> ip_assignment option \<Rightarrow> bool" where
  "same_regularization input existing assignment =
     (sp_origin existing = REGULARIZED \<and> sp_regularizationReason existing = Some (rg_reason input)
      \<and> sp_router existing = rb_routerId input \<and> sp_network existing = rb_networkId input
      \<and> sp_controlParams existing = rb_controlParams input
      \<and> (case rb_requestedIp input of None \<Rightarrow> True | Some ip \<Rightarrow> map_option ia_ip assignment = Some ip)
      \<and> (case rb_contractId input of None \<Rightarrow> True | Some k \<Rightarrow> sp_contract existing = Some k))"

text \<open>\<open>Object.assign\<close> over the row that is reused or created.\<close>

definition regularized_row ::
  "RegularizeProvisioningBody \<Rightarrow> ExecutionSnapshot \<Rightarrow> string \<Rightarrow> commercial_context \<Rightarrow> string option \<Rightarrow>
    installed_equipment option \<Rightarrow> string \<Rightarrow> int \<Rightarrow> int \<Rightarrow> service_provisioning \<Rightarrow> service_provisioning" where
  "regularized_row input order subscriberId commercial contract equipment actorId now version row =
     row\<lparr>sp_subscriber := subscriberId, sp_expediente := cx_expedienteId commercial, sp_contract := contract,
       sp_order := os_id order, sp_router := rb_routerId input, sp_network := rb_networkId input,
       sp_controlParams := rb_controlParams input, sp_plan := cx_planId commercial,
       sp_downloadMbps := cx_downloadMbps commercial, sp_uploadMbps := cx_uploadMbps commercial,
       sp_cpeSerial := map_option eq_serialNumber equipment, sp_cpeMac := Option.bind equipment eq_macAddress,
       sp_status := SP_ACTIVE, sp_origin := REGULARIZED, sp_regularizationReason := Some (rg_reason input),
       sp_regularizedBy := Some actorId, sp_regularizedAt := Some now, sp_activatedAt := Some now,
       sp_failureReason := None, sp_releasedAt := None, sp_releasedBy := None, sp_releaseReason := None,
       sp_commercial := PENDING, sp_commercialDetail := None, sp_version := version\<rparr>"

text \<open>The columns that \<open>create\<close> leaves to their defaults.\<close>

definition blank_row :: "string \<Rightarrow> ReserveProvisioningBody \<Rightarrow> ExecutionSnapshot \<Rightarrow> service_provisioning" where
  "blank_row newId input order =
     \<lparr>sp_id = newId, sp_subscriber = [], sp_expediente = None, sp_contract = None, sp_order = os_id order,
      sp_router = rb_routerId input, sp_network = rb_networkId input, sp_assignment = None,
      sp_controlParams = rb_controlParams input, sp_plan = None, sp_downloadMbps = None, sp_uploadMbps = None,
      sp_cpeSerial = None, sp_cpeMac = None, sp_status = SP_ACTIVE, sp_origin = NORMAL, sp_reservedBy = None,
      sp_reservedAt = None, sp_certifiedBy = None, sp_certifiedAt = None, sp_evidence = None, sp_activatedAt = None,
      sp_releasedAt = None, sp_releasedBy = None, sp_releaseReason = None, sp_regularizationReason = None,
      sp_regularizedBy = None, sp_regularizedAt = None, sp_failureReason = None, sp_commercial = NOT_APPLICABLE,
      sp_commercialDetail = None, sp_version = 1\<rparr>"

definition regularize_reuse ::
  "ip_assignment \<Rightarrow> service_provisioning \<Rightarrow> net_db \<Rightarrow> service_provisioning \<times> ipv4 \<times> net_db" where
  "regularize_reuse assignment row db =
     (let saved = row\<lparr>sp_assignment := Some (ia_id assignment)\<rparr>;
          db1 = save_assignment (assignment\<lparr>ia_status := IP_ACTIVE, ia_releasedAt := None, ia_releaseReason := None\<rparr>) db
      in (saved, ia_ip assignment, save_provisioning saved db1))"

definition regularize_new ::
  "service_provisioning \<Rightarrow> ipv4 option \<Rightarrow> string \<Rightarrow> net_db \<Rightarrow> (service_provisioning \<times> ipv4 \<times> net_db) result" where
  "regularize_new row requestedIp newAssignmentId db =
     res_bind (insert_provisioning row db) (\<lambda>db1.
     res_bind (reserveIp (sp_network row) (sp_id row) requestedIp newAssignmentId db1) (\<lambda>(ip, db2).
     res_bind (of_option (Conflict ''IP_IN_USE'')
       (find (\<lambda>a. ia_provisioning a = sp_id row \<and> ia_status a = IP_RESERVED) (nd_assignments db2))) (\<lambda>assignment.
     let saved = row\<lparr>sp_assignment := Some (ia_id assignment)\<rparr>
     in Inr (saved, ia_ip assignment, save_provisioning saved (save_assignment (assignment\<lparr>ia_status := IP_ACTIVE\<rparr>) db2)))))"

text \<open>The failed row of the order, whether its assignment may be reused.\<close>

definition reusable ::
  "RegularizeProvisioningBody \<Rightarrow> service_provisioning \<Rightarrow> net_db \<Rightarrow> ip_assignment option result" where
  "reusable input old db =
     (case live_assignment (sp_id old) db of
        None \<Rightarrow> Inr None
      | Some a \<Rightarrow>
          res_bind (assertAssignmentNotLocallyProtected (ia_ip a) db) (\<lambda>_.
          Inr (if ia_network a = rb_networkId input
                 \<and> (case rb_requestedIp input of None \<Rightarrow> True | Some ip \<Rightarrow> ia_ip a = ip)
               then Some a else None)))"

definition regularize_tx ::
  "prov_env \<Rightarrow> ExecutionSnapshot \<Rightarrow> RegularizeProvisioningBody \<Rightarrow> string \<Rightarrow> string \<Rightarrow> string \<Rightarrow> net_db \<Rightarrow>
    (service_provisioning \<times> ipv4 \<times> net_db) result" where
  "regularize_tx env order input actorId newId newAssignmentId db =
     res_bind (requireNetworkParent (rb_routerId input) (rb_networkId input) db) (\<lambda>(router, network).
     res_bind (en_siteOrTenantWide env actorId (nr_site router) PROVISIONING_REGULARIZE) (\<lambda>_.
     res_bind (assertNetworkParentActive router network) (\<lambda>_.
     res_bind (assertEligibleClosedInstallation order) (\<lambda>_.
     res_bind (guard_ok (os_technician order \<noteq> None) (Unprocessable ''PROVISIONING_TECHNICIAN_REQUIRED'')) (\<lambda>_.
     res_bind (guard_ok (os_technician order \<noteq> Some actorId) (Forbidden ''PROVISIONING_CERTIFIER_IS_EXECUTOR'')) (\<lambda>_.
     res_bind (of_option orderNotEligible (os_subscriberId order)) (\<lambda>subscriberId.
     res_bind (en_assertWritable env subscriberId) (\<lambda>_.
     res_bind (assertReservationsOpen env) (\<lambda>_.
     res_bind (assertActiveNetwork (nw_id network) db) (\<lambda>_.
     let commercial_row = (\<lambda>version row.
           res_bind (guard_ok (control_method (rb_controlParams input) \<in> set (nr_methods router)) controlMethodNotSupported) (\<lambda>_.
           res_bind (of_option orderNotEligible (en_commercial env subscriberId)) (\<lambda>commercial.
           res_bind (choose_contract (rb_contractId input) commercial) (\<lambda>contract.
           Inr (regularized_row input order subscriberId commercial contract
             (en_equipment env (rb_executionOrderId input) subscriberId) actorId (en_now env) version row)))));
         create = (\<lambda>db1. res_bind (commercial_row 1 (blank_row newId (ReserveProvisioningBody.truncate input) order)) (\<lambda>row.
           regularize_new row (rb_requestedIp input) newAssignmentId db1))
     in (case latest_of_order (rb_executionOrderId input) [SP_ACTIVE, SP_FAILED, SP_RESERVED, SP_CERTIFIED] db of
           None \<Rightarrow> create db
         | Some old \<Rightarrow>
             if sp_status old = SP_ACTIVE then
               (let assignment = find (\<lambda>a. ia_provisioning a = sp_id old \<and> ia_status a = IP_ACTIVE) (nd_assignments db)
                in (case assignment of
                      Some a \<Rightarrow>
                        if same_regularization input old (Some a)
                        then res_bind (assertAssignmentNotLocallyProtected (ia_ip a) db) (\<lambda>_. Inr (old, ia_ip a, db))
                        else Inl (Conflict ''PROVISIONING_ALREADY_ACTIVE'')
                    | None \<Rightarrow> Inl (Conflict ''PROVISIONING_ALREADY_ACTIVE'')))
             else if sp_status old \<noteq> SP_FAILED then Inl (Conflict ''PROVISIONING_STATE_INVALID'')
             else res_bind (reusable input old db) (\<lambda>reused.
               (case reused of
                  Some a \<Rightarrow> res_bind (commercial_row (sp_version old + 1) old) (\<lambda>row. Inr (regularize_reuse a row db))
                | None \<Rightarrow> create (releaseExistingWithin (en_now env) actorId old db))))))))))))))"

text \<open>The request, and the event it emits in every case, also when nothing was changed.\<close>

definition regularize ::
  "prov_env \<Rightarrow> (string \<Rightarrow> ExecutionSnapshot option) \<Rightarrow> RegularizeProvisioningBody \<Rightarrow> string \<Rightarrow> string \<Rightarrow> string \<Rightarrow> net_db \<Rightarrow>
    (ServiceProvisioningActivatedEvent \<times> net_db) result" where
  "regularize env orders input actorId newId newAssignmentId db =
     res_bind (authorizeTarget env (rb_routerId input) (rb_networkId input) actorId PROVISIONING_REGULARIZE db) (\<lambda>_.
     res_bind (of_option resourceNotFound (orders (rb_executionOrderId input))) (\<lambda>order.
     res_bind (regularize_tx env order input actorId newId newAssignmentId db) (\<lambda>(row, ip, db1).
     Inr (activationEvent row, db1))))"

section \<open>Execution events\<close>

definition releaseReason :: "NetworkExecutionEvent \<Rightarrow> ReleaseReason option" where
  "releaseReason event =
     (case ne_eventType event of
        ExecutionOrderAnnulledV1 \<Rightarrow> Some ANNULLED
      | ExecutionOrderCancelledV1 \<Rightarrow> Some CANCELLED
      | ExecutionOrderClosedV1 \<Rightarrow>
          if ne_result event = Some RESULT_NOT_EXECUTED then Some NOT_EXECUTED
          else if ne_result event = Some RESULT_CANCELLED then Some CANCELLED
          else None)"

definition executed_event :: "NetworkExecutionEvent \<Rightarrow> bool" where
  "executed_event event = (ne_eventType event = ExecutionOrderClosedV1
     \<and> (ne_result event = Some EXECUTED \<or> ne_result event = Some EXECUTED_WITH_OBSERVATIONS))"

definition find_inbox :: "string \<Rightarrow> net_db \<Rightarrow> inbox_event option" where
  "find_inbox k db = find (\<lambda>e. ib_eventId e = k) (nd_inbox db)"

definition inbox_matches :: "NetworkExecutionEvent \<Rightarrow> inbox_event \<Rightarrow> bool" where
  "inbox_matches event e = (ib_eventType e = ne_eventType event \<and> ib_order e = ne_executionOrderId event)"

text \<open>An error of a service reaches the inbox as \<open>UNEXPECTED\<close>.\<close>

definition lift_error :: "'a result \<Rightarrow> inbox_error + 'a" where
  "lift_error r = (case r of Inl e \<Rightarrow> Inl UNEXPECTED | Inr x \<Rightarrow> Inr x)"

text \<open>\<open>INSERT ... ON CONFLICT DO NOTHING\<close>, then the row without its last error.\<close>

definition open_inbox :: "NetworkExecutionEvent \<Rightarrow> net_db \<Rightarrow> net_db" where
  "open_inbox event db =
     (case find_inbox (ne_eventId event) db of
        None \<Rightarrow> db\<lparr>nd_inbox := nd_inbox db @ [\<lparr>ib_eventId = ne_eventId event, ib_eventType = ne_eventType event,
            ib_order = ne_executionOrderId event, ib_processedAt = None, ib_lastErrorCode = None\<rparr>]\<rparr>
      | Some e \<Rightarrow> save_inbox (e\<lparr>ib_lastErrorCode := None\<rparr>) db)"

definition mark_processed :: "int \<Rightarrow> NetworkExecutionEvent \<Rightarrow> net_db \<Rightarrow> net_db" where
  "mark_processed now event db =
     db\<lparr>nd_inbox := map (\<lambda>e. if ib_eventId e = ne_eventId event then e\<lparr>ib_processedAt := Some now\<rparr> else e) (nd_inbox db)\<rparr>"

text \<open>
  \<open>applyEvent\<close>. The number of rows that the driver hands back for an \<open>INSERT\<close> without
  \<open>RETURNING\<close> that wrote its row is the argument \<open>inserted_rows\<close>.
\<close>

definition applyEvent ::
  "nat \<Rightarrow> int \<Rightarrow> NetworkExecutionEvent \<Rightarrow> net_db \<Rightarrow> inbox_error + (ServiceProvisioningActivatedEvent option \<times> net_db)" where
  "applyEvent inserted_rows now event db =
     (let known = find_inbox (ne_eventId event) db;
          insertedRows = (if known = None then inserted_rows else 0);
          wasPendingRetry = (insertedRows = 0);
          snapshot = latest_of_order (ne_executionOrderId event) [SP_RESERVED, SP_CERTIFIED, SP_ACTIVE] db;
          processed = (\<lambda>db1. Inr (None, mark_processed now event db1));
          db0 = open_inbox event db
      in if known \<noteq> None \<and> \<not> inbox_matches event (the known) then Inl UNEXPECTED
         else if known \<noteq> None \<and> ib_processedAt (the known) \<noteq> None then Inr (None, db)
         else (case snapshot of
             None \<Rightarrow> processed db0
           | Some provisioning \<Rightarrow>
               if sp_status provisioning = SP_ACTIVE then
                 (if wasPendingRetry then
                    (case live_assignment (sp_id provisioning) db0 of
                       None \<Rightarrow> Inr (Some (activationEvent provisioning), db0)
                     | Some a \<Rightarrow>
                         res_bind (lift_error (assertAssignmentNotLocallyProtected (ia_ip a) db0)) (\<lambda>_.
                         Inr (Some (activationEvent provisioning), db0)))
                  else processed db0)
               else if executed_event event \<and> sp_status provisioning = SP_CERTIFIED then
                 res_bind (lift_error (assertActiveNetwork (sp_network provisioning) db0)) (\<lambda>_.
                 (case live_assignment (sp_id provisioning) db0 of
                    None \<Rightarrow> Inl IPAM_CONFLICT
                  | Some a \<Rightarrow>
                      res_bind (lift_error (assertAssignmentNotLocallyProtected (ia_ip a) db0)) (\<lambda>_.
                      let (saved, db1) = activate_service now a provisioning db0
                      in Inr (Some (activationEvent saved), db1))))
               else if executed_event event then processed (fail_service provisioning db0)
               else (case releaseReason event of
                   Some reason \<Rightarrow> processed (snd (release_service now reason (sp_releasedBy provisioning) provisioning db0))
                 | None \<Rightarrow> processed db0)))"

text \<open>What stays of a failed attempt: its transaction is rolled back and the error recorded.\<close>

definition persistInboxError :: "NetworkExecutionEvent \<Rightarrow> inbox_error \<Rightarrow> net_db \<Rightarrow> net_db" where
  "persistInboxError event code db =
     (case find_inbox (ne_eventId event) db of
        None \<Rightarrow> db\<lparr>nd_inbox := nd_inbox db @ [\<lparr>ib_eventId = ne_eventId event, ib_eventType = ne_eventType event,
            ib_order = ne_executionOrderId event, ib_processedAt = None, ib_lastErrorCode = Some code\<rparr>]\<rparr>
      | Some e \<Rightarrow> save_inbox (e\<lparr>ib_processedAt := None, ib_lastErrorCode := Some code\<rparr>) db)"

definition persistInvalidSignature :: "NetworkExecutionEvent \<Rightarrow> net_db \<Rightarrow> net_db" where
  "persistInvalidSignature event db =
     (case find_inbox (ne_eventId event) db of
        None \<Rightarrow> db\<lparr>nd_inbox := nd_inbox db @ [\<lparr>ib_eventId = ne_eventId event, ib_eventType = ne_eventType event,
            ib_order = ne_executionOrderId event, ib_processedAt = None, ib_lastErrorCode = Some SIGNATURE_INVALID\<rparr>]\<rparr>
      | Some e \<Rightarrow> db)"

text \<open>
  A job whose signature and tenant hold: the activation events that were handed to the
  listeners, and the tables. \<open>listener\<close> is the error the listeners end in, if any.
\<close>

definition process_event ::
  "nat \<Rightarrow> inbox_error option \<Rightarrow> ExecutionSnapshot option \<Rightarrow> int \<Rightarrow> NetworkExecutionEvent \<Rightarrow> net_db \<Rightarrow>
    ServiceProvisioningActivatedEvent list \<times> net_db" where
  "process_event inserted_rows listener order now event db =
     (if order = None then ([], persistInboxError event ORDER_NOT_FOUND db)
      else case applyEvent inserted_rows now event db of
          Inl code \<Rightarrow> ([], persistInboxError event code db)
        | Inr (None, db1) \<Rightarrow> ([], db1)
        | Inr (Some activated, db1) \<Rightarrow>
            (case listener of
               Some code \<Rightarrow> ([activated], persistInboxError event code db1)
             | None \<Rightarrow> ([activated], db1\<lparr>nd_inbox := map (\<lambda>e. if ib_eventId e = ne_eventId event
                   then e\<lparr>ib_processedAt := Some now, ib_lastErrorCode := None\<rparr> else e) (nd_inbox db1)\<rparr>)))"

section \<open>Reconciliation\<close>

definition executed_snapshot :: "ExecutionSnapshot \<Rightarrow> bool" where
  "executed_snapshot snapshot =
     ((os_status snapshot = ORDER_COMPLETED \<or> os_status snapshot = ORDER_COMPLETED_WITH_OBSERVATIONS)
      \<and> (os_result snapshot = Some EXECUTED \<or> os_result snapshot = Some EXECUTED_WITH_OBSERVATIONS)
      \<and> \<not> os_isAnnulled snapshot)"

definition eventReleaseReason :: "ExecutionSnapshot \<Rightarrow> ReleaseReason option" where
  "eventReleaseReason snapshot =
     (if os_isAnnulled snapshot then Some ANNULLED
      else if os_status snapshot = ORDER_CANCELLED \<or> os_result snapshot = Some RESULT_CANCELLED then Some CANCELLED
      else if os_result snapshot = Some RESULT_NOT_EXECUTED then Some NOT_EXECUTED
      else None)"

definition reconcileOne ::
  "int \<Rightarrow> string \<Rightarrow> ExecutionSnapshot \<Rightarrow> net_db \<Rightarrow> (ServiceProvisioningActivatedEvent option \<times> net_db) result" where
  "reconcileOne now serviceId snapshot db =
     (case find (\<lambda>s. sp_id s = serviceId \<and> (sp_status s = SP_RESERVED \<or> sp_status s = SP_CERTIFIED)) (nd_provisionings db) of
        None \<Rightarrow> Inr (None, db)
      | Some service \<Rightarrow>
          if executed_snapshot snapshot \<and> sp_status service = SP_CERTIFIED then
            res_bind (assertActiveNetwork (sp_network service) db) (\<lambda>_.
            (case live_assignment (sp_id service) db of
               None \<Rightarrow> Inl Plain_Error
             | Some a \<Rightarrow>
                 res_bind (assertAssignmentNotLocallyProtected (ia_ip a) db) (\<lambda>_.
                 let (saved, db1) = activate_service now a service db
                 in Inr (Some (activationEvent saved), db1))))
          else if executed_snapshot snapshot then Inr (None, fail_service service db)
          else (case eventReleaseReason snapshot of
              None \<Rightarrow> Inr (None, db)
            | Some reason \<Rightarrow> Inr (None, snd (release_service now RECONCILED (sp_releasedBy service) service db))))"

text \<open>
  The turn of the job over the candidates, oldest first; an error of one of them ends the
  turn, and what was committed before stays.
\<close>

fun reconcile_loop ::
  "int \<Rightarrow> (string \<Rightarrow> ExecutionSnapshot option) \<Rightarrow> (string \<times> string) list \<Rightarrow>
    ServiceProvisioningActivatedEvent list \<times> net_db \<Rightarrow> bool \<times> ServiceProvisioningActivatedEvent list \<times> net_db" where
  "reconcile_loop now snapshots [] (events, db) = (True, events, db)"
| "reconcile_loop now snapshots ((serviceId, orderId) # rest) (events, db) =
     (case snapshots orderId of
        None \<Rightarrow> reconcile_loop now snapshots rest (events, db)
      | Some snapshot \<Rightarrow>
          if os_status snapshot = ORDER_IN_PROGRESS then reconcile_loop now snapshots rest (events, db)
          else (case reconcileOne now serviceId snapshot db of
              Inl e \<Rightarrow> (False, events, db)
            | Inr (activation, db1) \<Rightarrow>
                reconcile_loop now snapshots rest
                  (events @ (case activation of None \<Rightarrow> [] | Some a \<Rightarrow> [a]), db1)))"

definition reconcile ::
  "int \<Rightarrow> (string \<Rightarrow> ExecutionSnapshot option) \<Rightarrow> net_db \<Rightarrow> bool \<times> ServiceProvisioningActivatedEvent list \<times> net_db" where
  "reconcile now snapshots db =
     reconcile_loop now snapshots
       (map (\<lambda>s. (sp_id s, sp_order s)) (filter (\<lambda>s. sp_status s = SP_RESERVED \<or> sp_status s = SP_CERTIFIED) (nd_provisionings db)))
       ([], db)"

section \<open>Marks of other modules\<close>

text \<open>The listener of the CRM records the outcome of the commercial activation.\<close>

definition record_commercial_status ::
  "string \<Rightarrow> CommercialActivationStatus \<Rightarrow> CommercialDetail option \<Rightarrow> net_db \<Rightarrow> net_db result" where
  "record_commercial_status k status detail db =
     res_bind (of_option Plain_Error (find_provisioning k db)) (\<lambda>service.
     if sp_commercial service = status \<and> sp_commercialDetail service = detail then Inr db
     else Inr (save_provisioning (service\<lparr>sp_commercial := status, sp_commercialDetail := detail,
       sp_version := sp_version service + 1\<rparr>) db))"

text \<open>
  The part of the network in the erasure of a data subject: the reasons of the regularizations
  of its services become the marker, and what was selected, changed and left over is counted.
\<close>

record erasure_scope =
  es_subscriberIds :: "string list"
  es_expedienteIds :: "string list"
  es_contractIds :: "string list"

record erasure_result =
  er_selected :: nat
  er_changed :: nat
  er_residual :: nat

definition ANONYMIZED :: string where
  "ANONYMIZED = ''ANONIMIZADO''"

definition in_erasure_scope :: "erasure_scope \<Rightarrow> service_provisioning \<Rightarrow> bool" where
  "in_erasure_scope scope s =
     (sp_subscriber s \<in> set (es_subscriberIds scope)
      \<or> (case sp_expediente s of None \<Rightarrow> False | Some e \<Rightarrow> e \<in> set (es_expedienteIds scope))
      \<or> (case sp_contract s of None \<Rightarrow> False | Some c \<Rightarrow> c \<in> set (es_contractIds scope)))"

definition reason_dirty :: "service_provisioning \<Rightarrow> bool" where
  "reason_dirty s = (sp_regularizationReason s \<noteq> Some ANONYMIZED)"

definition erase_reason :: "erasure_scope \<Rightarrow> service_provisioning \<Rightarrow> service_provisioning" where
  "erase_reason scope s =
     (if in_erasure_scope scope s \<and> reason_dirty s then s\<lparr>sp_regularizationReason := Some ANONYMIZED\<rparr> else s)"

definition network_erasure :: "bool \<Rightarrow> erasure_scope \<Rightarrow> net_db \<Rightarrow> erasure_result \<times> net_db" where
  "network_erasure dryRun scope db =
     (let rows = filter (in_erasure_scope scope) (nd_provisionings db);
          after = (if dryRun then db else db\<lparr>nd_provisionings := map (erase_reason scope) (nd_provisionings db)\<rparr>)
      in (\<lparr>er_selected = length rows,
           er_changed = (if dryRun then 0 else length (filter reason_dirty rows)),
           er_residual = length (filter reason_dirty (filter (in_erasure_scope scope) (nd_provisionings after)))\<rparr>, after))"

end
