(* ===== verification/Leases.thy ===== *)
theory Leases
  imports Provisioning
begin

text \<open>
  The link between provisionings and addresses: which assignment a provisioning holds in each
  of its statuses, the effect of every transaction of the provisioning service on the two
  tables, and the facts that keep the link. The effects are few: a row and its assignment are
  rewritten together, or both are added.
\<close>

section \<open>The link\<close>

definition holds :: "service_provisioning \<Rightarrow> ip_assignment \<Rightarrow> bool" where
  "holds s a =
     (ia_provisioning a = sp_id s \<and> ia_network a = sp_network s \<and> sp_assignment s = Some (ia_id a)
      \<and> sp_status s \<noteq> SP_RELEASED \<and> ia_status a = (if sp_status s = SP_ACTIVE then IP_ACTIVE else IP_RESERVED))"

definition leases_ok :: "service_provisioning list \<Rightarrow> ip_assignment list \<Rightarrow> bool" where
  "leases_ok P A \<longleftrightarrow>
     distinct (map sp_id P) \<and> distinct (map ia_id A)
     \<and> distinct (map ia_ip (filter ia_live A))
     \<and> distinct (map sp_order (filter (\<lambda>s. sp_status s \<noteq> SP_RELEASED) P))
     \<and> (\<forall>a \<in> set A. ia_live a \<longrightarrow> (\<exists>s \<in> set P. holds s a))
     \<and> (\<forall>s \<in> set P. sp_status s \<noteq> SP_RELEASED \<longrightarrow> (\<exists>a \<in> set A. holds s a))"

lemma holds_live: "holds s a \<Longrightarrow> ia_live a"
  by (auto simp: holds_def ia_live_def split: if_splits)

lemma replace_row_fresh: "key row \<notin> key ` set rows \<Longrightarrow> replace_row key row rows = rows"
  by (induction rows) (auto simp: replace_row_def)

lemma replace_row_append [simp]:
  "replace_row key row (xs @ ys) = replace_row key row xs @ replace_row key row ys"
  by (simp add: replace_row_def)

lemma replace_row_single [simp]: "key r = key row \<Longrightarrow> replace_row key row [r] = [row]"
  by (simp add: replace_row_def)

lemma replace_row_same:
  "distinct (map key rows) \<Longrightarrow> r \<in> set rows \<Longrightarrow> replace_row key r rows = rows"
  unfolding replace_row_def by (rule map_idI) (metis distinct_map inj_onD)

text \<open>A column of the rows that satisfy a condition stays duplicate-free when a row is rewritten.\<close>

lemma distinct_column_replace:
  assumes "distinct (map key rows)" and "r0 \<in> set rows" and "key r = key r0"
    and "distinct (map col (filter P rows))" and "P r \<Longrightarrow> P r0" and "P r \<Longrightarrow> col r = col r0"
  shows "distinct (map col (filter P (replace_row key r rows)))"
  using assms
proof (induction rows)
  case (Cons x xs)
  show ?case
  proof (cases "key x = key r")
    case True
    with Cons.prems have x: "x = r0" and fresh: "key r \<notin> key ` set xs" by auto
    show ?thesis using Cons.prems(4-) x replace_row_fresh [OF fresh]
      by (auto simp: replace_row_def split: if_splits)
  next
    case False
    with Cons.prems have r0: "r0 \<in> set xs" "x \<noteq> r0" by auto
    with Cons have ih: "distinct (map col (filter P (replace_row key r xs)))" by (auto split: if_splits)
    have "col x \<notin> col ` {y \<in> set (replace_row key r xs). P y}" if "P x"
    proof
      assume "col x \<in> col ` {y \<in> set (replace_row key r xs). P y}"
      then obtain y where y: "y \<in> set (replace_row key r xs)" "P y" "col y = col x" by auto
      from set_replace_rowD [OF y(1)] have "\<exists>z \<in> set xs. P z \<and> col z = col x"
        using y r0(1) Cons.prems(5,6) by auto
      then show False using Cons.prems(4) that by (force simp: image_iff)
    qed
    with ih False show ?thesis by (auto simp: replace_row_def)
  qed
qed simp

section \<open>The two effects\<close>

lemma leases_ok_rewrite:
  assumes ok: "leases_ok P A" and s0: "s0 \<in> set P" and a0: "a0 \<in> set A" and h0: "holds s0 a0"
    and s: "sp_id s = sp_id s0" "sp_order s = sp_order s0" and a: "ia_id a = ia_id a0" "ia_ip a = ia_ip a0"
    and new: "holds s a \<or> (sp_status s = SP_RELEASED \<and> \<not> ia_live a)"
  shows "leases_ok (replace_row sp_id s P) (replace_row ia_id a A)"
proof -
  from ok have dP: "distinct (map sp_id P)" and dA: "distinct (map ia_id A)" by (auto simp: leases_ok_def)
  note setP = set_replace_row [OF s0 s(1) [symmetric] dP]
  note setA = set_replace_row [OF a0 a(1) [symmetric] dA]
  have sid: "t = s0" if "t \<in> set P" "sp_id t = sp_id s0" for t
    using that s0 dP by (metis distinct_map inj_onD)
  have aid: "b = a0" if "b \<in> set A" "ia_id b = ia_id a0" for b
    using that a0 dA by (metis distinct_map inj_onD)
  have only_a: "b = a0" if "b \<in> set A" "holds s0 b" for b
    using aid that h0 by (auto simp: holds_def)
  have only_s: "t = s0" if "t \<in> set P" "holds t a0" for t
    using sid that h0 by (auto simp: holds_def)
  have "\<exists>t \<in> set (replace_row sp_id s P). holds t b" if b: "b \<in> set (replace_row ia_id a A)" "ia_live b" for b
  proof (cases "b = a")
    case True then show ?thesis using b new setP by auto
  next
    case False
    then have "b \<in> set A" "b \<noteq> a0" using b setA by auto
    with ok b(2) obtain t where "t \<in> set P" "holds t b" by (auto simp: leases_ok_def)
    moreover have "t \<noteq> s0" using only_a \<open>b \<in> set A\<close> \<open>b \<noteq> a0\<close> \<open>holds t b\<close> by auto
    ultimately show ?thesis using setP by auto
  qed
  moreover have "\<exists>b \<in> set (replace_row ia_id a A). holds t b"
    if t: "t \<in> set (replace_row sp_id s P)" "sp_status t \<noteq> SP_RELEASED" for t
  proof (cases "t = s")
    case True then show ?thesis using t new setA by auto
  next
    case False
    then have "t \<in> set P" "t \<noteq> s0" using t setP by auto
    with ok t(2) obtain b where "b \<in> set A" "holds t b" by (auto simp: leases_ok_def)
    moreover have "b \<noteq> a0" using only_s \<open>t \<in> set P\<close> \<open>t \<noteq> s0\<close> \<open>holds t b\<close> by auto
    ultimately show ?thesis using setA by auto
  qed
  moreover have "distinct (map ia_ip (filter ia_live (replace_row ia_id a A)))"
    using ok dA a0 a holds_live [OF h0] by (intro distinct_column_replace) (auto simp: leases_ok_def)
  moreover have "distinct (map sp_order (filter (\<lambda>s. sp_status s \<noteq> SP_RELEASED) (replace_row sp_id s P)))"
    using ok dP s0 s h0 by (intro distinct_column_replace) (auto simp: leases_ok_def holds_def)
  ultimately show ?thesis using dP dA by (simp add: leases_ok_def)
qed

lemma leases_ok_add:
  assumes ok: "leases_ok P A" and s: "sp_id s \<notin> sp_id ` set P" and a: "ia_id a \<notin> ia_id ` set A"
    and order: "\<not> list_ex (\<lambda>t. sp_order t = sp_order s \<and> sp_status t \<noteq> SP_RELEASED) P"
    and ip: "\<not> list_ex (\<lambda>b. ia_live b \<and> ia_ip b = ia_ip a) A" and h: "holds s a"
  shows "leases_ok (P @ [s]) (A @ [a])"
  using ok s a order ip h holds_live [OF h] unfolding leases_ok_def
  by (auto simp: list_ex_iff image_iff)

text \<open>A row of the first kind holds one assignment, which the lookups of the services find.\<close>

lemma live_assignment_holds:
  assumes ok: "leases_ok (nd_provisionings db) (nd_assignments db)"
    and s: "s \<in> set (nd_provisionings db)" "sp_status s \<noteq> SP_RELEASED"
  obtains a where "live_assignment (sp_id s) db = Some a" "a \<in> set (nd_assignments db)" "holds s a"
proof -
  from ok s obtain b where b: "b \<in> set (nd_assignments db)" "holds s b" by (auto simp: leases_ok_def)
  then have "live_assignment (sp_id s) db \<noteq> None"
    using holds_live [OF b(2)] by (auto simp: live_assignment_def find_None_iff holds_def)
  then obtain a where a: "live_assignment (sp_id s) db = Some a" by auto
  then have a': "a \<in> set (nd_assignments db)" "ia_provisioning a = sp_id s" "ia_live a"
    by (auto simp: live_assignment_def dest: find_SomeD)
  with ok obtain t where t: "t \<in> set (nd_provisionings db)" "holds t a" by (auto simp: leases_ok_def)
  then have "sp_id t = sp_id s" using a'(2) by (simp add: holds_def)
  with t s ok have "t = s" by (auto simp: leases_ok_def distinct_map inj_on_def)
  with t a a' show ?thesis using that by blast
qed

section \<open>The effects of the transactions\<close>

text \<open>The check constraints of \<open>service_provisionings\<close>, and what a status says of its columns.\<close>

definition sp_checks :: "service_provisioning \<Rightarrow> bool" where
  "sp_checks s =
     ((sp_status s = SP_CERTIFIED \<longrightarrow> sp_certifiedBy s \<noteq> None \<and> sp_certifiedAt s \<noteq> None \<and> sp_evidence s \<noteq> None)
      \<and> (sp_origin s = REGULARIZED \<longrightarrow>
          sp_regularizationReason s \<noteq> None \<and> sp_regularizedBy s \<noteq> None \<and> sp_regularizedAt s \<noteq> None)
      \<and> (sp_status s = SP_ACTIVE \<longrightarrow> sp_activatedAt s \<noteq> None \<and> sp_failureReason s = None)
      \<and> (sp_status s = SP_FAILED \<longleftrightarrow> sp_failureReason s \<noteq> None \<and> sp_status s \<noteq> SP_RELEASED)
      \<and> (sp_status s = SP_RELEASED \<longleftrightarrow> sp_releasedAt s \<noteq> None)
      \<and> (sp_status s = SP_RELEASED \<longleftrightarrow> sp_releaseReason s \<noteq> None))"

fun moves_to :: "ServiceProvisioningStatus \<Rightarrow> ServiceProvisioningStatus \<Rightarrow> bool" where
  "moves_to SP_RESERVED t = (t = SP_CERTIFIED \<or> t = SP_FAILED \<or> t = SP_RELEASED)"
| "moves_to SP_CERTIFIED t = (t = SP_ACTIVE \<or> t = SP_RELEASED)"
| "moves_to SP_FAILED t = (t = SP_ACTIVE \<or> t = SP_RELEASED)"
| "moves_to SP_ACTIVE t = False"
| "moves_to SP_RELEASED t = False"

definition same_lease :: "service_provisioning \<Rightarrow> service_provisioning \<Rightarrow> bool" where
  "same_lease s t =
     (sp_id t = sp_id s \<and> sp_order t = sp_order s \<and> sp_network t = sp_network s \<and> sp_assignment t = sp_assignment s
      \<and> sp_status t = sp_status s \<and> sp_version s \<le> sp_version t \<and> (sp_checks s \<longrightarrow> sp_checks t))"

text \<open>An address that a network may hand out.\<close>

definition lawful_ip :: "ipv4_network \<Rightarrow> net_db \<Rightarrow> ipv4 \<Rightarrow> bool" where
  "lawful_ip n db ip =
     (nw_from n \<le> ip \<and> ip \<le> nw_to n \<and> ip \<noteq> nw_gateway n \<and> ip \<noteq> network_of (nw_cidr n)
      \<and> ip \<noteq> broadcast_of (nw_cidr n) \<and> ip \<notin> set (nw_excluded n) \<and> \<not> is_local ip db)"

inductive lease_effect :: "net_db \<Rightarrow> net_db \<Rightarrow> bool" where
  Rewrite: "s0 \<in> set (nd_provisionings db) \<Longrightarrow> a0 \<in> set (nd_assignments db) \<Longrightarrow> holds s0 a0 \<Longrightarrow>
    sp_id s = sp_id s0 \<Longrightarrow> sp_order s = sp_order s0 \<Longrightarrow> sp_version s0 < sp_version s \<Longrightarrow>
    moves_to (sp_status s0) (sp_status s) \<Longrightarrow> (sp_checks s0 \<Longrightarrow> sp_checks s) \<Longrightarrow>
    ia_id a = ia_id a0 \<Longrightarrow> ia_ip a = ia_ip a0 \<Longrightarrow> ia_network a = ia_network a0 \<Longrightarrow>
    holds s a \<or> (sp_status s = SP_RELEASED \<and> \<not> ia_live a) \<Longrightarrow>
    lease_effect db (db\<lparr>nd_provisionings := replace_row sp_id s (nd_provisionings db),
      nd_assignments := replace_row ia_id a (nd_assignments db)\<rparr>)"
| Add: "sp_id s \<notin> sp_id ` set (nd_provisionings db) \<Longrightarrow> ia_id a \<notin> ia_id ` set (nd_assignments db) \<Longrightarrow>
    \<not> list_ex (\<lambda>t. sp_order t = sp_order s \<and> sp_status t \<noteq> SP_RELEASED) (nd_provisionings db) \<Longrightarrow>
    \<not> live_ip (ia_ip a) db \<Longrightarrow> holds s a \<Longrightarrow> sp_checks s \<Longrightarrow>
    n \<in> set (nd_networks db) \<Longrightarrow> nw_id n = ia_network a \<Longrightarrow> lawful_ip n db (ia_ip a) \<Longrightarrow>
    lease_effect db (db\<lparr>nd_provisionings := nd_provisionings db @ [s], nd_assignments := nd_assignments db @ [a]\<rparr>)"
| Mark: "(\<And>s. s \<in> set (nd_provisionings db) \<Longrightarrow> same_lease s (f s)) \<Longrightarrow>
    lease_effect db (db\<lparr>nd_provisionings := List.map f (nd_provisionings db)\<rparr>)"
| Inbox: "lease_effect db (db\<lparr>nd_inbox := inbox\<rparr>)"

abbreviation leases_of :: "net_db \<Rightarrow> bool" where
  "leases_of db \<equiv> leases_ok (nd_provisionings db) (nd_assignments db)"

lemma leases_ok_mark:
  assumes "leases_ok P A" and "\<And>s. s \<in> set P \<Longrightarrow> same_lease s (f s)"
  shows "leases_ok (map f P) A"
proof -
  have h: "holds (f s) a = holds s a" if "s \<in> set P" for s a
    using assms(2) [OF that] by (simp add: same_lease_def holds_def)
  have "map sp_id (map f P) = map sp_id P" using assms(2) by (auto simp: same_lease_def)
  moreover have "map sp_order (filter (\<lambda>s. sp_status s \<noteq> SP_RELEASED) (map f P))
      = map sp_order (filter (\<lambda>s. sp_status s \<noteq> SP_RELEASED) P)"
    using assms(2) by (induction P) (auto simp: same_lease_def)
  moreover have "\<forall>s \<in> set P. (sp_status (f s) \<noteq> SP_RELEASED) = (sp_status s \<noteq> SP_RELEASED)"
    using assms(2) by (auto simp: same_lease_def)
  ultimately show ?thesis using assms(1) h unfolding leases_ok_def set_map by (auto simp del: map_map)
qed

lemma lease_effect_leases: "lease_effect db db' \<Longrightarrow> leases_of db \<Longrightarrow> leases_of db'"
proof (induction rule: lease_effect.induct)
  case (Rewrite s0 db a0 s a)
  then show ?case using leases_ok_rewrite [of _ _ s0 a0 s a] by simp
next
  case (Add s db a n)
  then show ?case using leases_ok_add [of "nd_provisionings db" "nd_assignments db" s a] by (simp add: live_ip_def)
next
  case (Mark db f)
  then show ?case using leases_ok_mark [of _ _ f] by simp
qed simp

lemma lease_effects_leases: "lease_effect\<^sup>*\<^sup>* db db' \<Longrightarrow> leases_of db \<Longrightarrow> leases_of db'"
  by (induction rule: rtranclp_induct) (auto intro: lease_effect_leases)

lemma lease_effect_frame:
  "lease_effect db db' \<Longrightarrow> nd_networks db' = nd_networks db \<and> nd_addresses db' = nd_addresses db
    \<and> nd_routers db' = nd_routers db \<and> nd_interfaces db' = nd_interfaces db"
  by (induction rule: lease_effect.induct) simp_all


lemma effect_eqI: "lease_effect db d \<Longrightarrow> d = db' \<Longrightarrow> lease_effect db db'"
  by simp

lemma of_option_eq_Inr [simp]: "of_option e m = Inr x \<longleftrightarrow> m = Some x"
  by (cases m) simp_all

lemma release_service_effect:
  assumes ok: "leases_of db" and s: "s \<in> set (nd_provisionings db)" and m: "moves_to (sp_status s) SP_RELEASED"
  shows "lease_effect db (snd (release_service now reason releasedBy s db))"
proof -
  from m have "sp_status s \<noteq> SP_RELEASED" by auto
  from live_assignment_holds [OF ok s this] obtain a where
    a: "live_assignment (sp_id s) db = Some a" "a \<in> set (nd_assignments db)" "holds s a" by blast
  show ?thesis
    by (rule effect_eqI, rule lease_effect.Rewrite [where s = "fst (release_service now reason releasedBy s db)"
          and a = "release_assignment now reason a", OF s a(2,3)])
      (use m a(1) in \<open>auto simp: release_service_def Let_def release_assignment_def ia_live_def sp_checks_def\<close>)
qed

lemma save_same_assignment:
  "leases_of db \<Longrightarrow> a \<in> set (nd_assignments db) \<Longrightarrow> replace_row ia_id a (nd_assignments db) = nd_assignments db"
  by (auto simp: leases_ok_def intro: replace_row_same)

text \<open>A transition that leaves the assignment as it is.\<close>

lemma row_effect:
  assumes ok: "leases_of db" and s: "s \<in> set (nd_provisionings db)" and m: "moves_to (sp_status s) (sp_status t)"
    and t: "sp_id t = sp_id s" "sp_order t = sp_order s" "sp_network t = sp_network s" "sp_assignment t = sp_assignment s"
      "sp_version s < sp_version t" "sp_checks s \<Longrightarrow> sp_checks t" "sp_status t \<noteq> SP_ACTIVE" "sp_status t \<noteq> SP_RELEASED"
  shows "lease_effect db (save_provisioning t db)"
proof -
  from m have st: "sp_status s \<noteq> SP_RELEASED" "sp_status s \<noteq> SP_ACTIVE" by auto
  from live_assignment_holds [OF ok s st(1)] obtain a where a: "a \<in> set (nd_assignments db)" "holds s a" by blast
  then have h: "holds t a" using t st by (simp add: holds_def)
  show ?thesis
    by (rule effect_eqI, rule lease_effect.Rewrite [where s = t and a = a, OF s a])
      (use m t h in \<open>auto simp: save_same_assignment [OF ok a(1)]\<close>)
qed

lemma fail_service_effect:
  "leases_of db \<Longrightarrow> s \<in> set (nd_provisionings db) \<Longrightarrow> sp_status s = SP_RESERVED \<Longrightarrow>
    lease_effect db (fail_service s db)"
  unfolding fail_service_def by (rule row_effect) (auto simp: sp_checks_def)

lemma activate_service_effect:
  assumes ok: "leases_of db" and s: "s \<in> set (nd_provisionings db)" and st: "sp_status s = SP_CERTIFIED"
    and a: "live_assignment (sp_id s) db = Some a"
  shows "lease_effect db (snd (activate_service now a s db))"
proof -
  from live_assignment_holds [OF ok s] st a have a': "a \<in> set (nd_assignments db)" "holds s a" by auto
  show ?thesis
    by (rule effect_eqI, rule lease_effect.Rewrite [where s = "fst (activate_service now a s db)"
          and a = "a\<lparr>ia_status := IP_ACTIVE\<rparr>", OF s a'])
      (use st a' in \<open>auto simp: activate_service_def Let_def holds_def sp_checks_def\<close>)
qed

lemma regularize_reuse_effect:
  assumes ok: "leases_of db" and s: "s \<in> set (nd_provisionings db)" and st: "sp_status s = SP_FAILED"
    and a: "live_assignment (sp_id s) db = Some a" and net: "ia_network a = rb_networkId input" and o': "os_id order = sp_order s"
    and row: "row = regularized_row input order subscriberId commercial contract equipment actorId now (sp_version s + 1) s"
  shows "lease_effect db (snd (snd (regularize_reuse a row db)))"
proof -
  from live_assignment_holds [OF ok s] st a have a': "a \<in> set (nd_assignments db)" "holds s a" by auto
  show ?thesis
    by (rule effect_eqI, rule lease_effect.Rewrite [where s = "row\<lparr>sp_assignment := Some (ia_id a)\<rparr>"
          and a = "a\<lparr>ia_status := IP_ACTIVE, ia_releasedAt := None, ia_releaseReason := None\<rparr>", OF s a'])
      (use st a' o' net in \<open>auto simp: regularize_reuse_def Let_def holds_def sp_checks_def row regularized_row_def\<close>)
qed

text \<open>What a reservation chooses.\<close>

lemma find_active_networkD:
  "find_active_network k db = Some n \<Longrightarrow> n \<in> set (nd_networks db) \<and> nw_id n = k \<and> nw_status n = CATALOG_ACTIVE"
  by (auto simp: find_active_network_def dest: find_SomeD)

lemma protected_is_local:
  "nw_from n \<le> ip \<Longrightarrow> ip \<le> nw_to n \<Longrightarrow> protected_in n ip db = is_local ip db"
  by (auto simp: protected_in_def is_local_def list_ex_iff)

lemma chosen_ip:
  assumes "(case requestedIp of Some ip \<Rightarrow> validateRequestedIp k ip db
            | None \<Rightarrow> of_option e (findNextAvailableIp k db)) = Inr ip"
    and rows: "\<And>n. n \<in> set (nd_networks db) \<Longrightarrow> nw_from n \<le> nw_to n"
  shows "\<exists>n \<in> set (nd_networks db). nw_id n = k \<and> lawful_ip n db ip"
proof (cases requestedIp)
  case (Some r)
  with assms(1) show ?thesis
    by (auto simp: validateRequestedIp_def lawful_ip_def protected_is_local not_less
        dest!: find_active_networkD split: option.splits if_splits)
next
  case None
  with assms(1) obtain n where n: "find_active_network k db = Some n" "ip \<in> set (candidates n)" "eligible_ip n db ip"
    by (auto simp: findNextAvailableIp_def dest: find_SomeD split: option.splits)
  from find_active_networkD [OF n(1)] have n': "n \<in> set (nd_networks db)" "nw_id n = k" by auto
  from n(2) set_candidates [OF rows [OF n'(1)]] have "nw_from n \<le> ip" "ip \<le> nw_to n" by auto
  with n(3) n' show ?thesis by (auto simp: eligible_ip_def lawful_ip_def protected_is_local)
qed

lemma reserve_attempts_ok:
  assumes "reserve_attempts m k p requestedIp newId db = Inr (ip, db')"
    and rows: "\<And>n. n \<in> set (nd_networks db) \<Longrightarrow> nw_from n \<le> nw_to n"
  shows "\<not> live_ip ip db \<and> (\<exists>n \<in> set (nd_networks db). nw_id n = k \<and> lawful_ip n db ip)
    \<and> db' = db\<lparr>nd_assignments := nd_assignments db @ [\<lparr>ia_id = newId, ia_network = k, ia_ip = ip, ia_provisioning = p,
        ia_status = IP_RESERVED, ia_releasedAt = None, ia_releaseReason = None\<rparr>]\<rparr>"
  using assms(1)
proof (induction m)
  case (Suc m)
  then obtain r where r: "(case requestedIp of Some ip \<Rightarrow> validateRequestedIp k ip db
      | None \<Rightarrow> of_option (Conflict ''NETWORK_POOL_EXHAUSTED'') (findNextAvailableIp k db)) = Inr r"
    by (auto simp: res_simps)
  show ?case
  proof (cases "live_ip r db")
    case True
    with Suc r show ?thesis by (cases m) auto
  next
    case False
    with Suc.prems r chosen_ip [OF r rows] show ?thesis by auto
  qed
qed simp


text \<open>The tables before an operation that adds rows.\<close>

definition ranges_ok :: "net_db \<Rightarrow> bool" where
  "ranges_ok db = (\<forall>n \<in> set (nd_networks db). nw_from n \<le> nw_to n)"

definition fresh_ids :: "string \<Rightarrow> string \<Rightarrow> net_db \<Rightarrow> bool" where
  "fresh_ids k j db = (k \<notin> sp_id ` set (nd_provisionings db) \<and> j \<notin> ia_id ` set (nd_assignments db))"

lemma sp_checks_assignment [simp]: "sp_checks (s\<lparr>sp_assignment := v\<rparr>) = sp_checks s"
  by (simp add: sp_checks_def)

lemma insert_provisioningD:
  "insert_provisioning s db = Inr db' \<Longrightarrow>
    \<not> list_ex (\<lambda>t. sp_order t = sp_order s \<and> sp_status t \<noteq> SP_RELEASED) (nd_provisionings db)
    \<and> db' = db\<lparr>nd_provisionings := nd_provisionings db @ [s]\<rparr>"
  by (auto simp: insert_provisioning_def res_simps)

text \<open>A new row, its reservation and the link, whatever the status the two end in.\<close>

lemma opened:
  assumes ok: "leases_of db" and fresh: "fresh_ids (sp_id row) newId db" and ranges: "ranges_ok db"
    and ins: "insert_provisioning row db = Inr db1"
    and res: "reserveIp (sp_network row) (sp_id row) requestedIp newId db1 = Inr (ip, db2)"
  obtains a n where "ia_id a = newId" "ia_ip a = ip" "ia_network a = sp_network row" "ia_provisioning a = sp_id row"
    "ia_status a = IP_RESERVED" "\<not> live_ip ip db" "n \<in> set (nd_networks db)" "nw_id n = sp_network row" "lawful_ip n db ip"
    "db2 = db\<lparr>nd_provisionings := nd_provisionings db @ [row], nd_assignments := nd_assignments db @ [a]\<rparr>"
    "find (\<lambda>b. ia_provisioning b = sp_id row \<and> ia_status b = IP_RESERVED) (nd_assignments db2) = Some a"
proof -
  let ?a = "\<lparr>ia_id = newId, ia_network = sp_network row, ia_ip = ip, ia_provisioning = sp_id row,
    ia_status = IP_RESERVED, ia_releasedAt = None, ia_releaseReason = None\<rparr>"
  from insert_provisioningD [OF ins] have db1: "db1 = db\<lparr>nd_provisionings := nd_provisionings db @ [row]\<rparr>" by simp
  from res have att: "reserve_attempts 2 (sp_network row) (sp_id row) requestedIp newId db1 = Inr (ip, db2)"
    by (auto simp: reserveIp_def res_simps)
  have "nw_from n \<le> nw_to n" if "n \<in> set (nd_networks db1)" for n
    using ranges that by (simp add: ranges_ok_def db1)
  from reserve_attempts_ok [OF att this] obtain n where n: "\<not> live_ip ip db" "n \<in> set (nd_networks db)"
      "nw_id n = sp_network row" "lawful_ip n db ip"
    and db2: "db2 = db\<lparr>nd_provisionings := nd_provisionings db @ [row], nd_assignments := nd_assignments db @ [?a]\<rparr>"
    by (auto simp: db1 live_ip_def lawful_ip_def is_local_def)
  have "\<not> (ia_provisioning b = sp_id row \<and> ia_status b = IP_RESERVED)" if "b \<in> set (nd_assignments db)" for b
  proof
    assume b: "ia_provisioning b = sp_id row \<and> ia_status b = IP_RESERVED"
    with ok that obtain t where "t \<in> set (nd_provisionings db)" "holds t b" by (auto simp: leases_ok_def ia_live_def)
    with b fresh show False by (auto simp: fresh_ids_def holds_def image_iff)
  qed
  then have "find (\<lambda>b. ia_provisioning b = sp_id row \<and> ia_status b = IP_RESERVED) (nd_assignments db @ [?a]) = Some ?a"
    by (auto simp: find_append find_None_iff split: option.splits dest: find_SomeD)
  with n db2 show ?thesis using that [of ?a n] by simp
qed

lemma opened_effect:
  assumes ok: "leases_of db" and fresh: "fresh_ids (sp_id row) newId db" and ranges: "ranges_ok db"
    and ins: "insert_provisioning row db = Inr db1"
    and res: "reserveIp (sp_network row) (sp_id row) requestedIp newId db1 = Inr (ip, db2)"
    and a: "find (\<lambda>b. ia_provisioning b = sp_id row \<and> ia_status b = IP_RESERVED) (nd_assignments db2) = Some a"
    and st: "sp_status row \<noteq> SP_RELEASED" "sp_checks row"
      "x = (if sp_status row = SP_ACTIVE then IP_ACTIVE else IP_RESERVED)" "b = a\<lparr>ia_status := x\<rparr>"
  shows "lease_effect db (save_provisioning (row\<lparr>sp_assignment := Some (ia_id a)\<rparr>) (save_assignment b db2))"
proof -
  obtain a' n where o': "ia_id a' = newId" "ia_ip a' = ip" "ia_network a' = sp_network row" "ia_provisioning a' = sp_id row"
    "ia_status a' = IP_RESERVED" "\<not> live_ip ip db" "n \<in> set (nd_networks db)" "nw_id n = sp_network row" "lawful_ip n db ip"
    "db2 = db\<lparr>nd_provisionings := nd_provisionings db @ [row], nd_assignments := nd_assignments db @ [a']\<rparr>"
    "find (\<lambda>b. ia_provisioning b = sp_id row \<and> ia_status b = IP_RESERVED) (nd_assignments db2) = Some a'"
    by (rule opened [OF ok fresh ranges ins res])
  from o'(11) a have "a' = a" by simp
  note n = o'(1-9) [unfolded this] and db2 = o'(10) [unfolded this]
  have b: "ia_id b = newId" "ia_ip b = ip" "ia_network b = sp_network row" "ia_provisioning b = sp_id row"
    using n(1-4) st(4) by simp_all
  have P: "replace_row sp_id (row\<lparr>sp_assignment := Some (ia_id a)\<rparr>) (nd_provisionings db) = nd_provisionings db"
    and A: "replace_row ia_id b (nd_assignments db) = nd_assignments db"
    using fresh b by (intro replace_row_fresh; auto simp: fresh_ids_def)+
  have h: "holds (row\<lparr>sp_assignment := Some (ia_id a)\<rparr>) b"
    using b n(1) st by (simp add: holds_def)
  have c: "sp_checks (row\<lparr>sp_assignment := Some (ia_id a)\<rparr>)" using st(2) by simp
  have "lease_effect db (db\<lparr>nd_provisionings := nd_provisionings db @ [row\<lparr>sp_assignment := Some (ia_id a)\<rparr>],
      nd_assignments := nd_assignments db @ [b]\<rparr>)"
    by (rule lease_effect.Add [where n = n])
      (use fresh n b insert_provisioningD [OF ins] h c in \<open>simp_all add: fresh_ids_def\<close>)
  then show ?thesis by (rule effect_eqI) (use b n(1) in \<open>simp add: db2 P [unfolded n(1)] A\<close>)
qed

lemma open_provisioning_effect:
  assumes ok: "leases_of db" and fresh: "fresh_ids (sp_id row) newId db" and ranges: "ranges_ok db"
    and op: "open_provisioning row requestedIp newId db = Inr (saved, ip, db')"
    and st: "sp_status row = SP_RESERVED" "sp_checks row"
  shows "lease_effect db db'"
proof -
  from op obtain db1 db2 where ins: "insert_provisioning row db = Inr db1"
    and res: "reserveIp (sp_network row) (sp_id row) requestedIp newId db1 = Inr (ip, db2)"
    and db': "db' = save_provisioning (row\<lparr>sp_assignment := map_option ia_id
           (find (\<lambda>a. ia_provisioning a = sp_id row \<and> ia_status a = IP_RESERVED) (nd_assignments db2))\<rparr>) db2"
    by (auto simp: open_provisioning_def res_simps Let_def)
  obtain a n where a: "ia_id a = newId" "ia_status a = IP_RESERVED"
    and db2: "db2 = db\<lparr>nd_provisionings := nd_provisionings db @ [row], nd_assignments := nd_assignments db @ [a]\<rparr>"
    and f: "find (\<lambda>a. ia_provisioning a = sp_id row \<and> ia_status a = IP_RESERVED) (nd_assignments db2) = Some a"
    by (rule opened [OF ok fresh ranges ins res])
  have "save_assignment a db2 = db2"
    using fresh a db2 replace_row_fresh [of ia_id a "nd_assignments db"] by (simp add: fresh_ids_def)
  with opened_effect [OF ok fresh ranges ins res f, of IP_RESERVED a] st a show ?thesis by (simp add: db' f)
qed

lemma regularize_new_effect:
  assumes ok: "leases_of db" and fresh: "fresh_ids (sp_id row) newId db" and ranges: "ranges_ok db"
    and op: "regularize_new row requestedIp newId db = Inr (saved, ip, db')"
    and st: "sp_status row = SP_ACTIVE" "sp_checks row"
  shows "lease_effect db db'"
  using op opened_effect [OF ok fresh ranges _ _ _ _ st(2)] st
  by (auto simp: regularize_new_def res_simps Let_def)


section \<open>The transactions\<close>

lemma latest_of_orderD:
  "latest_of_order k sts db = Some s \<Longrightarrow> s \<in> set (nd_provisionings db) \<and> sp_order s = k \<and> sp_status s \<in> set sts"
  by (auto simp: latest_of_order_def dest: find_SomeD)

lemma find_provisioningD: "find_provisioning k db = Some s \<Longrightarrow> s \<in> set (nd_provisionings db) \<and> sp_id s = k"
  by (auto simp: find_provisioning_def dest: find_SomeD)

lemma new_provisioning_facts [simp]:
  "sp_id (new_provisioning k input order subscriber cx c e actor now) = k"
  "sp_status (new_provisioning k input order subscriber cx c e actor now) = SP_RESERVED"
  "sp_checks (new_provisioning k input order subscriber cx c e actor now)"
  by (simp_all add: new_provisioning_def sp_checks_def)

lemma regularized_row_facts [simp]:
  "sp_id (regularized_row input order subscriber cx c e actor now v row) = sp_id row"
  "sp_status (regularized_row input order subscriber cx c e actor now v row) = SP_ACTIVE"
  "sp_checks (regularized_row input order subscriber cx c e actor now v row)"
  by (simp_all add: regularized_row_def sp_checks_def)

lemma blank_row_id [simp]: "sp_id (blank_row k input order) = k"
  by (simp add: blank_row_def)

lemma release_service_frame:
  "fresh_ids k j (snd (release_service now reason releasedBy s db)) = fresh_ids k j db"
  "ranges_ok (snd (release_service now reason releasedBy s db)) = ranges_ok db"
  by (auto simp: release_service_def Let_def fresh_ids_def ranges_ok_def simp flip: set_map split: option.splits)

text \<open>The old row of an order gives back its address, then something else happens.\<close>

lemma release_then:
  assumes ok: "leases_of db" and s: "s \<in> set (nd_provisionings db)" and m: "moves_to (sp_status s) SP_RELEASED"
    and step: "leases_of (snd (release_service now reason releasedBy s db)) \<Longrightarrow>
      lease_effect (snd (release_service now reason releasedBy s db)) db'"
  shows "lease_effect\<^sup>*\<^sup>* db db'"
  using release_service_effect [OF ok s m, of now reason releasedBy] step lease_effect_leases ok
  by (meson converse_rtranclp_into_rtranclp r_into_rtranclp)

lemma reserve_tx_effect:
  assumes ok: "leases_of db" and fresh: "fresh_ids newId newAssignmentId db" and ranges: "ranges_ok db"
    and op: "reserve_tx env order input actorId newId newAssignmentId db = Inr (s, ip, db')"
  shows "lease_effect\<^sup>*\<^sup>* db db'"
proof -
  from op obtain subscriber cx c where
    tail: "(case latest_of_order (rb_executionOrderId input) [SP_RESERVED, SP_CERTIFIED] db of
           None \<Rightarrow> open_provisioning (new_provisioning newId input order subscriber cx c
              (en_equipment env (rb_executionOrderId input) subscriber) actorId (en_now env)) (rb_requestedIp input) newAssignmentId db
         | Some old \<Rightarrow>
             (case live_assignment (sp_id old) db of
                Some assignment \<Rightarrow>
                  if same_reservation input old (Some assignment)
                  then res_bind (assertAssignmentNotLocallyProtected (ia_ip assignment) db) (\<lambda>_.
                         Inr (old, ia_ip assignment, db))
                  else open_provisioning (new_provisioning newId input order subscriber cx c
              (en_equipment env (rb_executionOrderId input) subscriber) actorId (en_now env)) (rb_requestedIp input) newAssignmentId
                         (releaseExistingWithin (en_now env) actorId old db)
              | None \<Rightarrow>
                  open_provisioning (new_provisioning newId input order subscriber cx c
              (en_equipment env (rb_executionOrderId input) subscriber) actorId (en_now env)) (rb_requestedIp input) newAssignmentId
                    (releaseExistingWithin (en_now env) actorId old db))) = Inr (s, ip, db')"
    unfolding reserve_tx_def Let_def by (auto simp: res_bind_eq_Inr simp del: res_bind_Inr)
  let ?row = "new_provisioning newId input order subscriber cx c (en_equipment env (rb_executionOrderId input) subscriber)
    actorId (en_now env)"
  have opens: "lease_effect db0 db'" if "leases_of db0" "fresh_ids newId newAssignmentId db0" "ranges_ok db0"
      "open_provisioning ?row (rb_requestedIp input) newAssignmentId db0 = Inr (s, ip, db')" for db0
    using open_provisioning_effect [of db0 ?row] that by simp
  show ?thesis
  proof (cases "latest_of_order (rb_executionOrderId input) [SP_RESERVED, SP_CERTIFIED] db")
    case None
    with tail opens [OF ok fresh ranges] show ?thesis by auto
  next
    case (Some old)
    from latest_of_orderD [OF this] have old: "old \<in> set (nd_provisionings db)" "moves_to (sp_status old) SP_RELEASED" by auto
    have again: "lease_effect\<^sup>*\<^sup>* db db'"
      if "open_provisioning ?row (rb_requestedIp input) newAssignmentId (releaseExistingWithin (en_now env) actorId old db)
        = Inr (s, ip, db')"
      by (rule release_then [OF ok old], rule opens)
        (use that fresh ranges in \<open>auto simp: release_service_frame releaseExistingWithin_def\<close>)
    with tail Some show ?thesis by (auto simp: res_simps split: option.splits if_splits)
  qed
qed


lemma certify_tx_effect:
  assumes "leases_of db" and "certify_tx env order k evidenceId version actorId db = Inr (s, db')"
  shows "lease_effect\<^sup>*\<^sup>* db db'"
proof -
  from assms(2) obtain row where row: "find_provisioning k db = Some row"
    and tail: "db' = db \<or> (sp_status row = SP_RESERVED \<and>
        db' = save_provisioning (row\<lparr>sp_status := SP_CERTIFIED, sp_certifiedBy := Some actorId,
          sp_certifiedAt := Some (en_now env), sp_evidence := Some evidenceId, sp_version := sp_version row + 1\<rparr>) db)"
    unfolding certify_tx_def Let_def by (auto simp: res_simps split: if_splits)
  from find_provisioningD [OF row] have r: "row \<in> set (nd_provisionings db)" by simp
  show ?thesis
  proof (cases "db' = db")
    case False
    with tail have st: "sp_status row = SP_RESERVED" by simp
    from False tail have "lease_effect db db'"
      using row_effect [OF assms(1) r, of "row\<lparr>sp_status := SP_CERTIFIED, sp_certifiedBy := Some actorId,
          sp_certifiedAt := Some (en_now env), sp_evidence := Some evidenceId, sp_version := sp_version row + 1\<rparr>"] st
      by (simp add: sp_checks_def)
    then show ?thesis ..
  qed simp
qed

lemma release_tx_effect:
  assumes "leases_of db" and "release_tx env order k version actorId db = Inr (s, db')"
  shows "lease_effect\<^sup>*\<^sup>* db db'"
proof -
  from assms(2) obtain row where row: "find_provisioning k db = Some row"
    and st: "sp_status row = SP_RESERVED \<or> sp_status row = SP_CERTIFIED"
    and db': "db' = snd (release_service (en_now env) MANUAL (Some actorId) row db)"
    unfolding release_tx_def by (auto simp: res_simps simp del: guard_ok_eq_Inl split: if_splits)
  from find_provisioningD [OF row] st release_service_effect [OF assms(1)] show ?thesis unfolding db' by auto
qed

lemma sp_checks_commercial [simp]:
  "sp_checks (s\<lparr>sp_commercial := c, sp_commercialDetail := d, sp_version := v\<rparr>) = sp_checks s"
  by (simp add: sp_checks_def)

lemma record_commercial_status_effect:
  assumes "record_commercial_status k status detail db = Inr db'" and "leases_of db"
  shows "lease_effect\<^sup>*\<^sup>* db db'"
proof -
  from assms(1) obtain s where s: "find_provisioning k db = Some s"
    and db': "db' = db \<or> db' = save_provisioning (s\<lparr>sp_commercial := status, sp_commercialDetail := detail,
       sp_version := sp_version s + 1\<rparr>) db"
    by (auto simp: record_commercial_status_def res_simps split: if_splits)
  let ?t = "s\<lparr>sp_commercial := status, sp_commercialDetail := detail, sp_version := sp_version s + 1\<rparr>"
  have "same_lease r (if sp_id r = sp_id ?t then ?t else r)" if "r \<in> set (nd_provisionings db)" for r
  proof -
    have "r = s" if "sp_id r = sp_id s"
      using that \<open>r \<in> _\<close> find_provisioningD [OF s] assms(2) by (auto simp: leases_ok_def distinct_map inj_on_def)
    then show ?thesis by (auto simp: same_lease_def)
  qed
  from lease_effect.Mark [of db "\<lambda>r. if sp_id r = sp_id ?t then ?t else r", OF this] db'
  show ?thesis unfolding replace_row_def by auto
qed

lemma network_erasure_effect: "lease_effect\<^sup>*\<^sup>* db (snd (network_erasure dryRun scope db))"
proof (cases dryRun)
  case False
  have "lease_effect db (db\<lparr>nd_provisionings := List.map (erase_reason scope) (nd_provisionings db)\<rparr>)"
    by (rule lease_effect.Mark) (auto simp: erase_reason_def same_lease_def sp_checks_def)
  with False show ?thesis by (auto simp: network_erasure_def Let_def)
qed (simp add: network_erasure_def Let_def)

lemma regularize_tx_effect:
  assumes ok: "leases_of db" and fresh: "fresh_ids newId newAssignmentId db" and ranges: "ranges_ok db"
    and order: "os_id order = rb_executionOrderId input"
    and op: "regularize_tx env order input actorId newId newAssignmentId db = Inr (s, ip, db')"
  shows "lease_effect\<^sup>*\<^sup>* db db'"
proof -
  let ?latest = "latest_of_order (rb_executionOrderId input) [SP_ACTIVE, SP_FAILED, SP_RESERVED, SP_CERTIFIED] db"
  have new: "lease_effect db0 db'" if "leases_of db0" "fresh_ids newId newAssignmentId db0" "ranges_ok db0"
      "regularize_new (regularized_row input order subscriber cx c e actorId now 1
        (blank_row newId (ReserveProvisioningBody.truncate input) order)) r newAssignmentId db0 = Inr (s, ip, db')"
    for db0 subscriber cx c e now r
    using regularize_new_effect [of db0 "regularized_row input order subscriber cx c e actorId now 1
        (blank_row newId (ReserveProvisioningBody.truncate input) order)"] that by simp
  have again: "lease_effect\<^sup>*\<^sup>* db db'"
    if "?latest = Some old" "sp_status old = SP_FAILED"
      "regularize_new (regularized_row input order subscriber cx c e actorId now 1
        (blank_row newId (ReserveProvisioningBody.truncate input) order)) r newAssignmentId
        (releaseExistingWithin (en_now env) actorId old db) = Inr (s, ip, db')" for old subscriber cx c e now r
    by (rule release_then [OF ok, of old], use latest_of_orderD [OF that(1)] that(2) in \<open>simp_all\<close>, rule new)
      (use that(3) fresh ranges in \<open>auto simp: release_service_frame releaseExistingWithin_def\<close>)
  have reuse: "lease_effect\<^sup>*\<^sup>* db db'"
    if "?latest = Some old" "sp_status old = SP_FAILED" "reusable input old db = Inr (Some a)"
      "regularize_reuse a (regularized_row input order subscriber cx c e actorId now (sp_version old + 1) old) db
        = (s, ip, db')" for old a subscriber cx c e now
  proof -
    from that(3) have a: "live_assignment (sp_id old) db = Some a" "ia_network a = rb_networkId input"
      by (auto simp: reusable_def res_simps split: option.splits if_splits)
    from latest_of_orderD [OF that(1)] order have old: "old \<in> set (nd_provisionings db)" "os_id order = sp_order old" by auto
    from regularize_reuse_effect [OF ok old(1) that(2) a old(2) refl, of subscriber cx c e actorId now] that(4)
    show ?thesis by auto
  qed
  obtain router network subscriber where req: "requireNetworkParent (rb_routerId input) (rb_networkId input) db = Inr (router, network)"
    using op by (auto simp: regularize_tx_def res_bind_eq_Inr)
  show ?thesis
  proof (cases ?latest)
    case None
    with op req new [OF ok fresh ranges] show ?thesis
      by (auto simp: regularize_tx_def Let_def res_bind_eq_Inr simp del: res_bind_Inr)
  next
    case (Some old)
    consider "sp_status old = SP_ACTIVE" | "sp_status old \<noteq> SP_ACTIVE" "sp_status old \<noteq> SP_FAILED"
      | "sp_status old = SP_FAILED" by blast
    then show ?thesis
    proof cases
      case 1
      with op req Some show ?thesis
        by (auto simp: regularize_tx_def Let_def res_bind_eq_Inr simp del: res_bind_Inr split: option.splits if_splits)
    next
      case 2
      with op req Some show ?thesis by (auto simp: regularize_tx_def Let_def res_bind_eq_Inr simp del: res_bind_Inr)
    next
      case 3
      with op req Some again [OF Some 3] reuse [OF Some 3] show ?thesis
        by (auto simp: regularize_tx_def Let_def res_bind_eq_Inr simp del: res_bind_Inr split: option.splits)
    qed
  qed
qed


section \<open>The workers\<close>

lemma inbox_effect: "d = db\<lparr>nd_inbox := inbox\<rparr> \<Longrightarrow> lease_effect\<^sup>*\<^sup>* db d"
  using lease_effect.Inbox by blast

lemma open_inbox_eq: "\<exists>x. open_inbox event db = db\<lparr>nd_inbox := x\<rparr>"
  by (cases "find_inbox (ne_eventId event) db") (auto simp: open_inbox_def)

lemma inbox_leases [simp]:
  "nd_assignments (open_inbox event db) = nd_assignments db" "nd_provisionings (open_inbox event db) = nd_provisionings db"
  using open_inbox_eq [of event db] by auto

lemma open_inbox_effect: "lease_effect\<^sup>*\<^sup>* db (open_inbox event db)"
  using open_inbox_eq [of event db] inbox_effect by metis

lemma mark_processed_effect: "lease_effect db0 db1 \<Longrightarrow> lease_effect\<^sup>*\<^sup>* db0 (mark_processed now event db1)"
  unfolding mark_processed_def by (rule converse_rtranclp_into_rtranclp [OF _ inbox_effect [OF refl]])

lemma after_inbox: "lease_effect\<^sup>*\<^sup>* (open_inbox event db) db' \<Longrightarrow> lease_effect\<^sup>*\<^sup>* db db'"
  using open_inbox_effect by (rule rtranclp_trans)

lemma lift_error_eq [simp]: "lift_error r = Inr x \<longleftrightarrow> r = Inr x"
  by (auto simp: lift_error_def split: sum.splits)

text \<open>What a release, an activation and a failure of a live row of the order do.\<close>

lemma applyEvent_effect:
  assumes ok: "leases_of db" and op: "applyEvent rows now event db = Inr (act, db')"
  shows "lease_effect\<^sup>*\<^sup>* db db'"
proof (cases "latest_of_order (ne_executionOrderId event) [SP_RESERVED, SP_CERTIFIED, SP_ACTIVE] db")
  case None
  with op have "db' = db \<or> db' = mark_processed now event (open_inbox event db)"
    by (auto simp: applyEvent_def Let_def split: if_splits)
  then show ?thesis using after_inbox [of event db] inbox_effect unfolding mark_processed_def by blast
next
  case (Some s)
  let ?db0 = "open_inbox event db"
  from latest_of_orderD [OF Some] have s: "s \<in> set (nd_provisionings ?db0)" by simp
  have ok0: "leases_of ?db0" using ok by simp
  have done0: "lease_effect\<^sup>*\<^sup>* ?db0 ?db0" "lease_effect\<^sup>*\<^sup>* ?db0 (mark_processed now event ?db0)"
    by (simp, rule inbox_effect, simp add: mark_processed_def)
  have act: "lease_effect\<^sup>*\<^sup>* ?db0 (snd (activate_service now a s ?db0))"
    if "sp_status s = SP_CERTIFIED" "live_assignment (sp_id s) ?db0 = Some a" for a
    using activate_service_effect [OF ok0 s that] by blast
  have fail: "lease_effect\<^sup>*\<^sup>* ?db0 (mark_processed now event (fail_service s ?db0))" if "sp_status s = SP_RESERVED"
    by (rule mark_processed_effect) (rule fail_service_effect [OF ok0 s that])
  have rel: "lease_effect\<^sup>*\<^sup>* ?db0 (mark_processed now event (snd (release_service now r (sp_releasedBy s) s ?db0)))"
    if "moves_to (sp_status s) SP_RELEASED" for r
    by (rule mark_processed_effect) (rule release_service_effect [OF ok0 s that])
  have st: "sp_status s = SP_RESERVED \<or> sp_status s = SP_CERTIFIED \<or> sp_status s = SP_ACTIVE"
    using latest_of_orderD [OF Some] by simp
  from op Some have "db' = db \<or> lease_effect\<^sup>*\<^sup>* ?db0 db'"
    using st done0 act fail rel unfolding applyEvent_def Let_def
    by (auto simp: res_simps split: if_splits option.splits prod.splits)
  then show ?thesis using after_inbox by auto
qed

lemma persist_effects:
  "lease_effect\<^sup>*\<^sup>* db (persistInboxError event code db)" "lease_effect\<^sup>*\<^sup>* db (persistInvalidSignature event db)"
  unfolding persistInboxError_def persistInvalidSignature_def
  by (auto split: option.splits intro: inbox_effect)

lemma process_event_effect:
  assumes ok: "leases_of db"
  shows "lease_effect\<^sup>*\<^sup>* db (snd (process_event rows listener order now event db))"
proof (cases "order = None \<or> (\<exists>e. applyEvent rows now event db = Inl e)")
  case True
  then show ?thesis by (auto simp: process_event_def persist_effects split: sum.splits)
next
  case False
  then obtain act db1 where r: "order \<noteq> None" "applyEvent rows now event db = Inr (act, db1)"
    by (metis surj_pair sum.exhaust)
  note step = applyEvent_effect [OF ok r(2)]
  show ?thesis
    using r rtranclp_trans [OF step persist_effects(1)] rtranclp_trans [OF step inbox_effect [OF refl]] step
    by (auto simp: process_event_def split: option.splits)
qed

lemma reconcileOne_effect:
  assumes ok: "leases_of db" and op: "reconcileOne now k snapshot db = Inr (act, db')"
  shows "lease_effect\<^sup>*\<^sup>* db db'"
proof (cases "find (\<lambda>s. sp_id s = k \<and> (sp_status s = SP_RESERVED \<or> sp_status s = SP_CERTIFIED)) (nd_provisionings db)")
  case None
  with op show ?thesis by (simp add: reconcileOne_def)
next
  case (Some s)
  then have s: "s \<in> set (nd_provisionings db)" and st: "sp_status s = SP_RESERVED \<or> sp_status s = SP_CERTIFIED"
    by (auto dest: find_SomeD)
  then have m: "moves_to (sp_status s) SP_RELEASED" by auto
  note act = activate_service_effect [OF ok s] and fail = fail_service_effect [OF ok s] and rel = release_service_effect [OF ok s m]
  have "db' = db \<or> lease_effect db db'"
    using op Some st act fail rel unfolding reconcileOne_def Let_def
    by (auto simp: res_simps split: if_splits option.splits prod.splits) (metis snd_conv)+
  then show ?thesis by auto
qed

end
