(* ===== verification/CatalogRules.thy ===== *)
theory CatalogRules
  imports Leases
begin

text \<open>
  The rules of the network catalog: the constraints that its tables keep, the few effects that
  its operations have on them, and the preservation of the constraints and of the lawfulness
  of every address in use.
\<close>

section \<open>Constraints\<close>

definition catalog_ok :: "net_db \<Rightarrow> bool" where
  "catalog_ok db \<longleftrightarrow>
     distinct (map nr_id (nd_routers db)) \<and> distinct (map if_id (nd_interfaces db))
     \<and> distinct (map la_id (nd_addresses db)) \<and> distinct (map nw_id (nd_networks db))
     \<and> distinct (map (\<lambda>a. (la_router a, la_interface a, fst (la_address a))) (nd_addresses db))
     \<and> (\<forall>a \<in> set (nd_addresses db). address_row_ok (la_address a)
          \<and> (\<exists>i \<in> set (nd_interfaces db). if_id i = la_interface a \<and> if_router i = la_router a))
     \<and> (\<forall>n \<in> set (nd_networks db). network_row_ok n
          \<and> (\<exists>r \<in> set (nd_routers db). nr_id r = nw_router n \<and> nw_method n \<in> set (nr_methods r))
          \<and> (\<forall>k. nw_interface n = Some k \<longrightarrow> (\<exists>i \<in> set (nd_interfaces db). if_id i = k \<and> if_router i = nw_router n)))
     \<and> (\<forall>m \<in> set (nd_networks db). \<forall>n \<in> set (nd_networks db). m \<noteq> n \<longrightarrow> \<not> overlaps (nw_cidr m) (nw_cidr n))"

definition leases_lawful :: "net_db \<Rightarrow> bool" where
  "leases_lawful db \<longleftrightarrow> (\<forall>a \<in> set (nd_assignments db). ia_live a \<longrightarrow>
     (\<exists>n \<in> set (nd_networks db). nw_id n = ia_network a \<and> lawful_ip n db (ia_ip a)))"

definition interface_exists :: "string \<Rightarrow> string \<Rightarrow> net_db \<Rightarrow> bool" where
  "interface_exists routerId k db = (\<exists>i \<in> set (nd_interfaces db). if_id i = k \<and> if_router i = routerId)"

definition method_supported :: "string \<Rightarrow> ControlMethod \<Rightarrow> net_db \<Rightarrow> bool" where
  "method_supported routerId c db = (\<exists>r \<in> set (nd_routers db). nr_id r = routerId \<and> c \<in> set (nr_methods r))"

section \<open>Effects\<close>

inductive catalog_effect :: "net_db \<Rightarrow> net_db \<Rightarrow> bool" where
  Router_Add: "nr_id r \<notin> nr_id ` set (nd_routers db) \<Longrightarrow>
    catalog_effect db (db\<lparr>nd_routers := nd_routers db @ [r]\<rparr>)"
| Router_Set: "r0 \<in> set (nd_routers db) \<Longrightarrow> nr_id r = nr_id r0 \<Longrightarrow>
    (\<And>n. n \<in> set (nd_networks db) \<Longrightarrow> nw_router n = nr_id r0 \<Longrightarrow> nw_method n \<in> set (nr_methods r0) \<Longrightarrow>
      nw_method n \<in> set (nr_methods r)) \<Longrightarrow>
    catalog_effect db (save_router r db)"
| Interface_Add: "if_id i \<notin> if_id ` set (nd_interfaces db) \<Longrightarrow>
    catalog_effect db (db\<lparr>nd_interfaces := nd_interfaces db @ [i]\<rparr>)"
| Interface_Set: "i0 \<in> set (nd_interfaces db) \<Longrightarrow> if_id i = if_id i0 \<Longrightarrow> if_router i = if_router i0 \<Longrightarrow>
    catalog_effect db (save_interface i db)"
| Address_Add: "la_id a \<notin> la_id ` set (nd_addresses db) \<Longrightarrow> address_row_ok (la_address a) \<Longrightarrow>
    interface_exists (la_router a) (la_interface a) db \<Longrightarrow> \<not> live_ip (fst (la_address a)) db \<Longrightarrow>
    \<not> address_taken (la_id a) (la_router a) (la_interface a) (fst (la_address a)) db \<Longrightarrow>
    catalog_effect db (db\<lparr>nd_addresses := nd_addresses db @ [a]\<rparr>)"
| Address_Set: "a0 \<in> set (nd_addresses db) \<Longrightarrow> la_id a = la_id a0 \<Longrightarrow> la_router a = la_router a0 \<Longrightarrow>
    la_interface a = la_interface a0 \<Longrightarrow> address_row_ok (la_address a) \<Longrightarrow>
    la_address a = la_address a0 \<or> \<not> live_ip (fst (la_address a)) db
      \<and> \<not> address_taken (la_id a) (la_router a) (la_interface a) (fst (la_address a)) db \<Longrightarrow>
    catalog_effect db (db\<lparr>nd_addresses := replace_row la_id a (nd_addresses db)\<rparr>)"
| Network_Add: "nw_id n \<notin> nw_id ` set (nd_networks db) \<Longrightarrow> network_row_ok n \<Longrightarrow>
    \<not> list_ex (\<lambda>m. overlaps (nw_cidr m) (nw_cidr n)) (nd_networks db) \<Longrightarrow>
    method_supported (nw_router n) (nw_method n) db \<Longrightarrow>
    (\<And>k. nw_interface n = Some k \<Longrightarrow> interface_exists (nw_router n) k db) \<Longrightarrow>
    catalog_effect db (db\<lparr>nd_networks := nd_networks db @ [n]\<rparr>)"
| Network_Set: "n0 \<in> set (nd_networks db) \<Longrightarrow> nw_id n = nw_id n0 \<Longrightarrow> nw_router n = nw_router n0 \<Longrightarrow>
    nw_cidr n = nw_cidr n0 \<Longrightarrow> nw_gateway n = nw_gateway n0 \<Longrightarrow> network_row_ok n \<Longrightarrow>
    \<not> leaves_out (nw_id n) (nw_from n) (nw_to n) (nw_excluded n) db \<Longrightarrow>
    (nw_method n = nw_method n0 \<or> method_supported (nw_router n) (nw_method n) db) \<Longrightarrow>
    (nw_interface n = nw_interface n0 \<or> (\<forall>k. nw_interface n = Some k \<longrightarrow> interface_exists (nw_router n) k db)) \<Longrightarrow>
    catalog_effect db (save_network n db)"

lemma catalog_effect_frame:
  "catalog_effect db db' \<Longrightarrow> nd_provisionings db' = nd_provisionings db \<and> nd_assignments db' = nd_assignments db
    \<and> nd_inbox db' = nd_inbox db"
  by (induction rule: catalog_effect.induct) simp_all

lemma overlaps_sym: "overlaps a b = overlaps b a"
  by (auto simp: overlaps_def)

lemma set_replace_mem:
  assumes "r0 \<in> set rows" and "key r = key r0" and "distinct (map key rows)"
  shows "x \<in> set (replace_row key r rows) \<longleftrightarrow> x = r \<or> (x \<in> set rows \<and> x \<noteq> r0)"
  using set_replace_row [of r0 rows key r] assms by auto

lemma not_address_takenD:
  "\<not> address_taken k r i h db \<Longrightarrow> t \<in> set (nd_addresses db) \<Longrightarrow> la_id t \<noteq> k \<Longrightarrow>
    \<not> (la_router t = r \<and> la_interface t = i \<and> fst (la_address t) = h)"
  unfolding address_taken_def list_ex_iff by blast

lemma not_live_ipD: "\<not> live_ip h db \<Longrightarrow> x \<in> set (nd_assignments db) \<Longrightarrow> ia_live x \<Longrightarrow> ia_ip x \<noteq> h"
  by (auto simp: live_ip_def list_ex_iff)

lemma not_is_localD: "\<not> is_local h db \<Longrightarrow> a \<in> set (nd_addresses db) \<Longrightarrow> fst (la_address a) \<noteq> h"
  by (auto simp: is_local_def list_ex_iff)

lemma catalog_effect_ok: "catalog_effect db db' \<Longrightarrow> catalog_ok db \<Longrightarrow> catalog_ok db'"
proof (induction rule: catalog_effect.induct)
  case (Router_Add r db)
  then show ?case by (auto simp: catalog_ok_def)
next
  case (Router_Set r0 db r)
  then have d: "distinct (map nr_id (nd_routers db))" by (simp add: catalog_ok_def)
  have only: "t = r0" if "t \<in> set (nd_routers db)" "nr_id t = nr_id r0" for t
    using that Router_Set.hyps(1) d by (metis distinct_map inj_onD)
  have "\<exists>t \<in> set (replace_row nr_id r (nd_routers db)). nr_id t = nw_router n \<and> nw_method n \<in> set (nr_methods t)"
    if n: "n \<in> set (nd_networks db)" for n
  proof -
    from Router_Set.prems n obtain t where t: "t \<in> set (nd_routers db)" "nr_id t = nw_router n" "nw_method n \<in> set (nr_methods t)"
      by (auto simp: catalog_ok_def)
    show ?thesis
      using t Router_Set.hyps n by (cases "t = r0") (auto simp: set_replace_mem [OF Router_Set.hyps(1,2) d])
  qed
  then show ?case using Router_Set.prems by (simp add: catalog_ok_def)
next
  case (Interface_Add i db)
  then show ?case unfolding catalog_ok_def by simp
next
  case (Interface_Set i0 db i)
  then have d: "distinct (map if_id (nd_interfaces db))" by (simp add: catalog_ok_def)
  have "(\<exists>t \<in> set (replace_row if_id i (nd_interfaces db)). if_id t = k \<and> if_router t = r)
      \<longleftrightarrow> (\<exists>t \<in> set (nd_interfaces db). if_id t = k \<and> if_router t = r)" for k r
    unfolding Bex_def set_replace_mem [OF Interface_Set.hyps(1,2) d] using Interface_Set.hyps by metis
  then show ?case using Interface_Set.prems by (simp add: catalog_ok_def)
next
  case (Address_Add a db)
  have "\<not> (la_router t = la_router a \<and> la_interface t = la_interface a \<and> fst (la_address t) = fst (la_address a))"
    if "t \<in> set (nd_addresses db)" for t
    by (rule not_address_takenD [OF Address_Add.hyps(5) that]) (use Address_Add.hyps(1) that in \<open>auto simp: image_iff\<close>)
  then have "(la_router a, la_interface a, fst (la_address a))
      \<notin> (\<lambda>t. (la_router t, la_interface t, fst (la_address t))) ` set (nd_addresses db)" by force
  with Address_Add show ?case by (simp add: catalog_ok_def interface_exists_def)
next
  case (Address_Set a0 db a)
  then have d: "distinct (map la_id (nd_addresses db))" by (simp add: catalog_ok_def)
  let ?key = "\<lambda>a. (la_router a, la_interface a, fst (la_address a))"
  have "distinct (map ?key (replace_row la_id a (nd_addresses db)))"
  proof (cases "la_address a = la_address a0")
    case True
    then show ?thesis
      using distinct_column_replace [OF d Address_Set.hyps(1,2), of ?key "\<lambda>_. True"] Address_Set by (simp add: catalog_ok_def)
  next
    case False
    then have new: "\<not> address_taken (la_id a) (la_router a) (la_interface a) (fst (la_address a)) db" using Address_Set.hyps by simp
    show ?thesis
      unfolding distinct_map
    proof
      show "distinct (replace_row la_id a (nd_addresses db))" using d by (metis distinct_map map_replace_row)
      show "inj_on ?key (set (replace_row la_id a (nd_addresses db)))"
        using Address_Set.prems new
        unfolding inj_on_def Ball_def set_replace_mem [OF Address_Set.hyps(1,2) d] catalog_ok_def distinct_map
          address_taken_def list_ex_iff
        by (metis Address_Set.hyps(1,2) d distinct_map inj_onD fst_conv snd_conv)
    qed
  qed
  moreover have "\<exists>i \<in> set (nd_interfaces db). if_id i = la_interface t \<and> if_router i = la_router t"
      "address_row_ok (la_address t)" if "t \<in> set (replace_row la_id a (nd_addresses db))" for t
    using that Address_Set.prems Address_Set.hyps(1,3,4,5) unfolding set_replace_mem [OF Address_Set.hyps(1,2) d]
    by (auto simp: catalog_ok_def)
  ultimately show ?case using Address_Set.prems by (simp add: catalog_ok_def)
next
  case (Network_Add n db)
  then show ?case
    by (auto simp: catalog_ok_def list_ex_iff method_supported_def interface_exists_def overlaps_sym)
next
  case (Network_Set n0 db n)
  then have d: "distinct (map nw_id (nd_networks db))" by (simp add: catalog_ok_def)
  have old: "\<exists>r \<in> set (nd_routers db). nr_id r = nw_router n0 \<and> nw_method n0 \<in> set (nr_methods r)"
    "\<And>k. nw_interface n0 = Some k \<Longrightarrow> \<exists>i \<in> set (nd_interfaces db). if_id i = k \<and> if_router i = nw_router n0"
    using Network_Set.prems Network_Set.hyps(1) by (auto simp: catalog_ok_def)
  have "\<exists>r \<in> set (nd_routers db). nr_id r = nw_router n \<and> nw_method n \<in> set (nr_methods r)"
    "\<And>k. nw_interface n = Some k \<Longrightarrow> \<exists>i \<in> set (nd_interfaces db). if_id i = k \<and> if_router i = nw_router n"
    using old Network_Set.hyps(3,8,9) by (auto simp: method_supported_def interface_exists_def)
  moreover have "\<not> overlaps (nw_cidr m) (nw_cidr n)" if "m \<in> set (nd_networks db)" "m \<noteq> n0" for m
    using that Network_Set.prems Network_Set.hyps(1,4) by (auto simp: catalog_ok_def)
  ultimately show ?case
    using Network_Set.prems Network_Set.hyps(6)
    by (auto simp: catalog_ok_def set_replace_mem [OF Network_Set.hyps(1,2) d] overlaps_sym)
qed

lemma catalog_effect_lawful:
  "catalog_effect db db' \<Longrightarrow> catalog_ok db \<Longrightarrow> leases_lawful db \<Longrightarrow> leases_lawful db'"
proof (induction rule: catalog_effect.induct)
  case (Address_Add a db)
  then show ?case by (fastforce simp: leases_lawful_def lawful_ip_def is_local_def live_ip_def list_ex_iff)
next
  case (Address_Set a0 db a)
  then have d: "distinct (map la_id (nd_addresses db))" by (simp add: catalog_ok_def)
  have "\<not> is_local (ia_ip x) (db\<lparr>nd_addresses := replace_row la_id a (nd_addresses db)\<rparr>)"
    if "\<not> is_local (ia_ip x) db" "x \<in> set (nd_assignments db)" "ia_live x" for x
  proof -
    have "fst (la_address a) \<noteq> ia_ip x"
      using Address_Set.hyps(6) not_is_localD [OF that(1) Address_Set.hyps(1)] not_live_ipD [OF _ that(2,3)] by fastforce
    with that show ?thesis by (auto simp: is_local_def list_ex_iff set_replace_mem [OF Address_Set.hyps(1,2) d])
  qed
  with Address_Set.prems(2) show ?case by (fastforce simp: leases_lawful_def lawful_ip_def)
next
  case (Network_Add n db)
  then show ?case by (fastforce simp: leases_lawful_def lawful_ip_def is_local_def)
next
  case (Network_Set n0 db n)
  then have d: "distinct (map nw_id (nd_networks db))" by (simp add: catalog_ok_def)
  show ?case unfolding leases_lawful_def
  proof (intro ballI impI)
    fix x assume x: "x \<in> set (nd_assignments (save_network n db))" "ia_live x"
    with Network_Set.prems(2) obtain m where m: "m \<in> set (nd_networks db)" "nw_id m = ia_network x" "lawful_ip m db (ia_ip x)"
      by (auto simp: leases_lawful_def)
    show "\<exists>m \<in> set (nd_networks (save_network n db)). nw_id m = ia_network x \<and> lawful_ip m (save_network n db) (ia_ip x)"
    proof (cases "m = n0")
      case True
      have "lawful_ip n db (ia_ip x)"
        using m(3) True Network_Set.hyps(2,4,5,7) x m(2) by (auto simp: lawful_ip_def leaves_out_def list_ex_iff not_less)
      then show ?thesis using True m(2) Network_Set.hyps(2)
        by (auto simp: set_replace_mem [OF Network_Set.hyps(1,2) d] lawful_ip_def is_local_def)
    next
      case False
      then show ?thesis using m by (auto simp: set_replace_mem [OF Network_Set.hyps(1,2) d] lawful_ip_def is_local_def)
    qed
  qed
qed (auto simp: leases_lawful_def lawful_ip_def is_local_def)


lemma lease_effect_lawful: "lease_effect db db' \<Longrightarrow> leases_of db \<Longrightarrow> leases_lawful db \<Longrightarrow> leases_lawful db'"
proof (induction rule: lease_effect.induct)
  case (Rewrite s0 db a0 s a)
  then have "distinct (map ia_id (nd_assignments db))" by (simp add: leases_ok_def)
  note mem = set_replace_mem [OF Rewrite.hyps(2,9) this]
  show ?case
    using Rewrite.prems(2) Rewrite.hyps(2,10,11) holds_live [OF Rewrite.hyps(3)]
    by (fastforce simp: leases_lawful_def mem lawful_ip_def is_local_def)
next
  case (Add s db a n)
  then show ?case by (fastforce simp: leases_lawful_def lawful_ip_def is_local_def)
qed (auto simp: leases_lawful_def lawful_ip_def is_local_def)

section \<open>The operations\<close>

lemma find_routerD: "find_router k db = Some r \<Longrightarrow> r \<in> set (nd_routers db) \<and> nr_id r = k"
  by (auto simp: find_router_def dest: find_SomeD)

lemma find_interfaceD: "find_interface r k db = Some i \<Longrightarrow> i \<in> set (nd_interfaces db) \<and> if_id i = k \<and> if_router i = r"
  by (auto simp: find_interface_def dest: find_SomeD)

lemma find_networkD: "find_network k db = Some n \<Longrightarrow> n \<in> set (nd_networks db) \<and> nw_id n = k"
  by (auto simp: find_network_def dest: find_SomeD)

lemma find_addressD: "find_address r i k db = Some a \<Longrightarrow>
    a \<in> set (nd_addresses db) \<and> la_id a = k \<and> la_router a = r \<and> la_interface a = i"
  by (auto simp: find_address_def dest: find_SomeD)

lemma createRouter_effect:
  "createRouter env input actorId newId db = Inr db' \<Longrightarrow> newId \<notin> nr_id ` set (nd_routers db) \<Longrightarrow>
    catalog_effect\<^sup>*\<^sup>* db db'"
  by (auto simp: createRouter_def res_simps Let_def intro!: r_into_rtranclp catalog_effect.Router_Add)

lemma updateRouter_effect:
  assumes "updateRouter env k input actorId db = Inr db'"
  shows "catalog_effect\<^sup>*\<^sup>* db db'"
proof -
  obtain r where r: "find_router k db = Some r"
    using assms by (auto simp: updateRouter_def res_simps)
  define x where "x = r\<lparr>nr_name := (case ur_name input of None \<Rightarrow> nr_name r | Some s \<Rightarrow> js_trim s),
           nr_managementHost := (case ur_managementHost input of None \<Rightarrow> nr_managementHost r | Some s \<Rightarrow> js_trim s),
           nr_lanInterface := (case ur_lanInterface input of None \<Rightarrow> nr_lanInterface r | Some s \<Rightarrow> Some s),
           nr_methods := or_keep (ur_methods input) (nr_methods r),
           nr_site := or_keep (ur_siteId input) (nr_site r),
           nr_node := or_keep (ur_nodeId input) (nr_node r),
           nr_notes := (case ur_notes input of None \<Rightarrow> nr_notes r | Some s \<Rightarrow> Some s),
           nr_version := nr_version r + 1\<rparr>"
  then have x: "nr_id x = nr_id r" "nr_methods x = or_keep (ur_methods input) (nr_methods r)" by simp_all
  have xs: "db' = save_router x db"
    using assms r unfolding updateRouter_def Let_def x_def by (auto simp: res_bind_eq_Inr simp del: res_bind_Inr)
  have m: "nw_method n \<in> set methods" if "ur_methods input = Some methods" "n \<in> set (nd_networks db)" "nw_router n = k"
    for methods n
    using assms r that unfolding updateRouter_def Let_def by (auto simp: res_simps list_all_iff)
  from find_routerD [OF r] have r': "r \<in> set (nd_routers db)" "nr_id r = k" by auto
  have "catalog_effect db (save_router x db)"
    by (rule catalog_effect.Router_Set [OF r'(1) x(1)])
      (use m x(2) r' in \<open>auto simp: or_keep_def split: option.splits\<close>)
  with xs show ?thesis by simp
qed

lemma setRouterStatus_effect:
  assumes "setRouterStatus env k version status actorId db = Inr db'"
  shows "catalog_effect\<^sup>*\<^sup>* db db'"
proof -
  from assms obtain r where r: "find_router k db = Some r"
    and db': "db' = save_router (r\<lparr>nr_status := status, nr_version := nr_version r + 1\<rparr>) db"
    by (auto simp: setRouterStatus_def res_simps)
  from find_routerD [OF r] show ?thesis
    unfolding db' by (intro r_into_rtranclp catalog_effect.Router_Set [of r]) simp_all
qed

lemma insert_address_effect:
  assumes "insert_address routerId interfaceId address newId db = Inr db'" and "newId \<notin> la_id ` set (nd_addresses db)"
    and "interface_exists routerId interfaceId db" and "\<not> live_ip (fst address) db"
  shows "catalog_effect db db'"
proof -
  from assms(1) have ok: "address_row_ok address" "\<not> address_taken newId routerId interfaceId (fst address) db"
    and db': "db' = db\<lparr>nd_addresses := nd_addresses db @ [\<lparr>la_id = newId, la_router = routerId, la_interface = interfaceId,
            la_address = address, la_notes = None, la_version = 1\<rparr>]\<rparr>"
    by (auto simp: insert_address_def res_simps)
  show ?thesis unfolding db' by (rule catalog_effect.Address_Add) (use assms(2-4) ok in simp_all)
qed

lemma createInterfaceIpv4Address_effect:
  assumes "createInterfaceIpv4Address env routerId interfaceId address actorId newId db = Inr db'"
    and "newId \<notin> la_id ` set (nd_addresses db)"
  shows "catalog_effect\<^sup>*\<^sup>* db db'"
proof -
  from assms(1) obtain i where "find_interface routerId interfaceId db = Some i" "\<not> live_ip (fst address) db"
    "insert_address routerId interfaceId address newId db = Inr db'"
    by (auto simp: createInterfaceIpv4Address_def assertNoLiveAssignment_def res_simps)
  with find_interfaceD insert_address_effect assms(2) show ?thesis unfolding interface_exists_def by blast
qed

lemma updateInterfaceIpv4Address_effect:
  assumes "updateInterfaceIpv4Address env routerId interfaceId addressId notes version actorId db = Inr db'"
    and "catalog_ok db"
  shows "catalog_effect\<^sup>*\<^sup>* db db'"
proof -
  from assms(1) obtain a where a: "find_address routerId interfaceId addressId db = Some a"
    and db': "db' = db\<lparr>nd_addresses := replace_row la_id
       (a\<lparr>la_notes := or_keep notes (la_notes a), la_version := la_version a + 1\<rparr>) (nd_addresses db)\<rparr>"
    by (auto simp: updateInterfaceIpv4Address_def res_simps)
  from find_addressD [OF a] assms(2) show ?thesis
    unfolding db' by (intro r_into_rtranclp catalog_effect.Address_Set [of a]) (auto simp: catalog_ok_def)
qed

lemma correctInterfaceIpv4Address_effect:
  assumes "correctInterfaceIpv4Address env routerId interfaceId addressId newAddress version confirm actorId db = Inr db'"
  shows "catalog_effect\<^sup>*\<^sup>* db db'"
proof -
  from assms obtain a where a: "find_address routerId interfaceId addressId db = Some a"
    and ok: "address_row_ok newAddress" "\<not> live_ip (fst newAddress) db"
      "\<not> address_taken addressId routerId interfaceId (fst newAddress) db"
    and db': "db' = db\<lparr>nd_addresses := replace_row la_id
          (a\<lparr>la_address := newAddress, la_version := la_version a + 1\<rparr>) (nd_addresses db)\<rparr>"
    by (auto simp: correctInterfaceIpv4Address_def res_simps Let_def assertNoLiveAssignment_def)
  from find_addressD [OF a] ok show ?thesis
    unfolding db' by (intro r_into_rtranclp catalog_effect.Address_Set [of a]) auto
qed

lemma createRouterInterface_effect:
  assumes op: "createRouterInterface env routerId input actorId newId newAddressId db = Inr db'"
    and fresh: "newId \<notin> if_id ` set (nd_interfaces db)" "newAddressId \<notin> la_id ` set (nd_addresses db)"
  shows "catalog_effect\<^sup>*\<^sup>* db db'"
proof -
  from op obtain router row where r: "find_router routerId db = Some router"
    and row: "if_id row = newId" "if_router row = routerId"
    and conv: "case rif_convert input of None \<Rightarrow> True | Some c \<Rightarrow> check_conversion env router c db = Inr ()"
    and tail: "(case rif_convert input of
              None \<Rightarrow> Inr (db\<lparr>nd_interfaces := nd_interfaces db @ [row]\<rparr>)
            | Some c \<Rightarrow>
                let db2 = save_router (router\<lparr>nr_legacyLan := Some newId, nr_version := nr_version router + 1\<rparr>)
                  (db\<lparr>nd_interfaces := nd_interfaces db @ [row]\<rparr>)
                in (case lc_address c of
                      None \<Rightarrow> Inr db2
                    | Some address \<Rightarrow> insert_address routerId newId address newAddressId db2)) = Inr db'"
    unfolding createRouterInterface_def Let_def
    by (auto simp: res_simps split: option.splits intro: that [of _ "\<lparr>if_id = newId, if_router = routerId,
      if_name = js_trim (rif_name input), if_kind = rif_kind input, if_notes = rif_notes input,
      if_status = CATALOG_ACTIVE, if_version = 1\<rparr>"])
  let ?db1 = "db\<lparr>nd_interfaces := nd_interfaces db @ [row]\<rparr>"
  let ?db2 = "save_router (router\<lparr>nr_legacyLan := Some newId, nr_version := nr_version router + 1\<rparr>) ?db1"
  have s1: "catalog_effect db ?db1" by (rule catalog_effect.Interface_Add) (use row fresh in simp)
  have s2: "catalog_effect ?db1 ?db2" using find_routerD [OF r] by (intro catalog_effect.Router_Set [of router]) simp_all
  have s12: "catalog_effect\<^sup>*\<^sup>* db ?db2" using s1 s2 by (meson converse_rtranclp_into_rtranclp r_into_rtranclp)
  show ?thesis
  proof (cases "rif_convert input")
    case None
    with tail s1 show ?thesis by auto
  next
    case (Some c)
    show ?thesis
    proof (cases "lc_address c")
      case None
      with tail Some s12 show ?thesis by simp
    next
      case (Some address)
      with \<open>rif_convert input = Some c\<close> tail conv have ins: "insert_address routerId newId address newAddressId ?db2 = Inr db'"
        and live: "\<not> live_ip (fst address) ?db2"
        by (auto simp: check_conversion_def assertNoLiveAssignment_def res_simps live_ip_def)
      have "catalog_effect ?db2 db'"
        by (rule insert_address_effect [OF ins _ _ live]) (use fresh row in \<open>auto simp: interface_exists_def\<close>)
      with s12 show ?thesis by (rule rtranclp.rtrancl_into_rtrancl)
    qed
  qed
qed

lemma updateRouterInterface_effect:
  assumes "updateRouterInterface env routerId interfaceId input actorId db = Inr db'"
  shows "catalog_effect\<^sup>*\<^sup>* db db'"
proof -
  from assms obtain i where i: "find_interface routerId interfaceId db = Some i"
    and x: "db' = save_interface (i\<lparr>if_name := (case ui_name input of None \<Rightarrow> if_name i | Some s \<Rightarrow> js_trim s),
           if_kind := or_keep (ui_kind input) (if_kind i), if_notes := or_keep (ui_notes input) (if_notes i),
           if_version := if_version i + 1\<rparr>) db"
    by (auto simp: updateRouterInterface_def res_simps Let_def)
  from find_interfaceD [OF i] show ?thesis
    unfolding x by (intro r_into_rtranclp catalog_effect.Interface_Set [of i]) auto
qed

lemma setRouterInterfaceStatus_effect:
  assumes "setRouterInterfaceStatus env routerId interfaceId version status actorId db = Inr db'"
  shows "catalog_effect\<^sup>*\<^sup>* db db'"
proof -
  from assms obtain i where i: "find_interface routerId interfaceId db = Some i"
    and x: "db' = save_interface (i\<lparr>if_status := status, if_version := if_version i + 1\<rparr>) db"
    by (auto simp: setRouterInterfaceStatus_def res_simps)
  from find_interfaceD [OF i] show ?thesis
    unfolding x by (intro r_into_rtranclp catalog_effect.Interface_Set [of i]) auto
qed


lemma insert_networkD:
  "insert_network n db = Inr db' \<Longrightarrow> network_row_ok n \<and> \<not> list_ex (\<lambda>m. overlaps (nw_cidr m) (nw_cidr n)) (nd_networks db)
    \<and> db' = db\<lparr>nd_networks := nd_networks db @ [n]\<rparr>"
  by (auto simp: insert_network_def res_simps)

lemma insert_network_effect:
  assumes "insert_network n db = Inr db'" and "nw_id n \<notin> nw_id ` set (nd_networks db)"
    and "method_supported (nw_router n) (nw_method n) db"
    and "\<And>k. nw_interface n = Some k \<Longrightarrow> interface_exists (nw_router n) k db"
  shows "catalog_effect\<^sup>*\<^sup>* db db'"
  using insert_networkD [OF assms(1)] assms(2-) by (intro r_into_rtranclp) (auto intro: catalog_effect.Network_Add)

lemma createIpv4Network_effect:
  assumes "createIpv4Network env input actorId newId db = Inr db'" and "newId \<notin> nw_id ` set (nd_networks db)"
  shows "catalog_effect\<^sup>*\<^sup>* db db'"
proof -
  from assms(1) obtain r where r: "find_router (cn_routerId input) db = Some r" "cn_method input \<in> set (nr_methods r)"
    and ins: "insert_network \<lparr>nw_id = newId, nw_router = nr_id r, nw_interface = None, nw_name = js_trim (cn_name input),
          nw_cidr = cn_cidr input, nw_gateway = cn_gateway input, nw_from = cn_from input, nw_to = cn_to input,
          nw_excluded = or_keep (cn_excluded input) [], nw_method = cn_method input, nw_status = CATALOG_ACTIVE,
          nw_version = 1\<rparr> db = Inr db'"
    unfolding createIpv4Network_def Let_def by (auto simp: res_simps)
  show ?thesis
    by (rule insert_network_effect [OF ins])
      (use assms(2) r(2) find_routerD [OF r(1)] in \<open>auto simp: method_supported_def\<close>)
qed

lemma createAssistedIpv4Network_effect:
  assumes op: "createAssistedIpv4Network env cidr_text routerId input actorId newId db = Inr db'"
    and fresh: "newId \<notin> nw_id ` set (nd_networks db)"
  shows "catalog_effect\<^sup>*\<^sup>* db db'"
proof -
  from op obtain router cidr gateway src where r: "find_router routerId db = Some router"
      "as_method input \<in> set (nr_methods router)"
    and src: "resolve_source env router (as_source input) actorId db = Inr (cidr, gateway, src)"
    unfolding createAssistedIpv4Network_def by (auto simp: res_bind_eq_Inr simp del: res_bind_Inr)
  let ?i = "case as_interfaceId input of Some i \<Rightarrow> Some i | None \<Rightarrow> src"
  have "\<exists>name. insert_network \<lparr>nw_id = newId, nw_router = nr_id router, nw_interface = ?i, nw_name = name,
             nw_cidr = cidr, nw_gateway = gateway, nw_from = as_from input, nw_to = as_to input,
             nw_excluded = or_keep (as_excluded input) [], nw_method = as_method input, nw_status = CATALOG_ACTIVE,
             nw_version = 1\<rparr> db = Inr db'"
    using op r src unfolding createAssistedIpv4Network_def Let_def
    by (auto simp: res_bind_eq_Inr simp del: res_bind_Inr)
  then obtain name where ins: "insert_network \<lparr>nw_id = newId, nw_router = nr_id router, nw_interface = ?i, nw_name = name,
             nw_cidr = cidr, nw_gateway = gateway, nw_from = as_from input, nw_to = as_to input,
             nw_excluded = or_keep (as_excluded input) [], nw_method = as_method input, nw_status = CATALOG_ACTIVE,
             nw_version = 1\<rparr> db = Inr db'" ..
  have i: "\<exists>x. find_interface routerId k db = Some x" if "?i = Some k" for k
    using op r src that unfolding createAssistedIpv4Network_def Let_def
    by (auto simp: res_bind_eq_Inr simp del: res_bind_Inr)
  show ?thesis
    by (rule insert_network_effect [OF ins])
      (use fresh r(2) find_routerD [OF r(1)] i find_interfaceD in \<open>fastforce simp: method_supported_def interface_exists_def\<close>)+
qed

lemma updateIpv4Network_effect:
  assumes op: "updateIpv4Network env k input actorId db = Inr db'"
  shows "catalog_effect\<^sup>*\<^sup>* db db'"
proof -
  from op obtain n r where n: "find_network k db = Some n" and r: "find_router (nw_router n) db = Some r"
    unfolding updateIpv4Network_def by (auto simp: res_simps)
  define x where "x = n\<lparr>nw_name := (case un_name input of None \<Rightarrow> nw_name n | Some s \<Rightarrow> js_trim s),
              nw_from := or_keep (un_from input) (nw_from n), nw_to := or_keep (un_to input) (nw_to n),
              nw_excluded := or_keep (un_excluded input) (nw_excluded n),
              nw_method := or_keep (un_method input) (nw_method n),
              nw_interface := or_keep (un_interfaceId input) (nw_interface n),
              nw_version := nw_version n + 1\<rparr>"
  have facts: "db' = save_network x db" "network_row_ok x" "\<not> leaves_out k (nw_from x) (nw_to x) (nw_excluded x) db"
      "\<And>c. un_method input = Some c \<Longrightarrow> c \<in> set (nr_methods r)"
      "\<And>i. un_interfaceId input = Some (Some i) \<Longrightarrow> \<exists>y. find_interface (nw_router n) i db = Some y"
    using op n r unfolding updateIpv4Network_def Let_def x_def
    by (auto simp: res_bind_eq_Inr simp del: res_bind_Inr split: option.splits)
  from find_networkD [OF n] have n': "n \<in> set (nd_networks db)" "nw_id n = k" by auto
  have x: "nw_id x = nw_id n" "nw_router x = nw_router n" "nw_cidr x = nw_cidr n" "nw_gateway x = nw_gateway n"
    "nw_method x = or_keep (un_method input) (nw_method n)" "nw_interface x = or_keep (un_interfaceId input) (nw_interface n)"
    by (simp_all add: x_def)
  have m: "nw_method x = nw_method n \<or> method_supported (nw_router x) (nw_method x) db"
    using facts(4) find_routerD [OF r] x by (cases "un_method input") (auto simp: or_keep_def method_supported_def)
  have "interface_exists (nw_router n) i db" if "un_interfaceId input = Some (Some i)" for i
    using facts(5) [OF that] find_interfaceD unfolding interface_exists_def by blast
  then have i: "nw_interface x = nw_interface n \<or> (\<forall>k. nw_interface x = Some k \<longrightarrow> interface_exists (nw_router x) k db)"
    using x by (cases "un_interfaceId input") (auto simp: or_keep_def)
  have "catalog_effect db (save_network x db)"
    by (rule catalog_effect.Network_Set [OF n'(1) x(1-4) facts(2) _ m i]) (use facts(3) n'(2) x(1) in simp)
  with facts(1) show ?thesis by auto
qed

lemma setIpv4NetworkStatus_effect:
  assumes op: "setIpv4NetworkStatus env k version status actorId db = Inr db'" and "catalog_ok db" "leases_lawful db"
  shows "catalog_effect\<^sup>*\<^sup>* db db'"
proof -
  from op obtain n where n: "find_network k db = Some n"
    and db': "db' = save_network (n\<lparr>nw_status := status, nw_version := nw_version n + 1\<rparr>) db"
    unfolding setIpv4NetworkStatus_def by (auto simp: res_simps)
  from find_networkD [OF n] have n': "n \<in> set (nd_networks db)" "nw_id n = k" by auto
  have only: "m = n" if "m \<in> set (nd_networks db)" "nw_id m = k" for m
    using that n' assms(2) by (auto simp: catalog_ok_def distinct_map inj_on_def)
  have row: "network_row_ok n" using assms(2) n'(1) by (simp add: catalog_ok_def)
  have "\<not> leaves_out k (nw_from n) (nw_to n) (nw_excluded n) db"
    using assms(3) only by (fastforce simp: leaves_out_def list_ex_iff leases_lawful_def lawful_ip_def)
  then show ?thesis unfolding db'
    by (intro r_into_rtranclp catalog_effect.Network_Set [OF n'(1)]) (use row n'(2) in \<open>auto simp: network_row_ok_def\<close>)
qed

end
