(* ===== verification/NetworkMachine.thy ===== *)
theory NetworkMachine
  imports CatalogRules
begin

text \<open>
  The network module as one machine: any operation of the catalog, of the provisioning
  service and of its workers, with any arguments and any answers of the other modules, in any
  order. Its invariant, its refinement to a table of leases, and what the services promise.
\<close>

section \<open>Steps\<close>

inductive net_step :: "net_db \<Rightarrow> net_db \<Rightarrow> bool" where
  Create_Router: "createRouter env router_input actor k db = Inr db' \<Longrightarrow> k \<notin> nr_id ` set (nd_routers db) \<Longrightarrow> net_step db db'"
| Update_Router: "updateRouter env k update actor db = Inr db' \<Longrightarrow> net_step db db'"
| Set_Router_Status: "setRouterStatus env k version status actor db = Inr db' \<Longrightarrow> net_step db db'"
| Create_Interface: "createRouterInterface env r interface_input actor k j db = Inr db' \<Longrightarrow>
    k \<notin> if_id ` set (nd_interfaces db) \<Longrightarrow> j \<notin> la_id ` set (nd_addresses db) \<Longrightarrow> net_step db db'"
| Update_Interface: "updateRouterInterface env r k interface_update actor db = Inr db' \<Longrightarrow> net_step db db'"
| Set_Interface_Status: "setRouterInterfaceStatus env r k version status actor db = Inr db' \<Longrightarrow> net_step db db'"
| Create_Address: "createInterfaceIpv4Address env r i address actor k db = Inr db' \<Longrightarrow>
    k \<notin> la_id ` set (nd_addresses db) \<Longrightarrow> net_step db db'"
| Update_Address: "updateInterfaceIpv4Address env r i k notes version actor db = Inr db' \<Longrightarrow> net_step db db'"
| Correct_Address: "correctInterfaceIpv4Address env r i k address version confirm actor db = Inr db' \<Longrightarrow> net_step db db'"
| Create_Network: "createIpv4Network env network_input actor k db = Inr db' \<Longrightarrow> k \<notin> nw_id ` set (nd_networks db) \<Longrightarrow>
    net_step db db'"
| Create_Assisted: "createAssistedIpv4Network env cidr_text r assisted_input actor k db = Inr db' \<Longrightarrow>
    k \<notin> nw_id ` set (nd_networks db) \<Longrightarrow> net_step db db'"
| Update_Network: "updateIpv4Network env k network_update actor db = Inr db' \<Longrightarrow> net_step db db'"
| Set_Network_Status: "setIpv4NetworkStatus env k version status actor db = Inr db' \<Longrightarrow> net_step db db'"
| Reserve: "reserve_tx penv order input actor k j db = Inr (s, ip, db') \<Longrightarrow> fresh_ids k j db \<Longrightarrow> net_step db db'"
| Certify: "certify_tx penv order k evidence version actor db = Inr (s, db') \<Longrightarrow> net_step db db'"
| Release: "release_tx penv order k version actor db = Inr (s, db') \<Longrightarrow> net_step db db'"
| Regularize: "regularize_tx penv order regular_input actor k j db = Inr (s, ip, db') \<Longrightarrow> fresh_ids k j db \<Longrightarrow>
    os_id order = rb_executionOrderId regular_input \<Longrightarrow> net_step db db'"
| Event: "net_step db (snd (process_event rows listener found now event db))"
| Invalid_Signature: "net_step db (persistInvalidSignature event db)"
| Reconcile_One: "reconcileOne now k snapshot db = Inr (activation, db') \<Longrightarrow> net_step db db'"
| Commercial_Status: "record_commercial_status k commercial detail db = Inr db' \<Longrightarrow> net_step db db'"
| Erasure: "net_step db (snd (network_erasure dryRun scope db))"

abbreviation net_reachable :: "net_db \<Rightarrow> bool" where
  "net_reachable db \<equiv> net_step\<^sup>*\<^sup>* net_empty db"

section \<open>Invariant\<close>

definition net_inv :: "net_db \<Rightarrow> bool" where
  "net_inv db \<longleftrightarrow> catalog_ok db \<and> leases_of db \<and> leases_lawful db \<and> (\<forall>s \<in> set (nd_provisionings db). sp_checks s)"

lemma net_inv_ranges: "net_inv db \<Longrightarrow> ranges_ok db"
  by (auto simp: net_inv_def catalog_ok_def ranges_ok_def network_row_ok_def)

lemma lease_effect_checks:
  "lease_effect db db' \<Longrightarrow> (\<forall>s \<in> set (nd_provisionings db). sp_checks s) \<Longrightarrow> (\<forall>s \<in> set (nd_provisionings db'). sp_checks s)"
  by (induction rule: lease_effect.induct) (auto dest!: set_replace_rowD simp: same_lease_def)

lemma lease_effect_inv: "lease_effect db db' \<Longrightarrow> net_inv db \<Longrightarrow> net_inv db'"
  using lease_effect_leases lease_effect_lawful lease_effect_checks lease_effect_frame [of db db']
  unfolding net_inv_def catalog_ok_def by auto

lemma catalog_effect_inv: "catalog_effect db db' \<Longrightarrow> net_inv db \<Longrightarrow> net_inv db'"
  using catalog_effect_ok catalog_effect_lawful catalog_effect_frame [of db db'] unfolding net_inv_def by auto

lemma effects_inv:
  "lease_effect\<^sup>*\<^sup>* db db' \<Longrightarrow> net_inv db \<Longrightarrow> net_inv db'"
  "catalog_effect\<^sup>*\<^sup>* db db' \<Longrightarrow> net_inv db \<Longrightarrow> net_inv db'"
  subgoal by (induction rule: rtranclp_induct) (auto intro: lease_effect_inv)
  subgoal by (induction rule: rtranclp_induct) (auto intro: catalog_effect_inv)
  done

lemmas catalog_steps = createRouter_effect updateRouter_effect setRouterStatus_effect createRouterInterface_effect
  updateRouterInterface_effect setRouterInterfaceStatus_effect createInterfaceIpv4Address_effect
  updateInterfaceIpv4Address_effect correctInterfaceIpv4Address_effect createIpv4Network_effect
  createAssistedIpv4Network_effect updateIpv4Network_effect setIpv4NetworkStatus_effect

lemmas lease_steps = reserve_tx_effect certify_tx_effect release_tx_effect regularize_tx_effect process_event_effect
  persist_effects(2) reconcileOne_effect record_commercial_status_effect network_erasure_effect

text \<open>A step is a run of effects of one of the two kinds.\<close>

lemma net_step_effects:
  assumes "net_step db db'" and "net_inv db"
  shows "lease_effect\<^sup>*\<^sup>* db db' \<or> catalog_effect\<^sup>*\<^sup>* db db'"
  using assms net_inv_ranges [OF assms(2)]
  by (induction rule: net_step.induct) (auto simp: net_inv_def intro: catalog_steps lease_steps)

lemma net_step_inv: "net_inv db \<Longrightarrow> net_step db db' \<Longrightarrow> net_inv db'"
  using net_step_effects effects_inv by blast

lemma net_inv_empty: "net_inv net_empty"
  by (simp add: net_inv_def catalog_ok_def leases_ok_def leases_lawful_def net_empty_def)

section \<open>The abstract table of leases\<close>

text \<open>Which provisioning owns an address: one takes a free address, or gives it back.\<close>

inductive lease_step :: "(ipv4 \<rightharpoonup> string) \<Rightarrow> (ipv4 \<rightharpoonup> string) \<Rightarrow> bool" where
  Take: "m ip = None \<Longrightarrow> owner \<notin> ran m \<Longrightarrow> lease_step m (m(ip \<mapsto> owner))"
| Give_Back: "m ip = Some owner \<Longrightarrow> lease_step m (m(ip := None))"

definition lease_owner :: "net_db \<Rightarrow> ipv4 \<rightharpoonup> string" where
  "lease_owner db ip = map_option ia_provisioning (find (\<lambda>a. ia_live a \<and> ia_ip a = ip) (nd_assignments db))"

lemma lease_owner_iff:
  assumes "leases_of db"
  shows "lease_owner db ip = Some k \<longleftrightarrow> (\<exists>a \<in> set (nd_assignments db). ia_live a \<and> ia_ip a = ip \<and> ia_provisioning a = k)"
proof
  assume "lease_owner db ip = Some k"
  then show "\<exists>a \<in> set (nd_assignments db). ia_live a \<and> ia_ip a = ip \<and> ia_provisioning a = k"
    by (auto simp: lease_owner_def dest: find_SomeD)
next
  assume "\<exists>a \<in> set (nd_assignments db). ia_live a \<and> ia_ip a = ip \<and> ia_provisioning a = k"
  then obtain a where a: "a \<in> set (nd_assignments db)" "ia_live a" "ia_ip a = ip" "ia_provisioning a = k" by auto
  then obtain b where b: "find (\<lambda>a. ia_live a \<and> ia_ip a = ip) (nd_assignments db) = Some b"
    by (metis (mono_tags, lifting) find_None_iff not_None_eq)
  from find_SomeD [OF b] a assms have "b = a" by (auto simp: leases_ok_def distinct_map inj_on_def)
  with a b show "lease_owner db ip = Some k" by (simp add: lease_owner_def)
qed

lemma lease_owner_eqI:
  assumes "leases_of db" and "\<And>k. m ip = Some k \<longleftrightarrow>
    (\<exists>a \<in> set (nd_assignments db). ia_live a \<and> ia_ip a = ip \<and> ia_provisioning a = k)"
  shows "lease_owner db ip = m ip"
proof -
  have "lease_owner db ip = Some k \<longleftrightarrow> m ip = Some k" for k using assms lease_owner_iff by simp
  then show ?thesis by (metis not_None_eq)
qed

lemma lease_effect_simulates:
  assumes "lease_effect db db'" and "leases_of db"
  shows "lease_step\<^sup>*\<^sup>* (lease_owner db) (lease_owner db')"
  using assms
proof (cases rule: lease_effect.cases)
  case (Rewrite s0 a0 s a)
  from Rewrite have ok': "leases_of db'" using lease_effect_leases assms by blast
  have "distinct (map ia_id (nd_assignments db))" using assms(2) by (simp add: leases_ok_def)
  note mem = set_replace_mem [OF Rewrite(3,10) this]
  from Rewrite(4) have a0: "ia_live a0" "ia_provisioning a0 = sp_id s0" using holds_live by (auto simp: holds_def)
  have uniq: "b = a0" if "b \<in> set (nd_assignments db)" "ia_live b" "ia_ip b = ia_ip a0" for b
    using that a0 Rewrite(3) assms(2) by (auto simp: leases_ok_def distinct_map inj_on_def)
  from Rewrite(13) show ?thesis
  proof
    assume h: "holds s a"
    have a: "ia_live a" "ia_provisioning a = ia_provisioning a0"
      using holds_live [OF h] h a0 Rewrite(5) by (auto simp: holds_def)
    have "(\<exists>b. b \<in> set (nd_assignments db') \<and> ia_live b \<and> ia_ip b = ip \<and> ia_provisioning b = k)
        \<longleftrightarrow> (\<exists>b. b \<in> set (nd_assignments db) \<and> ia_live b \<and> ia_ip b = ip \<and> ia_provisioning b = k)" for ip k
      unfolding Rewrite(1) using a a0 Rewrite(3,11) by (simp add: mem) metis
    then have "lease_owner db' ip = lease_owner db ip" for ip
      by (intro lease_owner_eqI [OF ok']) (simp add: lease_owner_iff [OF assms(2)] Bex_def)
    then have "lease_owner db' = lease_owner db" ..
    then show ?thesis by simp
  next
    assume d: "sp_status s = SP_RELEASED \<and> \<not> ia_live a"
    have "lease_owner db' ip = ((lease_owner db)(ia_ip a0 := None)) ip" for ip
      using d uniq by (intro lease_owner_eqI [OF ok']) (auto simp: lease_owner_iff [OF assms(2)] Rewrite(1) mem)
    then have eq: "lease_owner db' = (lease_owner db)(ia_ip a0 := None)" ..
    have "lease_owner db (ia_ip a0) = Some (sp_id s0)" using a0 Rewrite(3) by (auto simp: lease_owner_iff [OF assms(2)])
    then have "lease_step (lease_owner db) ((lease_owner db)(ia_ip a0 := None))" by (rule lease_step.Give_Back)
    then show ?thesis unfolding eq by blast
  qed
next
  case (Add s a n)
  from Add have ok': "leases_of db'" using lease_effect_leases assms by blast
  from Add(6) have a: "ia_live a" "ia_provisioning a = sp_id s" using holds_live by (auto simp: holds_def)
  have free: "lease_owner db (ia_ip a) = None"
    using Add(5) lease_owner_iff [OF assms(2), of "ia_ip a"] not_live_ipD by (metis not_None_eq)
  have "sp_id s \<notin> ran (lease_owner db)"
  proof
    assume "sp_id s \<in> ran (lease_owner db)"
    then obtain ip b where "b \<in> set (nd_assignments db)" "ia_live b" "ia_provisioning b = sp_id s"
      by (auto simp: ran_def lease_owner_iff [OF assms(2)])
    with assms(2) obtain t where "t \<in> set (nd_provisionings db)" "sp_id t = sp_id s" by (auto simp: leases_ok_def holds_def)
    with Add(2) show False by (auto simp: image_iff)
  qed
  with free have step: "lease_step (lease_owner db) ((lease_owner db)(ia_ip a \<mapsto> sp_id s))" by (rule lease_step.Take)
  have "lease_owner db' ip = ((lease_owner db)(ia_ip a \<mapsto> sp_id s)) ip" for ip
    using a not_live_ipD [OF Add(5)]
    by (intro lease_owner_eqI [OF ok']) (auto simp: lease_owner_iff [OF assms(2)] Add(1))
  then have "lease_owner db' = (lease_owner db)(ia_ip a \<mapsto> sp_id s)" ..
  with step show ?thesis by auto
next
  case (Mark f)
  then have "lease_owner db' = lease_owner db" by (auto simp: lease_owner_def)
  then show ?thesis by simp
next
  case (Inbox inbox)
  then have "lease_owner db' = lease_owner db" by (auto simp: lease_owner_def)
  then show ?thesis by simp
qed

lemma net_step_simulates:
  assumes "net_inv db" and "net_step db db'"
  shows "lease_step\<^sup>*\<^sup>* (lease_owner db) (lease_owner db')"
  using net_step_effects [OF assms(2,1)]
proof
  assume "lease_effect\<^sup>*\<^sup>* db db'"
  then show ?thesis using assms(1)
  proof (induction rule: rtranclp_induct)
    case (step y z)
    then have "leases_of y" using lease_effects_leases by (auto simp: net_inv_def)
    with step lease_effect_simulates show ?case by (meson rtranclp_trans)
  qed simp
next
  assume "catalog_effect\<^sup>*\<^sup>* db db'"
  then have "nd_assignments db' = nd_assignments db"
    by (induction rule: rtranclp_induct) (auto dest: catalog_effect_frame)
  then have "lease_owner db' = lease_owner db" by (auto simp: lease_owner_def)
  then show ?thesis by simp
qed

interpretation net: step_refinement net_empty net_step net_inv lease_step lease_owner
  by unfold_locales (auto intro: net_inv_empty net_step_inv net_step_simulates)


section \<open>A concrete run\<close>

text \<open>
  A router, a network of six hosts with one exclusion, and an installation that is reserved,
  certified and closed as executed.
\<close>

definition permissive_env :: prov_env where
  "permissive_env = \<lparr>en_siteOrTenantWide = (\<lambda>_ _ _. Inr ()), en_tenantWide = (\<lambda>_ _. Inr ()), en_siteAction = (\<lambda>_ _ _. Inr ()),
     en_createScope = (\<lambda>_ _. Inr ()), en_site = (\<lambda>_. Some True), en_node = (\<lambda>_. Some True), en_lower = (\<lambda>s. s),
     en_protectionActive = True, en_paused = False,
     en_commercial = (\<lambda>_. Some \<lparr>cx_expedienteId = Some ''E1'', cx_contracts = [(''C1'', True)], cx_planId = None,
       cx_downloadMbps = Some 100, cx_uploadMbps = Some 20\<rparr>),
     en_equipment = (\<lambda>_ _. None), en_hasEvidence = (\<lambda>_ _. True), en_assertWritable = (\<lambda>_. Inr ()), en_now = 1000\<rparr>"

definition installation :: ExecutionSnapshot where
  "installation = \<lparr>os_id = ''O1'', os_status = ORDER_IN_PROGRESS, os_isInstallation = True, os_isAnnulled = False,
     os_subscriberId = Some ''S1'', os_technician = Some ''T1'', os_result = None\<rparr>"

definition got :: "net_db \<Rightarrow> 'e + net_db \<Rightarrow> net_db" where
  "got db r = (case r of Inl _ \<Rightarrow> db | Inr d \<Rightarrow> d)"

definition demo_router :: net_db where
  "demo_router = got net_empty (createRouter (net_env.truncate permissive_env)
     \<lparr>cr_name = ''Core'', cr_managementHost = ''10.0.0.1'', cr_lanInterface = None, cr_methods = [SIMPLE_QUEUE_STATIC_IP],
      cr_siteId = None, cr_nodeId = None, cr_notes = None\<rparr> ''A1'' ''R1'' net_empty)"

definition demo_network :: net_db where
  "demo_network = got demo_router (createIpv4Network (net_env.truncate permissive_env)
     \<lparr>cn_routerId = ''R1'', cn_name = ''Norte'', cn_cidr = (0x0A000000, 29), cn_gateway = 0x0A000001, cn_from = 0x0A000001,
      cn_to = 0x0A000006, cn_excluded = Some [0x0A000002], cn_method = SIMPLE_QUEUE_STATIC_IP\<rparr> ''A1'' ''N1'' demo_router)"

definition demo_body :: ReserveProvisioningBody where
  "demo_body = \<lparr>rb_executionOrderId = ''O1'', rb_routerId = ''R1'', rb_networkId = ''N1'', rb_requestedIp = None,
     rb_controlParams = Simple_Queue ''q'', rb_contractId = None\<rparr>"

definition demo_reserved :: net_db where
  "demo_reserved = got demo_network (map_sum id (\<lambda>(s, ip, d). d)
     (reserve_tx permissive_env installation demo_body ''A1'' ''P1'' ''L1'' demo_network))"

definition demo_certified :: net_db where
  "demo_certified = got demo_reserved (map_sum id snd
     (certify_tx permissive_env installation ''P1'' ''V1'' 1 ''A2'' demo_reserved))"

definition demo_event :: NetworkExecutionEvent where
  "demo_event = \<lparr>ne_eventId = ''X1'', ne_eventType = ExecutionOrderClosedV1, ne_executionOrderId = ''O1'', ne_result = Some EXECUTED\<rparr>"

definition demo_active :: net_db where
  "demo_active = snd (process_event 1 None (Some installation) 2000 demo_event demo_certified)"

lemma got_Inr: "\<not> isl r \<Longrightarrow> r = Inr (got db r)"
  by (cases r) (simp_all add: got_def)

lemma demo_router_reachable: "net_reachable demo_router"
proof -
  have "createRouter (net_env.truncate permissive_env)
     \<lparr>cr_name = ''Core'', cr_managementHost = ''10.0.0.1'', cr_lanInterface = None, cr_methods = [SIMPLE_QUEUE_STATIC_IP],
      cr_siteId = None, cr_nodeId = None, cr_notes = None\<rparr> ''A1'' ''R1'' net_empty = Inr demo_router"
    unfolding demo_router_def by (rule got_Inr) code_simp
  from net_step.Create_Router [OF this] show ?thesis by (simp add: net_empty_def r_into_rtranclp)
qed

lemma demo_network_reachable: "net_reachable demo_network"
proof -
  have "createIpv4Network (net_env.truncate permissive_env)
     \<lparr>cn_routerId = ''R1'', cn_name = ''Norte'', cn_cidr = (0x0A000000, 29), cn_gateway = 0x0A000001, cn_from = 0x0A000001,
      cn_to = 0x0A000006, cn_excluded = Some [0x0A000002], cn_method = SIMPLE_QUEUE_STATIC_IP\<rparr> ''A1'' ''N1'' demo_router
    = Inr demo_network"
    unfolding demo_network_def by (rule got_Inr) code_simp
  moreover have "''N1'' \<notin> nw_id ` set (nd_networks demo_router)" by code_simp
  ultimately show ?thesis using demo_router_reachable net_step.Create_Network by (meson rtranclp.rtrancl_into_rtrancl)
qed

lemma demo_reserved_reachable: "net_reachable demo_reserved"
proof -
  let ?r = "reserve_tx permissive_env installation demo_body ''A1'' ''P1'' ''L1'' demo_network"
  have "\<not> isl ?r" by code_simp
  then obtain s ip d where r: "?r = Inr (s, ip, d)" by (cases ?r) auto
  then have "d = demo_reserved" by (simp add: demo_reserved_def got_def)
  moreover have "fresh_ids ''P1'' ''L1'' demo_network" unfolding fresh_ids_def by (intro conjI) code_simp+
  ultimately show ?thesis using r demo_network_reachable net_step.Reserve by (meson rtranclp.rtrancl_into_rtrancl)
qed

lemma demo_certified_reachable: "net_reachable demo_certified"
proof -
  let ?r = "certify_tx permissive_env installation ''P1'' ''V1'' 1 ''A2'' demo_reserved"
  have "\<not> isl ?r" by code_simp
  then obtain s d where r: "?r = Inr (s, d)" by (cases ?r) auto
  then have "d = demo_certified" by (simp add: demo_certified_def got_def)
  then show ?thesis using r demo_reserved_reachable net_step.Certify by (meson rtranclp.rtrancl_into_rtrancl)
qed

lemma demo_active_reachable: "net_reachable demo_active"
  unfolding demo_active_def using demo_certified_reachable net_step.Event by (meson rtranclp.rtrancl_into_rtrancl)

end
