(* ===== verification/NetworkFacts.thy ===== *)
theory NetworkFacts
  imports NetworkMachine
begin

text \<open>
  What the network module promises in every state it can reach: addresses in use are lawful
  and unique, a provisioning holds the address its status says, an address in service is
  never given up, the counts of a network are exact, and the two workers that end an
  installation agree.
\<close>

section \<open>Reachable states\<close>

lemma reachable_inv: "net_reachable db \<Longrightarrow> net_inv db"
  by (rule net.inv_reachable)

lemma filter_single:
  "distinct xs \<Longrightarrow> x \<in> set xs \<Longrightarrow> P x \<Longrightarrow> (\<And>y. y \<in> set xs \<Longrightarrow> P y \<Longrightarrow> y = x) \<Longrightarrow> filter P xs = [x]"
proof (induction xs)
  case (Cons y ys)
  show ?case
  proof (cases "x = y")
    case True
    then have "filter P ys = []" using Cons.prems by (auto simp: filter_empty_conv)
    with True Cons.prems(3) show ?thesis by simp
  next
    case False
    then have "x \<in> set ys" using Cons.prems(2) by simp
    moreover have "\<not> P y" using False Cons.prems(4) [of y] by auto
    moreover have "distinct ys" using Cons.prems(1) by simp
    moreover have "\<And>z. z \<in> set ys \<Longrightarrow> P z \<Longrightarrow> z = x" using Cons.prems(4) by (meson list.set_intros(2))
    ultimately show ?thesis using Cons.IH [OF _ _ Cons.prems(3)] by simp
  qed
qed simp

lemma leases_distinct:
  assumes "leases_of db"
  shows "distinct (nd_assignments db)" "distinct (nd_provisionings db)"
    "inj_on ia_id (set (nd_assignments db))" "inj_on sp_id (set (nd_provisionings db))"
    "inj_on ia_ip {a \<in> set (nd_assignments db). ia_live a}"
    "inj_on sp_order {s \<in> set (nd_provisionings db). sp_status s \<noteq> SP_RELEASED}"
proof -
  note parts = assms [unfolded leases_ok_def]
  note dP = parts [THEN conjunct1] and dA = parts [THEN conjunct2, THEN conjunct1]
    and dI = parts [THEN conjunct2, THEN conjunct2, THEN conjunct1]
    and dO = parts [THEN conjunct2, THEN conjunct2, THEN conjunct2, THEN conjunct1]
  show "distinct (nd_assignments db)" "inj_on ia_id (set (nd_assignments db))" using dA by (simp_all only: distinct_map)
  show "distinct (nd_provisionings db)" "inj_on sp_id (set (nd_provisionings db))" using dP by (simp_all only: distinct_map)
  show "inj_on ia_ip {a \<in> set (nd_assignments db). ia_live a}" using dI by (simp only: distinct_map set_filter)
  show "inj_on sp_order {s \<in> set (nd_provisionings db). sp_status s \<noteq> SP_RELEASED}"
    using dO by (simp only: distinct_map set_filter)
qed

lemma live_ip_unique:
  assumes ok: "leases_of db" and a: "a \<in> set (nd_assignments db)" "ia_live a"
  shows "filter (\<lambda>b. ia_live b \<and> ia_ip b = ia_ip a) (nd_assignments db) = [a]"
proof (rule filter_single)
  fix b assume "b \<in> set (nd_assignments db)" "ia_live b \<and> ia_ip b = ia_ip a"
  then show "b = a" using inj_onD [OF leases_distinct(5) [OF ok], of b a] a by simp
qed (use a leases_distinct(1) [OF ok] in simp_all)

lemma holder_unique:
  assumes ok: "leases_of db" and s: "s \<in> set (nd_provisionings db)" "a \<in> set (nd_assignments db)" "holds s a"
  shows "filter (\<lambda>b. ia_live b \<and> ia_provisioning b = sp_id s) (nd_assignments db) = [a]"
proof (rule filter_single)
  fix b assume b: "b \<in> set (nd_assignments db)" "ia_live b \<and> ia_provisioning b = sp_id s"
  with ok obtain t where t: "t \<in> set (nd_provisionings db)" "holds t b" unfolding leases_ok_def by blast
  with b(2) have "sp_id t = sp_id s" by (simp add: holds_def)
  then have "t = s" using inj_onD [OF leases_distinct(4) [OF ok]] t(1) s(1) by blast
  with t(2) s(3) have "ia_id b = ia_id a" by (simp add: holds_def)
  then show "b = a" using inj_onD [OF leases_distinct(3) [OF ok]] b(1) s(2) by blast
qed (use s holds_live [OF s(3)] leases_distinct(1) [OF ok] in \<open>simp_all add: holds_def\<close>)

section \<open>Blocks\<close>

lemma network_mono: "a \<le> b \<Longrightarrow> network_of (a, p) \<le> network_of (b, p)"
  by (simp add: word_le_def uint_network mult_right_mono zdiv_mono1)

lemma in_block_between:
  assumes "contained_eq (a, 32) c" and "contained_eq (b, 32) c" and "a \<le> ip" and "ip \<le> b"
  shows "contained_eq (ip, 32) c"
  using assms network_mono [of a ip "snd c"] network_mono [of ip b "snd c"] by (auto simp: contained_eq_def)

lemma network_of_shorter:
  assumes "p \<le> q" "q \<le> 32" "network_of (a, q) = network_of (b, q)"
  shows "network_of (a, p) = network_of (b, p)"
proof (rule bit_word_eqI)
  fix n assume n: "n < LENGTH(32)"
  from assms(3) have "bit (network_of (a, q)) n = bit (network_of (b, q)) n" by simp
  then show "bit (network_of (a, p)) n = bit (network_of (b, p)) n"
    using assms(1,2) n by (auto simp: network_of_def bit_simps)
qed

lemma network_of_idem: "network_of (network_of (a, p), p) = network_of (a, p)"
  by (rule bit_word_eqI) (auto simp: network_of_def bit_simps)

lemma shared_address_overlaps:
  assumes "contained_eq (ip, 32) m" and "contained_eq (ip, 32) n"
  shows "overlaps m n"
proof -
  have *: "contained_eq y x" if "snd x \<le> snd y" "contained_eq (ip, 32) x" "contained_eq (ip, 32) y" for x y :: inet
  proof -
    from that(2,3) have e: "network_of (ip, snd x) = network_of x" "network_of (ip, snd y) = network_of y" "snd y \<le> 32"
      by (auto simp: contained_eq_def)
    have "network_of (fst y, snd x) = network_of (ip, snd x)"
      using network_of_shorter [OF that(1) e(3)] e(2) by simp
    with e(1) that(1) show ?thesis by (simp add: contained_eq_def)
  qed
  show ?thesis using *[of m n] *[of n m] assms by (cases "snd m \<le> snd n") (auto simp: overlaps_def)
qed

lemma lawful_in_block: "network_row_ok n \<Longrightarrow> lawful_ip n db ip \<Longrightarrow> contained_eq (ip, 32) (nw_cidr n)"
  by (rule in_block_between [of "nw_from n" _ "nw_to n"]) (auto simp: network_row_ok_def lawful_ip_def contained_def)

lemma one_network:
  assumes "catalog_ok db" and "m \<in> set (nd_networks db)" and "n \<in> set (nd_networks db)"
    and "contained_eq (ip, 32) (nw_cidr m)" and "contained_eq (ip, 32) (nw_cidr n)"
  shows "m = n"
  using shared_address_overlaps [OF assms(4,5)] assms(1-3) by (auto simp: catalog_ok_def)

section \<open>Addresses in use\<close>

text \<open>
  C3. In every state the network module can reach, an address in use is the only live row
  with that address in the tenant, it belongs to a network of the catalog, lies in its
  assignable range, and is neither its gateway, nor the address of the network or its
  broadcast, nor excluded, nor an address of a router interface.
\<close>

theorem live_addresses_lawful:
  assumes "net_reachable db" and "a \<in> set (nd_assignments db)" and "ia_live a"
  shows "filter (\<lambda>b. ia_live b \<and> ia_ip b = ia_ip a) (nd_assignments db) = [a]
    \<and> (\<exists>n \<in> set (nd_networks db). nw_id n = ia_network a \<and> nw_from n \<le> ia_ip a \<and> ia_ip a \<le> nw_to n
        \<and> contained (ia_ip a, 32) (nw_cidr n) \<and> ia_ip a \<noteq> nw_gateway n \<and> ia_ip a \<noteq> network_of (nw_cidr n)
        \<and> ia_ip a \<noteq> broadcast_of (nw_cidr n) \<and> ia_ip a \<notin> set (nw_excluded n))
    \<and> \<not> is_local (ia_ip a) db"
proof -
  from reachable_inv [OF assms(1)] have inv: "leases_of db" "leases_lawful db" "catalog_ok db" by (auto simp: net_inv_def)
  from inv(2) assms(2,3) obtain n where n: "n \<in> set (nd_networks db)" "nw_id n = ia_network a" "lawful_ip n db (ia_ip a)"
    by (auto simp: leases_lawful_def)
  have row: "network_row_ok n" using inv(3) n(1) by (simp add: catalog_ok_def)
  have "contained (ia_ip a, 32) (nw_cidr n)"
    using lawful_in_block [OF row n(3)] row by (auto simp: contained_def network_row_ok_def)
  with n show ?thesis using live_ip_unique [OF inv(1) assms(2,3)] by (auto simp: lawful_ip_def)
qed

theorem live_addresses_lawful_witness:
  "filter (\<lambda>b. ia_live b \<and> ia_ip b = 0x0A000003) (nd_assignments demo_active) = nd_assignments demo_active
    \<and> \<not> is_local 0x0A000003 demo_active"
proof -
  have "length (nd_assignments demo_active) = 1" by code_simp
  then obtain a where a: "nd_assignments demo_active = [a]" by (metis length_0_conv length_Suc_conv One_nat_def)
  have "ia_ip (hd (nd_assignments demo_active)) = 0x0A000003" "ia_live (hd (nd_assignments demo_active))" by code_simp+
  with a live_addresses_lawful [OF demo_active_reachable, of a] show ?thesis by simp
qed

text \<open>
  C21. In every reachable state an execution order has at most one provisioning that is not
  released; that provisioning has exactly one live address, in its network, recorded on its
  row, active when the service is and reserved before; a released one has none.
\<close>

theorem provisioning_holds_its_address:
  assumes "net_reachable db" and "s \<in> set (nd_provisionings db)"
  shows "(if sp_status s = SP_RELEASED
      then filter (\<lambda>a. ia_live a \<and> ia_provisioning a = sp_id s) (nd_assignments db) = []
      else filter (\<lambda>t. sp_status t \<noteq> SP_RELEASED \<and> sp_order t = sp_order s) (nd_provisionings db) = [s]
        \<and> (\<exists>a. filter (\<lambda>a. ia_live a \<and> ia_provisioning a = sp_id s) (nd_assignments db) = [a]
            \<and> ia_network a = sp_network s \<and> sp_assignment s = Some (ia_id a)
            \<and> ia_status a = (if sp_status s = SP_ACTIVE then IP_ACTIVE else IP_RESERVED)))"
proof -
  from reachable_inv [OF assms(1)] have ok: "leases_of db" by (simp add: net_inv_def)
  show ?thesis
  proof (cases "sp_status s = SP_RELEASED")
    case True
    have "\<not> (ia_live a \<and> ia_provisioning a = sp_id s)" if "a \<in> set (nd_assignments db)" for a
    proof
      assume a: "ia_live a \<and> ia_provisioning a = sp_id s"
      with ok that obtain t where t: "t \<in> set (nd_provisionings db)" "holds t a" unfolding leases_ok_def by blast
      from a t(2) have "sp_id t = sp_id s" by (simp add: holds_def)
      then have "t = s" using inj_onD [OF leases_distinct(4) [OF ok]] t(1) assms(2) by blast
      with t(2) True show False by (simp add: holds_def)
    qed
    with True show ?thesis by (simp add: filter_empty_conv)
  next
    case False
    with ok assms(2) obtain a where a: "a \<in> set (nd_assignments db)" "holds s a" unfolding leases_ok_def by blast
    have "filter (\<lambda>t. sp_status t \<noteq> SP_RELEASED \<and> sp_order t = sp_order s) (nd_provisionings db) = [s]"
    proof (rule filter_single)
      fix t assume "t \<in> set (nd_provisionings db)" "sp_status t \<noteq> SP_RELEASED \<and> sp_order t = sp_order s"
      then show "t = s" using inj_onD [OF leases_distinct(6) [OF ok], of t s] assms(2) False by simp
    qed (use assms(2) False leases_distinct(2) [OF ok] in simp_all)
    then show ?thesis using False holder_unique [OF ok assms(2) a] a(2) by (auto simp: holds_def)
  qed
qed

theorem provisioning_holds_its_address_witness:
  "\<exists>s a. nd_provisionings demo_active = [s] \<and> sp_status s = SP_ACTIVE \<and> nd_assignments demo_active = [a]
    \<and> sp_assignment s = Some (ia_id a) \<and> ia_status a = IP_ACTIVE"
proof -
  have "length (nd_provisionings demo_active) = 1" "length (nd_assignments demo_active) = 1" by code_simp+
  then obtain s a where sa: "nd_provisionings demo_active = [s]" "nd_assignments demo_active = [a]"
    by (metis length_0_conv length_Suc_conv One_nat_def)
  have "sp_status (hd (nd_provisionings demo_active)) = SP_ACTIVE" by code_simp
  with sa have st: "sp_status s = SP_ACTIVE" by simp
  from provisioning_holds_its_address [OF demo_active_reachable, of s] sa(1) st
  obtain b where b: "filter (\<lambda>a. ia_live a \<and> ia_provisioning a = sp_id s) (nd_assignments demo_active) = [b]"
    "sp_assignment s = Some (ia_id b)" "ia_status b = IP_ACTIVE" by auto
  from b(1) sa(2) have "b = a" by (simp split: if_splits)
  with sa st b show ?thesis by blast
qed

section \<open>Refinement\<close>

text \<open>
  C4. Every run of the network module is a run of a table of leases, in which a provisioning
  that owns no address takes a free one or the owner of an address gives it back: no
  operation moves an address from one provisioning to another, or gives a second address to
  a provisioning that has one.
\<close>

theorem network_refines_leases:
  assumes "net_reachable db"
  shows "lease_step\<^sup>*\<^sup>* Map.empty (lease_owner db)"
proof -
  have "lease_owner net_empty = Map.empty" by (auto simp: lease_owner_def net_empty_def)
  with net.refines [OF assms] show ?thesis by simp
qed

theorem network_refines_leases_witness:
  "lease_step\<^sup>*\<^sup>* Map.empty (lease_owner demo_active) \<and> lease_owner demo_active 0x0A000003 = Some ''P1''"
proof
  show "lease_step\<^sup>*\<^sup>* Map.empty (lease_owner demo_active)" by (rule network_refines_leases [OF demo_active_reachable])
  show "lease_owner demo_active 0x0A000003 = Some ''P1''" by code_simp
qed

section \<open>History\<close>

definition continues :: "service_provisioning \<Rightarrow> service_provisioning \<Rightarrow> bool" where
  "continues s t = (sp_id t = sp_id s \<and> sp_order t = sp_order s \<and> sp_version s \<le> sp_version t
     \<and> moves_to\<^sup>*\<^sup>* (sp_status s) (sp_status t))"

lemma continues_refl [simp]: "continues s s"
  by (simp add: continues_def)

lemma continues_trans: "continues s t \<Longrightarrow> continues t u \<Longrightarrow> continues s u"
  by (auto simp: continues_def)

lemma lease_effect_continues:
  assumes "lease_effect db db'" and "leases_of db" and "s \<in> set (nd_provisionings db)"
  shows "\<exists>t \<in> set (nd_provisionings db'). continues s t"
  using assms
proof (cases rule: lease_effect.cases)
  case (Rewrite s0 a0 r a)
  then have mem: "t \<in> set (nd_provisionings db') \<longleftrightarrow> t = r \<or> (t \<in> set (nd_provisionings db) \<and> t \<noteq> s0)" for t
    using assms(2) by (simp add: set_replace_mem leases_ok_def)
  show ?thesis
  proof (cases "s = s0")
    case True
    with Rewrite have "continues s r" by (auto simp: continues_def)
    with mem show ?thesis by blast
  next
    case False
    with mem assms(3) show ?thesis by (metis continues_refl)
  qed
next
  case (Mark f)
  then have "f s \<in> set (nd_provisionings db')" "continues s (f s)"
    using assms(3) by (auto simp: same_lease_def continues_def)
  then show ?thesis ..
qed (use assms(3) in \<open>auto intro: continues_refl\<close>)

lemma active_lease_kept:
  assumes "lease_effect db db'" and "leases_of db" and "a \<in> set (nd_assignments db)" and "ia_status a = IP_ACTIVE"
  shows "a \<in> set (nd_assignments db')"
  using assms
proof (cases rule: lease_effect.cases)
  case (Rewrite s0 a0 r b)
  have "a \<noteq> a0"
  proof
    assume "a = a0"
    with Rewrite(4,8) assms(4) show False by (cases "sp_status s0") (auto simp: holds_def)
  qed
  with Rewrite assms(2,3) show ?thesis by (simp add: set_replace_mem leases_ok_def)
qed auto

text \<open>What every effect of a run keeps, the run keeps.\<close>

lemma net_step_leases:
  assumes "net_inv db" and "net_step db db'"
  shows "lease_effect\<^sup>*\<^sup>* db db' \<or> (nd_assignments db' = nd_assignments db \<and> nd_provisionings db' = nd_provisionings db)"
  using net_step_effects [OF assms(2,1)]
proof
  assume "catalog_effect\<^sup>*\<^sup>* db db'"
  then have "nd_assignments db' = nd_assignments db \<and> nd_provisionings db' = nd_provisionings db"
    by (induction rule: rtranclp_induct) (auto dest: catalog_effect_frame)
  then show ?thesis ..
qed simp

lemma lease_effects_history:
  assumes "lease_effect\<^sup>*\<^sup>* db db'" and "leases_of db"
  shows "(\<forall>s \<in> set (nd_provisionings db). \<exists>t \<in> set (nd_provisionings db'). continues s t)
    \<and> (\<forall>a \<in> set (nd_assignments db). ia_status a = IP_ACTIVE \<longrightarrow> a \<in> set (nd_assignments db'))"
  using assms
proof (induction rule: rtranclp_induct)
  case (step y z)
  then have "leases_of y" using lease_effects_leases by blast
  with step lease_effect_continues [of y z] active_lease_kept [of y z] show ?case by (meson continues_trans)
qed (use continues_refl in blast)

lemma run_history:
  assumes "net_step\<^sup>*\<^sup>* db db'" and "net_inv db"
  shows "(\<forall>s \<in> set (nd_provisionings db). \<exists>t \<in> set (nd_provisionings db'). continues s t)
    \<and> (\<forall>a \<in> set (nd_assignments db). ia_status a = IP_ACTIVE \<longrightarrow> a \<in> set (nd_assignments db'))"
  using assms
proof (induction rule: rtranclp_induct)
  case (step y z)
  then have inv: "net_inv y" using net.inv_steps by blast
  with net_step_leases [OF inv step.hyps(2)] lease_effects_history [of y z]
  have "(\<forall>s \<in> set (nd_provisionings y). \<exists>t \<in> set (nd_provisionings z). continues s t)
    \<and> (\<forall>a \<in> set (nd_assignments y). ia_status a = IP_ACTIVE \<longrightarrow> a \<in> set (nd_assignments z))"
    by (auto simp: net_inv_def intro: continues_refl)
  with step.IH [OF step.prems] show ?case by (meson continues_trans)
qed (use continues_refl in blast)

text \<open>
  C22. A provisioning is never deleted: after any further run its row stands with its order,
  a version that has not gone back and a status that the transitions allow, and a row of an
  address that is in service stands unchanged, so that no operation of the module takes away
  the address of an active customer.
\<close>

theorem provisioning_history:
  assumes "net_reachable db" and "net_step\<^sup>*\<^sup>* db db'" and "s \<in> set (nd_provisionings db)"
  shows "\<exists>t \<in> set (nd_provisionings db'). sp_id t = sp_id s \<and> sp_order t = sp_order s \<and> sp_version s \<le> sp_version t
      \<and> moves_to\<^sup>*\<^sup>* (sp_status s) (sp_status t)
      \<and> filter (\<lambda>a. ia_provisioning a = sp_id s \<and> ia_status a = IP_ACTIVE) (nd_assignments db)
        = filter (\<lambda>a. a \<in> set (nd_assignments db') \<and> ia_provisioning a = sp_id s \<and> ia_status a = IP_ACTIVE) (nd_assignments db)"
proof -
  from run_history [OF assms(2) reachable_inv [OF assms(1)]] assms(3) obtain t where
    "t \<in> set (nd_provisionings db')" "continues s t"
    and "\<forall>a \<in> set (nd_assignments db). ia_status a = IP_ACTIVE \<longrightarrow> a \<in> set (nd_assignments db')" by blast
  then show ?thesis unfolding continues_def by (intro bexI [of _ t] conjI filter_cong) auto
qed

theorem provisioning_history_witness:
  "\<exists>s t. s \<in> set (nd_provisionings demo_certified) \<and> t \<in> set (nd_provisionings demo_active)
    \<and> sp_id t = sp_id s \<and> moves_to\<^sup>*\<^sup>* (sp_status s) (sp_status t)"
proof -
  have "length (nd_provisionings demo_certified) = 1" by code_simp
  then obtain s where s: "s \<in> set (nd_provisionings demo_certified)" by (metis list.set_sel(1) list.size(3) zero_neq_one)
  have "net_step\<^sup>*\<^sup>* demo_certified demo_active" unfolding demo_active_def by (blast intro: net_step.Event)
  from provisioning_history [OF demo_certified_reachable this s] s show ?thesis by blast
qed

text \<open>
  C24. In every reachable state the rows satisfy the check constraints of their tables: a
  certified row names its certifier, time and evidence, a regularized one its reason, author
  and time, an active one its activation; release and failure columns are filled exactly in
  those statuses; every network row is well-formed, on a router that supports its method,
  and an address lies in the block of at most one network.
\<close>

theorem network_rows_typed:
  assumes "net_reachable db"
  shows "list_all sp_checks (nd_provisionings db)
    \<and> list_all (\<lambda>n. network_row_ok n \<and> list_ex (\<lambda>r. nr_id r = nw_router n \<and> nw_method n \<in> set (nr_methods r)) (nd_routers db))
        (nd_networks db)
    \<and> list_all (\<lambda>a. address_row_ok (la_address a)) (nd_addresses db)
    \<and> length (filter (\<lambda>n. contained_eq (ip, 32) (nw_cidr n)) (nd_networks db)) \<le> 1"
proof -
  from reachable_inv [OF assms] have inv: "catalog_ok db" "list_all sp_checks (nd_provisionings db)"
    by (auto simp: net_inv_def list_all_iff)
  have d: "distinct (nd_networks db)" using inv(1) by (simp add: catalog_ok_def distinct_map)
  have "length (filter (\<lambda>n. contained_eq (ip, 32) (nw_cidr n)) (nd_networks db)) \<le> 1"
  proof (cases "filter (\<lambda>n. contained_eq (ip, 32) (nw_cidr n)) (nd_networks db)")
    case (Cons m rest)
    then have "m \<in> set (nd_networks db)" "contained_eq (ip, 32) (nw_cidr m)"
      by (auto simp: filter_eq_Cons_iff)
    then have "filter (\<lambda>n. contained_eq (ip, 32) (nw_cidr n)) (nd_networks db) = [m]"
      using one_network [OF inv(1)] by (intro filter_single [OF d]) auto
    then show ?thesis by simp
  qed simp
  with inv show ?thesis by (simp add: catalog_ok_def list_all_iff list_ex_iff)
qed

theorem network_rows_typed_witness:
  "list_all sp_checks (nd_provisionings demo_active) \<and> map sp_certifiedBy (nd_provisionings demo_active) = [Some ''A2'']"
proof
  show "list_all sp_checks (nd_provisionings demo_active)" using network_rows_typed [OF demo_active_reachable] by blast
  show "map sp_certifiedBy (nd_provisionings demo_active) = [Some ''A2'']" by code_simp
qed

section \<open>Occupancy\<close>

lemma lawful_candidates:
  assumes "nw_from n \<le> nw_to n"
  shows "set (filter (eligible_ip n db) (candidates n)) = {ip. lawful_ip n db ip}"
  using set_candidates [OF assms] protected_is_local [of n _ db] by (auto simp: eligible_ip_def lawful_ip_def)

lemma length_split_status:
  "count_status k IP_RESERVED db + count_status k IP_ACTIVE db
    = length (filter (\<lambda>a. ia_live a \<and> ia_network a = k) (nd_assignments db))"
proof -
  have "length (filter (\<lambda>a. ia_network a = k \<and> ia_status a = IP_RESERVED) xs)
      + length (filter (\<lambda>a. ia_network a = k \<and> ia_status a = IP_ACTIVE) xs)
      = length (filter (\<lambda>a. ia_live a \<and> ia_network a = k) xs)" for xs
    by (induction xs) (auto simp: ia_live_def)
  then show ?thesis by (simp add: count_status_def)
qed

lemma live_in_network:
  assumes inv: "net_inv db" and n: "n \<in> set (nd_networks db)" "nw_id n = k"
  shows "ia_ip ` set (filter (\<lambda>a. ia_live a \<and> ia_network a = k) (nd_assignments db)) = {ip. lawful_ip n db ip \<and> live_ip ip db}"
proof -
  from inv have cat: "catalog_ok db" and law: "leases_lawful db" by (auto simp: net_inv_def)
  have row: "network_row_ok m" if "m \<in> set (nd_networks db)" for m using cat that by (simp add: catalog_ok_def)
  have ids: "m = n" if "m \<in> set (nd_networks db)" "nw_id m = k" for m
    using cat that n by (auto simp: catalog_ok_def distinct_map inj_on_def)
  show ?thesis
  proof (intro set_eqI iffI)
    fix ip assume "ip \<in> ia_ip ` set (filter (\<lambda>a. ia_live a \<and> ia_network a = k) (nd_assignments db))"
    then obtain a where a: "a \<in> set (nd_assignments db)" "ia_live a" "ia_network a = k" "ia_ip a = ip" by auto
    from law a obtain m where "m \<in> set (nd_networks db)" "nw_id m = k" "lawful_ip m db ip" by (auto simp: leases_lawful_def)
    with ids a show "ip \<in> {ip. lawful_ip n db ip \<and> live_ip ip db}" by (auto simp: live_ip_def list_ex_iff)
  next
    fix ip assume "ip \<in> {ip. lawful_ip n db ip \<and> live_ip ip db}"
    then obtain a where ip: "lawful_ip n db ip" and a: "a \<in> set (nd_assignments db)" "ia_live a" "ia_ip a = ip"
      by (auto simp: live_ip_def list_ex_iff)
    from law a obtain m where m: "m \<in> set (nd_networks db)" "nw_id m = ia_network a" "lawful_ip m db ip"
      by (auto simp: leases_lawful_def)
    from one_network [OF cat m(1) n(1) lawful_in_block [OF row [OF m(1)] m(3)] lawful_in_block [OF row [OF n(1)] ip]]
    have "m = n" .
    with m n a show "ip \<in> ia_ip ` set (filter (\<lambda>a. ia_live a \<and> ia_network a = k) (nd_assignments db))" by force
  qed
qed

lemma find_sorted_least:
  "sorted xs \<Longrightarrow> find P xs = Some x \<Longrightarrow> y \<in> set xs \<Longrightarrow> P y \<Longrightarrow> x \<le> y" for x :: "'a::linorder"
  by (induction xs) (auto split: if_splits)

lemma sorted_candidates:
  assumes "nw_from n \<le> nw_to n"
  shows "sorted (candidates n)"
proof -
  let ?m = "Suc (unat (nw_to n - nw_from n))"
  have u: "unat (candidates n ! i) = unat (nw_from n) + i" if "i < ?m" for i
    using unat_candidate [OF assms, of i] that by (simp add: candidates_def nth_append less_Suc_eq_le del: upt_Suc)
  show ?thesis
    by (rule sorted_iff_nth_mono [THEN iffD2])
      (use u in \<open>auto simp: word_le_nat_alt candidates_def simp del: upt_Suc\<close>)
qed

text \<open>
  C23. In every reachable state the occupancy of an active network is exact: the reserved, the
  active and the free addresses add up to the assignable ones, without the subtraction being
  cut off at zero, and the free ones are those that are lawful and not in use anywhere; a
  reservation without a requested address fails exactly when there is no free one, and else
  takes the lowest.
\<close>

theorem occupancy_exact:
  assumes "net_reachable db" and "find_active_network k db = Some n" and "assertActiveNetwork k db = Inr ()"
  shows "\<exists>oc. readOccupancy k db = Inr oc \<and> oc_total oc = oc_reserved oc + oc_active oc + oc_free oc
    \<and> oc_free oc = card {ip. lawful_ip n db ip \<and> \<not> live_ip ip db}
    \<and> (case reserveIp k p None j db of
         Inl e \<Rightarrow> oc_free oc = 0 \<and> e = Conflict ''NETWORK_POOL_EXHAUSTED''
       | Inr (ip, db') \<Rightarrow> is_arg_min (\<lambda>ip. ip) (\<lambda>ip. lawful_ip n db ip \<and> \<not> live_ip ip db) ip)"
proof -
  note inv = reachable_inv [OF assms(1)]
  then have cat: "catalog_ok db" and law: "leases_lawful db" and ok: "leases_of db" by (auto simp: net_inv_def)
  from find_active_networkD [OF assms(2)] have n: "n \<in> set (nd_networks db)" "nw_id n = k" by auto
  have range: "nw_from n \<le> nw_to n" using net_inv_ranges [OF inv] n(1) by (simp add: ranges_ok_def)
  have fn: "find_network k db = Some n"
    unfolding find_network_def using cat n find_distinct [of nw_id "nd_networks db" n] by (simp add: catalog_ok_def)
  let ?L = "{ip. lawful_ip n db ip}" and ?U = "{ip. lawful_ip n db ip \<and> live_ip ip db}"
  let ?F = "{ip. lawful_ip n db ip \<and> \<not> live_ip ip db}"
  have total: "length (filter (eligible_ip n db) (candidates n)) = card ?L"
    using distinct_card [OF distinct_filter [OF distinct_candidates [OF range]]] lawful_candidates [OF range] by metis
  have "distinct (map ia_ip (filter (\<lambda>a. ia_live a \<and> ia_network a = k) (nd_assignments db)))"
    using leases_distinct(1,5) [OF ok] by (auto simp: distinct_map inj_on_def)
  from distinct_card [OF this] have used: "count_status k IP_RESERVED db + count_status k IP_ACTIVE db = card ?U"
    unfolding length_split_status using live_in_network [OF inv n] by simp
  have fin: "finite ?L" by simp
  have "?F = ?L - ?U" by auto
  moreover have "?U \<subseteq> ?L" by auto
  ultimately have card: "card ?F = card ?L - card ?U" "card ?U \<le> card ?L"
    using fin by (simp_all add: card_Diff_subset card_mono finite_subset)
  have "\<not> list_ex (\<lambda>a. ia_network a = k \<and> ia_live a \<and> is_local (ia_ip a) db) (nd_assignments db)"
    using law by (auto simp: list_ex_iff leases_lawful_def lawful_ip_def)
  then have oc: "readOccupancy k db = Inr \<lparr>oc_total = card ?L, oc_reserved = count_status k IP_RESERVED db,
      oc_active = count_status k IP_ACTIVE db, oc_free = card ?F\<rparr>"
    using card used total fn by (simp add: readOccupancy_def Let_def)
  have choice: "find (\<lambda>ip. eligible_ip n db ip \<and> \<not> live_ip ip db) (candidates n) = None \<longleftrightarrow> ?F = {}"
    using lawful_candidates [OF range, of db] by (auto simp: find_None_iff)
  have least: "is_arg_min (\<lambda>ip. ip) (\<lambda>ip. lawful_ip n db ip \<and> \<not> live_ip ip db) ip \<and> \<not> live_ip ip db"
    if f: "find (\<lambda>ip. eligible_ip n db ip \<and> \<not> live_ip ip db) (candidates n) = Some ip" for ip
  proof -
    have mem: "ip' \<in> set (candidates n) \<and> eligible_ip n db ip' \<longleftrightarrow> lawful_ip n db ip'" for ip'
      using lawful_candidates [OF range, of db] by auto
    from find_SomeD [OF f] have "lawful_ip n db ip" "\<not> live_ip ip db" using mem by auto
    moreover have "ip \<le> ip'" if "lawful_ip n db ip'" "\<not> live_ip ip' db" for ip'
      using find_sorted_least [OF sorted_candidates [OF range] f, of ip'] mem that by blast
    ultimately show ?thesis by (auto simp: is_arg_min_linorder)
  qed
  have res: "case reserveIp k p None j db of
         Inl e \<Rightarrow> card ?F = 0 \<and> e = Conflict ''NETWORK_POOL_EXHAUSTED''
       | Inr (ip, db') \<Rightarrow> is_arg_min (\<lambda>ip. ip) (\<lambda>ip. lawful_ip n db ip \<and> \<not> live_ip ip db) ip"
  proof (cases "find (\<lambda>ip. eligible_ip n db ip \<and> \<not> live_ip ip db) (candidates n)")
    case None
    with choice have "?F = {}" by blast
    with None assms(2,3) show ?thesis by (simp add: reserveIp_def numeral_2_eq_2 findNextAvailableIp_def)
  next
    case (Some ip)
    from least [OF Some] Some assms(2,3) show ?thesis
      by (simp add: reserveIp_def numeral_2_eq_2 findNextAvailableIp_def)
  qed
  have add: "card ?L = count_status k IP_RESERVED db + count_status k IP_ACTIVE db + card ?F"
    using used card by simp
  show ?thesis
    by (rule exI, intro conjI, rule oc, simp_all only: IpamOccupancy.simps) (fact add, fact res)
qed

text \<open>Of four assignable addresses one is in use, and the next is 10.0.0.4.\<close>

theorem occupancy_exact_witness:
  "readOccupancy ''N1'' demo_active = Inr \<lparr>oc_total = 4, oc_reserved = 0, oc_active = 1, oc_free = 3\<rparr>
    \<and> is_arg_min (\<lambda>ip. ip) (\<lambda>ip. lawful_ip (hd (nd_networks demo_active)) demo_active ip \<and> \<not> live_ip ip demo_active) 0x0A000004"
proof
  show "readOccupancy ''N1'' demo_active = Inr \<lparr>oc_total = 4, oc_reserved = 0, oc_active = 1, oc_free = 3\<rparr>" by code_simp
  have "nd_networks demo_active \<noteq> []" by code_simp
  moreover have "map nw_id (nd_networks demo_active) = [''N1'']" "map nw_status (nd_networks demo_active) = [CATALOG_ACTIVE]"
    by code_simp+
  ultimately have n: "find_active_network ''N1'' demo_active = Some (hd (nd_networks demo_active))"
    by (cases "nd_networks demo_active") (auto simp: find_active_network_def)
  have "assertActiveNetwork ''N1'' demo_active = Inr ()" by code_simp
  note oc = occupancy_exact [OF demo_active_reachable n this, of "''P2''" "''L2''"]
  have "map_sum id fst (reserveIp ''N1'' ''P2'' None ''L2'' demo_active) = Inr 0x0A000004" by code_simp
  then obtain d where "reserveIp ''N1'' ''P2'' None ''L2'' demo_active = Inr (0x0A000004, d)"
    by (cases "reserveIp ''N1'' ''P2'' None ''L2'' demo_active") auto
  with oc show "is_arg_min (\<lambda>ip. ip) (\<lambda>ip. lawful_ip (hd (nd_networks demo_active)) demo_active ip
      \<and> \<not> live_ip ip demo_active) 0x0A000004" by auto
qed

section \<open>The two workers\<close>

lemma latest_is_open:
  assumes ok: "leases_of db" and s: "s \<in> set (nd_provisionings db)" "sp_status s \<in> set sts" "SP_RELEASED \<notin> set sts"
  shows "latest_of_order (sp_order s) sts db = Some s"
proof -
  have "latest_of_order (sp_order s) sts db \<noteq> None"
    using s(1,2) by (auto simp: latest_of_order_def find_None_iff)
  then obtain t where t: "latest_of_order (sp_order s) sts db = Some t" by blast
  from latest_of_orderD [OF t] s(3) have "t \<in> set (nd_provisionings db)" "sp_order t = sp_order s" "sp_status t \<noteq> SP_RELEASED"
    by auto
  moreover have "sp_status s \<noteq> SP_RELEASED" using s(2,3) by auto
  ultimately have "t = s" using inj_onD [OF leases_distinct(6) [OF ok], of t s] s(1) by simp
  with t show ?thesis by simp
qed

lemma find_open_row:
  assumes ok: "leases_of db" and s: "s \<in> set (nd_provisionings db)" "P s"
  shows "find (\<lambda>t. sp_id t = sp_id s \<and> P t) (nd_provisionings db) = Some s"
proof -
  have "find (\<lambda>t. sp_id t = sp_id s \<and> P t) (nd_provisionings db) \<noteq> None" using s by (auto simp: find_None_iff)
  then obtain t where t: "find (\<lambda>t. sp_id t = sp_id s \<and> P t) (nd_provisionings db) = Some t" by blast
  from find_SomeD [OF t] have "t = s" using inj_onD [OF leases_distinct(4) [OF ok]] s(1) by blast
  with t show ?thesis by simp
qed

lemma open_inbox_reads [simp]:
  "assertActiveNetwork k (open_inbox event db) = assertActiveNetwork k db"
  "live_assignment p (open_inbox event db) = live_assignment p db"
  "assertAssignmentNotLocallyProtected ip (open_inbox event db) = assertAssignmentNotLocallyProtected ip db"
proof -
  obtain x where x: "open_inbox event db = db\<lparr>nd_inbox := x\<rparr>" using open_inbox_eq by blast
  show "assertActiveNetwork k (open_inbox event db) = assertActiveNetwork k db"
    "live_assignment p (open_inbox event db) = live_assignment p db"
    "assertAssignmentNotLocallyProtected ip (open_inbox event db) = assertAssignmentNotLocallyProtected ip db"
    unfolding x by (simp_all add: assertActiveNetwork_def find_active_network_def find_router_def live_assignment_def
      assertAssignmentNotLocallyProtected_def is_local_def cong: option.case_cong)
qed

text \<open>The tables that a worker decides on.\<close>

definition decided :: "net_db \<Rightarrow> service_provisioning list \<times> ip_assignment list" where
  "decided db = (nd_provisionings db, nd_assignments db)"

lemma decided_simps [simp]:
  "decided (mark_processed now event db) = decided db" "decided (open_inbox event db) = decided db"
  "fst (activate_service now a s (open_inbox event db)) = fst (activate_service now a s db)"
  "decided (snd (activate_service now a s (open_inbox event db))) = decided (snd (activate_service now a s db))"
  "decided (fail_service s (open_inbox event db)) = decided (fail_service s db)"
  by (simp_all add: decided_def mark_processed_def activate_service_def fail_service_def Let_def)

text \<open>
  C25. The event of an executed installation and the periodic reconciliation of its order do
  the same: on every reachable state, for a provisioning that is reserved or certified and an
  event that was not seen before, both fail, or both end in the same provisionings and
  addresses and emit the same activation.
\<close>

theorem event_agrees_with_reconciliation:
  assumes "net_reachable db" and "s \<in> set (nd_provisionings db)"
    and "sp_status s = SP_RESERVED \<or> sp_status s = SP_CERTIFIED"
    and "executed_event event" and "ne_executionOrderId event = sp_order s" and "find_inbox (ne_eventId event) db = None"
    and "executed_snapshot snapshot"
  shows "(case applyEvent rows now event db of Inl _ \<Rightarrow> None | Inr (act, db1) \<Rightarrow> Some (act, decided db1))
    = (case reconcileOne now (sp_id s) snapshot db of Inl _ \<Rightarrow> None | Inr (act, db1) \<Rightarrow> Some (act, decided db1))"
proof -
  from reachable_inv [OF assms(1)] have ok: "leases_of db" by (simp add: net_inv_def)
  have l: "latest_of_order (sp_order s) [SP_RESERVED, SP_CERTIFIED, SP_ACTIVE] db = Some s"
    by (rule latest_is_open [OF ok assms(2)]) (use assms(3) in auto)
  have f: "find (\<lambda>t. sp_id t = sp_id s \<and> (sp_status t = SP_RESERVED \<or> sp_status t = SP_CERTIFIED)) (nd_provisionings db) = Some s"
    by (rule find_open_row [OF ok assms(2)]) (rule assms(3))
  show ?thesis
  proof (cases "sp_status s = SP_CERTIFIED")
    case False
    then show ?thesis using assms(3-7) l f by (simp add: applyEvent_def reconcileOne_def Let_def)
  next
    case True
    from live_assignment_holds [OF ok assms(2)] True obtain a where a: "live_assignment (sp_id s) db = Some a" by auto
    show ?thesis
      using True assms(4-7) l f a
      by (cases "assertActiveNetwork (sp_network s) db"; cases "assertAssignmentNotLocallyProtected (ia_ip a) db")
        (simp_all add: applyEvent_def reconcileOne_def Let_def lift_error_def case_prod_beta)
  qed
qed

theorem event_agrees_with_reconciliation_witness:
  "map_sum id (\<lambda>(act, d). map_option ae_provisioning act) (reconcileOne 5 ''P1''
      (installation\<lparr>os_status := ORDER_COMPLETED, os_result := Some EXECUTED\<rparr>) demo_certified) = Inr (Some ''P1'')
    \<and> (case applyEvent 1 5 demo_event demo_certified of Inl _ \<Rightarrow> None | Inr (act, db1) \<Rightarrow> Some (act, decided db1))
      = (case reconcileOne 5 ''P1'' (installation\<lparr>os_status := ORDER_COMPLETED, os_result := Some EXECUTED\<rparr>) demo_certified of
           Inl _ \<Rightarrow> None | Inr (act, db1) \<Rightarrow> Some (act, decided db1))"
proof
  show "map_sum id (\<lambda>(act, d). map_option ae_provisioning act) (reconcileOne 5 ''P1''
      (installation\<lparr>os_status := ORDER_COMPLETED, os_result := Some EXECUTED\<rparr>) demo_certified) = Inr (Some ''P1'')"
    by code_simp
  have "length (nd_provisionings demo_certified) = 1" by code_simp
  then obtain s where s: "nd_provisionings demo_certified = [s]" by (metis length_0_conv length_Suc_conv One_nat_def)
  have "map sp_id (nd_provisionings demo_certified) = [''P1'']" "map sp_order (nd_provisionings demo_certified) = [''O1'']"
    "map sp_status (nd_provisionings demo_certified) = [SP_CERTIFIED]" by code_simp+
  with s have f: "sp_id s = ''P1''" "sp_order s = ''O1''" "sp_status s = SP_CERTIFIED" by simp_all
  have i: "find_inbox (ne_eventId demo_event) demo_certified = None" by code_simp
  show "(case applyEvent 1 5 demo_event demo_certified of Inl _ \<Rightarrow> None | Inr (act, db1) \<Rightarrow> Some (act, decided db1))
      = (case reconcileOne 5 ''P1'' (installation\<lparr>os_status := ORDER_COMPLETED, os_result := Some EXECUTED\<rparr>) demo_certified of
           Inl _ \<Rightarrow> None | Inr (act, db1) \<Rightarrow> Some (act, decided db1))"
    using event_agrees_with_reconciliation [OF demo_certified_reachable, of s demo_event
        "installation\<lparr>os_status := ORDER_COMPLETED, os_result := Some EXECUTED\<rparr>" 1 5] s f i
    by (simp add: executed_event_def executed_snapshot_def demo_event_def installation_def)
qed

text \<open>
  C26. A new event for the order of an active service is recorded as processed and changes
  nothing else, when the driver hands back the row of the insert. When it hands back no row,
  as it does for an \<open>INSERT\<close> without \<open>RETURNING\<close>, every such event is taken for the retry of a
  pending activation, also the annulment of the order, and activates the service once more.
\<close>

theorem active_service_event:
  assumes "net_reachable db" and "s \<in> set (nd_provisionings db)" and "sp_status s = SP_ACTIVE"
    and "ne_executionOrderId event = sp_order s" and "find_inbox (ne_eventId event) db = None"
  shows "applyEvent (Suc n) now event db = Inr (None, mark_processed now event (open_inbox event db))
    \<and> applyEvent 0 now event db = Inr (Some (activationEvent s), open_inbox event db)"
proof -
  from reachable_inv [OF assms(1)] have ok: "leases_of db" and law: "leases_lawful db" by (auto simp: net_inv_def)
  have l: "latest_of_order (sp_order s) [SP_RESERVED, SP_CERTIFIED, SP_ACTIVE] db = Some s"
    by (rule latest_is_open [OF ok assms(2)]) (use assms(3) in auto)
  from live_assignment_holds [OF ok assms(2)] assms(3) obtain a where
    a: "live_assignment (sp_id s) db = Some a" "a \<in> set (nd_assignments db)" "holds s a" by auto
  with law holds_live [OF a(3)] have "\<not> is_local (ia_ip a) db" by (auto simp: leases_lawful_def lawful_ip_def)
  then have "assertAssignmentNotLocallyProtected (ia_ip a) db = Inr ()" by (simp add: assertAssignmentNotLocallyProtected_def)
  with assms(3-5) l a(1) show ?thesis by (simp add: applyEvent_def Let_def lift_error_def)
qed

theorem active_service_event_witness:
  "map_sum id (\<lambda>(act, d). map_option ae_provisioning act)
      (applyEvent 0 9 (demo_event\<lparr>ne_eventId := ''X2'', ne_eventType := ExecutionOrderAnnulledV1, ne_result := None\<rparr>) demo_active)
    = Inr (Some ''P1'')"
proof -
  let ?e = "demo_event\<lparr>ne_eventId := ''X2'', ne_eventType := ExecutionOrderAnnulledV1, ne_result := None\<rparr>"
  have "length (nd_provisionings demo_active) = 1" by code_simp
  then obtain s where s: "nd_provisionings demo_active = [s]" by (metis length_0_conv length_Suc_conv One_nat_def)
  have "map sp_id (nd_provisionings demo_active) = [''P1'']" "map sp_order (nd_provisionings demo_active) = [''O1'']"
    "map sp_status (nd_provisionings demo_active) = [SP_ACTIVE]" by code_simp+
  with s have f: "sp_id s = ''P1''" "sp_order s = ''O1''" "sp_status s = SP_ACTIVE" by simp_all
  have "find_inbox ''X2'' demo_active = None" by code_simp
  then have "applyEvent 0 9 ?e demo_active = Inr (Some (activationEvent s), open_inbox ?e demo_active)"
    using active_service_event [OF demo_active_reachable, of s ?e 0 9] s f by (simp add: demo_event_def)
  then show ?thesis using f by (simp add: activationEvent_def)
qed

end
