(* ===== verification/StockTables.thy ===== *)
theory StockTables
  imports Complex_Main Prelude
begin

text \<open>
  The tables of the inventory module in one tenant schema that the stock ledger reads and
  writes: items, locations, lots, balances, movements and their lines, serialized assets,
  their lifecycle events and loans (migrations 047, 073, 081 and 129, entities under
  \<open>packages/database/src/entities\<close>), and the quantities they hold. Rows stand in the order
  of their creation. A quantity at rest is a \<open>numeric(12,2)\<close>, an \<^typ>\<open>int\<close> of hundredths; a
  quantity in flight is a JavaScript \<open>number\<close>, modelled by the exact rational it denotes.
  Tenant identifier, clock columns that no code reads back and the surrogate key of a balance
  are left out.
\<close>

section \<open>Enumerations\<close>

datatype SerializedAssetStatus =
    AS_ORDERED | AS_IN_RECEIVING | AS_AVAILABLE | AS_ASSIGNED_TO_TECHNICIAN | AS_INSTALLED_COMODATO | AS_SOLD
  | AS_INTERNAL_CONSUMED | AS_IN_TRANSIT | AS_IN_TESTING | AS_AVAILABLE_REFURBISHED | AS_IN_REPAIR
  | AS_WRITTEN_OFF | AS_LOST

datatype StockMovementOrigin =
    OR_PURCHASE_RECEIPT | OR_TRANSFER | OR_EXECUTION_ORDER | OR_EXECUTION_ORDER_REVERSAL | OR_SALE
  | OR_INTERNAL_CONSUMPTION | OR_RETURN | OR_REFURBISH | OR_ADJUSTMENT | OR_WRITE_OFF | OR_COUNTER_PURCHASE

datatype StockLocationType =
    LT_MAIN_WAREHOUSE | LT_MOBILE_TECHNICIAN | LT_MOBILE_CREW | LT_CUSTOMER_SITE | LT_OFFICE_STOCK
  | LT_NODE_STOCK | LT_QUARANTINE | LT_REPAIR | LT_SCRAP | LT_INTERNAL_CONSUMPTION

datatype StockLocationStatus = LS_ACTIVE | LS_INACTIVE | LS_ARCHIVED

datatype InventoryResponsibleType = RT_WAREHOUSE | RT_TECHNICIAN | RT_CREW | RT_CUSTOMER | RT_NONE

datatype InventoryDisposition =
    DI_INSTALLED_AT_CUSTOMER | DI_INTERNAL_CONSUMPTION | DI_RETURNED_TO_TECHNICIAN_STOCK
  | DI_RETURNED_TO_WAREHOUSE | DI_DAMAGED_OR_LOST

datatype ExecutionOrderItemAction = AC_INSTALL | AC_CONSUME | AC_RETURN | AC_REMOVE

datatype WriteOffReason = WR_DAMAGED | WR_OBSOLETE | WR_LOST | WR_STOLEN | WR_EXPIRED | WR_OTHER

datatype StockBalanceCondition = BC_NEW | BC_REFURBISHED | BC_DAMAGED

datatype InventoryTrackingMode = TM_CONSUMABLE | TM_SERIALIZED | TM_FIXED_ASSET

datatype InventoryItemStatus = IS_ACTIVE | IS_INACTIVE | IS_DISCONTINUED

datatype AssetLifecycleEventType =
    EV_RECEIVED | EV_TRANSFERRED | EV_INSTALLED | EV_RETURNED | EV_REPAIRED | EV_REFURBISHED | EV_SOLD
  | EV_CONSUMED | EV_WRITTEN_OFF | EV_STATUS_CHANGED

datatype StockAdjustmentReason =
    AR_CYCLE_COUNT | AR_DAMAGE | AR_INITIAL_LOAD | AR_CORRECTION | AR_LOSS | AR_FOUND | AR_OTHER

text \<open>The text of a value, where the code interpolates it into a key or a column.\<close>

fun item_action_text :: "ExecutionOrderItemAction \<Rightarrow> string" where
  "item_action_text AC_INSTALL = ''INSTALL''"
| "item_action_text AC_CONSUME = ''CONSUME''"
| "item_action_text AC_RETURN = ''RETURN''"
| "item_action_text AC_REMOVE = ''REMOVE''"

fun write_off_text :: "WriteOffReason \<Rightarrow> string" where
  "write_off_text WR_DAMAGED = ''DAMAGED''"
| "write_off_text WR_OBSOLETE = ''OBSOLETE''"
| "write_off_text WR_LOST = ''LOST''"
| "write_off_text WR_STOLEN = ''STOLEN''"
| "write_off_text WR_EXPIRED = ''EXPIRED''"
| "write_off_text WR_OTHER = ''OTHER''"

fun adjustment_text :: "StockAdjustmentReason \<Rightarrow> string" where
  "adjustment_text AR_CYCLE_COUNT = ''CYCLE_COUNT''"
| "adjustment_text AR_DAMAGE = ''DAMAGE''"
| "adjustment_text AR_INITIAL_LOAD = ''INITIAL_LOAD''"
| "adjustment_text AR_CORRECTION = ''CORRECTION''"
| "adjustment_text AR_LOSS = ''LOSS''"
| "adjustment_text AR_FOUND = ''FOUND''"
| "adjustment_text AR_OTHER = ''OTHER''"

section \<open>Rows\<close>

record stock_item =
  si_id :: string
  si_tracking :: InventoryTrackingMode
  si_status :: InventoryItemStatus
  si_unitOfMeasure :: string
  si_purchaseUnit :: "string option"
  si_baseCost :: rat
  si_standardCost :: rat
  si_lastPurchaseCost :: "rat option"
  si_averageCost :: rat

record stock_location =
  sl_id :: string
  sl_code :: string
  sl_name :: string
  sl_type :: StockLocationType
  sl_status :: StockLocationStatus
  sl_responsible :: "string option"
  sl_maxCapacity :: "int option"

record stock_lot =
  lo_id :: string
  lo_item :: string
  lo_expiry :: "string option"
  lo_createdAt :: int

record stock_balance =
  sb_item :: string
  sb_location :: string
  sb_lot :: "string option"
  sb_condition :: StockBalanceCondition
  sb_onHand :: int
  sb_reserved :: int

record stock_movement =
  mv_id :: string
  mv_number :: string
  mv_origin :: StockMovementOrigin
  mv_originContext :: string
  mv_originRefId :: "string option"
  mv_idempotencyKey :: string
  mv_notes :: "string option"
  mv_actor :: string
  mv_reversedBy :: "string option"
  mv_isReversal :: bool

record stock_movement_line =
  ml_id :: string
  ml_movement :: string
  ml_item :: string
  ml_location :: string
  ml_lot :: "string option"
  ml_asset :: "string option"
  ml_quantity :: int
  ml_unitCost :: "rat option"

record serialized_asset =
  sa_id :: string
  sa_item :: string
  sa_lot :: "string option"
  sa_serial :: "string option"
  sa_normalizedSerial :: "string option"
  sa_normalizedMac :: "string option"
  sa_status :: SerializedAssetStatus
  sa_location :: "string option"
  sa_responsibleType :: InventoryResponsibleType
  sa_responsibleRef :: "string option"
  sa_subscriber :: "string option"
  sa_contract :: "string option"

record lifecycle_event =
  le_asset :: string
  le_type :: AssetLifecycleEventType
  le_from :: "SerializedAssetStatus option"
  le_to :: "SerializedAssetStatus option"
  le_location :: "string option"
  le_responsibleRef :: "string option"
  le_notes :: "string option"
  le_actor :: "string option"
  le_movement :: "string option"

record asset_loan =
  al_id :: string
  al_asset :: string
  al_subscriber :: string
  al_contract :: "string option"
  al_installedAt :: int
  al_removedAt :: "int option"
  al_executionOrder :: "string option"
  al_movement :: "string option"

record stock_db =
  sd_items :: "stock_item list"
  sd_locations :: "stock_location list"
  sd_lots :: "stock_lot list"
  sd_balances :: "stock_balance list"
  sd_movements :: "stock_movement list"
  sd_lines :: "stock_movement_line list"
  sd_assets :: "serialized_asset list"
  sd_events :: "lifecycle_event list"
  sd_loans :: "asset_loan list"

text \<open>
  What a transaction takes from outside: the identifiers PostgreSQL generates for the rows it
  inserts (the \<open>n\<close>-th line has \<open>se_line n\<close>), the clock and the acting user.
\<close>

record stock_env =
  se_movement :: string
  se_line :: "nat \<Rightarrow> string"
  se_loan :: string
  se_location :: string
  se_now :: int
  se_actor :: string

section \<open>Quantities\<close>

text \<open>\<open>Math.round(x)\<close>: half-way cases go up.\<close>

definition math_round :: "rat \<Rightarrow> int" where
  "math_round x = floor (x + 1 / 2)"

text \<open>\<open>x.toFixed(k)\<close> read as a number of units \<open>10 ^ -k\<close>: half-way cases go away from zero.\<close>

definition to_fixed :: "nat \<Rightarrow> rat \<Rightarrow> int" where
  "to_fixed k x = (if x < 0 then - math_round (- x * 10 ^ k) else math_round (x * 10 ^ k))"

text \<open>\<open>toNumeric\<close> on a stored quantity.\<close>

definition toNumeric :: "int \<Rightarrow> rat" where
  "toNumeric n = of_int n / 100"

definition roundQty :: "rat \<Rightarrow> rat" where
  "roundQty x = of_int (math_round (x * 100)) / 100"

definition toQuantity :: "rat \<Rightarrow> int" where
  "toQuantity x = to_fixed 2 x"

text \<open>A \<open>numeric(12,2)\<close> column rejects what needs more than ten integer digits.\<close>

definition fits_numeric :: "int \<Rightarrow> bool" where
  "fits_numeric n \<longleftrightarrow> \<bar>n\<bar> < 10 ^ 12"

text \<open>A quantity that two decimals hold exactly.\<close>

definition two_decimals :: "rat \<Rightarrow> bool" where
  "two_decimals x \<longleftrightarrow> of_int (floor (x * 100)) = x * 100"

lemma two_decimals_iff: "two_decimals x \<longleftrightarrow> (\<exists>n. x = of_int n / 100)"
proof
  assume "two_decimals x"
  then have "x = of_int (floor (x * 100)) / 100" unfolding two_decimals_def by linarith
  then show "\<exists>n. x = of_int n / 100" by blast
next
  assume "\<exists>n. x = of_int n / 100"
  then obtain n where "x * 100 = of_int n" by fastforce
  then show "two_decimals x" unfolding two_decimals_def by (simp only: floor_of_int)
qed

lemma two_decimals_toNumeric [simp]: "two_decimals (toNumeric n)"
  by (auto simp: two_decimals_iff toNumeric_def)

lemma two_decimals_of_int [simp]: "two_decimals (of_int n)"
  unfolding two_decimals_iff by (rule exI [of _ "100 * n"]) simp

lemma two_decimals_numeral [simp]: "two_decimals 0" "two_decimals 1" "two_decimals (numeral k)"
  using two_decimals_of_int [of 0] two_decimals_of_int [of 1] two_decimals_of_int [of "numeral k"] by simp_all

lemma two_decimals_minus [simp]: "two_decimals (- x) \<longleftrightarrow> two_decimals x"
proof -
  have "two_decimals (- y)" if y: "two_decimals y" for y
  proof -
    obtain n where "y = of_int n / 100" using y unfolding two_decimals_iff by blast
    then have "- y = of_int (- n) / 100" by simp
    then show ?thesis unfolding two_decimals_iff by blast
  qed
  from this [of x] this [of "- x"] show ?thesis by auto
qed

lemma two_decimals_add: "two_decimals x \<Longrightarrow> two_decimals y \<Longrightarrow> two_decimals (x + y)"
  by (auto simp: two_decimals_iff simp flip: add_divide_distrib of_int_add)

lemma two_decimals_diff: "two_decimals x \<Longrightarrow> two_decimals y \<Longrightarrow> two_decimals (x - y)"
  using two_decimals_add [of x "- y"] by simp

lemma math_round_of_int [simp]: "math_round (of_int n) = n"
  unfolding math_round_def by linarith

lemma math_round_add_of_int: "math_round (of_int n + x) = n + math_round x"
  unfolding math_round_def by (metis add.assoc floor_add_int add.commute)

lemma math_round_mono: "x \<le> y \<Longrightarrow> math_round x \<le> math_round y"
  by (simp add: math_round_def floor_mono)

lemma math_round_zero [simp]: "math_round 0 = 0"
  using math_round_of_int [of 0] by simp

text \<open>On two decimals neither rounding changes a quantity, and \<open>toQuantity\<close> reads it back.\<close>

lemma toNumeric_hundredths [simp]: "toNumeric n * 100 = of_int n"
  by (simp add: toNumeric_def)

lemma roundQty_two_decimals: "two_decimals x \<Longrightarrow> roundQty x = x"
  by (auto simp: two_decimals_iff roundQty_def)

lemma toQuantity_toNumeric [simp]: "toQuantity (toNumeric n) = n"
proof -
  have "- toNumeric n * 10 ^ 2 = of_int (- n)" "toNumeric n * 10 ^ 2 = of_int n"
    by (simp_all add: toNumeric_def)
  then show ?thesis by (simp only: toQuantity_def to_fixed_def math_round_of_int minus_minus if_cancel)
qed

lemma roundQty_eq: "roundQty x = toNumeric (math_round (x * 100))"
  by (simp add: roundQty_def toNumeric_def)

lemma two_decimals_toQuantity: "two_decimals x \<Longrightarrow> toNumeric (toQuantity x) = x"
  by (auto simp: two_decimals_iff simp flip: toNumeric_def)

lemma toQuantity_minus: "toQuantity (- x) = - toQuantity x"
  by (simp add: toQuantity_def to_fixed_def)

lemma toQuantity_add:
  "two_decimals x \<Longrightarrow> two_decimals y \<Longrightarrow> toQuantity (x + y) = toQuantity x + toQuantity y"
proof -
  assume "two_decimals x" "two_decimals y"
  then obtain m n where "x = toNumeric m" "y = toNumeric n"
    by (auto simp: two_decimals_iff toNumeric_def)
  moreover have "toNumeric m + toNumeric n = toNumeric (m + n)"
    by (simp add: toNumeric_def add_divide_distrib)
  ultimately show ?thesis by simp
qed

lemma toNumeric_simps [simp]:
  "toNumeric 0 = 0" "toNumeric m + toNumeric n = toNumeric (m + n)" "toNumeric m - toNumeric n = toNumeric (m - n)"
  "- toNumeric n = toNumeric (- n)"
  "toNumeric m \<le> toNumeric n \<longleftrightarrow> m \<le> n" "toNumeric m < toNumeric n \<longleftrightarrow> m < n" "toNumeric m = toNumeric n \<longleftrightarrow> m = n"
  by (simp_all add: toNumeric_def add_divide_distrib diff_divide_distrib divide_le_cancel divide_less_cancel)

lemma toNumeric_sign [simp]:
  "toNumeric n < 0 \<longleftrightarrow> n < 0" "0 < toNumeric n \<longleftrightarrow> 0 < n" "toNumeric n = 0 \<longleftrightarrow> n = 0" "toNumeric n \<le> 0 \<longleftrightarrow> n \<le> 0"
  "0 \<le> toNumeric n \<longleftrightarrow> 0 \<le> n"
  using toNumeric_simps(5) [of n 0] toNumeric_simps(6) [of n 0] toNumeric_simps(7) [of n 0]
    toNumeric_simps(5) [of 0 n] toNumeric_simps(6) [of 0 n] by simp_all

section \<open>Printing a number\<close>

text \<open>
  \<open>String(x)\<close> on a quantity: its decimals without trailing zeros. A double has at most 17
  significant decimals when printed, so the fuel of the fraction is never short on the values
  below \<open>10 ^ 21\<close> and above \<open>10 ^ -7\<close> that JavaScript prints without an exponent.
\<close>

fun fraction_digits :: "nat \<Rightarrow> rat \<Rightarrow> string" where
  "fraction_digits 0 r = []"
| "fraction_digits (Suc n) r =
     (if r = 0 then [] else digit_char (floor (r * 10)) # fraction_digits n (r * 10 - of_int (floor (r * 10))))"

definition show_number :: "rat \<Rightarrow> string" where
  "show_number x =
     (let a = \<bar>x\<bar>; whole = floor a; frac = fraction_digits 24 (a - of_int whole)
      in (if x < 0 then ''-'' else []) @ show_int whole @ (if frac = [] then [] else CHR ''.'' # frac))"

section \<open>Texts\<close>

text \<open>\<open>toUpperCase\<close> below 128, which the serials of equipment are.\<close>

definition upper_char :: "char \<Rightarrow> char" where
  "upper_char c = (if is_lower c then char_of (char_code c - 32) else c)"

definition normalizeSerial :: "string \<Rightarrow> string" where
  "normalizeSerial s = map upper_char (js_trim s)"

text \<open>An optional string in a condition: \<open>null\<close>, \<open>undefined\<close> and the empty string are false.\<close>

definition given :: "string option \<Rightarrow> bool" where
  "given s = (case s of None \<Rightarrow> False | Some t \<Rightarrow> t \<noteq> [])"

lemma given_simps [simp]: "\<not> given None" "given (Some s) \<longleftrightarrow> s \<noteq> []"
  by (simp_all add: given_def)

text \<open>\<open>a ?? b\<close> on optional values, and \<open>a?.trim()\<close>.\<close>

definition or_opt :: "'a option \<Rightarrow> 'a option \<Rightarrow> 'a option" where
  "or_opt a b = (case a of None \<Rightarrow> b | Some _ \<Rightarrow> a)"

lemma or_opt_simps [simp]: "or_opt None b = b" "or_opt (Some a) b = Some a"
  by (simp_all add: or_opt_def)

definition trim_opt :: "string option \<Rightarrow> string option" where
  "trim_opt s = map_option js_trim s"

text \<open>\<open>parts.filter(nonEmpty).join(' | ')\<close>.\<close>

fun join_bar :: "string list \<Rightarrow> string" where
  "join_bar [] = []"
| "join_bar [p] = p"
| "join_bar (p # q # ps) = p @ '' | '' @ join_bar (q # ps)"

definition joined_notes :: "string option list \<Rightarrow> string" where
  "joined_notes parts = join_bar (map the (filter given parts))"

section \<open>Finding and replacing rows\<close>

definition find_item :: "string \<Rightarrow> stock_db \<Rightarrow> stock_item option" where
  "find_item i db = find (\<lambda>r. si_id r = i) (sd_items db)"

definition find_location :: "string \<Rightarrow> stock_db \<Rightarrow> stock_location option" where
  "find_location i db = find (\<lambda>r. sl_id r = i) (sd_locations db)"

definition find_lot :: "string \<Rightarrow> string \<Rightarrow> stock_db \<Rightarrow> stock_lot option" where
  "find_lot item i db = find (\<lambda>r. lo_id r = i \<and> lo_item r = item) (sd_lots db)"

definition find_movement :: "string \<Rightarrow> stock_db \<Rightarrow> stock_movement option" where
  "find_movement i db = find (\<lambda>r. mv_id r = i) (sd_movements db)"

definition find_by_key :: "string \<Rightarrow> stock_db \<Rightarrow> stock_movement option" where
  "find_by_key k db = find (\<lambda>r. mv_idempotencyKey r = k) (sd_movements db)"

definition find_asset :: "string \<Rightarrow> stock_db \<Rightarrow> serialized_asset option" where
  "find_asset i db = find (\<lambda>r. sa_id r = i) (sd_assets db)"

definition find_serial :: "string \<Rightarrow> stock_db \<Rightarrow> serialized_asset option" where
  "find_serial n db = find (\<lambda>r. sa_normalizedSerial r = Some n) (sd_assets db)"

definition lines_of :: "string \<Rightarrow> stock_db \<Rightarrow> stock_movement_line list" where
  "lines_of m db = filter (\<lambda>l. ml_movement l = m) (sd_lines db)"

text \<open>\<open>manager.save\<close> on a row read before: the row of that identity is replaced.\<close>

definition put_asset :: "serialized_asset \<Rightarrow> stock_db \<Rightarrow> stock_db" where
  "put_asset a db = db\<lparr>sd_assets := map (\<lambda>r. if sa_id r = sa_id a then a else r) (sd_assets db)\<rparr>"

definition put_movement :: "stock_movement \<Rightarrow> stock_db \<Rightarrow> stock_db" where
  "put_movement m db = db\<lparr>sd_movements := map (\<lambda>r. if mv_id r = mv_id m then m else r) (sd_movements db)\<rparr>"

definition put_loan :: "asset_loan \<Rightarrow> stock_db \<Rightarrow> stock_db" where
  "put_loan l db = db\<lparr>sd_loans := map (\<lambda>r. if al_id r = al_id l then l else r) (sd_loans db)\<rparr>"

definition known_location :: "string option \<Rightarrow> stock_db \<Rightarrow> bool" where
  "known_location l db = (case l of None \<Rightarrow> True | Some i \<Rightarrow> find_location i db \<noteq> None)"

definition known_lot :: "string option \<Rightarrow> stock_db \<Rightarrow> bool" where
  "known_lot l db = (case l of None \<Rightarrow> True | Some i \<Rightarrow> list_ex (\<lambda>r. lo_id r = i) (sd_lots db))"

definition known_asset :: "string option \<Rightarrow> stock_db \<Rightarrow> bool" where
  "known_asset a db = (case a of None \<Rightarrow> True | Some i \<Rightarrow> find_asset i db \<noteq> None)"

end
