(* ===== verification/StockBalances.thy ===== *)
theory StockBalances
  imports StockTables
begin

text \<open>
  \<open>stock-balance.service.ts\<close>: availability of a tuple (item, location, lot, condition), of all
  lots of an item at a location, the lots in the order they are used up, and the one operation
  that changes a balance. The advisory locks it takes serialise the transactions on a tuple,
  so each call is modelled as one step.
\<close>

section \<open>Errors\<close>

text \<open>
  The exceptions of the ledger: bad requests, missing rows and conflicts by what they complain about,
  the business rejections by their code, and a failed statement of PostgreSQL.
\<close>

datatype stock_reason =
    Negative_Balance | Reserved_Over_On_Hand | Reserved_Below_Zero | Not_Enough_Available | No_Lines | Zero_Quantity
  | No_Item | No_Asset | No_Asset_Identifier | Status_Not_Allowed | No_Handoff | No_Source | No_Destination
  | No_Responsible | Over_Capacity | Other_Item | Not_At_Source | No_Subscriber | No_Main_Warehouse
  | No_Location | Serialized_Adjustment | Site_Unresolved | Duplicate_Serial
  | Invalid_Body | No_Issue | Issue_Closed | Other_Handoff | Not_Main_Warehouse | Same_Location | Destination_Refused
  | Destination_Required | Wrong_Destination | No_Commercial_Reference | No_Cost_Center | No_Reason | Group_Missing
  | Group_Quantity | Repeated_Asset | Not_Dispatchable | Other_Lot | Asset_Committed

datatype rejection_code =
    CUSTODY_INSUFFICIENT | ITEM_INACTIVE | SERIAL_NOT_IN_CUSTODY | REVERSAL_ORIGINAL_NOT_FOUND
  | REVERSAL_ASSET_MOVED | REVERSAL_CUSTODY_INACTIVE | REVERSAL_LOAN_MISMATCH

datatype stock_error =
    Bad_Input stock_reason
  | Missing stock_reason
  | Taken stock_reason
  | Business_Rejection rejection_code
  | Query_Failed

type_synonym 'a stock_result = "stock_error + 'a"

section \<open>Availability\<close>

record stock_availability =
  av_onHand :: rat
  av_reserved :: rat
  av_available :: rat

definition computeAvailable :: "rat \<Rightarrow> rat \<Rightarrow> rat" where
  "computeAvailable onHand reserved = roundQty (onHand - reserved)"

definition availability_of :: "stock_balance list \<Rightarrow> stock_availability" where
  "availability_of bs =
     (let onHand = roundQty (sum_list (map (\<lambda>b. toNumeric (sb_onHand b)) bs));
          reserved = roundQty (sum_list (map (\<lambda>b. toNumeric (sb_reserved b)) bs))
      in \<lparr>av_onHand = onHand, av_reserved = reserved, av_available = computeAvailable onHand reserved\<rparr>)"

definition balances_at :: "string \<Rightarrow> string \<Rightarrow> StockBalanceCondition \<Rightarrow> stock_db \<Rightarrow> stock_balance list" where
  "balances_at item loc cond db =
     filter (\<lambda>b. sb_item b = item \<and> sb_location b = loc \<and> sb_condition b = cond) (sd_balances db)"

definition getAvailability ::
  "string \<Rightarrow> string \<Rightarrow> string option \<Rightarrow> StockBalanceCondition \<Rightarrow> stock_db \<Rightarrow> stock_availability" where
  "getAvailability item loc lot cond db =
     availability_of (filter (\<lambda>b. sb_lot b = lot) (balances_at item loc cond db))"

definition getAvailabilityAcrossLots ::
  "string \<Rightarrow> string \<Rightarrow> StockBalanceCondition \<Rightarrow> stock_db \<Rightarrow> stock_availability" where
  "getAvailabilityAcrossLots item loc cond db = availability_of (balances_at item loc cond db)"

record lot_availability =
  lv_lot :: "string option"
  lv_onHand :: rat
  lv_reserved :: rat
  lv_available :: rat
  lv_expiry :: "string option"
  lv_createdAt :: "int option"

definition lot_availability_of :: "string \<Rightarrow> stock_db \<Rightarrow> stock_balance \<Rightarrow> lot_availability" where
  "lot_availability_of item db b =
     (let lot = (case sb_lot b of None \<Rightarrow> None | Some i \<Rightarrow> find_lot item i db);
          onHand = toNumeric (sb_onHand b); reserved = toNumeric (sb_reserved b)
      in \<lparr>lv_lot = sb_lot b, lv_onHand = onHand, lv_reserved = reserved,
          lv_available = computeAvailable onHand reserved,
          lv_expiry = (case lot of None \<Rightarrow> None | Some l \<Rightarrow> lo_expiry l),
          lv_createdAt = map_option lo_createdAt lot\<rparr>)"

text \<open>
  \<open>compareLotAvailability(left, right) <= 0\<close>: the balance without lot last, then the earlier
  expiry (none last), then the older lot, then its identifier. The dates and identifiers it
  compares with \<open>localeCompare\<close> are ISO days and lower-case hexadecimal, on which the collation
  is the order of code units.
\<close>

definition later_by :: "('a \<Rightarrow> 'a \<Rightarrow> bool) \<Rightarrow> 'a option \<Rightarrow> 'a option \<Rightarrow> bool \<Rightarrow> bool" where
  "later_by le a b tie =
     (case (a, b) of
        (None, None) \<Rightarrow> tie
      | (None, Some _) \<Rightarrow> False
      | (Some _, None) \<Rightarrow> True
      | (Some x, Some y) \<Rightarrow> if x = y then tie else le x y)"

definition lot_le :: "lot_availability \<Rightarrow> lot_availability \<Rightarrow> bool" where
  "lot_le left right \<longleftrightarrow>
     (case (lv_lot left, lv_lot right) of
        (None, None) \<Rightarrow> True
      | (None, Some _) \<Rightarrow> False
      | (Some _, None) \<Rightarrow> True
      | (Some i, Some j) \<Rightarrow>
          later_by js_le (lv_expiry left) (lv_expiry right)
            (later_by (\<le>) (lv_createdAt left) (lv_createdAt right) (js_le i j)))"

definition getLotAvailabilities ::
  "string \<Rightarrow> string \<Rightarrow> StockBalanceCondition \<Rightarrow> stock_db \<Rightarrow> lot_availability list" where
  "getLotAvailabilities item loc cond db =
     js_sort lot_le (map (lot_availability_of item db) (balances_at item loc cond db))"

section \<open>The change of a balance\<close>

definition same_tuple ::
  "string \<Rightarrow> string \<Rightarrow> string option \<Rightarrow> StockBalanceCondition \<Rightarrow> stock_balance \<Rightarrow> bool" where
  "same_tuple item loc lot cond b \<longleftrightarrow>
     sb_item b = item \<and> sb_location b = loc \<and> sb_lot b = lot \<and> sb_condition b = cond"

text \<open>\<open>manager.save\<close> on the balance read, found again by its tuple.\<close>

definition set_row ::
  "string \<Rightarrow> string \<Rightarrow> string option \<Rightarrow> StockBalanceCondition \<Rightarrow> int \<Rightarrow> int \<Rightarrow> stock_balance \<Rightarrow> stock_balance" where
  "set_row item loc lot cond onHand reserved b =
     (if same_tuple item loc lot cond b then b\<lparr>sb_onHand := onHand, sb_reserved := reserved\<rparr> else b)"

definition set_balance ::
  "string \<Rightarrow> string \<Rightarrow> string option \<Rightarrow> StockBalanceCondition \<Rightarrow> int \<Rightarrow> int \<Rightarrow> stock_db \<Rightarrow> stock_db" where
  "set_balance item loc lot cond onHand reserved db =
     db\<lparr>sd_balances := map (set_row item loc lot cond onHand reserved) (sd_balances db)\<rparr>"

definition applyDelta ::
  "string \<Rightarrow> string \<Rightarrow> string option \<Rightarrow> StockBalanceCondition \<Rightarrow> rat \<Rightarrow> rat \<Rightarrow> stock_db \<Rightarrow> stock_db stock_result" where
  "applyDelta item loc lot cond delta reservedDelta db =
     (case find (same_tuple item loc lot cond) (sd_balances db) of
        None \<Rightarrow>
          (let nextOnHand = roundQty delta; nextReserved = roundQty reservedDelta in
           res_bind (guard_ok (\<not> nextOnHand < 0) (Bad_Input Negative_Balance)) (\<lambda>_.
           res_bind (guard_ok (\<not> (nextReserved < 0 \<or> nextOnHand < nextReserved))
                       (Bad_Input (if nextOnHand < nextReserved then Reserved_Over_On_Hand else Not_Enough_Available))) (\<lambda>_.
           res_bind (guard_ok (fits_numeric (toQuantity nextOnHand) \<and> fits_numeric (toQuantity nextReserved)) Query_Failed) (\<lambda>_.
             Inr (db\<lparr>sd_balances := sd_balances db @
               [\<lparr>sb_item = item, sb_location = loc, sb_lot = lot, sb_condition = cond,
                 sb_onHand = toQuantity nextOnHand, sb_reserved = toQuantity nextReserved\<rparr>]\<rparr>)))))
      | Some existing \<Rightarrow>
          (let nextOnHand = roundQty (toNumeric (sb_onHand existing) + delta);
               nextReserved = roundQty (toNumeric (sb_reserved existing) + reservedDelta) in
           res_bind (guard_ok (\<not> nextOnHand < 0) (Bad_Input Negative_Balance)) (\<lambda>_.
           res_bind (guard_ok (\<not> nextReserved < 0) (Bad_Input Reserved_Below_Zero)) (\<lambda>_.
           res_bind (guard_ok (\<not> nextOnHand < nextReserved) (Bad_Input Reserved_Over_On_Hand)) (\<lambda>_.
           res_bind (guard_ok (fits_numeric (toQuantity nextOnHand) \<and> fits_numeric (toQuantity nextReserved)) Query_Failed) (\<lambda>_.
             Inr (set_balance item loc lot cond (toQuantity nextOnHand) (toQuantity nextReserved) db)))))))"

section \<open>What a change does\<close>

text \<open>The steps of a stored balance, in hundredths.\<close>

definition cents_step :: "rat \<Rightarrow> int" where
  "cents_step delta = math_round (delta * 100)"

lemma roundQty_step: "roundQty (toNumeric n + delta) = toNumeric (n + cents_step delta)"
proof -
  have "(toNumeric n + delta) * 100 = of_int n + delta * 100" by (simp add: distrib_right)
  then show ?thesis by (simp only: roundQty_eq cents_step_def math_round_add_of_int)
qed

lemma roundQty_cents: "roundQty delta = toNumeric (cents_step delta)"
  by (simp add: roundQty_eq cents_step_def)

lemma cents_step_two_decimals: "two_decimals x \<Longrightarrow> cents_step x = toQuantity x"
  by (metis roundQty_cents roundQty_two_decimals toQuantity_toNumeric)

lemma cents_step_zero [simp]: "cents_step 0 = 0"
  by (simp add: cents_step_def)

lemma cents_step_toNumeric [simp]: "cents_step (toNumeric n) = n"
  by (simp add: cents_step_two_decimals)

definition balance_key :: "stock_balance \<Rightarrow> string \<times> string \<times> string option \<times> StockBalanceCondition" where
  "balance_key b = (sb_item b, sb_location b, sb_lot b, sb_condition b)"

text \<open>A tuple has one balance, with \<open>0 <= reserved <= on hand\<close>, which fits its column.\<close>

definition balances_ok :: "stock_balance list \<Rightarrow> bool" where
  "balances_ok bs \<longleftrightarrow> distinct (map balance_key bs) 
     \<and> list_all (\<lambda>b. 0 \<le> sb_reserved b \<and> sb_reserved b \<le> sb_onHand b \<and> sb_onHand b < 10 ^ 12) bs"

text \<open>The stock on hand, and the stock reserved, of the balances whose tuple satisfies \<open>P\<close>.\<close>

definition held :: "(string \<times> string \<times> string option \<times> StockBalanceCondition \<Rightarrow> bool) \<Rightarrow> stock_balance list \<Rightarrow> int" where
  "held P bs = sum_list (map sb_onHand (filter (\<lambda>b. P (balance_key b)) bs))"

definition committed :: "(string \<times> string \<times> string option \<times> StockBalanceCondition \<Rightarrow> bool) \<Rightarrow> stock_balance list \<Rightarrow> int" where
  "committed P bs = sum_list (map sb_reserved (filter (\<lambda>b. P (balance_key b)) bs))"

lemma same_tuple_iff: "same_tuple item loc lot cond b \<longleftrightarrow> balance_key b = (item, loc, lot, cond)"
  by (auto simp: same_tuple_def balance_key_def)

lemma held_simps [simp]: "held P [] = 0" "held P (bs @ cs) = held P bs + held P cs"
    "held P (b # bs) = (if P (balance_key b) then sb_onHand b else 0) + held P bs"
  by (simp_all add: held_def)

lemma committed_simps [simp]: "committed P [] = 0" "committed P (bs @ cs) = committed P bs + committed P cs"
    "committed P (b # bs) = (if P (balance_key b) then sb_reserved b else 0) + committed P bs"
  by (simp_all add: committed_def)

lemma balance_key_update [simp]: "balance_key (b\<lparr>sb_onHand := x, sb_reserved := y\<rparr>) = balance_key b"
  by (simp add: balance_key_def)

lemma balance_key_set_row [simp]: "balance_key (set_row item loc lot cond x y b) = balance_key b"
  by (simp add: set_row_def)

lemma set_row_same: "balance_key b = (item, loc, lot, cond) \<Longrightarrow> sb_onHand (set_row item loc lot cond x y b) = x"
    "balance_key b = (item, loc, lot, cond) \<Longrightarrow> sb_reserved (set_row item loc lot cond x y b) = y"
  by (simp_all add: set_row_def same_tuple_iff)

lemma set_row_other [simp]: "balance_key b \<noteq> (item, loc, lot, cond) \<Longrightarrow> set_row item loc lot cond x y b = b"
  by (simp add: set_row_def same_tuple_iff)

lemma set_rows_other [simp]:
  "(item, loc, lot, cond) \<notin> balance_key ` set bs \<Longrightarrow> map (set_row item loc lot cond x y) bs = bs"
  by (induction bs) auto

lemma keys_set_rows [simp]: "map (balance_key \<circ> set_row item loc lot cond x y) bs = map balance_key bs"
  by simp

lemma held_set_balance:
  assumes "distinct (map balance_key bs)" "find (same_tuple item loc lot cond) bs = Some b"
  shows "held P (map (set_row item loc lot cond x y) bs)
      = held P bs + (if P (item, loc, lot, cond) then x - sb_onHand b else 0)"
    and "committed P (map (set_row item loc lot cond x y) bs)
      = committed P bs + (if P (item, loc, lot, cond) then y - sb_reserved b else 0)"
  using assms
  by (induction bs) (auto simp: same_tuple_iff set_row_same split: if_splits)

lemma applyDelta_cases:
  assumes "applyDelta item loc lot cond delta reservedDelta db = Inr db'"
  obtains (fresh) "find (same_tuple item loc lot cond) (sd_balances db) = None"
      and "0 \<le> cents_step reservedDelta" "cents_step reservedDelta \<le> cents_step delta" "cents_step delta < 10 ^ 12"
      and "db' = db\<lparr>sd_balances := sd_balances db @
             [\<lparr>sb_item = item, sb_location = loc, sb_lot = lot, sb_condition = cond,
               sb_onHand = cents_step delta, sb_reserved = cents_step reservedDelta\<rparr>]\<rparr>"
    | (existing) b where "find (same_tuple item loc lot cond) (sd_balances db) = Some b"
      and "0 \<le> sb_reserved b + cents_step reservedDelta"
        "sb_reserved b + cents_step reservedDelta \<le> sb_onHand b + cents_step delta" "sb_onHand b + cents_step delta < 10 ^ 12"
      and "db' = set_balance item loc lot cond (sb_onHand b + cents_step delta) (sb_reserved b + cents_step reservedDelta) db"
proof (cases "find (same_tuple item loc lot cond) (sd_balances db)")
  case None
  with assms show ?thesis
    by (intro fresh) (auto simp: applyDelta_def Let_def roundQty_cents res_simps not_less fits_numeric_def)
next
  case (Some b)
  with assms show ?thesis
    by (intro existing) (auto simp: applyDelta_def Let_def roundQty_step res_simps not_less fits_numeric_def)
qed

lemma balances_ok_find:
  "balances_ok bs \<Longrightarrow> find (same_tuple item loc lot cond) bs = Some b \<Longrightarrow> 0 \<le> sb_reserved b \<and> sb_reserved b \<le> sb_onHand b \<and> sb_onHand b < 10 ^ 12"
  by (drule find_Some_iff_hd) (auto simp: balances_ok_def list_all_iff)

lemma applyDelta_ok [inv_intros]:
  assumes "applyDelta item loc lot cond delta reservedDelta db = Inr db'" "balances_ok (sd_balances db)"
  shows "balances_ok (sd_balances db')"
  using assms(1)
proof (cases rule: applyDelta_cases)
  case fresh
  then have "(item, loc, lot, cond) \<notin> balance_key ` set (sd_balances db)"
    by (auto simp: find_None_all same_tuple_iff)
  with fresh assms(2) show ?thesis by (auto simp: balances_ok_def balance_key_def)
next
  case (existing b)
  with assms(2) show ?thesis by (auto simp: balances_ok_def set_balance_def list_all_iff set_row_def)
qed

lemma applyDelta_held:
  assumes "applyDelta item loc lot cond delta reservedDelta db = Inr db'" "distinct (map balance_key (sd_balances db))"
  shows "held P (sd_balances db') = held P (sd_balances db) + (if P (item, loc, lot, cond) then cents_step delta else 0)"
    and "committed P (sd_balances db') = committed P (sd_balances db) + (if P (item, loc, lot, cond) then cents_step reservedDelta else 0)"
  using assms(1)
  by (cases rule: applyDelta_cases; use assms(2) in \<open>simp add: set_balance_def held_set_balance balance_key_def\<close>)+

lemma applyDelta_frame:
  assumes "applyDelta item loc lot cond delta reservedDelta db = Inr db'"
  obtains bs where "db' = db\<lparr>sd_balances := bs\<rparr>"
  using assms by (cases rule: applyDelta_cases) (auto simp: set_balance_def)

text \<open>When the change goes through.\<close>

lemma applyDelta_succeeds:
  assumes "find (same_tuple item loc lot cond) (sd_balances db) = Some b"
    and "0 \<le> sb_reserved b + cents_step reservedDelta"
      "sb_reserved b + cents_step reservedDelta \<le> sb_onHand b + cents_step delta"
    and "fits_numeric (sb_onHand b + cents_step delta)"
  shows "applyDelta item loc lot cond delta reservedDelta db =
    Inr (set_balance item loc lot cond (sb_onHand b + cents_step delta) (sb_reserved b + cents_step reservedDelta) db)"
  using assms by (simp add: applyDelta_def Let_def roundQty_step not_less fits_numeric_def)

section \<open>The order of the lots\<close>

lemma later_by_total: "(\<And>x y. le x y \<or> le y x) \<Longrightarrow> t \<or> u \<Longrightarrow> later_by le a b t \<or> later_by le b a u"
  by (auto simp: later_by_def split: option.splits)

lemma later_by_trans:
  assumes "\<And>x y z. le x y \<Longrightarrow> le y z \<Longrightarrow> le x z" "\<And>x y. le x y \<Longrightarrow> le y x \<Longrightarrow> x = y"
    and "later_by le a b t" "later_by le b c u" "t \<Longrightarrow> u \<Longrightarrow> v"
  shows "later_by le a c v"
  using assms by (auto simp: later_by_def split: option.splits if_splits)

interpretation lots: js_comparator lot_le
proof
  fix x y z :: lot_availability
  show "lot_le x y \<or> lot_le y x"
  proof (cases "lv_lot x"; cases "lv_lot y")
    fix i j assume "lv_lot x = Some i" "lv_lot y = Some j"
    then show ?thesis
      using later_by_total [OF js_le_total, OF later_by_total [OF linear js_le_total [of i j]]]
      by (simp add: lot_le_def)
  qed (simp_all add: lot_le_def)
  assume xy: "lot_le x y" and yz: "lot_le y z"
  show "lot_le x z"
  proof (cases "lv_lot z")
    case None
    then show ?thesis by (auto simp: lot_le_def split: option.splits)
  next
    case (Some k)
    with yz obtain j where j: "lv_lot y = Some j" by (auto simp: lot_le_def split: option.splits)
    with xy obtain i where i: "lv_lot x = Some i" by (auto simp: lot_le_def split: option.splits)
    have "later_by js_le (lv_expiry x) (lv_expiry z)
        (later_by (\<le>) (lv_createdAt x) (lv_createdAt z) (js_le i k))"
    proof (rule later_by_trans [OF js_le_trans js_le_antisym])
      show "later_by js_le (lv_expiry x) (lv_expiry y) (later_by (\<le>) (lv_createdAt x) (lv_createdAt y) (js_le i j))"
        using xy by (simp add: lot_le_def i j)
      show "later_by js_le (lv_expiry y) (lv_expiry z) (later_by (\<le>) (lv_createdAt y) (lv_createdAt z) (js_le j k))"
        using yz by (simp add: lot_le_def j Some)
      show "later_by (\<le>) (lv_createdAt x) (lv_createdAt z) (js_le i k)"
        if "later_by (\<le>) (lv_createdAt x) (lv_createdAt y) (js_le i j)"
          "later_by (\<le>) (lv_createdAt y) (lv_createdAt z) (js_le j k)"
        by (rule later_by_trans [OF _ _ that]) (auto intro: js_le_trans)
    qed
    then show ?thesis by (simp add: lot_le_def i Some)
  qed
qed

end
