(* ===== verification/StockAssets.thy ===== *)
theory StockAssets
  imports StockBalances
begin

text \<open>
  Serialized assets and what hangs on them: \<open>serialized-asset.service.ts\<close> (the table of allowed
  statuses, resolution by identifier or serial, reception and transition),
  \<open>asset-lifecycle.service.ts\<close> (the events of an asset) and \<open>asset-loan.service.ts\<close> (equipment
  lent to a subscriber).
\<close>

section \<open>Statuses\<close>

fun allowed_next :: "SerializedAssetStatus \<Rightarrow> SerializedAssetStatus list" where
  "allowed_next AS_ORDERED = [AS_IN_RECEIVING]"
| "allowed_next AS_IN_RECEIVING = [AS_AVAILABLE]"
| "allowed_next AS_AVAILABLE = [AS_ASSIGNED_TO_TECHNICIAN, AS_SOLD, AS_INTERNAL_CONSUMED, AS_LOST]"
| "allowed_next AS_ASSIGNED_TO_TECHNICIAN = [AS_INSTALLED_COMODATO, AS_AVAILABLE, AS_IN_TRANSIT, AS_LOST]"
| "allowed_next AS_INSTALLED_COMODATO = [AS_IN_TRANSIT, AS_LOST]"
| "allowed_next AS_IN_TRANSIT = [AS_IN_TESTING, AS_AVAILABLE]"
| "allowed_next AS_IN_TESTING = [AS_AVAILABLE_REFURBISHED, AS_IN_REPAIR, AS_WRITTEN_OFF]"
| "allowed_next AS_AVAILABLE_REFURBISHED = [AS_ASSIGNED_TO_TECHNICIAN, AS_SOLD, AS_INTERNAL_CONSUMED, AS_LOST]"
| "allowed_next AS_IN_REPAIR = [AS_AVAILABLE_REFURBISHED, AS_WRITTEN_OFF]"
| "allowed_next AS_SOLD = []"
| "allowed_next AS_INTERNAL_CONSUMED = []"
| "allowed_next AS_WRITTEN_OFF = []"
| "allowed_next AS_LOST = []"

definition assertStatusTransition :: "SerializedAssetStatus \<Rightarrow> SerializedAssetStatus \<Rightarrow> unit stock_result" where
  "assertStatusTransition current target =
     (if current = target then Inr ()
      else guard_ok (target \<in> set (allowed_next current)) (Bad_Input Status_Not_Allowed))"

text \<open>The statuses an asset never leaves.\<close>

definition terminal_status :: "SerializedAssetStatus \<Rightarrow> bool" where
  "terminal_status s \<longleftrightarrow> allowed_next s = []"

lemma terminal_status_iff: "terminal_status s \<longleftrightarrow> s \<in> {AS_SOLD, AS_INTERNAL_CONSUMED, AS_WRITTEN_OFF, AS_LOST}"
  by (cases s) (simp_all add: terminal_status_def)

lemma assertStatusTransition_iff:
  "assertStatusTransition s t = Inr u \<longleftrightarrow> s = t \<or> t \<in> set (allowed_next s)"
  by (simp add: assertStatusTransition_def)

section \<open>Assets\<close>

definition resolveForMovement ::
  "string option \<Rightarrow> string option \<Rightarrow> stock_db \<Rightarrow> serialized_asset option stock_result" where
  "resolveForMovement assetId serial db =
     (if given assetId
      then (case find_asset (the assetId) db of None \<Rightarrow> Inl (Missing No_Asset) | Some a \<Rightarrow> Inr (Some a))
      else if given serial
      then (case find_serial (normalizeSerial (the serial)) db of None \<Rightarrow> Inl (Missing No_Asset) | Some a \<Rightarrow> Inr (Some a))
      else Inr None)"

record received_asset =
  ra_item :: string
  ra_lot :: "string option"
  ra_serial :: "string option"
  ra_mac :: "string option"
  ra_location :: "string option"

definition createReceivedAsset ::
  "string \<Rightarrow> received_asset \<Rightarrow> stock_db \<Rightarrow> (serialized_asset \<times> stock_db) stock_result" where
  "createReceivedAsset newId input db =
     (let normalized = (if given (ra_serial input) then Some (normalizeSerial (the (ra_serial input))) else None);
          mac = (if given (ra_mac input) then Some (normalizeSerial (the (ra_mac input))) else None);
          asset = \<lparr>sa_id = newId, sa_item = ra_item input, sa_lot = ra_lot input,
            sa_serial = trim_opt (ra_serial input), sa_normalizedSerial = normalized, sa_normalizedMac = mac,
            sa_status = AS_IN_RECEIVING, sa_location = ra_location input,
            sa_responsibleType = RT_WAREHOUSE, sa_responsibleRef = None, sa_subscriber = None, sa_contract = None\<rparr>
      in res_bind (guard_ok (\<not> (given normalized \<and> find_serial (the normalized) db \<noteq> None)) (Taken Duplicate_Serial)) (\<lambda>_.
         res_bind (guard_ok ((normalized = None \<or> find_serial (the normalized) db = None)
              \<and> (mac = None \<or> \<not> list_ex (\<lambda>a. sa_normalizedMac a = mac) (sd_assets db))) Query_Failed) (\<lambda>_.
         res_bind (guard_ok (find_item (ra_item input) db \<noteq> None \<and> known_location (ra_location input) db \<and> known_lot (ra_lot input) db) Query_Failed) (\<lambda>_.
           Inr (asset, db\<lparr>sd_assets := sd_assets db @ [asset]\<rparr>)))))"

text \<open>
  The unique indexes on the normalised serial and MAC and the foreign keys are the failed
  statements. The columns of the purchase and of the warranty are left out.
\<close>

text \<open>
  A transition requested by the ledger. An \<open>undefined\<close> field leaves the column alone, a
  \<open>null\<close> clears it: \<^term>\<open>None\<close> and \<^term>\<open>Some None\<close>.
\<close>

record asset_transition =
  tr_asset :: "string option"
  tr_serial :: "string option"
  tr_toStatus :: SerializedAssetStatus
  tr_location :: "string option option"
  tr_responsibleType :: "InventoryResponsibleType option"
  tr_responsibleRef :: "string option option"
  tr_subscriber :: "string option option"
  tr_contract :: "string option option"
  tr_eventType :: "AssetLifecycleEventType option"
  tr_restore :: bool

definition overwrite :: "'a option \<Rightarrow> 'a \<Rightarrow> 'a" where
  "overwrite v x = (case v of None \<Rightarrow> x | Some y \<Rightarrow> y)"

lemma overwrite_simps [simp]: "overwrite None x = x" "overwrite (Some y) x = y"
  by (simp_all add: overwrite_def)

definition transitioned :: "asset_transition \<Rightarrow> serialized_asset \<Rightarrow> serialized_asset" where
  "transitioned t a = a\<lparr>sa_status := tr_toStatus t,
     sa_location := overwrite (tr_location t) (sa_location a),
     sa_responsibleType := overwrite (tr_responsibleType t) (sa_responsibleType a),
     sa_responsibleRef := overwrite (tr_responsibleRef t) (sa_responsibleRef a),
     sa_subscriber := overwrite (tr_subscriber t) (sa_subscriber a),
     sa_contract := overwrite (tr_contract t) (sa_contract a)\<rparr>"

definition transitionAsset ::
  "asset_transition \<Rightarrow> stock_db \<Rightarrow> (serialized_asset \<times> stock_db) stock_result" where
  "transitionAsset t db =
     res_bind (resolveForMovement (tr_asset t) (tr_serial t) db) (\<lambda>found.
       (case found of
          None \<Rightarrow> Inl (Missing No_Asset)
        | Some asset \<Rightarrow>
            res_bind (if tr_restore t then Inr () else assertStatusTransition (sa_status asset) (tr_toStatus t)) (\<lambda>_.
            (let asset' = transitioned t asset in
             res_bind (guard_ok (known_location (sa_location asset') db) Query_Failed) (\<lambda>_.
               Inr (asset', put_asset asset' db))))))"

section \<open>Lifecycle events\<close>

definition record_event :: "lifecycle_event \<Rightarrow> stock_db \<Rightarrow> stock_db" where
  "record_event e db = db\<lparr>sd_events := sd_events db @ [e]\<rparr>"

section \<open>Loans\<close>

definition openLoan ::
  "stock_env \<Rightarrow> string \<Rightarrow> string \<Rightarrow> string option \<Rightarrow> string option \<Rightarrow> string \<Rightarrow> stock_db \<Rightarrow> asset_loan \<times> stock_db" where
  "openLoan env assetId subscriber contract order movement db =
     (case find (\<lambda>l. al_movement l = Some movement) (sd_loans db) of
        Some existing \<Rightarrow> (existing, db)
      | None \<Rightarrow>
          (let loan = \<lparr>al_id = se_loan env, al_asset = assetId, al_subscriber = subscriber, al_contract = contract,
             al_installedAt = se_now env, al_removedAt = None, al_executionOrder = order, al_movement = Some movement\<rparr>
           in (loan, db\<lparr>sd_loans := sd_loans db @ [loan]\<rparr>)))"

definition close_loan :: "int \<Rightarrow> (asset_loan \<Rightarrow> bool) \<Rightarrow> stock_db \<Rightarrow> asset_loan option \<times> stock_db" where
  "close_loan removedAt chosen db =
     (case find (\<lambda>l. chosen l \<and> al_removedAt l = None) (sd_loans db) of
        None \<Rightarrow> (None, db)
      | Some loan \<Rightarrow> (let closed = loan\<lparr>al_removedAt := Some removedAt\<rparr> in (Some closed, put_loan closed db)))"

definition closeOpenLoan :: "int \<Rightarrow> string \<Rightarrow> stock_db \<Rightarrow> asset_loan option \<times> stock_db" where
  "closeOpenLoan removedAt assetId = close_loan removedAt (\<lambda>l. al_asset l = assetId)"

definition closeLoanForMovement :: "int \<Rightarrow> string \<Rightarrow> string \<Rightarrow> stock_db \<Rightarrow> asset_loan option \<times> stock_db" where
  "closeLoanForMovement removedAt assetId movement =
     close_loan removedAt (\<lambda>l. al_asset l = assetId \<and> al_movement l = Some movement)"

section \<open>What the operations leave alone\<close>

lemma put_asset_frame [simp]:
  "sd_items (put_asset a db) = sd_items db" "sd_locations (put_asset a db) = sd_locations db"
  "sd_lots (put_asset a db) = sd_lots db" "sd_balances (put_asset a db) = sd_balances db"
  "sd_movements (put_asset a db) = sd_movements db" "sd_lines (put_asset a db) = sd_lines db"
  "sd_events (put_asset a db) = sd_events db" "sd_loans (put_asset a db) = sd_loans db"
  by (simp_all add: put_asset_def)

lemma openLoan_frame [simp]:
  "sd_balances (snd (openLoan env i s c x m db)) = sd_balances db"
  "sd_movements (snd (openLoan env i s c x m db)) = sd_movements db"
  "sd_lines (snd (openLoan env i s c x m db)) = sd_lines db"
  "sd_assets (snd (openLoan env i s c x m db)) = sd_assets db"
  "sd_locations (snd (openLoan env i s c x m db)) = sd_locations db"
  by (simp_all add: openLoan_def Let_def split: option.splits)

lemma close_loan_frame [simp]:
  "sd_balances (snd (close_loan r P db)) = sd_balances db"
  "sd_movements (snd (close_loan r P db)) = sd_movements db"
  "sd_lines (snd (close_loan r P db)) = sd_lines db"
  "sd_assets (snd (close_loan r P db)) = sd_assets db"
  "sd_locations (snd (close_loan r P db)) = sd_locations db"
  by (simp_all add: close_loan_def put_loan_def Let_def split: option.splits)

lemma resolveForMovement_member:
  "resolveForMovement i s db = Inr (Some a) \<Longrightarrow> a \<in> set (sd_assets db)"
  by (auto simp: resolveForMovement_def find_asset_def find_serial_def dest: find_Some_iff_hd split: if_splits option.splits)

text \<open>Identifiers of assets are unique, and so are the serials that are given.\<close>

definition assets_ok :: "serialized_asset list \<Rightarrow> bool" where
  "assets_ok as \<longleftrightarrow> distinct (map sa_id as)
     \<and> distinct (map the (filter (\<lambda>n. n \<noteq> None) (map sa_normalizedSerial as)))"

lemma transitioned_identity [simp]:
  "sa_id (transitioned t a) = sa_id a" "sa_normalizedSerial (transitioned t a) = sa_normalizedSerial a"
  "sa_item (transitioned t a) = sa_item a" "sa_lot (transitioned t a) = sa_lot a" "sa_serial (transitioned t a) = sa_serial a"
  "sa_status (transitioned t a) = tr_toStatus t"
  by (simp_all add: transitioned_def)

lemma map_put_asset:
  assumes "distinct (map sa_id (sd_assets db))" "a \<in> set (sd_assets db)" "sa_id a' = sa_id a" "f a' = f a"
  shows "map f (sd_assets (put_asset a' db)) = map f (sd_assets db)"
proof -
  have "f (if sa_id r = sa_id a' then a' else r) = f r" if "r \<in> set (sd_assets db)" for r
    using assms that by (auto dest: inj_onD simp: distinct_map)
  then show ?thesis by (simp add: put_asset_def)
qed

lemma transitionAsset_Inr:
  assumes "transitionAsset t db = Inr (a', db')"
  obtains a where "resolveForMovement (tr_asset t) (tr_serial t) db = Inr (Some a)" "a \<in> set (sd_assets db)"
    and "tr_restore t \<or> sa_status a = tr_toStatus t \<or> tr_toStatus t \<in> set (allowed_next (sa_status a))"
    and "a' = transitioned t a" "db' = put_asset a' db"
proof -
  from assms obtain a where a: "resolveForMovement (tr_asset t) (tr_serial t) db = Inr (Some a)"
      "tr_restore t \<or> sa_status a = tr_toStatus t \<or> tr_toStatus t \<in> set (allowed_next (sa_status a))"
      "a' = transitioned t a" "db' = put_asset a' db"
    by (auto simp: transitionAsset_def res_simps Let_def assertStatusTransition_iff split: option.splits if_splits)
  with resolveForMovement_member [OF a(1)] that show ?thesis by blast
qed

lemma assets_ok_put [inv_intros]:
  assumes "assets_ok (sd_assets db)" "a \<in> set (sd_assets db)"
  shows "assets_ok (sd_assets (put_asset (transitioned t a) db))"
proof -
  have d: "distinct (map sa_id (sd_assets db))" using assms(1) by (simp add: assets_ok_def)
  show ?thesis using assms(1)
    unfolding assets_ok_def map_put_asset [where f = sa_id, OF d assms(2) transitioned_identity(1) transitioned_identity(1)]
      map_put_asset [where f = sa_normalizedSerial, OF d assms(2) transitioned_identity(1) transitioned_identity(2)] .
qed

lemma find_put_asset:
  "distinct (map sa_id (sd_assets db)) \<Longrightarrow> sa_id a \<in> sa_id ` set (sd_assets db) \<Longrightarrow>
    find_asset i (put_asset a db) = (if i = sa_id a then Some a else find_asset i db)"
proof -
  have "find (\<lambda>r. sa_id r = i) (map (\<lambda>r. if sa_id r = sa_id a then a else r) as) =
      (if i = sa_id a then Some a else find (\<lambda>r. sa_id r = i) as)"
    if "sa_id a \<in> sa_id ` set as \<or> i \<noteq> sa_id a" for as
    using that by (induction as) auto
  then show "sa_id a \<in> sa_id ` set (sd_assets db) \<Longrightarrow> ?thesis"
    by (simp add: find_asset_def put_asset_def)
qed

end
