(* ===== verification/StockLedger.thy ===== *)
theory StockLedger
  imports StockAssets
begin

text \<open>
  \<open>stock-ledger.service.ts\<close>: the one routine that writes a movement (its number, its lines with
  their sealed cost, the balances, the transitions of the serialized assets and their events),
  idempotent by key, and the movements of the warehouse built on it: transfer, issue, sale,
  internal consumption, return, write-off and adjustment. The valuation of a line is
  \<open>inventory-costing.service.ts\<close>. Every entry point runs in one transaction, so an error leaves
  the database as it was; the snapshots and domain events published after the commit are left
  out.
\<close>

section \<open>Cost of a line\<close>

definition resolveValuationUnitCost :: "stock_item \<Rightarrow> rat" where
  "resolveValuationUnitCost item =
     (case find (\<lambda>v. 0 < v)
        [si_averageCost item, (case si_lastPurchaseCost item of None \<Rightarrow> 0 | Some c \<Rightarrow> c), si_standardCost item, si_baseCost item] of
        None \<Rightarrow> 0 | Some v \<Rightarrow> v)"

definition resolveSealedUnitCost :: "stock_item \<Rightarrow> rat option" where
  "resolveSealedUnitCost item = (let v = resolveValuationUnitCost item in if 0 < v then Some v else None)"

definition getInventoryBaseUnitCostScale :: "string \<Rightarrow> string \<Rightarrow> nat" where
  "getInventoryBaseUnitCostScale base purchase = (if base = ''METER'' \<and> purchase = ''ROLL'' then 5 else 2)"

definition unit_cost_scale :: "stock_item \<Rightarrow> nat" where
  "unit_cost_scale item =
     getInventoryBaseUnitCostScale (si_unitOfMeasure item)
       (case si_purchaseUnit item of None \<Rightarrow> si_unitOfMeasure item | Some u \<Rightarrow> u)"

section \<open>Number of a movement\<close>

text \<open>\<open>s.split('-').at(-1)\<close>, and \<open>Number.parseInt\<close> of it (\<^term>\<open>None\<close> is \<open>NaN\<close>).\<close>

definition last_segment :: "string \<Rightarrow> string" where
  "last_segment s = rev (takeWhile (\<lambda>c. c \<noteq> CHR ''-'') (rev s))"

definition parse_int :: "string \<Rightarrow> int option" where
  "parse_int s = (let ds = takeWhile is_digit s in if ds = [] then None else Some (parse_digits ds))"

text \<open>\<open>ORDER BY movement_number DESC\<close> compares texts; on these numbers the collation is the order of code units.\<close>

definition latest_number :: "stock_db \<Rightarrow> string option" where
  "latest_number db =
     (case filter (sql_like ''MOV-%'') (map mv_number (sd_movements db)) of
        [] \<Rightarrow> None
      | n # ns \<Rightarrow> Some (foldl (\<lambda>a b. if js_le a b then b else a) n ns))"

text \<open>The next number, from the movements the transaction can see when it looks.\<close>

definition generateMovementNumber :: "stock_db \<Rightarrow> string" where
  "generateMovementNumber db =
     (let latest = (case latest_number db of None \<Rightarrow> ''000001'' | Some n \<Rightarrow> last_segment n)
      in ''MOV-'' @ (case parse_int latest of None \<Rightarrow> pad_start 6 ''NaN'' | Some n \<Rightarrow> pad_num 6 (n + 1)))"

section \<open>Recording a movement\<close>

record ledger_line =
  ll_item :: string
  ll_location :: string
  ll_quantity :: rat
  ll_lot :: "string option"
  ll_asset :: "string option"
  ll_unitCost :: "rat option"
  ll_condition :: "StockBalanceCondition option"

record movement_input =
  mi_origin :: StockMovementOrigin
  mi_originContext :: string
  mi_originRefId :: "string option"
  mi_idempotencyKey :: string
  mi_notes :: "string option"
  mi_lines :: "ledger_line list"
  mi_transitions :: "asset_transition list"
  mi_isReversal :: bool
  mi_reversedBy :: "string option"

record movement_result =
  mr_movement :: stock_movement
  mr_lines :: "stock_movement_line list"
  mr_created :: bool

definition condition_of :: "ledger_line \<Rightarrow> StockBalanceCondition" where
  "condition_of l = (case ll_condition l of None \<Rightarrow> BC_NEW | Some c \<Rightarrow> c)"

definition ledger_row :: "stock_env \<Rightarrow> nat \<Rightarrow> stock_item \<Rightarrow> ledger_line \<Rightarrow> stock_movement_line" where
  "ledger_row env n item l =
     \<lparr>ml_id = se_line env n, ml_movement = se_movement env, ml_item = ll_item l, ml_location = ll_location l,
      ml_lot = ll_lot l, ml_asset = ll_asset l, ml_quantity = toQuantity (ll_quantity l),
      ml_unitCost = map_option (\<lambda>c. of_int (to_fixed (unit_cost_scale item) c) / 10 ^ unit_cost_scale item)
        (or_opt (ll_unitCost l) (resolveSealedUnitCost item))\<rparr>"

text \<open>The primary key, the columns and the foreign keys of a line, checked by the \<open>INSERT\<close>.\<close>

definition line_accepted :: "stock_movement_line \<Rightarrow> stock_db \<Rightarrow> bool" where
  "line_accepted row db \<longleftrightarrow> \<not> list_ex (\<lambda>l. ml_id l = ml_id row) (sd_lines db)
     \<and> fits_numeric (ml_quantity row) \<and> known_location (Some (ml_location row)) db
     \<and> known_lot (ml_lot row) db \<and> known_asset (ml_asset row) db"

definition record_line ::
  "stock_env \<Rightarrow> ledger_line \<Rightarrow> stock_movement_line list \<times> stock_db \<Rightarrow> (stock_movement_line list \<times> stock_db) stock_result" where
  "record_line env l st =
     res_bind (guard_ok (ll_quantity l \<noteq> 0) (Bad_Input Zero_Quantity)) (\<lambda>_.
       (case find_item (ll_item l) (snd st) of
          None \<Rightarrow> Inl (Missing No_Item)
        | Some item \<Rightarrow>
            (let row = ledger_row env (length (fst st)) item l in
             res_bind (guard_ok (line_accepted row (snd st)) Query_Failed) (\<lambda>_.
             res_bind (applyDelta (ll_item l) (ll_location l) (ll_lot l) (condition_of l) (ll_quantity l) 0
                (snd st\<lparr>sd_lines := sd_lines (snd st) @ [row]\<rparr>)) (\<lambda>db'.
               Inr (fst st @ [row], db'))))))"

definition record_transition ::
  "stock_env \<Rightarrow> string option \<Rightarrow> asset_transition \<Rightarrow> stock_db \<Rightarrow> stock_db stock_result" where
  "record_transition env notes t db =
     res_bind (resolveForMovement (tr_asset t) (tr_serial t) db) (\<lambda>found.
       (case found of
          None \<Rightarrow> Inl (Bad_Input No_Asset_Identifier)
        | Some asset \<Rightarrow>
            res_bind (transitionAsset (t\<lparr>tr_asset := Some (sa_id asset), tr_serial := None\<rparr>) db) (\<lambda>(updated, db').
              Inr (record_event \<lparr>le_asset = sa_id updated,
                 le_type = overwrite (tr_eventType t) EV_STATUS_CHANGED,
                 le_from = Some (sa_status asset), le_to = Some (sa_status updated),
                 le_location = sa_location updated, le_responsibleRef = sa_responsibleRef updated,
                 le_notes = notes, le_actor = Some (se_actor env), le_movement = Some (se_movement env)\<rparr> db'))))"

definition new_movement :: "stock_env \<Rightarrow> movement_input \<Rightarrow> stock_db \<Rightarrow> stock_movement" where
  "new_movement env input db =
     \<lparr>mv_id = se_movement env, mv_number = generateMovementNumber db, mv_origin = mi_origin input,
      mv_originContext = mi_originContext input, mv_originRefId = mi_originRefId input,
      mv_idempotencyKey = mi_idempotencyKey input, mv_notes = mi_notes input, mv_actor = se_actor env,
      mv_reversedBy = mi_reversedBy input, mv_isReversal = mi_isReversal input\<rparr>"

text \<open>The primary key and the widths of the columns of a movement.\<close>

definition movement_accepted :: "stock_movement \<Rightarrow> stock_db \<Rightarrow> bool" where
  "movement_accepted m db \<longleftrightarrow> find_movement (mv_id m) db = None \<and> length (mv_number m) \<le> 40 \<and> length (mv_originContext m) \<le> 64
     \<and> length (mv_idempotencyKey m) \<le> 160 \<and> (case mv_originRefId m of None \<Rightarrow> True | Some r \<Rightarrow> length r \<le> 160)"

text \<open>
  The key and the number are looked up without a lock: \<open>seen\<close> is what the transaction saw when it
  did, \<open>db\<close> the state it then writes to, where the unique index on the key has the last word and
  no index is on the number.
\<close>

definition recordMovementFrom ::
  "stock_env \<Rightarrow> movement_input \<Rightarrow> stock_db \<Rightarrow> stock_db \<Rightarrow> (movement_result \<times> stock_db) stock_result" where
  "recordMovementFrom env input seen db =
     res_bind (guard_ok (mi_lines input \<noteq> []) (Bad_Input No_Lines)) (\<lambda>_.
       (case find_by_key (mi_idempotencyKey input) seen of
          Some existing \<Rightarrow>
            Inr (\<lparr>mr_movement = existing, mr_lines = lines_of (mv_id existing) seen, mr_created = False\<rparr>, db)
        | None \<Rightarrow>
            (let movement = new_movement env input seen in
             res_bind (guard_ok (movement_accepted movement db \<and> find_by_key (mi_idempotencyKey input) db = None) Query_Failed) (\<lambda>_.
             res_bind (res_fold (record_line env) (mi_lines input)
                ([], db\<lparr>sd_movements := sd_movements db @ [movement]\<rparr>)) (\<lambda>(rows, db1).
             res_bind (res_fold (record_transition env (mi_notes input)) (mi_transitions input) db1) (\<lambda>db2.
               Inr (\<lparr>mr_movement = movement, mr_lines = rows, mr_created = True\<rparr>, db2)))))))"

text \<open>A movement with no other one between the look and the writing.\<close>

definition recordMovement ::
  "stock_env \<Rightarrow> movement_input \<Rightarrow> stock_db \<Rightarrow> (movement_result \<times> stock_db) stock_result" where
  "recordMovement env input db = recordMovementFrom env input db db"

section \<open>Transfers\<close>

record transfer_input =
  ti_item :: string
  ti_source :: string
  ti_destination :: string
  ti_quantity :: rat
  ti_lot :: "string option"
  ti_asset :: "string option"
  ti_serial :: "string option"
  ti_condition :: StockBalanceCondition
  ti_handoffReference :: string
  ti_handoffNotes :: "string option"
  ti_notes :: "string option"
  ti_idempotencyKey :: "string option"

definition getLocationOnHand :: "string \<Rightarrow> stock_db \<Rightarrow> rat" where
  "getLocationOnHand loc db =
     sum_list (map (\<lambda>b. toNumeric (sb_onHand b)) (filter (\<lambda>b. sb_location b = loc) (sd_balances db)))"

definition is_mobile :: "StockLocationType \<Rightarrow> bool" where
  "is_mobile t \<longleftrightarrow> t = LT_MOBILE_TECHNICIAN \<or> t = LT_MOBILE_CREW"

definition assertDestinationCapacity :: "stock_location \<Rightarrow> rat \<Rightarrow> stock_db \<Rightarrow> unit stock_result" where
  "assertDestinationCapacity dest incoming db =
     (if \<not> is_mobile (sl_type dest) then Inr ()
      else res_bind (guard_ok (given (sl_responsible dest)) (Bad_Input No_Responsible)) (\<lambda>_.
        (case sl_maxCapacity dest of
           None \<Rightarrow> Inr ()
         | Some capacity \<Rightarrow>
             guard_ok (\<not> toNumeric capacity < getLocationOnHand (sl_id dest) db + incoming) (Bad_Input Over_Capacity))))"

record transfer_custody =
  tc_toStatus :: SerializedAssetStatus
  tc_responsibleType :: InventoryResponsibleType
  tc_responsibleRef :: "string option"

definition resolveTransferCustody :: "SerializedAssetStatus \<Rightarrow> stock_location \<Rightarrow> transfer_custody" where
  "resolveTransferCustody current dest =
     (case sl_type dest of
        LT_MOBILE_TECHNICIAN \<Rightarrow>
          \<lparr>tc_toStatus = AS_ASSIGNED_TO_TECHNICIAN, tc_responsibleType = RT_TECHNICIAN, tc_responsibleRef = sl_responsible dest\<rparr>
      | LT_MOBILE_CREW \<Rightarrow>
          \<lparr>tc_toStatus = AS_ASSIGNED_TO_TECHNICIAN, tc_responsibleType = RT_CREW, tc_responsibleRef = sl_responsible dest\<rparr>
      | LT_CUSTOMER_SITE \<Rightarrow>
          \<lparr>tc_toStatus = (if current = AS_ASSIGNED_TO_TECHNICIAN then AS_INSTALLED_COMODATO else current),
           tc_responsibleType = RT_CUSTOMER, tc_responsibleRef = or_opt (sl_responsible dest) (Some (sl_id dest))\<rparr>
      | LT_SCRAP \<Rightarrow> \<lparr>tc_toStatus = current, tc_responsibleType = RT_NONE, tc_responsibleRef = None\<rparr>
      | _ \<Rightarrow>
          \<lparr>tc_toStatus = (if current = AS_ASSIGNED_TO_TECHNICIAN then AS_AVAILABLE else current),
           tc_responsibleType = RT_WAREHOUSE, tc_responsibleRef = None\<rparr>)"

definition buildTransferAssetTransitions ::
  "stock_location \<Rightarrow> transfer_input \<Rightarrow> stock_db \<Rightarrow> asset_transition list stock_result" where
  "buildTransferAssetTransitions dest input db =
     res_bind (resolveForMovement (ti_asset input) (ti_serial input) db) (\<lambda>found.
       (case found of
          None \<Rightarrow> Inl (Missing No_Asset)
        | Some asset \<Rightarrow>
            res_bind (guard_ok (sa_item asset = ti_item input) (Bad_Input Other_Item)) (\<lambda>_.
            res_bind (guard_ok (sa_location asset = Some (ti_source input)) (Bad_Input Not_At_Source)) (\<lambda>_.
            (let custody = resolveTransferCustody (sa_status asset) dest in
             Inr [\<lparr>tr_asset = or_opt (ti_asset input) (Some (sa_id asset)), tr_serial = or_opt (ti_serial input) (sa_serial asset),
                   tr_toStatus = tc_toStatus custody, tr_location = Some (Some (ti_destination input)),
                   tr_responsibleType = Some (tc_responsibleType custody),
                   tr_responsibleRef = Some (tc_responsibleRef custody),
                   tr_subscriber = None, tr_contract = None, tr_eventType = Some EV_TRANSFERRED, tr_restore = False\<rparr>])))))"

definition buildTransferNotes :: "transfer_input \<Rightarrow> string" where
  "buildTransferNotes input =
     joined_notes [Some (''Acta: '' @ js_trim (ti_handoffReference input)), trim_opt (ti_handoffNotes input), trim_opt (ti_notes input)]"

text \<open>A serialized line moves one unit, whatever quantity came with it.\<close>

definition unit_quantity :: "string option \<Rightarrow> string option \<Rightarrow> rat \<Rightarrow> rat" where
  "unit_quantity asset serial quantity = (if given asset \<or> given serial then 1 else quantity)"

definition transfer_key :: "transfer_input \<Rightarrow> string" where
  "transfer_key input =
     (case trim_opt (ti_idempotencyKey input) of
        Some k \<Rightarrow> k
      | None \<Rightarrow> ''transfer:'' @ ti_source input @ '':'' @ ti_destination input @ '':'' @ ti_item input @ '':'' @
          (case or_opt (ti_asset input) (ti_serial input) of Some s \<Rightarrow> s | None \<Rightarrow> show_number (ti_quantity input)))"

definition transfer_line :: "transfer_input \<Rightarrow> string \<Rightarrow> rat \<Rightarrow> ledger_line" where
  "transfer_line input loc quantity =
     \<lparr>ll_item = ti_item input, ll_location = loc, ll_quantity = quantity, ll_lot = ti_lot input,
      ll_asset = ti_asset input, ll_unitCost = None, ll_condition = Some (ti_condition input)\<rparr>"

definition transfer_movement :: "transfer_input \<Rightarrow> asset_transition list \<Rightarrow> movement_input" where
  "transfer_movement input transitions =
     (let quantity = unit_quantity (ti_asset input) (ti_serial input) (ti_quantity input) in
      \<lparr>mi_origin = OR_TRANSFER, mi_originContext = ''inventory.transfer'',
       mi_originRefId = or_opt (ti_asset input) (Some (ti_item input)),
       mi_idempotencyKey = transfer_key input, mi_notes = Some (buildTransferNotes input),
       mi_lines = [transfer_line input (ti_source input) (- quantity), transfer_line input (ti_destination input) quantity],
       mi_transitions = transitions, mi_isReversal = False, mi_reversedBy = None\<rparr>)"

definition transfer ::
  "stock_env \<Rightarrow> transfer_input \<Rightarrow> stock_db \<Rightarrow> (movement_result \<times> stock_db) stock_result" where
  "transfer env input db =
     (let quantity = unit_quantity (ti_asset input) (ti_serial input) (ti_quantity input) in
      res_bind (guard_ok (js_trim (ti_handoffReference input) \<noteq> []) (Bad_Input No_Handoff)) (\<lambda>_.
      (let availability = getAvailability (ti_item input) (ti_source input) (ti_lot input) (ti_condition input) db in
       res_bind (guard_ok (find_location (ti_source input) db \<noteq> None) (Missing No_Source)) (\<lambda>_.
       (case find_location (ti_destination input) db of
          None \<Rightarrow> Inl (Missing No_Destination)
        | Some dest \<Rightarrow>
            res_bind (guard_ok (\<not> av_available availability < quantity) (Bad_Input Not_Enough_Available)) (\<lambda>_.
            res_bind (assertDestinationCapacity dest quantity db) (\<lambda>_.
            res_bind (if given (ti_asset input) \<or> given (ti_serial input)
                      then buildTransferAssetTransitions dest input db else Inr []) (\<lambda>transitions.
              recordMovement env (transfer_movement input transitions) db))))))))"

end
