(* ===== verification/StockMovements.thy ===== *)
theory StockMovements
  imports StockLedger
begin

text \<open>
  The other movements of \<open>stock-ledger.service.ts\<close> that the warehouse starts: the three kinds of
  a dispatched stock issue, direct sale and internal consumption, return of lent equipment,
  write-off and manual adjustment.
\<close>

section \<open>Stock issues\<close>

record issue_line =
  sx_item :: string
  sx_quantity :: rat
  sx_lot :: "string option"
  sx_asset :: "string option"
  sx_serial :: "string option"
  sx_condition :: "StockBalanceCondition option"

record issue_transfer_input =
  it_source :: string
  it_destination :: string
  it_idempotencyKey :: string
  it_originRefId :: "string option"
  it_handoffReference :: string
  it_handoffNotes :: "string option"
  it_notes :: "string option"
  it_lines :: "issue_line list"

definition issue_quantity :: "issue_line \<Rightarrow> rat" where
  "issue_quantity l = unit_quantity (sx_asset l) (sx_serial l) (sx_quantity l)"

definition issue_condition :: "issue_line \<Rightarrow> StockBalanceCondition" where
  "issue_condition l = (case sx_condition l of None \<Rightarrow> BC_NEW | Some c \<Rightarrow> c)"

definition issue_ledger_line :: "issue_line \<Rightarrow> string \<Rightarrow> rat \<Rightarrow> ledger_line" where
  "issue_ledger_line l loc quantity =
     \<lparr>ll_item = sx_item l, ll_location = loc, ll_quantity = quantity, ll_lot = sx_lot l, ll_asset = sx_asset l,
      ll_unitCost = None, ll_condition = Some (issue_condition l)\<rparr>"

definition issue_as_transfer :: "issue_transfer_input \<Rightarrow> issue_line \<Rightarrow> transfer_input" where
  "issue_as_transfer input l =
     \<lparr>ti_item = sx_item l, ti_source = it_source input, ti_destination = it_destination input, ti_quantity = 1,
      ti_lot = sx_lot l, ti_asset = sx_asset l, ti_serial = sx_serial l, ti_condition = issue_condition l,
      ti_handoffReference = it_handoffReference input, ti_handoffNotes = it_handoffNotes input,
      ti_notes = it_notes input, ti_idempotencyKey = None\<rparr>"

definition issue_transfer_line ::
  "stock_location \<Rightarrow> issue_transfer_input \<Rightarrow> stock_db \<Rightarrow> issue_line \<Rightarrow>
    ledger_line list \<times> asset_transition list \<Rightarrow> (ledger_line list \<times> asset_transition list) stock_result" where
  "issue_transfer_line dest input db l acc =
     (let quantity = issue_quantity l in
      res_bind (if given (sx_asset l) \<or> given (sx_serial l)
                then buildTransferAssetTransitions dest (issue_as_transfer input l) db else Inr []) (\<lambda>transitions.
        Inr (fst acc @ [issue_ledger_line l (it_source input) (- quantity), issue_ledger_line l (it_destination input) quantity],
             snd acc @ transitions)))"

definition recordStockIssueTransfer ::
  "stock_env \<Rightarrow> issue_transfer_input \<Rightarrow> stock_db \<Rightarrow> (movement_result \<times> stock_db) stock_result" where
  "recordStockIssueTransfer env input db =
     (let quantityTotal = sum_list (map issue_quantity (it_lines input)) in
      res_bind (guard_ok (js_trim (it_handoffReference input) \<noteq> []) (Bad_Input No_Handoff)) (\<lambda>_.
      res_bind (guard_ok (it_lines input \<noteq> []) (Bad_Input No_Lines)) (\<lambda>_.
      res_bind (guard_ok (find_location (it_source input) db \<noteq> None) (Missing No_Source)) (\<lambda>_.
      (case find_location (it_destination input) db of
         None \<Rightarrow> Inl (Missing No_Destination)
       | Some dest \<Rightarrow>
           res_bind (assertDestinationCapacity dest quantityTotal db) (\<lambda>_.
           res_bind (res_fold (issue_transfer_line dest input db) (it_lines input) ([], [])) (\<lambda>(movementLines, transitions).
             recordMovement env
               \<lparr>mi_origin = OR_TRANSFER, mi_originContext = ''inventory.stock-issue'', mi_originRefId = it_originRefId input,
                mi_idempotencyKey = it_idempotencyKey input,
                mi_notes = Some (joined_notes [Some (js_trim (it_handoffReference input)), trim_opt (it_handoffNotes input), trim_opt (it_notes input)]),
                mi_lines = movementLines, mi_transitions = transitions, mi_isReversal = False, mi_reversedBy = None\<rparr> db)))))))"

record issue_out_input =
  io_location :: string
  io_refId :: string
  io_idempotencyKey :: string
  io_notes :: "string option"
  io_lines :: "issue_line list"

text \<open>The transition of an asset that leaves the stock for good.\<close>

definition leaving_transition ::
  "string option \<Rightarrow> string option \<Rightarrow> SerializedAssetStatus \<Rightarrow> AssetLifecycleEventType \<Rightarrow> asset_transition" where
  "leaving_transition asset serial status event =
     \<lparr>tr_asset = asset, tr_serial = serial, tr_toStatus = status, tr_location = Some None,
      tr_responsibleType = Some RT_NONE, tr_responsibleRef = Some None, tr_subscriber = None, tr_contract = None,
      tr_eventType = Some event, tr_restore = False\<rparr>"

definition leaving_transitions ::
  "SerializedAssetStatus \<Rightarrow> AssetLifecycleEventType \<Rightarrow> string option \<Rightarrow> string option \<Rightarrow> asset_transition list" where
  "leaving_transitions status event asset serial =
     (if given asset \<or> given serial then [leaving_transition asset serial status event] else [])"

definition record_issue_out ::
  "StockMovementOrigin \<Rightarrow> SerializedAssetStatus \<Rightarrow> AssetLifecycleEventType \<Rightarrow> stock_env \<Rightarrow> issue_out_input \<Rightarrow> stock_db \<Rightarrow>
    (movement_result \<times> stock_db) stock_result" where
  "record_issue_out origin status event env input db =
     res_bind (guard_ok (io_lines input \<noteq> []) (Bad_Input No_Lines)) (\<lambda>_.
       recordMovement env
         \<lparr>mi_origin = origin, mi_originContext = ''inventory.stock-issue'', mi_originRefId = Some (io_refId input),
          mi_idempotencyKey = io_idempotencyKey input, mi_notes = io_notes input,
          mi_lines = map (\<lambda>l. issue_ledger_line l (io_location input) (- issue_quantity l)) (io_lines input),
          mi_transitions = concat (map (\<lambda>l. leaving_transitions status event (sx_asset l) (sx_serial l)) (io_lines input)),
          mi_isReversal = False, mi_reversedBy = None\<rparr> db)"

definition recordStockIssueSale ::
  "stock_env \<Rightarrow> issue_out_input \<Rightarrow> stock_db \<Rightarrow> (movement_result \<times> stock_db) stock_result" where
  "recordStockIssueSale = record_issue_out OR_SALE AS_SOLD EV_SOLD"

text \<open>The notes of an internal consumption fall back to its reason.\<close>

definition recordStockIssueInternalConsumption ::
  "string \<Rightarrow> stock_env \<Rightarrow> issue_out_input \<Rightarrow> stock_db \<Rightarrow> (movement_result \<times> stock_db) stock_result" where
  "recordStockIssueInternalConsumption reason env input =
     record_issue_out OR_INTERNAL_CONSUMPTION AS_INTERNAL_CONSUMED EV_CONSUMED env
       (input\<lparr>io_notes := or_opt (io_notes input) (Some reason)\<rparr>)"

section \<open>Direct sale and internal consumption\<close>

record outgoing_input =
  og_item :: string
  og_location :: string
  og_quantity :: rat
  og_refId :: string
  og_asset :: "string option"
  og_serial :: "string option"
  og_lot :: "string option"
  og_notes :: "string option"
  og_idempotencyKey :: "string option"

definition record_outgoing ::
  "StockMovementOrigin \<Rightarrow> string \<Rightarrow> string \<Rightarrow> SerializedAssetStatus \<Rightarrow> AssetLifecycleEventType \<Rightarrow>
    stock_env \<Rightarrow> outgoing_input \<Rightarrow> stock_db \<Rightarrow> (movement_result \<times> stock_db) stock_result" where
  "record_outgoing origin ctx prefix status event env input db =
     (let quantity = unit_quantity (og_asset input) (og_serial input) (og_quantity input) in
      recordMovement env
        \<lparr>mi_origin = origin, mi_originContext = ctx, mi_originRefId = Some (og_refId input),
         mi_idempotencyKey =
           (case trim_opt (og_idempotencyKey input) of
              Some k \<Rightarrow> k
            | None \<Rightarrow> prefix @ '':'' @ og_refId input @ '':'' @ og_item input @ '':'' @
                (case or_opt (og_asset input) (og_serial input) of Some s \<Rightarrow> s | None \<Rightarrow> show_number quantity)),
         mi_notes = og_notes input,
         mi_lines = [\<lparr>ll_item = og_item input, ll_location = og_location input, ll_quantity = - quantity,
           ll_lot = og_lot input, ll_asset = og_asset input, ll_unitCost = None, ll_condition = None\<rparr>],
         mi_transitions = leaving_transitions status event (og_asset input) (og_serial input),
         mi_isReversal = False, mi_reversedBy = None\<rparr> db)"

definition recordSale ::
  "stock_env \<Rightarrow> outgoing_input \<Rightarrow> stock_db \<Rightarrow> (movement_result \<times> stock_db) stock_result" where
  "recordSale = record_outgoing OR_SALE ''inventory.sale'' ''sale'' AS_SOLD EV_SOLD"

definition recordInternalConsumption ::
  "string \<Rightarrow> stock_env \<Rightarrow> outgoing_input \<Rightarrow> stock_db \<Rightarrow> (movement_result \<times> stock_db) stock_result" where
  "recordInternalConsumption reason env input =
     record_outgoing OR_INTERNAL_CONSUMPTION ''inventory.internal-consumption'' ''internal'' AS_INTERNAL_CONSUMED EV_CONSUMED
       env (input\<lparr>og_notes := or_opt (og_notes input) (Some reason)\<rparr>)"

section \<open>Return\<close>

record return_input =
  rn_item :: string
  rn_source :: string
  rn_destination :: string
  rn_quantity :: rat
  rn_asset :: "string option"
  rn_serial :: "string option"
  rn_lot :: "string option"
  rn_targetStatus :: SerializedAssetStatus
  rn_notes :: "string option"
  rn_idempotencyKey :: "string option"

definition return_line :: "return_input \<Rightarrow> string \<Rightarrow> rat \<Rightarrow> ledger_line" where
  "return_line input loc quantity =
     \<lparr>ll_item = rn_item input, ll_location = loc, ll_quantity = quantity, ll_lot = rn_lot input,
      ll_asset = rn_asset input, ll_unitCost = None, ll_condition = None\<rparr>"

definition return_key :: "return_input \<Rightarrow> string" where
  "return_key input =
     (case trim_opt (rn_idempotencyKey input) of
        Some k \<Rightarrow> k
      | None \<Rightarrow> ''return:'' @ rn_source input @ '':'' @ rn_destination input @ '':'' @
          (case or_opt (rn_asset input) (rn_serial input) of Some s \<Rightarrow> s | None \<Rightarrow> rn_item input))"

definition return_movement :: "return_input \<Rightarrow> movement_input" where
  "return_movement input =
     (let quantity = unit_quantity (rn_asset input) (rn_serial input) (rn_quantity input);
          inTransit = (rn_targetStatus input = AS_IN_TRANSIT)
      in \<lparr>mi_origin = OR_RETURN, mi_originContext = ''inventory.return'',
          mi_originRefId = or_opt (rn_asset input) (or_opt (rn_serial input) (Some (rn_item input))),
          mi_idempotencyKey = return_key input, mi_notes = rn_notes input,
          mi_lines = return_line input (rn_source input) (- quantity)
            # (if inTransit then [] else [return_line input (rn_destination input) quantity]),
          mi_transitions =
            (if given (rn_asset input) \<or> given (rn_serial input)
             then [\<lparr>tr_asset = rn_asset input, tr_serial = rn_serial input, tr_toStatus = rn_targetStatus input,
                    tr_location = Some (if inTransit then None else Some (rn_destination input)),
                    tr_responsibleType = Some (if inTransit then RT_NONE else RT_WAREHOUSE),
                    tr_responsibleRef = Some None, tr_subscriber = None, tr_contract = None,
                    tr_eventType = Some EV_RETURNED, tr_restore = False\<rparr>]
             else []),
          mi_isReversal = False, mi_reversedBy = None\<rparr>)"

definition recordReturn ::
  "stock_env \<Rightarrow> return_input \<Rightarrow> stock_db \<Rightarrow> (movement_result \<times> stock_db) stock_result" where
  "recordReturn env input db =
     res_bind (recordMovement env (return_movement input) db) (\<lambda>(result, db1).
       if given (rn_asset input) \<or> given (rn_serial input)
       then res_bind (resolveForMovement (rn_asset input) (rn_serial input) db1) (\<lambda>found.
              Inr (result, (case found of None \<Rightarrow> db1 | Some asset \<Rightarrow> snd (closeOpenLoan (se_now env) (sa_id asset) db1))))
       else Inr (result, db1))"

section \<open>Write-off and adjustment\<close>

record write_off_input =
  wo_asset :: "string option"
  wo_item :: "string option"
  wo_location :: "string option"
  wo_quantity :: rat
  wo_reason :: WriteOffReason
  wo_notes :: "string option"
  wo_idempotencyKey :: "string option"

definition resolveWriteOffAssetStatus :: "WriteOffReason \<Rightarrow> SerializedAssetStatus" where
  "resolveWriteOffAssetStatus reason = (if reason = WR_LOST \<or> reason = WR_STOLEN then AS_LOST else AS_WRITTEN_OFF)"

text \<open>An absent value in a template literal prints as \<open>null\<close>, as the schema leaves it.\<close>

definition template_text :: "string option \<Rightarrow> string" where
  "template_text v = (case v of None \<Rightarrow> ''null'' | Some s \<Rightarrow> s)"

definition write_off_movement :: "write_off_input \<Rightarrow> string \<Rightarrow> movement_input" where
  "write_off_movement input loc =
     \<lparr>mi_origin = OR_WRITE_OFF, mi_originContext = ''inventory.write-off'',
      mi_originRefId = or_opt (wo_asset input) (wo_item input),
      mi_idempotencyKey =
        (case trim_opt (wo_idempotencyKey input) of
           Some k \<Rightarrow> k
         | None \<Rightarrow> ''writeoff:'' @ template_text (or_opt (wo_asset input) (wo_item input)) @ '':'' @
             write_off_text (wo_reason input) @ '':'' @ loc),
      mi_notes = wo_notes input,
      mi_lines = (if given (wo_item input)
        then [\<lparr>ll_item = the (wo_item input), ll_location = loc,
          ll_quantity = - (if given (wo_asset input) then 1 else wo_quantity input), ll_lot = None,
          ll_asset = wo_asset input, ll_unitCost = None, ll_condition = None\<rparr>]
        else []),
      mi_transitions = (case wo_asset input of
          None \<Rightarrow> []
        | Some a \<Rightarrow> [leaving_transition (Some a) None (resolveWriteOffAssetStatus (wo_reason input))
            (if resolveWriteOffAssetStatus (wo_reason input) = AS_LOST then EV_STATUS_CHANGED else EV_WRITTEN_OFF)]),
      mi_isReversal = False, mi_reversedBy = None\<rparr>"

definition recordWriteOff ::
  "stock_env \<Rightarrow> write_off_input \<Rightarrow> stock_db \<Rightarrow> (movement_result \<times> stock_db) stock_result" where
  "recordWriteOff env input db =
     (if \<not> given (wo_location input) then Inl (Bad_Input No_Location)
      else res_bind (recordMovement env (write_off_movement input (the (wo_location input))) db) (\<lambda>(result, db1).
        Inr (result, (case wo_asset input of None \<Rightarrow> db1 | Some a \<Rightarrow> snd (closeOpenLoan (se_now env) a db1)))))"

record adjustment_input =
  aj_item :: string
  aj_location :: string
  aj_lot :: "string option"
  aj_condition :: "StockBalanceCondition option"
  aj_quantityDelta :: rat
  aj_reason :: StockAdjustmentReason
  aj_notes :: "string option"
  aj_idempotencyKey :: string

definition recordAdjustment ::
  "stock_env \<Rightarrow> adjustment_input \<Rightarrow> stock_db \<Rightarrow> (movement_result \<times> stock_db) stock_result" where
  "recordAdjustment env input db =
     (case find_item (aj_item input) db of
        None \<Rightarrow> Inl (Missing No_Item)
      | Some item \<Rightarrow>
          res_bind (guard_ok (si_tracking item \<noteq> TM_SERIALIZED) (Bad_Input Serialized_Adjustment)) (\<lambda>_.
          res_bind (guard_ok (find_location (aj_location input) db \<noteq> None) (Missing No_Location)) (\<lambda>_.
            recordMovement env
              \<lparr>mi_origin = OR_ADJUSTMENT, mi_originContext = ''inventory.adjustment'',
               mi_originRefId = Some (adjustment_text (aj_reason input)),
               mi_idempotencyKey = js_trim (aj_idempotencyKey input), mi_notes = aj_notes input,
               mi_lines = [\<lparr>ll_item = aj_item input, ll_location = aj_location input, ll_quantity = aj_quantityDelta input,
                 ll_lot = aj_lot input, ll_asset = None, ll_unitCost = None, ll_condition = aj_condition input\<rparr>],
               mi_transitions = [], mi_isReversal = False, mi_reversedBy = None\<rparr> db)))"

end
