(* ===== verification/StockOrders.thy ===== *)
theory StockOrders
  imports StockLedger
begin

text \<open>
  The movements that an execution order (work order) asks of the stock ledger:
  \<open>recordExecutionOrderMovement\<close>, its signed variant for the requests of the operations module,
  and their reversal; the allocation of the lots of a technician's custody; and the location
  of a customer's site (\<open>customer-site-location.resolver.ts\<close>, with the codes of
  \<open>inventory-location-code.ts\<close>). The receipt the caller stores in the same transaction is a row
  of its own table and is left out.
\<close>

section \<open>Codes of locations\<close>

fun getStockLocationTypeCodePrefix :: "StockLocationType \<Rightarrow> string" where
  "getStockLocationTypeCodePrefix LT_MAIN_WAREHOUSE = ''BOD''"
| "getStockLocationTypeCodePrefix LT_MOBILE_TECHNICIAN = ''MOV''"
| "getStockLocationTypeCodePrefix LT_MOBILE_CREW = ''CRW''"
| "getStockLocationTypeCodePrefix LT_CUSTOMER_SITE = ''CLI''"
| "getStockLocationTypeCodePrefix LT_OFFICE_STOCK = ''OFI''"
| "getStockLocationTypeCodePrefix LT_NODE_STOCK = ''NOD''"
| "getStockLocationTypeCodePrefix LT_QUARANTINE = ''CUA''"
| "getStockLocationTypeCodePrefix LT_REPAIR = ''REP''"
| "getStockLocationTypeCodePrefix LT_SCRAP = ''SCR''"
| "getStockLocationTypeCodePrefix LT_INTERNAL_CONSUMPTION = ''INT''"

definition formatStockLocationCode :: "string \<Rightarrow> int \<Rightarrow> string" where
  "formatStockLocationCode prefix n = prefix @ CHR ''-'' # pad_num 3 n"

text \<open>\<open>/^([A-Z]{2,3})-(\d{3})$/\<close>, with its two groups.\<close>

definition code_match :: "string \<Rightarrow> (string \<times> string) option" where
  "code_match code =
     (let letters = takeWhile is_upper code; rest = dropWhile is_upper code in
      if (length letters = 2 \<or> length letters = 3) \<and> take 1 rest = ''-'' \<and> length (drop 1 rest) = 3
         \<and> list_all is_digit (drop 1 rest)
      then Some (letters, drop 1 rest) else None)"

definition parseStockLocationCodeSequence :: "string \<Rightarrow> string \<Rightarrow> int option" where
  "parseStockLocationCodeSequence code prefix =
     (case code_match code of
        None \<Rightarrow> None
      | Some (letters, digits) \<Rightarrow> if letters \<noteq> prefix then None else Some (parse_digits digits))"

definition resolveNextStockLocationCode :: "string list \<Rightarrow> StockLocationType \<Rightarrow> int \<Rightarrow> string" where
  "resolveNextStockLocationCode existing t offset =
     (let prefix = getStockLocationTypeCodePrefix t;
          maxSequence = foldl (\<lambda>m code. case parseStockLocationCodeSequence code prefix of
             None \<Rightarrow> m | Some n \<Rightarrow> if m < n then n else m) 0 existing
      in formatStockLocationCode prefix (maxSequence + 1 + offset))"

section \<open>The site of a customer\<close>

definition customer_site :: "string \<Rightarrow> stock_location \<Rightarrow> bool" where
  "customer_site subscriber l \<longleftrightarrow> sl_type l = LT_CUSTOMER_SITE \<and> sl_status l = LS_ACTIVE \<and> sl_responsible l = Some subscriber"

text \<open>
  The insertion cannot break a unique index: no migration gives \<open>stock_locations\<close> one that a
  customer site can violate. So the first attempt goes through and the retries never run.
\<close>

definition resolveOrCreateSite :: "stock_env \<Rightarrow> string \<Rightarrow> string option \<Rightarrow> stock_db \<Rightarrow> string \<times> stock_db" where
  "resolveOrCreateSite env subscriber label db =
     (case find (customer_site subscriber) (sd_locations db) of
        Some l \<Rightarrow> (sl_id l, db)
      | None \<Rightarrow>
          (let site = \<lparr>sl_id = se_location env,
             sl_code = resolveNextStockLocationCode (map sl_code (sd_locations db)) LT_CUSTOMER_SITE 0,
             sl_name = (if given (trim_opt label) then the (trim_opt label) else ''Sitio '' @ take 8 subscriber),
             sl_type = LT_CUSTOMER_SITE, sl_status = LS_ACTIVE, sl_responsible = Some subscriber, sl_maxCapacity = None\<rparr>
           in (sl_id site, db\<lparr>sd_locations := sd_locations db @ [site]\<rparr>)))"

section \<open>Allocation of lots\<close>

record execution_order_input =
  eo_order :: string
  eo_item :: string
  eo_custody :: string
  eo_quantity :: rat
  eo_serial :: "string option"
  eo_site :: "string option"
  eo_subscriber :: "string option"
  eo_contract :: "string option"
  eo_action :: ExecutionOrderItemAction
  eo_disposition :: InventoryDisposition
  eo_idempotencyKey :: "string option"

record lot_allocation =
  lt_lot :: "string option"
  lt_quantity :: rat

text \<open>The loop over the lots, oldest first; it returns what it allocated and what it still lacks.\<close>

fun allocate_lots :: "rat \<Rightarrow> lot_availability list \<Rightarrow> lot_allocation list \<times> rat" where
  "allocate_lots remaining [] = ([], remaining)"
| "allocate_lots remaining (lot # lots) =
     (if remaining \<le> 0 then ([], remaining)
      else let allocated = min remaining (max 0 (lv_available lot)) in
        if allocated \<le> 0 then allocate_lots remaining lots
        else case allocate_lots (of_int (math_round ((remaining - allocated) * 100)) / 100) lots of
          (allocations, rest) \<Rightarrow> (\<lparr>lt_lot = lv_lot lot, lt_quantity = allocated\<rparr> # allocations, rest))"

definition allocateExecutionOrderLots ::
  "execution_order_input \<Rightarrow> string \<Rightarrow> rat \<Rightarrow> string option \<Rightarrow> stock_db \<Rightarrow> lot_allocation list stock_result" where
  "allocateExecutionOrderLots input custody quantity assetLot db =
     (let availability = getAvailabilityAcrossLots (eo_item input) custody BC_NEW db;
          lots = getLotAvailabilities (eo_item input) custody BC_NEW db in
      res_bind (guard_ok (\<not> av_available availability < quantity) (Business_Rejection CUSTODY_INSUFFICIENT)) (\<lambda>_.
      if given (eo_serial input) \<and> assetLot \<noteq> None
      then (case find (\<lambda>lot. lv_lot lot = assetLot) lots of
              None \<Rightarrow> Inl (Business_Rejection CUSTODY_INSUFFICIENT)
            | Some lot \<Rightarrow>
                res_bind (guard_ok (\<not> lv_available lot < quantity) (Business_Rejection CUSTODY_INSUFFICIENT)) (\<lambda>_.
                  Inr [\<lparr>lt_lot = assetLot, lt_quantity = quantity\<rparr>]))
      else (case allocate_lots quantity lots of (allocations, remaining) \<Rightarrow>
              res_bind (guard_ok (\<not> 0 < remaining) (Business_Rejection CUSTODY_INSUFFICIENT)) (\<lambda>_. Inr allocations))))"

definition assertActiveTechnicianCustodyLocation :: "string \<Rightarrow> string \<Rightarrow> stock_db \<Rightarrow> unit stock_result" where
  "assertActiveTechnicianCustodyLocation responsible loc db =
     guard_ok (list_ex (\<lambda>l. sl_id l = loc \<and> sl_responsible l = Some responsible \<and> sl_type l = LT_MOBILE_TECHNICIAN
       \<and> sl_status l = LS_ACTIVE) (sd_locations db)) (Business_Rejection CUSTODY_INSUFFICIENT)"

text \<open>The asset of an item with a serial.\<close>

definition find_item_serial :: "string \<Rightarrow> string \<Rightarrow> stock_db \<Rightarrow> serialized_asset option" where
  "find_item_serial item serial db =
     find (\<lambda>a. sa_item a = item \<and> sa_normalizedSerial a = Some (normalizeSerial serial)) (sd_assets db)"

definition validateExecutionOrderInventoryRequest ::
  "execution_order_input \<Rightarrow> string \<Rightarrow> rat \<Rightarrow> stock_db \<Rightarrow> lot_allocation list stock_result" where
  "validateExecutionOrderInventoryRequest input custody quantity db =
     res_bind (guard_ok (case find_item (eo_item input) db of None \<Rightarrow> False | Some item \<Rightarrow> si_status item = IS_ACTIVE)
        (Business_Rejection ITEM_INACTIVE)) (\<lambda>_.
     if given (eo_serial input)
     then (case find_item_serial (eo_item input) (the (eo_serial input)) db of
             None \<Rightarrow> Inl (Business_Rejection SERIAL_NOT_IN_CUSTODY)
           | Some asset \<Rightarrow>
               res_bind (guard_ok (sa_location asset = Some custody \<and> sa_status asset = AS_ASSIGNED_TO_TECHNICIAN
                   \<and> sa_responsibleType asset = RT_TECHNICIAN) (Business_Rejection SERIAL_NOT_IN_CUSTODY)) (\<lambda>_.
                 allocateExecutionOrderLots input custody quantity (sa_lot asset) db))
     else allocateExecutionOrderLots input custody quantity None db)"

section \<open>Disposition of the material\<close>

fun mapExecutionOrderDispositionToStatus :: "InventoryDisposition \<Rightarrow> SerializedAssetStatus" where
  "mapExecutionOrderDispositionToStatus DI_INSTALLED_AT_CUSTOMER = AS_INSTALLED_COMODATO"
| "mapExecutionOrderDispositionToStatus DI_INTERNAL_CONSUMPTION = AS_INTERNAL_CONSUMED"
| "mapExecutionOrderDispositionToStatus DI_DAMAGED_OR_LOST = AS_LOST"
| "mapExecutionOrderDispositionToStatus DI_RETURNED_TO_WAREHOUSE = AS_AVAILABLE"
| "mapExecutionOrderDispositionToStatus DI_RETURNED_TO_TECHNICIAN_STOCK = AS_ASSIGNED_TO_TECHNICIAN"

fun mapExecutionOrderResponsibleType :: "InventoryDisposition \<Rightarrow> InventoryResponsibleType" where
  "mapExecutionOrderResponsibleType DI_INSTALLED_AT_CUSTOMER = RT_CUSTOMER"
| "mapExecutionOrderResponsibleType DI_RETURNED_TO_TECHNICIAN_STOCK = RT_TECHNICIAN"
| "mapExecutionOrderResponsibleType DI_RETURNED_TO_WAREHOUSE = RT_WAREHOUSE"
| "mapExecutionOrderResponsibleType _ = RT_NONE"

definition resolveExecutionOrderCurrentLocationId ::
  "InventoryDisposition \<Rightarrow> string \<Rightarrow> string option \<Rightarrow> string option \<Rightarrow> string option" where
  "resolveExecutionOrderCurrentLocationId disposition custody site warehouse =
     (case disposition of
        DI_INSTALLED_AT_CUSTOMER \<Rightarrow> site
      | DI_RETURNED_TO_TECHNICIAN_STOCK \<Rightarrow> Some custody
      | DI_RETURNED_TO_WAREHOUSE \<Rightarrow> warehouse
      | _ \<Rightarrow> None)"

definition mapExecutionOrderResponsibleRefId :: "execution_order_input \<Rightarrow> string option \<Rightarrow> string option" where
  "mapExecutionOrderResponsibleRefId input site =
     (case eo_disposition input of
        DI_INSTALLED_AT_CUSTOMER \<Rightarrow> or_opt (trim_opt (eo_subscriber input)) site
      | DI_RETURNED_TO_TECHNICIAN_STOCK \<Rightarrow> Some (eo_custody input)
      | _ \<Rightarrow> None)"

definition resolveExecutionOrderCustomerSiteLocation ::
  "stock_env \<Rightarrow> execution_order_input \<Rightarrow> stock_db \<Rightarrow> (string option \<times> stock_db) stock_result" where
  "resolveExecutionOrderCustomerSiteLocation env input db =
     (if eo_disposition input \<noteq> DI_INSTALLED_AT_CUSTOMER then Inr (None, db)
      else if given (trim_opt (eo_site input)) then Inr (trim_opt (eo_site input), db)
      else res_bind (guard_ok (given (trim_opt (eo_subscriber input))) (Bad_Input No_Subscriber)) (\<lambda>_.
        (case resolveOrCreateSite env (js_trim (the (eo_subscriber input))) None db of (site, db') \<Rightarrow> Inr (Some site, db'))))"

definition resolveMainWarehouseLocationId :: "stock_db \<Rightarrow> string stock_result" where
  "resolveMainWarehouseLocationId db =
     (case find (\<lambda>l. sl_type l = LT_MAIN_WAREHOUSE) (sd_locations db) of
        None \<Rightarrow> Inl (Bad_Input No_Main_Warehouse) | Some l \<Rightarrow> Inr (sl_id l))"

definition order_line :: "execution_order_input \<Rightarrow> string \<Rightarrow> string option \<Rightarrow> rat \<Rightarrow> ledger_line" where
  "order_line input loc lot quantity =
     \<lparr>ll_item = eo_item input, ll_location = loc, ll_quantity = quantity, ll_lot = lot, ll_asset = None,
      ll_unitCost = None, ll_condition = None\<rparr>"

text \<open>Where the material of an allocation goes, if it stays in the stock.\<close>

definition allocation_lines ::
  "execution_order_input \<Rightarrow> string \<Rightarrow> string option \<Rightarrow> string option \<Rightarrow> lot_allocation \<Rightarrow> ledger_line list" where
  "allocation_lines input custody site warehouse a =
     order_line input custody (lt_lot a) (- lt_quantity a)
     # (if eo_disposition input = DI_INSTALLED_AT_CUSTOMER \<and> given site
        then [order_line input (the site) (lt_lot a) (lt_quantity a)] else [])
     @ (if eo_disposition input = DI_RETURNED_TO_WAREHOUSE
        then [order_line input (the warehouse) (lt_lot a) (lt_quantity a)] else [])
     @ (if eo_disposition input = DI_RETURNED_TO_TECHNICIAN_STOCK
        then [order_line input custody (lt_lot a) (lt_quantity a)] else [])"

definition buildExecutionOrderMovementLines ::
  "execution_order_input \<Rightarrow> lot_allocation list \<Rightarrow> string \<Rightarrow> string option \<Rightarrow> string option \<Rightarrow> ledger_line list stock_result" where
  "buildExecutionOrderMovementLines input allocations custody site warehouse =
     res_bind (guard_ok (\<not> (eo_disposition input = DI_RETURNED_TO_WAREHOUSE \<and> allocations \<noteq> [] \<and> \<not> given warehouse))
        (Bad_Input No_Main_Warehouse)) (\<lambda>_.
       Inr (concat (map (allocation_lines input custody site warehouse) allocations)))"

section \<open>The movement of an order\<close>

definition order_key :: "execution_order_input \<Rightarrow> rat \<Rightarrow> string" where
  "order_key input quantity =
     (case trim_opt (eo_idempotencyKey input) of
        Some k \<Rightarrow> k
      | None \<Rightarrow> ''eo:'' @ eo_order input @ '':'' @ eo_item input @ '':'' @ eo_custody input @ '':'' @
          item_action_text (eo_action input) @ '':'' @
          (case eo_serial input of Some s \<Rightarrow> s | None \<Rightarrow> show_number quantity))"

definition order_transitions ::
  "execution_order_input \<Rightarrow> string option \<Rightarrow> string option \<Rightarrow> asset_transition list" where
  "order_transitions input current site =
     (case eo_serial input of
        None \<Rightarrow> []
      | Some serial \<Rightarrow>
          (let installed = (eo_disposition input = DI_INSTALLED_AT_CUSTOMER) in
           [\<lparr>tr_asset = None, tr_serial = Some serial,
             tr_toStatus = mapExecutionOrderDispositionToStatus (eo_disposition input),
             tr_location = Some current,
             tr_responsibleType = Some (mapExecutionOrderResponsibleType (eo_disposition input)),
             tr_responsibleRef = Some (mapExecutionOrderResponsibleRefId input site),
             tr_subscriber = Some (if installed then eo_subscriber input else None),
             tr_contract = Some (if installed then eo_contract input else None),
             tr_eventType = Some EV_INSTALLED, tr_restore = False\<rparr>]))"

definition order_allocations ::
  "bool \<Rightarrow> execution_order_input \<Rightarrow> string \<Rightarrow> rat \<Rightarrow> stock_db \<Rightarrow> lot_allocation list stock_result" where
  "order_allocations validate input custody quantity db =
     (if validate
      then res_bind (assertActiveTechnicianCustodyLocation (eo_custody input) custody db) (\<lambda>_.
             validateExecutionOrderInventoryRequest input custody quantity db)
      else allocateExecutionOrderLots input custody quantity
             (if given (eo_serial input)
              then (case find_item_serial (eo_item input) (the (eo_serial input)) db of None \<Rightarrow> None | Some a \<Rightarrow> sa_lot a)
              else None) db)"

definition order_movement ::
  "execution_order_input \<Rightarrow> rat \<Rightarrow> ledger_line list \<Rightarrow> asset_transition list \<Rightarrow> movement_input" where
  "order_movement input quantity movementLines transitions =
     \<lparr>mi_origin = OR_EXECUTION_ORDER, mi_originContext = ''tasks.execution-order'',
      mi_originRefId = Some (eo_order input), mi_idempotencyKey = order_key input quantity,
      mi_notes = Some (''Movimiento originado desde OT ('' @ item_action_text (eo_action input) @ '').''),
      mi_lines = movementLines, mi_transitions = transitions, mi_isReversal = False, mi_reversedBy = None\<rparr>"

text \<open>The loan that an installation with a serial opens.\<close>

definition open_installation_loan ::
  "stock_env \<Rightarrow> execution_order_input \<Rightarrow> stock_movement \<Rightarrow> stock_db \<Rightarrow> stock_db stock_result" where
  "open_installation_loan env input movement db =
     (if eo_disposition input = DI_INSTALLED_AT_CUSTOMER \<and> eo_serial input \<noteq> None \<and> given (eo_subscriber input)
      then res_bind (resolveForMovement None (eo_serial input) db) (\<lambda>found.
        Inr (case found of
               None \<Rightarrow> db
             | Some asset \<Rightarrow> snd (openLoan env (sa_id asset) (the (eo_subscriber input)) (eo_contract input)
                 (Some (eo_order input)) (mv_id movement) db)))
      else Inr db)"

definition recordExecutionOrderMovementInternal ::
  "bool \<Rightarrow> string option \<Rightarrow> stock_env \<Rightarrow> execution_order_input \<Rightarrow> stock_db \<Rightarrow> (movement_result \<times> stock_db) stock_result" where
  "recordExecutionOrderMovementInternal validate resolvedCustody env input db =
     (let quantity = (if given (eo_serial input) then 1 else eo_quantity input);
          custodyId = (if validate then resolvedCustody else Some (eo_custody input)) in
      res_bind (guard_ok (given custodyId) (Business_Rejection CUSTODY_INSUFFICIENT)) (\<lambda>_.
      (let custody = the custodyId in
       res_bind (order_allocations validate input custody quantity db) (\<lambda>allocations.
       res_bind (resolveExecutionOrderCustomerSiteLocation env input db) (\<lambda>(site, db1).
       res_bind (if eo_disposition input = DI_RETURNED_TO_WAREHOUSE
                 then res_bind (resolveMainWarehouseLocationId db1) (\<lambda>w. Inr (Some w)) else Inr None) (\<lambda>warehouse.
       res_bind (buildExecutionOrderMovementLines input allocations custody site warehouse) (\<lambda>movementLines.
       res_bind (recordMovement env (order_movement input quantity movementLines
           (order_transitions input
             (resolveExecutionOrderCurrentLocationId (eo_disposition input) custody site warehouse) site)) db1) (\<lambda>(result, db2).
       res_bind (open_installation_loan env input (mr_movement result) db2) (\<lambda>db3.
         Inr (result, db3))))))))))"

definition recordExecutionOrderMovement ::
  "stock_env \<Rightarrow> execution_order_input \<Rightarrow> stock_db \<Rightarrow> (movement_result \<times> stock_db) stock_result" where
  "recordExecutionOrderMovement = recordExecutionOrderMovementInternal False None"

definition recordExecutionOrderMovementForInventoryRequest ::
  "string \<Rightarrow> stock_env \<Rightarrow> execution_order_input \<Rightarrow> stock_db \<Rightarrow> (movement_result \<times> stock_db) stock_result" where
  "recordExecutionOrderMovementForInventoryRequest custody = recordExecutionOrderMovementInternal True (Some custody)"

section \<open>Reversal\<close>

record reversal_input =
  rv_order :: string
  rv_request :: string
  rv_movement :: string
  rv_custody :: string

text \<open>
  The lines of a movement in the order the reversal reads them: they share the creation time
  of their transaction, so the identifier decides.
\<close>

definition reversal_lines_of :: "string \<Rightarrow> stock_db \<Rightarrow> stock_movement_line list" where
  "reversal_lines_of movement db = js_sort (\<lambda>a b. js_le (ml_id a) (ml_id b)) (lines_of movement db)"

definition reverse_line :: "string option \<Rightarrow> stock_movement_line \<Rightarrow> ledger_line" where
  "reverse_line asset l =
     \<lparr>ll_item = ml_item l, ll_location = ml_location l, ll_quantity = - toNumeric (ml_quantity l), ll_lot = ml_lot l,
      ll_asset = or_opt asset (ml_asset l), ll_unitCost = ml_unitCost l, ll_condition = Some BC_NEW\<rparr>"

definition reversible_lines :: "stock_movement_line list \<Rightarrow> bool" where
  "reversible_lines ls \<longleftrightarrow>
     (let negative = filter (\<lambda>l. ml_quantity l < 0) ls in
      negative \<noteq> [] \<and> list_all (\<lambda>l. ml_quantity l \<noteq> 0) ls
      \<and> list_all (\<lambda>l. ml_item l = ml_item (hd negative)) ls
      \<and> list_all (\<lambda>l. ml_location l = ml_location (hd negative)) negative)"

definition restoring_transition :: "reversal_input \<Rightarrow> string \<Rightarrow> string \<Rightarrow> asset_transition" where
  "restoring_transition input asset source =
     \<lparr>tr_asset = Some asset, tr_serial = None, tr_toStatus = AS_ASSIGNED_TO_TECHNICIAN, tr_location = Some (Some source),
      tr_responsibleType = Some RT_TECHNICIAN, tr_responsibleRef = Some (Some (rv_custody input)),
      tr_subscriber = Some None, tr_contract = Some None, tr_eventType = Some EV_RETURNED, tr_restore = True\<rparr>"

text \<open>The asset that the movement touched: still where the movement left it, with its loan closed again.\<close>

definition reverse_asset ::
  "stock_env \<Rightarrow> reversal_input \<Rightarrow> stock_movement \<Rightarrow> string \<Rightarrow> lifecycle_event \<Rightarrow> stock_db \<Rightarrow>
    (asset_transition \<times> stock_db) stock_result" where
  "reverse_asset env input original source event db =
     (case le_to event of
        None \<Rightarrow> Inl (Business_Rejection REVERSAL_ORIGINAL_NOT_FOUND)
      | Some left_in \<Rightarrow>
          (case find_asset (le_asset event) db of
             None \<Rightarrow> Inl (Business_Rejection REVERSAL_ORIGINAL_NOT_FOUND)
           | Some asset \<Rightarrow>
               res_bind (guard_ok (sa_status asset = left_in \<and> sa_location asset = le_location event
                   \<and> sa_responsibleRef asset = le_responsibleRef event) (Business_Rejection REVERSAL_ASSET_MOVED)) (\<lambda>_.
               res_bind (if left_in = AS_INSTALLED_COMODATO
                 then (case closeLoanForMovement (se_now env) (sa_id asset) (mv_id original) db of
                         (None, _) \<Rightarrow> Inl (Business_Rejection REVERSAL_LOAN_MISMATCH)
                       | (Some _, db1) \<Rightarrow> Inr db1)
                 else Inr db) (\<lambda>db1.
                 Inr (restoring_transition input (sa_id asset) source, db1)))))"

definition reversal_source :: "reversal_input \<Rightarrow> stock_movement_line list \<Rightarrow> stock_db \<Rightarrow> stock_location stock_result" where
  "reversal_source input ls db =
     (case find_location (ml_location (hd (filter (\<lambda>l. ml_quantity l < 0) ls))) db of
        None \<Rightarrow> Inl (Business_Rejection REVERSAL_ORIGINAL_NOT_FOUND)
      | Some loc \<Rightarrow>
          res_bind (guard_ok (sl_type loc = LT_MOBILE_TECHNICIAN \<and> sl_responsible loc = Some (rv_custody input))
             (Business_Rejection REVERSAL_ORIGINAL_NOT_FOUND)) (\<lambda>_.
          res_bind (guard_ok (sl_status loc = LS_ACTIVE) (Business_Rejection REVERSAL_CUSTODY_INACTIVE)) (\<lambda>_.
            Inr loc)))"

definition reversal_event ::
  "stock_item \<Rightarrow> stock_movement \<Rightarrow> stock_db \<Rightarrow> lifecycle_event option stock_result" where
  "reversal_event item original db =
     (let events = filter (\<lambda>e. le_movement e = Some (mv_id original)) (sd_events db) in
      res_bind (guard_ok (length events \<le> 1) (Business_Rejection REVERSAL_ORIGINAL_NOT_FOUND)) (\<lambda>_.
      res_bind (guard_ok (si_tracking item = TM_SERIALIZED \<longrightarrow> events \<noteq> []) (Business_Rejection REVERSAL_ORIGINAL_NOT_FOUND)) (\<lambda>_.
        Inr (case events of [] \<Rightarrow> None | e # _ \<Rightarrow> Some e))))"

definition reversal_movement ::
  "reversal_input \<Rightarrow> stock_movement \<Rightarrow> stock_movement_line list \<Rightarrow> asset_transition option \<Rightarrow> movement_input" where
  "reversal_movement input original ls t =
     \<lparr>mi_origin = OR_EXECUTION_ORDER_REVERSAL, mi_originContext = ''tasks.execution-order'',
      mi_originRefId = Some (mv_id original), mi_idempotencyKey = ''eo-reversal:'' @ rv_request input,
      mi_notes = Some ''Movimiento de reverso originado desde OT.'',
      mi_lines = map (reverse_line (case t of None \<Rightarrow> None | Some x \<Rightarrow> tr_asset x)) ls,
      mi_transitions = (case t of None \<Rightarrow> [] | Some x \<Rightarrow> [x]), mi_isReversal = True, mi_reversedBy = None\<rparr>"

definition reverseExecutionOrderMovement ::
  "stock_env \<Rightarrow> reversal_input \<Rightarrow> stock_db \<Rightarrow> (movement_result \<times> stock_db) stock_result" where
  "reverseExecutionOrderMovement env input db =
     (case find_movement (rv_movement input) db of
        None \<Rightarrow> Inl (Business_Rejection REVERSAL_ORIGINAL_NOT_FOUND)
      | Some original \<Rightarrow>
          res_bind (guard_ok (mv_origin original = OR_EXECUTION_ORDER \<and> mv_originContext original = ''tasks.execution-order''
              \<and> mv_originRefId original = Some (rv_order input)) (Business_Rejection REVERSAL_ORIGINAL_NOT_FOUND)) (\<lambda>_.
          res_bind (guard_ok (\<not> given (mv_reversedBy original)) (Business_Rejection REVERSAL_ASSET_MOVED)) (\<lambda>_.
          (let ls = reversal_lines_of (mv_id original) db in
           res_bind (guard_ok (reversible_lines ls) (Business_Rejection REVERSAL_ORIGINAL_NOT_FOUND)) (\<lambda>_.
           res_bind (reversal_source input ls db) (\<lambda>source.
           (case find_item (ml_item (hd (filter (\<lambda>l. ml_quantity l < 0) ls))) db of
              None \<Rightarrow> Inl (Business_Rejection REVERSAL_ORIGINAL_NOT_FOUND)
            | Some item \<Rightarrow>
                res_bind (reversal_event item original db) (\<lambda>event.
                res_bind (case event of
                    None \<Rightarrow> Inr (None, db)
                  | Some e \<Rightarrow> res_bind (reverse_asset env input original (sl_id source) e db) (\<lambda>(t, db1). Inr (Some t, db1))) (\<lambda>(t, db1).
                res_bind (recordMovement env (reversal_movement input original ls t) db1) (\<lambda>(result, db2).
                  Inr (result, put_movement (original\<lparr>mv_reversedBy := Some (mv_id (mr_movement result))\<rparr>) db2)))))))))))"

end
