(* ===== verification/StockInvariants.thy ===== *)
theory StockInvariants
  imports StockMovements StockOrders
begin

text \<open>
  What one movement does to the stock, and the operations of the ledger as the steps of a
  machine.
\<close>

section \<open>The lines of a movement\<close>

definition line_key :: "ledger_line \<Rightarrow> string \<times> string \<times> string option \<times> StockBalanceCondition" where
  "line_key l = (ll_item l, ll_location l, ll_lot l, condition_of l)"

text \<open>What a list of input lines adds to the balances whose tuple satisfies \<open>P\<close>.\<close>

definition moved :: "(string \<times> string \<times> string option \<times> StockBalanceCondition \<Rightarrow> bool) \<Rightarrow> ledger_line list \<Rightarrow> int" where
  "moved P ls = sum_list (map (\<lambda>l. cents_step (ll_quantity l)) (filter (\<lambda>l. P (line_key l)) ls))"

lemma moved_simps [simp]: "moved P [] = 0" "moved P (ls @ ms) = moved P ls + moved P ms"
    "moved P (l # ls) = (if P (line_key l) then cents_step (ll_quantity l) else 0) + moved P ls"
  by (simp_all add: moved_def)

text \<open>A row is the record of an input line.\<close>

definition books :: "stock_env \<Rightarrow> ledger_line \<Rightarrow> stock_movement_line \<Rightarrow> bool" where
  "books env l row \<longleftrightarrow> ml_movement row = se_movement env \<and> ml_item row = ll_item l \<and> ml_location row = ll_location l
     \<and> ml_lot row = ll_lot l \<and> ml_quantity row = toQuantity (ll_quantity l)"

lemma record_line_Inr:
  assumes "record_line env l st = Inr st'"
  obtains row db' where "st' = (fst st @ [row], db')" "books env l row" "ll_quantity l \<noteq> 0" "ml_id row = se_line env (length (fst st))"
    and "applyDelta (ll_item l) (ll_location l) (ll_lot l) (condition_of l) (ll_quantity l) 0
           (snd st\<lparr>sd_lines := sd_lines (snd st) @ [row]\<rparr>) = Inr db'"
  using assms
  by (force simp: record_line_def res_simps Let_def books_def ledger_row_def split: option.splits)

text \<open>What a movement leaves alone: everything but the balances and the lines, then everything but the assets and their events.\<close>

definition only_lines :: "stock_db \<Rightarrow> stock_db \<Rightarrow> bool" where
  "only_lines db db' \<longleftrightarrow> db' = db\<lparr>sd_balances := sd_balances db', sd_lines := sd_lines db'\<rparr>"

definition only_assets :: "stock_db \<Rightarrow> stock_db \<Rightarrow> bool" where
  "only_assets db db' \<longleftrightarrow> db' = db\<lparr>sd_assets := sd_assets db', sd_events := sd_events db'\<rparr>"

lemma only_lines_refl [simp]: "only_lines db db" by (simp add: only_lines_def)

lemma only_lines_trans: "only_lines a b \<Longrightarrow> only_lines b c \<Longrightarrow> only_lines a c"
  unfolding only_lines_def by (metis (no_types, lifting) stock_db.surjective stock_db.update_convs(4,6))

lemma only_assets_refl [simp]: "only_assets db db" by (simp add: only_assets_def)

lemma only_assets_trans: "only_assets a b \<Longrightarrow> only_assets b c \<Longrightarrow> only_assets a c"
  unfolding only_assets_def by (metis (no_types, lifting) stock_db.surjective stock_db.update_convs(7,8))

lemma only_lines_frame:
  "only_lines db db' \<Longrightarrow> sd_items db' = sd_items db \<and> sd_locations db' = sd_locations db \<and> sd_lots db' = sd_lots db
    \<and> sd_movements db' = sd_movements db \<and> sd_assets db' = sd_assets db \<and> sd_events db' = sd_events db \<and> sd_loans db' = sd_loans db"
  unfolding only_lines_def by (metis stock_db.select_convs stock_db.surjective stock_db.update_convs(4,6))

lemma only_assets_frame:
  "only_assets db db' \<Longrightarrow> sd_items db' = sd_items db \<and> sd_locations db' = sd_locations db \<and> sd_lots db' = sd_lots db
    \<and> sd_movements db' = sd_movements db \<and> sd_balances db' = sd_balances db \<and> sd_lines db' = sd_lines db \<and> sd_loans db' = sd_loans db"
  unfolding only_assets_def by (metis stock_db.select_convs stock_db.surjective stock_db.update_convs(7,8))

lemma record_line_effect:
  assumes "record_line env l (rows, db) = Inr (rows', db')" "balances_ok (sd_balances db)"
  shows "balances_ok (sd_balances db')"
    and "held P (sd_balances db') = held P (sd_balances db) + moved P [l]"
    and "committed P (sd_balances db') = committed P (sd_balances db)"
    and "\<exists>row. rows' = rows @ [row] \<and> sd_lines db' = sd_lines db @ [row] \<and> books env l row \<and> ml_id row = se_line env (length rows)"
    and "only_lines db db'" and "ll_quantity l \<noteq> 0"
proof -
  from assms(1) obtain row where row: "rows' = rows @ [row]" "books env l row" "ll_quantity l \<noteq> 0" "ml_id row = se_line env (length rows)"
      and delta: "applyDelta (ll_item l) (ll_location l) (ll_lot l) (condition_of l) (ll_quantity l) 0
        (db\<lparr>sd_lines := sd_lines db @ [row]\<rparr>) = Inr db'"
    by (elim record_line_Inr) auto
  have d: "distinct (map balance_key (sd_balances (db\<lparr>sd_lines := sd_lines db @ [row]\<rparr>)))"
    using assms(2) by (simp add: balances_ok_def)
  show "balances_ok (sd_balances db')" using applyDelta_ok [OF delta] assms(2) by simp
  show "held P (sd_balances db') = held P (sd_balances db) + moved P [l]"
    using applyDelta_held(1) [OF delta d, of P] by (simp add: line_key_def)
  show "committed P (sd_balances db') = committed P (sd_balances db)"
    using applyDelta_held(2) [OF delta d, of P] by simp
  obtain bs where db': "db' = db\<lparr>sd_lines := sd_lines db @ [row], sd_balances := bs\<rparr>" by (rule applyDelta_frame [OF delta])
  then show "\<exists>row. rows' = rows @ [row] \<and> sd_lines db' = sd_lines db @ [row] \<and> books env l row \<and> ml_id row = se_line env (length rows)"
    using row by auto
  show "only_lines db db'" using db' by (simp add: only_lines_def)
  show "ll_quantity l \<noteq> 0" by (rule row(3))
qed

lemma record_lines_effect:
  assumes "res_fold (record_line env) ls (rows, db) = Inr (rows', db')" "balances_ok (sd_balances db)"
  shows "balances_ok (sd_balances db')
    \<and> (\<forall>P. held P (sd_balances db') = held P (sd_balances db) + moved P ls)
    \<and> (\<forall>P. committed P (sd_balances db') = committed P (sd_balances db))
    \<and> (\<exists>new. rows' = rows @ new \<and> sd_lines db' = sd_lines db @ new \<and> list_all2 (books env) ls new
         \<and> map ml_id new = map (se_line env) [length rows ..< length rows + length ls])
    \<and> only_lines db db' \<and> list_all (\<lambda>l. ll_quantity l \<noteq> 0) ls"
  using assms
proof (induction ls arbitrary: rows db)
  case (Cons l ls)
  from Cons.prems(1) obtain rows1 db1 where st: "record_line env l (rows, db) = Inr (rows1, db1)"
      "res_fold (record_line env) ls (rows1, db1) = Inr (rows', db')"
    by (auto simp: res_simps)
  note one = record_line_effect [OF st(1) Cons.prems(2)]
  from one(4) obtain row where row: "rows1 = rows @ [row]" "sd_lines db1 = sd_lines db @ [row]" "books env l row"
      "ml_id row = se_line env (length rows)" by blast
  have ih: "balances_ok (sd_balances db')"
      "\<And>P. held P (sd_balances db') = held P (sd_balances db1) + moved P ls"
      "\<And>P. committed P (sd_balances db') = committed P (sd_balances db1)"
      "only_lines db1 db'" "list_all (\<lambda>l. ll_quantity l \<noteq> 0) ls"
    using Cons.IH [OF st(2) one(1)] by simp_all
  from Cons.IH [OF st(2) one(1)] obtain new where new: "rows' = rows1 @ new" "sd_lines db' = sd_lines db1 @ new"
      "list_all2 (books env) ls new" "map ml_id new = map (se_line env) [length rows1 ..< length rows1 + length ls]" by blast
  have "map ml_id (row # new) = map (se_line env) [length rows ..< length rows + length (l # ls)]"
    using new(4) row(1,4) by (simp add: upt_rec [of "length rows"] del: upt.simps)
  with ih new row one only_lines_trans [OF one(5) ih(4)] show ?case
    by (auto intro!: exI [of _ "row # new"])
qed simp

text \<open>What is booked under a predicate on item, location and lot.\<close>

definition booked :: "(string \<times> string \<times> string option \<Rightarrow> bool) \<Rightarrow> stock_movement_line list \<Rightarrow> int" where
  "booked Q rows = sum_list (map ml_quantity (filter (\<lambda>r. Q (ml_item r, ml_location r, ml_lot r)) rows))"

lemma booked_simps [simp]: "booked Q [] = 0" "booked Q (rs @ ss) = booked Q rs + booked Q ss"
    "booked Q (r # rs) = (if Q (ml_item r, ml_location r, ml_lot r) then ml_quantity r else 0) + booked Q rs"
  by (simp_all add: booked_def)

text \<open>A predicate on item, location and lot, over every condition.\<close>

definition any_condition ::
  "(string \<times> string \<times> string option \<Rightarrow> bool) \<Rightarrow> string \<times> string \<times> string option \<times> StockBalanceCondition \<Rightarrow> bool" where
  "any_condition Q k = (case k of (item, loc, lot, _) \<Rightarrow> Q (item, loc, lot))"

text \<open>The quantity moves the balance by what its line books.\<close>

definition exact_quantity :: "rat \<Rightarrow> bool" where
  "exact_quantity q \<longleftrightarrow> cents_step q = toQuantity q"

lemma exact_two_decimals [simp]: "two_decimals q \<Longrightarrow> exact_quantity q"
  by (simp add: exact_quantity_def cents_step_two_decimals)

lemma booked_moved:
  assumes "list_all2 (books env) ls rows" "list_all (\<lambda>l. exact_quantity (ll_quantity l)) ls"
  shows "booked Q rows = moved (any_condition Q) ls"
  using assms by (induction rule: list_all2_induct) (auto simp: books_def exact_quantity_def any_condition_def line_key_def)

section \<open>The transitions of a movement\<close>

definition asset_status :: "string \<Rightarrow> stock_db \<Rightarrow> SerializedAssetStatus option" where
  "asset_status i db = map_option sa_status (find_asset i db)"

definition status_step :: "SerializedAssetStatus \<Rightarrow> SerializedAssetStatus \<Rightarrow> bool" where
  "status_step s t \<longleftrightarrow> t \<in> set (allowed_next s)"

text \<open>Every asset of the first database is in the second, its status moved along the table.\<close>

definition lawful_statuses :: "stock_db \<Rightarrow> stock_db \<Rightarrow> bool" where
  "lawful_statuses db db' \<longleftrightarrow>
     (\<forall>i s. asset_status i db = Some s \<longrightarrow> (\<exists>t. asset_status i db' = Some t \<and> status_step\<^sup>*\<^sup>* s t))"

lemma lawful_statuses_refl: "sd_assets db' = sd_assets db \<Longrightarrow> lawful_statuses db db'"
  by (auto simp: lawful_statuses_def asset_status_def find_asset_def)

lemma lawful_statuses_append: "sd_assets db' = sd_assets db @ as \<Longrightarrow> lawful_statuses db db'"
  by (auto simp: lawful_statuses_def asset_status_def find_asset_def find_append)

lemma lawful_statuses_trans: "lawful_statuses a b \<Longrightarrow> lawful_statuses b c \<Longrightarrow> lawful_statuses a c"
  unfolding lawful_statuses_def by (meson rtranclp_trans)

lemma terminal_stays: "status_step\<^sup>*\<^sup>* s t \<Longrightarrow> terminal_status s \<Longrightarrow> t = s"
  by (induction rule: converse_rtranclp_induct) (auto simp: status_step_def terminal_status_def)

lemma find_asset_id: "find_asset i db = Some a \<Longrightarrow> sa_id a = i"
  by (auto simp: find_asset_def dest: find_Some_iff_hd)

lemma find_asset_known: "distinct (map sa_id (sd_assets db)) \<Longrightarrow> a \<in> set (sd_assets db) \<Longrightarrow> find_asset (sa_id a) db = Some a"
proof -
  have "distinct (map sa_id as) \<Longrightarrow> a \<in> set as \<Longrightarrow> find (\<lambda>r. sa_id r = sa_id a) as = Some a" for as
    by (induction as) auto
  then show "distinct (map sa_id (sd_assets db)) \<Longrightarrow> a \<in> set (sd_assets db) \<Longrightarrow> ?thesis" by (simp add: find_asset_def)
qed

lemma transitionAsset_effect:
  assumes "transitionAsset t db = Inr (a', db')" "assets_ok (sd_assets db)"
  shows "assets_ok (sd_assets db')" and "\<not> tr_restore t \<Longrightarrow> lawful_statuses db db'"
    and "map sa_id (sd_assets db') = map sa_id (sd_assets db)"
    and "find_asset (sa_id a') db' = Some a'" and "sa_status a' = tr_toStatus t"
    and "\<And>i. i \<noteq> sa_id a' \<Longrightarrow> find_asset i db' = find_asset i db"
    and "only_assets db db'"
proof -
  from assms(1) obtain a where a: "a \<in> set (sd_assets db)" "a' = transitioned t a" "db' = put_asset a' db"
      "tr_restore t \<or> sa_status a = tr_toStatus t \<or> tr_toStatus t \<in> set (allowed_next (sa_status a))"
    by (rule transitionAsset_Inr)
  have d: "distinct (map sa_id (sd_assets db))" using assms(2) by (simp add: assets_ok_def)
  show "assets_ok (sd_assets db')" using assets_ok_put [OF assms(2) a(1)] a by simp
  show "sa_status a' = tr_toStatus t" by (simp add: a)
  have found: "find_asset i db' = (if i = sa_id a' then Some a' else find_asset i db)" for i
    unfolding a(3) by (rule find_put_asset [OF d]) (use a in auto)
  then show "find_asset (sa_id a') db' = Some a'" "\<And>i. i \<noteq> sa_id a' \<Longrightarrow> find_asset i db' = find_asset i db" by simp_all
  show "map sa_id (sd_assets db') = map sa_id (sd_assets db)"
    unfolding a(3) by (rule map_put_asset [OF d a(1)]) (simp_all add: a)
  show "only_assets db db'" by (simp add: a(3) only_assets_def put_asset_def)
  show "lawful_statuses db db'" if "\<not> tr_restore t"
  proof -
    have "status_step\<^sup>*\<^sup>* (sa_status a) (sa_status a')" using a that by (auto simp: status_step_def)
    moreover have "find_asset (sa_id a) db = Some a" by (rule find_asset_known [OF d a(1)])
    ultimately show ?thesis unfolding lawful_statuses_def asset_status_def found by (auto simp: a(2))
  qed
qed

lemma record_transition_Inr:
  assumes "record_transition env notes t db = Inr db'"
  obtains a a' db1 where "resolveForMovement (tr_asset t) (tr_serial t) db = Inr (Some a)"
    and "transitionAsset (t\<lparr>tr_asset := Some (sa_id a), tr_serial := None\<rparr>) db = Inr (a', db1)"
    and "db' = record_event \<lparr>le_asset = sa_id a', le_type = overwrite (tr_eventType t) EV_STATUS_CHANGED,
        le_from = Some (sa_status a), le_to = Some (sa_status a'), le_location = sa_location a',
        le_responsibleRef = sa_responsibleRef a', le_notes = notes, le_actor = Some (se_actor env),
        le_movement = Some (se_movement env)\<rparr> db1"
proof -
  from assms obtain found where found: "resolveForMovement (tr_asset t) (tr_serial t) db = Inr found"
    by (auto simp: record_transition_def res_simps)
  with assms obtain a where "found = Some a" by (cases found) (simp_all add: record_transition_def)
  with assms found that show ?thesis by (fastforce simp: record_transition_def res_simps)
qed

lemma record_transition_effect:
  assumes "record_transition env notes t db = Inr db'" "assets_ok (sd_assets db)"
  shows "assets_ok (sd_assets db')" and "\<not> tr_restore t \<Longrightarrow> lawful_statuses db db'"
    and "map sa_id (sd_assets db') = map sa_id (sd_assets db)" and "only_assets db db'"
proof -
  obtain a :: serialized_asset and a' db1 e where st:
      "transitionAsset (t\<lparr>tr_asset := Some (sa_id a), tr_serial := None\<rparr>) db = Inr (a', db1)" "db' = record_event e db1"
    by (rule record_transition_Inr [OF assms(1)]) (rule that)
  note one = transitionAsset_effect [OF st(1) assms(2)]
  show "assets_ok (sd_assets db')" using one(1) by (simp add: st(2) record_event_def)
  show "lawful_statuses db db'" if "\<not> tr_restore t"
    using one(2) that by (simp add: st(2) record_event_def lawful_statuses_def asset_status_def find_asset_def)
  show "map sa_id (sd_assets db') = map sa_id (sd_assets db)" using one(3) by (simp add: st(2) record_event_def)
  have "only_assets db1 db'" by (simp add: st(2) record_event_def only_assets_def)
  with one(7) show "only_assets db db'" by (rule only_assets_trans)
qed

lemma record_transitions_effect:
  assumes "res_fold (record_transition env notes) ts db = Inr db'" "assets_ok (sd_assets db)"
  shows "assets_ok (sd_assets db') \<and> (list_all (\<lambda>t. \<not> tr_restore t) ts \<longrightarrow> lawful_statuses db db')
    \<and> map sa_id (sd_assets db') = map sa_id (sd_assets db) \<and> only_assets db db'"
  using assms
proof (induction ts arbitrary: db)
  case Nil
  then show ?case by (simp add: lawful_statuses_refl)
next
  case (Cons t ts)
  from Cons.prems(1) obtain db1 where st: "record_transition env notes t db = Inr db1"
      "res_fold (record_transition env notes) ts db1 = Inr db'"
    by (auto simp: res_simps)
  note one = record_transition_effect [OF st(1) Cons.prems(2)]
  show ?case using Cons.IH [OF st(2) one(1)] one by (auto intro: lawful_statuses_trans only_assets_trans)
qed

section \<open>A whole movement\<close>

definition stock_inv :: "stock_db \<Rightarrow> bool" where
  "stock_inv db \<longleftrightarrow> balances_ok (sd_balances db) \<and> assets_ok (sd_assets db)
     \<and> distinct (map mv_idempotencyKey (sd_movements db)) \<and> distinct (map mv_id (sd_movements db))
     \<and> set (map ml_movement (sd_lines db)) \<subseteq> set (map mv_id (sd_movements db))"

lemma recordMovement_replay:
  "mi_lines input \<noteq> [] \<Longrightarrow> find_by_key (mi_idempotencyKey input) db = Some m \<Longrightarrow>
    recordMovement env input db = Inr (\<lparr>mr_movement = m, mr_lines = lines_of (mv_id m) db, mr_created = False\<rparr>, db)"
  by (simp add: recordMovement_def recordMovementFrom_def)

lemma recordMovement_cases:
  assumes "recordMovement env input db = Inr (r, db')"
  obtains (replay) m where "find_by_key (mi_idempotencyKey input) db = Some m" "db' = db"
      "r = \<lparr>mr_movement = m, mr_lines = lines_of (mv_id m) db, mr_created = False\<rparr>"
    | (fresh) rows db1 where "find_by_key (mi_idempotencyKey input) db = None" "mi_lines input \<noteq> []"
      "movement_accepted (new_movement env input db) db"
      "r = \<lparr>mr_movement = new_movement env input db, mr_lines = rows, mr_created = True\<rparr>"
      "res_fold (record_line env) (mi_lines input) ([], db\<lparr>sd_movements := sd_movements db @ [new_movement env input db]\<rparr>) = Inr (rows, db1)"
      "res_fold (record_transition env (mi_notes input)) (mi_transitions input) db1 = Inr db'"
proof (cases "find_by_key (mi_idempotencyKey input) db")
  case (Some m)
  with assms show ?thesis by (intro replay) (auto simp: recordMovement_def recordMovementFrom_def res_simps)
next
  case None
  have ne: "mi_lines input \<noteq> []" using assms by (auto simp: recordMovement_def recordMovementFrom_def res_simps)
  from assms None obtain st where st:
      "res_fold (record_line env) (mi_lines input) ([], db\<lparr>sd_movements := sd_movements db @ [new_movement env input db]\<rparr>) = Inr st"
    by (auto simp: recordMovement_def recordMovementFrom_def Let_def res_simps)
  obtain rows db1 where "st = (rows, db1)" by (cases st)
  moreover have "movement_accepted (new_movement env input db) db"
    using assms None by (auto simp: recordMovement_def recordMovementFrom_def Let_def res_simps)
  ultimately show ?thesis using st None ne assms
    by (intro fresh [of rows db1]) (auto simp: recordMovement_def recordMovementFrom_def Let_def res_simps)
qed

text \<open>Everything a movement that is not a replay does.\<close>

lemma recordMovement_effect:
  assumes "recordMovement env input db = Inr (r, db')" "stock_inv db" "find_by_key (mi_idempotencyKey input) db = None"
  shows "stock_inv db'"
    and "held P (sd_balances db') = held P (sd_balances db) + moved P (mi_lines input)"
    and "committed P (sd_balances db') = committed P (sd_balances db)"
    and "\<exists>new. sd_lines db' = sd_lines db @ new \<and> mr_lines r = new \<and> list_all2 (books env) (mi_lines input) new
          \<and> map ml_id new = map (se_line env) [0 ..< length (mi_lines input)]"
    and "sd_movements db' = sd_movements db @ [new_movement env input db]"
    and "mr_movement r = new_movement env input db" "mr_created r"
    and "list_all (\<lambda>t. \<not> tr_restore t) (mi_transitions input) \<Longrightarrow> lawful_statuses db db'"
    and "sd_items db' = sd_items db" "sd_locations db' = sd_locations db" "sd_lots db' = sd_lots db" "sd_loans db' = sd_loans db"
    and "list_all (\<lambda>l. ll_quantity l \<noteq> 0) (mi_lines input)"
    and "find_movement (se_movement env) db = None"
proof -
  let ?db0 = "db\<lparr>sd_movements := sd_movements db @ [new_movement env input db]\<rparr>"
  have acc: "movement_accepted (new_movement env input db) db"
    using assms(1,3) by (elim recordMovement_cases) simp_all
  then show "find_movement (se_movement env) db = None" by (simp add: movement_accepted_def new_movement_def)
  then have "se_movement env \<notin> mv_id ` set (sd_movements db)" by (auto simp: find_movement_def find_None_all)
  moreover from assms(1,3) obtain rows db1 where st: "r = \<lparr>mr_movement = new_movement env input db, mr_lines = rows, mr_created = True\<rparr>"
      "res_fold (record_line env) (mi_lines input) ([], ?db0) = Inr (rows, db1)"
      "res_fold (record_transition env (mi_notes input)) (mi_transitions input) db1 = Inr db'"
    by (elim recordMovement_cases) simp_all
  have b: "balances_ok (sd_balances ?db0)" and a: "assets_ok (sd_assets db)" using assms(2) by (simp_all add: stock_inv_def)
  note ls = record_lines_effect [OF st(2) b]
  from ls have f1: "only_lines ?db0 db1" by simp
  note f1 = only_lines_frame [OF this]
  have "assets_ok (sd_assets db1)" using f1 a by simp
  note ts = record_transitions_effect [OF st(3) this]
  from ts have "only_assets db1 db'" by simp
  note f2 = only_assets_frame [OF this]
  moreover have "mi_idempotencyKey input \<notin> mv_idempotencyKey ` set (sd_movements db)"
    using assms(3) by (auto simp: find_by_key_def find_None_all)
  moreover obtain new where "sd_lines db1 = sd_lines db @ new" "list_all2 (books env) (mi_lines input) new" using ls by auto
  moreover from this(2) have "ml_movement ` set new \<subseteq> {se_movement env}"
    by (induction rule: list_all2_induct) (auto simp: books_def)
  ultimately show "stock_inv db'" using ls ts f1 f2 assms(2) by (auto simp: stock_inv_def new_movement_def)
  show "held P (sd_balances db') = held P (sd_balances db) + moved P (mi_lines input)" using ls f2 by simp
  show "committed P (sd_balances db') = committed P (sd_balances db)" using ls f2 by simp
  show "\<exists>new. sd_lines db' = sd_lines db @ new \<and> mr_lines r = new \<and> list_all2 (books env) (mi_lines input) new
          \<and> map ml_id new = map (se_line env) [0 ..< length (mi_lines input)]"
    using ls f2 st(1) by simp
  show "sd_movements db' = sd_movements db @ [new_movement env input db]" using f1 f2 by simp
  show "mr_movement r = new_movement env input db" "mr_created r" by (simp_all add: st(1))
  show "sd_items db' = sd_items db" "sd_locations db' = sd_locations db" "sd_lots db' = sd_lots db" "sd_loans db' = sd_loans db"
    using f1 f2 by simp_all
  show "list_all (\<lambda>l. ll_quantity l \<noteq> 0) (mi_lines input)" using ls by simp
  show "lawful_statuses db db'" if "list_all (\<lambda>t. \<not> tr_restore t) (mi_transitions input)"
    using ts that f1 lawful_statuses_refl [of db1 db] by (auto intro: lawful_statuses_trans)
qed

section \<open>The effect of an operation\<close>

text \<open>
  Every transaction on the stock is a chain of three kinds of effect: a movement whose quantities
  are admissible, a change of a reservation, and a change of rows that carry no stock.
\<close>

definition same_stock :: "stock_db \<Rightarrow> stock_db \<Rightarrow> bool" where
  "same_stock db db' \<longleftrightarrow> sd_balances db' = sd_balances db \<and> sd_lines db' = sd_lines db
     \<and> map mv_idempotencyKey (sd_movements db') = map mv_idempotencyKey (sd_movements db)
     \<and> map mv_id (sd_movements db') = map mv_id (sd_movements db)
     \<and> map mv_number (sd_movements db') = map mv_number (sd_movements db)
     \<and> (assets_ok (sd_assets db) \<longrightarrow> assets_ok (sd_assets db')) \<and> lawful_statuses db db'"

text \<open>\<open>restoring\<close> says whether a transition may restore a status that the table does not allow.\<close>

inductive stock_effect :: "(rat \<Rightarrow> bool) \<Rightarrow> bool \<Rightarrow> stock_db \<Rightarrow> stock_db \<Rightarrow> bool" for ok restoring where
  movement: "recordMovement env input db = Inr (r, db') \<Longrightarrow> list_all (\<lambda>l. ok (ll_quantity l)) (mi_lines input) \<Longrightarrow>
     restoring \<or> list_all (\<lambda>t. \<not> tr_restore t) (mi_transitions input) \<Longrightarrow> stock_effect ok restoring db db'"
| reservation: "applyDelta item loc lot cond 0 q db = Inr db' \<Longrightarrow> stock_effect ok restoring db db'"
| side: "same_stock db db' \<Longrightarrow> stock_effect ok restoring db db'"

inductive_cases stock_effectE: "stock_effect ok restoring db db'"

lemma same_stock_refl [simp]: "same_stock db db"
  by (simp add: same_stock_def lawful_statuses_refl)

lemma same_stock_openLoan [simp]: "same_stock db (snd (openLoan env i s c x m db))"
  by (simp add: same_stock_def lawful_statuses_refl)

lemma same_stock_close_loan [simp]: "same_stock db (snd (close_loan n P db))"
  by (simp add: same_stock_def lawful_statuses_refl)

lemma same_stock_closeOpenLoan [simp]: "same_stock db (snd (closeOpenLoan n i db))"
  by (simp add: closeOpenLoan_def)

lemma same_stock_closeLoanForMovement [simp]: "same_stock db (snd (closeLoanForMovement n i m db))"
  by (simp add: closeLoanForMovement_def)

lemma same_stock_site [simp]: "same_stock db (snd (resolveOrCreateSite env sub lbl db))"
  by (simp add: resolveOrCreateSite_def Let_def same_stock_def lawful_statuses_refl split: option.splits)

lemma same_stock_put_movement:
  "m \<in> set (sd_movements db) \<Longrightarrow> distinct (map mv_id (sd_movements db)) \<Longrightarrow> same_stock db (put_movement (m\<lparr>mv_reversedBy := x\<rparr>) db)"
  by (auto simp: same_stock_def put_movement_def distinct_map lawful_statuses_refl dest: inj_onD)

definition books_balance :: "stock_db \<Rightarrow> bool" where
  "books_balance db \<longleftrightarrow> (\<forall>Q. held (any_condition Q) (sd_balances db) = booked Q (sd_lines db))"

lemma stock_effect_inv:
  assumes "stock_effect ok restoring db db'" "stock_inv db"
  shows "stock_inv db'"
  using assms(1)
proof (cases rule: stock_effect.cases)
  case (movement env input r)
  show ?thesis
  proof (cases "find_by_key (mi_idempotencyKey input) db")
    case None
    show ?thesis by (rule recordMovement_effect(1) [OF movement(1) assms(2) None])
  next
    case (Some m)
    with movement(1) assms(2) show ?thesis by (elim recordMovement_cases) simp_all
  qed
next
  case (reservation item loc lot cond q)
  obtain bs where "db' = db\<lparr>sd_balances := bs\<rparr>" by (rule applyDelta_frame [OF reservation])
  with applyDelta_ok [OF reservation] assms(2) show ?thesis by (simp add: stock_inv_def)
next
  case side
  then have "set (map ml_movement (sd_lines db')) = set (map ml_movement (sd_lines db))"
      "set (map mv_id (sd_movements db')) = set (map mv_id (sd_movements db))" by (simp_all only: same_stock_def)
  with side assms(2) show ?thesis by (simp add: same_stock_def stock_inv_def)
qed

lemma stock_effect_lawful:
  assumes "stock_effect ok False db db'" "stock_inv db"
  shows "lawful_statuses db db'"
  using assms(1)
proof (cases rule: stock_effect.cases)
  case (movement env input r)
  show ?thesis
  proof (cases "find_by_key (mi_idempotencyKey input) db")
    case None
    show ?thesis by (rule recordMovement_effect(8) [OF movement(1) assms(2) None]) (use movement(3) in simp)
  next
    case (Some m)
    with movement(1) show ?thesis by (elim recordMovement_cases) (simp_all add: lawful_statuses_refl)
  qed
next
  case (reservation item loc lot cond q)
  obtain bs where "db' = db\<lparr>sd_balances := bs\<rparr>" by (rule applyDelta_frame [OF reservation])
  then show ?thesis by (simp add: lawful_statuses_refl)
next
  case side
  then show ?thesis by (simp add: same_stock_def)
qed

lemma stock_effect_books:
  assumes "stock_effect ok restoring db db'" "stock_inv db" "books_balance db" "\<And>q. ok q \<Longrightarrow> exact_quantity q"
  shows "books_balance db'"
  using assms(1)
proof (cases rule: stock_effect.cases)
  case (movement env input r)
  show ?thesis
  proof (cases "find_by_key (mi_idempotencyKey input) db")
    case None
    note e = recordMovement_effect [OF movement(1) assms(2) None]
    obtain new where new: "sd_lines db' = sd_lines db @ new" "list_all2 (books env) (mi_lines input) new" using e(4) by blast
    have "list_all (\<lambda>l. exact_quantity (ll_quantity l)) (mi_lines input)"
      using movement(2) assms(4) by (auto simp: list_all_iff)
    then show ?thesis using assms(3) e(2) booked_moved [OF new(2)] by (simp add: books_balance_def new(1))
  next
    case (Some m)
    with movement(1) assms(3) show ?thesis by (elim recordMovement_cases) simp_all
  qed
next
  case (reservation item loc lot cond q)
  obtain bs where "db' = db\<lparr>sd_balances := bs\<rparr>" by (rule applyDelta_frame [OF reservation])
  moreover have "distinct (map balance_key (sd_balances db))" using assms(2) by (simp add: stock_inv_def balances_ok_def)
  ultimately show ?thesis using applyDelta_held(1) [OF reservation] assms(3) by (simp add: books_balance_def)
next
  case side
  with assms(3) show ?thesis by (simp add: same_stock_def books_balance_def)
qed

end
