(* ===== verification/StockMachine.thy ===== *)
theory StockMachine
  imports StockInvariants
begin

text \<open>
  The operations of the stock ledger as the steps of a machine, over a class of admissible
  quantities: any quantity at all, or those that two decimals hold. Each operation is a chain of
  effects, so what every effect keeps holds in every state the machine reaches.
\<close>

section \<open>The machine\<close>

text \<open>The operations that write movements or register equipment.\<close>

inductive ledger_op :: "(rat \<Rightarrow> bool) \<Rightarrow> stock_db \<Rightarrow> stock_db \<Rightarrow> bool" for ok where
  op_movement: "recordMovement env input db = Inr (r, db') \<Longrightarrow> list_all (\<lambda>l. ok (ll_quantity l)) (mi_lines input) \<Longrightarrow>
     list_all (\<lambda>t. \<not> tr_restore t) (mi_transitions input) \<Longrightarrow> ledger_op ok db db'"
| op_transfer: "transfer env ti db = Inr (r, db') \<Longrightarrow> ok (ti_quantity ti) \<Longrightarrow> ledger_op ok db db'"
| op_issue_transfer: "recordStockIssueTransfer env it db = Inr (r, db') \<Longrightarrow> list_all (\<lambda>l. ok (sx_quantity l)) (it_lines it) \<Longrightarrow>
     ledger_op ok db db'"
| op_issue_sale: "recordStockIssueSale env io db = Inr (r, db') \<Longrightarrow> list_all (\<lambda>l. ok (sx_quantity l)) (io_lines io) \<Longrightarrow>
     ledger_op ok db db'"
| op_issue_consumption: "recordStockIssueInternalConsumption reason env io db = Inr (r, db') \<Longrightarrow>
     list_all (\<lambda>l. ok (sx_quantity l)) (io_lines io) \<Longrightarrow> ledger_op ok db db'"
| op_sale: "recordSale env og db = Inr (r, db') \<Longrightarrow> ok (og_quantity og) \<Longrightarrow> ledger_op ok db db'"
| op_consumption: "recordInternalConsumption reason env og db = Inr (r, db') \<Longrightarrow> ok (og_quantity og) \<Longrightarrow> ledger_op ok db db'"
| op_return: "recordReturn env rn db = Inr (r, db') \<Longrightarrow> ok (rn_quantity rn) \<Longrightarrow> ledger_op ok db db'"
| op_write_off: "recordWriteOff env wo db = Inr (r, db') \<Longrightarrow> ok (wo_quantity wo) \<Longrightarrow> ledger_op ok db db'"
| op_adjustment: "recordAdjustment env aj db = Inr (r, db') \<Longrightarrow> ok (aj_quantityDelta aj) \<Longrightarrow> ledger_op ok db db'"
| op_order: "recordExecutionOrderMovementInternal validate custody env eo db = Inr (r, db') \<Longrightarrow> ok (eo_quantity eo) \<Longrightarrow>
     ledger_op ok db db'"
| op_receive_asset: "createReceivedAsset newId ra db = Inr (a, db') \<Longrightarrow> newId \<notin> sa_id ` set (sd_assets db) \<Longrightarrow> ledger_op ok db db'"

inductive stock_op :: "(rat \<Rightarrow> bool) \<Rightarrow> stock_db \<Rightarrow> stock_db \<Rightarrow> bool" for ok where
  op_ledger: "ledger_op ok db db' \<Longrightarrow> stock_op ok db db'"
| op_reserve: "applyDelta item loc lot cond 0 q db = Inr db' \<Longrightarrow> stock_op ok db db'"

inductive stock_step :: "(rat \<Rightarrow> bool) \<Rightarrow> stock_db \<Rightarrow> stock_db \<Rightarrow> bool" for ok where
  operation: "stock_op ok db db' \<Longrightarrow> stock_step ok db db'"
| reversal: "reverseExecutionOrderMovement env rv db = Inr (r, db') \<Longrightarrow> stock_step ok db db'"

inductive_cases stock_stepE: "stock_step ok db db'"

text \<open>A schema with its catalogue and no stock yet.\<close>

definition empty_stock :: "stock_item list \<Rightarrow> stock_location list \<Rightarrow> stock_lot list \<Rightarrow> stock_db" where
  "empty_stock items locations lots =
     \<lparr>sd_items = items, sd_locations = locations, sd_lots = lots, sd_balances = [], sd_movements = [], sd_lines = [],
      sd_assets = [], sd_events = [], sd_loans = []\<rparr>"

section \<open>A class of quantities\<close>

text \<open>
  What the ledger makes of admissible quantities is admissible: one unit, the opposite of a
  quantity, and whatever is read back from the tables.
\<close>

locale quantity_class =
  fixes ok :: "rat \<Rightarrow> bool"
  assumes ok_one: "ok 1" and ok_minus: "ok q \<Longrightarrow> ok (- q)" and ok_stored: "ok (toNumeric n)"
begin

lemma ok_unit: "ok q \<Longrightarrow> ok (unit_quantity a s q)"
  by (simp add: unit_quantity_def ok_one)

lemma ok_minus_unit: "ok q \<Longrightarrow> ok (- unit_quantity a s q)"
  by (intro ok_minus ok_unit)

lemma issue_lines_ok:
  assumes "res_fold (issue_transfer_line dest it db) ls (xs, ts) = Inr (ys, us)"
    and "list_all (\<lambda>l. ok (sx_quantity l)) ls" "list_all (\<lambda>l. ok (ll_quantity l)) xs"
  shows "list_all (\<lambda>l. ok (ll_quantity l)) ys"
  using assms
proof (induction ls arbitrary: xs ts)
  case (Cons l ls)
  from Cons.prems(1) obtain xs1 ts1 where st: "issue_transfer_line dest it db l (xs, ts) = Inr (xs1, ts1)"
      "res_fold (issue_transfer_line dest it db) ls (xs1, ts1) = Inr (ys, us)"
    by (auto simp: res_simps)
  have "list_all (\<lambda>l. ok (ll_quantity l)) xs1"
    using st(1) Cons.prems(2,3)
    by (auto simp: issue_transfer_line_def Let_def res_simps issue_ledger_line_def issue_quantity_def ok_unit ok_minus_unit)
  with Cons.IH [OF st(2)] Cons.prems(2) show ?case by simp
qed simp

lemma allocate_lots_ok:
  assumes "allocate_lots q lots = (as, rest)" "ok q" "list_all (\<lambda>l. \<exists>n. lv_available l = toNumeric n) lots"
  shows "list_all (\<lambda>a. ok (lt_quantity a)) as"
  using assms
proof (induction q lots arbitrary: as rest rule: allocate_lots.induct)
  case (2 q lot lots)
  let ?a = "min q (max 0 (lv_available lot))"
  obtain n where n: "lv_available lot = toNumeric n" using "2.prems"(3) by auto
  have oka: "ok ?a"
  proof -
    have "max 0 (toNumeric n) = toNumeric (max 0 n)" by (simp add: max_def)
    then show ?thesis using "2.prems"(2) ok_stored by (simp add: n min_def)
  qed
  have okr: "ok (rat_of_int (math_round ((q - ?a) * 100)) / 100)"
    using ok_stored by (simp add: toNumeric_def)
  have ls: "list_all (\<lambda>l. \<exists>n. lv_available l = toNumeric n) lots" using "2.prems"(3) by simp
  show ?case
  proof (cases "q \<le> 0 \<or> ?a \<le> 0")
    case True
    show ?thesis
    proof (cases "q \<le> 0")
      case True
      then show ?thesis using "2.prems"(1) by simp
    next
      case False
      with \<open>q \<le> 0 \<or> ?a \<le> 0\<close> have a: "?a \<le> 0" by simp
      then have "allocate_lots q (lot # lots) = allocate_lots q lots" using False by (simp only: allocate_lots.simps Let_def if_True if_False)
      with "2.prems"(1) have "allocate_lots q lots = (as, rest)" by simp
      then show ?thesis by (rule "2.IH"(1) [OF False refl a _ "2.prems"(2) ls])
    qed
  next
    case False
    obtain bs r where bs: "allocate_lots (rat_of_int (math_round ((q - ?a) * 100)) / 100) lots = (bs, r)" by fastforce
    from False have "list_all (\<lambda>a. ok (lt_quantity a)) bs"
      by (intro "2.IH"(2) [OF _ refl _ bs okr ls]) auto
    then show ?thesis using "2.prems"(1) False oka bs by (auto simp: Let_def)
  qed
qed simp

lemma lots_available_stored: "list_all (\<lambda>l. \<exists>n. lv_available l = toNumeric n) (getLotAvailabilities item loc cond db)"
  by (auto simp: getLotAvailabilities_def list_all_iff lot_availability_of_def Let_def computeAvailable_def roundQty_eq)

lemma allocations_ok:
  assumes "allocateExecutionOrderLots eo custody q lot db = Inr as" "ok q"
  shows "list_all (\<lambda>a. ok (lt_quantity a)) as"
  using assms allocate_lots_ok [OF _ assms(2) lots_available_stored]
  by (fastforce simp: allocateExecutionOrderLots_def Let_def res_simps split: if_splits option.splits prod.splits)

lemma order_allocations_ok:
  assumes "order_allocations validate eo custody q db = Inr as" "ok q"
  shows "list_all (\<lambda>a. ok (lt_quantity a)) as"
  using assms allocations_ok
  by (auto simp: order_allocations_def validateExecutionOrderInventoryRequest_def res_simps split: if_splits option.splits)

lemma order_lines_ok:
  assumes "buildExecutionOrderMovementLines eo as custody site warehouse = Inr ls" "list_all (\<lambda>a. ok (lt_quantity a)) as"
  shows "list_all (\<lambda>l. ok (ll_quantity l)) ls"
  using assms ok_minus
  by (auto simp: buildExecutionOrderMovementLines_def res_simps list_all_iff allocation_lines_def order_line_def)

end

interpretation any_quantity: quantity_class "\<lambda>_. True"
  by unfold_locales simp_all

interpretation cents: quantity_class two_decimals
  by unfold_locales simp_all

section \<open>Operations as chains of effects\<close>

abbreviation effects :: "(rat \<Rightarrow> bool) \<Rightarrow> bool \<Rightarrow> stock_db \<Rightarrow> stock_db \<Rightarrow> bool" where
  "effects ok restoring \<equiv> (stock_effect ok restoring)\<^sup>*\<^sup>*"

text \<open>No transition of a movement that restores a status against the table.\<close>

definition forward :: "movement_input \<Rightarrow> bool" where
  "forward input \<longleftrightarrow> list_all (\<lambda>t. \<not> tr_restore t) (mi_transitions input)"

text \<open>The effects that leave reservations alone.\<close>

definition stock_move :: "(rat \<Rightarrow> bool) \<Rightarrow> bool \<Rightarrow> stock_db \<Rightarrow> stock_db \<Rightarrow> bool" where
  "stock_move ok restoring db db' \<longleftrightarrow> stock_effect ok restoring db db'
     \<and> (stock_inv db \<longrightarrow> (\<forall>P. committed P (sd_balances db') = committed P (sd_balances db)))"

abbreviation stock_moves :: "(rat \<Rightarrow> bool) \<Rightarrow> bool \<Rightarrow> stock_db \<Rightarrow> stock_db \<Rightarrow> bool" where
  "stock_moves ok restoring \<equiv> (stock_move ok restoring)\<^sup>*\<^sup>*"

lemma recordMovement_committed:
  assumes "recordMovement env input db = Inr (r, db')" "stock_inv db"
  shows "committed P (sd_balances db') = committed P (sd_balances db)"
proof (cases "find_by_key (mi_idempotencyKey input) db")
  case None
  show ?thesis by (rule recordMovement_effect(3) [OF assms None])
next
  case (Some m)
  with assms(1) show ?thesis by (elim recordMovement_cases) simp_all
qed

lemma moves_side: "same_stock db db' \<Longrightarrow> stock_moves ok restoring db db'"
  by (intro r_into_rtranclp) (auto simp: stock_move_def same_stock_def intro: stock_effect.side [unfolded same_stock_def])

lemma moves_movement:
  "recordMovement env input db = Inr (r, db') \<Longrightarrow> list_all (\<lambda>l. ok (ll_quantity l)) (mi_lines input) \<Longrightarrow> restoring \<or> forward input \<Longrightarrow> stock_moves ok restoring db db'"
  by (intro r_into_rtranclp) (auto simp: stock_move_def forward_def recordMovement_committed intro: stock_effect.movement)

lemma moves_movement_then:
  "recordMovement env input db = Inr (r, db1) \<Longrightarrow> same_stock db1 db' \<Longrightarrow> list_all (\<lambda>l. ok (ll_quantity l)) (mi_lines input) \<Longrightarrow> restoring \<or> forward input \<Longrightarrow> stock_moves ok restoring db db'"
  by (rule rtranclp_trans [OF moves_movement moves_side])

lemma moves_effects: "stock_moves ok restoring db db' \<Longrightarrow> effects ok restoring db db'"
  by (erule rtranclp_mono [THEN predicate2D, rotated]) (auto simp: stock_move_def)

lemma same_stock_site_eq: "resolveOrCreateSite env sub lbl db = (x, db') \<Longrightarrow> same_stock db db'"
  using same_stock_site [of db env sub lbl] by simp

lemma same_stock_received:
  assumes "createReceivedAsset i ra db = Inr (a, db')" "i \<notin> sa_id ` set (sd_assets db)"
  shows "same_stock db db'"
proof -
  from assms(1) have a: "sa_id a = i" "db' = db\<lparr>sd_assets := sd_assets db @ [a]\<rparr>"
      "sa_normalizedSerial a = None \<or> find_serial (the (sa_normalizedSerial a)) db = None"
    by (auto simp: createReceivedAsset_def Let_def res_simps)
  have "the (sa_normalizedSerial a) \<notin> set (map the (filter (\<lambda>n. n \<noteq> None) (map sa_normalizedSerial (sd_assets db))))"
    if "sa_normalizedSerial a \<noteq> None"
    using a(3) that by (auto simp: find_serial_def find_None_all)
  then have "assets_ok (sd_assets db) \<longrightarrow> assets_ok (sd_assets db')"
    using a(1,2) assms(2) by (auto simp: assets_ok_def)
  moreover have "lawful_statuses db db'" by (rule lawful_statuses_append [where as = "[a]"]) (simp add: a(2))
  ultimately show ?thesis by (simp add: same_stock_def a(2))
qed

lemma transfer_movement_simps [simp]:
  "mi_transitions (transfer_movement ti ts) = ts"
  "mi_lines (transfer_movement ti ts) =
     [transfer_line ti (ti_source ti) (- unit_quantity (ti_asset ti) (ti_serial ti) (ti_quantity ti)),
      transfer_line ti (ti_destination ti) (unit_quantity (ti_asset ti) (ti_serial ti) (ti_quantity ti))]"
  "mi_idempotencyKey (transfer_movement ti ts) = transfer_key ti"
  by (simp_all add: transfer_movement_def Let_def)

lemma forward_leaving: "list_all (\<lambda>t. \<not> tr_restore t) (leaving_transitions status event asset serial)"
  by (simp add: leaving_transitions_def leaving_transition_def)

lemma forward_transfer: "buildTransferAssetTransitions dest ti db = Inr ts \<Longrightarrow> list_all (\<lambda>t. \<not> tr_restore t) ts"
  by (auto simp: buildTransferAssetTransitions_def Let_def res_simps split: option.splits)

lemma forward_issue:
  "res_fold (issue_transfer_line dest it db) ls (xs, ts) = Inr (ys, us) \<Longrightarrow> list_all (\<lambda>t. \<not> tr_restore t) ts \<Longrightarrow>
    list_all (\<lambda>t. \<not> tr_restore t) us"
proof (induction ls arbitrary: xs ts)
  case (Cons l ls)
  from Cons.prems(1) obtain xs1 ts1 where st: "issue_transfer_line dest it db l (xs, ts) = Inr (xs1, ts1)"
      "res_fold (issue_transfer_line dest it db) ls (xs1, ts1) = Inr (ys, us)"
    by (auto simp: res_simps)
  have "list_all (\<lambda>t. \<not> tr_restore t) ts1"
    using st(1) Cons.prems(2) forward_transfer
    by (auto simp: issue_transfer_line_def Let_def res_simps split: if_splits)
  then show ?case by (rule Cons.IH [OF st(2)])
qed simp

lemma forward_order: "list_all (\<lambda>t. \<not> tr_restore t) (order_transitions eo current site)"
  by (simp add: order_transitions_def Let_def split: option.splits)

context quantity_class
begin

lemma transfer_moves:
  assumes "transfer env ti db = Inr (r, db')" "ok (ti_quantity ti)"
  shows "stock_moves ok False db db'"
proof -
  from assms(1) obtain ts where ts: "recordMovement env (transfer_movement ti ts) db = Inr (r, db')"
      "list_all (\<lambda>t. \<not> tr_restore t) ts"
    using forward_transfer
    by (auto simp: transfer_def Let_def res_bind_eq_Inr simp del: res_bind_Inr split: option.splits if_splits)
  show ?thesis
    by (rule moves_movement [OF ts(1)]) (simp_all add: ts(2) forward_def transfer_line_def ok_unit ok_minus_unit assms(2))
qed

lemma issue_transfer_moves:
  assumes "recordStockIssueTransfer env it db = Inr (r, db')" "list_all (\<lambda>l. ok (sx_quantity l)) (it_lines it)"
  shows "stock_moves ok False db db'"
proof -
  from assms(1) obtain dest ls ts input where
      "res_fold (issue_transfer_line dest it db) (it_lines it) ([], []) = Inr (ls, ts)"
      "recordMovement env input db = Inr (r, db')" "mi_lines input = ls" "mi_transitions input = ts"
    by (fastforce simp: recordStockIssueTransfer_def Let_def res_bind_eq_Inr simp del: res_bind_Inr split: option.splits prod.splits)
  with issue_lines_ok forward_issue assms(2) show ?thesis by (intro moves_movement) (auto simp: forward_def)
qed

lemma issue_out_moves:
  "record_issue_out origin status event env io db = Inr (r, db') \<Longrightarrow> list_all (\<lambda>l. ok (sx_quantity l)) (io_lines io) \<Longrightarrow> stock_moves ok False db db'"
  by (auto simp: record_issue_out_def res_simps list_all_iff issue_ledger_line_def issue_quantity_def ok_minus_unit forward_def
      dest: forward_leaving [THEN list_all_iff [THEN iffD1], THEN bspec] elim!: moves_movement)

lemma outgoing_moves:
  "record_outgoing origin ctx prefix status event env og db = Inr (r, db') \<Longrightarrow> ok (og_quantity og) \<Longrightarrow> stock_moves ok False db db'"
  by (auto simp: record_outgoing_def Let_def ok_minus_unit forward_def forward_leaving elim!: moves_movement)

lemma return_moves:
  assumes "recordReturn env rn db = Inr (r, db')" "ok (rn_quantity rn)"
  shows "stock_moves ok False db db'"
proof -
  from assms(1) obtain db1 where "recordMovement env (return_movement rn) db = Inr (r, db1)" "same_stock db1 db'"
    by (auto simp: recordReturn_def res_bind_eq_Inr simp del: res_bind_Inr split: if_splits option.splits)
  then show ?thesis
    by (rule moves_movement_then) (auto simp: forward_def return_movement_def Let_def return_line_def ok_unit ok_minus_unit assms(2))
qed

lemma write_off_moves:
  assumes "recordWriteOff env wo db = Inr (r, db')" "ok (wo_quantity wo)"
  shows "stock_moves ok False db db'"
proof -
  from assms(1) obtain db1 loc where "recordMovement env (write_off_movement wo loc) db = Inr (r, db1)" "same_stock db1 db'"
    by (auto simp: recordWriteOff_def res_bind_eq_Inr simp del: res_bind_Inr split: if_splits option.splits)
  then show ?thesis
    by (rule moves_movement_then) (use assms(2) in \<open>auto simp: forward_def write_off_movement_def leaving_transition_def ok_minus ok_one split: option.splits\<close>)
qed

lemma adjustment_moves:
  "recordAdjustment env aj db = Inr (r, db') \<Longrightarrow> ok (aj_quantityDelta aj) \<Longrightarrow> stock_moves ok False db db'"
  by (auto simp: recordAdjustment_def forward_def res_simps split: option.splits elim!: moves_movement)

lemma order_moves:
  assumes "recordExecutionOrderMovementInternal validate custody env eo db = Inr (r, db')" "ok (eo_quantity eo)"
  shows "stock_moves ok False db db'"
proof -
  define q where "q = (if given (eo_serial eo) then 1 else eo_quantity eo)"
  have okq: "ok q" using assms(2) ok_one by (simp add: q_def)
  from assms(1) obtain c as site db1 w ls ts db2 where st:
      "order_allocations validate eo c q db = Inr as"
      "resolveExecutionOrderCustomerSiteLocation env eo db = Inr (site, db1)"
      "buildExecutionOrderMovementLines eo as c site w = Inr ls"
      "recordMovement env (order_movement eo q ls ts) db1 = Inr (r, db2)" "list_all (\<lambda>t. \<not> tr_restore t) ts"
      "open_installation_loan env eo (mr_movement r) db2 = Inr db'"
    unfolding q_def using forward_order
    by (fastforce simp: recordExecutionOrderMovementInternal_def Let_def res_bind_eq_Inr simp del: res_bind_Inr split: prod.splits)
  have "same_stock db db1"
    using st(2) by (auto simp: resolveExecutionOrderCustomerSiteLocation_def res_simps split: if_splits prod.splits intro: same_stock_site_eq)
  moreover have "same_stock db2 db'"
    using st(6) by (auto simp: open_installation_loan_def res_simps split: if_splits option.splits)
  moreover have "list_all (\<lambda>l. ok (ll_quantity l)) (mi_lines (order_movement eo q ls ts))"
    using order_lines_ok [OF st(3) order_allocations_ok [OF st(1) okq]] by (simp add: order_movement_def)
  moreover have "forward (order_movement eo q ls ts)" using st(5) by (simp add: forward_def order_movement_def)
  ultimately show ?thesis by (intro rtranclp_trans [OF moves_side moves_movement_then [OF st(4)]]) simp_all
qed

lemma ledger_moves: "ledger_op ok db db' \<Longrightarrow> stock_moves ok False db db'"
proof (induction rule: ledger_op.cases)
  case (op_movement env input r)
  then show ?case by (auto simp: forward_def intro: moves_movement)
next
  case (op_receive_asset i ra a)
  then show ?case by (auto intro: moves_side same_stock_received)
qed (auto simp: recordStockIssueSale_def recordStockIssueInternalConsumption_def recordSale_def recordInternalConsumption_def
      intro: transfer_moves issue_transfer_moves issue_out_moves outgoing_moves return_moves write_off_moves
        adjustment_moves order_moves)

lemma op_effects: "stock_op ok db db' \<Longrightarrow> effects ok False db db'"
  by (auto elim!: stock_op.cases intro: moves_effects ledger_moves stock_effect.reservation)

end

end
