(* ===== verification/StockFacts.thy ===== *)
theory StockFacts
  imports StockMachine
begin

text \<open>
  What holds of the stock in every reachable state, what a reversal undoes, how a movement is
  replayed, and how the lots of a custody are used up.
\<close>

section \<open>Reversal\<close>

text \<open>What a reversal does to the asset of the movement, if it had one.\<close>

definition asset_reversal ::
  "stock_env \<Rightarrow> reversal_input \<Rightarrow> stock_movement \<Rightarrow> stock_db \<Rightarrow> asset_transition option \<Rightarrow> stock_db \<Rightarrow> bool" where
  "asset_reversal env rv original db t db1 \<longleftrightarrow>
     (t = None \<and> db1 = db \<and> filter (\<lambda>e. le_movement e = Some (mv_id original)) (sd_events db) = []) \<or>
     (\<exists>e loc tr. filter (\<lambda>e. le_movement e = Some (mv_id original)) (sd_events db) = [e] \<and> t = Some tr \<and>
        sl_type loc = LT_MOBILE_TECHNICIAN \<and>
        find_location (ml_location (hd (filter (\<lambda>l. ml_quantity l < 0) (reversal_lines_of (mv_id original) db)))) db = Some loc \<and>
        reverse_asset env rv original (sl_id loc) e db = Inr (tr, db1))"

lemma reverse_Inr:
  assumes "reverseExecutionOrderMovement env rv db = Inr (r, db')"
  obtains original t db1 db2 where
      "find_movement (rv_movement rv) db = Some original" "\<not> given (mv_reversedBy original)"
      "mv_origin original = OR_EXECUTION_ORDER"
      "reversible_lines (reversal_lines_of (mv_id original) db)"
      "asset_reversal env rv original db t db1"
      "recordMovement env (reversal_movement rv original (reversal_lines_of (mv_id original) db) t) db1 = Inr (r, db2)"
      "db' = put_movement (original\<lparr>mv_reversedBy := Some (mv_id (mr_movement r))\<rparr>) db2"
proof -
  from assms obtain original where original: "find_movement (rv_movement rv) db = Some original"
    by (auto simp: reverseExecutionOrderMovement_def split: option.splits)
  let ?ls = "reversal_lines_of (mv_id original) db"
  let ?es = "filter (\<lambda>e. le_movement e = Some (mv_id original)) (sd_events db)"
  from assms original obtain source item event st where st:
      "mv_origin original = OR_EXECUTION_ORDER" "\<not> given (mv_reversedBy original)" "reversible_lines ?ls"
      "reversal_source rv ?ls db = Inr source" "reversal_event item original db = Inr event"
      "(case event of None \<Rightarrow> Inr (None, db)
         | Some e \<Rightarrow> res_bind (reverse_asset env rv original (sl_id source) e db) (\<lambda>(t, db1). Inr (Some t, db1))) = Inr st"
      "(case st of (t, db1) \<Rightarrow> res_bind (recordMovement env (reversal_movement rv original ?ls t) db1) (\<lambda>(result, db2).
          Inr (result, put_movement (original\<lparr>mv_reversedBy := Some (mv_id (mr_movement result))\<rparr>) db2))) = Inr (r, db')"
    by (fastforce simp: reverseExecutionOrderMovement_def Let_def res_bind_eq_Inr simp del: res_bind_Inr split: option.splits)
  obtain t db1 where tdb: "st = (t, db1)" by (cases st)
  from st(7) obtain db2 where mv: "recordMovement env (reversal_movement rv original ?ls t) db1 = Inr (r, db2)"
      "db' = put_movement (original\<lparr>mv_reversedBy := Some (mv_id (mr_movement r))\<rparr>) db2"
    by (auto simp: tdb res_simps)
  have src: "sl_type source = LT_MOBILE_TECHNICIAN"
      "find_location (ml_location (hd (filter (\<lambda>l. ml_quantity l < 0) ?ls))) db = Some source"
    using st(4) by (auto simp: reversal_source_def res_simps split: option.splits)
  have ev: "event = (case ?es of [] \<Rightarrow> None | e # _ \<Rightarrow> Some e)" "length ?es \<le> 1"
    using st(5) by (auto simp: reversal_event_def Let_def res_simps)
  show ?thesis
  proof (cases ?es)
    case Nil
    then have "t = None \<and> db1 = db" using st(6) ev(1) tdb by simp
    with Nil show ?thesis by (intro that [OF original st(2) st(1) st(3) _ mv]) (simp add: asset_reversal_def)
  next
    case (Cons e es)
    then have es: "?es = [e]" "event = Some e" using ev by auto
    then obtain tr where "reverse_asset env rv original (sl_id source) e db = Inr (tr, db1)" "t = Some tr"
      using st(6) tdb by (auto simp: res_simps)
    with es src show ?thesis by (intro that [OF original st(2) st(1) st(3) _ mv]) (auto simp: asset_reversal_def)
  qed
qed

lemma reverse_asset_Inr:
  assumes "reverse_asset env rv original source e db = Inr (t, db1)"
  obtains a where "find_asset (le_asset e) db = Some a" "le_to e = Some (sa_status a)" "sa_location a = le_location e"
      "sa_responsibleRef a = le_responsibleRef e" "t = restoring_transition rv (sa_id a) source" "same_stock db db1"
      "sd_movements db1 = sd_movements db" "sd_assets db1 = sd_assets db" "sd_locations db1 = sd_locations db"
proof -
  from assms obtain a s where "le_to e = Some s" "find_asset (le_asset e) db = Some a" "sa_status a = s"
      "sa_location a = le_location e" "sa_responsibleRef a = le_responsibleRef e" "t = restoring_transition rv (sa_id a) source"
      "db1 = db \<or> db1 = snd (closeLoanForMovement (se_now env) (sa_id a) (mv_id original) db)"
    by (auto simp: reverse_asset_def res_bind_eq_Inr simp del: res_bind_Inr split: option.splits if_splits prod.splits)
  with that show ?thesis by (auto simp: closeLoanForMovement_def)
qed

lemma asset_reversal_same:
  assumes "asset_reversal env rv original db t db1"
  shows "same_stock db db1" "sd_movements db1 = sd_movements db" "sd_assets db1 = sd_assets db" "sd_locations db1 = sd_locations db"
  using assms unfolding asset_reversal_def by (auto elim: reverse_asset_Inr)

lemma find_movement_mem: "find_movement i db = Some m \<Longrightarrow> m \<in> set (sd_movements db) \<and> mv_id m = i"
  by (auto simp: find_movement_def dest: find_Some_iff_hd)

lemma recordMovement_movements:
  assumes "recordMovement env input db = Inr (r, db')" "stock_inv db"
  shows "set (sd_movements db) \<subseteq> set (sd_movements db')"
proof (cases "find_by_key (mi_idempotencyKey input) db")
  case None
  then show ?thesis using recordMovement_effect(5) [OF assms None] by auto
next
  case (Some m)
  with assms(1) show ?thesis by (elim recordMovement_cases) simp_all
qed

lemma stock_effects_inv: "effects ok restoring db db' \<Longrightarrow> stock_inv db \<Longrightarrow> stock_inv db'"
  by (induction rule: rtranclp_induct) (auto intro: stock_effect_inv)

lemma effects_books:
  "effects ok restoring db db' \<Longrightarrow> stock_inv db \<Longrightarrow> books_balance db \<Longrightarrow> (\<And>q. ok q \<Longrightarrow> exact_quantity q) \<Longrightarrow> books_balance db'"
  by (induction rule: rtranclp_induct) (auto intro: stock_effect_books stock_effects_inv)

lemma effects_lawful: "effects ok False db db' \<Longrightarrow> stock_inv db \<Longrightarrow> lawful_statuses db db'"
  by (induction rule: rtranclp_induct) (auto intro: lawful_statuses_refl lawful_statuses_trans stock_effect_lawful stock_effects_inv)

context quantity_class
begin

lemma reversal_chain:
  assumes "reverseExecutionOrderMovement env rv db = Inr (r, db')" "stock_inv db"
  shows "stock_moves ok True db db'"
proof -
  obtain original t db1 db2 where rev:
      "find_movement (rv_movement rv) db = Some original" "asset_reversal env rv original db t db1"
      and st: "recordMovement env (reversal_movement rv original (reversal_lines_of (mv_id original) db) t) db1 = Inr (r, db2)"
      "db' = put_movement (original\<lparr>mv_reversedBy := Some (mv_id (mr_movement r))\<rparr>) db2"
    by (rule reverse_Inr [OF assms(1)]) (rule that)
  note same = asset_reversal_same [OF rev(2)]
  have q: "list_all (\<lambda>l. ok (ll_quantity l)) (mi_lines (reversal_movement rv original (reversal_lines_of (mv_id original) db) t))"
    using ok_minus [OF ok_stored] by (auto simp: reversal_movement_def reverse_line_def list_all_iff)
  have e1: "stock_moves ok True db db1" by (rule moves_side [OF same(1)])
  have e2: "stock_moves ok True db1 db2" by (rule moves_movement [OF st(1) q]) simp
  have i1: "stock_inv db1" by (rule stock_effects_inv [OF moves_effects [OF e1] assms(2)])
  have i2: "stock_inv db2" by (rule stock_effects_inv [OF moves_effects [OF e2] i1])
  have "original \<in> set (sd_movements db2)"
    using find_movement_mem [OF rev(1)] recordMovement_movements [OF st(1) i1] same(2) by auto
  then have "same_stock db2 db'" unfolding st(2)
    by (rule same_stock_put_movement) (use i2 in \<open>simp add: stock_inv_def\<close>)
  with e1 e2 show ?thesis by (meson moves_side rtranclp_trans)
qed

lemma effects_weaken: "effects ok False db db' \<Longrightarrow> effects ok True db db'"
proof (erule rtranclp_mono [THEN predicate2D, rotated])
  show "stock_effect ok False \<le> stock_effect ok True"
    by (auto elim!: stock_effect.cases intro: stock_effect.intros)
qed

lemma step_effects: "stock_step ok db db' \<Longrightarrow> stock_inv db \<Longrightarrow> effects ok True db db'"
  by (auto elim!: stock_step.cases intro: op_effects effects_weaken moves_effects [OF reversal_chain])

end

lemma moves_committed:
  "stock_moves ok restoring db db' \<Longrightarrow> stock_inv db \<Longrightarrow> committed P (sd_balances db') = committed P (sd_balances db)"
proof (induction rule: rtranclp_induct)
  case (step s t)
  from stock_effects_inv [OF moves_effects [OF step(1)] step.prems] step show ?case by (simp add: stock_move_def)
qed simp

section \<open>Reachable states\<close>

lemma empty_stock_inv: "stock_inv (empty_stock items locations lots)"
  by (simp add: stock_inv_def empty_stock_def balances_ok_def assets_ok_def)

lemma empty_stock_books: "books_balance (empty_stock items locations lots)"
  by (simp add: books_balance_def empty_stock_def)

interpretation any_stock: step_invariant "empty_stock items locations lots" "stock_step (\<lambda>_. True)" stock_inv
  for items locations lots
proof
  show "stock_inv (empty_stock items locations lots)" by (rule empty_stock_inv)
  show "stock_inv t" if "stock_inv s" "stock_step (\<lambda>_. True) s t" for s t
    by (rule stock_effects_inv [OF any_quantity.step_effects [OF that(2,1)] that(1)])
qed

interpretation exact_stock: step_invariant "empty_stock items locations lots" "stock_step two_decimals"
    "\<lambda>db. stock_inv db \<and> books_balance db"
  for items locations lots
proof
  show "stock_inv (empty_stock items locations lots) \<and> books_balance (empty_stock items locations lots)"
    by (simp add: empty_stock_inv empty_stock_books)
  show "stock_inv t \<and> books_balance t" if "stock_inv s \<and> books_balance s" "stock_step two_decimals s t" for s t
  proof -
    have e: "effects two_decimals True s t" by (rule cents.step_effects) (use that in simp_all)
    with that(1) stock_effects_inv [OF e] effects_books [OF e] show ?thesis by auto
  qed
qed


section \<open>The lots of a custody\<close>

definition usable :: "lot_availability list \<Rightarrow> lot_availability list" where
  "usable lots = filter (\<lambda>l. 0 < lv_available l) lots"

definition whole_lot :: "lot_availability \<Rightarrow> lot_allocation" where
  "whole_lot l = \<lparr>lt_lot = lv_lot l, lt_quantity = lv_available l\<rparr>"

lemma allocate_lots_spec:
  assumes "allocate_lots q lots = (as, rest)" "\<not> 0 < rest" "0 < q" "two_decimals q"
    and "list_all (\<lambda>l. \<exists>n. lv_available l = toNumeric n) lots"
  shows "\<exists>n x. n < length (usable lots) \<and> as = map whole_lot (take n (usable lots)) @ [\<lparr>lt_lot = lv_lot (usable lots ! n), lt_quantity = x\<rparr>]
      \<and> 0 < x \<and> x \<le> lv_available (usable lots ! n) \<and> x + sum_list (map lv_available (take n (usable lots))) = q"
  using assms
proof (induction q lots arbitrary: as rest rule: allocate_lots.induct)
  case (1 q)
  then show ?case by simp
next
  case (2 q lot lots)
  let ?a = "min q (max 0 (lv_available lot))"
  have ls: "list_all (\<lambda>l. \<exists>n. lv_available l = toNumeric n) lots" using "2.prems"(5) by simp
  have q: "\<not> q \<le> 0" using "2.prems"(3) by simp
  consider (none) "lv_available lot \<le> 0" | (enough) "q \<le> lv_available lot" | (part) "0 < lv_available lot" "lv_available lot < q"
    by linarith
  then show ?case
  proof cases
    case none
    then have a: "?a \<le> 0" "usable (lot # lots) = usable lots" by (simp_all add: usable_def)
    then have "allocate_lots q (lot # lots) = allocate_lots q lots" using q by (simp only: allocate_lots.simps Let_def if_True if_False)
    with "2.prems"(1) have "allocate_lots q lots = (as, rest)" by simp
    from "2.IH"(1) [OF q refl a(1) this "2.prems"(2,3,4) ls] show ?thesis unfolding a(2) .
  next
    case enough
    then have a: "?a = q" "0 < lv_available lot" using "2.prems"(3) by simp_all
    have "allocate_lots 0 lots = ([], 0)" by (cases lots) simp_all
    then have "as = [\<lparr>lt_lot = lv_lot lot, lt_quantity = q\<rparr>]"
      using "2.prems"(1) q a(1) by (simp add: Let_def)
    then show ?thesis using enough a(2) "2.prems"(3)
      by (intro exI [of _ 0] exI [of _ q]) (simp add: usable_def)
  next
    case part
    then have a: "?a = lv_available lot" "\<not> ?a \<le> 0" by simp_all
    obtain m where m: "lv_available lot = toNumeric m" using "2.prems"(5) by auto
    have td: "two_decimals (q - lv_available lot)" using "2.prems"(4) by (simp add: m two_decimals_diff)
    then have r: "of_int (math_round ((q - ?a) * 100)) / 100 = q - lv_available lot"
      using roundQty_two_decimals [OF td] unfolding a(1) by (simp only: roundQty_def)
    have "allocate_lots q (lot # lots) = (case allocate_lots (q - lv_available lot) lots of (bs, r) \<Rightarrow> (whole_lot lot # bs, r))"
      using q a(2) r by (simp only: allocate_lots.simps Let_def a(1) if_False whole_lot_def)
    then obtain bs where bs: "allocate_lots (q - lv_available lot) lots = (bs, rest)" "as = whole_lot lot # bs"
      using "2.prems"(1) by (auto split: prod.splits)
    have "\<exists>n x. n < length (usable lots) \<and> bs = map whole_lot (take n (usable lots)) @ [\<lparr>lt_lot = lv_lot (usable lots ! n), lt_quantity = x\<rparr>]
      \<and> 0 < x \<and> x \<le> lv_available (usable lots ! n) \<and> x + sum_list (map lv_available (take n (usable lots))) = q - lv_available lot"
      by (rule "2.IH"(2) [OF q refl a(2), unfolded r, OF bs(1) "2.prems"(2) _ td ls]) (use part in simp)
    then obtain n x where "n < length (usable lots)" "bs = map whole_lot (take n (usable lots)) @ [\<lparr>lt_lot = lv_lot (usable lots ! n), lt_quantity = x\<rparr>]"
        "0 < x" "x \<le> lv_available (usable lots ! n)" "x + sum_list (map lv_available (take n (usable lots))) = q - lv_available lot" by blast
    moreover have "usable (lot # lots) = lot # usable lots" using part(1) by (simp add: usable_def)
    ultimately show ?thesis using bs(2) by (intro exI [of _ "Suc n"] exI [of _ x]) simp
  qed
qed

section \<open>The lines of a movement never change\<close>

lemma stock_effect_lines_of:
  assumes "stock_effect ok restoring db db'" "stock_inv db" "m \<in> mv_id ` set (sd_movements db)"
  shows "lines_of m db' = lines_of m db \<and> m \<in> mv_id ` set (sd_movements db')"
  using assms(1)
proof (cases rule: stock_effect.cases)
  case (movement env input r)
  show ?thesis
  proof (cases "find_by_key (mi_idempotencyKey input) db")
    case None
    note e = recordMovement_effect [OF movement(1) assms(2) None]
    obtain new where new: "sd_lines db' = sd_lines db @ new" "list_all2 (books env) (mi_lines input) new" using e(4) by blast
    have "se_movement env \<noteq> m" using e(14) assms(3) by (auto simp: find_movement_def find_None_all)
    with new(2) have "filter (\<lambda>l. ml_movement l = m) new = []"
      by (induction rule: list_all2_induct) (auto simp: books_def)
    with new(1) e(5) assms(3) show ?thesis by (auto simp: lines_of_def)
  next
    case (Some n)
    with movement(1) assms(3) show ?thesis by (elim recordMovement_cases) simp_all
  qed
next
  case (reservation item loc lot cond q)
  obtain bs where "db' = db\<lparr>sd_balances := bs\<rparr>" by (rule applyDelta_frame [OF reservation])
  with assms(3) show ?thesis by (simp add: lines_of_def)
next
  case side
  then have maps: "map mv_id (sd_movements db') = map mv_id (sd_movements db)" and ls: "sd_lines db' = sd_lines db"
    by (simp_all add: same_stock_def)
  have "m \<in> set (map mv_id (sd_movements db'))" unfolding maps using assms(3) by simp
  then show ?thesis by (simp add: lines_of_def ls)
qed

lemma effects_lines_of:
  "effects ok restoring db db' \<Longrightarrow> stock_inv db \<Longrightarrow> m \<in> mv_id ` set (sd_movements db) \<Longrightarrow>
    lines_of m db' = lines_of m db \<and> m \<in> mv_id ` set (sd_movements db')"
proof (induction rule: rtranclp_induct)
  case (step s t)
  have "stock_inv s" by (rule stock_effects_inv [OF step(1) step(4)])
  with stock_effect_lines_of [OF step(2)] step(3) [OF step(4,5)] show ?case by simp
qed simp

lemma steps_lines_of:
  "(stock_step (\<lambda>_. True))\<^sup>*\<^sup>* db db' \<Longrightarrow> stock_inv db \<Longrightarrow> m \<in> mv_id ` set (sd_movements db) \<Longrightarrow>
    lines_of m db' = lines_of m db \<and> m \<in> mv_id ` set (sd_movements db') \<and> stock_inv db'"
proof (induction rule: rtranclp_induct)
  case (step s t)
  have e: "effects (\<lambda>_. True) True s t" by (rule any_quantity.step_effects) (use step in simp_all)
  with step effects_lines_of [OF e] stock_effects_inv [OF e] show ?case by simp
qed simp

text \<open>What a movement of new stock books, by the tuples of its lines.\<close>

abbreviation booked_new :: "(string \<times> string \<times> string option \<times> StockBalanceCondition \<Rightarrow> bool) \<Rightarrow> stock_movement_line list \<Rightarrow> int" where
  "booked_new P \<equiv> booked (\<lambda>(item, loc, lot). P (item, loc, lot, BC_NEW))"

lemma booked_sum: "booked Q rows = sum_list (map (\<lambda>r. if Q (ml_item r, ml_location r, ml_lot r) then ml_quantity r else 0) rows)"
  by (induction rows) simp_all

lemma booked_sort [simp]: "booked Q (js_sort le rows) = booked Q rows"
  by (simp add: booked_sum)

lemma moved_reverse: "moved P (map (reverse_line a) rows) = - booked_new P rows"
  by (induction rows) (simp_all add: line_key_def reverse_line_def condition_of_def)

lemma booked_new_moved:
  assumes "list_all2 (books env) ls rows" "list_all (\<lambda>l. exact_quantity (ll_quantity l) \<and> condition_of l = BC_NEW) ls"
  shows "booked_new P rows = moved P ls"
  using assms by (induction rule: list_all2_induct) (auto simp: books_def exact_quantity_def line_key_def)

lemma reversal_moves:
  assumes "reverseExecutionOrderMovement env rv db = Inr (r, db')" "stock_inv db" "mr_created r"
  shows "held P (sd_balances db') = held P (sd_balances db) - booked_new P (lines_of (rv_movement rv) db)"
    and "committed P (sd_balances db') = committed P (sd_balances db)"
proof -
  obtain original t db1 db2 where rev:
      "find_movement (rv_movement rv) db = Some original" "asset_reversal env rv original db t db1"
      and st: "recordMovement env (reversal_movement rv original (reversal_lines_of (mv_id original) db) t) db1 = Inr (r, db2)"
      "db' = put_movement (original\<lparr>mv_reversedBy := Some (mv_id (mr_movement r))\<rparr>) db2"
    by (rule reverse_Inr [OF assms(1)]) (rule that)
  note same = asset_reversal_same [OF rev(2)]
  have i1: "stock_inv db1" by (rule stock_effect_inv [OF stock_effect.side [OF same(1), of "\<lambda>_. True" True] assms(2)])
  have n: "find_by_key (mi_idempotencyKey (reversal_movement rv original (reversal_lines_of (mv_id original) db) t)) db1 = None"
    using st(1) assms(3) by (elim recordMovement_cases) simp_all
  note e = recordMovement_effect [OF st(1) i1 n]
  have b: "sd_balances db' = sd_balances db2" "sd_balances db1 = sd_balances db"
    using st(2) same(1) by (simp_all add: put_movement_def same_stock_def)
  have id: "mv_id original = rv_movement rv" using find_movement_mem [OF rev(1)] by simp
  show "held P (sd_balances db') = held P (sd_balances db) - booked_new P (lines_of (rv_movement rv) db)"
    using e(2) [of P] b id by (simp add: reversal_movement_def moved_reverse reversal_lines_of_def)
  show "committed P (sd_balances db') = committed P (sd_balances db)" using e(3) [of P] b by simp
qed

lemma order_Inr:
  assumes "recordExecutionOrderMovementInternal validate custody env eo db = Inr (r, db')"
  obtains c as site db1 w ls ts db2 where
      "order_allocations validate eo c (if given (eo_serial eo) then 1 else eo_quantity eo) db = Inr as"
      "same_stock db db1" "sd_movements db1 = sd_movements db"
      "buildExecutionOrderMovementLines eo as c site w = Inr ls"
      "recordMovement env (order_movement eo (if given (eo_serial eo) then 1 else eo_quantity eo) ls ts) db1 = Inr (r, db2)"
      "same_stock db2 db'" "sd_movements db' = sd_movements db2"
proof -
  define q where "q = (if given (eo_serial eo) then 1 else eo_quantity eo)"
  from assms obtain c as site db1 w ls ts db2 where st:
      "order_allocations validate eo c q db = Inr as"
      "resolveExecutionOrderCustomerSiteLocation env eo db = Inr (site, db1)"
      "buildExecutionOrderMovementLines eo as c site w = Inr ls"
      "recordMovement env (order_movement eo q ls ts) db1 = Inr (r, db2)"
      "open_installation_loan env eo (mr_movement r) db2 = Inr db'"
    unfolding q_def
    by (fastforce simp: recordExecutionOrderMovementInternal_def Let_def res_bind_eq_Inr simp del: res_bind_Inr split: prod.splits)
  have "same_stock db db1 \<and> sd_movements db1 = sd_movements db"
    using st(2) by (auto simp: resolveExecutionOrderCustomerSiteLocation_def resolveOrCreateSite_def Let_def res_simps
        split: if_splits prod.splits option.splits intro: same_stock_site_eq simp: same_stock_def lawful_statuses_refl)
  moreover have "same_stock db2 db' \<and> sd_movements db' = sd_movements db2"
    using st(5) by (auto simp: open_installation_loan_def res_simps split: if_splits option.splits)
  ultimately show ?thesis using st by (intro that [of c as db1 site w ls ts db2]) (simp_all add: q_def)
qed

end
