(* ===== verification/StockDemo.thy ===== *)
theory StockDemo
  imports StockFacts
begin

text \<open>
  A small warehouse and the runs on which the properties of the stock ledger are instantiated.
\<close>

section \<open>A small warehouse\<close>

definition demo_items :: "stock_item list" where
  "demo_items =
     [\<lparr>si_id = ''cable'', si_tracking = TM_CONSUMABLE, si_status = IS_ACTIVE, si_unitOfMeasure = ''METER'', si_purchaseUnit = Some ''ROLL'',
       si_baseCost = 0, si_standardCost = 1, si_lastPurchaseCost = None, si_averageCost = 0\<rparr>,
      \<lparr>si_id = ''onu'', si_tracking = TM_SERIALIZED, si_status = IS_ACTIVE, si_unitOfMeasure = ''UNIT'', si_purchaseUnit = None,
       si_baseCost = 0, si_standardCost = 40, si_lastPurchaseCost = None, si_averageCost = 0\<rparr>]"

definition demo_locations :: "stock_location list" where
  "demo_locations =
     [\<lparr>sl_id = ''main'', sl_code = ''BOD-001'', sl_name = ''Main'', sl_type = LT_MAIN_WAREHOUSE, sl_status = LS_ACTIVE,
       sl_responsible = None, sl_maxCapacity = None\<rparr>,
      \<lparr>sl_id = ''van'', sl_code = ''MOV-001'', sl_name = ''Van'', sl_type = LT_MOBILE_TECHNICIAN, sl_status = LS_ACTIVE,
       sl_responsible = Some ''tech'', sl_maxCapacity = Some 100000\<rparr>]"

definition demo_lots :: "stock_lot list" where
  "demo_lots =
     [\<lparr>lo_id = ''lot1'', lo_item = ''cable'', lo_expiry = Some ''2026-09-01'', lo_createdAt = 1\<rparr>,
      \<lparr>lo_id = ''lot2'', lo_item = ''cable'', lo_expiry = Some ''2026-03-01'', lo_createdAt = 2\<rparr>]"

definition demo_env :: "string \<Rightarrow> stock_env" where
  "demo_env s = \<lparr>se_movement = s, se_line = (\<lambda>n. s @ CHR ''/'' # show_int (int n)), se_loan = s, se_location = s, se_now = 0, se_actor = ''user''\<rparr>"

definition demo_adjustment :: "string \<Rightarrow> rat \<Rightarrow> adjustment_input" where
  "demo_adjustment lot q = \<lparr>aj_item = ''cable'', aj_location = ''main'', aj_lot = Some lot, aj_condition = None, aj_quantityDelta = q,
     aj_reason = AR_INITIAL_LOAD, aj_notes = None, aj_idempotencyKey = ''load-'' @ lot\<rparr>"

definition demo_transfer :: "string \<Rightarrow> rat \<Rightarrow> transfer_input" where
  "demo_transfer lot q = \<lparr>ti_item = ''cable'', ti_source = ''main'', ti_destination = ''van'', ti_quantity = q, ti_lot = Some lot,
     ti_asset = None, ti_serial = None, ti_condition = BC_NEW, ti_handoffReference = ''A-1'', ti_handoffNotes = None,
     ti_notes = None, ti_idempotencyKey = None\<rparr>"

definition demo_order :: "rat \<Rightarrow> execution_order_input" where
  "demo_order q = \<lparr>eo_order = ''order'', eo_item = ''cable'', eo_custody = ''tech'', eo_quantity = q, eo_serial = None, eo_site = None,
     eo_subscriber = None, eo_contract = None, eo_action = AC_CONSUME, eo_disposition = DI_INTERNAL_CONSUMPTION, eo_idempotencyKey = None\<rparr>"

definition demo_reversal :: reversal_input where
  "demo_reversal = \<lparr>rv_order = ''order'', rv_request = ''req'', rv_movement = ''m5'', rv_custody = ''tech''\<rparr>"

definition db_of :: "(movement_result \<times> stock_db) stock_result \<Rightarrow> stock_db" where
  "db_of m = (case m of Inl _ \<Rightarrow> empty_stock [] [] [] | Inr (_, db) \<Rightarrow> db)"

definition done_of :: "(movement_result \<times> stock_db) stock_result \<Rightarrow> bool" where
  "done_of m = (case m of Inl _ \<Rightarrow> False | Inr (r, _) \<Rightarrow> mr_created r)"

definition demo0 :: stock_db where "demo0 = empty_stock demo_items demo_locations demo_lots"
definition demo1 :: stock_db where "demo1 = db_of (recordAdjustment (demo_env ''m1'') (demo_adjustment ''lot1'' 10) demo0)"
definition demo2 :: stock_db where "demo2 = db_of (recordAdjustment (demo_env ''m2'') (demo_adjustment ''lot2'' 4) demo1)"
definition demo3 :: stock_db where "demo3 = db_of (transfer (demo_env ''m3'') (demo_transfer ''lot1'' 5) demo2)"
definition demo4 :: stock_db where "demo4 = db_of (transfer (demo_env ''m4'') (demo_transfer ''lot2'' (5/2)) demo3)"
definition demo5 :: stock_db where
  "demo5 = db_of (recordExecutionOrderMovementForInventoryRequest ''van'' (demo_env ''m5'') (demo_order 3) demo4)"
definition demo6 :: stock_db where "demo6 = db_of (reverseExecutionOrderMovement (demo_env ''m6'') demo_reversal demo5)"

lemma demo_run:
  "done_of (recordAdjustment (demo_env ''m1'') (demo_adjustment ''lot1'' 10) demo0)"
  "done_of (recordAdjustment (demo_env ''m2'') (demo_adjustment ''lot2'' 4) demo1)"
  "done_of (transfer (demo_env ''m3'') (demo_transfer ''lot1'' 5) demo2)"
  "done_of (transfer (demo_env ''m4'') (demo_transfer ''lot2'' (5/2)) demo3)"
  "done_of (recordExecutionOrderMovementForInventoryRequest ''van'' (demo_env ''m5'') (demo_order 3) demo4)"
  "done_of (reverseExecutionOrderMovement (demo_env ''m6'') demo_reversal demo5)"
  by code_simp+

lemma done_ofD: "done_of m \<Longrightarrow> \<exists>r. m = Inr (r, db_of m) \<and> mr_created r"
  by (auto simp: done_of_def db_of_def split: sum.splits)

lemma demo_steps:
  "stock_step two_decimals demo0 demo1" "stock_step two_decimals demo1 demo2" "stock_step two_decimals demo2 demo3"
  "stock_step two_decimals demo3 demo4" "stock_step two_decimals demo4 demo5" "stock_step two_decimals demo5 demo6"
proof -
  have half: "two_decimals (5/2)" by (simp add: two_decimals_def)
  show "stock_step two_decimals demo0 demo1" using done_ofD [OF demo_run(1)] unfolding demo1_def [symmetric]
    by (auto intro!: operation op_ledger op_adjustment simp: demo_adjustment_def)
  show "stock_step two_decimals demo1 demo2" using done_ofD [OF demo_run(2)] unfolding demo2_def [symmetric]
    by (auto intro!: operation op_ledger op_adjustment simp: demo_adjustment_def)
  show "stock_step two_decimals demo2 demo3" using done_ofD [OF demo_run(3)] unfolding demo3_def [symmetric]
    by (auto intro!: operation op_ledger op_transfer simp: demo_transfer_def)
  show "stock_step two_decimals demo3 demo4" using done_ofD [OF demo_run(4)] half unfolding demo4_def [symmetric]
    by (auto intro!: operation op_ledger op_transfer simp: demo_transfer_def)
  show "stock_step two_decimals demo4 demo5" using done_ofD [OF demo_run(5)] unfolding demo5_def [symmetric]
    by (auto intro!: operation op_ledger op_order simp: demo_order_def recordExecutionOrderMovementForInventoryRequest_def)
  show "stock_step two_decimals demo5 demo6" using done_ofD [OF demo_run(6)] unfolding demo6_def [symmetric]
    by (elim exE conjE, intro reversal)
qed

lemma ledger_op_mono: "ledger_op ok s t \<Longrightarrow> (\<And>q. ok q \<Longrightarrow> ok' q) \<Longrightarrow> ledger_op ok' s t"
  by (induction rule: ledger_op.induct) (auto intro: ledger_op.intros simp: list_all_iff)

lemma stock_op_mono: "stock_op ok s t \<Longrightarrow> (\<And>q. ok q \<Longrightarrow> ok' q) \<Longrightarrow> stock_op ok' s t"
  by (auto elim!: stock_op.cases intro: stock_op.intros ledger_op_mono)

lemma stock_step_any: "stock_step ok s t \<Longrightarrow> stock_step (\<lambda>_. True) s t"
  by (auto elim!: stock_step.cases intro: stock_step.intros stock_op_mono)

lemma demo_reachable: "(stock_step two_decimals)\<^sup>*\<^sup>* (empty_stock demo_items demo_locations demo_lots) demo5"
  using demo_steps unfolding demo0_def [symmetric] by (meson rtranclp.rtrancl_into_rtrancl rtranclp.rtrancl_refl)

lemma any_reachable: "(stock_step ok)\<^sup>*\<^sup>* s t \<Longrightarrow> (stock_step (\<lambda>_. True))\<^sup>*\<^sup>* s t"
  by (erule rtranclp_mono [THEN predicate2D, rotated]) (auto intro: stock_step_any)

lemma demo_inv: "stock_inv demo5"
  using exact_stock.inv_reachable [OF demo_reachable] by simp

text \<open>A router of the warehouse: received, sent to the van, installed, returned, and deployed again.\<close>

definition demo_receipt :: "string \<Rightarrow> movement_input" where
  "demo_receipt key =
     \<lparr>mi_origin = OR_PURCHASE_RECEIPT, mi_originContext = ''inventory.goods-receipt'', mi_originRefId = None, mi_idempotencyKey = key,
      mi_notes = None, mi_lines = [\<lparr>ll_item = ''onu'', ll_location = ''main'', ll_quantity = 1, ll_lot = None, ll_asset = Some ''asset'',
        ll_unitCost = Some 40, ll_condition = None\<rparr>],
      mi_transitions = [\<lparr>tr_asset = Some ''asset'', tr_serial = None, tr_toStatus = AS_AVAILABLE, tr_location = Some (Some ''main''),
        tr_responsibleType = Some RT_WAREHOUSE, tr_responsibleRef = Some None, tr_subscriber = None, tr_contract = None,
        tr_eventType = Some EV_RECEIVED, tr_restore = False\<rparr>],
      mi_isReversal = False, mi_reversedBy = None\<rparr>"

definition demo_deployment :: "string option \<Rightarrow> transfer_input" where
  "demo_deployment key = (demo_transfer ''lot1'' 1)\<lparr>ti_item := ''onu'', ti_lot := None, ti_serial := Some ''sn 1'', ti_idempotencyKey := key\<rparr>"

definition demo_installation :: "string \<Rightarrow> execution_order_input" where
  "demo_installation order = (demo_order 1)\<lparr>eo_order := order, eo_item := ''onu'', eo_serial := Some ''SN 1'', eo_subscriber := Some ''subscriber-1'',
     eo_action := AC_INSTALL, eo_disposition := DI_INSTALLED_AT_CUSTOMER\<rparr>"

definition demo_return :: return_input where
  "demo_return = \<lparr>rn_item = ''onu'', rn_source = ''i1'', rn_destination = ''main'', rn_quantity = 1, rn_asset = None, rn_serial = Some ''SN 1'',
     rn_lot = None, rn_targetStatus = AS_IN_TRANSIT, rn_notes = None, rn_idempotencyKey = None\<rparr>"

definition router0 :: stock_db where
  "router0 = (case createReceivedAsset ''asset'' \<lparr>ra_item = ''onu'', ra_lot = None, ra_serial = Some '' sn 1 '', ra_mac = None, ra_location = Some ''main''\<rparr> demo0
     of Inl _ \<Rightarrow> demo0 | Inr (_, db) \<Rightarrow> db)"
definition router1 :: stock_db where "router1 = db_of (recordMovement (demo_env ''r1'') (demo_receipt ''receipt-1'') router0)"
definition router2 :: stock_db where "router2 = db_of (transfer (demo_env ''t1'') (demo_deployment None) router1)"
definition router3 :: stock_db where
  "router3 = db_of (recordExecutionOrderMovementForInventoryRequest ''van'' (demo_env ''i1'') (demo_installation ''order-1'') router2)"
definition router4 :: stock_db where "router4 = db_of (recordReturn (demo_env ''b1'') demo_return router3)"
definition router5 :: stock_db where "router5 = db_of (recordMovement (demo_env ''r2'') (demo_receipt ''receipt-2'') router4)"
definition router6 :: stock_db where "router6 = db_of (transfer (demo_env ''t2'') (demo_deployment (Some ''again'')) router5)"
definition router7 :: stock_db where
  "router7 = db_of (recordExecutionOrderMovementForInventoryRequest ''van'' (demo_env ''i2'') (demo_installation ''order-2'') router6)"

lemma router_run:
  "createReceivedAsset ''asset'' \<lparr>ra_item = ''onu'', ra_lot = None, ra_serial = Some '' sn 1 '', ra_mac = None, ra_location = Some ''main''\<rparr> demo0
     = Inr (hd (sd_assets router0), router0)"
  "done_of (recordMovement (demo_env ''r1'') (demo_receipt ''receipt-1'') router0)"
  "done_of (transfer (demo_env ''t1'') (demo_deployment None) router1)"
  "done_of (recordExecutionOrderMovementForInventoryRequest ''van'' (demo_env ''i1'') (demo_installation ''order-1'') router2)"
  "done_of (recordReturn (demo_env ''b1'') demo_return router3)"
  "done_of (recordMovement (demo_env ''r2'') (demo_receipt ''receipt-2'') router4)"
  "done_of (transfer (demo_env ''t2'') (demo_deployment (Some ''again'')) router5)"
  "done_of (recordExecutionOrderMovementForInventoryRequest ''van'' (demo_env ''i2'') (demo_installation ''order-2'') router6)"
  by code_simp+

end
