(* ===== verification/StockTheorems.thy ===== *)
theory StockTheorems
  imports StockDemo
begin

text \<open>
  The properties of the stock ledger: its state, transfers, orders and their reversal, equipment,
  and what a repeated request does.
\<close>

section \<open>The state\<close>

text \<open>
  C6. In every state that the operations of the ledger reach, with any quantities at all, a tuple
  has one balance, nothing is reserved that is not on hand, and no balance is negative.
\<close>

theorem stock_never_overcommitted:
  assumes "(stock_step (\<lambda>_. True))\<^sup>*\<^sup>* (empty_stock items locations lots) db" "b \<in> set (sd_balances db)"
  shows "0 \<le> sb_reserved b \<and> sb_reserved b \<le> sb_onHand b \<and> filter (\<lambda>c. balance_key c = balance_key b) (sd_balances db) = [b]"
proof -
  have inv: "balances_ok (sd_balances db)" using any_stock.inv_reachable [OF assms(1)] by (simp add: stock_inv_def)
  have "filter (\<lambda>c. balance_key c = balance_key b) bs = [b]" if "distinct (map balance_key bs)" "b \<in> set bs" for bs
    using that by (induction bs) (auto simp: filter_empty_conv intro: rev_image_eqI)
  with inv assms(2) show ?thesis by (auto simp: balances_ok_def list_all_iff)
qed

theorem stock_never_overcommitted_witness:
  "0 \<le> sb_reserved (hd (sd_balances demo5)) \<and> sb_reserved (hd (sd_balances demo5)) \<le> sb_onHand (hd (sd_balances demo5))"
proof -
  have "sd_balances demo5 \<noteq> []" by code_simp
  then show ?thesis using stock_never_overcommitted [OF any_reachable [OF demo_reachable] hd_in_set] by simp
qed

text \<open>
  C7. When every quantity has two decimals, the balances and the kardex never diverge: what is on
  hand for an item, a location and a lot, over all conditions, is the sum of the lines booked
  for them, and so for any group of items, locations and lots.
\<close>

theorem balances_are_the_kardex:
  assumes "(stock_step two_decimals)\<^sup>*\<^sup>* (empty_stock items locations lots) db"
  shows "held (any_condition Q) (sd_balances db) = booked Q (sd_lines db)"
  using exact_stock.inv_reachable [OF assms] by (simp add: books_balance_def)

theorem balances_are_the_kardex_witness:
  "held (any_condition (\<lambda>(item, loc, lot). loc = ''van'')) (sd_balances demo5) = booked (\<lambda>(item, loc, lot). loc = ''van'') (sd_lines demo5)
    \<and> booked (\<lambda>(item, loc, lot). loc = ''van'') (sd_lines demo5) = 450"
  using balances_are_the_kardex [OF demo_reachable] by (intro conjI) (simp, code_simp)

text \<open>
  C28. Transfers move stock and do not make it: a transfer of a quantity with two decimals leaves
  the total of every item, lot and condition over all locations as it was, and what it takes
  from the source was available there.
\<close>

theorem transfer_conserves:
  assumes "transfer env ti db = Inr (r, db')" "stock_inv db" "two_decimals (ti_quantity ti)"
  shows "held (\<lambda>(item, _, lot, cond). Q item lot cond) (sd_balances db') = held (\<lambda>(item, _, lot, cond). Q item lot cond) (sd_balances db)
    \<and> unit_quantity (ti_asset ti) (ti_serial ti) (ti_quantity ti)
        \<le> av_available (getAvailability (ti_item ti) (ti_source ti) (ti_lot ti) (ti_condition ti) db)"
proof -
  let ?q = "unit_quantity (ti_asset ti) (ti_serial ti) (ti_quantity ti)"
  from assms(1) obtain ts where ts: "recordMovement env (transfer_movement ti ts) db = Inr (r, db')"
      "?q \<le> av_available (getAvailability (ti_item ti) (ti_source ti) (ti_lot ti) (ti_condition ti) db)"
    by (auto simp: transfer_def Let_def res_bind_eq_Inr not_less simp del: res_bind_Inr split: option.splits)
  have td: "two_decimals ?q" "two_decimals (- ?q)" using assms(3) by (simp_all add: unit_quantity_def)
  have "cents_step (- ?q) + cents_step ?q = 0"
    unfolding cents_step_two_decimals [OF td(1)] cents_step_two_decimals [OF td(2)] by (simp add: toQuantity_minus)
  then have zero: "moved (\<lambda>(item, _, lot, cond). Q item lot cond) (mi_lines (transfer_movement ti ts)) = 0"
    by (simp add: line_key_def transfer_line_def condition_of_def)
  show ?thesis
  proof (cases "find_by_key (mi_idempotencyKey (transfer_movement ti ts)) db")
    case None
    show ?thesis using recordMovement_effect(2) [OF ts(1) assms(2) None] ts(2) zero by simp
  next
    case (Some m)
    with ts show ?thesis by (elim recordMovement_cases) simp_all
  qed
qed

theorem transfer_conserves_witness:
  "held (\<lambda>(item, _, lot, cond). item = ''cable'') (sd_balances demo3) = held (\<lambda>(item, _, lot, cond). item = ''cable'') (sd_balances demo2)"
proof -
  obtain r where "transfer (demo_env ''m3'') (demo_transfer ''lot1'' 5) demo2 = Inr (r, demo3)"
    using done_ofD [OF demo_run(3)] unfolding demo3_def by blast
  moreover have "stock_inv demo2"
    using exact_stock.inv_reachable [of demo_items demo_locations demo_lots demo2] demo_steps(1,2) unfolding demo0_def
    by (meson rtranclp.rtrancl_into_rtrancl rtranclp.rtrancl_refl)
  moreover have "two_decimals (ti_quantity (demo_transfer ''lot1'' 5))" by (simp add: demo_transfer_def)
  ultimately show ?thesis using transfer_conserves [of _ _ _ _ _ "\<lambda>item lot cond. item = ''cable''"] by blast
qed

text \<open>
  The schemas accept quantities with more decimals, and then a transfer does make stock: the
  balance of the source is rounded half up and so is that of the destination. Moving 0.125 out
  of 10.00 leaves 9.88 and brings 0.13, a hundredth more than there was, while the two lines of
  the kardex add up to nothing.
\<close>

lemma transfer_of_an_eighth_makes_stock:
  "(case transfer (demo_env ''m2'') (demo_transfer ''lot1'' (1/8)) demo1 of
      Inl _ \<Rightarrow> False
    | Inr (r, db') \<Rightarrow> held (\<lambda>_. True) (sd_balances demo1) = 1000 \<and> held (\<lambda>_. True) (sd_balances db') = 1001
        \<and> map sb_onHand (sd_balances db') = [988, 13] \<and> map ml_quantity (mr_lines r) = [-13, 13])"
  by code_simp

section \<open>Execution orders\<close>

text \<open>
  C27. An order without a serial number, for a positive quantity of two decimals, takes its lots
  first expired first: whole lots in that order, then a part of the next, which together are
  exactly the quantity. Both conditions are needed: a serial takes one unit of one lot, and what
  is still to be taken is rounded to two decimals after each lot.
\<close>

theorem lots_used_in_order:
  assumes "allocateExecutionOrderLots eo custody q lot db = Inr as" "0 < q" "two_decimals q"
    and "\<not> given (eo_serial eo)"
  shows "\<exists>n x. n < length (usable (getLotAvailabilities (eo_item eo) custody BC_NEW db))
      \<and> as = map whole_lot (take n (usable (getLotAvailabilities (eo_item eo) custody BC_NEW db)))
          @ [\<lparr>lt_lot = lv_lot (usable (getLotAvailabilities (eo_item eo) custody BC_NEW db) ! n), lt_quantity = x\<rparr>]
      \<and> 0 < x \<and> x \<le> lv_available (usable (getLotAvailabilities (eo_item eo) custody BC_NEW db) ! n)
      \<and> sum_list (map lt_quantity as) = q
      \<and> sorted_wrt lot_le (usable (getLotAvailabilities (eo_item eo) custody BC_NEW db))"
proof -
  let ?lots = "getLotAvailabilities (eo_item eo) custody BC_NEW db"
  from assms(1,4) obtain rest where st: "allocate_lots q ?lots = (as, rest)" "\<not> 0 < rest"
    by (auto simp: allocateExecutionOrderLots_def Let_def res_simps split: prod.splits)
  obtain n x where nx: "n < length (usable ?lots)" "as = map whole_lot (take n (usable ?lots)) @ [\<lparr>lt_lot = lv_lot (usable ?lots ! n), lt_quantity = x\<rparr>]"
      "0 < x" "x \<le> lv_available (usable ?lots ! n)" "x + sum_list (map lv_available (take n (usable ?lots))) = q"
    using allocate_lots_spec [OF st assms(2,3) cents.lots_available_stored] by blast
  have "map lt_quantity (map whole_lot ls) = map lv_available ls" for ls by (simp add: whole_lot_def)
  then have "sum_list (map lt_quantity as) = q" unfolding nx(2) using nx(5) by (simp add: add.commute whole_lot_def comp_def)
  moreover have "sorted_wrt lot_le (usable ?lots)"
    unfolding usable_def getLotAvailabilities_def by (rule sorted_wrt_filter [OF lots.sorted_js_sort])
  ultimately show ?thesis using nx by blast
qed

theorem lots_used_in_order_witness:
  "\<exists>as. allocateExecutionOrderLots (demo_order 3) ''van'' 3 None demo4 = Inr as \<and> sum_list (map lt_quantity as) = 3
    \<and> as = [\<lparr>lt_lot = Some ''lot2'', lt_quantity = 5/2\<rparr>, \<lparr>lt_lot = Some ''lot1'', lt_quantity = 1/2\<rparr>]"
proof -
  have a: "allocateExecutionOrderLots (demo_order 3) ''van'' 3 None demo4
      = Inr [\<lparr>lt_lot = Some ''lot2'', lt_quantity = 5/2\<rparr>, \<lparr>lt_lot = Some ''lot1'', lt_quantity = 1/2\<rparr>]" by code_simp
  have "\<not> given (eo_serial (demo_order 3))" by (simp add: demo_order_def)
  with lots_used_in_order [OF a _ _ this] show ?thesis using a by auto
qed

text \<open>
  C9. The reversal of the movement of an order for a quantity of two decimals takes back exactly
  what the movement moved, lot by lot and location by location, whatever other operations ran in
  between, and reserves or frees nothing. \<open>reversal_of_an_eighth_makes_stock\<close> shows that the two
  decimals are needed.
\<close>

theorem reversal_undoes_the_order:
  assumes "recordExecutionOrderMovementInternal validate custody env eo db = Inr (r, db1)" "mr_created r"
    and "two_decimals (eo_quantity eo)" "stock_inv db" "(stock_step (\<lambda>_. True))\<^sup>*\<^sup>* db1 db2"
    and "reverseExecutionOrderMovement env' rv db2 = Inr (r', db3)" "mr_created r'" "rv_movement rv = mv_id (mr_movement r)"
  shows "held P (sd_balances db3) - held P (sd_balances db2) = held P (sd_balances db) - held P (sd_balances db1)
    \<and> committed P (sd_balances db3) = committed P (sd_balances db2)"
proof -
  let ?q = "if given (eo_serial eo) then 1 else eo_quantity eo"
  obtain c as site dba w ls ts dbb where o: "order_allocations validate eo c ?q db = Inr as"
      "same_stock db dba" "sd_movements dba = sd_movements db" "buildExecutionOrderMovementLines eo as c site w = Inr ls"
      "recordMovement env (order_movement eo ?q ls ts) dba = Inr (r, dbb)" "same_stock dbb db1" "sd_movements db1 = sd_movements dbb"
    by (rule order_Inr [OF assms(1)])
  have ia: "stock_inv dba" by (rule stock_effect_inv [OF stock_effect.side [OF o(2), of "\<lambda>_. True" True] assms(4)])
  have n: "find_by_key (mi_idempotencyKey (order_movement eo ?q ls ts)) dba = None"
    using o(5) assms(2) by (elim recordMovement_cases) simp_all
  note e = recordMovement_effect [OF o(5) ia n]
  have i1: "stock_inv db1" by (rule stock_effect_inv [OF stock_effect.side [OF o(6), of "\<lambda>_. True" True] e(1)])
  have q: "two_decimals ?q" using assms(3) by simp
  have new: "list_all (\<lambda>l. exact_quantity (ll_quantity l) \<and> condition_of l = BC_NEW) ls"
    using cents.order_lines_ok [OF o(4) cents.order_allocations_ok [OF o(1) q]] o(4)
    by (auto simp: list_all_iff buildExecutionOrderMovementLines_def res_simps allocation_lines_def order_line_def condition_of_def)
  obtain rows where rows: "sd_lines dbb = sd_lines dba @ rows" "list_all2 (books env) ls rows" using e(4) by (auto simp: order_movement_def)
  have id: "mv_id (mr_movement r) = se_movement env" by (simp add: e(6) new_movement_def)
  have "se_movement env \<notin> mv_id ` set (sd_movements dba)" using e(14) by (auto simp: find_movement_def find_None_all)
  then have "filter (\<lambda>l. ml_movement l = se_movement env) (sd_lines dba) = []"
    using ia unfolding stock_inv_def filter_empty_conv set_map by (metis image_eqI subsetD)
  moreover from rows(2) have "filter (\<lambda>l. ml_movement l = se_movement env) rows = rows"
    by (induction rule: list_all2_induct) (auto simp: books_def)
  moreover have "sd_lines db1 = sd_lines dbb" using o(6) by (simp add: same_stock_def)
  ultimately have lines: "lines_of (rv_movement rv) db1 = rows" by (simp add: lines_of_def assms(8) id rows(1))
  have mem: "rv_movement rv \<in> mv_id ` set (sd_movements db1)" by (simp add: o(7) e(5) assms(8) id new_movement_def)
  have l2: "lines_of (rv_movement rv) db2 = rows" "stock_inv db2" using steps_lines_of [OF assms(5) i1 mem] lines by simp_all
  have "held P (sd_balances db1) = held P (sd_balances db) + moved P ls"
    using e(2) [of P] o(2,6) by (simp add: same_stock_def order_movement_def)
  moreover have "booked_new P rows = moved P ls" by (rule booked_new_moved [OF rows(2) new])
  ultimately show ?thesis using reversal_moves [OF assms(6) l2(2) assms(7), of P] l2(1) by simp
qed

theorem reversal_undoes_the_order_witness:
  "held (\<lambda>(_, loc, _, _). loc = ''van'') (sd_balances demo6) - held (\<lambda>(_, loc, _, _). loc = ''van'') (sd_balances demo5) = 300"
proof -
  have inv4: "stock_inv demo4"
    using exact_stock.inv_reachable [of demo_items demo_locations demo_lots demo4] demo_steps(1-4) unfolding demo0_def
    by (meson rtranclp.rtrancl_into_rtrancl rtranclp.rtrancl_refl)
  obtain r where r: "recordExecutionOrderMovementInternal True (Some ''van'') (demo_env ''m5'') (demo_order 3) demo4 = Inr (r, demo5)" "mr_created r"
    using done_ofD [OF demo_run(5)] unfolding demo5_def recordExecutionOrderMovementForInventoryRequest_def by blast
  obtain r' where r': "reverseExecutionOrderMovement (demo_env ''m6'') demo_reversal demo5 = Inr (r', demo6)" "mr_created r'"
    using done_ofD [OF demo_run(6)] unfolding demo6_def by blast
  have "(case recordExecutionOrderMovementInternal True (Some ''van'') (demo_env ''m5'') (demo_order 3) demo4 of
      Inl _ \<Rightarrow> False | Inr (x, _) \<Rightarrow> mv_id (mr_movement x) = ''m5'')" by code_simp
  then have id: "rv_movement demo_reversal = mv_id (mr_movement r)" by (simp add: r(1) demo_reversal_def)
  have q: "two_decimals (eo_quantity (demo_order 3))" by (simp add: demo_order_def)
  have "held (\<lambda>(_, loc, _, _). loc = ''van'') (sd_balances demo4) = 750" "held (\<lambda>(_, loc, _, _). loc = ''van'') (sd_balances demo5) = 450"
    by code_simp+
  then show ?thesis
    using reversal_undoes_the_order [OF r q inv4 rtranclp.rtrancl_refl r' id, of "\<lambda>(_, loc, _, _). loc = ''van''"] by simp
qed

text \<open>
  With more decimals the reversal does not restore the stock: an order for 0.125 leaves 13.88 of
  14.00 and is written down as 0.13, which is what its reversal brings back.
\<close>

lemma reversal_of_an_eighth_makes_stock:
  "(case recordExecutionOrderMovementInternal True (Some ''van'') (demo_env ''m5'') (demo_order (1/8)) demo4 of
      Inl _ \<Rightarrow> False
    | Inr (_, db1) \<Rightarrow>
        (case reverseExecutionOrderMovement (demo_env ''m6'') demo_reversal db1 of
           Inl _ \<Rightarrow> False
         | Inr (_, db2) \<Rightarrow> map (held (\<lambda>_. True)) [sd_balances demo4, sd_balances db1, sd_balances db2] = [1400, 1388, 1401]))"
  by code_simp

section \<open>Serialized assets\<close>

text \<open>
  C10. Short of a reversal, no operation moves an asset against the table of statuses: its status
  after any run follows from the one before along the table, so an asset that was sold, consumed,
  written off or lost stays so.
\<close>

theorem asset_statuses_lawful:
  assumes "(stock_op (\<lambda>_. True))\<^sup>*\<^sup>* db db'" "stock_inv db" "asset_status i db = Some s"
  shows "\<exists>t. asset_status i db' = Some t \<and> status_step\<^sup>*\<^sup>* s t \<and> (terminal_status s \<longrightarrow> t = s)"
proof -
  have "lawful_statuses db db' \<and> stock_inv db'"
    using assms(1)
  proof (induction rule: rtranclp_induct)
    case base
    then show ?case using assms(2) by (simp add: lawful_statuses_refl)
  next
    case (step y z)
    have e: "effects (\<lambda>_. True) False y z" by (rule any_quantity.op_effects [OF step(2)])
    with step(3) effects_lawful [OF e] stock_effects_inv [OF e] show ?case by (auto intro: lawful_statuses_trans)
  qed
  with assms(3) show ?thesis unfolding lawful_statuses_def by (meson terminal_stays)
qed

lemma router_ops: "stock_op (\<lambda>_. True) demo0 router0" "stock_op (\<lambda>_. True) router0 router1"
    "stock_op (\<lambda>_. True) router1 router2" "stock_op (\<lambda>_. True) router2 router3"
proof -
  show "stock_op (\<lambda>_. True) demo0 router0" by (rule op_ledger [OF op_receive_asset [OF router_run(1)]]) (simp add: demo0_def empty_stock_def)
  obtain r1 r2 r3 where r: "recordMovement (demo_env ''r1'') (demo_receipt ''receipt-1'') router0 = Inr (r1, router1)"
      "transfer (demo_env ''t1'') (demo_deployment None) router1 = Inr (r2, router2)"
      "recordExecutionOrderMovementInternal True (Some ''van'') (demo_env ''i1'') (demo_installation ''order-1'') router2 = Inr (r3, router3)"
    using done_ofD [OF router_run(2), folded router1_def] done_ofD [OF router_run(3), folded router2_def]
      done_ofD [OF router_run(4), folded router3_def, unfolded recordExecutionOrderMovementForInventoryRequest_def]
    by blast
  show "stock_op (\<lambda>_. True) router0 router1" by (rule op_ledger [OF op_movement [OF r(1)]]) (simp_all add: demo_receipt_def)
  show "stock_op (\<lambda>_. True) router1 router2" by (rule op_ledger [OF op_transfer [OF r(2)]]) simp
  show "stock_op (\<lambda>_. True) router2 router3" by (rule op_ledger [OF op_order [OF r(3)]]) simp
qed

theorem asset_statuses_lawful_witness:
  "\<exists>t. asset_status ''asset'' router3 = Some t \<and> status_step\<^sup>*\<^sup>* AS_IN_RECEIVING t"
proof -
  have run: "(stock_op (\<lambda>_. True))\<^sup>*\<^sup>* router0 router3"
    using router_ops(2-4) by (meson rtranclp.rtrancl_into_rtrancl rtranclp.rtrancl_refl)
  have "effects (\<lambda>_. True) False demo0 router0" by (rule any_quantity.op_effects [OF router_ops(1)])
  then have "stock_inv router0" by (rule stock_effects_inv) (simp add: demo0_def empty_stock_inv)
  moreover have "asset_status ''asset'' router0 = Some AS_IN_RECEIVING" by code_simp
  ultimately show ?thesis using asset_statuses_lawful [OF run] by blast
qed

section \<open>Replays\<close>

text \<open>
  C29. A movement is recorded once: presented again with the key of a movement that is there,
  by whatever caller and with whatever lines, it changes nothing and answers with that movement
  and its lines.
\<close>

theorem movement_replay_is_neutral:
  assumes "recordMovement env input db = Inr (r, db')" "stock_inv db"
    and "mi_idempotencyKey input' = mi_idempotencyKey input" "mi_lines input' \<noteq> []"
  shows "\<exists>r'. recordMovement env' input' db' = Inr (r', db') \<and> mr_movement r' = mr_movement r \<and> \<not> mr_created r'
    \<and> mr_lines r' = lines_of (mv_id (mr_movement r)) db'"
proof (cases "find_by_key (mi_idempotencyKey input) db")
  case None
  note e = recordMovement_effect [OF assms(1,2) None]
  have "find_by_key (mi_idempotencyKey input') db' = Some (new_movement env input db)"
    using None by (simp add: find_by_key_def e(5) find_append assms(3) new_movement_def)
  from recordMovement_replay [OF assms(4) this] show ?thesis by (simp add: e(6))
next
  case (Some m)
  with assms(1) have "db' = db" "mr_movement r = m" by (elim recordMovement_cases; simp)+
  with recordMovement_replay [OF assms(4), of db m env'] Some assms(3) show ?thesis by simp
qed

theorem movement_replay_is_neutral_witness:
  "\<exists>r'. recordMovement (demo_env ''zz'') (demo_receipt ''receipt-1'') router1 = Inr (r', router1) \<and> \<not> mr_created r'"
proof -
  have "effects (\<lambda>_. True) False demo0 router0" by (rule any_quantity.op_effects [OF router_ops(1)])
  then have i: "stock_inv router0" by (rule stock_effects_inv) (simp add: demo0_def empty_stock_inv)
  obtain r where "recordMovement (demo_env ''r1'') (demo_receipt ''receipt-1'') router0 = Inr (r, router1)"
    using done_ofD [OF router_run(2)] unfolding router1_def by blast
  from movement_replay_is_neutral [OF this i refl] show ?thesis by (auto simp: demo_receipt_def)
qed

text \<open>
  Without a key of its own, a second transfer of the same quantity of an item between the same
  two places is taken for a replay of the first: it is answered without error and moves nothing.
\<close>

lemma repeated_transfer_moves_nothing:
  assumes "transfer env ti db = Inr (r, db1)" "ti_idempotencyKey ti = None" "stock_inv db"
    and "transfer env' ti db1 = Inr (r', db2)"
  shows "\<not> mr_created r' \<and> db2 = db1 \<and> mr_movement r' = mr_movement r"
proof -
  from assms(1) obtain ts where ts: "recordMovement env (transfer_movement ti ts) db = Inr (r, db1)"
    by (auto simp: transfer_def Let_def res_bind_eq_Inr simp del: res_bind_Inr split: option.splits)
  from assms(4) obtain us where us: "recordMovement env' (transfer_movement ti us) db1 = Inr (r', db2)"
    by (auto simp: transfer_def Let_def res_bind_eq_Inr simp del: res_bind_Inr split: option.splits)
  obtain m where "find_by_key (transfer_key ti) db1 = Some m" "m = mr_movement r"
  proof (cases "find_by_key (transfer_key ti) db")
    case None
    note e = recordMovement_effect [OF ts assms(3) None [folded transfer_movement_simps(3) [of ti ts]]]
    have "find_by_key (transfer_key ti) db1 = Some (mr_movement r)"
      using None by (simp add: find_by_key_def e(5,6) find_append new_movement_def)
    with that show ?thesis by blast
  next
    case (Some m)
    with ts that show ?thesis by (elim recordMovement_cases) simp_all
  qed
  with us show ?thesis by (elim recordMovement_cases) simp_all
qed

text \<open>
  The same holds of a return, and it does worse: the second return of a piece of equipment
  between the same two places is dropped as a replay, so the asset stays as installed, yet its
  open loan is closed.
\<close>

lemma repeated_return_only_closes_the_loan:
  assumes "rn_idempotencyKey rn = None" "find_by_key (return_key rn) db = Some m"
    and "resolveForMovement (rn_asset rn) (rn_serial rn) db = Inr (Some a)"
  shows "\<exists>r. recordReturn env rn db = Inr (r, snd (closeOpenLoan (se_now env) (sa_id a) db)) \<and> \<not> mr_created r
    \<and> sd_assets (snd (closeOpenLoan (se_now env) (sa_id a) db)) = sd_assets db
    \<and> sd_balances (snd (closeOpenLoan (se_now env) (sa_id a) db)) = sd_balances db"
proof -
  have g: "given (rn_asset rn) \<or> given (rn_serial rn)" using assms(3) by (auto simp: resolveForMovement_def split: if_splits)
  have "mi_lines (return_movement rn) \<noteq> []" "mi_idempotencyKey (return_movement rn) = return_key rn"
    by (simp_all add: return_movement_def Let_def)
  with recordMovement_replay [of "return_movement rn" db m env] assms(2)
  have "recordMovement env (return_movement rn) db = Inr (\<lparr>mr_movement = m, mr_lines = lines_of (mv_id m) db, mr_created = False\<rparr>, db)"
    by simp
  with g assms(3) show ?thesis by (simp add: recordReturn_def closeOpenLoan_def)
qed

section \<open>Write-offs\<close>

text \<open>
  A write-off that names only the serial, which the schema admits and the request stores, can
  never be carried out: the movement has no line. With an item it still needs an asset that the
  table lets go: only from testing or repair, or written off already, is equipment written off.
\<close>

lemma write_off_limits:
  assumes "recordWriteOff env wo db = Inr (r, db')" "mr_created r" "stock_inv db"
    and "wo_asset wo = Some i" "i \<noteq> []" "resolveWriteOffAssetStatus (wo_reason wo) = AS_WRITTEN_OFF"
  shows "given (wo_item wo) \<and> asset_status i db \<in> Some ` {AS_IN_TESTING, AS_IN_REPAIR, AS_WRITTEN_OFF}"
proof -
  from assms(1) obtain loc db2 where mv: "recordMovement env (write_off_movement wo loc) db = Inr (r, db2)"
    by (auto simp: recordWriteOff_def res_bind_eq_Inr simp del: res_bind_Inr split: if_splits)
  let ?t = "leaving_transition (Some i) None AS_WRITTEN_OFF EV_WRITTEN_OFF"
  from mv assms(2) obtain rows db1 where st: "mi_lines (write_off_movement wo loc) \<noteq> []"
      "res_fold (record_line env) (mi_lines (write_off_movement wo loc))
         ([], db\<lparr>sd_movements := sd_movements db @ [new_movement env (write_off_movement wo loc) db]\<rparr>) = Inr (rows, db1)"
      "res_fold (record_transition env (wo_notes wo)) [?t] db1 = Inr db2"
    by (elim recordMovement_cases) (simp_all add: write_off_movement_def assms(4,6))
  have "given (wo_item wo)" using st(1) by (simp add: write_off_movement_def split: if_splits)
  moreover have "asset_status i db \<in> Some ` {AS_IN_TESTING, AS_IN_REPAIR, AS_WRITTEN_OFF}"
  proof -
    have b: "balances_ok (sd_balances (db\<lparr>sd_movements := sd_movements db @ [new_movement env (write_off_movement wo loc) db]\<rparr>))"
      using assms(3) by (simp add: stock_inv_def)
    have "sd_assets db1 = sd_assets db" using only_lines_frame record_lines_effect [OF st(2) b] by fastforce
    then have same: "find_asset j db1 = find_asset j db" for j by (simp add: find_asset_def)
    from st(3) have "record_transition env (wo_notes wo) ?t db1 = Inr db2" by (simp add: res_simps)
    then obtain a a' dbx where a: "resolveForMovement (tr_asset ?t) (tr_serial ?t) db1 = Inr (Some a)"
        "transitionAsset (?t\<lparr>tr_asset := Some (sa_id a), tr_serial := None\<rparr>) db1 = Inr (a', dbx)"
      by (rule record_transition_Inr)
    have fa: "find_asset i db = Some a" using a(1) assms(5)
      by (auto simp: leaving_transition_def resolveForMovement_def same split: option.splits)
    then have "sa_id a = i" by (rule find_asset_id)
    with a(2) fa assms(5) have "sa_status a = AS_WRITTEN_OFF \<or> AS_WRITTEN_OFF \<in> set (allowed_next (sa_status a))"
      by (auto simp: transitionAsset_def resolveForMovement_def same res_simps leaving_transition_def assertStatusTransition_iff split: if_splits)
    then show ?thesis using fa by (cases "sa_status a") (auto simp: asset_status_def)
  qed
  ultimately show ?thesis ..
qed

end
