(* ===== verification/StockNumbers.thy ===== *)
theory StockNumbers
  imports StockDemo
begin

text \<open>
  The numbers of the movements and the codes of the locations: where both schemes give each row
  a number of its own, and where they start to repeat themselves.
\<close>

section \<open>Numbers of movements\<close>

definition movement_number :: "int \<Rightarrow> string" where
  "movement_number n = ''MOV-'' @ pad_num 6 n"

lemma movement_number_le:
  assumes "0 \<le> m" "m < 10 ^ 6" "0 \<le> n" "n < 10 ^ 6"
  shows "js_le (movement_number m) (movement_number n) \<longleftrightarrow> m \<le> n"
proof -
  have "js_le (pad_num 6 m) (pad_num 6 n) \<longleftrightarrow> parse_digits (pad_num 6 m) \<le> parse_digits (pad_num 6 n)"
    using assms by (intro js_le_digits) (simp_all add: length_pad_num)
  then show ?thesis using assms by (simp add: movement_number_def)
qed

lemma movement_number_like [simp]: "sql_like ''MOV-%'' (movement_number n)"
  using sql_like_plain [of "''MOV-''" "movement_number n"] by (simp add: movement_number_def)

lemma takeWhile_not_dash: "list_all is_digit ds \<Longrightarrow> takeWhile (\<lambda>c. c \<noteq> CHR ''-'') (ds @ CHR ''-'' # s) = ds"
proof (induction ds)
  case (Cons d ds)
  then have "d \<noteq> CHR ''-''" by auto
  with Cons show ?case by simp
qed simp

lemma last_segment_number [simp]: "0 \<le> n \<Longrightarrow> last_segment (movement_number n) = pad_num 6 n"
proof -
  assume n: "0 \<le> n"
  have "rev (movement_number n) = rev (pad_num 6 n) @ CHR ''-'' # ''VOM''" by (simp add: movement_number_def)
  moreover have "list_all is_digit (rev (pad_num 6 n))" using pad_num_digits [OF n, of 6] by (simp add: list_all_iff)
  ultimately show ?thesis by (simp only: last_segment_def takeWhile_not_dash rev_rev_ident)
qed

lemma parse_int_digits: "list_all is_digit s \<Longrightarrow> s \<noteq> [] \<Longrightarrow> parse_int s = Some (parse_digits s)"
proof -
  assume s: "list_all is_digit s" "s \<noteq> []"
  then have tw: "takeWhile is_digit s = s" by (metis takeWhile_eq_all_conv list_all_iff)
  show ?thesis unfolding parse_int_def Let_def tw using s(2) by simp
qed

lemma pad_num_nonempty [simp]: "pad_num k n \<noteq> []"
  by (simp add: pad_num_def pad_start_def show_int_def)

text \<open>The numbers the ledger has given while they still have six digits.\<close>

definition numbers_from_two :: "nat \<Rightarrow> string list" where
  "numbers_from_two k = map (\<lambda>i. movement_number (int i + 2)) [0 ..< k]"

lemma numbers_from_two_Suc: "numbers_from_two (Suc k) = numbers_from_two k @ [movement_number (int k + 2)]"
  by (simp add: numbers_from_two_def)

definition text_max :: "string \<Rightarrow> string \<Rightarrow> string" where
  "text_max a b = (if js_le a b then b else a)"

lemma latest_of_numbers:
  assumes "int k + 2 < 10 ^ 6"
  shows "foldl text_max (movement_number 2) (map (\<lambda>i. movement_number (int i + 2)) [1 ..< Suc k]) = movement_number (int k + 2)"
  using assms
proof (induction k)
  case (Suc k)
  have split: "[1 ..< Suc (Suc k)] = [1 ..< Suc k] @ [Suc k]" by simp
  have "js_le (movement_number (int k + 2)) (movement_number (int (Suc k) + 2))"
    by (subst movement_number_le) (use Suc.prems in simp_all)
  with Suc show ?case unfolding split by (simp add: text_max_def [of "movement_number (int k + 2)"] del: upt_Suc)
qed simp

lemma numbers_from_two_Cons: "numbers_from_two (Suc k) = movement_number 2 # map (\<lambda>i. movement_number (int i + 2)) [1 ..< Suc k]"
  using upt_conv_Cons [of 0 "Suc k"] by (simp add: numbers_from_two_def del: upt_Suc)

lemma generateMovementNumber_numbers:
  assumes "map mv_number (sd_movements db) = numbers_from_two k" "int k + 1 < 10 ^ 6"
  shows "generateMovementNumber db = movement_number (int k + 2)"
proof (cases k)
  case 0
  then have "sd_movements db = []" using assms(1) by (simp add: numbers_from_two_def)
  then have "latest_number db = None" by (simp add: latest_number_def)
  moreover have "parse_int ''000001'' = Some 1" by code_simp
  ultimately show ?thesis by (simp add: generateMovementNumber_def 0 movement_number_def)
next
  case (Suc j)
  have "filter (sql_like ''MOV-%'') (numbers_from_two k) = numbers_from_two k"
    by (rule filter_True) (simp add: numbers_from_two_def del: sql_like.simps)
  then have "filter (sql_like ''MOV-%'') (map mv_number (sd_movements db)) = numbers_from_two (Suc j)"
    by (simp add: assms(1) Suc)
  moreover have "foldl text_max (movement_number 2) (map (\<lambda>i. movement_number (int i + 2)) [1 ..< Suc j]) = movement_number (int j + 2)"
    by (rule latest_of_numbers) (use assms(2) Suc in simp)
  ultimately have "latest_number db = Some (movement_number (int j + 2))"
    by (simp add: latest_number_def numbers_from_two_Cons text_max_def [abs_def] del: upt_Suc)
  moreover have "parse_int (pad_num 6 (int j + 2)) = Some (int j + 2)"
    by (subst parse_int_digits) simp_all
  ultimately have "generateMovementNumber db = ''MOV-'' @ pad_num 6 (int j + 3)" by (simp add: generateMovementNumber_def add.commute)
  then show ?thesis by (simp add: Suc movement_number_def add.commute)
qed

definition numbered :: "stock_db \<Rightarrow> bool" where
  "numbered db \<longleftrightarrow> (int (length (sd_movements db)) < 10 ^ 6 \<longrightarrow>
     map mv_number (sd_movements db) = numbers_from_two (length (sd_movements db)))"

lemma stock_effect_numbered:
  assumes "stock_effect ok restoring db db'" "stock_inv db" "numbered db"
  shows "numbered db'"
  using assms(1)
proof (cases rule: stock_effect.cases)
  case (movement env input r)
  show ?thesis
  proof (cases "find_by_key (mi_idempotencyKey input) db")
    case None
    note e = recordMovement_effect [OF movement(1) assms(2) None]
    show ?thesis
    proof (cases "int (length (sd_movements db)) + 1 < 10 ^ 6")
      case True
      then have "map mv_number (sd_movements db) = numbers_from_two (length (sd_movements db))" using assms(3) by (simp add: numbered_def)
      from generateMovementNumber_numbers [OF this True] this show ?thesis
        by (simp add: numbered_def e(5) new_movement_def numbers_from_two_Suc)
    qed (simp add: numbered_def e(5))
  next
    case (Some m)
    with movement(1) assms(3) show ?thesis by (elim recordMovement_cases) simp_all
  qed
next
  case (reservation item loc lot cond q)
  obtain bs where "db' = db\<lparr>sd_balances := bs\<rparr>" by (rule applyDelta_frame [OF reservation])
  with assms(3) show ?thesis by (simp add: numbered_def)
next
  case side
  then have m: "map mv_number (sd_movements db') = map mv_number (sd_movements db)" by (simp add: same_stock_def)
  from map_eq_imp_length_eq [OF m] m assms(3) show ?thesis by (simp add: numbered_def)
qed

lemma effects_numbered: "effects ok restoring db db' \<Longrightarrow> stock_inv db \<Longrightarrow> numbered db \<Longrightarrow> numbered db'"
proof (induction rule: rtranclp_induct)
  case (step s t)
  from step(1,4) have "stock_inv s" by (rule stock_effects_inv)
  with step show ?case by (auto intro: stock_effect_numbered)
qed simp

interpretation numbered_stock: step_invariant "empty_stock items locations lots" "stock_step (\<lambda>_. True)" "\<lambda>db. stock_inv db \<and> numbered db"
  for items locations lots
proof
  show "stock_inv (empty_stock items locations lots) \<and> numbered (empty_stock items locations lots)"
    by (simp add: empty_stock_inv) (simp add: numbered_def empty_stock_def numbers_from_two_def)
  show "stock_inv t \<and> numbered t" if "stock_inv s \<and> numbered s" "stock_step (\<lambda>_. True) s t" for s t
  proof -
    have e: "effects (\<lambda>_. True) True s t" by (rule any_quantity.step_effects) (use that in simp_all)
    with that(1) stock_effects_inv [OF e] effects_numbered [OF e] show ?thesis by auto
  qed
qed

lemma movement_number_inj: "0 \<le> m \<Longrightarrow> 0 \<le> n \<Longrightarrow> movement_number m = movement_number n \<Longrightarrow> m = n"
  by (metis last_segment_number parse_pad_num)

text \<open>
  The code reads the latest number without a lock, and no index holds the numbers apart: two
  movements whose transactions saw the same ones get the same number, whatever the state each of
  them is then written to.
\<close>

lemma numbers_read_together:
  assumes "recordMovementFrom env a seen db = Inr (r, db')" "mr_created r"
    and "recordMovementFrom env' b seen dc = Inr (r', dc')" "mr_created r'"
  shows "mv_number (mr_movement r) = mv_number (mr_movement r')"
proof -
  have "mv_number (mr_movement q) = generateMovementNumber seen"
    if "recordMovementFrom e i seen d = Inr (q, d')" "mr_created q" for e i q d d'
    using that by (auto simp: recordMovementFrom_def Let_def new_movement_def res_simps split: option.splits)
  from this [OF assms(1,2)] this [OF assms(3,4)] show ?thesis by simp
qed

text \<open>
  C12. Where movements are recorded one after the other, each seeing all before it when it reads
  the latest number (\<open>numbers_read_together\<close> says what happens otherwise), they are numbered from
  MOV-000002 on without a gap and without a repetition, as long as there are fewer than a million.
\<close>

theorem movement_numbers_consecutive:
  assumes "(stock_step (\<lambda>_. True))\<^sup>*\<^sup>* (empty_stock items locations lots) db" "length (sd_movements db) < 10 ^ 6"
  shows "map mv_number (sd_movements db) = map (\<lambda>i. ''MOV-'' @ pad_num 6 (int i + 2)) [0 ..< length (sd_movements db)]
    \<and> distinct (map mv_number (sd_movements db))"
proof -
  have "numbered db" using numbered_stock.inv_reachable [OF assms(1)] by blast
  then have n: "map mv_number (sd_movements db) = numbers_from_two (length (sd_movements db))"
    using assms(2) by (simp add: numbered_def)
  have "inj_on (\<lambda>i. movement_number (int i + 2)) A" for A
    by (rule inj_onI) (drule movement_number_inj [rotated 2], simp_all)
  then have "distinct (numbers_from_two k)" for k by (simp add: numbers_from_two_def distinct_map)
  then show ?thesis unfolding n by (simp add: numbers_from_two_def movement_number_def)
qed

theorem movement_numbers_consecutive_witness:
  "map mv_number (sd_movements demo5) = [''MOV-000002'', ''MOV-000003'', ''MOV-000004'', ''MOV-000005'', ''MOV-000006'']
    \<and> distinct (map mv_number (sd_movements demo5))"
proof -
  have "map mv_number (sd_movements demo5) = [''MOV-000002'', ''MOV-000003'', ''MOV-000004'', ''MOV-000005'', ''MOV-000006'']"
      "length (sd_movements demo5) = 5" by code_simp+
  then show ?thesis using movement_numbers_consecutive [OF any_reachable [OF demo_reachable]] by simp
qed

lemma text_max_top:
  "list_all (\<lambda>x. js_le x t) (a # xs) \<Longrightarrow> t \<in> set (a # xs) \<Longrightarrow> foldl text_max a xs = t"
proof (induction xs arbitrary: a)
  case (Cons x xs)
  have "t \<in> set (text_max a x # xs)" using Cons.prems by (auto simp: text_max_def dest: js_le_antisym)
  moreover have "list_all (\<lambda>x. js_le x t) (text_max a x # xs)" using Cons.prems(1) by (simp add: text_max_def)
  ultimately show ?case using Cons.IH by simp
qed simp

lemma generateMovementNumber_top:
  assumes "''MOV-999999'' \<in> set (map mv_number (sd_movements db))" "list_all (\<lambda>m. js_le (mv_number m) ''MOV-999999'') (sd_movements db)"
  shows "generateMovementNumber db = ''MOV-1000000''"
proof -
  let ?ns = "filter (sql_like ''MOV-%'') (map mv_number (sd_movements db))"
  have "sql_like ''MOV-%'' ''MOV-999999''" by code_simp
  with assms(1) have t: "''MOV-999999'' \<in> set ?ns" unfolding set_filter by blast
  have l: "list_all (\<lambda>n. js_le n ''MOV-999999'') ?ns" using assms(2) by (auto simp: list_all_iff simp del: sql_like.simps)
  obtain n ns where ns: "?ns = n # ns" using t by (cases ?ns) simp_all
  from text_max_top [OF l [unfolded ns] t [unfolded ns]] have "latest_number db = Some ''MOV-999999''"
    unfolding latest_number_def ns by (simp add: text_max_def [abs_def])
  moreover have "(case parse_int (last_segment ''MOV-999999'') of None \<Rightarrow> pad_start 6 ''NaN'' | Some n \<Rightarrow> pad_num 6 (n + 1)) = ''1000000''"
    by code_simp
  ultimately show ?thesis by (simp add: generateMovementNumber_def)
qed

text \<open>
  The numbers are compared as texts, so the millionth one is the last: once a movement has the
  number MOV-999999 and none has a greater text, every further movement gets the number
  MOV-1000000, again and again.
\<close>

lemma number_stays_at_a_million:
  assumes "recordMovement env input db = Inr (r, db')" "mr_created r" "stock_inv db"
    and "''MOV-999999'' \<in> set (map mv_number (sd_movements db))" "list_all (\<lambda>m. js_le (mv_number m) ''MOV-999999'') (sd_movements db)"
  shows "mv_number (mr_movement r) = ''MOV-1000000'' \<and> generateMovementNumber db' = ''MOV-1000000''"
proof -
  have "find_by_key (mi_idempotencyKey input) db = None" using assms(1,2) by (elim recordMovement_cases) simp_all
  note e = recordMovement_effect [OF assms(1,3) this]
  note n = generateMovementNumber_top [OF assms(4,5)]
  have "js_le ''MOV-1000000'' ''MOV-999999''" by code_simp
  then have "generateMovementNumber db' = ''MOV-1000000''"
    using assms(4,5) by (intro generateMovementNumber_top) (simp_all add: e(5) new_movement_def n)
  then show ?thesis by (simp add: e(6) new_movement_def n)
qed

section \<open>Codes of locations\<close>

lemma code_match_format:
  assumes "list_all is_upper prefix" "length prefix = 2 \<or> length prefix = 3" "0 \<le> n" "n < 1000"
  shows "parseStockLocationCodeSequence (formatStockLocationCode prefix n) prefix = Some n"
proof -
  have nu: "\<not> is_upper CHR ''-''" by code_simp
  have "takeWhile is_upper (prefix @ CHR ''-'' # pad_num 3 n) = prefix" "dropWhile is_upper (prefix @ CHR ''-'' # pad_num 3 n) = CHR ''-'' # pad_num 3 n"
    using assms(1) nu by (simp_all add: takeWhile_append2 dropWhile_append2 list_all_iff)
  then show ?thesis
    using assms pad_num_digits [of n 3]
    by (simp add: parseStockLocationCodeSequence_def formatStockLocationCode_def code_match_def Let_def length_pad_num list_all_iff)
qed

lemma prefix_shape: "list_all is_upper (getStockLocationTypeCodePrefix t)" "length (getStockLocationTypeCodePrefix t) = 3"
  by (cases t; simp; code_simp)+

definition raise_to :: "string \<Rightarrow> int \<Rightarrow> string \<Rightarrow> int" where
  "raise_to prefix m code =
     (case parseStockLocationCodeSequence code prefix of None \<Rightarrow> m | Some n \<Rightarrow> if m < n then n else m)"

lemma max_sequence_ge: "m \<le> foldl (raise_to prefix) m codes"
proof (induction codes arbitrary: m)
  case (Cons c codes)
  have "m \<le> raise_to prefix m c" by (simp add: raise_to_def split: option.split)
  also have "\<dots> \<le> foldl (raise_to prefix) m (c # codes)" using Cons.IH [of "raise_to prefix m c"] by simp
  finally show ?case .
qed simp

lemma max_sequence_bounds:
  "c \<in> set codes \<Longrightarrow> parseStockLocationCodeSequence c prefix = Some n \<Longrightarrow> n \<le> foldl (raise_to prefix) m codes"
proof (induction codes arbitrary: m)
  case (Cons d codes)
  show ?case
  proof (cases "c = d")
    case True
    with Cons.prems(2) have "n \<le> raise_to prefix m d" by (simp add: raise_to_def)
    with max_sequence_ge [of "raise_to prefix m d" prefix codes] show ?thesis by simp
  next
    case False
    with Cons show ?thesis by simp
  qed
qed simp

lemma max_sequence_less:
  "m < b \<Longrightarrow> list_all (\<lambda>c. case parseStockLocationCodeSequence c prefix of None \<Rightarrow> True | Some n \<Rightarrow> n < b) codes \<Longrightarrow>
    foldl (raise_to prefix) m codes < b"
proof (induction codes arbitrary: m)
  case (Cons c codes)
  from Cons.prems have "raise_to prefix m c < b" by (simp add: raise_to_def split: option.splits)
  with Cons show ?case by simp
qed simp

lemma resolveNext_raise:
  "resolveNextStockLocationCode codes t offset
    = formatStockLocationCode (getStockLocationTypeCodePrefix t) (foldl (raise_to (getStockLocationTypeCodePrefix t)) 0 codes + 1 + offset)"
  unfolding resolveNextStockLocationCode_def Let_def raise_to_def [abs_def] by simp

lemma parse_sequence_Some:
  assumes "parseStockLocationCodeSequence c prefix = Some n"
  shows "c = formatStockLocationCode prefix n \<and> 0 \<le> n \<and> n < 1000"
proof -
  define letters where "letters = takeWhile is_upper c"
  define rest where "rest = dropWhile is_upper c"
  have c: "c = letters @ rest" by (simp add: letters_def rest_def)
  from assms have m: "letters = prefix" "take 1 rest = ''-''" "length (drop 1 rest) = 3" "list_all is_digit (drop 1 rest)"
      "n = parse_digits (drop 1 rest)"
    by (auto simp: parseStockLocationCodeSequence_def code_match_def Let_def letters_def rest_def split: option.splits if_splits)
  then have r: "rest = CHR ''-'' # drop 1 rest" by (cases rest) auto
  have b: "0 \<le> n" "n < 10 ^ 3" using m parse_digits_nonneg [OF m(4)] parse_digits_less [OF m(4)] by simp_all
  have "drop 1 rest = pad_num 3 n"
  proof (rule js_le_antisym)
    have l: "length (pad_num 3 n) = length (drop 1 rest)" using m(3) length_pad_num [OF b] by simp
    show "js_le (drop 1 rest) (pad_num 3 n)" "js_le (pad_num 3 n) (drop 1 rest)"
      using l m(4,5) b by (simp_all add: js_le_digits)
  qed
  with r c m(1) b show ?thesis by (simp add: formatStockLocationCode_def)
qed

text \<open>
  C31. The code proposed for the next location of a type belongs to none of the existing ones, of
  whatever types, until the sequence 999 of that type is taken: from then on every further
  location gets the same code with the sequence 1000.
\<close>

theorem location_codes:
  "if formatStockLocationCode (getStockLocationTypeCodePrefix t) 999 \<in> set codes
   then resolveNextStockLocationCode codes t 0 = getStockLocationTypeCodePrefix t @ ''-1000''
   else resolveNextStockLocationCode codes t 0 \<notin> set codes"
proof -
  let ?p = "getStockLocationTypeCodePrefix t"
  let ?m = "foldl (raise_to ?p) 0 codes"
  let ?below = "\<lambda>b. list_all (\<lambda>c. case parseStockLocationCodeSequence c ?p of None \<Rightarrow> True | Some n \<Rightarrow> n < b) codes"
  have parse: "parseStockLocationCodeSequence (formatStockLocationCode ?p n) ?p = Some n" if "0 \<le> n" "n < 1000" for n
    by (rule code_match_format) (use that prefix_shape in simp_all)
  have ge: "0 \<le> ?m" by (rule max_sequence_ge)
  have "?below 1000" using parse_sequence_Some [of _ ?p] by (auto simp: list_all_iff split: option.split)
  from max_sequence_less [OF _ this, of 0] have lt: "?m < 1000" by simp
  show ?thesis
  proof (cases "formatStockLocationCode ?p 999 \<in> set codes")
    case True
    from max_sequence_bounds [OF True parse, of 0] lt have "?m = 999" by simp
    moreover have "pad_num 3 1000 = ''1000''" by code_simp
    ultimately show ?thesis using True unfolding resolveNext_raise by (simp add: formatStockLocationCode_def)
  next
    case False
    have "?below 999"
    proof -
      have "n < 999" if "c \<in> set codes" "parseStockLocationCodeSequence c ?p = Some n" for c n
        using parse_sequence_Some [OF that(2)] that(1) False by (cases "n = 999") auto
      then show ?thesis by (auto simp: list_all_iff split: option.split)
    qed
    from max_sequence_less [OF _ this, of 0] have "?m < 999" by simp
    with ge have "parseStockLocationCodeSequence (resolveNextStockLocationCode codes t 0) ?p = Some (?m + 1)"
      unfolding resolveNext_raise by (simp add: parse)
    from max_sequence_bounds [OF _ this, of codes 0] have "resolveNextStockLocationCode codes t 0 \<notin> set codes" by auto
    with False show ?thesis by simp
  qed
qed

end
