(* ===== verification/StockIssues.thy ===== *)
theory StockIssues
  imports StockMovements
begin

text \<open>
  \<open>stock-issue.service.ts\<close>: the documents by which goods leave the main warehouse. An issue
  reserves its goods when it is created or its lines are replaced, and frees them when it is
  dispatched through the stock ledger or cancelled. A change, a dispatch and a cancellation read
  the issue with its lines and serials before they take any lock; each is a definition over what
  it \<open>seen\<close> and the state \<open>db\<close> it then writes to, and the operation in one step is the case in
  which the two are the same. With it \<open>serialized-group.validator.ts\<close>,
  \<open>serial-group.utils.ts\<close>, the schemas of the bodies and the tables of migrations 057 and 126.
  The events after the commit and the details for reading are left out.
\<close>

section \<open>Tables\<close>

datatype StockIssueStatus =
    XS_DRAFT | XS_REQUESTED | XS_APPROVED | XS_PICKING | XS_READY_TO_DISPATCH | XS_DISPATCHED | XS_RECEIVED | XS_CANCELLED

datatype StockIssueType =
    XT_TECHNICIAN_CUSTODY | XT_CREW_CUSTODY | XT_OFFICE_REPLENISHMENT | XT_NODE_REPLENISHMENT | XT_SALE_DISPATCH
  | XT_INTERNAL_CONSUMPTION | XT_WAREHOUSE_TO_WAREHOUSE

text \<open>A document attached to the handoff, as the closed schema leaves it.\<close>

record handoff_attachment =
  ha_name :: string
  ha_url :: "string option"
  ha_mimeType :: "string option"
  ha_sizeBytes :: "int option"

record stock_issue =
  xi_id :: string
  xi_type :: StockIssueType
  xi_status :: StockIssueStatus
  xi_source :: string
  xi_destination :: "string option"
  xi_destinationRef :: "string option"
  xi_originRef :: "string option"
  xi_commercialRef :: "string option"
  xi_reason :: "string option"
  xi_costCenter :: "string option"
  xi_handoffMethod :: "string option"
  xi_handoffNotes :: "string option"
  xi_attachments :: "handoff_attachment list option"
  xi_dispatchedBy :: "string option"
  xi_closedAt :: "int option"
  xi_movement :: "string option"

record stock_issue_line =
  xl_id :: string
  xl_issue :: string
  xl_item :: string
  xl_requested :: int
  xl_dispatched :: "int option"
  xl_lot :: "string option"
  xl_asset :: "string option"
  xl_condition :: StockBalanceCondition

record issue_serial =
  xs_line :: string
  xs_issue :: string
  xs_status :: StockIssueStatus
  xs_asset :: string

record issue_db =
  xd_stock :: stock_db
  xd_issues :: "stock_issue list"
  xd_lines :: "stock_issue_line list"
  xd_serials :: "issue_serial list"

record issue_env =
  xe_stock :: stock_env
  xe_issue :: string
  xe_line :: "nat \<Rightarrow> string"

definition closed_status :: "StockIssueStatus \<Rightarrow> bool" where
  "closed_status s \<longleftrightarrow> s = XS_CANCELLED \<or> s = XS_DISPATCHED \<or> s = XS_RECEIVED"

definition find_issue :: "string \<Rightarrow> issue_db \<Rightarrow> stock_issue option" where
  "find_issue i db = find (\<lambda>r. xi_id r = i) (xd_issues db)"

definition issue_lines_of :: "string \<Rightarrow> issue_db \<Rightarrow> stock_issue_line list" where
  "issue_lines_of i db = filter (\<lambda>l. xl_issue l = i) (xd_lines db)"

text \<open>The serials of a line, from the serials of its issue.\<close>

definition line_group :: "string \<Rightarrow> stock_issue_line \<Rightarrow> issue_db \<Rightarrow> string list" where
  "line_group i l db = map xs_asset (filter (\<lambda>s. xs_line s = xl_id l) (filter (\<lambda>s. xs_issue s = i) (xd_serials db)))"

definition put_issue :: "stock_issue \<Rightarrow> issue_db \<Rightarrow> issue_db" where
  "put_issue r db = db\<lparr>xd_issues := map (\<lambda>x. if xi_id x = xi_id r then r else x) (xd_issues db)\<rparr>"

section \<open>Bodies\<close>

record issue_line_input =
  xn_item :: string
  xn_requested :: rat
  xn_lot :: "string option"
  xn_assets :: "string list option"
  xn_condition :: StockBalanceCondition

record create_issue_body =
  xc_type :: StockIssueType
  xc_source :: string
  xc_destination :: "string option"
  xc_destinationRef :: "string option"
  xc_originRef :: "string option"
  xc_commercialRef :: "string option"
  xc_reason :: "string option"
  xc_costCenter :: "string option"
  xc_lines :: "issue_line_input list"

text \<open>In an update an absent field is \<^term>\<open>None\<close> and a \<open>null\<close> is \<^term>\<open>Some None\<close>.\<close>

record update_issue_body =
  xu_type :: "StockIssueType option"
  xu_status :: "StockIssueStatus option"
  xu_source :: "string option"
  xu_destination :: "string option option"
  xu_destinationRef :: "string option option"
  xu_originRef :: "string option option"
  xu_commercialRef :: "string option option"
  xu_reason :: "string option option"
  xu_costCenter :: "string option option"
  xu_lines :: "issue_line_input list option"

record dispatch_body =
  xh_method :: string
  xh_notes :: "string option"
  xh_attachments :: "handoff_attachment list"

definition group_of :: "issue_line_input \<Rightarrow> string list" where
  "group_of l = (case xn_assets l of None \<Rightarrow> [] | Some as \<Rightarrow> as)"

definition is_integer :: "rat \<Rightarrow> bool" where
  "is_integer q \<longleftrightarrow> of_int (floor q) = q"

definition line_input_ok :: "issue_line_input \<Rightarrow> bool" where
  "line_input_ok l \<longleftrightarrow> 0 < xn_requested l \<and> xn_assets l \<noteq> Some [] \<and> distinct (group_of l)
     \<and> (group_of l \<noteq> [] \<longrightarrow> is_integer (xn_requested l) \<and> xn_requested l = of_nat (length (group_of l)))"

definition outgoing_type :: "StockIssueType \<Rightarrow> bool" where
  "outgoing_type t \<longleftrightarrow> t = XT_SALE_DISPATCH \<or> t = XT_INTERNAL_CONSUMPTION"

definition destination_rules :: "StockIssueType \<Rightarrow> string option \<Rightarrow> string option \<Rightarrow> bool" where
  "destination_rules t source destination \<longleftrightarrow>
     (if outgoing_type t then \<not> given destination
      else given destination \<and> \<not> (given source \<and> source = destination))"

definition reference_rules ::
  "StockIssueType \<Rightarrow> string option \<Rightarrow> string option \<Rightarrow> string option \<Rightarrow> string option \<Rightarrow> bool" where
  "reference_rules t originRef commercialRef costCenter reason \<longleftrightarrow>
     (t = XT_SALE_DISPATCH \<longrightarrow> given (trim_opt originRef) \<or> given (trim_opt commercialRef))
     \<and> (t = XT_INTERNAL_CONSUMPTION \<longrightarrow> given (trim_opt costCenter) \<and> given (trim_opt reason))"

definition create_body_ok :: "create_issue_body \<Rightarrow> bool" where
  "create_body_ok b \<longleftrightarrow> xc_lines b \<noteq> [] \<and> list_all line_input_ok (xc_lines b)
     \<and> reference_rules (xc_type b) (xc_originRef b) (xc_commercialRef b) (xc_costCenter b) (xc_reason b)
     \<and> destination_rules (xc_type b) (Some (xc_source b)) (xc_destination b)"

definition flat :: "'a option option \<Rightarrow> 'a option" where
  "flat v = (case v of None \<Rightarrow> None | Some x \<Rightarrow> x)"

text \<open>Of the format of identifiers only what the service rests on: a source is not empty.\<close>

definition update_body_ok :: "update_issue_body \<Rightarrow> bool" where
  "update_body_ok b \<longleftrightarrow>
     (xu_type b \<noteq> None \<or> xu_status b \<noteq> None \<or> xu_source b \<noteq> None \<or> xu_destination b \<noteq> None \<or> xu_destinationRef b \<noteq> None
      \<or> xu_originRef b \<noteq> None \<or> xu_commercialRef b \<noteq> None \<or> xu_reason b \<noteq> None \<or> xu_costCenter b \<noteq> None \<or> xu_lines b \<noteq> None)
     \<and> xu_source b \<noteq> Some []
     \<and> (case xu_status b of None \<Rightarrow> True | Some s \<Rightarrow> \<not> closed_status s)
     \<and> (case xu_lines b of None \<Rightarrow> True | Some ls \<Rightarrow> ls \<noteq> [] \<and> list_all line_input_ok ls)
     \<and> (case xu_type b of None \<Rightarrow> True | Some t \<Rightarrow>
          reference_rules t (flat (xu_originRef b)) (flat (xu_commercialRef b)) (flat (xu_costCenter b)) (flat (xu_reason b))
          \<and> destination_rules t (xu_source b) (flat (xu_destination b)))"

definition attachment_ok :: "handoff_attachment \<Rightarrow> bool" where
  "attachment_ok a \<longleftrightarrow> ha_name a \<noteq> [] \<and> length (ha_name a) \<le> 160
     \<and> (case ha_url a of None \<Rightarrow> True | Some u \<Rightarrow> length u \<le> 500) \<and> (case ha_mimeType a of None \<Rightarrow> True | Some t \<Rightarrow> length t \<le> 100)
     \<and> (case ha_sizeBytes a of None \<Rightarrow> True | Some n \<Rightarrow> 0 \<le> n)"

definition dispatch_body_ok :: "dispatch_body \<Rightarrow> bool" where
  "dispatch_body_ok b \<longleftrightarrow> xh_method b \<noteq> [] \<and> length (xh_method b) \<le> 32
     \<and> (case xh_notes b of None \<Rightarrow> True | Some t \<Rightarrow> length t \<le> 1000) \<and> list_all attachment_ok (xh_attachments b)"

section \<open>Checks\<close>

definition assertDestinationCompatibility :: "StockIssueType \<Rightarrow> string option \<Rightarrow> unit stock_result" where
  "assertDestinationCompatibility t destination =
     res_bind (guard_ok (\<not> (outgoing_type t \<and> given destination)) (Bad_Input Destination_Refused)) (\<lambda>_.
       guard_ok (given destination \<or> outgoing_type t) (Bad_Input Destination_Required))"

definition assertCommercialRefs :: "StockIssueType \<Rightarrow> string option \<Rightarrow> string option \<Rightarrow> unit stock_result" where
  "assertCommercialRefs t originRef commercialRef =
     guard_ok (t = XT_SALE_DISPATCH \<longrightarrow> given originRef \<or> given commercialRef) (Bad_Input No_Commercial_Reference)"

definition assertInternalConsumption :: "StockIssueType \<Rightarrow> string option \<Rightarrow> string option \<Rightarrow> unit stock_result" where
  "assertInternalConsumption t costCenter reason =
     (if t \<noteq> XT_INTERNAL_CONSUMPTION then Inr ()
      else res_bind (guard_ok (given (trim_opt costCenter)) (Bad_Input No_Cost_Center)) (\<lambda>_.
        guard_ok (given (trim_opt reason)) (Bad_Input No_Reason)))"

definition resolveLocation :: "string \<Rightarrow> stock_db \<Rightarrow> stock_location stock_result" where
  "resolveLocation i db = (case find_location i db of None \<Rightarrow> Inl (Missing No_Location) | Some l \<Rightarrow> Inr l)"

definition assertDestinationTypeForDispatch :: "StockIssueType \<Rightarrow> stock_location option \<Rightarrow> unit stock_result" where
  "assertDestinationTypeForDispatch t destination =
     (if outgoing_type t then guard_ok (destination = None) (Bad_Input Destination_Refused)
      else (case destination of
          None \<Rightarrow> Inl (Bad_Input Destination_Required)
        | Some d \<Rightarrow>
            res_bind (guard_ok (sl_type d \<noteq> LT_CUSTOMER_SITE) (Bad_Input Wrong_Destination)) (\<lambda>_.
              guard_ok
                (case t of
                   XT_TECHNICIAN_CUSTODY \<Rightarrow> sl_type d = LT_MOBILE_TECHNICIAN
                 | XT_CREW_CUSTODY \<Rightarrow> sl_type d = LT_MOBILE_CREW
                 | XT_OFFICE_REPLENISHMENT \<Rightarrow> sl_type d = LT_OFFICE_STOCK
                 | XT_NODE_REPLENISHMENT \<Rightarrow> sl_type d = LT_NODE_STOCK
                 | XT_WAREHOUSE_TO_WAREHOUSE \<Rightarrow>
                     sl_type d \<in> {LT_OFFICE_STOCK, LT_NODE_STOCK, LT_QUARANTINE, LT_REPAIR}
                 | _ \<Rightarrow> True) (Bad_Input Wrong_Destination))))"

text \<open>The source and the destination of an issue, read and checked.\<close>

definition issue_locations ::
  "StockIssueType \<Rightarrow> string \<Rightarrow> string option \<Rightarrow> stock_db \<Rightarrow> (stock_location \<times> stock_location option) stock_result" where
  "issue_locations t source destination db =
     res_bind (resolveLocation source db) (\<lambda>s.
     res_bind (guard_ok (sl_type s = LT_MAIN_WAREHOUSE) (Bad_Input Not_Main_Warehouse)) (\<lambda>_.
     res_bind (if given destination then res_bind (resolveLocation (the destination) db) (\<lambda>d. Inr (Some d)) else Inr None) (\<lambda>d.
     res_bind (guard_ok (case d of None \<Rightarrow> True | Some x \<Rightarrow> sl_id s \<noteq> sl_id x) (Bad_Input Same_Location)) (\<lambda>_.
     res_bind (assertDestinationTypeForDispatch t d) (\<lambda>_. Inr (s, d))))))"

section \<open>Groups of serials\<close>

record group_line =
  gl_item :: string
  gl_requested :: rat
  gl_assets :: "string list"
  gl_lot :: "string option"

definition serialized_mode :: "InventoryTrackingMode \<Rightarrow> bool" where
  "serialized_mode m \<longleftrightarrow> m = TM_SERIALIZED \<or> m = TM_FIXED_ASSET"

definition dispatchable :: "SerializedAssetStatus \<Rightarrow> bool" where
  "dispatchable s \<longleftrightarrow> s = AS_AVAILABLE \<or> s = AS_AVAILABLE_REFURBISHED"

definition loadSerializedEntries :: "group_line list \<Rightarrow> stock_db \<Rightarrow> group_line list" where
  "loadSerializedEntries ls db =
     filter (\<lambda>l. case find_item (gl_item l) db of None \<Rightarrow> False | Some item \<Rightarrow> serialized_mode (si_tracking item)) ls"

definition assertGroupQuantity :: "group_line \<Rightarrow> unit stock_result" where
  "assertGroupQuantity l =
     res_bind (guard_ok (gl_assets l \<noteq> []) (Bad_Input Group_Missing)) (\<lambda>_.
       guard_ok (is_integer (gl_requested l) \<and> gl_requested l = of_nat (length (gl_assets l))) (Bad_Input Group_Quantity))"

definition assertAssetEligible :: "stock_db \<Rightarrow> string \<Rightarrow> group_line \<Rightarrow> string \<Rightarrow> unit stock_result" where
  "assertAssetEligible db source l i =
     (case find_asset i db of
        None \<Rightarrow> Inl (Bad_Input No_Asset)
      | Some a \<Rightarrow>
          res_bind (guard_ok (sa_item a = gl_item l) (Bad_Input Other_Item)) (\<lambda>_.
          res_bind (guard_ok (sa_location a = Some source) (Bad_Input Not_At_Source)) (\<lambda>_.
          res_bind (guard_ok (dispatchable (sa_status a)) (Bad_Input Not_Dispatchable)) (\<lambda>_.
            guard_ok (\<not> (given (gl_lot l) \<and> given (sa_lot a) \<and> sa_lot a \<noteq> gl_lot l)) (Bad_Input Other_Lot)))))"

definition res_all :: "('a \<Rightarrow> unit stock_result) \<Rightarrow> 'a list \<Rightarrow> unit stock_result" where
  "res_all f xs = res_fold (\<lambda>x _. f x) xs ()"

definition assertNotCommittedElsewhere :: "string list \<Rightarrow> string option \<Rightarrow> issue_db \<Rightarrow> unit stock_result" where
  "assertNotCommittedElsewhere assets exclude db =
     guard_ok (\<not> list_ex (\<lambda>s. xs_asset s \<in> set assets \<and> \<not> closed_status (xs_status s) \<and> \<not> (given exclude \<and> exclude = Some (xs_issue s)))
       (xd_serials db)) (Bad_Input Asset_Committed)"

definition assertGroupsIntegrity :: "group_line list \<Rightarrow> string \<Rightarrow> string option \<Rightarrow> issue_db \<Rightarrow> unit stock_result" where
  "assertGroupsIntegrity ls source exclude db =
     (let entries = loadSerializedEntries ls (xd_stock db); assets = concat (map gl_assets entries) in
      if entries = [] then Inr ()
      else res_bind (res_all assertGroupQuantity entries) (\<lambda>_.
           res_bind (guard_ok (distinct assets) (Bad_Input Repeated_Asset)) (\<lambda>_.
           res_bind (res_all (\<lambda>l. res_all (assertAssetEligible (xd_stock db) source l) (gl_assets l)) entries) (\<lambda>_.
             assertNotCommittedElsewhere assets exclude db))))"

section \<open>Reservations\<close>

record reservation_adjustment =
  rj_item :: string
  rj_lot :: "string option"
  rj_condition :: StockBalanceCondition
  rj_delta :: rat

definition same_key :: "reservation_adjustment \<Rightarrow> reservation_adjustment \<Rightarrow> bool" where
  "same_key a b \<longleftrightarrow> rj_item a = rj_item b \<and> rj_lot a = rj_lot b \<and> rj_condition a = rj_condition b"

definition resolveLineQuantity :: "rat \<Rightarrow> nat \<Rightarrow> rat" where
  "resolveLineQuantity requested n = (if 0 < n then of_nat n else requested)"

definition add_adjustment :: "reservation_adjustment list \<Rightarrow> reservation_adjustment \<Rightarrow> reservation_adjustment list" where
  "add_adjustment as a =
     (if list_ex (same_key a) as
      then map (\<lambda>b. if same_key a b then b\<lparr>rj_delta := rj_delta b + rj_delta a\<rparr> else b) as
      else as @ [a])"

definition aggregated :: "reservation_adjustment list \<Rightarrow> reservation_adjustment list" where
  "aggregated as = filter (\<lambda>a. rj_delta a \<noteq> 0) (foldl add_adjustment [] as)"

text \<open>\<open>getAvailabilitiesWithManager\<close> at a key: the grouped sums of the tuple, or zero.\<close>

definition availability_at :: "string \<Rightarrow> reservation_adjustment \<Rightarrow> stock_db \<Rightarrow> stock_availability" where
  "availability_at loc a db = getAvailability (rj_item a) loc (rj_lot a) (rj_condition a) db"

definition reserve_one :: "string \<Rightarrow> reservation_adjustment \<Rightarrow> stock_db \<Rightarrow> stock_db stock_result" where
  "reserve_one loc a = applyDelta (rj_item a) loc (rj_lot a) (rj_condition a) 0 (rj_delta a)"

definition enough_available :: "string \<Rightarrow> stock_db \<Rightarrow> reservation_adjustment \<Rightarrow> bool" where
  "enough_available loc db a \<longleftrightarrow> \<not> av_available (availability_at loc a db) < rj_delta a"

text \<open>Only what an adjustment adds to the reservations has to be available.\<close>

definition may_reserve :: "string \<Rightarrow> stock_db \<Rightarrow> reservation_adjustment \<Rightarrow> bool" where
  "may_reserve loc db a \<longleftrightarrow> (0 < rj_delta a \<longrightarrow> enough_available loc db a)"

definition adjustReservations :: "string \<Rightarrow> reservation_adjustment list \<Rightarrow> stock_db \<Rightarrow> stock_db stock_result" where
  "adjustReservations loc as db =
     res_bind (guard_ok (list_all (may_reserve loc db) (aggregated as))
        (Bad_Input Not_Enough_Available)) (\<lambda>_.
       res_fold (reserve_one loc) (aggregated as) db)"

definition verifyReservationAvailability :: "string \<Rightarrow> reservation_adjustment list \<Rightarrow> stock_db \<Rightarrow> unit stock_result" where
  "verifyReservationAvailability loc as db =
     guard_ok (list_all (enough_available loc db) as) (Bad_Input Not_Enough_Available)"

text \<open>The adjustments of the lines of a body, and of the lines of an issue.\<close>

definition input_adjustment :: "issue_line_input \<Rightarrow> reservation_adjustment" where
  "input_adjustment l =
     \<lparr>rj_item = xn_item l, rj_lot = xn_lot l, rj_condition = xn_condition l,
      rj_delta = resolveLineQuantity (xn_requested l) (length (group_of l))\<rparr>"

definition line_quantity :: "string \<Rightarrow> issue_db \<Rightarrow> stock_issue_line \<Rightarrow> rat" where
  "line_quantity i db l = resolveLineQuantity (toNumeric (xl_requested l)) (length (line_group i l db))"

definition line_adjustment :: "rat \<Rightarrow> string \<Rightarrow> issue_db \<Rightarrow> stock_issue_line \<Rightarrow> reservation_adjustment" where
  "line_adjustment factor i db l =
     \<lparr>rj_item = xl_item l, rj_lot = xl_lot l, rj_condition = xl_condition l, rj_delta = factor * line_quantity i db l\<rparr>"

section \<open>Rows of an issue\<close>

definition issue_line_row :: "issue_env \<Rightarrow> string \<Rightarrow> nat \<times> issue_line_input \<Rightarrow> stock_issue_line" where
  "issue_line_row env i nl =
     \<lparr>xl_id = xe_line env (fst nl), xl_issue = i, xl_item = xn_item (snd nl), xl_requested = toQuantity (xn_requested (snd nl)),
      xl_dispatched = None, xl_lot = xn_lot (snd nl),
      xl_asset = (case group_of (snd nl) of [] \<Rightarrow> None | a # _ \<Rightarrow> Some a), xl_condition = xn_condition (snd nl)\<rparr>"

text \<open>The keys and the column of a line, checked by the \<open>INSERT\<close>.\<close>

definition issue_line_accepted :: "stock_db \<Rightarrow> stock_issue_line \<Rightarrow> bool" where
  "issue_line_accepted db l \<longleftrightarrow>
     fits_numeric (xl_requested l) \<and> find_item (xl_item l) db \<noteq> None \<and> known_lot (xl_lot l) db \<and> known_asset (xl_asset l) db"

definition insert_issue_lines :: "issue_env \<Rightarrow> string \<Rightarrow> issue_line_input list \<Rightarrow> issue_db \<Rightarrow> (stock_issue_line list \<times> issue_db) stock_result" where
  "insert_issue_lines env i ls db =
     (let rows = map (issue_line_row env i) (enumerate 0 ls) in
      res_bind (guard_ok (distinct (map xl_id (xd_lines db @ rows)) \<and> list_all (issue_line_accepted (xd_stock db)) rows) Query_Failed) (\<lambda>_.
        Inr (rows, db\<lparr>xd_lines := xd_lines db @ rows\<rparr>)))"

definition serial_rows :: "string \<Rightarrow> StockIssueStatus \<Rightarrow> stock_issue_line \<times> issue_line_input \<Rightarrow> issue_serial list" where
  "serial_rows i status rl =
     map (\<lambda>a. \<lparr>xs_line = xl_id (fst rl), xs_issue = i, xs_status = status, xs_asset = a\<rparr>) (group_of (snd rl))"

text \<open>
  The insertion of the serials; an asset in two issues that are not closed breaks the partial
  unique index of migration 126.
\<close>

definition insertIssueLineSerials :: "issue_serial list \<Rightarrow> issue_db \<Rightarrow> issue_db stock_result" where
  "insertIssueLineSerials new db =
     res_bind (guard_ok (distinct (map xs_asset (filter (\<lambda>s. \<not> closed_status (xs_status s)) (xd_serials db @ new)))) (Bad_Input Asset_Committed)) (\<lambda>_.
       Inr (db\<lparr>xd_serials := xd_serials db @ new\<rparr>))"

text \<open>Lines, serials and reservation of the lines of a body.\<close>

definition add_lines :: "issue_env \<Rightarrow> stock_issue \<Rightarrow> issue_line_input list \<Rightarrow> issue_db \<Rightarrow> issue_db stock_result" where
  "add_lines env issue ls db =
     res_bind (insert_issue_lines env (xi_id issue) ls db) (\<lambda>(rows, db1).
     res_bind (insertIssueLineSerials (concat (map (serial_rows (xi_id issue) (xi_status issue)) (zip rows ls))) db1) (\<lambda>db2.
     res_bind (adjustReservations (xi_source issue) (map input_adjustment ls) (xd_stock db2)) (\<lambda>s.
       Inr (db2\<lparr>xd_stock := s\<rparr>))))"

definition input_group_line :: "issue_line_input \<Rightarrow> group_line" where
  "input_group_line l = \<lparr>gl_item = xn_item l, gl_requested = xn_requested l, gl_assets = group_of l, gl_lot = xn_lot l\<rparr>"

section \<open>Creating an issue\<close>

definition new_issue :: "issue_env \<Rightarrow> create_issue_body \<Rightarrow> stock_issue" where
  "new_issue env b =
     \<lparr>xi_id = xe_issue env, xi_type = xc_type b, xi_status = XS_REQUESTED, xi_source = xc_source b,
      xi_destination = xc_destination b, xi_destinationRef = xc_destinationRef b, xi_originRef = xc_originRef b,
      xi_commercialRef = xc_commercialRef b, xi_reason = xc_reason b, xi_costCenter = xc_costCenter b,
      xi_handoffMethod = None, xi_handoffNotes = None, xi_attachments = None, xi_dispatchedBy = None, xi_closedAt = None,
      xi_movement = None\<rparr>"

definition createIssue :: "issue_env \<Rightarrow> create_issue_body \<Rightarrow> issue_db \<Rightarrow> issue_db stock_result" where
  "createIssue env b db =
     res_bind (guard_ok (create_body_ok b) (Bad_Input Invalid_Body)) (\<lambda>_.
     res_bind (assertCommercialRefs (xc_type b) (xc_originRef b) (xc_commercialRef b)) (\<lambda>_.
     res_bind (assertInternalConsumption (xc_type b) (xc_costCenter b) (xc_reason b)) (\<lambda>_.
     res_bind (assertDestinationCompatibility (xc_type b) (xc_destination b)) (\<lambda>_.
     res_bind (issue_locations (xc_type b) (xc_source b) (xc_destination b) (xd_stock db)) (\<lambda>_.
     res_bind (assertGroupsIntegrity (map input_group_line (xc_lines b)) (xc_source b) None db) (\<lambda>_.
     res_bind (guard_ok (find_issue (xe_issue env) db = None) Query_Failed) (\<lambda>_.
       add_lines env (new_issue env b) (xc_lines b) (db\<lparr>xd_issues := xd_issues db @ [new_issue env b]\<rparr>))))))))"

section \<open>Dispatch\<close>

text \<open>
  The members of an attachment in the order of the schema, and in the order in which a \<open>jsonb\<close>
  column gives them back: PostgreSQL keeps the keys of an object sorted by length.
  \<open>JSON.stringify\<close> writes the members as they come, so it is equal exactly where they are.
\<close>

datatype handoff_member = Member_text string string | Member_number string int

definition optional_text :: "string \<Rightarrow> string option \<Rightarrow> handoff_member list" where
  "optional_text k v = (case v of None \<Rightarrow> [] | Some t \<Rightarrow> [Member_text k t])"

definition tail_members :: "handoff_attachment \<Rightarrow> handoff_member list" where
  "tail_members a = optional_text ''mimeType'' (ha_mimeType a)
     @ (case ha_sizeBytes a of None \<Rightarrow> [] | Some n \<Rightarrow> [Member_number ''sizeBytes'' n])"

definition incoming_members :: "handoff_attachment \<Rightarrow> handoff_member list" where
  "incoming_members a = Member_text ''name'' (ha_name a) # optional_text ''url'' (ha_url a) @ tail_members a"

definition stored_members :: "handoff_attachment \<Rightarrow> handoff_member list" where
  "stored_members a = optional_text ''url'' (ha_url a) @ Member_text ''name'' (ha_name a) # tail_members a"

definition same_handoff :: "stock_issue \<Rightarrow> dispatch_body \<Rightarrow> bool" where
  "same_handoff issue b \<longleftrightarrow> xi_handoffMethod issue = Some (xh_method b) \<and> xi_handoffNotes issue = xh_notes b
     \<and> map stored_members (case xi_attachments issue of None \<Rightarrow> [] | Some as \<Rightarrow> as) = map incoming_members (xh_attachments b)"

text \<open>\<open>loadSerialNumbersById\<close> at an asset: a serial that is not empty.\<close>

definition serial_number_of :: "stock_db \<Rightarrow> string \<Rightarrow> string option" where
  "serial_number_of db i =
     (case find_asset i db of None \<Rightarrow> None | Some a \<Rightarrow> if given (sa_serial a) then sa_serial a else None)"

definition dispatch_lines :: "string \<Rightarrow> issue_db \<Rightarrow> stock_issue_line \<Rightarrow> issue_line list" where
  "dispatch_lines i db l =
     (if line_group i l db = []
      then [\<lparr>sx_item = xl_item l, sx_quantity = toNumeric (xl_requested l), sx_lot = xl_lot l, sx_asset = None, sx_serial = None,
             sx_condition = Some (xl_condition l)\<rparr>]
      else map (\<lambda>a. \<lparr>sx_item = xl_item l, sx_quantity = 1, sx_lot = xl_lot l, sx_asset = Some a,
             sx_serial = serial_number_of (xd_stock db) a, sx_condition = Some (xl_condition l)\<rparr>) (line_group i l db))"

definition buildDispatchLedgerLines :: "string \<Rightarrow> issue_db \<Rightarrow> issue_line list" where
  "buildDispatchLedgerLines i db = concat (map (dispatch_lines i db) (issue_lines_of i db))"

definition dispatch_key :: "stock_issue \<Rightarrow> string" where
  "dispatch_key issue = ''stock-issue:'' @ xi_id issue"

definition dispatch_reference :: "stock_issue \<Rightarrow> string option" where
  "dispatch_reference issue =
     or_opt (xi_commercialRef issue) (or_opt (xi_originRef issue) (or_opt (xi_costCenter issue)
       (or_opt (xi_destinationRef issue) (Some (xi_id issue)))))"

definition record_dispatch ::
  "stock_env \<Rightarrow> stock_issue \<Rightarrow> dispatch_body \<Rightarrow> string \<Rightarrow> string \<Rightarrow> issue_line list \<Rightarrow> stock_db \<Rightarrow>
    (movement_result \<times> stock_db) stock_result" where
  "record_dispatch env issue b source destination ls db =
     (let notes = or_opt (xh_notes b) (Some (xh_method b)); reference = dispatch_reference issue in
      if xi_type issue = XT_SALE_DISPATCH
      then recordStockIssueSale env
        \<lparr>io_location = source, io_refId = the (or_opt (xi_commercialRef issue) (or_opt (xi_originRef issue) reference)),
         io_idempotencyKey = dispatch_key issue, io_notes = notes, io_lines = ls\<rparr> db
      else if xi_type issue = XT_INTERNAL_CONSUMPTION
      then recordStockIssueInternalConsumption (the (or_opt (xi_reason issue) (Some ''Consumo interno''))) env
        \<lparr>io_location = source, io_refId = the (or_opt (xi_costCenter issue) reference),
         io_idempotencyKey = dispatch_key issue, io_notes = notes, io_lines = ls\<rparr> db
      else recordStockIssueTransfer env
        \<lparr>it_source = source, it_destination = destination, it_idempotencyKey = dispatch_key issue, it_originRefId = reference,
         it_handoffReference = xh_method b, it_handoffNotes = xh_notes b, it_notes = None, it_lines = ls\<rparr> db)"

text \<open>The rows of an issue when it is closed: its status, and that of its serials.\<close>

definition close_issue :: "stock_issue \<Rightarrow> issue_db \<Rightarrow> issue_db" where
  "close_issue issue db = (put_issue issue db)
     \<lparr>xd_serials := map (\<lambda>s. if xs_issue s = xi_id issue then s\<lparr>xs_status := xi_status issue\<rparr> else s) (xd_serials db)\<rparr>"

definition dispatched_issue :: "stock_env \<Rightarrow> dispatch_body \<Rightarrow> string \<Rightarrow> stock_issue \<Rightarrow> stock_issue" where
  "dispatched_issue env b movement issue = issue
     \<lparr>xi_status := XS_DISPATCHED, xi_dispatchedBy := Some (se_actor env), xi_handoffMethod := Some (xh_method b),
      xi_handoffNotes := xh_notes b, xi_attachments := Some (xh_attachments b), xi_movement := Some movement,
      xi_closedAt := Some (se_now env)\<rparr>"

definition dispatched_line :: "string \<Rightarrow> issue_db \<Rightarrow> stock_issue_line \<Rightarrow> stock_issue_line" where
  "dispatched_line i db l = (if xl_issue l = i then l\<lparr>xl_dispatched := Some (toQuantity (line_quantity i db l))\<rparr> else l)"

text \<open>The quantity of a line with serials is their number.\<close>

definition group_matches :: "string \<Rightarrow> issue_db \<Rightarrow> stock_issue_line \<Rightarrow> bool" where
  "group_matches i db l \<longleftrightarrow>
     \<not> (line_group i l db \<noteq> [] \<and> toNumeric (xl_requested l) \<noteq> of_nat (length (line_group i l db)))"

text \<open>
  The lines of the handoff as \<open>save\<close> writes them: a row that is still there gets the quantity, and
  one that is gone is inserted again.
\<close>

definition save_dispatched :: "string \<Rightarrow> issue_db \<Rightarrow> stock_issue_line list \<Rightarrow> stock_issue_line list" where
  "save_dispatched i seen rows =
     map (\<lambda>r. if xl_id r \<in> set (map xl_id (issue_lines_of i seen)) then dispatched_line i seen r else r) rows
     @ map (dispatched_line i seen) (filter (\<lambda>l. xl_id l \<notin> set (map xl_id rows)) (issue_lines_of i seen))"

definition dispatchIssueFrom ::
  "issue_env \<Rightarrow> string \<Rightarrow> dispatch_body \<Rightarrow> issue_db \<Rightarrow> issue_db \<Rightarrow> (string \<times> issue_db) stock_result" where
  "dispatchIssueFrom env i b seen db =
     res_bind (guard_ok (dispatch_body_ok b) (Bad_Input Invalid_Body)) (\<lambda>_.
     (case find_issue i seen of
        None \<Rightarrow> Inl (Missing No_Issue)
      | Some issue \<Rightarrow>
          (case xi_movement issue of
             Some m \<Rightarrow> res_bind (guard_ok (same_handoff issue b) (Taken Other_Handoff)) (\<lambda>_. Inr (m, db))
           | None \<Rightarrow>
               (let ls = issue_lines_of i seen in
                res_bind (guard_ok (\<not> closed_status (xi_status issue)) (Bad_Input Issue_Closed)) (\<lambda>_.
                res_bind (guard_ok (ls \<noteq> []) (Bad_Input No_Lines)) (\<lambda>_.
                res_bind (issue_locations (xi_type issue) (xi_source issue) (xi_destination issue) (xd_stock db)) (\<lambda>(source, destination).
                res_bind (guard_ok (list_all (group_matches i seen) ls) (Bad_Input Group_Quantity)) (\<lambda>_.
                res_bind (adjustReservations (sl_id source) (map (line_adjustment (-1) i seen) ls) (xd_stock db)) (\<lambda>s1.
                res_bind (verifyReservationAvailability (sl_id source) (map (line_adjustment 1 i seen) ls) s1) (\<lambda>_.
                res_bind (record_dispatch (xe_stock env) issue b (sl_id source) (sl_id (the destination))
                   (buildDispatchLedgerLines i (seen\<lparr>xd_stock := xd_stock db\<rparr>)) s1) (\<lambda>(r, s2).
                (let db1 = close_issue (dispatched_issue (xe_stock env) b (mv_id (mr_movement r)) issue) (db\<lparr>xd_stock := s2\<rparr>)
                 in Inr (mv_id (mr_movement r), db1\<lparr>xd_lines := save_dispatched i seen (xd_lines db)\<rparr>)))))))))))))"

definition dispatchIssue :: "issue_env \<Rightarrow> string \<Rightarrow> dispatch_body \<Rightarrow> issue_db \<Rightarrow> (string \<times> issue_db) stock_result" where
  "dispatchIssue env i b db = dispatchIssueFrom env i b db db"

section \<open>Update\<close>

text \<open>The fields of the issue after an update.\<close>

definition updated_issue :: "update_issue_body \<Rightarrow> stock_issue \<Rightarrow> stock_issue" where
  "updated_issue b issue = issue
     \<lparr>xi_type := overwrite (xu_type b) (xi_type issue), xi_status := overwrite (xu_status b) (xi_status issue),
      xi_source := overwrite (xu_source b) (xi_source issue),
      xi_destination := overwrite (xu_destination b) (xi_destination issue),
      xi_destinationRef := overwrite (xu_destinationRef b) (xi_destinationRef issue),
      xi_originRef := overwrite (xu_originRef b) (xi_originRef issue),
      xi_commercialRef := overwrite (xu_commercialRef b) (xi_commercialRef issue),
      xi_reason := overwrite (xu_reason b) (xi_reason issue), xi_costCenter := overwrite (xu_costCenter b) (xi_costCenter issue)\<rparr>"

definition delete_lines :: "string \<Rightarrow> issue_db \<Rightarrow> issue_db" where
  "delete_lines i db = db
     \<lparr>xd_lines := filter (\<lambda>l. xl_issue l \<noteq> i) (xd_lines db),
      xd_serials := filter (\<lambda>s. xs_line s \<notin> set (map xl_id (issue_lines_of i db))) (xd_serials db)\<rparr>"

definition replace_lines ::
  "issue_env \<Rightarrow> string \<Rightarrow> stock_issue \<Rightarrow> issue_line_input list \<Rightarrow> issue_db \<Rightarrow> issue_db \<Rightarrow> issue_db stock_result" where
  "replace_lines env previousSource issue ls seen db =
     res_bind (assertGroupsIntegrity (map input_group_line ls) (xi_source issue) (Some (xi_id issue)) db) (\<lambda>_.
     res_bind (adjustReservations previousSource (map (line_adjustment (-1) (xi_id issue) seen) (issue_lines_of (xi_id issue) seen)) (xd_stock db)) (\<lambda>s.
       add_lines env issue ls (delete_lines (xi_id issue) (db\<lparr>xd_stock := s\<rparr>))))"

definition move_reservations :: "string \<Rightarrow> stock_issue \<Rightarrow> issue_db \<Rightarrow> issue_db \<Rightarrow> issue_db stock_result" where
  "move_reservations previousSource issue seen db =
     (let ls = issue_lines_of (xi_id issue) seen in
      res_bind (assertGroupsIntegrity
         (map (\<lambda>l. \<lparr>gl_item = xl_item l, gl_requested = toNumeric (xl_requested l), gl_assets = line_group (xi_id issue) l seen, gl_lot = None\<rparr>) ls)
         (xi_source issue) (Some (xi_id issue)) db) (\<lambda>_.
      res_bind (adjustReservations previousSource (map (line_adjustment (-1) (xi_id issue) seen) ls) (xd_stock db)) (\<lambda>s1.
      res_bind (adjustReservations (xi_source issue) (map (line_adjustment 1 (xi_id issue) seen) ls) s1) (\<lambda>s2.
        Inr (db\<lparr>xd_stock := s2\<rparr>)))))"

definition updateIssueFrom ::
  "issue_env \<Rightarrow> string \<Rightarrow> update_issue_body \<Rightarrow> issue_db \<Rightarrow> issue_db \<Rightarrow> issue_db stock_result" where
  "updateIssueFrom env i b seen db =
     res_bind (guard_ok (update_body_ok b) (Bad_Input Invalid_Body)) (\<lambda>_.
       (case find_issue i seen of
          None \<Rightarrow> Inl (Missing No_Issue)
        | Some issue \<Rightarrow>
            (let issue' = updated_issue b issue in
             res_bind (guard_ok (\<not> closed_status (xi_status issue)) (Bad_Input Issue_Closed)) (\<lambda>_.
             res_bind (assertCommercialRefs (xi_type issue') (xi_originRef issue') (xi_commercialRef issue')) (\<lambda>_.
             res_bind (assertInternalConsumption (xi_type issue') (xi_costCenter issue') (xi_reason issue')) (\<lambda>_.
             res_bind (assertDestinationCompatibility (xi_type issue') (xi_destination issue')) (\<lambda>_.
             res_bind (issue_locations (xi_type issue') (xi_source issue') (xi_destination issue') (xd_stock db)) (\<lambda>_.
             (let db1 = put_issue issue' db in
              case xu_lines b of
                Some ls \<Rightarrow> replace_lines env (xi_source issue) issue' ls seen db1
              | None \<Rightarrow>
                  if given (xu_source b) \<and> xu_source b \<noteq> Some (xi_source issue)
                  then move_reservations (xi_source issue) issue' seen db1 else Inr db1)))))))))"

definition updateIssue :: "issue_env \<Rightarrow> string \<Rightarrow> update_issue_body \<Rightarrow> issue_db \<Rightarrow> issue_db stock_result" where
  "updateIssue env i b db = updateIssueFrom env i b db db"

section \<open>Cancellation\<close>

definition cancelIssueFrom :: "issue_env \<Rightarrow> string \<Rightarrow> issue_db \<Rightarrow> issue_db \<Rightarrow> issue_db stock_result" where
  "cancelIssueFrom env i seen db =
     (case find_issue i seen of
        None \<Rightarrow> Inl (Missing No_Issue)
      | Some issue \<Rightarrow>
          res_bind (guard_ok (\<not> closed_status (xi_status issue)) (Bad_Input Issue_Closed)) (\<lambda>_.
          res_bind (adjustReservations (xi_source issue) (map (line_adjustment (-1) i seen) (issue_lines_of i seen)) (xd_stock db)) (\<lambda>s.
            Inr (close_issue (issue\<lparr>xi_status := XS_CANCELLED, xi_closedAt := Some (se_now (xe_stock env))\<rparr>) (db\<lparr>xd_stock := s\<rparr>)))))"

definition cancelIssue :: "issue_env \<Rightarrow> string \<Rightarrow> issue_db \<Rightarrow> issue_db stock_result" where
  "cancelIssue env i db = cancelIssueFrom env i db db"

section \<open>What was read is still so\<close>

text \<open>
  Nobody wrote to the issue between its reading and the writing of the operation, whatever else
  happened to the database.
\<close>

definition still_read :: "string \<Rightarrow> issue_db \<Rightarrow> issue_db \<Rightarrow> bool" where
  "still_read i seen db \<longleftrightarrow> find_issue i seen = find_issue i db \<and> issue_lines_of i seen = issue_lines_of i db
     \<and> filter (\<lambda>s. xs_issue s = i) (xd_serials seen) = filter (\<lambda>s. xs_issue s = i) (xd_serials db)"

lemma still_read_refl [simp]: "still_read i db db"
  by (simp add: still_read_def)

lemma still_read_line:
  assumes "still_read i seen db"
  shows "line_group i l seen = line_group i l db" "group_matches i seen = group_matches i db"
    "line_adjustment f i seen = line_adjustment f i db" "dispatched_line i seen = dispatched_line i db"
  using assms
  by (auto simp: still_read_def line_group_def group_matches_def line_adjustment_def line_quantity_def dispatched_line_def intro!: ext)

lemma still_read_ledger:
  assumes "still_read i seen db"
  shows "buildDispatchLedgerLines i (seen\<lparr>xd_stock := xd_stock db\<rparr>) = buildDispatchLedgerLines i db"
proof -
  have "dispatch_lines i (seen\<lparr>xd_stock := xd_stock db\<rparr>) = dispatch_lines i db"
    using assms by (intro ext) (simp add: still_read_def dispatch_lines_def line_group_def)
  then show ?thesis using assms by (simp add: still_read_def buildDispatchLedgerLines_def issue_lines_of_def)
qed

lemma save_dispatched_still:
  assumes "still_read i seen db"
  shows "save_dispatched i seen (xd_lines db) = map (dispatched_line i db) (xd_lines db)"
  using assms still_read_line(4) [OF assms]
  by (auto simp: still_read_def save_dispatched_def filter_empty_conv issue_lines_of_def dispatched_line_def)

lemma still_readD:
  assumes "still_read i seen db"
  shows "find_issue i seen = find_issue i db" "issue_lines_of i seen = issue_lines_of i db"
  using assms by (simp_all add: still_read_def)

lemma cancelIssueFrom_still:
  assumes "still_read i seen db"
  shows "cancelIssueFrom env i seen db = cancelIssue env i db"
  unfolding cancelIssueFrom_def cancelIssue_def still_read_line [OF assms] still_readD [OF assms] by (rule refl)

lemma dispatchIssueFrom_still:
  assumes "still_read i seen db"
  shows "dispatchIssueFrom env i b seen db = dispatchIssue env i b db"
proof -
  have same: "db\<lparr>xd_stock := xd_stock db\<rparr> = db" by simp
  show ?thesis
    unfolding dispatchIssueFrom_def dispatchIssue_def still_read_line [OF assms] still_readD [OF assms] still_read_ledger [OF assms]
      save_dispatched_still [OF assms] save_dispatched_still [OF still_read_refl] same by (rule refl)
qed

lemma replace_lines_still:
  assumes "still_read (xi_id issue) seen db"
  shows "replace_lines env p issue ls seen = replace_lines env p issue ls db"
    and "move_reservations p issue seen = move_reservations p issue db"
  using assms still_read_line [OF assms] by (auto simp: still_read_def replace_lines_def move_reservations_def intro!: ext)

lemma updateIssueFrom_still:
  assumes "still_read i seen db"
  shows "updateIssueFrom env i b seen db = updateIssue env i b db"
proof (cases "find_issue i db")
  case None
  with assms show ?thesis by (simp add: updateIssueFrom_def updateIssue_def still_readD)
next
  case (Some issue)
  then have "xi_id (updated_issue b issue) = i" by (auto simp: find_issue_def find_Some_iff updated_issue_def)
  with assms have "still_read (xi_id (updated_issue b issue)) seen db" by simp
  note still = replace_lines_still [OF this]
  have found: "find_issue i seen = Some issue" using Some still_readD(1) [OF assms] by simp
  show ?thesis
    unfolding updateIssueFrom_def updateIssue_def Some found option.case Let_def still by (rule refl)
qed

end
