(* ===== verification/StockReservations.thy ===== *)
theory StockReservations
  imports StockIssues StockFacts
begin

text \<open>
  What an adjustment of reservations does: the grouped deltas add up to the single ones, an
  adjustment changes the reserved stock by their sum and nothing else, and a release of no more
  than is reserved always goes through.
\<close>

section \<open>Grouping\<close>

definition adjustment_key :: "string \<Rightarrow> reservation_adjustment \<Rightarrow> string \<times> string \<times> string option \<times> StockBalanceCondition" where
  "adjustment_key loc a = (rj_item a, loc, rj_lot a, rj_condition a)"

text \<open>The hundredths that adjustments ask for on the tuples that satisfy \<open>P\<close>.\<close>

definition asked :: "(string \<times> string \<times> string option \<times> StockBalanceCondition \<Rightarrow> bool) \<Rightarrow> string \<Rightarrow> reservation_adjustment list \<Rightarrow> int" where
  "asked P loc as = sum_list (map (\<lambda>a. if P (adjustment_key loc a) then cents_step (rj_delta a) else 0) as)"

lemma asked_simps [simp]: "asked P loc [] = 0" "asked P loc (as @ bs) = asked P loc as + asked P loc bs"
    "asked P loc (a # as) = (if P (adjustment_key loc a) then cents_step (rj_delta a) else 0) + asked P loc as"
  by (simp_all add: asked_def)

definition exact_deltas :: "reservation_adjustment list \<Rightarrow> bool" where
  "exact_deltas as \<longleftrightarrow> list_all (\<lambda>a. two_decimals (rj_delta a)) as"

lemma exact_deltas_simps [simp]: "exact_deltas []" "exact_deltas (as @ bs) \<longleftrightarrow> exact_deltas as \<and> exact_deltas bs"
    "exact_deltas (a # as) \<longleftrightarrow> two_decimals (rj_delta a) \<and> exact_deltas as"
  by (auto simp: exact_deltas_def)

lemma same_key_iff: "same_key a b \<longleftrightarrow> adjustment_key loc a = adjustment_key loc b"
  by (auto simp: same_key_def adjustment_key_def)

lemma adjustment_key_delta [simp]: "adjustment_key loc (a\<lparr>rj_delta := d\<rparr>) = adjustment_key loc a"
  by (simp add: adjustment_key_def)

lemma cents_step_add: "two_decimals x \<Longrightarrow> two_decimals y \<Longrightarrow> cents_step (x + y) = cents_step x + cents_step y"
  by (simp add: cents_step_two_decimals two_decimals_add toQuantity_add)

definition merge_into :: "reservation_adjustment \<Rightarrow> reservation_adjustment \<Rightarrow> reservation_adjustment" where
  "merge_into a b = (if same_key a b then b\<lparr>rj_delta := rj_delta b + rj_delta a\<rparr> else b)"

lemma key_merge_into [simp]: "adjustment_key loc (merge_into a b) = adjustment_key loc b"
  by (simp add: merge_into_def)

lemma asked_merge:
  assumes "distinct (map (adjustment_key loc) as)" "exact_deltas as" "two_decimals (rj_delta a)"
  shows "asked P loc (map (merge_into a) as)
    = asked P loc as + (if list_ex (same_key a) as then asked P loc [a] else 0)"
  using assms(1,2)
proof (induction as)
  case (Cons b bs)
  show ?case
  proof (cases "same_key a b")
    case True
    then have k: "adjustment_key loc a = adjustment_key loc b" by (simp add: same_key_iff [of a b loc])
    then have "\<not> list_ex (same_key a) bs" using Cons.prems(1) by (auto simp: list_ex_iff same_key_iff [of _ _ loc])
    with Cons True k assms(3) show ?thesis by (simp add: merge_into_def cents_step_add)
  next
    case False
    with Cons show ?thesis by (simp add: merge_into_def)
  qed
qed simp

lemma add_adjustment_merge: "add_adjustment as a = (if list_ex (same_key a) as then map (merge_into a) as else as @ [a])"
  by (simp add: add_adjustment_def merge_into_def [abs_def])

lemma add_adjustment_ok:
  assumes "distinct (map (adjustment_key loc) as)" "exact_deltas as" "two_decimals (rj_delta a)"
  shows "distinct (map (adjustment_key loc) (add_adjustment as a))" "exact_deltas (add_adjustment as a)"
    "asked P loc (add_adjustment as a) = asked P loc as + asked P loc [a]"
proof -
  have "distinct (map (adjustment_key loc) as) \<Longrightarrow> \<not> list_ex (same_key a) as \<Longrightarrow> adjustment_key loc a \<notin> adjustment_key loc ` set as"
    by (auto simp: list_ex_iff same_key_iff [of _ _ loc])
  with assms(1) show "distinct (map (adjustment_key loc) (add_adjustment as a))" by (simp add: add_adjustment_merge comp_def)
  show "exact_deltas (add_adjustment as a)"
    using assms(2,3) by (auto simp: add_adjustment_merge exact_deltas_def list_all_iff merge_into_def two_decimals_add)
  show "asked P loc (add_adjustment as a) = asked P loc as + asked P loc [a]"
    using asked_merge [OF assms, of P] by (simp add: add_adjustment_merge)
qed

lemma fold_adjustments_ok:
  assumes "distinct (map (adjustment_key loc) as)" "exact_deltas as" "exact_deltas bs"
  shows "distinct (map (adjustment_key loc) (foldl add_adjustment as bs)) \<and> exact_deltas (foldl add_adjustment as bs)
    \<and> asked P loc (foldl add_adjustment as bs) = asked P loc as + asked P loc bs"
  using assms
proof (induction bs arbitrary: as)
  case (Cons b bs)
  then show ?case using add_adjustment_ok [OF Cons.prems(1,2), of b] by (simp add: add.assoc)
qed simp

lemma aggregated_ok:
  assumes "exact_deltas as"
  shows "distinct (map (adjustment_key loc) (aggregated as))" "exact_deltas (aggregated as)"
    "asked P loc (aggregated as) = asked P loc as" "list_all (\<lambda>a. rj_delta a \<noteq> 0) (aggregated as)"
proof -
  note f = fold_adjustments_ok [of loc "[]" as P, simplified, OF assms]
  have z: "asked P loc (filter (\<lambda>a. rj_delta a \<noteq> 0) bs) = asked P loc bs" for bs by (induction bs) simp_all
  show "distinct (map (adjustment_key loc) (aggregated as))" using f by (simp add: aggregated_def distinct_map_filter)
  show "exact_deltas (aggregated as)" using f by (auto simp: aggregated_def exact_deltas_def list_all_iff)
  show "asked P loc (aggregated as) = asked P loc as" using f by (simp add: aggregated_def z)
  show "list_all (\<lambda>a. rj_delta a \<noteq> 0) (aggregated as)" by (simp add: aggregated_def list_all_iff)
qed

section \<open>Effect\<close>

lemma reserve_fold_effect:
  assumes "res_fold (reserve_one loc) as db = Inr db'" "balances_ok (sd_balances db)"
  shows "effects ok restoring db db' \<and> (\<exists>bs. db' = db\<lparr>sd_balances := bs\<rparr>) \<and> balances_ok (sd_balances db')
    \<and> held P (sd_balances db') = held P (sd_balances db)
    \<and> committed P (sd_balances db') = committed P (sd_balances db) + asked P loc as"
  using assms
proof (induction as arbitrary: db)
  case (Cons a as)
  from Cons.prems(1) obtain db1 where st: "reserve_one loc a db = Inr db1" "res_fold (reserve_one loc) as db1 = Inr db'"
    by (auto simp: res_simps)
  note ap = st(1) [unfolded reserve_one_def]
  have b1: "balances_ok (sd_balances db1)" by (rule applyDelta_ok [OF ap Cons.prems(2)])
  have d: "distinct (map balance_key (sd_balances db))" using Cons.prems(2) by (simp add: balances_ok_def)
  obtain bs where bs: "db1 = db\<lparr>sd_balances := bs\<rparr>" by (rule applyDelta_frame [OF ap])
  have "effects ok restoring db db1" by (rule r_into_rtranclp) (rule stock_effect.reservation [OF ap])
  with Cons.IH [OF st(2) b1] applyDelta_held [OF ap d, of P] bs show ?case
    by (auto simp: adjustment_key_def intro: rtranclp_trans)
qed (auto intro: exI [of _ "sd_balances db'"])

lemma adjustReservations_effect:
  assumes "adjustReservations loc as db = Inr db'" "balances_ok (sd_balances db)" "exact_deltas as"
  shows "effects ok restoring db db'" "\<exists>bs. db' = db\<lparr>sd_balances := bs\<rparr>" "balances_ok (sd_balances db')"
    "held P (sd_balances db') = held P (sd_balances db)"
    "committed P (sd_balances db') = committed P (sd_balances db) + asked P loc as"
proof -
  from assms(1) have "res_fold (reserve_one loc) (aggregated as) db = Inr db'"
    by (simp add: adjustReservations_def res_simps)
  note e = reserve_fold_effect [OF this assms(2), of ok restoring P]
  from e aggregated_ok(3) [OF assms(3), of P loc] show "effects ok restoring db db'" "\<exists>bs. db' = db\<lparr>sd_balances := bs\<rparr>"
    "balances_ok (sd_balances db')" "held P (sd_balances db') = held P (sd_balances db)"
    "committed P (sd_balances db') = committed P (sd_balances db) + asked P loc as"
    by simp_all
qed

section \<open>Releases\<close>

lemma committed_tuple:
  "distinct (map balance_key bs) \<Longrightarrow>
    committed (\<lambda>k. k = (item, loc, lot, cond)) bs = (case find (same_tuple item loc lot cond) bs of None \<Rightarrow> 0 | Some b \<Rightarrow> sb_reserved b)"
proof (induction bs)
  case (Cons b bs)
  show ?case
  proof (cases "balance_key b = (item, loc, lot, cond)")
    case True
    have "committed (\<lambda>k. k = (item, loc, lot, cond)) cs = 0" if "(item, loc, lot, cond) \<notin> balance_key ` set cs" for cs
      using that by (induction cs) auto
    with Cons.prems True show ?thesis by (simp add: same_tuple_iff)
  next
    case False
    with Cons show ?thesis by (simp add: same_tuple_iff)
  qed
qed simp

lemma release_fold:
  assumes "balances_ok (sd_balances db)" "distinct (map (adjustment_key loc) as)"
    and "\<And>a. a \<in> set as \<Longrightarrow> cents_step (rj_delta a) < 0
      \<and> 0 \<le> committed (\<lambda>k. k = adjustment_key loc a) (sd_balances db) + cents_step (rj_delta a)"
  shows "\<exists>db'. res_fold (reserve_one loc) as db = Inr db'"
  using assms
proof (induction as arbitrary: db)
  case (Cons a as)
  have a: "cents_step (rj_delta a) < 0" "0 \<le> committed (\<lambda>k. k = adjustment_key loc a) (sd_balances db) + cents_step (rj_delta a)"
    using Cons.prems(3) [of a] by simp_all
  have d: "distinct (map balance_key (sd_balances db))" using Cons.prems(1) by (simp add: balances_ok_def)
  from a obtain b where b: "find (same_tuple (rj_item a) loc (rj_lot a) (rj_condition a)) (sd_balances db) = Some b"
      "0 \<le> sb_reserved b + cents_step (rj_delta a)"
    unfolding adjustment_key_def committed_tuple [OF d] by (auto split: option.splits)
  have b3: "0 \<le> sb_reserved b" "sb_reserved b \<le> sb_onHand b" "sb_onHand b < 10 ^ 12"
    using balances_ok_find [OF Cons.prems(1) b(1)] by simp_all
  have "applyDelta (rj_item a) loc (rj_lot a) (rj_condition a) 0 (rj_delta a) db = Inr (set_balance (rj_item a) loc (rj_lot a) (rj_condition a)
      (sb_onHand b + cents_step 0) (sb_reserved b + cents_step (rj_delta a)) db)" (is "_ = Inr ?db1")
    by (rule applyDelta_succeeds [OF b(1)]) (use b(2) b3 a(1) in \<open>simp_all add: fits_numeric_def\<close>)
  then have ap: "applyDelta (rj_item a) loc (rj_lot a) (rj_condition a) 0 (rj_delta a) db = Inr ?db1" .
  have "\<exists>db'. res_fold (reserve_one loc) as ?db1 = Inr db'"
  proof (rule Cons.IH)
    show "balances_ok (sd_balances ?db1)" by (rule applyDelta_ok [OF ap Cons.prems(1)])
    show "distinct (map (adjustment_key loc) as)" using Cons.prems(2) by simp
    show "cents_step (rj_delta c) < 0 \<and> 0 \<le> committed (\<lambda>k. k = adjustment_key loc c) (sd_balances ?db1) + cents_step (rj_delta c)"
      if "c \<in> set as" for c
    proof -
      have "adjustment_key loc a \<noteq> adjustment_key loc c" using Cons.prems(2) that by (auto simp: image_iff)
      then have "committed (\<lambda>k. k = adjustment_key loc c) (sd_balances ?db1) = committed (\<lambda>k. k = adjustment_key loc c) (sd_balances db)"
        using applyDelta_held(2) [OF ap d, of "\<lambda>k. k = adjustment_key loc c"] by (auto simp: adjustment_key_def)
      with Cons.prems(3) [of c] that show ?thesis by simp
    qed
  qed
  moreover have "reserve_one loc a db = Inr ?db1" unfolding reserve_one_def by (rule ap)
  ultimately show ?case by simp
qed simp

lemma sum_list_member_le: "(\<And>x. x \<in> set xs \<Longrightarrow> f x \<le> (0::int)) \<Longrightarrow> x \<in> set xs \<Longrightarrow> sum_list (map f xs) \<le> f x"
proof (induction xs)
  case (Cons y ys)
  have s: "sum_list (map f ys) \<le> 0" using Cons.prems(1) by (intro sum_list_nonpos) auto
  show ?case
  proof (cases "x = y")
    case True
    with s show ?thesis by simp
  next
    case False
    with Cons have "sum_list (map f ys) \<le> f x" by simp
    with Cons.prems(1) [of y] show ?thesis by simp
  qed
qed simp

text \<open>A release of deltas that are reserved, tuple by tuple, is carried out.\<close>

lemma release_succeeds:
  assumes "balances_ok (sd_balances db)" "exact_deltas as" "list_all (\<lambda>a. rj_delta a \<le> 0) as"
    and "\<And>P. 0 \<le> committed P (sd_balances db) + asked P loc as"
  shows "\<exists>db'. adjustReservations loc as db = Inr db'"
proof -
  note g = aggregated_ok [OF assms(2)]
  have neg: "rj_delta a < 0" if "a \<in> set (aggregated as)" for a
  proof -
    have "list_all (\<lambda>a. rj_delta a \<le> 0) (foldl add_adjustment bs as)" if "list_all (\<lambda>a. rj_delta a \<le> 0) bs" for bs
      using that assms(3)
    proof (induction as arbitrary: bs)
      case (Cons c cs)
      have "list_all (\<lambda>a. rj_delta a \<le> 0) (add_adjustment bs c)"
        using Cons.prems by (auto simp: add_adjustment_def list_all_iff)
      with Cons show ?case by simp
    qed simp
    from this [of "[]"] that show ?thesis by (force simp: aggregated_def list_all_iff)
  qed
  have cents: "cents_step (rj_delta a) < 0" if "a \<in> set (aggregated as)" for a
  proof -
    have "two_decimals (rj_delta a)" using g(2) that by (simp add: exact_deltas_def list_all_iff)
    then have "toNumeric (cents_step (rj_delta a)) = rj_delta a"
      by (simp add: cents_step_two_decimals two_decimals_toQuantity)
    with neg [OF that] show ?thesis by (metis toNumeric_sign(1))
  qed
  have "\<exists>db'. res_fold (reserve_one loc) (aggregated as) db = Inr db'"
  proof (rule release_fold [OF assms(1) g(1)])
    fix a assume a: "a \<in> set (aggregated as)"
    let ?f = "\<lambda>b. if adjustment_key loc b = adjustment_key loc a then cents_step (rj_delta b) else 0"
    have "sum_list (map ?f (aggregated as)) \<le> ?f a"
      by (rule sum_list_member_le [OF _ a]) (use cents in force)
    then have "asked (\<lambda>k. k = adjustment_key loc a) loc (aggregated as) \<le> cents_step (rj_delta a)" by (simp add: asked_def)
    then have "asked (\<lambda>k. k = adjustment_key loc a) loc as \<le> cents_step (rj_delta a)" by (simp only: g(3))
    with assms(4) [of "\<lambda>k. k = adjustment_key loc a"] cents [OF a]
    show "cents_step (rj_delta a) < 0 \<and> 0 \<le> committed (\<lambda>k. k = adjustment_key loc a) (sd_balances db) + cents_step (rj_delta a)"
      by simp
  qed
  moreover have "list_all (may_reserve loc db) (aggregated as)"
    using neg by (force simp: list_all_iff may_reserve_def)
  ultimately show ?thesis by (simp add: adjustReservations_def)
qed

end
