(* ===== verification/StockIssueMachine.thy ===== *)
theory StockIssueMachine
  imports StockReservations
begin

text \<open>
  Stock and issues together as one machine, and its invariant: what is reserved on a tuple is
  what the lines of the open issues ask for on it.
\<close>

section \<open>What an issue asks for\<close>

text \<open>The lines and serials of an issue, without what dispatch and the mirror of the status write.\<close>

definition own_lines :: "string \<Rightarrow> issue_db \<Rightarrow> stock_issue_line list" where
  "own_lines i db = map (\<lambda>l. l\<lparr>xl_dispatched := None\<rparr>) (issue_lines_of i db)"

definition own_serials :: "string \<Rightarrow> issue_db \<Rightarrow> (string \<times> string) list" where
  "own_serials i db = map (\<lambda>s. (xs_line s, xs_asset s)) (filter (\<lambda>s. xs_issue s = i) (xd_serials db))"

text \<open>The hundredths of a line: one unit for each serial, or the quantity asked for.\<close>

definition line_cents :: "string \<Rightarrow> issue_db \<Rightarrow> stock_issue_line \<Rightarrow> int" where
  "line_cents i db l = (if line_group i l db = [] then xl_requested l else 100 * int (length (line_group i l db)))"

text \<open>What the lines of an issue ask for at a location, on the tuples that satisfy \<open>P\<close>.\<close>

definition needs ::
  "(string \<times> string \<times> string option \<times> StockBalanceCondition \<Rightarrow> bool) \<Rightarrow> string \<Rightarrow> string \<Rightarrow> issue_db \<Rightarrow> int" where
  "needs P loc i db = sum_list (map (\<lambda>l. if P (xl_item l, loc, xl_lot l, xl_condition l) then line_cents i db l else 0) (issue_lines_of i db))"

definition promise ::
  "(string \<times> string \<times> string option \<times> StockBalanceCondition \<Rightarrow> bool) \<Rightarrow> issue_db \<Rightarrow> stock_issue \<Rightarrow> int" where
  "promise P db issue = (if closed_status (xi_status issue) then 0 else needs P (xi_source issue) (xi_id issue) db)"

definition promised ::
  "(string \<times> string \<times> string option \<times> StockBalanceCondition \<Rightarrow> bool) \<Rightarrow> issue_db \<Rightarrow> int" where
  "promised P db = sum_list (map (promise P db) (xd_issues db))"

lemma line_group_own: "line_group i l db = map snd (filter (\<lambda>p. fst p = xl_id l) (own_serials i db))"
  by (simp add: line_group_def own_serials_def filter_map comp_def)

lemma line_group_dispatched [simp]: "line_group i (l\<lparr>xl_dispatched := d\<rparr>) db = line_group i l db"
  by (simp add: line_group_def)

lemma line_cents_dispatched [simp]: "line_cents i db (l\<lparr>xl_dispatched := d\<rparr>) = line_cents i db l"
  by (simp add: line_cents_def)

lemma line_cents_cong: "own_serials i db' = own_serials i db \<Longrightarrow> line_cents i db' = line_cents i db"
  by (rule ext) (simp add: line_cents_def line_group_own)

lemma needs_own:
  "needs P loc i db = sum_list (map (\<lambda>l. if P (xl_item l, loc, xl_lot l, xl_condition l) then line_cents i db l else 0) (own_lines i db))"
  by (simp add: needs_def own_lines_def comp_def cong: if_cong)

lemma needs_cong: "own_lines i db' = own_lines i db \<Longrightarrow> own_serials i db' = own_serials i db \<Longrightarrow> needs P loc i db' = needs P loc i db"
  using line_cents_cong [of i db' db] by (simp add: needs_own cong: if_cong)

lemma promise_cong:
  "own_lines (xi_id j) db' = own_lines (xi_id j) db \<Longrightarrow> own_serials (xi_id j) db' = own_serials (xi_id j) db \<Longrightarrow>
    promise P db' j = promise P db j"
  unfolding promise_def by (subst needs_cong) simp_all

lemma promised_replace:
  assumes "distinct (map xi_id (xd_issues db))" "issue \<in> set (xd_issues db)" "xi_id issue' = xi_id issue"
    and "xd_issues db' = map (\<lambda>x. if xi_id x = xi_id issue' then issue' else x) (xd_issues db)"
    and "\<And>j. j \<in> set (xd_issues db) \<Longrightarrow> xi_id j \<noteq> xi_id issue \<Longrightarrow> promise P db' j = promise P db j"
  shows "promised P db' = promised P db - promise P db issue + promise P db' issue'"
proof -
  have same: "sum_list (map (promise P db') (map (\<lambda>x. if xi_id x = xi_id issue' then issue' else x) xs)) = sum_list (map (promise P db) xs)"
    if "xi_id issue \<notin> xi_id ` set xs" "set xs \<subseteq> set (xd_issues db)" for xs
    using that by (induction xs) (auto simp: assms(3,5))
  have "sum_list (map (promise P db') (map (\<lambda>x. if xi_id x = xi_id issue' then issue' else x) xs))
      = sum_list (map (promise P db) xs) - promise P db issue + promise P db' issue'"
    if "distinct (map xi_id xs)" "issue \<in> set xs" "set xs \<subseteq> set (xd_issues db)" for xs
    using that
  proof (induction xs)
    case (Cons x xs)
    show ?case
    proof (cases "x = issue")
      case True
      with Cons.prems same [of xs] show ?thesis by (simp add: assms(3))
    next
      case False
      with Cons.prems have "xi_id x \<noteq> xi_id issue" by (auto simp: image_iff)
      with Cons False assms(5) [of x] show ?thesis by (simp add: assms(3))
    qed
  qed simp
  from this [OF assms(1,2) subset_refl] show ?thesis by (simp add: promised_def assms(4))
qed

section \<open>The invariant\<close>

definition issues_ok :: "issue_db \<Rightarrow> bool" where
  "issues_ok db \<longleftrightarrow> distinct (map xi_id (xd_issues db)) \<and> distinct (map xl_id (xd_lines db))
     \<and> list_all (\<lambda>l. xl_issue l \<in> xi_id ` set (xd_issues db) \<and> 0 \<le> xl_requested l) (xd_lines db)
     \<and> list_all (\<lambda>s. list_ex (\<lambda>l. xl_id l = xs_line s \<and> xl_issue l = xs_issue s) (xd_lines db)) (xd_serials db)"

definition issue_inv :: "issue_db \<Rightarrow> bool" where
  "issue_inv db \<longleftrightarrow> stock_inv (xd_stock db) \<and> issues_ok db
     \<and> (\<forall>P. committed P (sd_balances (xd_stock db)) = promised P db)"

lemma issue_invD:
  assumes "issue_inv db"
  shows "stock_inv (xd_stock db)" "issues_ok db" "committed P (sd_balances (xd_stock db)) = promised P db"
    "balances_ok (sd_balances (xd_stock db))" "distinct (map xi_id (xd_issues db))" "distinct (map xl_id (xd_lines db))"
  using assms by (simp_all add: issue_inv_def stock_inv_def issues_ok_def)

lemma find_issueD: "find_issue i db = Some issue \<Longrightarrow> issue \<in> set (xd_issues db) \<and> xi_id issue = i"
  by (auto simp: find_issue_def dest: find_Some_iff_hd)

lemma line_cents_nonneg: "issues_ok db \<Longrightarrow> l \<in> set (xd_lines db) \<Longrightarrow> 0 \<le> line_cents i db l"
  by (auto simp: issues_ok_def line_cents_def list_all_iff)

lemma needs_nonneg: "issues_ok db \<Longrightarrow> 0 \<le> needs P loc i db"
  unfolding needs_def by (rule sum_list_nonneg) (auto simp: issue_lines_of_def line_cents_nonneg)

lemma promise_nonneg: "issues_ok db \<Longrightarrow> 0 \<le> promise P db issue"
  by (simp add: promise_def needs_nonneg)

lemma promise_le_promised: "issues_ok db \<Longrightarrow> issue \<in> set (xd_issues db) \<Longrightarrow> promise P db issue \<le> promised P db"
  unfolding promised_def by (rule member_le_sum_list) (auto simp: promise_nonneg)

section \<open>The adjustments of an issue\<close>

lemma cents_line_quantity: "cents_step (line_quantity i db l) = line_cents i db l"
proof -
  have "cents_step (of_nat n) = 100 * int n" for n
    using cents_step_toNumeric [of "100 * int n"] by (simp add: toNumeric_def)
  then show ?thesis by (simp add: line_quantity_def resolveLineQuantity_def line_cents_def)
qed

lemma two_decimals_of_nat [simp]: "two_decimals (of_nat n)"
  using two_decimals_of_int [of "int n"] by simp

lemma two_decimals_line [simp]: "two_decimals (line_quantity i db l)"
  by (simp add: line_quantity_def resolveLineQuantity_def)

lemma exact_adjustments [simp]:
  "exact_deltas (map (line_adjustment 1 i db) ls)" "exact_deltas (map (line_adjustment (-1) i db) ls)"
  by (simp_all add: exact_deltas_def list_all_iff line_adjustment_def)

lemma asked_lines:
  "asked P loc (map (line_adjustment 1 i db) (issue_lines_of i db)) = needs P loc i db"
  "asked P loc (map (line_adjustment (-1) i db) (issue_lines_of i db)) = - needs P loc i db"
proof -
  have c: "cents_step (- line_quantity i db l) = - line_cents i db l" for l
    using cents_line_quantity [of i db l] by (simp add: cents_step_two_decimals toQuantity_minus)
  have "asked P loc (map (line_adjustment 1 i db) ls)
      = sum_list (map (\<lambda>l. if P (xl_item l, loc, xl_lot l, xl_condition l) then line_cents i db l else 0) ls)" for ls
    by (induction ls) (simp_all add: adjustment_key_def line_adjustment_def cents_line_quantity)
  then show "asked P loc (map (line_adjustment 1 i db) (issue_lines_of i db)) = needs P loc i db"
    by (simp add: needs_def)
  have "asked P loc (map (line_adjustment (-1) i db) ls)
      = - sum_list (map (\<lambda>l. if P (xl_item l, loc, xl_lot l, xl_condition l) then line_cents i db l else 0) ls)" for ls
    by (induction ls) (simp_all add: adjustment_key_def line_adjustment_def c)
  then show "asked P loc (map (line_adjustment (-1) i db) (issue_lines_of i db)) = - needs P loc i db"
    by (simp add: needs_def)
qed

section \<open>New lines\<close>

lemma group_of_rows:
  assumes "length rows = length ls" "distinct (map xl_id rows)" "k < length ls"
  shows "map xs_asset (filter (\<lambda>s. xs_line s = xl_id (rows ! k)) (concat (map (serial_rows i st) (zip rows ls)))) = group_of (ls ! k)"
  using assms
proof (induction rows ls arbitrary: k rule: list_induct2)
  case (Cons r rows l ls)
  have hit: "filter (\<lambda>s. xs_line s = x) (serial_rows i st (r, l)) = (if x = xl_id r then serial_rows i st (r, l) else [])" for x
    by (auto simp: serial_rows_def filter_empty_conv filter_id_conv)
  have miss: "filter (\<lambda>s. xs_line s = xl_id r) (concat (map (serial_rows i st) (zip rows ls))) = []"
  proof -
    have "xs_line s \<noteq> xl_id r" if "s \<in> set (concat (map (serial_rows i st) (zip rows ls)))" for s
    proof -
      from that obtain r' l' where "(r', l') \<in> set (zip rows ls)" "xs_line s = xl_id r'" by (auto simp: serial_rows_def)
      then have "xs_line s \<in> xl_id ` set rows" by (metis set_zip_leftD image_eqI)
      with Cons.prems(1) show ?thesis by auto
    qed
    then show ?thesis by (simp add: filter_empty_conv)
  qed
  show ?case
  proof (cases k)
    case 0
    have "map xs_asset (serial_rows i st (r, l)) = group_of l" by (simp add: serial_rows_def comp_def)
    with 0 hit [of "xl_id r"] miss show ?thesis by simp
  next
    case (Suc j)
    with Cons.prems have "xl_id (rows ! j) \<noteq> xl_id r" by (metis distinct.simps(2) length_Cons list.simps(9) Suc_less_eq Cons.hyps nth_mem image_eqI set_map)
    with Suc Cons.IH [of j] Cons.prems hit show ?thesis by simp
  qed
qed simp

definition exact_inputs :: "issue_line_input list \<Rightarrow> bool" where
  "exact_inputs ls \<longleftrightarrow> list_all (\<lambda>l. two_decimals (xn_requested l)) ls"

lemma insert_issue_lines_Inr:
  "insert_issue_lines env i ls db = Inr (rows, db1) \<Longrightarrow>
    rows = map (issue_line_row env i) (enumerate 0 ls) \<and> distinct (map xl_id (xd_lines db @ rows)) \<and> db1 = db\<lparr>xd_lines := xd_lines db @ rows\<rparr>"
  unfolding insert_issue_lines_def Let_def res_bind_eq_Inr guard_ok_eq_Inr by (auto simp del: map_append)

lemma insertIssueLineSerials_Inr: "insertIssueLineSerials new db = Inr db' \<Longrightarrow> db' = db\<lparr>xd_serials := xd_serials db @ new\<rparr>"
  by (simp add: insertIssueLineSerials_def res_simps del: map_append filter_append)

lemma add_lines_Inr:
  assumes "add_lines env issue ls db = Inr db'" "exact_inputs ls" "balances_ok (sd_balances (xd_stock db))"
    and "issue_lines_of (xi_id issue) db = []" "own_serials (xi_id issue) db = []"
  obtains rows new s where "db' = db\<lparr>xd_stock := s, xd_lines := xd_lines db @ rows, xd_serials := xd_serials db @ new\<rparr>"
    and "effects ok restoring (xd_stock db) s"
    and "\<And>P. committed P (sd_balances s) = committed P (sd_balances (xd_stock db)) + needs P (xi_source issue) (xi_id issue) db'"
    and "distinct (map xl_id (xd_lines db @ rows))" "list_all (\<lambda>l. xl_issue l = xi_id issue) rows"
    and "map xl_requested rows = map (\<lambda>l. toQuantity (xn_requested l)) ls"
    and "list_all (\<lambda>s. xs_issue s = xi_id issue \<and> list_ex (\<lambda>l. xl_id l = xs_line s) rows) new"
proof -
  let ?i = "xi_id issue"
  define rows where "rows = map (issue_line_row env ?i) (enumerate 0 ls)"
  define new where "new = concat (map (serial_rows ?i (xi_status issue)) (zip rows ls))"
  from assms(1) obtain s where st: "distinct (map xl_id (xd_lines db @ rows))"
      "adjustReservations (xi_source issue) (map input_adjustment ls) (xd_stock db) = Inr s"
      "db' = db\<lparr>xd_stock := s, xd_lines := xd_lines db @ rows, xd_serials := xd_serials db @ new\<rparr>"
    by (auto simp: add_lines_def res_bind_eq_Inr rows_def new_def simp del: res_bind_Inr dest!: insert_issue_lines_Inr insertIssueLineSerials_Inr)
  have len: "length rows = length ls" by (simp add: rows_def)
  have own: "own_lines ?i db' = rows"
  proof -
    have "filter (\<lambda>l. xl_issue l = ?i) rows = rows" "map (\<lambda>l. l\<lparr>xl_dispatched := None\<rparr>) rows = rows"
      by (auto simp: rows_def issue_line_row_def filter_id_conv)
    with assms(4) show ?thesis by (simp add: st(3) own_lines_def issue_lines_of_def)
  qed
  have nserials: "\<forall>s \<in> set new. xs_issue s = ?i \<and> (\<exists>l \<in> set rows. xl_id l = xs_line s)"
    by (force simp: new_def serial_rows_def dest: set_zip_leftD)
  have "own_serials ?i db' = map (\<lambda>s. (xs_line s, xs_asset s)) new"
    using assms(5) nserials by (simp add: st(3) own_serials_def filter_id_conv)
  then have group: "line_group ?i (rows ! k) db' = group_of (ls ! k)" if "k < length ls" for k
    using group_of_rows [OF len _ that, of ?i "xi_status issue"] st(1)
    by (simp add: line_group_own filter_map comp_def new_def)
  have td: "two_decimals (xn_requested (ls ! k))" if "k < length ls" for k
    using assms(2) that by (simp add: exact_inputs_def list_all_length)
  have row: "rows ! k = issue_line_row env ?i (k, ls ! k)" if "k < length ls" for k
    using that by (simp add: rows_def nth_enumerate_eq)
  have cents: "cents_step (of_nat n) = 100 * int n" for n
    using cents_step_toNumeric [of "100 * int n"] by (simp add: toNumeric_def)
  have line: "line_cents ?i db' (rows ! k) = cents_step (rj_delta (input_adjustment (ls ! k)))" if "k < length ls" for k
    by (simp add: line_cents_def group [OF that] input_adjustment_def resolveLineQuantity_def cents)
      (simp add: row [OF that] issue_line_row_def cents_step_two_decimals [OF td [OF that]])
  have asked: "asked P (xi_source issue) (map input_adjustment ls) = needs P (xi_source issue) ?i db'" for P
  proof -
    have "map (\<lambda>l. if P (xl_item l, xi_source issue, xl_lot l, xl_condition l) then line_cents ?i db' l else 0) rows
        = map (\<lambda>a. if P (adjustment_key (xi_source issue) a) then cents_step (rj_delta a) else 0) (map input_adjustment ls)"
      by (rule nth_equalityI) (simp_all add: len line adjustment_key_def, simp add: row issue_line_row_def input_adjustment_def)
    then show ?thesis by (simp add: asked_def needs_own own)
  qed
  have exact: "exact_deltas (map input_adjustment ls)"
    using assms(2) by (auto simp: exact_deltas_def exact_inputs_def list_all_iff input_adjustment_def resolveLineQuantity_def)
  note adj = adjustReservations_effect [OF st(2) assms(3) exact]
  show ?thesis
  proof (rule that [OF st(3) adj(1) _ st(1)])
    show "committed P (sd_balances s) = committed P (sd_balances (xd_stock db)) + needs P (xi_source issue) ?i db'" for P
      using adj(5) [of P] asked by simp
    show "list_all (\<lambda>l. xl_issue l = ?i) rows" by (simp add: rows_def list_all_iff issue_line_row_def)
    show "map xl_requested rows = map (\<lambda>l. toQuantity (xn_requested l)) ls"
      by (rule nth_equalityI) (simp_all add: len row issue_line_row_def)
    show "list_all (\<lambda>s. xs_issue s = ?i \<and> list_ex (\<lambda>l. xl_id l = xs_line s) rows) new"
      using nserials by (auto simp: list_all_iff list_ex_iff)
  qed
qed

end
