(* ===== verification/StockIssueFacts.thy ===== *)
theory StockIssueFacts
  imports StockIssueMachine
begin

text \<open>
  The machine of stock and issues: its steps, its invariant, and what dispatch and cancellation
  do in every reachable state.
\<close>

section \<open>Steps\<close>

text \<open>
  A change, a dispatch and a cancellation take any time between reading the issue and writing,
  and other steps come in between, as long as none of them writes to that issue.
\<close>

inductive issue_step :: "issue_db \<Rightarrow> issue_db \<Rightarrow> bool" where
  stock_operation: "ledger_op (\<lambda>_. True) (xd_stock db) s \<Longrightarrow> issue_step db (db\<lparr>xd_stock := s\<rparr>)"
| order_reversal: "reverseExecutionOrderMovement env rv (xd_stock db) = Inr (r, s) \<Longrightarrow> issue_step db (db\<lparr>xd_stock := s\<rparr>)"
| issue_created: "createIssue ienv b db = Inr db' \<Longrightarrow> exact_inputs (xc_lines b) \<Longrightarrow> issue_step db db'"
| issue_updated: "updateIssueFrom ienv i u seen db = Inr db' \<Longrightarrow> still_read i seen db \<Longrightarrow> exact_inputs (case xu_lines u of None \<Rightarrow> [] | Some ls \<Rightarrow> ls) \<Longrightarrow> issue_step db db'"
| issue_dispatched: "dispatchIssueFrom ienv i h seen db = Inr (m, db') \<Longrightarrow> still_read i seen db \<Longrightarrow> issue_step db db'"
| issue_cancelled: "cancelIssueFrom ienv i seen db = Inr db' \<Longrightarrow> still_read i seen db \<Longrightarrow> issue_step db db'"

definition empty_issues :: "stock_item list \<Rightarrow> stock_location list \<Rightarrow> stock_lot list \<Rightarrow> issue_db" where
  "empty_issues items locations lots =
     \<lparr>xd_stock = empty_stock items locations lots, xd_issues = [], xd_lines = [], xd_serials = []\<rparr>"

section \<open>Frames\<close>

lemma own_stock [simp]: "own_lines i (db\<lparr>xd_stock := s\<rparr>) = own_lines i db" "own_serials i (db\<lparr>xd_stock := s\<rparr>) = own_serials i db"
    "issue_lines_of i (db\<lparr>xd_stock := s\<rparr>) = issue_lines_of i db" "line_group i l (db\<lparr>xd_stock := s\<rparr>) = line_group i l db"
  by (simp_all add: own_lines_def own_serials_def issue_lines_of_def line_group_def)

lemma own_put [simp]: "own_lines i (put_issue r db) = own_lines i db" "own_serials i (put_issue r db) = own_serials i db"
    "issue_lines_of i (put_issue r db) = issue_lines_of i db" "line_group i l (put_issue r db) = line_group i l db"
    "xd_stock (put_issue r db) = xd_stock db" "xd_lines (put_issue r db) = xd_lines db" "xd_serials (put_issue r db) = xd_serials db"
  by (simp_all add: own_lines_def own_serials_def issue_lines_of_def line_group_def put_issue_def)

lemma ids_put [simp]: "map xi_id (xd_issues (put_issue r db)) = map xi_id (xd_issues db)"
  by (auto simp: put_issue_def)

lemma ids_put_set [simp]: "xi_id ` set (xd_issues (put_issue r db)) = xi_id ` set (xd_issues db)"
  by (simp only: set_map [symmetric] ids_put)

lemma issues_ok_cong:
  "issues_ok db \<Longrightarrow> map xi_id (xd_issues db') = map xi_id (xd_issues db) \<Longrightarrow> xd_lines db' = xd_lines db \<Longrightarrow> xd_serials db' = xd_serials db \<Longrightarrow>
    issues_ok db'"
  by (simp add: issues_ok_def flip: set_map)

lemma issue_inv_stock:
  assumes "issue_inv db" "stock_inv s" "\<And>P. committed P (sd_balances s) = committed P (sd_balances (xd_stock db))"
  shows "issue_inv (db\<lparr>xd_stock := s\<rparr>)"
proof -
  have "promised P (db\<lparr>xd_stock := s\<rparr>) = promised P db" for P
    unfolding promised_def by (rule arg_cong [where f = sum_list]) (auto intro: promise_cong)
  moreover have "issues_ok (db\<lparr>xd_stock := s\<rparr>)" by (rule issues_ok_cong [OF issue_invD(2) [OF assms(1)]]) simp_all
  ultimately show ?thesis using assms by (simp add: issue_inv_def)
qed

text \<open>One issue changes, with its lines, its serials and its reservation.\<close>

lemma issue_inv_replace:
  assumes "issue_inv db" "find_issue i db = Some issue" "xi_id issue' = i" "stock_inv (xd_stock db')" "issues_ok db'"
    and "xd_issues db' = xd_issues (put_issue issue' db)"
    and "\<And>P. committed P (sd_balances (xd_stock db')) = committed P (sd_balances (xd_stock db)) - promise P db issue + promise P db' issue'"
    and "\<And>j. j \<noteq> i \<Longrightarrow> own_lines j db' = own_lines j db \<and> own_serials j db' = own_serials j db"
  shows "issue_inv db'"
proof -
  have "promised P db' = promised P db - promise P db issue + promise P db' issue'" for P
  proof (rule promised_replace)
    show "distinct (map xi_id (xd_issues db))" by (rule issue_invD(5) [OF assms(1)])
    show "issue \<in> set (xd_issues db)" "xi_id issue' = xi_id issue" using find_issueD [OF assms(2)] assms(3) by simp_all
    show "xd_issues db' = map (\<lambda>x. if xi_id x = xi_id issue' then issue' else x) (xd_issues db)"
      by (simp add: assms(6) put_issue_def)
    show "promise P db' j = promise P db j" if "j \<in> set (xd_issues db)" "xi_id j \<noteq> xi_id issue" for j
      by (rule promise_cong) (use that find_issueD [OF assms(2)] assms(8) in simp_all)
  qed
  with assms(4,5,7) issue_invD(3) [OF assms(1)] show ?thesis by (simp add: issue_inv_def)
qed

section \<open>Stock operations\<close>

lemma record_dispatch_moves:
  assumes "record_dispatch env issue b source destination ls db = Inr (r, db')"
  shows "stock_moves (\<lambda>_. True) False db db'"
  using assms
  by (auto simp: record_dispatch_def Let_def intro!: any_quantity.ledger_moves split: if_splits
      intro: op_issue_sale op_issue_consumption op_issue_transfer simp: list_all_iff)

lemma adjust_inv:
  assumes "adjustReservations loc as s = Inr s'" "stock_inv s" "exact_deltas as"
  shows "stock_inv s'" "committed P (sd_balances s') = committed P (sd_balances s) + asked P loc as"
    "held P (sd_balances s') = held P (sd_balances s)" "\<exists>bs. s' = s\<lparr>sd_balances := bs\<rparr>"
proof -
  have b: "balances_ok (sd_balances s)" using assms(2) by (simp add: stock_inv_def)
  note e = adjustReservations_effect [OF assms(1) b assms(3)]
  show "stock_inv s'" by (rule stock_effects_inv [OF e(1) [of "\<lambda>_. True" True] assms(2)])
  show "committed P (sd_balances s') = committed P (sd_balances s) + asked P loc as" by (rule e(5))
  show "held P (sd_balances s') = held P (sd_balances s)" by (rule e(4))
  show "\<exists>bs. s' = s\<lparr>sd_balances := bs\<rparr>" by (rule e(2))
qed


section \<open>Closing an issue\<close>

lemma own_close [simp]: "own_lines j (close_issue r db) = own_lines j db" "own_serials j (close_issue r db) = own_serials j db"
    "xd_lines (close_issue r db) = xd_lines db" "xd_stock (close_issue r db) = xd_stock db"
    "xd_issues (close_issue r db) = xd_issues (put_issue r db)"
  by (simp_all add: close_issue_def own_lines_def own_serials_def issue_lines_of_def filter_map comp_def if_distrib cong: if_cong)

lemma issues_ok_close: "issues_ok db \<Longrightarrow> issues_ok (close_issue r db)"
  by (auto simp: issues_ok_def list_all_iff close_issue_def list.pred_map comp_def)

text \<open>The adjustments by which an issue frees what it had reserved.\<close>

lemma release_inv:
  assumes "adjustReservations (xi_source issue) (map (line_adjustment (-1) i db) (issue_lines_of i db)) (xd_stock db) = Inr s"
    and "issue_inv db" "find_issue i db = Some issue" "\<not> closed_status (xi_status issue)"
  shows "stock_inv s" "committed P (sd_balances s) = committed P (sd_balances (xd_stock db)) - promise P db issue"
    "held P (sd_balances s) = held P (sd_balances (xd_stock db))" "\<exists>bs. s = xd_stock db\<lparr>sd_balances := bs\<rparr>"
proof -
  note a = adjust_inv [OF assms(1) issue_invD(1) [OF assms(2)] exact_adjustments(2)]
  show "stock_inv s" by (rule a(1))
  show "committed P (sd_balances s) = committed P (sd_balances (xd_stock db)) - promise P db issue"
    using a(2) [of P] assms(4) find_issueD [OF assms(3)] by (simp add: asked_lines promise_def)
  show "held P (sd_balances s) = held P (sd_balances (xd_stock db))" by (rule a(3))
  show "\<exists>bs. s = xd_stock db\<lparr>sd_balances := bs\<rparr>" by (rule a(4))
qed

lemma cancel_cases:
  assumes "cancelIssue env i db = Inr db'"
  obtains issue s where "find_issue i db = Some issue" "\<not> closed_status (xi_status issue)"
      "adjustReservations (xi_source issue) (map (line_adjustment (-1) i db) (issue_lines_of i db)) (xd_stock db) = Inr s"
      "db' = close_issue (issue\<lparr>xi_status := XS_CANCELLED, xi_closedAt := Some (se_now (xe_stock env))\<rparr>) (db\<lparr>xd_stock := s\<rparr>)"
  using assms by (auto simp: cancelIssue_def cancelIssueFrom_def res_simps split: option.splits)

lemma cancel_inv:
  assumes "cancelIssue env i db = Inr db'" "issue_inv db"
  shows "issue_inv db'"
proof -
  obtain issue s where st: "find_issue i db = Some issue" "\<not> closed_status (xi_status issue)"
      "adjustReservations (xi_source issue) (map (line_adjustment (-1) i db) (issue_lines_of i db)) (xd_stock db) = Inr s"
      "db' = close_issue (issue\<lparr>xi_status := XS_CANCELLED, xi_closedAt := Some (se_now (xe_stock env))\<rparr>) (db\<lparr>xd_stock := s\<rparr>)"
    by (rule cancel_cases [OF assms(1)])
  note r = release_inv [OF st(3) assms(2) st(1,2)]
  have ok: "issues_ok (db\<lparr>xd_stock := s\<rparr>)" by (rule issues_ok_cong [OF issue_invD(2) [OF assms(2)]]) simp_all
  show ?thesis
    by (rule issue_inv_replace [OF assms(2) st(1), of "issue\<lparr>xi_status := XS_CANCELLED, xi_closedAt := Some (se_now (xe_stock env))\<rparr>"])
      (simp_all add: st(4) find_issueD [OF st(1)] r issues_ok_close [OF ok] promise_def [of _ _ "_\<lparr>xi_closedAt := _\<rparr>"] closed_status_def put_issue_def)
qed

section \<open>Dispatch\<close>

lemma dispatch_cases:
  assumes "dispatchIssue env i b db = Inr (m, db')"
  obtains (replay) issue where "dispatch_body_ok b" "find_issue i db = Some issue" "xi_movement issue = Some m" "same_handoff issue b" "db' = db"
  | (fresh) issue source destination s1 r s2 where "dispatch_body_ok b" "find_issue i db = Some issue" "xi_movement issue = None"
      "\<not> closed_status (xi_status issue)"
      "issue_locations (xi_type issue) (xi_source issue) (xi_destination issue) (xd_stock db) = Inr (source, destination)"
      "list_all (group_matches i db) (issue_lines_of i db)"
      "adjustReservations (xi_source issue) (map (line_adjustment (-1) i db) (issue_lines_of i db)) (xd_stock db) = Inr s1"
      "verifyReservationAvailability (xi_source issue) (map (line_adjustment 1 i db) (issue_lines_of i db)) s1 = Inr ()"
      "record_dispatch (xe_stock env) issue b (xi_source issue) (sl_id (the destination)) (buildDispatchLedgerLines i db) s1 = Inr (r, s2)"
      "m = mv_id (mr_movement r)"
      "db' = (close_issue (dispatched_issue (xe_stock env) b m issue) (db\<lparr>xd_stock := s2\<rparr>))\<lparr>xd_lines := map (dispatched_line i db) (xd_lines db)\<rparr>"
proof -
  from assms have ok: "dispatch_body_ok b" by (simp add: dispatchIssue_def dispatchIssueFrom_def res_bind_eq_Inr del: res_bind_Inr)
  from assms ok obtain issue where issue: "find_issue i db = Some issue" by (auto simp: dispatchIssue_def dispatchIssueFrom_def split: option.splits)
  show ?thesis
  proof (cases "xi_movement issue")
    case (Some m')
    with assms issue show ?thesis by (intro replay [OF ok issue]) (auto simp: dispatchIssue_def dispatchIssueFrom_def res_simps)
  next
    case None
    from assms issue None obtain source destination s1 r s2 where st: "\<not> closed_status (xi_status issue)"
      "issue_locations (xi_type issue) (xi_source issue) (xi_destination issue) (xd_stock db) = Inr (source, destination)"
      "list_all (group_matches i db) (issue_lines_of i db)"
      "adjustReservations (sl_id source) (map (line_adjustment (-1) i db) (issue_lines_of i db)) (xd_stock db) = Inr s1"
      "verifyReservationAvailability (sl_id source) (map (line_adjustment 1 i db) (issue_lines_of i db)) s1 = Inr ()"
      "record_dispatch (xe_stock env) issue b (sl_id source) (sl_id (the destination)) (buildDispatchLedgerLines i db) s1 = Inr (r, s2)"
      "m = mv_id (mr_movement r)"
      "db' = (close_issue (dispatched_issue (xe_stock env) b (mv_id (mr_movement r)) issue) (db\<lparr>xd_stock := s2\<rparr>))\<lparr>xd_lines := map (dispatched_line i db) (xd_lines db)\<rparr>"
      unfolding dispatchIssue_def dispatchIssueFrom_def save_dispatched_still [OF still_read_refl] issue option.case None Let_def res_bind_eq_Inr guard_ok_eq_Inr
      by (auto simp: res_bind_eq_Inr simp del: res_bind_Inr)
    have "sl_id source = xi_source issue"
      using st(2) by (auto simp: issue_locations_def resolveLocation_def res_bind_eq_Inr find_location_def simp del: res_bind_Inr
          dest: find_Some_iff_hd split: option.splits)
    with st show ?thesis by (intro fresh [OF ok issue None]) simp_all
  qed
qed

lemma dispatch_inv:
  assumes "dispatchIssue env i b db = Inr (m, db')" "issue_inv db"
  shows "issue_inv db'"
  using assms(1)
proof (cases rule: dispatch_cases)
  case replay
  with assms(2) show ?thesis by simp
next
  case (fresh issue source destination s1 r s2)
  note rel = release_inv [OF fresh(7) assms(2) fresh(2,4)]
  note mv = record_dispatch_moves [OF fresh(9)]
  have s2: "stock_inv s2" by (rule stock_effects_inv [OF moves_effects [OF mv] rel(1)])
  have ok: "issues_ok (db\<lparr>xd_stock := s2\<rparr>)" by (rule issues_ok_cong [OF issue_invD(2) [OF assms(2)]]) simp_all
  have dl: "xl_id (dispatched_line i db l) = xl_id l" "xl_issue (dispatched_line i db l) = xl_issue l"
      "xl_requested (dispatched_line i db l) = xl_requested l" "(dispatched_line i db l)\<lparr>xl_dispatched := None\<rparr> = l\<lparr>xl_dispatched := None\<rparr>" for l
    by (simp_all add: dispatched_line_def)
  let ?issue = "dispatched_issue (xe_stock env) b m issue"
  have "issues_ok db'"
    using issues_ok_close [OF ok, of ?issue] unfolding fresh(11) issues_ok_def
    by (simp add: list_all_iff list_ex_iff comp_def dl)
  moreover have "own_lines j db' = own_lines j db" "own_serials j db' = own_serials j db" for j
    unfolding fresh(11) using own_close(2) [of j ?issue "db\<lparr>xd_stock := s2\<rparr>"]
    by (simp_all add: own_lines_def own_serials_def issue_lines_of_def filter_map comp_def dl)
  ultimately show ?thesis
    by (intro issue_inv_replace [OF assms(2) fresh(2), of ?issue])
      (simp_all add: fresh(11) find_issueD [OF fresh(2)] s2 moves_committed [OF mv rel(1)] rel(2) dispatched_issue_def promise_def [of _ _ "_\<lparr>xi_closedAt := _\<rparr>"] closed_status_def put_issue_def)
qed


section \<open>New lines\<close>

lemma toQuantity_nonneg: "0 < q \<Longrightarrow> 0 \<le> toQuantity q"
  by (simp add: toQuantity_def to_fixed_def math_round_def)

lemma no_lines_no_serials:
  assumes "issues_ok db" "issue_lines_of i db = []"
  shows "own_serials i db = []"
  using assms by (auto simp: issues_ok_def own_serials_def issue_lines_of_def list_all_iff list_ex_iff filter_empty_conv)

lemma inputs_nonneg:
  assumes "list_all line_input_ok ls" "map xl_requested rows = map (\<lambda>l. toQuantity (xn_requested l)) ls"
  shows "list_all (\<lambda>l. 0 \<le> xl_requested l) rows"
proof -
  have "list_all (\<lambda>n. 0 \<le> n) (map (\<lambda>l. toQuantity (xn_requested l)) ls)"
    using assms(1) by (auto simp: list_all_iff line_input_ok_def intro!: toQuantity_nonneg)
  then show ?thesis unfolding assms(2) [symmetric] by (simp add: list_all_iff)
qed

text \<open>Lines added to an issue that has none.\<close>

lemma add_lines_inv:
  assumes "add_lines env issue ls db = Inr db'" "exact_inputs ls" "list_all line_input_ok ls" "stock_inv (xd_stock db)" "issues_ok db"
    and "issue_lines_of (xi_id issue) db = []" "xi_id issue \<in> xi_id ` set (xd_issues db)"
  shows "stock_inv (xd_stock db')" "issues_ok db'" "xd_issues db' = xd_issues db"
    and "committed P (sd_balances (xd_stock db')) = committed P (sd_balances (xd_stock db)) + needs P (xi_source issue) (xi_id issue) db'"
    and "j \<noteq> xi_id issue \<Longrightarrow> own_lines j db' = own_lines j db" "j \<noteq> xi_id issue \<Longrightarrow> own_serials j db' = own_serials j db"
proof -
  let ?i = "xi_id issue"
  have b: "balances_ok (sd_balances (xd_stock db))" using assms(4) by (simp add: stock_inv_def)
  obtain rows new s where st: "db' = db\<lparr>xd_stock := s, xd_lines := xd_lines db @ rows, xd_serials := xd_serials db @ new\<rparr>"
      "effects (\<lambda>_. True) True (xd_stock db) s"
      "\<And>P. committed P (sd_balances s) = committed P (sd_balances (xd_stock db)) + needs P (xi_source issue) ?i db'"
      "distinct (map xl_id (xd_lines db @ rows))" "list_all (\<lambda>l. xl_issue l = ?i) rows"
      "map xl_requested rows = map (\<lambda>l. toQuantity (xn_requested l)) ls"
      "list_all (\<lambda>s. xs_issue s = ?i \<and> list_ex (\<lambda>l. xl_id l = xs_line s) rows) new"
    by (rule add_lines_Inr [OF assms(1,2) b assms(6) no_lines_no_serials [OF assms(5,6)]]) (rule that)
  show "stock_inv (xd_stock db')" using stock_effects_inv [OF st(2) assms(4)] by (simp add: st(1))
  show "xd_issues db' = xd_issues db" by (simp add: st(1))
  show "committed P (sd_balances (xd_stock db')) = committed P (sd_balances (xd_stock db)) + needs P (xi_source issue) ?i db'"
    using st(3) [of P] by (simp add: st(1))
  have "list_all (\<lambda>l. xl_issue l \<in> xi_id ` set (xd_issues db) \<and> 0 \<le> xl_requested l) rows"
    using inputs_nonneg [OF assms(3) st(6)] st(5) assms(7) by (simp add: list_all_iff)
  moreover have "list_all (\<lambda>s. list_ex (\<lambda>l. xl_id l = xs_line s \<and> xl_issue l = xs_issue s) rows) new"
    using st(5,7) by (auto simp: list_all_iff list_ex_iff)
  ultimately show "issues_ok db'"
    using assms(5) st(4) unfolding issues_ok_def st(1) by (auto simp: list_all_iff)
  show "own_lines j db' = own_lines j db" "own_serials j db' = own_serials j db" if "j \<noteq> ?i"
  proof -
    have "filter (\<lambda>l. xl_issue l = j) rows = []" "filter (\<lambda>s. xs_issue s = j) new = []"
      using that st(5,7) by (auto simp: list_all_iff filter_empty_conv)
    then show "own_lines j db' = own_lines j db" "own_serials j db' = own_serials j db"
      by (simp_all add: st(1) own_lines_def own_serials_def issue_lines_of_def)
  qed
qed

lemma create_inv:
  assumes "createIssue env b db = Inr db'" "exact_inputs (xc_lines b)" "issue_inv db"
  shows "issue_inv db'"
proof -
  let ?n = "new_issue env b"
  let ?db = "db\<lparr>xd_issues := xd_issues db @ [?n]\<rparr>"
  have n: "xi_id ?n = xe_issue env" "\<not> closed_status (xi_status ?n)" by (simp_all add: new_issue_def closed_status_def)
  from assms(1) have st: "create_body_ok b" "find_issue (xe_issue env) db = None" "add_lines env ?n (xc_lines b) ?db = Inr db'"
    by (auto simp: createIssue_def res_bind_eq_Inr simp del: res_bind_Inr)
  note ok = issue_invD [OF assms(3)]
  have new: "xe_issue env \<notin> xi_id ` set (xd_issues db)" using st(2) by (auto simp: find_issue_def find_None_iff)
  have okn: "issues_ok ?db" using ok(2) new by (auto simp: issues_ok_def list_all_iff n)
  have none: "issue_lines_of (xi_id ?n) ?db = []"
  proof -
    have "xl_issue l \<noteq> xe_issue env" if "l \<in> set (xd_lines db)" for l
      using ok(2) new that unfolding issues_ok_def list_all_iff by metis
    then show ?thesis by (simp add: issue_lines_of_def filter_empty_conv n)
  qed
  note a = add_lines_inv [OF st(3) assms(2) _ _ okn none]
  have b: "list_all line_input_ok (xc_lines b)" "stock_inv (xd_stock ?db)" "xi_id ?n \<in> xi_id ` set (xd_issues ?db)"
    using st(1) ok(1) by (simp_all add: create_body_ok_def)
  have old: "promise P db' j = promise P db j" if "j \<in> set (xd_issues db)" for P j
  proof (rule promise_cong)
    have j: "xi_id j \<noteq> xi_id ?n" using that new n(1) by (metis image_eqI)
    show "own_lines (xi_id j) db' = own_lines (xi_id j) db" "own_serials (xi_id j) db' = own_serials (xi_id j) db"
      using a(5,6) [OF b j] by (simp_all add: own_lines_def own_serials_def issue_lines_of_def)
  qed
  have "promised P db' = promised P db + promise P db' ?n" for P
    unfolding promised_def a(3) [OF b] using arg_cong [where f = sum_list, OF map_cong [OF refl old]] by simp
  moreover have "promise P db' ?n = needs P (xi_source ?n) (xi_id ?n) db'" for P using n(2) by (simp add: promise_def)
  ultimately show ?thesis
    using a(1,2) [OF b] a(4) [OF b] ok(3) by (simp add: issue_inv_def)
qed


section \<open>Update\<close>

lemma delete_lines_own:
  assumes "issues_ok db"
  shows "issue_lines_of i (delete_lines i db) = []" "issues_ok (delete_lines i db)"
    "j \<noteq> i \<Longrightarrow> own_lines j (delete_lines i db) = own_lines j db" "j \<noteq> i \<Longrightarrow> own_serials j (delete_lines i db) = own_serials j db"
proof -
  have ids: "xs_line s \<in> xl_id ` set (issue_lines_of i db) \<longleftrightarrow> xs_issue s = i" if "s \<in> set (xd_serials db)" for s
  proof -
    from assms that obtain l where l: "l \<in> set (xd_lines db)" "xl_id l = xs_line s" "xl_issue l = xs_issue s"
      by (auto simp: issues_ok_def list_all_iff list_ex_iff)
    from assms have "inj_on xl_id (set (xd_lines db))" by (simp add: issues_ok_def distinct_map)
    with l have u: "l' = l" if "l' \<in> set (xd_lines db)" "xl_id l' = xs_line s" for l' using that by (metis inj_onD)
    show ?thesis
    proof
      assume "xs_line s \<in> xl_id ` set (issue_lines_of i db)"
      then obtain l' where l': "l' \<in> set (xd_lines db)" "xl_id l' = xs_line s" "xl_issue l' = i" by (auto simp: issue_lines_of_def)
      with u [of l'] l(3) show "xs_issue s = i" by simp
    next
      assume "xs_issue s = i"
      with l(1,3) have "l \<in> set (issue_lines_of i db)" by (simp add: issue_lines_of_def)
      then show "xs_line s \<in> xl_id ` set (issue_lines_of i db)" unfolding l(2) [symmetric] by (rule imageI)
    qed
  qed
  have "filter (\<lambda>s. xs_line s \<notin> xl_id ` set (issue_lines_of i db)) (xd_serials db) = filter (\<lambda>s. xs_issue s \<noteq> i) (xd_serials db)"
    by (rule filter_cong) (simp_all add: ids)
  then have d: "delete_lines i db = db\<lparr>xd_lines := filter (\<lambda>l. xl_issue l \<noteq> i) (xd_lines db), xd_serials := filter (\<lambda>s. xs_issue s \<noteq> i) (xd_serials db)\<rparr>"
    by (simp add: delete_lines_def)
  show "issue_lines_of i (delete_lines i db) = []" by (simp add: d issue_lines_of_def filter_empty_conv)
  show "issues_ok (delete_lines i db)"
    unfolding d issues_ok_def list_all_iff list_ex_iff
  proof (intro conjI ballI, goal_cases)
    case (5 s)
    then have s: "s \<in> set (xd_serials db)" "xs_issue s \<noteq> i" by simp_all
    with assms obtain l where "l \<in> set (xd_lines db)" "xl_id l = xs_line s" "xl_issue l = xs_issue s"
      by (auto simp: issues_ok_def list_all_iff list_ex_iff)
    with s(2) show ?case by auto
  qed (use assms in \<open>auto simp: issues_ok_def distinct_map_filter list_all_iff\<close>)
  show "own_lines j (delete_lines i db) = own_lines j db" "own_serials j (delete_lines i db) = own_serials j db" if "j \<noteq> i"
  proof -
    have "filter (\<lambda>l. xl_issue l = j \<and> xl_issue l \<noteq> i) ls = filter (\<lambda>l. xl_issue l = j) ls"
        "filter (\<lambda>s. xs_issue s = j \<and> xs_issue s \<noteq> i) ss = filter (\<lambda>s. xs_issue s = j) ss" for ls :: "stock_issue_line list" and ss :: "issue_serial list"
      using that by (auto intro!: filter_cong)
    then show "own_lines j (delete_lines i db) = own_lines j db" "own_serials j (delete_lines i db) = own_serials j db"
      by (simp_all add: d own_lines_def own_serials_def issue_lines_of_def conj_commute)
  qed
qed

lemma line_adjustment_cong:
  assumes "\<And>l. line_group i l db' = line_group i l db"
  shows "line_adjustment f i db' = line_adjustment f i db"
  by (rule ext) (simp add: line_adjustment_def line_quantity_def assms)

lemma needs_put [simp]: "needs P loc i (put_issue r db) = needs P loc i db" "needs P loc i (db\<lparr>xd_stock := s\<rparr>) = needs P loc i db"
  by (auto intro!: needs_cong)

lemma updated_issue_simps:
  "xi_id (updated_issue b issue) = xi_id issue"
  "update_body_ok b \<Longrightarrow> \<not> closed_status (xi_status issue) \<Longrightarrow> \<not> closed_status (xi_status (updated_issue b issue))"
  by (auto simp: updated_issue_def update_body_ok_def overwrite_def split: option.splits)

lemma update_cases:
  assumes "updateIssue env i b db = Inr db'"
  obtains issue where "find_issue i db = Some issue" "\<not> closed_status (xi_status issue)" "update_body_ok b"
    and "case xu_lines b of Some ls \<Rightarrow> replace_lines env (xi_source issue) (updated_issue b issue) ls db (put_issue (updated_issue b issue) db) = Inr db'
       | None \<Rightarrow> if xi_source (updated_issue b issue) \<noteq> xi_source issue
           then move_reservations (xi_source issue) (updated_issue b issue) db (put_issue (updated_issue b issue) db) = Inr db'
           else db' = put_issue (updated_issue b issue) db"
proof -
  from assms obtain issue where st: "find_issue i db = Some issue" "\<not> closed_status (xi_status issue)" "update_body_ok b"
      "(case xu_lines b of Some ls \<Rightarrow> replace_lines env (xi_source issue) (updated_issue b issue) ls db (put_issue (updated_issue b issue) db)
        | None \<Rightarrow> if given (xu_source b) \<and> xu_source b \<noteq> Some (xi_source issue)
            then move_reservations (xi_source issue) (updated_issue b issue) db (put_issue (updated_issue b issue) db)
            else Inr (put_issue (updated_issue b issue) db)) = Inr db'"
    by (auto simp: updateIssue_def updateIssueFrom_def Let_def res_bind_eq_Inr simp del: res_bind_Inr split: option.splits)
  have "given (xu_source b) \<and> xu_source b \<noteq> Some (xi_source issue) \<longleftrightarrow> xi_source (updated_issue b issue) \<noteq> xi_source issue"
    using st(3) by (cases "xu_source b") (auto simp: update_body_ok_def updated_issue_def overwrite_def)
  with st show ?thesis by (intro that [OF st(1-3)]) (auto split: option.splits if_splits)
qed

lemma update_inv:
  assumes "updateIssue env i b db = Inr db'" "exact_inputs (case xu_lines b of None \<Rightarrow> [] | Some ls \<Rightarrow> ls)" "issue_inv db"
  shows "issue_inv db'"
proof -
  obtain issue where st: "find_issue i db = Some issue" "\<not> closed_status (xi_status issue)" "update_body_ok b"
    and body: "case xu_lines b of Some ls \<Rightarrow> replace_lines env (xi_source issue) (updated_issue b issue) ls db (put_issue (updated_issue b issue) db) = Inr db'
       | None \<Rightarrow> if xi_source (updated_issue b issue) \<noteq> xi_source issue
           then move_reservations (xi_source issue) (updated_issue b issue) db (put_issue (updated_issue b issue) db) = Inr db'
           else db' = put_issue (updated_issue b issue) db"
    by (rule update_cases [OF assms(1)])
  define issue' where "issue' = updated_issue b issue"
  define db1 where "db1 = put_issue issue' db"
  note body = body [folded issue'_def, folded db1_def]
  have i: "xi_id issue = i" "xi_id issue' = i" "\<not> closed_status (xi_status issue')"
    using find_issueD [OF st(1)] updated_issue_simps [of b issue] st(2,3) by (simp_all add: issue'_def)
  have p: "promise P db issue = needs P (xi_source issue) i db" "promise P d issue' = needs P (xi_source issue') i d" for P d
    using st(2) i by (simp_all add: promise_def)
  have ok1: "issues_ok db1" unfolding db1_def by (rule issues_ok_cong [OF issue_invD(2) [OF assms(3)]]) simp_all
  have s1: "stock_inv (xd_stock db1)" using issue_invD(1) [OF assms(3)] by (simp add: db1_def)
  have stock1: "xd_stock db1 = xd_stock db" by (simp add: db1_def)
  have n1: "needs P loc i db1 = needs P loc i db" for P loc by (simp add: db1_def)
  have replace: "issue_inv db'"
    if "stock_inv (xd_stock db')" "issues_ok db'" "xd_issues db' = xd_issues db1"
      "\<And>P. committed P (sd_balances (xd_stock db')) = committed P (sd_balances (xd_stock db)) - needs P (xi_source issue) i db + needs P (xi_source issue') i db'"
      "\<And>j. j \<noteq> i \<Longrightarrow> own_lines j db' = own_lines j db1 \<and> own_serials j db' = own_serials j db1"
    by (rule issue_inv_replace [OF assms(3) st(1) i(2)]) (use that in \<open>simp_all add: p db1_def\<close>)
  have rel: "stock_inv s" "committed P (sd_balances s) = committed P (sd_balances (xd_stock db)) - needs P (xi_source issue) i db"
    if "adjustReservations (xi_source issue) (map (line_adjustment (-1) i db) (issue_lines_of i db)) (xd_stock db1) = Inr s" for s P
    using adjust_inv(1,2) [OF that s1 exact_adjustments(2)] by (simp_all add: asked_lines stock1)
  show ?thesis
  proof (cases "xu_lines b")
    case (Some ls)
    with body i(2) obtain s where s: "adjustReservations (xi_source issue) (map (line_adjustment (-1) i db) (issue_lines_of i db)) (xd_stock db1) = Inr s"
        "add_lines env issue' ls (delete_lines i (db1\<lparr>xd_stock := s\<rparr>)) = Inr db'"
      by (auto simp: replace_lines_def res_bind_eq_Inr simp del: res_bind_Inr)
    let ?d = "delete_lines i (db1\<lparr>xd_stock := s\<rparr>)"
    have ok: "issues_ok (db1\<lparr>xd_stock := s\<rparr>)" by (rule issues_ok_cong [OF ok1]) simp_all
    note del = delete_lines_own [OF ok, where i = i]
    have in_ids: "xi_id issue' \<in> xi_id ` set (xd_issues ?d)" using find_issueD [OF st(1)] i by (auto simp: delete_lines_def db1_def)
    have d: "xd_stock ?d = s" "xd_issues ?d = xd_issues db1" by (simp_all add: delete_lines_def)
    have in_ok: "exact_inputs ls" "list_all line_input_ok ls" using assms(2) st(3) Some by (simp_all add: update_body_ok_def)
    note a = add_lines_inv [OF s(2) in_ok _ del(2), unfolded d(1), OF rel(1) [OF s(1)] _ in_ids, unfolded i(2), OF del(1)]
    show ?thesis
      by (rule replace) (use a rel(2) [OF s(1)] del(3,4) d(2) in simp_all)
  next
    case None
    show ?thesis
    proof (cases "xi_source issue' = xi_source issue")
      case True
      with body None have "db' = db1" by simp
      with True ok1 s1 show ?thesis by (intro replace) (simp_all add: n1, simp_all add: db1_def)
    next
      case False
      with body None i(2) obtain sa sb where s: "adjustReservations (xi_source issue) (map (line_adjustment (-1) i db) (issue_lines_of i db)) (xd_stock db1) = Inr sa"
          "adjustReservations (xi_source issue') (map (line_adjustment 1 i db) (issue_lines_of i db)) sa = Inr sb" "db' = db1\<lparr>xd_stock := sb\<rparr>"
        by (auto simp: move_reservations_def Let_def res_bind_eq_Inr simp del: res_bind_Inr)
      note a = adjust_inv [OF s(2) rel(1) [OF s(1)] exact_adjustments(1)]
      have ok: "issues_ok (db1\<lparr>xd_stock := sb\<rparr>)" by (rule issues_ok_cong [OF ok1]) simp_all
      show ?thesis by (rule replace) (simp_all add: s(3) ok a(1,2) rel(2) [OF s(1)] asked_lines n1)
    qed
  qed
qed

section \<open>Reachable states\<close>

lemma empty_issues_inv: "issue_inv (empty_issues items locations lots)"
  using empty_stock_inv [of items locations lots]
  by (simp add: issue_inv_def empty_issues_def issues_ok_def promised_def empty_stock_def)

lemma issue_step_inv:
  assumes "issue_inv db" "issue_step db db'"
  shows "issue_inv db'"
  using assms(2)
proof cases
  case (stock_operation s)
  then have m: "stock_moves (\<lambda>_. True) False (xd_stock db) s" by (intro any_quantity.ledger_moves)
  show ?thesis unfolding stock_operation(1)
    by (rule issue_inv_stock [OF assms(1) stock_effects_inv [OF moves_effects [OF m]] moves_committed [OF m]]) (rule issue_invD(1) [OF assms(1)])+
next
  case (order_reversal env rv r s)
  have m: "stock_moves (\<lambda>_. True) True (xd_stock db) s"
    by (rule any_quantity.reversal_chain [OF order_reversal(2) issue_invD(1) [OF assms(1)]])
  show ?thesis unfolding order_reversal(1)
    by (rule issue_inv_stock [OF assms(1) stock_effects_inv [OF moves_effects [OF m]] moves_committed [OF m]]) (rule issue_invD(1) [OF assms(1)])+
next
  case (issue_updated ienv i u seen)
  then show ?thesis using assms(1) by (auto simp: updateIssueFrom_still intro: update_inv)
next
  case (issue_dispatched ienv i h seen m)
  then show ?thesis using assms(1) by (auto simp: dispatchIssueFrom_still intro: dispatch_inv)
next
  case (issue_cancelled ienv i seen)
  then show ?thesis using assms(1) by (auto simp: cancelIssueFrom_still intro: cancel_inv)
qed (auto intro: create_inv assms(1))

interpretation issue_machine: step_invariant "empty_issues items locations lots" issue_step issue_inv
  for items locations lots
  by unfold_locales (auto intro: empty_issues_inv issue_step_inv)

end
