(* ===== verification/StockIssueTheorems.thy ===== *)
theory StockIssueTheorems
  imports StockIssueFacts StockDemo
begin

text \<open>
  The properties of stock issues: reservations and open issues, cancellation, dispatch, and what
  a repeated dispatch answers.
\<close>

section \<open>What a dispatch moves\<close>

lemma cents_of_nat: "cents_step (of_nat n) = 100 * int n" "cents_step (- of_nat n) = - (100 * int n)"
  using cents_step_toNumeric [of "100 * int n"] cents_step_toNumeric [of "- (100 * int n)"] by (simp_all add: toNumeric_def)

lemma moved_concat: "moved P (concat xss) = sum_list (map (moved P) xss)"
  by (induction xss) simp_all

lemma line_key_issue [simp]: "line_key (issue_ledger_line x loc q) = (sx_item x, loc, sx_lot x, issue_condition x)"
  by (simp add: line_key_def issue_ledger_line_def condition_of_def)

lemma moved_dispatch_lines:
  "moved P (map (\<lambda>x. issue_ledger_line x loc (issue_quantity x)) (dispatch_lines i db l))
    = (if P (xl_item l, loc, xl_lot l, xl_condition l) then line_cents i db l else 0)"
  "moved P (map (\<lambda>x. issue_ledger_line x loc (- issue_quantity x)) (dispatch_lines i db l))
    = - (if P (xl_item l, loc, xl_lot l, xl_condition l) then line_cents i db l else 0)"
proof -
  have q: "ll_quantity (issue_ledger_line x loc v) = v" for x v by (simp add: issue_ledger_line_def)
  have one: "cents_step 1 = 100" "cents_step (- 1) = - 100" using cents_of_nat [of 1] by simp_all
  have n: "cents_step (- toNumeric k) = - k" for k using cents_step_toNumeric [of "- k"] by simp
  have add: "moved P (map f as) = int (length as) * c" if "\<And>a. moved P [f a] = c" for f c and as :: "string list"
    using that by (induction as) (simp_all add: algebra_simps)
  define x where "x a = \<lparr>sx_item = xl_item l, sx_quantity = 1, sx_lot = xl_lot l, sx_asset = Some a,
             sx_serial = serial_number_of (xd_stock db) a, sx_condition = Some (xl_condition l)\<rparr>" for a
  have m: "moved P [issue_ledger_line (x a) loc (issue_quantity (x a))] = (if P (xl_item l, loc, xl_lot l, xl_condition l) then 100 else 0)"
      "moved P [issue_ledger_line (x a) loc (- issue_quantity (x a))] = - (if P (xl_item l, loc, xl_lot l, xl_condition l) then 100 else 0)" for a
    by (simp_all add: q one x_def issue_condition_def issue_quantity_def unit_quantity_def)
  show "moved P (map (\<lambda>x. issue_ledger_line x loc (issue_quantity x)) (dispatch_lines i db l))
    = (if P (xl_item l, loc, xl_lot l, xl_condition l) then line_cents i db l else 0)"
  proof (cases "line_group i l db = []")
    case False
    then have "dispatch_lines i db l = map x (line_group i l db)" by (simp add: dispatch_lines_def x_def)
    then show ?thesis using add [OF m(1)] False by (simp add: comp_def line_cents_def)
  qed (simp add: dispatch_lines_def line_cents_def q issue_condition_def issue_quantity_def unit_quantity_def)
  show "moved P (map (\<lambda>x. issue_ledger_line x loc (- issue_quantity x)) (dispatch_lines i db l))
    = - (if P (xl_item l, loc, xl_lot l, xl_condition l) then line_cents i db l else 0)"
  proof (cases "line_group i l db = []")
    case False
    then have "dispatch_lines i db l = map x (line_group i l db)" by (simp add: dispatch_lines_def x_def)
    then show ?thesis using add [OF m(2)] False by (simp add: comp_def line_cents_def)
  qed (simp add: dispatch_lines_def line_cents_def q n issue_condition_def issue_quantity_def unit_quantity_def)
qed

lemma moved_build:
  "moved P (map (\<lambda>x. issue_ledger_line x loc (issue_quantity x)) (buildDispatchLedgerLines i db)) = needs P loc i db"
  "moved P (map (\<lambda>x. issue_ledger_line x loc (- issue_quantity x)) (buildDispatchLedgerLines i db)) = - needs P loc i db"
  by (simp_all add: buildDispatchLedgerLines_def map_concat moved_concat comp_def moved_dispatch_lines needs_def uminus_sum_list_map)

lemma transfer_lines_moved:
  assumes "res_fold (issue_transfer_line dest it db) ls (xs, ts) = Inr (ys, us)"
  shows "moved P ys = moved P xs + moved P (map (\<lambda>x. issue_ledger_line x (it_source it) (- issue_quantity x)) ls)
    + moved P (map (\<lambda>x. issue_ledger_line x (it_destination it) (issue_quantity x)) ls)"
  using assms
proof (induction ls arbitrary: xs ts)
  case (Cons l ls)
  from Cons.prems obtain st where st: "issue_transfer_line dest it db l (xs, ts) = Inr st" "res_fold (issue_transfer_line dest it db) ls st = Inr (ys, us)"
    by (auto simp: res_simps)
  from st(1) have "fst st = xs @ [issue_ledger_line l (it_source it) (- issue_quantity l), issue_ledger_line l (it_destination it) (issue_quantity l)]"
    by (auto simp: issue_transfer_line_def Let_def res_simps)
  with Cons.IH [of "fst st" "snd st", unfolded prod.collapse, OF st(2)] show ?case by (simp only: moved_simps list.map)
qed simp

text \<open>The movement of a dispatch takes the lines out of the source and, in a transfer, brings them to the destination.\<close>

lemma record_dispatch_held:
  assumes "record_dispatch env issue b source destination (buildDispatchLedgerLines i db) s = Inr (r, s')"
    and "stock_inv s" "find_by_key (dispatch_key issue) s = None"
  shows "held P (sd_balances s') = held P (sd_balances s) - needs P source i db
    + (if outgoing_type (xi_type issue) then 0 else needs P destination i db)"
proof -
  from assms(1) obtain input where st: "recordMovement env input s = Inr (r, s')" "mi_idempotencyKey input = dispatch_key issue"
      "moved P (mi_lines input) = - needs P source i db + (if outgoing_type (xi_type issue) then 0 else needs P destination i db)"
  proof (cases "outgoing_type (xi_type issue)")
    case True
    with assms(1) that show ?thesis
      by (auto simp: record_dispatch_def Let_def outgoing_type_def recordStockIssueSale_def recordStockIssueInternalConsumption_def
          record_issue_out_def moved_build res_bind_eq_Inr simp del: res_bind_Inr split: if_splits)
  next
    case False
    with assms(1) obtain it where it: "recordStockIssueTransfer env it s = Inr (r, s')" "it_lines it = buildDispatchLedgerLines i db"
        "it_source it = source" "it_destination it = destination" "it_idempotencyKey it = dispatch_key issue"
      by (auto simp: record_dispatch_def Let_def outgoing_type_def)
    from it(1) obtain dest ls ts input where m: "res_fold (issue_transfer_line dest it s) (it_lines it) ([], []) = Inr (ls, ts)"
        "recordMovement env input s = Inr (r, s')" "mi_lines input = ls" "mi_idempotencyKey input = it_idempotencyKey it"
      by (fastforce simp: recordStockIssueTransfer_def Let_def res_bind_eq_Inr simp del: res_bind_Inr split: option.splits prod.splits)
    have "moved P ls = - needs P source i db + needs P destination i db"
      using transfer_lines_moved [OF m(1), of P] it(2-4) by (simp add: moved_build)
    with False m it(5) show ?thesis by (intro that [of input]) simp_all
  qed
  from recordMovement_effect(2) [OF st(1) assms(2)] assms(3) st(2,3) show ?thesis by simp
qed


section \<open>Dispatching once more\<close>

lemma members_eq_iff: "stored_members a = incoming_members a \<longleftrightarrow> ha_url a = None"
  by (cases "ha_url a") (simp_all add: stored_members_def incoming_members_def optional_text_def)

lemma member_no_url: "stored_members a = incoming_members b \<Longrightarrow> ha_url b = None"
  by (auto simp: stored_members_def incoming_members_def optional_text_def tail_members_def split: option.splits)

lemma match_no_url: "map stored_members as = map incoming_members bs \<Longrightarrow> list_all (\<lambda>a. ha_url a = None) bs"
proof (induction bs arbitrary: as)
  case (Cons b bs)
  then obtain a as' where "as = a # as'" "stored_members a = incoming_members b" "map stored_members as' = map incoming_members bs"
    by (auto simp: map_eq_Cons_conv)
  with Cons.IH [of as'] member_no_url show ?case by simp
qed simp

lemma find_put:
  assumes "find_issue i db = Some issue" "xi_id r = i"
  shows "find_issue i (put_issue r db) = Some r"
proof -
  have "find (\<lambda>x. xi_id x = i) xs = Some issue \<Longrightarrow> find (\<lambda>x. xi_id x = i) (map (\<lambda>x. if xi_id x = i then r else x) xs) = Some r" for xs
    using assms(2) by (induction xs) (simp_all split: if_splits)
  with assms show ?thesis by (simp add: find_issue_def put_issue_def)
qed

lemma find_issue_close: "find_issue i (close_issue r db) = find_issue i (put_issue r db)"
  by (simp add: find_issue_def)

lemma find_issue_frame [simp]: "find_issue i (db\<lparr>xd_lines := ls\<rparr>) = find_issue i db" "find_issue i (db\<lparr>xd_stock := s\<rparr>) = find_issue i db"
  by (simp_all add: find_issue_def)

section \<open>A small run\<close>

definition issue_env_of :: "string \<Rightarrow> issue_env" where
  "issue_env_of i = \<lparr>xe_stock = demo_env (''mov-'' @ i), xe_issue = i, xe_line = (\<lambda>n. i @ CHR ''/'' # show_int (int n))\<rparr>"

definition demo_line :: "string \<Rightarrow> rat \<Rightarrow> issue_line_input" where
  "demo_line lot q = \<lparr>xn_item = ''cable'', xn_requested = q, xn_lot = Some lot, xn_assets = None, xn_condition = BC_NEW\<rparr>"

definition demo_onu :: issue_line_input where
  "demo_onu = \<lparr>xn_item = ''onu'', xn_requested = 1, xn_lot = None, xn_assets = Some [''asset''], xn_condition = BC_NEW\<rparr>"

definition issue_demo_body :: "issue_line_input list \<Rightarrow> create_issue_body" where
  "issue_demo_body ls = \<lparr>xc_type = XT_TECHNICIAN_CUSTODY, xc_source = ''main'', xc_destination = Some ''van'', xc_destinationRef = None,
     xc_originRef = None, xc_commercialRef = None, xc_reason = None, xc_costCenter = None, xc_lines = ls\<rparr>"

definition demo_handoff :: "string option \<Rightarrow> dispatch_body" where
  "demo_handoff url = \<lparr>xh_method = ''signed'', xh_notes = None,
     xh_attachments = [\<lparr>ha_name = ''photo'', ha_url = url, ha_mimeType = None, ha_sizeBytes = None\<rparr>]\<rparr>"

definition issue_db_of :: "issue_db stock_result \<Rightarrow> issue_db" where
  "issue_db_of r = (case r of Inl _ \<Rightarrow> empty_issues [] [] [] | Inr db \<Rightarrow> db)"

definition stocked :: issue_db where
  "stocked = (empty_issues demo_items demo_locations demo_lots)
     \<lparr>xd_stock := db_of (recordAdjustment (demo_env ''m2'') (demo_adjustment ''lot2'' 4) router1)\<rparr>"

definition requested :: issue_db where
  "requested = issue_db_of (createIssue (issue_env_of ''issue'') (issue_demo_body [demo_line ''lot2'' (3/2), demo_onu, demo_line ''lot2'' 1]) stocked)"

definition dispatched :: issue_db where
  "dispatched = issue_db_of (map_sum id snd (dispatchIssue (issue_env_of ''issue'') ''issue'' (demo_handoff None) requested))"

lemma issue_run:
  "done_of (recordAdjustment (demo_env ''m2'') (demo_adjustment ''lot2'' 4) router1)"
  "\<not> isl (createIssue (issue_env_of ''issue'') (issue_demo_body [demo_line ''lot2'' (3/2), demo_onu, demo_line ''lot2'' 1]) stocked)"
  by code_simp+

lemma issue_run2:
  "(case dispatchIssue (issue_env_of ''issue'') ''issue'' (demo_handoff None) requested of Inl _ \<Rightarrow> False | Inr (m, _) \<Rightarrow> m = ''mov-issue'')"
  by code_simp


lemma stocked_reachable: "issue_step\<^sup>*\<^sup>* (empty_issues demo_items demo_locations demo_lots) stocked"
proof -
  let ?e = "empty_issues demo_items demo_locations demo_lots"
  have e: "xd_stock ?e = demo0" "?e = ?e\<lparr>xd_stock := demo0\<rparr>" by (simp_all add: empty_issues_def demo0_def)
  have step: "issue_step (?e\<lparr>xd_stock := s\<rparr>) (?e\<lparr>xd_stock := t\<rparr>)" if "ledger_op (\<lambda>_. True) s t" for s t
    using stock_operation [of "?e\<lparr>xd_stock := s\<rparr>" t] that by simp
  have "issue_step (?e\<lparr>xd_stock := demo0\<rparr>) (?e\<lparr>xd_stock := router0\<rparr>)"
    by (rule step) (rule op_receive_asset [OF router_run(1)], simp add: demo0_def empty_stock_def)
  moreover have "issue_step (?e\<lparr>xd_stock := router0\<rparr>) (?e\<lparr>xd_stock := router1\<rparr>)"
  proof -
    obtain r where r: "recordMovement (demo_env ''r1'') (demo_receipt ''receipt-1'') router0 = Inr (r, router1)"
      using done_ofD [OF router_run(2)] unfolding router1_def by blast
    have t: "list_all (\<lambda>t. \<not> tr_restore t) (mi_transitions (demo_receipt ''receipt-1''))" by (simp add: demo_receipt_def)
    show ?thesis by (rule step) (rule op_movement [OF r _ t], simp add: list_all_iff)
  qed
  moreover obtain r where "recordAdjustment (demo_env ''m2'') (demo_adjustment ''lot2'' 4) router1 = Inr (r, xd_stock stocked)"
    using done_ofD [OF issue_run(1)] unfolding stocked_def by auto
  then have "issue_step (?e\<lparr>xd_stock := router1\<rparr>) (?e\<lparr>xd_stock := xd_stock stocked\<rparr>)" by (intro step op_adjustment) simp_all
  moreover have "?e\<lparr>xd_stock := xd_stock stocked\<rparr> = stocked" by (simp add: stocked_def)
  ultimately show ?thesis using e(2) by (metis rtranclp.rtrancl_into_rtrancl rtranclp.rtrancl_refl)
qed

lemma requested_run: "createIssue (issue_env_of ''issue'') (issue_demo_body [demo_line ''lot2'' (3/2), demo_onu, demo_line ''lot2'' 1]) stocked = Inr requested"
  using issue_run(2) by (auto simp: requested_def issue_db_of_def isl_def split: sum.splits)

lemma requested_reachable: "issue_step\<^sup>*\<^sup>* (empty_issues demo_items demo_locations demo_lots) requested"
proof -
  have "exact_inputs [demo_line ''lot2'' (3/2), demo_onu, demo_line ''lot2'' 1]"
    by (simp add: exact_inputs_def demo_line_def demo_onu_def two_decimals_def)
  then have "issue_step stocked requested" by (intro issue_created [OF requested_run]) (simp add: issue_demo_body_def)
  with stocked_reachable show ?thesis by (rule rtranclp.rtrancl_into_rtrancl)
qed

lemma requested_issue: "find_issue ''issue'' requested = Some (hd (xd_issues requested))" "xi_movement (hd (xd_issues requested)) = None"
    "\<not> closed_status (xi_status (hd (xd_issues requested)))"
    "find_by_key (dispatch_key (hd (xd_issues requested))) (xd_stock requested) = None"
    "xi_source (hd (xd_issues requested)) = ''main''" "xi_destination (hd (xd_issues requested)) = Some ''van''"
    "xi_type (hd (xd_issues requested)) = XT_TECHNICIAN_CUSTODY"
  by code_simp+

lemma dispatched_run: "dispatchIssue (issue_env_of ''issue'') ''issue'' (demo_handoff None) requested = Inr (''mov-issue'', dispatched)"
  using issue_run2 by (auto simp: dispatched_def issue_db_of_def split: sum.splits)


section \<open>Reservations\<close>

text \<open>
  C8. Reserved stock is promised stock. Issues are created, changed, dispatched and cancelled
  with lines of two decimals, and the ledger books whatever else in between, also between the
  reading of an issue and the writing of its change, dispatch or cancellation; the one condition
  is that nobody writes to that same issue meanwhile, since the code reads it without a lock.
  Then what is reserved on every tuple of item, location, lot and condition is what the lines of
  the issues still open ask for on it.
\<close>

theorem reservations_are_the_open_issues:
  assumes "issue_step\<^sup>*\<^sup>* (empty_issues items locations lots) db"
  shows "committed P (sd_balances (xd_stock db)) = promised P db"
  by (rule issue_invD(3) [OF issue_machine.inv_reachable [OF assms]])

theorem reservations_are_the_open_issues_witness:
  "committed (\<lambda>(item, loc, lot, cond). lot = Some ''lot2'') (sd_balances (xd_stock requested)) = promised (\<lambda>(item, loc, lot, cond). lot = Some ''lot2'') requested
    \<and> map xl_requested (xd_lines requested) = [150, 100, 100]"
  using reservations_are_the_open_issues [OF requested_reachable] by (intro conjI) (simp, code_simp)

text \<open>
  The condition of C8 is needed: two open issues of one unit each, and two cancellations of
  the first that both read it while it was open. Both succeed, the second at the expense of the
  other issue, whose unit stays promised but is reserved no more.
\<close>

definition two_issues :: issue_db where
  "two_issues = issue_db_of (createIssue (issue_env_of ''other'') (issue_demo_body [demo_line ''lot2'' 1])
     (issue_db_of (createIssue (issue_env_of ''issue'') (issue_demo_body [demo_line ''lot2'' 1]) stocked)))"

lemma cancelled_twice:
  "(case cancelIssueFrom (issue_env_of ''c1'') ''issue'' two_issues two_issues of
      Inl _ \<Rightarrow> False
    | Inr db1 \<Rightarrow>
        (case cancelIssueFrom (issue_env_of ''c2'') ''issue'' two_issues db1 of
           Inl _ \<Rightarrow> False
         | Inr db2 \<Rightarrow> committed (\<lambda>_. True) (sd_balances (xd_stock db2)) = 0 \<and> promised (\<lambda>_. True) db2 = 100
             \<and> \<not> still_read ''issue'' two_issues db1))"
  by code_simp

text \<open>
  C13. An open issue can be cancelled: where the lines of all issues were asked for with two
  decimals (\<open>eighths_lock_the_issue\<close> shows the condition is needed) and no issue was written to
  between its reading and its change, in every reachable state the cancellation of an issue that
  is neither cancelled nor dispatched goes through, closes it, frees exactly what it
  had reserved, leaves what is on hand as it was, and makes every later attempt to cancel or
  dispatch it an error.
\<close>

theorem open_issue_cancels:
  assumes "issue_step\<^sup>*\<^sup>* (empty_issues items locations lots) db" "find_issue i db = Some issue" "\<not> closed_status (xi_status issue)"
  shows "\<exists>db'. cancelIssue env i db = Inr db'
    \<and> committed P (sd_balances (xd_stock db')) = committed P (sd_balances (xd_stock db)) - needs P (xi_source issue) i db
    \<and> held P (sd_balances (xd_stock db')) = held P (sd_balances (xd_stock db))
    \<and> cancelIssue env' i db' = Inl (Bad_Input Issue_Closed)
    \<and> (xi_movement issue = None \<and> dispatch_body_ok b \<longrightarrow> dispatchIssue env' i b db' = Inl (Bad_Input Issue_Closed))"
proof -
  have inv: "issue_inv db" by (rule issue_machine.inv_reachable [OF assms(1)])
  let ?as = "map (line_adjustment (-1) i db) (issue_lines_of i db)"
  have id: "xi_id issue = i" "issue \<in> set (xd_issues db)" using find_issueD [OF assms(2)] by simp_all
  have "\<exists>s. adjustReservations (xi_source issue) ?as (xd_stock db) = Inr s"
  proof (rule release_succeeds [OF issue_invD(4) [OF inv] exact_adjustments(2)])
    have "0 \<le> line_quantity i db l" if "l \<in> set (issue_lines_of i db)" for l
    proof -
      from that issue_invD(2) [OF inv] have "0 \<le> xl_requested l" by (auto simp: issue_lines_of_def issues_ok_def list_all_iff)
      then show ?thesis by (simp add: line_quantity_def resolveLineQuantity_def toNumeric_def)
    qed
    then show "list_all (\<lambda>a. rj_delta a \<le> 0) ?as" by (simp add: list_all_iff line_adjustment_def)
    show "0 \<le> committed P (sd_balances (xd_stock db)) + asked P (xi_source issue) ?as" for P
      using promise_le_promised [OF issue_invD(2) [OF inv] id(2), of P] assms(3) id(1)
      by (simp add: issue_invD(3) [OF inv] asked_lines promise_def)
  qed
  then obtain s where s: "adjustReservations (xi_source issue) ?as (xd_stock db) = Inr s" by blast
  let ?c = "issue\<lparr>xi_status := XS_CANCELLED, xi_closedAt := Some (se_now (xe_stock env))\<rparr>"
  let ?db = "close_issue ?c (db\<lparr>xd_stock := s\<rparr>)"
  have c: "cancelIssue env i db = Inr ?db" using s assms(2,3) by (simp add: cancelIssue_def cancelIssueFrom_def)
  have f: "find_issue i ?db = Some ?c" by (simp add: find_issue_close find_put id(1) assms(2))
  have "cancelIssue env' i ?db = Inl (Bad_Input Issue_Closed)" by (simp add: cancelIssue_def cancelIssueFrom_def f closed_status_def)
  moreover have "dispatchIssue env' i b ?db = Inl (Bad_Input Issue_Closed)" if "xi_movement issue = None" "dispatch_body_ok b"
    using that by (simp add: dispatchIssue_def dispatchIssueFrom_def f closed_status_def)
  moreover have "promise P db issue = needs P (xi_source issue) i db" using assms(3) id(1) by (simp add: promise_def)
  ultimately show ?thesis using c release_inv(2,3) [OF s inv assms(2,3), of P] by simp
qed

theorem open_issue_cancels_witness:
  "\<exists>db'. cancelIssue (issue_env_of ''issue'') ''issue'' requested = Inr db' \<and> committed (\<lambda>_. True) (sd_balances (xd_stock db')) = 0"
proof -
  have "committed (\<lambda>_. True) (sd_balances (xd_stock requested)) = 350" "needs (\<lambda>_. True) ''main'' ''issue'' requested = 350" by code_simp+
  then show ?thesis
    using open_issue_cancels [OF requested_reachable requested_issue(1,3), of "issue_env_of ''issue''" "\<lambda>_. True"]
    by (auto simp: requested_issue(5))
qed

section \<open>Dispatch\<close>

text \<open>
  C14. The first dispatch of an issue turns the promise into movement: what the lines ask for
  leaves the source, unit by unit and hundredth by hundredth, arrives at the destination of a
  transfer and nowhere for a sale or a consumption, and the reservation of the issue, and no
  other, is gone.
\<close>

theorem dispatch_moves_the_promise:
  assumes "dispatchIssue env i b db = Inr (m, db')" "issue_inv db" "find_issue i db = Some issue" "xi_movement issue = None"
    and "find_by_key (dispatch_key issue) (xd_stock db) = None"
  shows "held P (sd_balances (xd_stock db')) = held P (sd_balances (xd_stock db)) - needs P (xi_source issue) i db
      + (if outgoing_type (xi_type issue) then 0 else needs P (the (xi_destination issue)) i db)
    \<and> committed P (sd_balances (xd_stock db')) = committed P (sd_balances (xd_stock db)) - needs P (xi_source issue) i db"
  using assms(1)
proof (cases rule: dispatch_cases)
  case (replay issue')
  with assms(3,4) show ?thesis by simp
next
  case (fresh issue' source destination s1 r s2)
  then have issue: "issue' = issue" using assms(3) by simp
  note fresh = fresh [unfolded issue]
  note rel = release_inv [OF fresh(7) assms(2,3) fresh(4)]
  obtain bs where bs: "s1 = xd_stock db\<lparr>sd_balances := bs\<rparr>" using rel(4) by blast
  have key: "find_by_key (dispatch_key issue) s1 = None" using assms(5) by (simp add: bs find_by_key_def)
  have dest: "sl_id (the destination) = the (xi_destination issue)" if "\<not> outgoing_type (xi_type issue)"
    using fresh(5) that
    by (auto simp: issue_locations_def resolveLocation_def assertDestinationTypeForDispatch_def res_bind_eq_Inr find_location_def
        simp del: res_bind_Inr dest: find_Some_iff_hd split: option.splits if_splits)
  have stock: "xd_stock db' = s2" by (simp add: fresh(11))
  have "promise P db issue = needs P (xi_source issue) i db"
    using fresh(4) find_issueD [OF assms(3)] by (simp add: promise_def)
  moreover note record_dispatch_held [OF fresh(9) rel(1) key, of P]
  moreover have "committed P (sd_balances s2) = committed P (sd_balances s1)"
    by (rule moves_committed [OF record_dispatch_moves [OF fresh(9)] rel(1)])
  ultimately show ?thesis using rel(2,3) [of P] dest by (auto simp: stock)
qed

theorem dispatch_moves_the_promise_witness:
  "held (\<lambda>(_, loc, _, _). loc = ''van'') (sd_balances (xd_stock dispatched)) = 350
    \<and> held (\<lambda>(_, loc, _, _). loc = ''main'') (sd_balances (xd_stock dispatched)) = held (\<lambda>(_, loc, _, _). loc = ''main'') (sd_balances (xd_stock requested)) - 350"
proof -
  have inv: "issue_inv requested" by (rule issue_machine.inv_reachable [OF requested_reachable])
  note d = dispatch_moves_the_promise [OF dispatched_run inv requested_issue(1,2,4)]
  have t: "\<not> outgoing_type (xi_type (hd (xd_issues requested)))" by (simp add: requested_issue(7) outgoing_type_def)
  have "needs (\<lambda>(_, loc, _, _). loc = ''van'') ''main'' ''issue'' requested = 0" "needs (\<lambda>(_, loc, _, _). loc = ''van'') ''van'' ''issue'' requested = 350"
    "needs (\<lambda>(_, loc, _, _). loc = ''main'') ''main'' ''issue'' requested = 350" "needs (\<lambda>(_, loc, _, _). loc = ''main'') ''van'' ''issue'' requested = 0"
    "held (\<lambda>(_, loc, _, _). loc = ''van'') (sd_balances (xd_stock requested)) = 0"
    by code_simp+
  then show ?thesis
    using d [of "\<lambda>(_, loc, _, _). loc = ''van''"] d [of "\<lambda>(_, loc, _, _). loc = ''main''"] t
    by (simp add: requested_issue(5,6))
qed

text \<open>
  C30. A dispatch repeated with the same handoff, by a client that saw no answer to the first,
  gets the movement back and changes nothing, but only as long as no attachment has a URL: the
  stored attachments come back with their keys in another order, and the texts of the two are
  compared, so with a URL the same handoff is refused as another one.
\<close>

theorem repeated_dispatch:
  assumes "dispatchIssue env i b db = Inr (m, db')"
  shows "dispatchIssue env' i b db' =
    (if list_all (\<lambda>a. ha_url a = None) (xh_attachments b) then Inr (m, db') else Inl (Taken Other_Handoff))"
  using assms
proof (cases rule: dispatch_cases)
  case (replay issue)
  have "list_all (\<lambda>a. ha_url a = None) (xh_attachments b)"
    using replay(4) by (auto simp: same_handoff_def dest: match_no_url)
  with replay show ?thesis by (simp add: dispatchIssue_def dispatchIssueFrom_def)
next
  case (fresh issue source destination s1 r s2)
  let ?d = "dispatched_issue (xe_stock env) b m issue"
  have id: "xi_id issue = i" using find_issueD [OF fresh(2)] by simp
  have "find_issue i db' = Some ?d"
    by (simp add: fresh(11) find_issue_close find_put [of i "db\<lparr>xd_stock := s2\<rparr>" issue] fresh(2) dispatched_issue_def id)
  moreover have "same_handoff ?d b \<longleftrightarrow> list_all (\<lambda>a. ha_url a = None) (xh_attachments b)"
    by (simp add: same_handoff_def dispatched_issue_def members_eq_iff list_all_iff)
  ultimately show ?thesis using fresh(1) by (simp add: dispatchIssue_def dispatchIssueFrom_def dispatched_issue_def guard_ok_def)
qed


theorem repeated_dispatch_witness:
  "dispatchIssue (issue_env_of ''again'') ''issue'' (demo_handoff None) dispatched = Inr (''mov-issue'', dispatched)
    \<and> (\<exists>db'. dispatchIssue (issue_env_of ''issue'') ''issue'' (demo_handoff (Some ''https://x'')) requested = Inr (''mov-issue'', db')
        \<and> dispatchIssue (issue_env_of ''again'') ''issue'' (demo_handoff (Some ''https://x'')) db' = Inl (Taken Other_Handoff))"
proof -
  have run: "(case dispatchIssue (issue_env_of ''issue'') ''issue'' (demo_handoff (Some ''https://x'')) requested of Inl _ \<Rightarrow> False | Inr (m, _) \<Rightarrow> m = ''mov-issue'')"
    by code_simp
  then obtain db' where d: "dispatchIssue (issue_env_of ''issue'') ''issue'' (demo_handoff (Some ''https://x'')) requested = Inr (''mov-issue'', db')"
    by (auto split: sum.splits)
  from repeated_dispatch [OF d, of "issue_env_of ''again''"] repeated_dispatch [OF dispatched_run, of "issue_env_of ''again''"] d show ?thesis
    by (auto simp: demo_handoff_def)
qed

text \<open>
  With more than two decimals an issue can be locked in: two lines of 0.125 of one tuple reserve
  0.25, are stored as 0.13 each, and ask back 0.26, so neither its cancellation nor its dispatch
  goes through.
\<close>

lemma eighths_lock_the_issue:
  "(case createIssue (issue_env_of ''issue'') (issue_demo_body [demo_line ''lot2'' (1/8), demo_line ''lot2'' (1/8)]) stocked of
      Inl _ \<Rightarrow> False
    | Inr db \<Rightarrow> committed (\<lambda>_. True) (sd_balances (xd_stock db)) = 25 \<and> map xl_requested (xd_lines db) = [13, 13]
        \<and> cancelIssue (issue_env_of ''issue'') ''issue'' db = Inl (Bad_Input Reserved_Below_Zero)
        \<and> dispatchIssue (issue_env_of ''issue'') ''issue'' (demo_handoff None) db = Inl (Bad_Input Reserved_Below_Zero))"
  by code_simp

end
