(* ===== verification/Spec2Isabelle.thy ===== *)
theory Spec2Isabelle
  imports PrivacyRequests BillingNumbers AuditExport PickerSearch NetworkFacts StockTheorems StockNumbers StockIssueTheorems
begin

text \<open>
  Verification development of iWana neXt, the management system of an internet provider: a
  NestJS API over one PostgreSQL schema per tenant (\<open>apps/api\<close>), the packages it shares with
  the portal (\<open>packages/shared\<close>, \<open>packages/database\<close>), and the portal itself. The development
  models the parts that decide about money, personal data, the audit trail, the addresses of
  the network and the stock of the warehouse, and proves what they promise.

  \<^bold>\<open>Conventions.\<close> A service method is a function on the tables it reads and writes; a throw is
  \<open>Inl\<close> of an \<open>http_error\<close>, and then the transaction is rolled back, so that no table is
  returned. Rows stand in lists in the order of their insertion; a unique index, a check or an
  exclusion constraint of a migration is a guard of the insert that meets it. The locks the
  code takes (row locks, advisory locks) make a transaction one step. Where it decides on data
  it reads without a lock, those data are an argument: \<open>dispatchIssueFrom\<close>, \<open>updateIssueFrom\<close>,
  \<open>cancelIssueFrom\<close> and \<open>recordMovementFrom\<close> take the state the transaction saw and the state it
  writes to, and \<open>dispatchIssue\<close>, \<open>updateIssue\<close>, \<open>cancelIssue\<close> and \<open>recordMovement\<close> are the case in
  which both are one; the checks and the writes of the policy are separate definitions. The
  machine of the issues lets any step come between what an operation saw and what it writes to,
  except a write to its own issue; the machine of the stock ledger records movements one after
  the other, and the writers of the policy come one after the other. The lemmas
  \<open>cancelled_twice\<close>, \<open>numbers_read_together\<close> and \<open>policy_writers_race\<close> show what happens where
  that fails. Clock values,
  identifiers and the answers of other modules are arguments or fields of an environment
  record. Strings are lists of characters below code unit 256 (in the cursors, lists of UTF-16
  units); integers that JavaScript holds in a \<open>number\<close> are \<open>int\<close>, and an address of 32 bits is
  a \<open>32 word\<close>. Optional fields are \<open>option\<close>, and \<open>option option\<close> where \<open>undefined\<close> and \<open>null\<close>
  differ. Every definition computes, and the witnesses evaluate them in the kernel.

  \<^bold>\<open>Theories and source.\<close>

  \<^item> \<open>Prelude\<close>: errors, the result monad, JavaScript strings and numbers, and two locales for
    state machines, \<open>step_invariant\<close> and its extension \<open>step_refinement\<close>.

  \<^item> \<open>CivilDate\<close>, \<open>ColombiaCalendar\<close>, \<open>BillingCalendar\<close>: \<open>packages/shared/src/calendar\<close>. The
    text of a civil date and its arithmetic, both through the JavaScript \<open>Date\<close> and day by
    day; the holidays of Colombia and the counter of business days; periods, generation, due
    and cutoff dates, the choice of the period to bill and the preview. The counter of
    business days is a \<open>partial_function (option)\<close>; its totality is \<open>addColombiaBusinessDays_total\<close>.
    The loops over months and over holidays are structural.

  \<^item> \<open>Allocation\<close>, \<open>BillingPolicy\<close>, \<open>BillingLedger\<close>, \<open>BillingDocuments\<close>, \<open>BillingMachine\<close>,
    \<open>BillingNumbers\<close>: \<open>packages/shared/src/contracts/billing\<close> and \<open>apps/api/src/modules/billing\<close>.
    Amounts and the FIFO suggestion; the policy of the tenant and of a contract; payments,
    their allocations and the paid signals of periods; drafts, issue, annulment and discarding
    of documents with their consecutive numbers; all transactions together as one step
    relation (\<open>billing_step\<close>), its invariants and its events.

  \<^item> \<open>PrivacyErasure\<close>, \<open>PrivacyRequests\<close>: \<open>crm-personal-data-erasure.adapter.ts\<close> and
    \<open>apps/api/src/modules/privacy/requests\<close>. The adapter that plans and executes an erasure over
    its participants, with its blockers and its refusals; the participants of the other modules
    are functions it is given. Requests of data subjects, their deadlines, the transition table,
    identity checks, suppression, marks and tasks, as one step relation with the checks of
    migrations 146 and 149 and its event log.

  \<^item> \<open>AuditSanitize\<close>, \<open>AuditTrail\<close>, \<open>CursorCodec\<close>, \<open>AuditQuery\<close>, \<open>AuditExport\<close>:
    \<open>apps/api/src/modules/audit\<close> and the cursors of \<open>common/pagination\<close>. The denylist and the walk
    over JSON values, the writers and the interceptor, the jobs of the worker that write to or
    drop the audit tables, the keyset query with its cursor, the responses and the CSV export.
    The interface of a cursor is the locale \<open>cursor_codec\<close>, interpreted on the seven codecs of
    the code.

  \<^item> \<open>Pagination\<close>, \<open>PickerSearch\<close>: the paged listings of \<open>common/pagination\<close> and the lookup of the
    inventory (\<open>inventory-item.service.ts\<close>).

  \<^item> \<open>Ipv4\<close>, \<open>NetworkTables\<close>, \<open>NetworkCatalog\<close>, \<open>Ipam\<close>, \<open>Provisioning\<close>: \<open>apps/api/src/modules/network\<close>
    and the migrations 160, 161 and 165. Addresses and blocks; the tables; the catalog of
    routers, interfaces, local addresses and networks; the choice and reservation of an
    address; reserve, certify, release and regularize, the worker of execution events and the
    periodic reconciliation. A function with the suffix \<open>_tx\<close> is the body of a transaction.

  \<^item> \<open>Leases\<close>, \<open>CatalogRules\<close>, \<open>NetworkMachine\<close>, \<open>NetworkFacts\<close>: the network as one step relation
    (\<open>net_step\<close>). The effects of its operations on the tables are two small relations
    (\<open>lease_effect\<close>, \<open>catalog_effect\<close>); the invariants are proved on the effects, every operation
    is shown to be a run of them, and the machine refines a table of leases (\<open>lease_step\<close>) by
    an interpretation of \<open>step_refinement\<close>.

  \<^item> \<open>StockTables\<close>, \<open>StockBalances\<close>, \<open>StockAssets\<close>, \<open>StockLedger\<close>, \<open>StockMovements\<close>, \<open>StockOrders\<close>:
    the stock ledger of \<open>apps/api/src/modules/inventory/services\<close>. The tables and the two
    roundings of a quantity; availability, the order of lots and the change of a balance;
    serialized equipment, its statuses, events and loans; the recording of a movement and the
    transfer; issues, sales, consumption, returns, write-offs and adjustments; the movements of
    execution orders with their lots, customer sites and reversals. A quantity at rest is an
    \<open>int\<close> of hundredths (\<open>numeric(12,2)\<close>), a quantity in flight an exact rational.

  \<^item> \<open>StockInvariants\<close>, \<open>StockMachine\<close>, \<open>StockFacts\<close>, \<open>StockDemo\<close>, \<open>StockTheorems\<close>,
    \<open>StockNumbers\<close>: the stock as one step
    relation (\<open>stock_step\<close>). Every operation is a chain of three kinds of effect
    (\<open>stock_effect\<close>); what holds for a class of quantities is proved in the locale
    \<open>quantity_class\<close>, interpreted on all quantities and on those of two decimals.

  \<^item> \<open>StockIssues\<close>, \<open>StockReservations\<close>, \<open>StockIssueMachine\<close>, \<open>StockIssueFacts\<close>,
    \<open>StockIssueTheorems\<close>: \<open>stock-issue.service.ts\<close> and \<open>serialized-group.validator.ts\<close>, the
    documents by which goods leave the main warehouse, with the schemas of their bodies. What
    grouping and releasing reservations does, what an issue asks for (\<open>promised\<close>), and ledger
    and issues together as one step relation (\<open>issue_step\<close>), whose invariant is that what is
    reserved is what the open issues ask for.

  \<^bold>\<open>What the properties show.\<close> Conservation of money in billing, exactness of its events and
  numbers; idempotency of payments; soundness of the policy under serial writers; the dates of billing and of legal terms; the guards of erasure and the
  replay of the request log; that no secret of the denylist reaches the audit tables, that the
  trail is read completely and exported exactly, and where it is not; the bounds of paging and
  search; that addresses in use are unique, lawful and held by the right provisioning, that an
  address in service is never taken away, the exactness of occupancy, and the agreement of the
  two workers; that stock is never promised twice, that balances and kardex agree while
  quantities have two decimals and where they part, that what is reserved is what the open
  issues ask for and can be freed, that orders use up the lots that expire first and can be taken
  back (all three for two decimals, with the lemmas that show the condition is needed), that equipment keeps to the table of statuses, and which replays are taken
  for new movements and the reverse. Properties of kind error state where the code departs from what it means to do.

  \<^bold>\<open>Bounds and fuel.\<close> The reservation of an address makes two attempts, as the code does; the
  recursion of the audit sanitizer carries the depth of the code. No other definition has fuel.
  Civil dates are those of the years 1 to 9999; sequences are unbounded. The decimals of a
  printed quantity are cut after 24, more than a JavaScript number has.

  \<^bold>\<open>Not modelled.\<close> Controllers, decorators and DTO classes (they pass values on); the portal and
  its API client; read models that only project rows (lists, dashboards, order context);
  encryption, signatures, PDF and mail (third-party code); floating-point pricing and
  proration; the seeds and migrations beyond the constraints named above; of the inventory,
  purchasing, goods receipts with their moving average, the documents of counts and
  write-offs that ask the ledger for movements, its events and its lists, and the rounding of
  doubles (a quantity is the rational it denotes); the modules of CRM, tasks, field work,
  commerce, users and access control.
\<close>

end
